(* ===== verification/Prelude.thy ===== *)
theory Prelude
  imports Complex_Main "HOL-Library.Char_ord" "HOL-Library.List_Lexorder"
    "HOL-Library.Product_Lexorder"
begin

text \<open>
  What the components share: the Go values they compute with (strings, instants, durations,
  64-bit integers), the SQL statements the stores are written with (a table is the list of its
  rows), and the lemma collections.

  Strings are byte strings (\<open>string\<close>, a list of 8-bit characters), as Go's are. The case and
  white-space operations of the \<open>strings\<close> package are modelled on ASCII; a byte above 127 is
  neither a letter nor a space.

  An instant (\<open>time.Time\<close>) is the number of nanoseconds since Go's zero time, 1 January of
  year 1, UTC: \<open>IsZero\<close> is \<open>t = 0\<close>. A \<open>time.Duration\<close> is a number of
  nanoseconds. \<open>Time.Sub\<close> saturates at the ends of the 64-bit range as Go's does, which is
  what makes the zero time longer ago than any period the code compares it with.
\<close>

section \<open>Lemma collections\<close>

named_theorems table_simps \<open>what a statement on a table leaves at a key\<close>
named_theorems op_defs \<open>the operations of a component, to be unfolded together\<close>
named_theorems keeps_intros \<open>an operation keeps an invariant\<close>

section \<open>Instants, durations, 64-bit integers\<close>

type_synonym gtime = int
type_synonym duration = int

abbreviation (input) zero_time :: gtime where "zero_time \<equiv> 0"

definition max_int64 :: int where "max_int64 = 9223372036854775807"
definition min_int64 :: int where "min_int64 = - 9223372036854775808"

text \<open>The value a 64-bit signed register holds after an addition: two's complement.\<close>

definition wrap64 :: "int \<Rightarrow> int" where
  "wrap64 x = (x + 9223372036854775808) mod 18446744073709551616 - 9223372036854775808"

lemma wrap64_id [simp]: "min_int64 \<le> x \<Longrightarrow> x \<le> max_int64 \<Longrightarrow> wrap64 x = x"
  by (simp add: wrap64_def min_int64_def max_int64_def)

lemma wrap64_over:
  assumes "max_int64 < x" and "x \<le> max_int64 + max_int64"
  shows "wrap64 x = x - 18446744073709551616"
proof -
  let ?y = "x - 9223372036854775808"
  have "(?y + 18446744073709551616) mod 18446744073709551616 = ?y mod 18446744073709551616"
    by (rule mod_add_self2)
  also have "\<dots> = ?y" using assms by (intro mod_pos_pos_trivial) (auto simp: max_int64_def)
  finally show ?thesis by (simp add: wrap64_def add.commute)
qed

lemma wrap64_range: "min_int64 \<le> wrap64 x \<and> wrap64 x \<le> max_int64"
proof -
  have "0 \<le> (x + 9223372036854775808) mod 18446744073709551616"
    and "(x + 9223372036854775808) mod 18446744073709551616 < 18446744073709551616"
    by simp_all
  then show ?thesis unfolding wrap64_def min_int64_def max_int64_def by linarith
qed

text \<open>\<open>t.Sub(u)\<close>.\<close>

definition time_sub :: "gtime \<Rightarrow> gtime \<Rightarrow> duration" where
  "time_sub t u = max min_int64 (min max_int64 (t - u))"

lemma time_sub_ge_iff: "d \<le> max_int64 \<Longrightarrow> min_int64 < d \<Longrightarrow> d \<le> time_sub t u \<longleftrightarrow> d \<le> t - u"
  by (auto simp: time_sub_def)

lemma time_sub_self [simp]: "time_sub t t = 0"
  by (simp add: time_sub_def min_int64_def max_int64_def)

lemma time_sub_eq: "min_int64 \<le> t - u \<Longrightarrow> t - u \<le> max_int64 \<Longrightarrow> time_sub t u = t - u"
  by (simp add: time_sub_def)

lemma time_sub_mono: "t \<le> t' \<Longrightarrow> time_sub t u \<le> time_sub t' u"
  by (auto simp: time_sub_def)

lemma time_sub_nonneg: "u \<le> t \<Longrightarrow> 0 \<le> time_sub t u"
  by (simp add: time_sub_def max_int64_def)

definition second :: duration where "second = 1000000000"
definition minute :: duration where "minute = 60 * second"
definition hour :: duration where "hour = 60 * minute"

lemmas duration_defs = second_def minute_def hour_def min_int64_def max_int64_def

text \<open>The day a time falls on (UTC), which \<open>Format("2006-01-02")\<close> prints: days since the
  zero time, in the same order as the printed strings.\<close>

definition day_of :: "gtime \<Rightarrow> int" where
  "day_of t = t div (24 * hour)"

lemma day_of_mono: "t \<le> u \<Longrightarrow> day_of t \<le> day_of u"
  by (simp add: day_of_def duration_defs zdiv_mono1)

text \<open>\<open>Time.Unix()\<close>: whole seconds since 1970. The zero time is 62135596800 seconds before.\<close>

definition unix_of :: "gtime \<Rightarrow> int" where
  "unix_of t = t div second - 62135596800"

definition of_unix :: "int \<Rightarrow> gtime" where
  "of_unix s = (s + 62135596800) * second"

lemma unix_of_of_unix [simp]: "unix_of (of_unix s) = s"
  by (simp add: unix_of_def of_unix_def second_def)

lemma unix_of_mono: "t \<le> u \<Longrightarrow> unix_of t \<le> unix_of u"
  by (simp add: unix_of_def second_def zdiv_mono1)

section \<open>Strings\<close>

definition HasPrefix :: "string \<Rightarrow> string \<Rightarrow> bool" where
  "HasPrefix s p \<longleftrightarrow> take (length p) s = p"

definition HasSuffix :: "string \<Rightarrow> string \<Rightarrow> bool" where
  "HasSuffix s p \<longleftrightarrow> length p \<le> length s \<and> drop (length s - length p) s = p"

definition TrimPrefix :: "string \<Rightarrow> string \<Rightarrow> string" where
  "TrimPrefix s p = (if HasPrefix s p then drop (length p) s else s)"

definition TrimSuffix :: "string \<Rightarrow> string \<Rightarrow> string" where
  "TrimSuffix s p = (if HasSuffix s p then take (length s - length p) s else s)"

lemma HasPrefix_iff: "HasPrefix s p \<longleftrightarrow> (\<exists>t. s = p @ t)"
  by (metis HasPrefix_def append_eq_conv_conj append_take_drop_id)

lemma HasSuffix_iff: "HasSuffix s p \<longleftrightarrow> (\<exists>t. s = t @ p)"
proof
  assume "HasSuffix s p"
  then have "s = take (length s - length p) s @ p"
    by (metis HasSuffix_def append_take_drop_id)
  then show "\<exists>t. s = t @ p" by blast
qed (auto simp: HasSuffix_def)

lemma HasSuffix_append [simp]: "HasSuffix (t @ p) p"
  by (simp add: HasSuffix_def)

lemma HasPrefix_append [simp]: "HasPrefix (p @ t) p"
  by (simp add: HasPrefix_def)

lemma TrimSuffix_append [simp]: "TrimSuffix (t @ p) p = t"
  by (simp add: TrimSuffix_def HasSuffix_def)

lemma TrimPrefix_append [simp]: "TrimPrefix (p @ t) p = t"
  by (simp add: TrimPrefix_def HasPrefix_def)

definition is_space :: "char \<Rightarrow> bool" where
  "is_space c \<longleftrightarrow> c \<in> {CHR 0x09, CHR 0x0A, CHR 0x0B, CHR 0x0C, CHR 0x0D, CHR '' ''}"

definition TrimSpace :: "string \<Rightarrow> string" where
  "TrimSpace s = rev (dropWhile is_space (rev (dropWhile is_space s)))"

definition lower_char :: "char \<Rightarrow> char" where
  "lower_char c = (let n = of_char c :: nat
    in if 65 \<le> n \<and> n \<le> 90 then char_of (n + 32) else c)"

definition ToLower :: "string \<Rightarrow> string" where
  "ToLower s = map lower_char s"

definition upper_char :: "char \<Rightarrow> char" where
  "upper_char c = (let n = of_char c :: nat
    in if 97 \<le> n \<and> n \<le> 122 then char_of (n - 32) else c)"

definition ToUpper :: "string \<Rightarrow> string" where
  "ToUpper s = map upper_char s"

definition EqualFold :: "string \<Rightarrow> string \<Rightarrow> bool" where
  "EqualFold s t \<longleftrightarrow> ToLower s = ToLower t"

text \<open>\<open>strings.Contains\<close>.\<close>

fun Contains :: "string \<Rightarrow> string \<Rightarrow> bool" where
  "Contains [] p = (p = [])"
| "Contains (c # s) p = (HasPrefix (c # s) p \<or> Contains s p)"

text \<open>\<open>strings.Cut(s, sep)\<close> for a one-byte separator: before, after, found.\<close>

fun Cut :: "string \<Rightarrow> char \<Rightarrow> string \<times> string \<times> bool" where
  "Cut [] sep = ([], [], False)"
| "Cut (c # s) sep = (if c = sep then ([], s, True)
     else (let (a, b, ok) = Cut s sep in (c # a, b, ok)))"

text \<open>\<open>strings.Fields\<close>: the maximal runs of characters that are not spaces.\<close>

fun Fields_from :: "string \<Rightarrow> string \<Rightarrow> string list" where
  "Fields_from w [] = (if w = [] then [] else [rev w])"
| "Fields_from w (c # s) =
     (if is_space c then (if w = [] then Fields_from [] s else rev w # Fields_from [] s)
      else Fields_from (c # w) s)"

definition Fields :: "string \<Rightarrow> string list" where
  "Fields s = Fields_from [] s"

text \<open>\<open>strings.Split\<close> for a one-byte separator, and \<open>strings.FieldsFunc\<close>.\<close>

fun Split :: "string \<Rightarrow> char \<Rightarrow> string list" where
  "Split [] sep = [[]]"
| "Split (c # s) sep = (if c = sep then [] # Split s sep else (case Split s sep of [] \<Rightarrow> [[c]] | x # xs \<Rightarrow> (c # x) # xs))"

fun FieldsFunc :: "(char \<Rightarrow> bool) \<Rightarrow> string \<Rightarrow> string list" where
  "FieldsFunc f [] = []"
| "FieldsFunc f (c # s) = (if f c then FieldsFunc f s
     else (case s of [] \<Rightarrow> [[c]] | d # _ \<Rightarrow>
        if f d then [c] # FieldsFunc f s
        else (case FieldsFunc f s of [] \<Rightarrow> [[c]] | x # xs \<Rightarrow> (c # x) # xs)))"

text \<open>\<open>strings.Join\<close> and the decimal text of a non-negative integer (\<open>%d\<close>).\<close>

fun Join :: "string list \<Rightarrow> string \<Rightarrow> string" where
  "Join [] sep = []"
| "Join [s] sep = s"
| "Join (s # t # ts) sep = s @ sep @ Join (t # ts) sep"

fun show_nat :: "nat \<Rightarrow> string" where
  "show_nat n = (if n < 10 then [char_of (48 + n)]
     else show_nat (n div 10) @ [char_of (48 + n mod 10)])"

declare show_nat.simps [simp del]

definition show_int :: "int \<Rightarrow> string" where
  "show_int i = (if i < 0 then CHR ''-'' # show_nat (nat (- i)) else show_nat (nat i))"

text \<open>\<open>fmt.Sscanf(s, "%d", &n)\<close> into an \<open>int64\<close>: spaces (not newlines) are skipped, a
  sign is taken, then decimal digits; what follows them is left unread. No digit, or a value
  outside 64 bits, is an error.\<close>

definition is_digit :: "char \<Rightarrow> bool" where
  "is_digit c \<longleftrightarrow> (let n = of_char c :: nat in 48 \<le> n \<and> n \<le> 57)"

definition digits_val :: "string \<Rightarrow> int" where
  "digits_val ds = foldl (\<lambda>v c. 10 * v + (of_char c - 48)) 0 ds"

definition Sscanf_d :: "string \<Rightarrow> int option" where
  "Sscanf_d s =
     (let s1 = dropWhile (\<lambda>c. is_space c \<and> c \<noteq> CHR 0x0A) s;
          neg = (s1 \<noteq> [] \<and> hd s1 = CHR ''-'');
          s2 = (if s1 \<noteq> [] \<and> (hd s1 = CHR ''-'' \<or> hd s1 = CHR ''+'') then tl s1 else s1);
          ds = takeWhile is_digit s2;
          v = (if neg then - digits_val ds else digits_val ds)
      in if ds = [] \<or> v < min_int64 \<or> max_int64 < v then None else Some v)"

text \<open>\<open>strconv.Atoi\<close>.\<close>

definition Atoi :: "string \<Rightarrow> int option" where
  "Atoi x =
     (let neg = (x \<noteq> [] \<and> hd x = CHR ''-''); ds = (if x \<noteq> [] \<and> hd x \<in> {CHR ''-'', CHR ''+''} then tl x else x);
          v = (if neg then - digits_val ds else digits_val ds)
      in if ds = [] \<or> \<not> list_all is_digit ds \<or> v < min_int64 \<or> max_int64 < v then None else Some v)"

text \<open>A dash outside ASCII, in UTF-8.\<close>

definition em_dash :: string where
  "em_dash = [CHR 0xE2, CHR 0x80, CHR 0x94]"

text \<open>
  A formatted text (\<open>fmt.Sprintf\<close>) is kept as the list of what it is made of: literal bytes,
  and the values with the verb they are printed with. Rendering the values to bytes is
  \<open>fmt\<close>'s.
\<close>

datatype frag =
    Str string
  | KitchenTime gtime \<comment> \<open>\<open>t.Format(time.Kitchen)\<close>\<close>
  | DurText duration \<comment> \<open>\<open>d.String()\<close>\<close>
  | Percent0 rat \<comment> \<open>\<open>%.0f%%\<close>\<close>
  | Fixed2 rat \<comment> \<open>\<open>%.2f\<close>\<close>
  | Num int \<comment> \<open>\<open>%d\<close>\<close>
  | Quoted string \<comment> \<open>\<open>%q\<close>\<close>

type_synonym message = "frag list"

text \<open>Go's integer division truncates. \<open>Duration.Round\<close> rounds half away from zero and
  saturates.\<close>

definition go_div :: "int \<Rightarrow> int \<Rightarrow> int" where
  "go_div a b = sgn a * sgn b * (\<bar>a\<bar> div \<bar>b\<bar>)"

definition go_mod :: "int \<Rightarrow> int \<Rightarrow> int" where
  "go_mod a b = a - b * go_div a b"

definition dur_round :: "duration \<Rightarrow> duration \<Rightarrow> duration" where
  "dur_round d m =
     (if m \<le> 0 then d
      else let r = \<bar>go_mod d m\<bar>
           in if d < 0 then (if r + r < m then d + r else max min_int64 (d - m + r))
              else (if r + r < m then d - r else min max_int64 (d + m - r)))"

text \<open>A value decoded by \<open>encoding/json\<close>; an object lists its fields in the order a run visits
  them.\<close>

datatype json =
    JNull
  | JBool bool
  | JNum rat
  | JStr string
  | JArr "json list"
  | JObj "(string \<times> json) list"

section \<open>Tables\<close>

text \<open>
  A table is the list of its rows. \<open>upsert key mrg x\<close> is
  \<^verbatim>\<open>INSERT ... ON CONFLICT(key) DO UPDATE SET ...\<close>: with no row of \<open>x\<close>'s key it
  appends \<open>x\<close>, otherwise the row \<open>r\<close> becomes \<open>mrg r x\<close>, where \<open>x\<close> is what SQL
  calls \<open>excluded\<close>.
\<close>

fun upsert :: "('a \<Rightarrow> 'k) \<Rightarrow> ('a \<Rightarrow> 'a \<Rightarrow> 'a) \<Rightarrow> 'a \<Rightarrow> 'a list \<Rightarrow> 'a list" where
  "upsert key mrg x [] = [x]"
| "upsert key mrg x (r # rs) = (if key r = key x then mrg r x # rs else r # upsert key mrg x rs)"

definition row_of :: "('a \<Rightarrow> 'k) \<Rightarrow> 'k \<Rightarrow> 'a list \<Rightarrow> 'a option" where
  "row_of key k rs = List.find (\<lambda>r. key r = k) rs"

definition update_where :: "('a \<Rightarrow> bool) \<Rightarrow> ('a \<Rightarrow> 'a) \<Rightarrow> 'a list \<Rightarrow> 'a list" where
  "update_where p f rs = map (\<lambda>r. if p r then f r else r) rs"

definition delete_where :: "('a \<Rightarrow> bool) \<Rightarrow> 'a list \<Rightarrow> 'a list" where
  "delete_where p rs = filter (\<lambda>r. \<not> p r) rs"

text \<open>A table with a primary key, and an update clause that never changes the key.\<close>

locale keyed_table =
  fixes key :: "'a \<Rightarrow> 'k"
    and mrg :: "'a \<Rightarrow> 'a \<Rightarrow> 'a"
  assumes key_mrg: "key r = key x \<Longrightarrow> key (mrg r x) = key r"
begin

lemma row_upsert_same:
  "row_of key (key x) (upsert key mrg x rs) =
     Some (case row_of key (key x) rs of None \<Rightarrow> x | Some r \<Rightarrow> mrg r x)"
  by (induction rs) (auto simp: row_of_def key_mrg)

lemma row_upsert_other:
  "k \<noteq> key x \<Longrightarrow> row_of key k (upsert key mrg x rs) = row_of key k rs"
  by (induction rs) (auto simp: row_of_def key_mrg)

lemma row_upsert:
  "row_of key k (upsert key mrg x rs) =
     (if k = key x then Some (case row_of key k rs of None \<Rightarrow> x | Some r \<Rightarrow> mrg r x)
      else row_of key k rs)"
  by (simp add: row_upsert_same row_upsert_other)

lemma keys_upsert: "key ` set (upsert key mrg x rs) = insert (key x) (key ` set rs)"
  by (induction rs) (auto simp: key_mrg)

lemma distinct_upsert:
  "distinct (map key rs) \<Longrightarrow> distinct (map key (upsert key mrg x rs))"
proof (induction rs)
  case (Cons r rs)
  have "key r \<noteq> key x \<Longrightarrow> key r \<notin> key ` set (upsert key mrg x rs)"
    using Cons.prems by (auto simp: keys_upsert)
  with Cons show ?case by (auto simp: key_mrg)
qed simp

lemma mem_upsertD:
  "y \<in> set (upsert key mrg x rs) \<Longrightarrow> y \<in> set rs \<or> y = x \<or> (\<exists>r\<in>set rs. key r = key x \<and> y = mrg r x)"
  by (induction rs) (auto split: if_splits)

lemma mem_upsert_other: "y \<in> set rs \<Longrightarrow> key y \<noteq> key x \<Longrightarrow> y \<in> set (upsert key mrg x rs)"
  by (induction rs) auto

end

lemma row_of_Some: "row_of key k rs = Some r \<Longrightarrow> r \<in> set rs \<and> key r = k"
  by (auto simp: row_of_def find_Some_iff)

lemma row_of_None: "row_of key k rs = None \<longleftrightarrow> k \<notin> key ` set rs"
  by (auto simp: row_of_def find_None_iff)

lemma row_of_mem:
  "distinct (map key rs) \<Longrightarrow> r \<in> set rs \<Longrightarrow> row_of key (key r) rs = Some r"
  by (induction rs) (auto simp: row_of_def image_iff)

lemma ex_row_iff:
  assumes "distinct (map key rs)"
  shows "(\<exists>r\<in>set rs. key r = k \<and> P r) \<longleftrightarrow>
    (case row_of key k rs of None \<Rightarrow> False | Some r \<Rightarrow> P r)"
proof (cases "row_of key k rs")
  case None
  then have "k \<notin> key ` set rs" by (simp add: row_of_None)
  with None show ?thesis by auto
next
  case (Some r)
  then have "r \<in> set rs" "key r = k" by (auto dest: row_of_Some)
  with Some show ?thesis using row_of_mem [OF assms] by (auto; metis option.inject)
qed

lemma map_key_update_where [simp]:
  "(\<And>r. key (f r) = key r) \<Longrightarrow> map key (update_where p f rs) = map key rs"
  by (simp add: update_where_def)

lemma distinct_delete_where:
  "distinct (map key rs) \<Longrightarrow> distinct (map key (delete_where p rs))"
  by (induction rs) (auto simp: delete_where_def)

lemma row_update_where:
  "(\<And>r. key (f r) = key r) \<Longrightarrow>
   row_of key k (update_where p f rs) =
     map_option (\<lambda>r. if p r then f r else r) (row_of key k rs)"
  by (induction rs) (auto simp: row_of_def update_where_def)

lemma mem_delete_where [simp]: "r \<in> set (delete_where p rs) \<longleftrightarrow> r \<in> set rs \<and> \<not> p r"
  by (simp add: delete_where_def)

lemma row_delete_where_key:
  "row_of key k (delete_where (\<lambda>r. key r = k') rs) = (if k = k' then None else row_of key k rs)"
  by (induction rs) (auto simp: row_of_def delete_where_def)

section \<open>Errors of the database driver\<close>

text \<open>
  The SQL driver is not part of the program. A store call is given the driver's answer to it,
  \<open>None\<close> when the statement ran and the driver's message otherwise, and does nothing to the
  tables when it failed.
\<close>

type_synonym dberr = "string option"

text \<open>A \<^verbatim>\<open>SELECT ... LIMIT n\<close>: the first \<open>n\<close> rows; the stores replace a limit that is not
  positive with one of their own.\<close>

definition limit_or :: "int \<Rightarrow> nat \<Rightarrow> nat" where
  "limit_or limit dflt = (if limit \<le> 0 then dflt else nat limit)"

lemma sort_key_filter_sorted:
  "sorted (map f xs) \<Longrightarrow> sort_key f (filter P xs) = filter P xs"
  by (induction xs) (auto simp: insort_is_Cons)

text \<open>Decimal texts: made of digits, and read back as the number they print.\<close>

lemma of_char_digit [simp]:
  assumes "d < 10"
  shows "(of_char (char_of (48 + d) :: char) :: int) = 48 + int d"
proof -
  have "(of_char (char_of (48 + d) :: char) :: int) = int (of_char (char_of (48 + d) :: char) :: nat)"
    by (rule of_nat_of_char [symmetric])
  also have "(of_char (char_of (48 + d) :: char) :: nat) = 48 + d"
    using assms by (simp only: of_char_of) simp
  finally show ?thesis by simp
qed

lemma show_nat_digits: "set (show_nat n) \<subseteq> {c. is_digit c}"
proof (induction n rule: show_nat.induct)
  case (1 n)
  have d: "is_digit (char_of (48 + k))" if "k < 10" for k :: nat
    using that by (simp add: is_digit_def)
  show ?case
  proof (cases "n < 10")
    case True
    then show ?thesis using d [OF True] by (subst show_nat.simps) simp
  next
    case False
    then show ?thesis using 1 [OF False] d [of "n mod 10"] by (subst show_nat.simps) auto
  qed
qed

lemma digits_val_show_nat: "digits_val (show_nat n) = int n"
proof (induction n rule: show_nat.induct)
  case (1 n)
  show ?case
  proof (cases "n < 10")
    case True
    then show ?thesis by (subst show_nat.simps) (simp add: digits_val_def of_char_digit)
  next
    case False
    have "digits_val (show_nat n) = 10 * digits_val (show_nat (n div 10)) + int (n mod 10)"
      using False by (subst show_nat.simps) (simp add: digits_val_def)
    moreover have "10 * int (n div 10) + int (n mod 10) = int n"
      by (metis div_mult_mod_eq mult.commute of_nat_add of_nat_mult of_nat_numeral)
    ultimately show ?thesis using 1 [OF False] by simp
  qed
qed

lemma show_nat_inj: "show_nat m = show_nat n \<longleftrightarrow> m = n"
  using digits_val_show_nat by (metis of_nat_eq_iff)

lemma show_nat_no: "\<not> is_digit c \<Longrightarrow> c \<notin> set (show_nat n)"
  using show_nat_digits [of n] by auto

lemma show_nat_nonempty [simp]: "show_nat n \<noteq> []"
  by (subst show_nat.simps) simp

lemma show_int_inj: "show_int i = show_int j \<longleftrightarrow> i = j"
proof -
  have m: "CHR ''-'' # xs \<noteq> show_nat n" for xs n
    using show_nat_no [of "CHR ''-''" n] by (auto simp: is_digit_def dest: sym)
  then have m': "show_nat n \<noteq> CHR ''-'' # xs" for xs n by metis
  show ?thesis by (auto simp: show_int_def show_nat_inj m m')
qed

lemma show_int_no: "\<not> is_digit c \<Longrightarrow> c \<noteq> CHR ''-'' \<Longrightarrow> c \<notin> set (show_int i)"
  by (simp add: show_int_def show_nat_no)

text \<open>Two texts joined by a separator the second parts do not contain.\<close>

lemma sep_inj:
  assumes "a @ c # x = b @ c # y" and "c \<notin> set x" and "c \<notin> set y"
  shows "a = b \<and> x = y"
proof -
  have "rev x @ c # rev a = rev y @ c # rev b" using arg_cong [OF assms(1), of rev] by simp
  moreover have "takeWhile (\<lambda>d. d \<noteq> c) (rev z @ c # w) = rev z" if "c \<notin> set z" for z w
    using that by (induction z rule: rev_induct) auto
  ultimately have "rev x = rev y" using assms(2,3) by metis
  with assms(1) show ?thesis by simp
qed

text \<open>Setting a field of a JSON object.\<close>

definition obj_set :: "string \<Rightarrow> 'v \<Rightarrow> (string \<times> 'v) list \<Rightarrow> (string \<times> 'v) list" where
  "obj_set k v m = upsert fst (\<lambda>_ x. x) (k, v) m"

lemma set_upsert_replace:
  "distinct (map key rs) \<Longrightarrow>
   set (upsert key (\<lambda>_ x. x) x rs) = insert x {r \<in> set rs. key r \<noteq> key x}"
  by (induction rs) (auto simp: image_iff)

text \<open>Trimming does not change the fields of a text.\<close>

lemma Fields_from_snoc: "is_space c \<Longrightarrow> Fields_from w (s @ [c]) = Fields_from w s"
  by (induction s arbitrary: w) auto

lemma Fields_TrimSpace: "Fields (TrimSpace s) = Fields s"
proof -
  have l: "Fields (dropWhile is_space t) = Fields t" for t
    by (induction t) (auto simp: Fields_def)
  have r: "Fields (rev (dropWhile is_space t)) = Fields (rev t)" for t
    by (induction t) (auto simp: Fields_def Fields_from_snoc)
  show ?thesis using r [of "rev (dropWhile is_space s)"] l [of s] by (simp add: TrimSpace_def)
qed

lemma TrimSpace_idem: "TrimSpace (TrimSpace s) = TrimSpace s"
proof -
  have a: "dropWhile P (dropWhile P t) = dropWhile P t" for P and t :: string by (induction t) auto
  have b: "dropWhile P (rev (dropWhile P (rev t))) = rev (dropWhile P (rev t))"
    if "dropWhile P t = t" for P and t :: string
  proof -
    obtain u where u: "t = rev (dropWhile P (rev t)) @ u"
      by (metis rev_append rev_rev_ident takeWhile_dropWhile_id)
    show ?thesis
    proof (cases "rev (dropWhile P (rev t))")
      case (Cons c w)
      with u that have "\<not> P c" by (metis append_Cons dropWhile_eq_self_iff list.discI list.sel(1))
      with Cons show ?thesis by simp
    next
      case Nil
      show ?thesis unfolding Nil by simp
    qed
  qed
  show ?thesis unfolding TrimSpace_def using a b by (metis rev_rev_ident)
qed

text \<open>Loops over a list.\<close>

lemma fold_inv: "P s \<Longrightarrow> (\<And>y s. y \<in> set xs \<Longrightarrow> P s \<Longrightarrow> P (g y s)) \<Longrightarrow> P (fold g xs s)"
  by (induction xs arbitrary: s) auto

lemma fold_keeps: "(\<And>x s. f (g x s) = f s) \<Longrightarrow> f (fold g xs s) = f s"
  by (induction xs arbitrary: s) auto

end
