(* ===== verification/Capability_Store.thy ===== *)
theory Capability_Store
  imports Prelude
begin

text \<open>
  \<^verbatim>\<open>internal/store/capability_store.go\<close>: the two tables of the capability broker,
  \<open>capability_grants\<close> (who may do what, until when) and \<open>capability_meter\<close> (how often
  each subject used or was refused a capability, per day), and every statement run on them. The
  contract a client of the grants relies on is the locale \<open>grant_table\<close>, interpreted here on
  the statements.
\<close>

section \<open>Rows\<close>

definition CapTool :: string where "CapTool = ''tool''"
definition CapHTTP :: string where "CapHTTP = ''http''"
definition CapMemory :: string where "CapMemory = ''memory''"
definition CapChannel :: string where "CapChannel = ''channel''"
definition CapSpend :: string where "CapSpend = ''spend''"
definition CapWildcard :: string where "CapWildcard = ''*''"
definition SubjectAny :: string where "SubjectAny = ''*''"
definition writeSuffix :: string where "writeSuffix = '':write''"

lemmas cap_names = CapTool_def CapHTTP_def CapMemory_def CapChannel_def CapSpend_def
  CapWildcard_def SubjectAny_def writeSuffix_def

record Grant =
  g_Subject :: string
  g_Capability :: string
  g_Value :: string
  g_GrantedBy :: string
  g_GrantedAt :: gtime
  g_ExpiresAt :: "gtime option"

record MeterReading =
  m_Subject :: string
  m_Capability :: string
  m_Day :: int
  m_Allowed :: int
  m_Refused :: int
  m_Units :: int

record cap_db =
  capability_grants :: "Grant list"
  capability_meter :: "MeterReading list"

definition grant_key :: "Grant \<Rightarrow> string \<times> string \<times> string" where
  "grant_key g = (g_Subject g, g_Capability g, g_Value g)"

definition merge_grant :: "Grant \<Rightarrow> Grant \<Rightarrow> Grant" where
  "merge_grant r x = r\<lparr>g_GrantedBy := g_GrantedBy x, g_GrantedAt := g_GrantedAt x,
     g_ExpiresAt := g_ExpiresAt x\<rparr>"

definition meter_key :: "MeterReading \<Rightarrow> string \<times> string \<times> int" where
  "meter_key m = (m_Subject m, m_Capability m, m_Day m)"

definition merge_meter :: "MeterReading \<Rightarrow> MeterReading \<Rightarrow> MeterReading" where
  "merge_meter r x = r\<lparr>m_Allowed := m_Allowed r + m_Allowed x,
     m_Refused := m_Refused r + m_Refused x, m_Units := m_Units r + m_Units x\<rparr>"

section \<open>Statements\<close>

text \<open>The first argument of each is the driver's answer to the statement.\<close>

definition grant_stamped :: "gtime \<Rightarrow> Grant \<Rightarrow> Grant" where
  "grant_stamped now g =
     (let g1 = (if g_GrantedBy g = '''' then g\<lparr>g_GrantedBy := ''operator''\<rparr> else g)
      in if g_GrantedAt g1 = zero_time then g1\<lparr>g_GrantedAt := now\<rparr> else g1)"

definition SaveGrant :: "dberr \<Rightarrow> gtime \<Rightarrow> Grant \<Rightarrow> cap_db \<Rightarrow> dberr \<times> cap_db" where
  "SaveGrant f now g db =
     (case f of Some e \<Rightarrow> (Some e, db)
      | None \<Rightarrow> (None, db\<lparr>capability_grants :=
           upsert grant_key merge_grant (grant_stamped now g) (capability_grants db)\<rparr>))"

definition RevokeGrant :: "dberr \<Rightarrow> string \<Rightarrow> string \<Rightarrow> string \<Rightarrow> cap_db \<Rightarrow> dberr \<times> cap_db" where
  "RevokeGrant f subject capability value db =
     (case f of Some e \<Rightarrow> (Some e, db)
      | None \<Rightarrow> (None, db\<lparr>capability_grants :=
           delete_where (\<lambda>g. g_Subject g = subject \<and> g_Capability g = capability
             \<and> g_Value g = value) (capability_grants db)\<rparr>))"

definition RevokeSubject :: "dberr \<Rightarrow> string \<Rightarrow> cap_db \<Rightarrow> (string + int) \<times> cap_db" where
  "RevokeSubject f subject db =
     (case f of Some e \<Rightarrow> (Inl e, db)
      | None \<Rightarrow> (Inr (int (length (filter (\<lambda>g. g_Subject g = subject) (capability_grants db)))),
          db\<lparr>capability_grants :=
            delete_where (\<lambda>g. g_Subject g = subject) (capability_grants db)\<rparr>))"

definition unexpired :: "gtime \<Rightarrow> Grant \<Rightarrow> bool" where
  "unexpired now g \<longleftrightarrow> (case g_ExpiresAt g of None \<Rightarrow> True | Some t \<Rightarrow> now < t)"

definition live_grants :: "gtime \<Rightarrow> string \<Rightarrow> cap_db \<Rightarrow> Grant list" where
  "live_grants now subject db =
     sort_key (\<lambda>g. (g_Capability g, g_Value g))
       (filter (\<lambda>g. (g_Subject g = subject \<or> g_Subject g = SubjectAny) \<and> unexpired now g)
         (capability_grants db))"

definition Grants :: "dberr \<Rightarrow> gtime \<Rightarrow> string \<Rightarrow> cap_db \<Rightarrow> string + Grant list" where
  "Grants f now subject db =
     (case f of Some e \<Rightarrow> Inl e | None \<Rightarrow> Inr (live_grants now subject db))"

definition AllGrants :: "dberr \<Rightarrow> cap_db \<Rightarrow> string + Grant list" where
  "AllGrants f db =
     (case f of Some e \<Rightarrow> Inl e
      | None \<Rightarrow> Inr (sort_key (\<lambda>g. (g_Subject g, g_Capability g, g_Value g)) (capability_grants db)))"

definition MeterCapability ::
    "dberr \<Rightarrow> gtime \<Rightarrow> string \<Rightarrow> string \<Rightarrow> bool \<Rightarrow> int \<Rightarrow> cap_db \<Rightarrow> dberr \<times> cap_db" where
  "MeterCapability f now subject capability allowed units db =
     (let day = day_of now; allow = (if allowed then 1 else 0); refuse = (if allowed then 0 else 1)
      in case f of Some e \<Rightarrow> (Some e, db)
         | None \<Rightarrow> (None, db\<lparr>capability_meter := upsert meter_key merge_meter
              \<lparr>m_Subject = subject, m_Capability = capability, m_Day = day,
               m_Allowed = allow, m_Refused = refuse, m_Units = units\<rparr>
              (capability_meter db)\<rparr>))"

definition units_on :: "int \<Rightarrow> string \<Rightarrow> string \<Rightarrow> cap_db \<Rightarrow> int" where
  "units_on day subject capability db =
     (case row_of meter_key (subject, capability, day) (capability_meter db) of
        None \<Rightarrow> 0 | Some m \<Rightarrow> m_Units m)"

definition UsageToday :: "dberr \<Rightarrow> gtime \<Rightarrow> string \<Rightarrow> string \<Rightarrow> cap_db \<Rightarrow> string + int" where
  "UsageToday f now subject capability db =
     (case f of Some e \<Rightarrow> Inl e | None \<Rightarrow> Inr (units_on (day_of now) subject capability db))"

definition Meter :: "dberr \<Rightarrow> gtime \<Rightarrow> int \<Rightarrow> cap_db \<Rightarrow> string + MeterReading list" where
  "Meter f since limit db =
     (let n = (if limit \<le> 0 then 200 else limit)
      in case f of Some e \<Rightarrow> Inl e
         | None \<Rightarrow> Inr (take (nat n) (sort_key (\<lambda>m. (- m_Day m, m_Subject m, m_Capability m))
              (filter (\<lambda>m. day_of since \<le> m_Day m) (capability_meter db)))))"

definition PruneMeter :: "dberr \<Rightarrow> gtime \<Rightarrow> cap_db \<Rightarrow> (string + int) \<times> cap_db" where
  "PruneMeter f before db =
     (case f of Some e \<Rightarrow> (Inl e, db)
      | None \<Rightarrow> (Inr (int (length (filter (\<lambda>m. m_Day m < day_of before) (capability_meter db)))),
          db\<lparr>capability_meter := delete_where (\<lambda>m. m_Day m < day_of before) (capability_meter db)\<rparr>))"

definition MemoryValue :: "string \<Rightarrow> bool \<Rightarrow> string" where
  "MemoryValue namespace w = (if w then namespace @ writeSuffix else namespace)"

definition SplitMemoryValue :: "string \<Rightarrow> string \<times> bool" where
  "SplitMemoryValue v =
     (if HasSuffix v writeSuffix then (TrimSuffix v writeSuffix, True) else (v, False))"

lemmas cap_stmts [op_defs] = SaveGrant_def RevokeGrant_def RevokeSubject_def Grants_def
  AllGrants_def MeterCapability_def UsageToday_def Meter_def PruneMeter_def

section \<open>The tables are keyed\<close>

interpretation grants: keyed_table grant_key merge_grant
  by unfold_locales (simp add: grant_key_def merge_grant_def)

interpretation meter: keyed_table meter_key merge_meter
  by unfold_locales (simp add: meter_key_def merge_meter_def)

definition cap_db_ok :: "cap_db \<Rightarrow> bool" where
  "cap_db_ok db \<longleftrightarrow> distinct (map grant_key (capability_grants db))
     \<and> distinct (map meter_key (capability_meter db))"

lemma cap_db_ok_SaveGrant [keeps_intros]: "cap_db_ok db \<Longrightarrow> cap_db_ok (snd (SaveGrant f now g db))"
  by (simp add: cap_db_ok_def SaveGrant_def Let_def grants.distinct_upsert split: option.split)

lemma cap_db_ok_RevokeGrant [keeps_intros]: "cap_db_ok db \<Longrightarrow> cap_db_ok (snd (RevokeGrant f s c v db))"
  by (simp add: cap_db_ok_def RevokeGrant_def distinct_delete_where split: option.split)

lemma cap_db_ok_RevokeSubject [keeps_intros]: "cap_db_ok db \<Longrightarrow> cap_db_ok (snd (RevokeSubject f s db))"
  by (simp add: cap_db_ok_def RevokeSubject_def distinct_delete_where split: option.split)

lemma cap_db_ok_MeterCapability [keeps_intros]:
  "cap_db_ok db \<Longrightarrow> cap_db_ok (snd (MeterCapability f now s c a u db))"
  by (simp add: cap_db_ok_def MeterCapability_def Let_def meter.distinct_upsert split: option.split)

lemma cap_db_ok_PruneMeter [keeps_intros]: "cap_db_ok db \<Longrightarrow> cap_db_ok (snd (PruneMeter f t db))"
  by (simp add: cap_db_ok_def PruneMeter_def distinct_delete_where split: option.split)

lemma grants_MeterCapability [simp]:
  "capability_grants (snd (MeterCapability f now s c a u db)) = capability_grants db"
  by (simp add: MeterCapability_def Let_def split: option.split)

lemma live_grants_MeterCapability [simp]:
  "live_grants t sub (snd (MeterCapability f now s c a u db)) = live_grants t sub db"
  by (simp add: live_grants_def)

lemma units_on_MeterCapability [table_simps]:
  "units_on day sub cap (snd (MeterCapability None now s c a u db)) =
     units_on day sub cap db + (if (sub, cap, day) = (s, c, day_of now) then u else 0)"
proof -
  let ?x = "\<lparr>m_Subject = s, m_Capability = c, m_Day = day_of now,
     m_Allowed = if a then 1 else 0, m_Refused = if a then 0 else 1, m_Units = u\<rparr>"
  have key: "meter_key ?x = (s, c, day_of now)"
    by (simp add: meter_key_def)
  show ?thesis
    using meter.row_upsert [of "(sub, cap, day)" ?x "capability_meter db"]
    by (simp add: units_on_def MeterCapability_def Let_def key merge_meter_def split: option.split)
qed

section \<open>The contract of the grant table\<close>

text \<open>
  A permission is \<open>live\<close> when a row grants exactly it to exactly that subject and has not
  expired. The laws say what each statement does to it; what follows from them about the patterns
  a subject may match is proved in the locale.
\<close>

locale grant_table =
  fixes save :: "Grant \<Rightarrow> 'd \<Rightarrow> 'd"
    and revoke :: "string \<Rightarrow> string \<Rightarrow> string \<Rightarrow> 'd \<Rightarrow> 'd"
    and revoke_all :: "string \<Rightarrow> 'd \<Rightarrow> 'd"
    and live :: "'d \<Rightarrow> gtime \<Rightarrow> string \<Rightarrow> string \<Rightarrow> string \<Rightarrow> bool"
    and invar :: "'d \<Rightarrow> bool"
  assumes live_save: "invar d \<Longrightarrow> live (save g d) t s c v \<longleftrightarrow>
        (if (s, c, v) = grant_key g then unexpired t g else live d t s c v)"
    and live_revoke: "live (revoke s' c' v' d) t s c v \<longleftrightarrow>
        (s, c, v) \<noteq> (s', c', v') \<and> live d t s c v"
    and live_revoke_all: "live (revoke_all s' d) t s c v \<longleftrightarrow> s \<noteq> s' \<and> live d t s c v"
    and invar_save: "invar d \<Longrightarrow> invar (save g d)"
    and invar_revoke: "invar d \<Longrightarrow> invar (revoke s' c' v' d)"
    and invar_revoke_all: "invar d \<Longrightarrow> invar (revoke_all s' d)"
begin

definition permitted :: "(string \<Rightarrow> string \<Rightarrow> bool) \<Rightarrow> 'd \<Rightarrow> gtime \<Rightarrow> string \<Rightarrow> string \<Rightarrow> string \<Rightarrow> bool"
  where "permitted mt d t s c v \<longleftrightarrow> (\<exists>p. (live d t s c p \<or> live d t SubjectAny c p) \<and> mt p v)"

lemma permitted_save:
  "invar d \<Longrightarrow> unexpired t g \<Longrightarrow> mt (g_Value g) v \<Longrightarrow>
   permitted mt (save g d) t (g_Subject g) (g_Capability g) v"
  unfolding permitted_def by (rule exI [of _ "g_Value g"]) (simp add: live_save grant_key_def)

lemma permitted_revoke_shrinks:
  "permitted mt (revoke s' c' v' d) t s c v \<Longrightarrow> permitted mt d t s c v"
  unfolding permitted_def by (auto simp: live_revoke)

lemma permitted_revoke_all_shrinks:
  "permitted mt (revoke_all s' d) t s c v \<Longrightarrow> permitted mt d t s c v"
  unfolding permitted_def by (auto simp: live_revoke_all)

lemma permitted_revoke_all:
  "permitted mt (revoke_all s d) t s c v \<longleftrightarrow>
   s \<noteq> SubjectAny \<and> (\<exists>p. live d t SubjectAny c p \<and> mt p v)"
  unfolding permitted_def by (auto simp: live_revoke_all)

lemma revoke_save_live:
  "invar d \<Longrightarrow> \<not> live (revoke (g_Subject g) (g_Capability g) (g_Value g) (save g d)) t
     (g_Subject g) (g_Capability g) (g_Value g)"
  by (simp add: live_revoke)

end

definition live_in :: "cap_db \<Rightarrow> gtime \<Rightarrow> string \<Rightarrow> string \<Rightarrow> string \<Rightarrow> bool" where
  "live_in db t s c v \<longleftrightarrow>
     (\<exists>g\<in>set (capability_grants db). grant_key g = (s, c, v) \<and> unexpired t g)"

lemma set_live_grants:
  "g \<in> set (live_grants t s db) \<longleftrightarrow> g \<in> set (capability_grants db)
     \<and> (g_Subject g = s \<or> g_Subject g = SubjectAny) \<and> unexpired t g"
  by (auto simp: live_grants_def)

lemma live_in_row:
  "cap_db_ok db \<Longrightarrow> live_in db t s c v \<longleftrightarrow>
     (case row_of grant_key (s, c, v) (capability_grants db) of
        None \<Rightarrow> False | Some g \<Rightarrow> unexpired t g)"
  by (simp add: live_in_def cap_db_ok_def ex_row_iff)

lemma live_in_SaveGrant:
  assumes "cap_db_ok db"
  shows "live_in (snd (SaveGrant None now g db)) t s c v \<longleftrightarrow>
    (if (s, c, v) = grant_key g then unexpired t g else live_in db t s c v)"
proof -
  let ?db = "snd (SaveGrant None now g db)"
  obtain g2 where g2: "grant_key g2 = grant_key g" "g_ExpiresAt g2 = g_ExpiresAt g"
    and rows: "capability_grants ?db = upsert grant_key merge_grant g2 (capability_grants db)"
    by (rule that [of "grant_stamped now g"]) (simp_all add: SaveGrant_def grant_stamped_def
        Let_def grant_key_def)
  have "cap_db_ok ?db" by (intro cap_db_ok_SaveGrant assms)
  then show ?thesis
    using assms g2 by (simp add: live_in_row rows grants.row_upsert merge_grant_def unexpired_def
        split: option.split)
qed

interpretation gt: grant_table
  "\<lambda>g d. snd (SaveGrant None now g d)" "\<lambda>s c v d. snd (RevokeGrant None s c v d)"
  "\<lambda>s d. snd (RevokeSubject None s d)" live_in cap_db_ok for now
proof (unfold_locales, goal_cases)
  case (1 d g t s c v) then show ?case by (rule live_in_SaveGrant)
next
  case (2 s' c' v' d t s c v) show ?case by (auto simp: live_in_def RevokeGrant_def grant_key_def)
next
  case (3 s' d t s c v) show ?case by (auto simp: live_in_def RevokeSubject_def grant_key_def)
qed (simp_all add: keeps_intros)

text \<open>The two readings of a memory grant: rendering then splitting gives back the namespace and the
  mode, unless a namespace that is only read itself ends in the write suffix.\<close>

lemma Split_MemoryValue:
  "w \<or> \<not> HasSuffix ns writeSuffix \<Longrightarrow> SplitMemoryValue (MemoryValue ns w) = (ns, w)"
  by (cases w) (auto simp: SplitMemoryValue_def MemoryValue_def HasSuffix_iff)

lemma MemoryValue_inj:
  "\<not> HasSuffix ns writeSuffix \<Longrightarrow> \<not> HasSuffix ns' writeSuffix \<Longrightarrow>
   MemoryValue ns w = MemoryValue ns' w' \<Longrightarrow> ns = ns' \<and> w = w'"
  by (metis Pair_inject Split_MemoryValue)

end
