(* ===== verification/Broker.thy ===== *)
theory Broker
  imports Capability_Store
begin

text \<open>
  \<^verbatim>\<open>internal/broker/broker.go\<close>: what an extension may do, and the meter of what it did. The
  state is the trust tier of each subject, the short-lived cache of grants, and the two tables of
  \<open>Capability_Store\<close>. Every operation takes the driver's answers to the statements it runs
  (one per kind of statement) and the time it reads.
\<close>

section \<open>State\<close>

datatype Trust = Community | Registry | Ungated

datatype berror =
    Denied (d_subject: string) (d_capability: string) (d_value: string) (d_reason: string)
  | DBError string
  | ReadGrants string string \<comment> \<open>could not read the grants of a subject: the driver's error\<close>

fun IsDenied :: "berror option \<Rightarrow> bool" where
  "IsDenied (Some (Denied s c v r)) = True"
| "IsDenied _ = False"

datatype dbcall = CallGrants | CallUsage | CallMeter | CallSave | CallRevoke

type_synonym faults = "dbcall \<Rightarrow> dberr"

definition no_faults :: faults where "no_faults = (\<lambda>_. None)"

lemma no_faults_apply [simp]: "no_faults c = None"
  by (simp add: no_faults_def)

record cached =
  c_grants :: "Grant list"
  c_at :: gtime

record broker =
  b_trust :: "string \<Rightarrow> Trust option"
  b_cache :: "string \<Rightarrow> cached option"
  b_cacheTTL :: duration
  b_store :: cap_db

definition New :: "cap_db \<Rightarrow> broker" where
  "New db = \<lparr>b_trust = (\<lambda>_. None), b_cache = (\<lambda>_. None), b_cacheTTL = 5 * second, b_store = db\<rparr>"

text \<open>A subject with no entry reads as the zero tier.\<close>

definition trust_of :: "broker \<Rightarrow> string \<Rightarrow> Trust" where
  "trust_of b subject = (case b_trust b subject of None \<Rightarrow> Community | Some t \<Rightarrow> t)"

definition SetTrust :: "string \<Rightarrow> Trust \<Rightarrow> broker \<Rightarrow> broker" where
  "SetTrust subject t b = b\<lparr>b_trust := (b_trust b)(subject \<mapsto> t)\<rparr>"

definition forget :: "string \<Rightarrow> broker \<Rightarrow> broker" where
  "forget subject b = b\<lparr>b_cache := (b_cache b)(subject := None)\<rparr>"

section \<open>Deciding\<close>

text \<open>The three forms of a granted pattern.\<close>

definition matches :: "string \<Rightarrow> string \<Rightarrow> bool" where
  "matches pattern value =
     (if pattern = CapWildcard \<or> pattern = value then True
      else if HasSuffix pattern ''.*'' then HasPrefix value (TrimSuffix pattern ''*'')
      else if HasPrefix pattern ''*.'' then HasSuffix value (TrimPrefix pattern ''*'')
      else False)"

definition grantsFor :: "faults \<Rightarrow> gtime \<Rightarrow> string \<Rightarrow> broker \<Rightarrow> (string + Grant list) \<times> broker" where
  "grantsFor f now subject b =
     (let fetch = (case Grants (f CallGrants) now subject (b_store b) of
          Inl e \<Rightarrow> (Inl e, b)
        | Inr gs \<Rightarrow> (Inr gs, b\<lparr>b_cache := (b_cache b)(subject \<mapsto> \<lparr>c_grants = gs, c_at = now\<rparr>)\<rparr>))
      in case b_cache b subject of
           None \<Rightarrow> fetch
         | Some c \<Rightarrow> if time_sub now (c_at c) < b_cacheTTL b then (Inr (c_grants c), b) else fetch)"

text \<open>\<open>b.store.MeterCapability\<close> as the broker calls it.\<close>

definition meter_call ::
    "faults \<Rightarrow> gtime \<Rightarrow> string \<Rightarrow> string \<Rightarrow> bool \<Rightarrow> int \<Rightarrow> broker \<Rightarrow> berror option \<times> broker" where
  "meter_call f now subject capability allowed units b =
     (let (e, db) = MeterCapability (f CallMeter) now subject capability allowed units (b_store b)
      in (map_option DBError e, b\<lparr>b_store := db\<rparr>))"

definition check ::
    "faults \<Rightarrow> gtime \<Rightarrow> string \<Rightarrow> string \<Rightarrow> string \<Rightarrow> broker \<Rightarrow> berror option \<times> broker" where
  "check f now subject capability value b =
     (if trust_of b subject = Ungated then meter_call f now subject capability True 0 b
      else case grantsFor f now subject b of
        (Inl e, b1) \<Rightarrow> (Some (ReadGrants subject e), b1)
      | (Inr gs, b1) \<Rightarrow>
          if list_ex (\<lambda>g. g_Capability g = capability \<and> matches (g_Value g) value) gs
          then meter_call f now subject capability True 0 b1
          else (Some (Denied subject capability value ''not granted''),
                snd (meter_call f now subject capability False 0 b1)))"

text \<open>The classes an extension asks about through its handle.\<close>

definition Check :: "faults \<Rightarrow> gtime \<Rightarrow> string \<Rightarrow> string \<Rightarrow> string \<Rightarrow> broker \<Rightarrow> berror option \<times> broker" where
  "Check f now subject class value b = check f now subject class value b"

definition Tool :: "faults \<Rightarrow> gtime \<Rightarrow> string \<Rightarrow> string \<Rightarrow> broker \<Rightarrow> berror option \<times> broker" where
  "Tool f now subject name b = check f now subject CapTool name b"

definition HTTP :: "faults \<Rightarrow> gtime \<Rightarrow> string \<Rightarrow> string \<Rightarrow> broker \<Rightarrow> berror option \<times> broker" where
  "HTTP f now subject host b = check f now subject CapHTTP (ToLower host) b"

definition Memory :: "faults \<Rightarrow> gtime \<Rightarrow> string \<Rightarrow> string \<Rightarrow> bool \<Rightarrow> broker \<Rightarrow> berror option \<times> broker" where
  "Memory f now subject namespace w b = check f now subject CapMemory (MemoryValue namespace w) b"

definition Channel :: "faults \<Rightarrow> gtime \<Rightarrow> string \<Rightarrow> string \<Rightarrow> broker \<Rightarrow> berror option \<times> broker" where
  "Channel f now subject cid b = check f now subject CapChannel cid b"

section \<open>Spending\<close>

text \<open>The daily ceiling: the limit and whether there is one. Without a spend grant it is 0.\<close>

fun limit_of :: "Grant list \<Rightarrow> int \<times> bool" where
  "limit_of [] = (0, True)"
| "limit_of (g # gs) =
     (if g_Capability g \<noteq> CapSpend then limit_of gs
      else if g_Value g = CapWildcard then (0, False)
      else case Sscanf_d (g_Value g) of
             Some n \<Rightarrow> if 0 < n then (n, True) else limit_of gs
           | None \<Rightarrow> limit_of gs)"

definition spendLimit :: "faults \<Rightarrow> gtime \<Rightarrow> string \<Rightarrow> broker \<Rightarrow> (string + int \<times> bool) \<times> broker" where
  "spendLimit f now subject b =
     (case grantsFor f now subject b of
        (Inl e, b1) \<Rightarrow> (Inl e, b1)
      | (Inr gs, b1) \<Rightarrow> (Inr (limit_of gs), b1))"

definition spend_denied :: "string \<Rightarrow> int \<Rightarrow> int \<Rightarrow> int \<Rightarrow> berror" where
  "spend_denied subject units limit used =
     Denied subject CapSpend (show_int units @ '' units'')
       (''today's ceiling of '' @ show_int limit @ '' is used up ('' @ show_int used @ '' spent)'')"

definition Spend :: "faults \<Rightarrow> gtime \<Rightarrow> string \<Rightarrow> int \<Rightarrow> broker \<Rightarrow> berror option \<times> broker" where
  "Spend f now subject units b =
     (if units \<le> 0 then (None, b)
      else case spendLimit f now subject b of
        (Inl e, b1) \<Rightarrow> (Some (DBError e), b1)
      | (Inr (limit, ok), b1) \<Rightarrow>
          if \<not> ok then meter_call f now subject CapSpend True units b1
          else case UsageToday (f CallUsage) now subject CapSpend (b_store b1) of
            Inl e \<Rightarrow> (Some (DBError e), b1)
          | Inr used \<Rightarrow>
              if limit < wrap64 (used + units)
              then (Some (spend_denied subject units limit used),
                    snd (meter_call f now subject CapSpend False 0 b1))
              else meter_call f now subject CapSpend True units b1)"

section \<open>Granting and withdrawing\<close>

definition grant_to :: "faults \<Rightarrow> gtime \<Rightarrow> Grant \<Rightarrow> broker \<Rightarrow> berror option \<times> broker" where
  "grant_to f now g b =
     (case SaveGrant (f CallSave) now g (b_store b) of
        (Some e, db) \<Rightarrow> (Some (DBError e), b\<lparr>b_store := db\<rparr>)
      | (None, db) \<Rightarrow> (None, forget (g_Subject g) (b\<lparr>b_store := db\<rparr>)))"

definition Revoke :: "faults \<Rightarrow> string \<Rightarrow> string \<Rightarrow> string \<Rightarrow> broker \<Rightarrow> berror option \<times> broker" where
  "Revoke f subject capability value b =
     (case RevokeGrant (f CallRevoke) subject capability value (b_store b) of
        (Some e, db) \<Rightarrow> (Some (DBError e), b\<lparr>b_store := db\<rparr>)
      | (None, db) \<Rightarrow> (None, forget subject (b\<lparr>b_store := db\<rparr>)))"

definition RevokeAll :: "faults \<Rightarrow> string \<Rightarrow> broker \<Rightarrow> berror option \<times> broker" where
  "RevokeAll f subject b =
     (case RevokeSubject (f CallRevoke) subject (b_store b) of
        (Inl e, db) \<Rightarrow> (Some (DBError e), b\<lparr>b_store := db\<rparr>)
      | (Inr n, db) \<Rightarrow> (None, forget subject (b\<lparr>b_store := db\<rparr>)))"

section \<open>Plain English\<close>

definition describe :: "Grant \<Rightarrow> string" where
  "describe g =
     (if g_Capability g = CapTool then
        (if g_Value g = CapWildcard then ''call ANY tool'' else ''call the tool '' @ g_Value g)
      else if g_Capability g = CapHTTP then
        (if g_Value g = CapWildcard then ''make HTTP requests to ANY host''
         else ''make HTTP requests to '' @ g_Value g)
      else if g_Capability g = CapMemory then
        (let (ns, w) = SplitMemoryValue (g_Value g)
         in if w then ''WRITE memory in '' @ ns else ''read memory in '' @ ns)
      else if g_Capability g = CapChannel then
        (if g_Value g = CapWildcard then ''send on ANY channel''
         else ''send messages on '' @ g_Value g)
      else if g_Capability g = CapSpend then
        (if g_Value g = CapWildcard then ''spend without a daily limit''
         else ''spend up to '' @ g_Value g @ '' units per day'')
      else g_Capability g @ '': '' @ g_Value g)"

definition Describe :: "faults \<Rightarrow> gtime \<Rightarrow> string \<Rightarrow> broker \<Rightarrow> string + string list" where
  "Describe f now subject b =
     (case Grants (f CallGrants) now subject (b_store b) of
        Inl e \<Rightarrow> Inl e
      | Inr gs \<Rightarrow> if gs = [] then Inr [''nothing '' @ em_dash @ '' this subject holds no permissions'']
                 else Inr (map describe gs))"

definition LoopSubject :: "string \<Rightarrow> string" where "LoopSubject name = ''loop:'' @ name"
definition ConnectorSubject :: "string \<Rightarrow> string" where "ConnectorSubject cid = ''connector:'' @ cid"

section \<open>The meter does not touch what is granted\<close>

lemma meter_call_simps [simp]:
  "b_trust (snd (meter_call f now s c a u b)) = b_trust b"
  "b_cache (snd (meter_call f now s c a u b)) = b_cache b"
  "b_cacheTTL (snd (meter_call f now s c a u b)) = b_cacheTTL b"
  "live_grants t sub (b_store (snd (meter_call f now s c a u b))) = live_grants t sub (b_store b)"
  by (simp_all add: meter_call_def split_beta)

lemma cap_db_ok_meter_call [keeps_intros]:
  "cap_db_ok (b_store b) \<Longrightarrow> cap_db_ok (b_store (snd (meter_call f now s c a u b)))"
  by (simp add: meter_call_def split_beta cap_db_ok_MeterCapability)

lemma grantsFor_frame:
  "grantsFor f now s b = (r, b1) \<Longrightarrow>
   b_store b1 = b_store b \<and> b_trust b1 = b_trust b \<and> b_cacheTTL b1 = b_cacheTTL b"
  by (auto simp: grantsFor_def Let_def split: option.splits sum.splits if_splits)

lemma grantsFor_source:
  assumes "grantsFor f now s b = (Inr gs, b1)"
  shows "gs = live_grants now s (b_store b) \<or>
    (\<exists>c. b_cache b s = Some c \<and> gs = c_grants c \<and> time_sub now (c_at c) < b_cacheTTL b)"
  using assms
  by (auto simp: grantsFor_def Let_def Grants_def split: option.splits sum.splits if_splits)

section \<open>The broker as a machine\<close>

text \<open>The runs of a broker: an extension asks (the first two) and the daemon trusts, grants and withdraws, also for every subject, at any
  time and with any answers from the driver. A run logs the time of every question and the broker it was asked of.\<close>

inductive broker_run :: "cap_db \<Rightarrow> (gtime \<times> broker) list \<Rightarrow> broker \<Rightarrow> bool" for db where
  br_start: "broker_run db [] (New db)"
| br_check: "broker_run db h b \<Longrightarrow> broker_run db ((now, b) # h) (snd (check f now s c v b))"
| br_spend: "broker_run db h b \<Longrightarrow> broker_run db ((now, b) # h) (snd (Spend f now s u b))"
| br_trust: "broker_run db h b \<Longrightarrow> broker_run db h (SetTrust s t b)"
| br_grant: "broker_run db h b \<Longrightarrow> broker_run db h (snd (grant_to f now g b))"
| br_revoke: "broker_run db h b \<Longrightarrow> broker_run db h (snd (Revoke f s c v b))"
| br_revoke_all: "broker_run db h b \<Longrightarrow> broker_run db h (snd (RevokeAll f s b))"

text \<open>A cache entry is what the table answered when it was made; the subject's own grants in it are still in the table.\<close>

definition sourced :: "(gtime \<times> broker) list \<Rightarrow> broker \<Rightarrow> bool" where
  "sourced h b \<longleftrightarrow> (\<forall>s c. b_cache b s = Some c \<longrightarrow>
     (\<exists>b0. (c_at c, b0) \<in> set h \<and> c_grants c = live_grants (c_at c) s (b_store b0)) \<and>
     (\<forall>g\<in>set (c_grants c). g_Subject g = s \<longrightarrow> g \<in> set (capability_grants (b_store b))))"

lemma sourced_grantsFor: "sourced h b \<Longrightarrow> sourced ((now, b) # h) (snd (grantsFor f now s b))"
  unfolding sourced_def
  by (auto simp: grantsFor_def Grants_def Let_def set_live_grants split: option.split sum.split) blast+

lemma sourced_frame:
  "sourced h b \<Longrightarrow> b_cache b' = b_cache b \<Longrightarrow> capability_grants (b_store b') = capability_grants (b_store b) \<Longrightarrow> sourced h b'"
  by (simp add: sourced_def)

lemma grants_meter_call [simp]: "capability_grants (b_store (snd (meter_call f now s c a u b))) = capability_grants (b_store b)"
  by (simp add: meter_call_def MeterCapability_def Let_def split: option.split)

lemma sourced_meter_call: "sourced h b \<Longrightarrow> sourced h (snd (meter_call f now s c a u b))"
  by (rule sourced_frame) simp_all

lemma sourced_later: "sourced h b \<Longrightarrow> sourced (x # h) b"
  unfolding sourced_def by (meson list.set_intros(2))

lemma sourced_check: "sourced h b \<Longrightarrow> sourced ((now, b) # h) (snd (check f now s c v b))"
  using sourced_grantsFor [of h b now f s]
  by (cases "grantsFor f now s b") (auto simp: check_def intro: sourced_meter_call sourced_later split: sum.split)

lemma sourced_Spend: "sourced h b \<Longrightarrow> sourced ((now, b) # h) (snd (Spend f now s u b))"
  using sourced_grantsFor [of h b now f s]
  by (cases "grantsFor f now s b") (auto simp: Spend_def spendLimit_def intro: sourced_meter_call sourced_later split: sum.split prod.split)

text \<open>A change of one subject's rows forgets what is cached of it, and leaves the rows of all others.\<close>

lemma sourced_forget:
  assumes "sourced h b" and "\<And>g. g \<in> set (capability_grants (b_store b)) \<Longrightarrow> g_Subject g \<noteq> s' \<Longrightarrow> g \<in> set (capability_grants db)"
  shows "sourced h (forget s' (b\<lparr>b_store := db\<rparr>))"
  using assms by (auto simp: sourced_def forget_def)

lemma set_upsert_other: "r \<in> set rs \<Longrightarrow> key r \<noteq> key x \<Longrightarrow> r \<in> set (upsert key mrg x rs)"
  by (induction rs) auto

lemma sourced_grant_to: "sourced h b \<Longrightarrow> sourced h (snd (grant_to f now g b))"
  by (auto simp: grant_to_def SaveGrant_def grant_stamped_def grant_key_def Let_def
      intro!: sourced_forget set_upsert_other split: option.split)

lemma sourced_Revoke: "sourced h b \<Longrightarrow> sourced h (snd (Revoke f s c v b))"
  by (auto simp: Revoke_def RevokeGrant_def delete_where_def intro!: sourced_forget split: option.split)

lemma sourced_RevokeAll: "sourced h b \<Longrightarrow> sourced h (snd (RevokeAll f s b))"
  by (auto simp: RevokeAll_def RevokeSubject_def delete_where_def intro!: sourced_forget split: option.split)

lemma broker_run_sourced: "broker_run db h b \<Longrightarrow> sourced h b"
proof (induction rule: broker_run.induct)
  case br_start
  then show ?case by (simp add: sourced_def New_def)
next
  case (br_trust h b s t)
  then show ?case by (simp add: sourced_def SetTrust_def)
qed (intro sourced_check sourced_Spend sourced_grant_to sourced_Revoke sourced_RevokeAll; assumption)+

lemma b_cacheTTL_meter: "b_cacheTTL (snd (Spend f now s u b)) = b_cacheTTL b"
  "b_cacheTTL (snd (check f now s c v b)) = b_cacheTTL b"
proof -
  obtain r b1 where g: "grantsFor f now s b = (r, b1)" by fastforce
  then have "b_cacheTTL b1 = b_cacheTTL b" by (blast dest: grantsFor_frame)
  with g show "b_cacheTTL (snd (check f now s c v b)) = b_cacheTTL b"
    and "b_cacheTTL (snd (Spend f now s u b)) = b_cacheTTL b"
    by (auto simp: check_def Spend_def spendLimit_def split: sum.split prod.split)
qed

lemma broker_run_TTL: "broker_run db h b \<Longrightarrow> b_cacheTTL b = 5 * second"
  by (induction rule: broker_run.induct)
    (auto simp: New_def b_cacheTTL_meter SetTrust_def grant_to_def Revoke_def RevokeAll_def forget_def
      split: prod.split option.split sum.split)

lemma check_None_cases:
  assumes "fst (check f now s c v b) = None" and "trust_of b s \<noteq> Ungated"
  obtains gs b1 g where "grantsFor f now s b = (Inr gs, b1)" "g \<in> set gs"
    "g_Capability g = c" "matches (g_Value g) v"
  using assms by (auto simp: check_def list_ex_iff split: prod.splits sum.splits if_splits)

text \<open>
  C20. Default deny, with the staleness bounded. In every run of a broker, whoever grants and withdraws what, also for every subject at
  once, a request that is not refused comes from an ungated subject or from a grant that matches it, held by the subject or by every
  subject. That grant was in the table, unexpired, when the subject last asked or less than five seconds before now; a grant of the
  subject's own is in the table still.
\<close>

theorem broker_allows_only_granted:
  assumes "broker_run db h b"
    and "fst (check f now s c v b) = None"
  shows "trust_of b s = Ungated \<or>
    (\<exists>t b0 g. (t, b0) \<in> set ((now, b) # h) \<and> (t = now \<or> time_sub now t < 5 * second) \<and> g \<in> set (capability_grants (b_store b0))
       \<and> (g_Subject g = s \<or> g_Subject g = SubjectAny) \<and> unexpired t g \<and> g_Capability g = c \<and> matches (g_Value g) v
       \<and> (g_Subject g = s \<longrightarrow> g \<in> set (capability_grants (b_store b))))"
proof (cases "trust_of b s = Ungated")
  case False
  with assms(2) obtain gs b1 g where gs: "grantsFor f now s b = (Inr gs, b1)" "g \<in> set gs"
    and g: "g_Capability g = c" "matches (g_Value g) v"
    by (rule check_None_cases)
  have "\<exists>t b0. (t, b0) \<in> set ((now, b) # h) \<and> gs = live_grants t s (b_store b0) \<and> (t = now \<or> time_sub now t < 5 * second) \<and>
    (g_Subject g = s \<longrightarrow> g \<in> set (capability_grants (b_store b)))"
  proof (cases "gs = live_grants now s (b_store b)")
    case True
    then show ?thesis using gs(2) by (auto simp: set_live_grants intro!: exI [of _ now] exI [of _ b])
  next
    case False
    with grantsFor_source [OF gs(1)] broker_run_TTL [OF assms(1)] obtain e
      where e: "b_cache b s = Some e" "gs = c_grants e" "time_sub now (c_at e) < 5 * second" by auto
    from broker_run_sourced [OF assms(1)] e(1,2) gs(2) obtain b0 where "(c_at e, b0) \<in> set h" "gs = live_grants (c_at e) s (b_store b0)"
      "g_Subject g = s \<longrightarrow> g \<in> set (capability_grants (b_store b))" unfolding sourced_def by blast
    with e(3) show ?thesis by (intro exI [of _ "c_at e"] exI [of _ b0]) simp
  qed
  with gs(2) g show ?thesis by (fastforce simp: set_live_grants)
qed simp

definition demo_grant :: Grant where
  "demo_grant = \<lparr>g_Subject = ''loop:a'', g_Capability = ''tool'', g_Value = ''mail.*'',
     g_GrantedBy = ''operator'', g_GrantedAt = 1, g_ExpiresAt = None\<rparr>"

definition demo_db :: cap_db where
  "demo_db = \<lparr>capability_grants = [demo_grant], capability_meter = []\<rparr>"

lemma broker_allows_only_granted_witness:
  "fst (check no_faults 100 ''loop:a'' ''tool'' ''mail.send'' (New demo_db)) = None \<and>
   (\<exists>t b0 g. (t, b0) \<in> set [(100, New demo_db)] \<and> (t = 100 \<or> time_sub 100 t < 5 * second) \<and> g \<in> set (capability_grants (b_store b0))
       \<and> (g_Subject g = ''loop:a'' \<or> g_Subject g = SubjectAny) \<and> unexpired t g \<and> g_Capability g = ''tool'' \<and> matches (g_Value g) ''mail.send''
       \<and> (g_Subject g = ''loop:a'' \<longrightarrow> g \<in> set (capability_grants (b_store (New demo_db)))))"
proof -
  have h: "fst (check no_faults 100 ''loop:a'' ''tool'' ''mail.send'' (New demo_db)) = None" by code_simp
  have u: "trust_of (New demo_db) ''loop:a'' \<noteq> Ungated" by code_simp
  from broker_allows_only_granted [OF br_start h] u h show ?thesis by blast
qed

lemma grantsFor_stale:
  assumes "\<And>e. b_cache b s = Some e \<Longrightarrow> b_cacheTTL b \<le> time_sub now (c_at e)"
  shows "grantsFor f now s b = (case f CallGrants of Some m \<Rightarrow> (Inl m, b)
    | None \<Rightarrow> (Inr (live_grants now s (b_store b)), b\<lparr>b_cache := (b_cache b)(s \<mapsto> \<lparr>c_grants = live_grants now s (b_store b), c_at = now\<rparr>)\<rparr>))"
  using assms by (cases "b_cache b s") (auto simp: grantsFor_def Grants_def Let_def not_less split: option.split)

text \<open>
  C37. It fails closed: for a subject that is not ungated and has no fresh cache entry, whatever an older one holds, an error
  of the driver reading the grants is an error of the check, and so is an answer without a grant that matches; no failure
  of the driver ever turns a refusal into a permission.
\<close>

theorem broker_fails_closed:
  assumes "trust_of b s \<noteq> Ungated"
    and "\<And>e. b_cache b s = Some e \<Longrightarrow> b_cacheTTL b \<le> time_sub now (c_at e)"
    and "f CallGrants \<noteq> None \<or>
      (\<forall>g\<in>set (live_grants now s (b_store b)). g_Capability g = c \<longrightarrow> \<not> matches (g_Value g) v)"
  shows "fst (check f now s c v b) \<noteq> None \<and> b_trust (snd (check f now s c v b)) = b_trust b
     \<and> capability_grants (b_store (snd (check f now s c v b))) = capability_grants (b_store b)"
proof -
  have "grantsFor f now s b = (case f CallGrants of Some m \<Rightarrow> (Inl m, b)
    | None \<Rightarrow> (Inr (live_grants now s (b_store b)), b\<lparr>b_cache := (b_cache b)(s \<mapsto> \<lparr>c_grants = live_grants now s (b_store b), c_at = now\<rparr>)\<rparr>))"
    by (rule grantsFor_stale) (rule assms(2))
  with assms(1,3) show ?thesis by (cases "f CallGrants") (auto simp: check_def list_ex_iff)
qed

lemma broker_fails_closed_witness:
  "fst (check (no_faults(CallGrants := Some ''locked'')) 100 ''loop:a'' ''tool'' ''mail.send''
     (New demo_db)) \<noteq> None"
  using broker_fails_closed [of "New demo_db" "''loop:a''" 100 "no_faults(CallGrants := Some ''locked'')"]
  by (simp add: New_def trust_of_def)

section \<open>Withdrawing takes effect at once, for a named subject\<close>

lemma check_permitted:
  assumes "b_cache b s = None" "trust_of b s \<noteq> Ungated" "f CallGrants = None"
  shows "fst (check f now s c v b) = None \<longleftrightarrow>
     f CallMeter = None \<and> gt.permitted matches (b_store b) now s c v"
proof -
  have "list_ex (\<lambda>g. g_Capability g = c \<and> matches (g_Value g) v) (live_grants now s (b_store b))
      \<longleftrightarrow> gt.permitted matches (b_store b) now s c v"
    by (simp add: list_ex_iff Bex_def set_live_grants gt.permitted_def live_in_def grant_key_def)
      blast
  with assms show ?thesis
    by (auto simp: check_def grantsFor_def Grants_def meter_call_def MeterCapability_def Let_def
        split: option.splits)
qed

lemma Revoke_ok:
  "f CallRevoke = None \<Longrightarrow> Revoke f s c v b =
     (None, forget s (b\<lparr>b_store := snd (RevokeGrant None s c v (b_store b))\<rparr>))"
  "f CallRevoke = None \<Longrightarrow> RevokeAll f s b =
     (None, forget s (b\<lparr>b_store := snd (RevokeSubject None s (b_store b))\<rparr>))"
  by (simp_all add: Revoke_def RevokeGrant_def RevokeAll_def RevokeSubject_def)

text \<open>
  Uninstalling is immediate: right after every grant of a subject was withdrawn, a request it
  makes is refused, whatever was cached, unless a grant to every subject matches it.
\<close>

theorem revoke_all_immediate:
  assumes "trust_of b s \<noteq> Ungated" and "f CallRevoke = None"
    and "f' CallGrants = None"
    and "fst (check f' now s c v (snd (RevokeAll f s b))) = None"
  shows "s \<noteq> SubjectAny \<and> (\<exists>p. live_in (b_store b) now SubjectAny c p \<and> matches p v)"
proof -
  let ?b = "snd (RevokeAll f s b)"
  have *: "b_cache ?b s = None" "trust_of ?b s \<noteq> Ungated"
    "b_store ?b = snd (RevokeSubject None s (b_store b))"
    using assms(1,2) by (simp_all add: Revoke_ok forget_def trust_of_def)
  from check_permitted [where f = f' and b = ?b and s = s, OF *(1,2) assms(3)] assms(4)
  have "gt.permitted matches (snd (RevokeSubject None s (b_store b))) now s c v"
    using *(3) by simp
  then show ?thesis by (simp add: gt.permitted_revoke_all)
qed

definition any_grant :: Grant where
  "any_grant = demo_grant\<lparr>g_Subject := SubjectAny\<rparr>"

definition any_db :: cap_db where
  "any_db = \<lparr>capability_grants = [any_grant, demo_grant], capability_meter = []\<rparr>"

lemma revoke_all_immediate_witness:
  "\<exists>p. live_in any_db 100 SubjectAny ''tool'' p \<and> matches p ''mail.send''"
proof -
  have t: "trust_of (New any_db) ''loop:a'' \<noteq> Ungated" by code_simp
  have ok: "fst (check no_faults 100 ''loop:a'' ''tool'' ''mail.send''
      (snd (RevokeAll no_faults ''loop:a'' (New any_db)))) = None"
    by code_simp
  show ?thesis
    using revoke_all_immediate [OF t no_faults_apply no_faults_apply ok] by (simp add: New_def)
qed

text \<open>
  Withdrawing a grant to every subject is not immediate: it drops the cache entry of
  \<open>SubjectAny\<close> itself, which nothing reads, so a subject checked a moment before keeps the
  permission until its entry ages out.
\<close>

theorem revoke_any_is_stale:
  "\<exists>b b1 b2. b = New (any_db\<lparr>capability_grants := [any_grant]\<rparr>)
     \<and> check no_faults 100 ''loop:a'' ''tool'' ''mail.send'' b = (None, b1)
     \<and> Revoke no_faults SubjectAny ''tool'' ''mail.*'' b1 = (None, b2)
     \<and> capability_grants (b_store b2) = []
     \<and> fst (check no_faults 200 ''loop:a'' ''tool'' ''mail.send'' b2) = None"
proof -
  let ?b = "New (any_db\<lparr>capability_grants := [any_grant]\<rparr>)"
  let ?b1 = "snd (check no_faults 100 ''loop:a'' ''tool'' ''mail.send'' ?b)"
  let ?b2 = "snd (Revoke no_faults SubjectAny ''tool'' ''mail.*'' ?b1)"
  have a: "fst (check no_faults 100 ''loop:a'' ''tool'' ''mail.send'' ?b) = None" by code_simp
  have r: "fst (Revoke no_faults SubjectAny ''tool'' ''mail.*'' ?b1) = None" by code_simp
  have e: "capability_grants (b_store ?b2) = []" by code_simp
  have s: "fst (check no_faults 200 ''loop:a'' ''tool'' ''mail.send'' ?b2) = None" by code_simp
  show ?thesis
    by (intro exI [of _ ?b] exI [of _ ?b1] exI [of _ ?b2] conjI)
      (use a r e s in \<open>simp_all add: prod_eq_iff\<close>)
qed

section \<open>The daily ceiling\<close>

definition spent_today :: "gtime \<Rightarrow> string \<Rightarrow> broker \<Rightarrow> int" where
  "spent_today now s b = units_on (day_of now) s CapSpend (b_store b)"

lemma spent_meter_call [table_simps]:
  "f CallMeter = None \<Longrightarrow> spent_today now s (snd (meter_call f now s CapSpend a u b)) =
     spent_today now s b + u"
  by (simp add: spent_today_def meter_call_def split_beta units_on_MeterCapability)

lemma spent_meter_fail:
  "f CallMeter = Some e \<Longrightarrow> spent_today now s (snd (meter_call f now s c a u b)) = spent_today now s b"
  by (simp add: spent_today_def meter_call_def MeterCapability_def)

lemma spendLimit_frame:
  "spendLimit f now s b = (r, b1) \<Longrightarrow> spent_today now s b1 = spent_today now s b"
  by (auto simp: spendLimit_def spent_today_def dest: grantsFor_frame split: prod.splits sum.splits)

text \<open>
  The ceiling holds: a call of \<open>Spend\<close> that books units under a daily limit leaves the
  subject at or below that limit, as long as the sum of what was spent and what is asked fits a
  64-bit integer; a call that is refused books nothing.
\<close>

theorem spend_within_limit:
  assumes "spendLimit f now s b = (Inr (limit, True), b1)"
    and "0 < u" and "0 \<le> spent_today now s b" and "spent_today now s b + u \<le> max_int64"
    and "Spend f now s u b = (e, b')"
  shows "(e = None \<longrightarrow> spent_today now s b' = spent_today now s b + u \<and> spent_today now s b' \<le> limit)
     \<and> (e \<noteq> None \<longrightarrow> spent_today now s b' = spent_today now s b)"
proof (cases "f CallUsage")
  case (Some m)
  with assms show ?thesis
    by (auto simp: Spend_def UsageToday_def spendLimit_frame)
next
  case None
  let ?used = "spent_today now s b"
  have used: "UsageToday (f CallUsage) now s CapSpend (b_store b1) = Inr ?used"
    using None spendLimit_frame [OF assms(1)] by (simp add: UsageToday_def spent_today_def)
  have w: "wrap64 (?used + u) = ?used + u"
    using assms(2-4) by (intro wrap64_id) (auto simp: min_int64_def)
  have frame: "spent_today now s b1 = ?used" by (rule spendLimit_frame [OF assms(1)])
  show ?thesis
  proof (cases "limit < ?used + u")
    case True
    with assms(1,2,5) used w
    have "e \<noteq> None" "b' = snd (meter_call f now s CapSpend False 0 b1)"
      by (auto simp: Spend_def)
    then show ?thesis
      using frame by (cases "f CallMeter") (auto simp: spent_meter_call spent_meter_fail)
  next
    case False
    with assms(1,2,5) used w have eb: "(e, b') = meter_call f now s CapSpend True u b1"
      by (auto simp: Spend_def)
    show ?thesis
    proof (cases "f CallMeter")
      case None
      with eb have "e = None" by (auto simp: meter_call_def MeterCapability_def Let_def)
      moreover have "spent_today now s b' = ?used + u"
        using None eb frame spent_meter_call by (metis snd_conv)
      ultimately show ?thesis using False by simp
    next
      case (Some m)
      with eb have "e \<noteq> None" by (auto simp: meter_call_def MeterCapability_def Let_def)
      moreover have "spent_today now s b' = ?used"
        using Some eb frame spent_meter_fail by (metis snd_conv)
      ultimately show ?thesis by auto
    qed
  qed
qed

definition spend_db :: cap_db where
  "spend_db = \<lparr>capability_grants = [demo_grant\<lparr>g_Capability := CapSpend, g_Value := ''10''\<rparr>],
     capability_meter = []\<rparr>"

lemma spend_within_limit_witness:
  "spent_today 100 ''loop:a'' (snd (Spend no_faults 100 ''loop:a'' 7 (New spend_db))) = 7 \<and>
   (7::int) \<le> 10"
proof -
  let ?b1 = "snd (spendLimit no_faults 100 ''loop:a'' (New spend_db))"
  have l: "fst (spendLimit no_faults 100 ''loop:a'' (New spend_db)) = Inr (10, True)" by code_simp
  have s: "spent_today 100 ''loop:a'' (New spend_db) = 0" by code_simp
  have e: "fst (Spend no_faults 100 ''loop:a'' 7 (New spend_db)) = None" by code_simp
  from spend_within_limit [of no_faults 100 "''loop:a''" "New spend_db" 10 ?b1 7
      "fst (Spend no_faults 100 ''loop:a'' 7 (New spend_db))"
      "snd (Spend no_faults 100 ''loop:a'' 7 (New spend_db))"]
  show ?thesis using l s e by (simp add: max_int64_def prod_eq_iff)
qed

text \<open>
  The ceiling is compared after a 64-bit addition. A request so large that the sum wraps
  reads as negative and is booked whatever the limit.
\<close>

theorem spend_overflow_admitted:
  assumes "spendLimit f now s b = (Inr (limit, True), b1)" and "0 \<le> limit"
    and "f CallUsage = None" and "f CallMeter = None"
    and "0 \<le> spent_today now s b" and "u \<le> max_int64" and "max_int64 < spent_today now s b + u"
    and "spent_today now s b \<le> max_int64"
  shows "fst (Spend f now s u b) = None"
proof -
  let ?used = "spent_today now s b"
  have used: "UsageToday (f CallUsage) now s CapSpend (b_store b1) = Inr ?used"
    using assms(3) spendLimit_frame [OF assms(1)] by (simp add: UsageToday_def spent_today_def)
  have "wrap64 (?used + u) = ?used + u - 18446744073709551616"
    using assms(5-8) by (intro wrap64_over) (auto simp: max_int64_def)
  then have "wrap64 (?used + u) < 0" using assms(6,8) by (simp add: max_int64_def)
  then show ?thesis
    using assms used by (auto simp: Spend_def meter_call_def MeterCapability_def Let_def)
qed

lemma spend_overflow_admitted_witness:
  "\<exists>b. spent_today 100 ''loop:a'' b = 1 \<and> fst (Spend no_faults 100 ''loop:a'' max_int64 b) = None"
proof -
  let ?b = "snd (Spend no_faults 100 ''loop:a'' 1 (New spend_db))"
  let ?b1 = "snd (spendLimit no_faults 100 ''loop:a'' ?b)"
  have l: "fst (spendLimit no_faults 100 ''loop:a'' ?b) = Inr (10, True)" by code_simp
  have s: "spent_today 100 ''loop:a'' ?b = 1" by code_simp
  from l have l': "spendLimit no_faults 100 ''loop:a'' ?b = (Inr (10, True), ?b1)"
    by (simp add: prod_eq_iff)
  have "fst (Spend no_faults 100 ''loop:a'' max_int64 ?b) = None"
    by (rule spend_overflow_admitted [OF l']) (simp_all add: s max_int64_def)
  with s show ?thesis by blast
qed

text \<open>
  \<open>Spend\<close> reads the meter and books into it in two statements, with nothing held between
  them. Two calls for the same subject may therefore both read before either books. The relation
  steps a set of calls in progress: a call is admitted (it has read and compared), later it books.
\<close>

inductive spend_race :: "faults \<Rightarrow> gtime \<Rightarrow> string \<Rightarrow> broker \<times> int list \<Rightarrow> broker \<times> int list \<Rightarrow> bool"
  for f now s where
  sr_admit: "spendLimit f now s b = (Inr (limit, True), b1) \<Longrightarrow>
     UsageToday (f CallUsage) now s CapSpend (b_store b1) = Inr used \<Longrightarrow>
     0 < u \<Longrightarrow> \<not> limit < wrap64 (used + u) \<Longrightarrow> spend_race f now s (b, us) (b1, u # us)"
| sr_book: "u \<in> set us \<Longrightarrow>
     spend_race f now s (b, us) (snd (meter_call f now s CapSpend True u b), remove1 u us)"

text \<open>Run one after the other, admission and booking are the sequential \<open>Spend\<close>.\<close>

lemma spend_race_sequential:
  assumes "spendLimit f now s b = (Inr (limit, True), b1)" and "0 < u"
    and "UsageToday (f CallUsage) now s CapSpend (b_store b1) = Inr used"
    and "\<not> limit < wrap64 (used + u)"
  shows "(spend_race f now s)\<^sup>*\<^sup>* (b, []) (snd (Spend f now s u b), [])"
proof -
  have "spend_race f now s (b, []) (b1, [u])"
    using assms by (intro sr_admit)
  moreover have "spend_race f now s (b1, [u]) (snd (meter_call f now s CapSpend True u b1), [])"
    using sr_book [of u "[u]" f now s b1] by simp
  moreover have "Spend f now s u b = meter_call f now s CapSpend True u b1"
    using assms by (simp add: Spend_def)
  ultimately show ?thesis by (metis (no_types) converse_rtranclp_into_rtranclp rtranclp.rtrancl_refl)
qed

text \<open>
  Two concurrent calls overrun the ceiling: from a subject with a daily limit of 10 and
  nothing spent, two calls of 7 units, both admitted before either books, leave 14 units booked.
\<close>

theorem spend_race_overruns:
  "\<exists>b'. (spend_race no_faults 100 ''loop:a'')\<^sup>*\<^sup>* (New spend_db, []) (b', [])
     \<and> fst (spendLimit no_faults 100 ''loop:a'' (New spend_db)) = Inr (10, True)
     \<and> spent_today 100 ''loop:a'' b' = 14"
proof -
  let ?R = "spend_race no_faults 100 ''loop:a''"
  let ?b0 = "New spend_db"
  let ?b1 = "snd (spendLimit no_faults 100 ''loop:a'' ?b0)"
  let ?b2 = "snd (spendLimit no_faults 100 ''loop:a'' ?b1)"
  let ?m = "\<lambda>b. snd (meter_call no_faults 100 ''loop:a'' CapSpend True 7 b)"
  have l: "fst (spendLimit no_faults 100 ''loop:a'' ?b0) = Inr (10, True)" by code_simp
  have l1: "fst (spendLimit no_faults 100 ''loop:a'' ?b1) = Inr (10, True)" by code_simp
  have u: "UsageToday (no_faults CallUsage) 100 ''loop:a'' CapSpend (b_store ?b1) = Inr 0"
    by code_simp
  have u1: "UsageToday (no_faults CallUsage) 100 ''loop:a'' CapSpend (b_store ?b2) = Inr 0"
    by code_simp
  have w: "\<not> (10::int) < wrap64 (0 + 7)" by code_simp
  have "?R (?b0, []) (?b1, [7])"
    by (rule sr_admit [where used = 0 and limit = 10]) (use l u w in \<open>simp_all add: prod_eq_iff\<close>)
  moreover have "?R (?b1, [7]) (?b2, [7, 7])"
    by (rule sr_admit [where used = 0 and limit = 10]) (use l1 u1 w in \<open>simp_all add: prod_eq_iff\<close>)
  moreover have "?R (?b2, [7, 7]) (?m ?b2, [7])"
    using sr_book [of 7 "[7, 7]" no_faults 100 "''loop:a''" ?b2] by simp
  moreover have "?R (?m ?b2, [7]) (?m (?m ?b2), [])"
    using sr_book [of 7 "[7]" no_faults 100 "''loop:a''" "?m ?b2"] by simp
  ultimately have "?R\<^sup>*\<^sup>* (?b0, []) (?m (?m ?b2), [])"
    by (meson converse_rtranclp_into_rtranclp rtranclp.rtrancl_refl)
  moreover have "spent_today 100 ''loop:a'' (?m (?m ?b2)) = 14" by code_simp
  ultimately show ?thesis using l by blast
qed

section \<open>Patterns\<close>

text \<open>
  What a granted pattern matches, in full: everything when it is the wildcard, itself, every
  value that continues \<open>p.\<close> when it is \<open>p.*\<close>, and otherwise every value that ends in
  \<open>.q\<close> when it is \<open>*.q\<close>. In particular a host under \<open>*.example.com\<close> must carry the
  dot, so \<open>evilexample.com\<close> is not one.
\<close>

theorem matches_iff:
  "matches pattern value \<longleftrightarrow>
     pattern = CapWildcard \<or> pattern = value
   \<or> (\<exists>p t. pattern = p @ ''.*'' \<and> value = p @ ''.'' @ t)
   \<or> (\<not> HasSuffix pattern ''.*'' \<and> (\<exists>q t. pattern = ''*.'' @ q \<and> value = t @ ''.'' @ q))"
proof -
  have suffix: "TrimSuffix (p @ ''.*'') ''*'' = p @ ''.''" for p :: string
    using TrimSuffix_append [of "p @ ''.''" "''*''"] by simp
  have prefix: "TrimPrefix (''*.'' @ q) ''*'' = ''.'' @ q" for q :: string
    using TrimPrefix_append [of "''*''" "''.'' @ q"] by simp
  show ?thesis
  proof (cases "HasSuffix pattern ''.*''")
    case True
    then obtain p where p: "pattern = p @ ''.*''" by (auto simp: HasSuffix_iff)
    have "matches pattern value \<longleftrightarrow> pattern = CapWildcard \<or> pattern = value \<or>
        HasPrefix value (p @ ''.'')"
      using True by (simp add: matches_def p suffix)
    with True p show ?thesis by (auto simp: HasPrefix_iff)
  next
    case False
    have "HasPrefix pattern ''*.'' \<longleftrightarrow> (\<exists>q. pattern = ''*.'' @ q)" by (rule HasPrefix_iff)
    with False prefix show ?thesis
      by (auto simp: matches_def HasSuffix_iff [of "value"])
  qed
qed

end
