(* ===== verification/Observe.thy ===== *)
theory Observe
  imports Prelude
begin

text \<open>
  \<^verbatim>\<open>fleet/internal/observe/observe.go\<close>: what the coding agent says about itself, as the
  reconciler reads it: the session list, the status line's rate-limit windows, and the hook events
  with the error type of a failed stop. Decoding the bytes is \<open>encoding/json\<close>'s; a decoded
  value is a \<open>json\<close>, whose objects are listed in the order a run visits them.
\<close>

section \<open>Sessions\<close>

record Agent =
  ag_ID :: string
  ag_PID :: int
  ag_Cwd :: string
  ag_Kind :: string
  ag_SessionID :: string
  ag_Name :: string
  ag_Status :: string
  ag_WaitingFor :: string
  ag_State :: string

definition Interactive :: "Agent \<Rightarrow> bool" where
  "Interactive a \<longleftrightarrow> ag_Kind a = ''interactive''"

definition Activity :: "Agent \<Rightarrow> string" where
  "Activity a = (if ag_Status a \<noteq> '''' then ag_Status a else ag_State a)"

section \<open>The status line\<close>

text \<open>The encoding of a reset time is read by \<open>parseTime\<close>, whose result is kept here.\<close>

record rawWindow =
  rw_UsedPercentage :: "rat option"
  rw_ResetsAt :: gtime

record Window =
  w_Used :: rat
  w_Resets :: gtime

record Status =
  ss_FiveHour :: "rawWindow option"
  ss_SevenDay :: "rawWindow option"
  ss_UsedPercentage :: "rat option"
  ss_TotalCostUSD :: rat

definition window :: "rawWindow option \<Rightarrow> Window option" where
  "window w =
     (case w of None \<Rightarrow> None
      | Some r \<Rightarrow> (case rw_UsedPercentage r of None \<Rightarrow> None
          | Some u \<Rightarrow> Some \<lparr>w_Used = u, w_Resets = rw_ResetsAt r\<rparr>))"

definition FiveHour :: "Status \<Rightarrow> Window option" where "FiveHour s = window (ss_FiveHour s)"
definition SevenDay :: "Status \<Rightarrow> Window option" where "SevenDay s = window (ss_SevenDay s)"

definition ContextPct :: "Status \<Rightarrow> rat" where
  "ContextPct s = (case ss_UsedPercentage s of None \<Rightarrow> 0 | Some p \<Rightarrow> p)"

section \<open>Hook events\<close>

text \<open>\<open>ev_Raw\<close> is the decoded object of the event's raw payload; \<open>None\<close> when there is none
  or it is not an object.\<close>

record Event =
  ev_Event :: string
  ev_Session :: string
  ev_Raw :: "(string \<times> json) list option"

definition KnownErrors :: "string list" where
  "KnownErrors = [''rate_limit'', ''authentication_failed'', ''billing_error'', ''account_on_hold'']"

text \<open>The first value, depth first, whose text names a known error.\<close>

fun findKnown :: "json \<Rightarrow> string"
  and findKnown_list :: "json list \<Rightarrow> string"
  and findKnown_obj :: "(string \<times> json) list \<Rightarrow> string" where
  "findKnown (JStr x) = (case List.find (Contains x) KnownErrors of None \<Rightarrow> '''' | Some k \<Rightarrow> k)"
| "findKnown (JObj kvs) = findKnown_obj kvs"
| "findKnown (JArr xs) = findKnown_list xs"
| "findKnown _ = ''''"
| "findKnown_list [] = ''''"
| "findKnown_list (x # xs) = (let f = findKnown x in if f \<noteq> '''' then f else findKnown_list xs)"
| "findKnown_obj [] = ''''"
| "findKnown_obj ((k, x) # kvs) = (let f = findKnown x in if f \<noteq> '''' then f else findKnown_obj kvs)"

definition error_keys :: "string list" where
  "error_keys = [''error_type'', ''errorType'', ''error'', ''reason'', ''stop_reason'', ''type'']"

text \<open>The loop over the keys: the type of error the value at one of them states, if it does.\<close>

definition error_at :: "string \<Rightarrow> (string \<times> json) list \<Rightarrow> string \<Rightarrow> string option" where
  "error_at event m k =
     (case map_of m k of
        Some (JStr v) \<Rightarrow> if v \<noteq> '''' \<and> v \<noteq> event then Some v else None
      | Some (JObj sub) \<Rightarrow> (case map_of sub ''type'' of
            Some (JStr t) \<Rightarrow> if t \<noteq> '''' then Some t else None | _ \<Rightarrow> None)
      | _ \<Rightarrow> None)"

fun first_error :: "string \<Rightarrow> (string \<times> json) list \<Rightarrow> string list \<Rightarrow> string option" where
  "first_error event m [] = None"
| "first_error event m (k # ks) =
     (case error_at event m k of Some t \<Rightarrow> Some t | None \<Rightarrow> first_error event m ks)"

definition ErrorType :: "Event \<Rightarrow> string" where
  "ErrorType e =
     (case ev_Raw e of None \<Rightarrow> ''''
      | Some m \<Rightarrow> (case first_error (ev_Event e) m error_keys of
            Some t \<Rightarrow> t | None \<Rightarrow> findKnown_obj m))"

lemma findKnown_known:
  "findKnown j = '''' \<or> findKnown j \<in> set KnownErrors"
  "findKnown_list js = '''' \<or> findKnown_list js \<in> set KnownErrors"
  "findKnown_obj kvs = '''' \<or> findKnown_obj kvs \<in> set KnownErrors"
  by (induction j and js and kvs rule: findKnown_findKnown_list_findKnown_obj.induct)
    (auto simp: Let_def find_Some_iff split: option.split)

end
