(* ===== verification/Reconcile.thy ===== *)
theory Reconcile
  imports Observe
begin

text \<open>
  \<^verbatim>\<open>fleet/internal/reconcile/reconcile.go\<close>: what to do about one agent, once per tick.
  \<open>Decide\<close> is given the thresholds, the agent's remembered state and one observation, and
  returns the new state and the actions. The function is modelled as the sequence of its stages;
  a stage that can return early yields \<open>Return\<close>, any other \<open>Next\<close>, and
  \<open>andThen\<close> composes them as the statements of the function follow one another. The theorems
  are in \<open>Reconcile_Props\<close>.
\<close>

section \<open>State, observation, actions\<close>

datatype Phase = Standby | Working | Waiting | Cooling | Disabled | Down | CodeMissing | Unreachable

record Quota =
  q_FiveHour :: rat
  q_FiveHourResets :: gtime
  q_SevenDay :: rat
  q_SevenDayResets :: gtime
  q_At :: gtime

record State =
  st_Name :: string
  st_Phase :: Phase
  st_SessionID :: string
  st_Task :: string
  st_Done :: bool
  st_DoneAt :: gtime
  st_ReportNudged :: bool
  st_HookIdle :: bool
  st_LastBusy :: gtime
  st_Restarts :: "gtime list"
  st_NudgedAt :: gtime
  st_CompactedAt :: int
  st_CoolingUntil :: gtime
  st_WaitingSince :: gtime
  st_PaneOrphanSince :: gtime
  st_DisabledReason :: string
  st_Proc :: string
  st_TurnOpen :: bool
  st_TurnProc :: string
  st_StartTried :: gtime
  st_StartFailing :: gtime
  st_CodeMissingSince :: gtime
  st_UnreachableSince :: gtime
  st_AwaySince :: gtime
  st_IdleAway :: duration
  st_IdleBase :: gtime
  st_HostBackAt :: gtime
  st_BootID :: string
  st_Low :: bool
  st_Reserved :: bool
  st_Quota :: Quota
  st_QuotaHeld :: bool
  st_Model :: string
  st_RecordedAt :: gtime
  st_ModelID :: string
  st_ModelAsked :: string
  st_ModelAskedKey :: string
  st_ModelAskedAt :: gtime
  st_ContextPct :: rat
  st_CostUSD :: rat
  st_Alerted :: "string \<Rightarrow> bool"

record Obs =
  ob_Now :: gtime
  ob_ContainerUp :: bool
  ob_ContainerFailed :: string
  ob_PaneAlive :: bool
  ob_PanePID :: int
  ob_Proc :: string
  ob_Screen :: string
  ob_CurrentSession :: string
  ob_Sessions :: "Agent list"
  ob_Status :: "Status option"
  ob_Events :: "Event list"
  ob_TranscriptSize :: int
  ob_TranscriptMTime :: gtime
  ob_Owes :: bool
  ob_Asking :: bool
  ob_AnsweredAt :: gtime
  ob_Unreachable :: string
  ob_Sibling :: bool

datatype Kind = Start | Restart | Rotate | ArchiveStray | Compact | Prompt | Push | Alert

record Action =
  a_Kind :: Kind
  a_Session :: string
  a_PID :: int
  a_Task :: string
  a_Reason :: string
  a_Event :: string
  a_Text :: message

record Thresholds =
  th_RestartFailures :: int
  th_RestartWindow :: duration
  th_StandbyIdle :: duration
  th_StandbyMinTranscript :: int
  th_WaitingNudge :: duration
  th_WaitingArchive :: duration
  th_CompactBytes :: int
  th_Low5h :: rat
  th_Reserved7d :: rat
  th_CoolingDefault :: duration
  th_HostSettle :: duration

definition paneGrace :: duration where "paneGrace = 2 * minute"
definition stuckAfter :: duration where "stuckAfter = 5 * minute"
definition startEvery :: duration where "startEvery = minute"
definition startAlertAfter :: duration where "startAlertAfter = 10 * minute"
definition reportNudge :: duration where "reportNudge = 10 * minute"
definition doneGrace :: duration where "doneGrace = 3 * minute"
definition codeMissingAfter :: duration where "codeMissingAfter = 3 * minute"
definition unreachableAfter :: duration where "unreachableAfter = 5 * minute"
definition turnSettle :: duration where "turnSettle = 2 * minute"

lemmas grace_defs = paneGrace_def stuckAfter_def startEvery_def startAlertAfter_def
  reportNudge_def doneGrace_def codeMissingAfter_def unreachableAfter_def turnSettle_def

definition ReasonTaskDone :: string where "ReasonTaskDone = ''task_done''"
definition ReasonStale :: string where "ReasonStale = ''stale''"
definition ReasonCrashed :: string where "ReasonCrashed = ''crashed''"
definition ReasonStray :: string where "ReasonStray = ''stray''"
definition PromptResume :: string where "PromptResume = ''resume''"

lemmas reason_defs = ReasonTaskDone_def ReasonStale_def ReasonCrashed_def ReasonStray_def
  PromptResume_def

section \<open>Small functions\<close>

definition OutOfReach :: "State \<Rightarrow> gtime \<Rightarrow> bool" where
  "OutOfReach s now \<longleftrightarrow> st_UnreachableSince s \<noteq> zero_time
     \<and> unreachableAfter \<le> time_sub now (st_UnreachableSince s)"

definition Recovering :: "State \<Rightarrow> gtime \<Rightarrow> bool" where
  "Recovering s now \<longleftrightarrow>
     (case st_Phase s of
        Down \<Rightarrow> st_StartFailing s \<noteq> zero_time \<and> time_sub now (st_StartFailing s) < startAlertAfter
      | CodeMissing \<Rightarrow> st_CodeMissingSince s \<noteq> zero_time
          \<and> time_sub now (st_CodeMissingSince s) < codeMissingAfter
      | _ \<Rightarrow> False)"

definition Aged :: "Quota \<Rightarrow> gtime \<Rightarrow> Quota" where
  "Aged q now =
     (let q1 = (if q_FiveHourResets q \<noteq> zero_time \<and> \<not> now < q_FiveHourResets q
                then q\<lparr>q_FiveHour := 0, q_FiveHourResets := zero_time\<rparr> else q)
      in if q_SevenDayResets q1 \<noteq> zero_time \<and> \<not> now < q_SevenDayResets q1
         then q1\<lparr>q_SevenDay := 0, q_SevenDayResets := zero_time\<rparr> else q1)"

definition dialogs :: "(string \<times> string) list" where
  "dialogs = [(''By proceeding, you accept all responsibility for actions taken while running in Bypass Permissions mode'',
     ''the Bypass Permissions warning'')]"

definition Dialog :: "string \<Rightarrow> string" where
  "Dialog screen =
     (let flat = Join (Fields screen) '' ''
      in case List.find (\<lambda>(marker, name). Contains flat marker) dialogs of
           None \<Rightarrow> '''' | Some (marker, name) \<Rightarrow> name)"

text \<open>\<open>strings.Cut\<close> at a text: what follows its first occurrence.\<close>

fun after_marker :: "string \<Rightarrow> string \<Rightarrow> string option" where
  "after_marker [] m = (if m = [] then Some [] else None)"
| "after_marker (c # s) m = (if HasPrefix (c # s) m then Some (drop (length m) (c # s))
     else after_marker s m)"

definition dockerCause :: "string \<Rightarrow> string" where
  "dockerCause err = (case after_marker err ''error during container init: '' of
     Some cause \<Rightarrow> cause | None \<Rightarrow> err)"

definition reportText :: "string \<Rightarrow> message" where
  "reportText task = [Str (''Task '' @ task @ '': whoever gave it to you has heard nothing from you since their last message. '' @
     ''If you have finished, send your report now '' @ em_dash @ '' and if a report failed to send earlier, send it again. '' @
     ''If you are blocked, or waiting on something, report that instead. Do not start the task over.'')]"

definition resumeText :: "string \<Rightarrow> message" where
  "resumeText task = [Str (''Your session was restarted while you were working on task '' @ task @
     '' (a power cut, a crash or a container restart). Whatever it was running was killed: '' @
     ''the turn you were in, and any background command you were waiting on. Check where '' @
     ''things stand first: git status in your worktree, and what your last steps left behind. '' @
     ''Then carry on with the task from there. Do not start it over. Run anything long as a '' @
     ''background command of your session, so you are woken when it ends '' @ em_dash @
     '' never detached with nohup, setsid or &.'')]"

definition firstOf :: "string \<Rightarrow> string \<Rightarrow> string" where
  "firstOf a b = (if a \<noteq> '''' then a else b)"

definition bootOf :: "string \<Rightarrow> string" where
  "bootOf p = fst (Cut p (CHR ''/''))"

definition round_msg :: "duration \<Rightarrow> frag" where
  "round_msg d = DurText (if hour \<le> d then dur_round d hour else dur_round d minute)"

section \<open>The clocks a host's downtime must not move\<close>

definition trackAway :: "State \<Rightarrow> Obs \<Rightarrow> State" where
  "trackAway st ob =
     (if ob_Unreachable ob \<noteq> '''' \<or> \<not> ob_ContainerUp ob
      then (if st_AwaySince st = zero_time then st\<lparr>st_AwaySince := ob_Now ob\<rparr> else st)
      else
        (let st1 = (if st_AwaySince st \<noteq> zero_time
                    then st\<lparr>st_IdleAway := wrap64 (st_IdleAway st + time_sub (ob_Now ob) (st_AwaySince st)),
                            st_AwaySince := zero_time, st_HostBackAt := ob_Now ob, st_Restarts := []\<rparr>
                    else st);
             b = bootOf (ob_Proc ob)
         in if b \<noteq> ''''
            then (let st2 = (if st_BootID st1 \<noteq> '''' \<and> st_BootID st1 \<noteq> b
                             then st1\<lparr>st_HostBackAt := ob_Now ob, st_Restarts := []\<rparr> else st1)
                  in st2\<lparr>st_BootID := b\<rparr>)
            else st1))"

definition fold_status :: "State \<Rightarrow> gtime \<Rightarrow> Status \<Rightarrow> State" where
  "fold_status st now s =
     (let st1 = (case FiveHour s of None \<Rightarrow> st
          | Some w \<Rightarrow> st\<lparr>st_Quota := (st_Quota st)\<lparr>q_FiveHour := w_Used w,
              q_FiveHourResets := w_Resets w, q_At := now\<rparr>\<rparr>);
          st2 = (case SevenDay s of None \<Rightarrow> st1
          | Some w \<Rightarrow> st1\<lparr>st_Quota := (st_Quota st1)\<lparr>q_SevenDay := w_Used w,
              q_SevenDayResets := w_Resets w, q_At := now\<rparr>\<rparr>);
          st3 = (if ss_UsedPercentage s \<noteq> None then st2\<lparr>st_ContextPct := ContextPct s\<rparr> else st2)
      in st3\<lparr>st_CostUSD := ss_TotalCostUSD s\<rparr>)"

definition observeQuota :: "Thresholds \<Rightarrow> State \<Rightarrow> Obs \<Rightarrow> State" where
  "observeQuota th st ob =
     (let st1 = (case ob_Status ob of None \<Rightarrow> st | Some s \<Rightarrow> fold_status st (ob_Now ob) s);
          st2 = st1\<lparr>st_Quota := Aged (st_Quota st1) (ob_Now ob)\<rparr>
      in st2\<lparr>st_Low := th_Low5h th \<le> q_FiveHour (st_Quota st2),
             st_Reserved := th_Reserved7d th \<le> q_SevenDay (st_Quota st2)\<rparr>)"

section \<open>Stages\<close>

type_synonym tick = "State \<times> Action list"

datatype 'a flow = Return tick | Next 'a

definition andThen :: "'a flow \<Rightarrow> ('a \<Rightarrow> 'b flow) \<Rightarrow> 'b flow" where
  "andThen m k = (case m of Return t \<Rightarrow> Return t | Next x \<Rightarrow> k x)"

lemma andThen_simps [simp]: "andThen (Return t) k = Return t" "andThen (Next x) k = k x"
  by (simp_all add: andThen_def)

definition act :: "Kind \<Rightarrow> Action" where
  "act k = \<lparr>a_Kind = k, a_Session = '''', a_PID = 0, a_Task = '''', a_Reason = '''',
     a_Event = '''', a_Text = []\<rparr>"

definition add_act :: "Action \<Rightarrow> tick \<Rightarrow> tick" where
  "add_act a t = (fst t, snd t @ [a])"

definition push :: "string \<Rightarrow> message \<Rightarrow> tick \<Rightarrow> tick" where
  "push event txt t = add_act ((act Push)\<lparr>a_Event := ''fleet.agent.'' @ event, a_Text := txt\<rparr>) t"

definition alertOnce :: "string \<Rightarrow> message \<Rightarrow> tick \<Rightarrow> tick" where
  "alertOnce key txt t =
     (if st_Alerted (fst t) key then t
      else add_act ((act Alert)\<lparr>a_Text := txt\<rparr>)
             ((fst t)\<lparr>st_Alerted := (st_Alerted (fst t))(key := True)\<rparr>, snd t))"

definition unalert :: "string \<Rightarrow> State \<Rightarrow> State" where
  "unalert key st = st\<lparr>st_Alerted := (st_Alerted st)(key := False)\<rparr>"

text \<open>The clocks, the quota, the reserved alert.\<close>

definition startup :: "Thresholds \<Rightarrow> Obs \<Rightarrow> State \<Rightarrow> tick" where
  "startup th ob st =
     (let st1 = (if ob_Unreachable ob = '''' \<and> OutOfReach st (ob_Now ob)
                 then st\<lparr>st_StartTried := zero_time, st_StartFailing := zero_time,
                         st_CodeMissingSince := zero_time\<rparr> else st);
          st2 = observeQuota th (trackAway st1 ob) ob
      in if st_Reserved st2
         then alertOnce ''reserved'' [Str (st_Name st2), Str '': 7-day window at '',
                Percent0 (q_SevenDay (st_Quota st2)), Str '' '', Str em_dash,
                Str '' small tasks only until it resets''] (st2, [])
         else (unalert ''reserved'' st2, []))"

definition home_event :: "tick \<Rightarrow> Event \<Rightarrow> tick" where
  "home_event t e =
     (let name = Str (st_Name (fst t))
      in if ev_Event e = ''agent-run.home_unwritable'' \<and> \<not> st_Alerted (fst t) ''home''
         then alertOnce ''home'' [name, Str '': HOME is not writable in its container, so it cannot start '',
                Str em_dash, Str '' the image's home does not match fleet.yaml; rebuild with fleetctl image build'']
              (push ''home_unwritable'' [name, Str '': HOME is not writable in its container''] t)
         else t)"

definition code_event :: "Obs \<Rightarrow> tick \<Rightarrow> Event \<Rightarrow> tick" where
  "code_event ob t e =
     (if ev_Event e = ''agent-run.code_missing''
      then (let st = fst t;
                st1 = (if st_CodeMissingSince st = zero_time
                       then st\<lparr>st_CodeMissingSince := ob_Now ob\<rparr> else st)
            in (st1\<lparr>st_Phase := CodeMissing\<rparr>, snd t))
      else t)"

definition code_alert :: "Obs \<Rightarrow> tick \<Rightarrow> tick" where
  "code_alert ob t =
     (let st = fst t; name = Str (st_Name st)
      in if st_Phase st = CodeMissing \<and> ob_Unreachable ob = ''''
            \<and> st_CodeMissingSince st \<noteq> zero_time
            \<and> codeMissingAfter \<le> time_sub (ob_Now ob) (st_CodeMissingSince st)
            \<and> \<not> st_Alerted st ''code''
         then alertOnce ''code'' [name, Str '': the shared code directory is empty in its container (NFS not mounted?) '',
                Str em_dash, Str '' it restarts until the share is there'']
              (push ''code_missing'' [name, Str '': the shared code directory is empty in its container; it is restarting until the mount is there''] t)
         else t)"

definition agent_run_events :: "Obs \<Rightarrow> tick \<Rightarrow> tick" where
  "agent_run_events ob t =
     code_alert ob (foldl (code_event ob) (foldl home_event t (ob_Events ob)) (ob_Events ob))"

text \<open>A subscription that refused the agent. The early return of a disabled agent
  returns no action at all.\<close>

definition disabled_return :: "tick \<Rightarrow> tick flow" where
  "disabled_return t = (if st_Phase (fst t) = Disabled then Return (fst t, []) else Next t)"

definition refusals :: "string list" where
  "refusals = [''authentication_failed'', ''billing_error'', ''account_on_hold'']"

definition refused :: "string \<Rightarrow> tick \<Rightarrow> tick" where
  "refused kind t =
     (let st = fst t; name = Str (st_Name st)
      in alertOnce ''disabled'' [name, Str '' disabled: '', Str kind, Str '' '', Str em_dash,
             Str '' its subscription needs you'']
           (push ''disabled'' [name, Str '' disabled: '', Str kind]
             (st\<lparr>st_Phase := Disabled, st_DisabledReason := kind\<rparr>, snd t)))"

definition rate_limited :: "Thresholds \<Rightarrow> Obs \<Rightarrow> tick \<Rightarrow> tick" where
  "rate_limited th ob t =
     (let st = fst t; resets = q_FiveHourResets (st_Quota st);
          until = (if \<not> ob_Now ob < resets then ob_Now ob + th_CoolingDefault th else resets);
          t1 = (if st_Phase st \<noteq> Cooling
                then push ''cooling'' [Str (st_Name st), Str '' rate-limited until '', KitchenTime until] t
                else t)
      in ((fst t1)\<lparr>st_Phase := Cooling, st_CoolingUntil := until\<rparr>, snd t1))"

fun stop_failures :: "Thresholds \<Rightarrow> Obs \<Rightarrow> Event list \<Rightarrow> tick \<Rightarrow> tick flow" where
  "stop_failures th ob [] t = Next t"
| "stop_failures th ob (e # es) t =
     (if ev_Event e \<noteq> ''StopFailure'' then stop_failures th ob es t
      else if ErrorType e \<in> set refusals then
        (if st_SessionID (fst t) \<noteq> '''' \<and> ev_Session e \<noteq> '''' \<and> ev_Session e \<noteq> st_SessionID (fst t)
         then stop_failures th ob es t
         else Return (refused (ErrorType e) t))
      else if ErrorType e = ''rate_limit'' then stop_failures th ob es (rate_limited th ob t)
      else stop_failures th ob es t)"

text \<open>The host cannot be asked.\<close>

definition unreachable_stage :: "Obs \<Rightarrow> tick \<Rightarrow> tick flow" where
  "unreachable_stage ob t =
     (let st = fst t
      in if ob_Unreachable ob \<noteq> ''''
         then (let st1 = (if st_UnreachableSince st = zero_time
                          then st\<lparr>st_UnreachableSince := ob_Now ob\<rparr> else st)
               in if OutOfReach st1 (ob_Now ob) \<and> \<not> st_Alerted st1 ''unreachable''
                  then Return (alertOnce ''unreachable'' [Str ''fleetd cannot reach '', Str (ob_Unreachable ob), Str '' '',
                           Str em_dash, Str '' its agents are not seen until it is back'']
                         (push ''unreachable'' [Str (st_Name st1), Str '': its host has been out of reach since '',
                           KitchenTime (st_UnreachableSince st1)] (st1, snd t)))
                  else Return (st1, snd t))
         else Next (unalert ''unreachable'' (st\<lparr>st_UnreachableSince := zero_time\<rparr>), snd t))"

text \<open>The container is not running.\<close>

definition start_failing :: "Obs \<Rightarrow> tick \<Rightarrow> tick" where
  "start_failing ob t =
     (let st = fst t; now = ob_Now ob;
          st1 = (if st_StartFailing st = zero_time then st\<lparr>st_StartFailing := now\<rparr> else st);
          t2 = (if startEvery \<le> time_sub now (st_StartTried st1)
                then add_act ((act Start)\<lparr>a_Reason := ob_ContainerFailed ob\<rparr>)
                       (st1\<lparr>st_StartTried := now\<rparr>, snd t)
                else (st1, snd t))
      in if startAlertAfter \<le> time_sub now (st_StartFailing (fst t2))
         then alertOnce ''start'' [Str (st_Name st), Str (CHR 0x27 # ''s container will not start: ''),
                Str (dockerCause (ob_ContainerFailed ob))] t2
         else t2)"

definition container_stage :: "Obs \<Rightarrow> tick \<Rightarrow> tick flow" where
  "container_stage ob t =
     (if \<not> ob_ContainerUp ob \<and> ob_Sibling ob
      then Return (if st_Phase (fst t) \<noteq> CodeMissing then (fst t)\<lparr>st_Phase := Down\<rparr> else fst t, snd t)
      else if \<not> ob_ContainerUp ob
      then (let t1 = (if ob_ContainerFailed ob \<noteq> '''' then start_failing ob t else t)
            in if st_Phase (fst t1) = CodeMissing then Return t1
               else let t2 = (if st_Phase (fst t1) \<noteq> Down \<and> ob_ContainerFailed ob = ''''
                              then push ''down'' [Str (st_Name (fst t1)), Str (CHR 0x27 # ''s container is not running'')] t1
                              else t1)
                    in Return ((fst t2)\<lparr>st_Phase := Down\<rparr>, snd t2))
      else Next (unalert ''start'' ((fst t)\<lparr>st_StartTried := zero_time, st_StartFailing := zero_time\<rparr>), snd t))"

text \<open>Which session is the agent's, the strays, and the turns its hooks report.\<close>

definition own :: "Obs \<Rightarrow> State \<Rightarrow> string \<Rightarrow> bool" where
  "own ob st sid \<longleftrightarrow> sid \<noteq> '''' \<and> (sid = ob_CurrentSession ob \<or> sid = st_SessionID st)"

definition mine_of :: "Obs \<Rightarrow> State \<Rightarrow> Agent option" where
  "mine_of ob st =
     (case List.find (\<lambda>s. ag_Name s = st_Name st
             \<and> (ob_PanePID ob = 0 \<or> ag_PID s = ob_PanePID ob)) (ob_Sessions ob) of
        Some s \<Rightarrow> Some s
      | None \<Rightarrow> List.find (\<lambda>s. own ob st (ag_SessionID s)) (ob_Sessions ob))"

definition is_mine :: "Agent option \<Rightarrow> string \<Rightarrow> bool" where
  "is_mine mine sid \<longleftrightarrow> (case mine of None \<Rightarrow> False | Some m \<Rightarrow> sid = ag_SessionID m)"

definition stray :: "Obs \<Rightarrow> State \<Rightarrow> Agent option \<Rightarrow> Agent \<Rightarrow> bool" where
  "stray ob st mine s \<longleftrightarrow> \<not> (is_mine mine (ag_SessionID s) \<or> own ob st (ag_SessionID s)
     \<or> Activity s \<noteq> ''idle'')"

definition archive_strays :: "Obs \<Rightarrow> Agent option \<Rightarrow> tick \<Rightarrow> tick" where
  "archive_strays ob mine t =
     (fst t, snd t @ map (\<lambda>s. (act ArchiveStray)\<lparr>a_Session := ag_SessionID s, a_PID := ag_PID s,
        a_Reason := ReasonStray\<rparr>) (filter (stray ob (fst t) mine) (ob_Sessions ob)))"

definition turn_event :: "Obs \<Rightarrow> Agent option \<Rightarrow> State \<Rightarrow> Event \<Rightarrow> State" where
  "turn_event ob mine st e =
     (if ev_Session e = '''' \<or> \<not> (own ob st (ev_Session e) \<or> is_mine mine (ev_Session e)) then st
      else if ev_Event e = ''UserPromptSubmit''
      then st\<lparr>st_TurnOpen := True, st_TurnProc := firstOf (st_Proc st) (ob_Proc ob), st_HookIdle := False\<rparr>
      else if ev_Event e \<in> set [''PreToolUse'', ''PostToolUse'', ''PostToolUseFailure'']
      then st\<lparr>st_HookIdle := False\<rparr>
      else if ev_Event e \<in> set [''Stop'', ''StopFailure'']
      then st\<lparr>st_TurnOpen := False, st_HookIdle := True\<rparr>
      else st)"

definition sessions_stage :: "Obs \<Rightarrow> tick \<Rightarrow> Agent option \<times> tick" where
  "sessions_stage ob t =
     (let mine = mine_of ob (fst t); t1 = archive_strays ob mine t
      in (mine, (foldl (turn_event ob mine) (fst t1) (ob_Events ob), snd t1)))"

text \<open>No live session: \<open>restart\<close>.\<close>

definition restart :: "Thresholds \<Rightarrow> Obs \<Rightarrow> tick \<Rightarrow> tick" where
  "restart th ob t =
     (let st = fst t; now = ob_Now ob; resume = (act Restart)\<lparr>a_Session := st_SessionID st\<rparr>
      in if st_HostBackAt st \<noteq> zero_time \<and> time_sub now (st_HostBackAt st) < th_HostSettle th
         then add_act resume (st\<lparr>st_Restarts := []\<rparr>, snd t)
         else
           let recent = filter (\<lambda>r. time_sub now r < th_RestartWindow th) (st_Restarts st)
           in if th_RestartFailures th \<le> int (length recent) + 1
              then (let t1 = add_act ((act Rotate)\<lparr>a_Session := st_SessionID st, a_Task := st_Task st,
                               a_Reason := ReasonCrashed\<rparr>) t;
                        t2 = push ''crashed'' [Str (st_Name st),
                               Str '' crash-looped; its session was archived and it starts fresh''] t1;
                        t3 = alertOnce ''crashloop'' [Str (st_Name st), Str '' failed to start '',
                               Num (int (length recent) + 1), Str '' times in '', DurText (th_RestartWindow th),
                               Str ''; started fresh''] t2
                    in ((fst t3)\<lparr>st_Restarts := [], st_Task := '''', st_Done := False, st_Phase := Standby,
                          st_SessionID := '''', st_TurnOpen := False\<rparr>, snd t3))
              else add_act resume (st\<lparr>st_Restarts := recent @ [now]\<rparr>, snd t))"

text \<open>A dialog nobody answers, a pane with no session yet, no session. What goes on is
  the agent's live session.\<close>

definition stuck_alert :: "string \<Rightarrow> string \<Rightarrow> tick \<Rightarrow> tick" where
  "stuck_alert name d t =
     alertOnce ''stuck'' [Str name, Str '' is stuck on '', Quoted d, Str '' '', Str em_dash,
         Str '' fleetctl attach '', Str name]
       (push ''stuck'' [Str name, Str '' is waiting on '', Quoted d, Str '' and hears no messages''] t)"

definition wait_stuck :: "Obs \<Rightarrow> string \<Rightarrow> tick \<Rightarrow> tick" where
  "wait_stuck ob d t =
     (let st = fst t;
          st1 = (if st_WaitingSince st = zero_time then st\<lparr>st_WaitingSince := ob_Now ob\<rparr> else st)
      in if stuckAfter \<le> time_sub (ob_Now ob) (st_WaitingSince st1) \<and> \<not> st_Alerted st1 ''stuck''
         then stuck_alert (st_Name st1) d (st1, snd t) else (st1, snd t))"

definition orphan_seen :: "Obs \<Rightarrow> bool \<Rightarrow> State \<Rightarrow> State" where
  "orphan_seen ob orphan st =
     (if orphan \<and> st_PaneOrphanSince st = zero_time then st\<lparr>st_PaneOrphanSince := ob_Now ob\<rparr> else st)"

definition pane_stage :: "Thresholds \<Rightarrow> Obs \<Rightarrow> Agent option \<times> tick \<Rightarrow> (Agent \<times> tick) flow" where
  "pane_stage th ob mt =
     (let mine = fst mt; t = snd mt; st = fst t; d = Dialog (ob_Screen ob);
          orphan = (mine = None \<and> ob_PaneAlive ob);
          st1 = orphan_seen ob orphan st
      in if orphan \<and> d \<noteq> ''''
         then Return (wait_stuck ob d (st\<lparr>st_PaneOrphanSince := zero_time\<rparr>, snd t))
         else if orphan \<and> time_sub (ob_Now ob) (st_PaneOrphanSince st1) < paneGrace
         then Return (st1, snd t)
         else case mine of
            None \<Rightarrow> Return (restart th ob (st1\<lparr>st_PaneOrphanSince := zero_time\<rparr>, snd t))
          | Some m \<Rightarrow> if \<not> ob_PaneAlive ob
                      then Return (restart th ob (st1\<lparr>st_PaneOrphanSince := zero_time\<rparr>, snd t))
                      else Next (m, st1\<lparr>st_PaneOrphanSince := zero_time\<rparr>, snd t))"

text \<open>The session is up. What goes on is whether the process is new, whether the session is
  busy, and how long it has been idle.\<close>

definition session_up :: "Obs \<Rightarrow> Agent \<Rightarrow> State \<Rightarrow> State" where
  "session_up ob m st =
     (let st1 = st\<lparr>st_SessionID := ag_SessionID m, st_Proc := ob_Proc ob\<rparr>;
          st2 = (if st_Phase st1 = Down \<or> st_Phase st1 = CodeMissing
                 then st1\<lparr>st_Phase := Standby\<rparr> else st1)
      in unalert ''home'' (unalert ''crashloop'' ((unalert ''code'' st2)\<lparr>st_CodeMissingSince := zero_time\<rparr>)))"

definition waiting_stage :: "Obs \<Rightarrow> Agent \<Rightarrow> tick \<Rightarrow> tick" where
  "waiting_stage ob m t =
     (if Activity m = ''waiting'' \<and> ag_WaitingFor m \<noteq> '''' then wait_stuck ob (ag_WaitingFor m) t
      else (unalert ''stuck'' ((fst t)\<lparr>st_WaitingSince := zero_time\<rparr>), snd t))"

definition idle_since :: "Obs \<Rightarrow> State \<Rightarrow> gtime" where
  "idle_since ob st =
     (let i1 = (if st_LastBusy st < ob_TranscriptMTime ob then ob_TranscriptMTime ob else st_LastBusy st)
      in if i1 < ob_AnsweredAt ob \<and> \<not> ob_Now ob < ob_AnsweredAt ob then ob_AnsweredAt ob else i1)"

definition seen_busy :: "Obs \<Rightarrow> bool \<Rightarrow> State \<Rightarrow> State" where
  "seen_busy ob busy st =
     (let st1 = (if \<not> ob_Owes ob then st\<lparr>st_ReportNudged := False\<rparr> else st)
      in if busy \<or> (st_LastBusy st1 = zero_time \<and> ob_TranscriptMTime ob = zero_time)
         then st1\<lparr>st_LastBusy := ob_Now ob\<rparr> else st1)"

definition idle_rebase :: "gtime \<Rightarrow> State \<Rightarrow> State" where
  "idle_rebase i st =
     (if st_IdleBase st = zero_time then st\<lparr>st_IdleBase := i\<rparr>
      else if st_IdleBase st \<noteq> i then st\<lparr>st_IdleBase := i, st_IdleAway := 0\<rparr> else st)"

definition idle_clock :: "Obs \<Rightarrow> bool \<Rightarrow> State \<Rightarrow> duration \<times> State" where
  "idle_clock ob busy st =
     (let st2 = seen_busy ob busy st; i = idle_since ob st2; st3 = idle_rebase i st2
      in (max (wrap64 (time_sub (ob_Now ob) i - st_IdleAway st3)) 0, st3))"

record live =
  l_moved :: bool
  l_busy :: bool
  l_idle :: duration
  l_tick :: tick

definition session_stage :: "Obs \<Rightarrow> Agent \<times> tick \<Rightarrow> live" where
  "session_stage ob mt =
     (let m = fst mt; t = snd mt; st = fst t;
          moved = (st_Proc st \<noteq> '''' \<and> ob_Proc ob \<noteq> '''' \<and> st_Proc st \<noteq> ob_Proc ob);
          t1 = waiting_stage ob m (session_up ob m st, snd t);
          busy = (Activity m = ''busy'');
          (idle, st2) = idle_clock ob busy (fst t1)
      in \<lparr>l_moved = moved, l_busy = busy, l_idle = idle, l_tick = (st2, snd t1)\<rparr>)"

text \<open>A rate-limited agent is left alone until its window resets.\<close>

definition window_reset :: "live \<Rightarrow> live" where
  "window_reset lv =
     (let st = (fst (l_tick lv))\<lparr>st_CoolingUntil := zero_time\<rparr>; acts = snd (l_tick lv)
      in lv\<lparr>l_tick :=
           (if st_Task st \<noteq> '''' \<and> \<not> l_busy lv
            then (st\<lparr>st_TurnOpen := False\<rparr>, acts @ [(act Prompt)\<lparr>a_Text :=
                    [Str ''Your rate-limit window has reset. Continue the task you were working on.'']\<rparr>])
            else (st, acts))\<rparr>)"

definition cooling_stage :: "Obs \<Rightarrow> live \<Rightarrow> live flow" where
  "cooling_stage ob lv =
     (let st = fst (l_tick lv)
      in if st_Phase st = Cooling
         then (if ob_Now ob < st_CoolingUntil st then Return (l_tick lv) else Next (window_reset lv))
         else Next lv)"

text \<open>A turn cut short is taken up again.\<close>

definition cut_short :: "Obs \<Rightarrow> State \<Rightarrow> bool" where
  "cut_short ob st \<longleftrightarrow> st_TurnOpen st \<and> st_TurnProc st \<noteq> '''' \<and> ob_Proc ob \<noteq> '''' \<and> st_TurnProc st \<noteq> ob_Proc ob"

definition carry_on :: "Obs \<Rightarrow> live \<Rightarrow> live" where
  "carry_on ob lv =
     (let st = fst (l_tick lv);
          t1 = push ''resumed'' [Str (st_Name st), Str '' was restarted while working on '',
                 Str (st_Task st), Str '' and told to carry on'']
               (add_act ((act Prompt)\<lparr>a_Reason := PromptResume, a_Task := st_Task st,
                  a_Text := resumeText (st_Task st)\<rparr>) (l_tick lv))
      in lv\<lparr>l_tick := ((fst t1)\<lparr>st_LastBusy := ob_Now ob\<rparr>, snd t1), l_idle := 0\<rparr>)"

definition carried :: "Obs \<Rightarrow> live \<Rightarrow> live" where
  "carried ob lv =
     (let st = fst (l_tick lv)
      in if (cut_short ob st \<or> (l_moved lv \<and> ob_Owes ob)) \<and> st_Task st \<noteq> '''' \<and> \<not> st_Done st
         then carry_on ob lv else lv)"

definition close_turn :: "live \<Rightarrow> live" where
  "close_turn lv = lv\<lparr>l_tick := ((fst (l_tick lv))\<lparr>st_TurnOpen := False\<rparr>, snd (l_tick lv))\<rparr>"

definition open_turn :: "Obs \<Rightarrow> live \<Rightarrow> live" where
  "open_turn ob lv =
     lv\<lparr>l_tick := ((fst (l_tick lv))\<lparr>st_TurnOpen := True, st_TurnProc := ob_Proc ob\<rparr>, snd (l_tick lv))\<rparr>"

definition turn_stage :: "Obs \<Rightarrow> live \<Rightarrow> live" where
  "turn_stage ob lv =
     (if l_busy lv then open_turn ob lv
      else let lv1 = carried ob lv
           in if cut_short ob (fst (l_tick lv)) \<or> (st_TurnOpen (fst (l_tick lv1)) \<and> turnSettle < l_idle lv1)
              then close_turn lv1 else lv1)"

text \<open>The phase, and the end of the tick for a session that works.\<close>

definition phase_of :: "bool \<Rightarrow> State \<Rightarrow> Phase" where
  "phase_of busy st = (if busy then Working else if st_Task st \<noteq> '''' then Waiting else Standby)"

definition done_now :: "Obs \<Rightarrow> State \<Rightarrow> bool" where
  "done_now ob st \<longleftrightarrow> st_Done st \<and> (st_HookIdle st
     \<or> (st_DoneAt st \<noteq> zero_time \<and> doneGrace \<le> time_sub (ob_Now ob) (st_DoneAt st)))"

definition phase_stage :: "Obs \<Rightarrow> live \<Rightarrow> live flow" where
  "phase_stage ob lv =
     (let t = l_tick lv; st = (fst t)\<lparr>st_Phase := phase_of (l_busy lv) (fst t)\<rparr>
      in if l_busy lv \<and> \<not> done_now ob st
         then Return (st\<lparr>st_NudgedAt := zero_time\<rparr>, snd t)
         else Next (lv\<lparr>l_tick := (st, snd t)\<rparr>))"

text \<open>What is done about an idle session, or a done one.\<close>

definition rotate_session :: "Obs \<Rightarrow> string \<Rightarrow> tick \<Rightarrow> tick" where
  "rotate_session ob reason t =
     (let st = fst t;
          t1 = add_act ((act Rotate)\<lparr>a_Session := st_SessionID st, a_Task := st_Task st, a_Reason := reason\<rparr>) t
      in ((fst t1)\<lparr>st_Task := '''', st_Done := False, st_Phase := Standby, st_SessionID := '''',
            st_TurnOpen := False, st_HookIdle := False, st_DoneAt := zero_time,
            st_NudgedAt := zero_time, st_CompactedAt := 0, st_LastBusy := ob_Now ob,
            st_Model := '''', st_ModelID := '''', st_IdleBase := zero_time, st_IdleAway := 0\<rparr>, snd t1))"

definition rotation_stage :: "Thresholds \<Rightarrow> Obs \<Rightarrow> live \<Rightarrow> live flow" where
  "rotation_stage th ob lv =
     (let t = l_tick lv; st = fst t; idle = l_idle lv; name = Str (st_Name st); task = Str (st_Task st)
      in if st_Done st then Return (rotate_session ob ReasonTaskDone t)
         else if st_Task st = '''' \<and> th_StandbyIdle th < idle \<and> th_StandbyMinTranscript th \<le> ob_TranscriptSize ob
         then Return (rotate_session ob ReasonStale t)
         else if st_Task st \<noteq> '''' \<and> ob_Asking ob then Next lv
         else if st_Task st \<noteq> '''' \<and> th_WaitingArchive th < idle
         then Return (rotate_session ob ReasonStale
                (add_act ((act Alert)\<lparr>a_Text := [name, Str '' gave up waiting on '', task, Str '' after '',
                     round_msg idle, Str ''; its worktree is kept'']\<rparr>)
                  (push ''stale'' [name, Str '' idle '', round_msg idle, Str '' on '', task,
                     Str '': archived (worktree kept), back on standby''] t)))
         else if st_Task st \<noteq> '''' \<and> th_WaitingNudge th < idle \<and> st_NudgedAt st = zero_time
         then Next (lv\<lparr>l_tick := push ''idle_on_task'' [name, Str '' idle '', round_msg idle, Str '' on '', task]
                (st\<lparr>st_NudgedAt := ob_Now ob\<rparr>, snd t)\<rparr>)
         else Next lv)"

definition report_stage :: "Obs \<Rightarrow> duration \<Rightarrow> tick \<Rightarrow> tick" where
  "report_stage ob idle t =
     (let st = fst t
      in if ob_Owes ob \<and> \<not> ob_Asking ob \<and> st_Task st \<noteq> '''' \<and> \<not> st_ReportNudged st \<and> reportNudge \<le> idle
         then push ''report_nudged'' [Str (st_Name st), Str '' was silent '', round_msg idle, Str '' on '',
                  Str (st_Task st), Str '' with a report owed, and was asked for it'']
                (add_act ((act Prompt)\<lparr>a_Text := reportText (st_Task st)\<rparr>)
                  (st\<lparr>st_ReportNudged := True\<rparr>, snd t))
         else t)"

definition compact_stage :: "Thresholds \<Rightarrow> Obs \<Rightarrow> tick \<Rightarrow> tick" where
  "compact_stage th ob t =
     (let st = fst t
      in if th_CompactBytes th \<le> ob_TranscriptSize ob
            \<and> wrap64 (st_CompactedAt st + go_div (th_CompactBytes th) 4) < ob_TranscriptSize ob
         then add_act ((act Compact)\<lparr>a_Session := st_SessionID st\<rparr>)
                (st\<lparr>st_CompactedAt := ob_TranscriptSize ob\<rparr>, snd t)
         else t)"

section \<open>One tick\<close>

text \<open>The stages up to the agent's live session, and from it on.\<close>

definition before_session :: "Thresholds \<Rightarrow> State \<Rightarrow> Obs \<Rightarrow> (Agent \<times> tick) flow" where
  "before_session th st ob =
     andThen (disabled_return (agent_run_events ob (startup th ob st)))
       (\<lambda>t. andThen (stop_failures th ob (ob_Events ob) t)
       (\<lambda>t. andThen (unreachable_stage ob t)
       (\<lambda>t. andThen (container_stage ob t)
       (\<lambda>t. pane_stage th ob (sessions_stage ob t)))))"

definition with_session :: "Thresholds \<Rightarrow> Obs \<Rightarrow> Agent \<times> tick \<Rightarrow> tick flow" where
  "with_session th ob mt =
     andThen (cooling_stage ob (session_stage ob mt))
       (\<lambda>lv. andThen (phase_stage ob (turn_stage ob lv))
       (\<lambda>lv. andThen (rotation_stage th ob lv)
       (\<lambda>lv. Next (compact_stage th ob (report_stage ob (l_idle lv) (l_tick lv))))))"

definition outcome :: "tick flow \<Rightarrow> tick" where
  "outcome fl = (case fl of Return t \<Rightarrow> t | Next t \<Rightarrow> t)"

definition Decide :: "Thresholds \<Rightarrow> State \<Rightarrow> Obs \<Rightarrow> State \<times> Action list" where
  "Decide th st ob = outcome (andThen (before_session th st ob) (with_session th ob))"

text \<open>The state of an agent nothing is known of (\<^verbatim>\<open>reconcile.State{Name: name, Phase: Standby}\<close>).\<close>

definition fresh_state :: "string \<Rightarrow> State" where
  "fresh_state name = \<lparr>st_Name = name, st_Phase = Standby, st_SessionID = '''', st_Task = '''',
     st_Done = False, st_DoneAt = 0, st_ReportNudged = False, st_HookIdle = False, st_LastBusy = 0,
     st_Restarts = [], st_NudgedAt = 0, st_CompactedAt = 0, st_CoolingUntil = 0, st_WaitingSince = 0,
     st_PaneOrphanSince = 0, st_DisabledReason = '''', st_Proc = '''', st_TurnOpen = False,
     st_TurnProc = '''', st_StartTried = 0, st_StartFailing = 0, st_CodeMissingSince = 0,
     st_UnreachableSince = 0, st_AwaySince = 0, st_IdleAway = 0, st_IdleBase = 0, st_HostBackAt = 0,
     st_BootID = '''', st_Low = False, st_Reserved = False,
     st_Quota = \<lparr>q_FiveHour = 0, q_FiveHourResets = 0, q_SevenDay = 0, q_SevenDayResets = 0, q_At = 0\<rparr>,
     st_QuotaHeld = False, st_Model = '''', st_RecordedAt = 0, st_ModelID = '''', st_ModelAsked = '''',
     st_ModelAskedKey = '''', st_ModelAskedAt = 0, st_ContextPct = 0, st_CostUSD = 0,
     st_Alerted = (\<lambda>_. False)\<rparr>"

end
