(* ===== verification/Reconcile_Props.thy ===== *)
theory Reconcile_Props
  imports Reconcile
begin

text \<open>
  The theorems on \<open>Decide\<close>: what a tick may do to an agent's task and session, when it may end a
  session, whom it leaves alone, and which clocks it moves. Each stage has a lemma on the fields it
  keeps (\<open>core\<close>) and on the kinds of action it adds; the properties compose them.
\<close>

section \<open>What the building blocks leave alone\<close>

lemma fst_add_act [simp]: "fst (add_act a t) = fst t"
  and snd_add_act [simp]: "snd (add_act a t) = snd t @ [a]"
  by (simp_all add: add_act_def)

lemma fst_push [simp]: "fst (push e x t) = fst t"
  and snd_push [simp]: "snd (push e x t) =
    snd t @ [(act Push)\<lparr>a_Event := ''fleet.agent.'' @ e, a_Text := x\<rparr>]"
  by (simp_all add: push_def)

lemma fst_alertOnce [simp]:
  "fst (alertOnce k x t) = (fst t)\<lparr>st_Alerted := (st_Alerted (fst t))(k := True)\<rparr>"
proof -
  have "st_Alerted (fst t) k \<Longrightarrow> (st_Alerted (fst t))(k := True) = st_Alerted (fst t)"
    by (simp add: fun_upd_idem)
  then show ?thesis by (simp add: alertOnce_def)
qed

lemma snd_alertOnce [simp]:
  "snd (alertOnce k x t) = snd t @ (if st_Alerted (fst t) k then [] else [(act Alert)\<lparr>a_Text := x\<rparr>])"
  by (simp add: alertOnce_def)

text \<open>The fields that only the agent's own session, or its absence, may change.\<close>

definition core :: "State \<Rightarrow> (string \<times> string \<times> string \<times> bool \<times> gtime) \<times>
    (gtime \<times> gtime \<times> int \<times> bool) \<times> (string \<times> string \<times> gtime)" where
  "core st = ((st_Name st, st_SessionID st, st_Task st, st_Done st, st_DoneAt st),
     (st_LastBusy st, st_NudgedAt st, st_CompactedAt st, st_ReportNudged st),
     (st_Proc st, st_DisabledReason st, st_IdleBase st))"

definition core2 :: "State \<Rightarrow> (string \<times> string \<times> string \<times> bool \<times> gtime) \<times>
    (gtime \<times> gtime \<times> int \<times> bool) \<times> (string \<times> gtime)" where
  "core2 st = ((st_Name st, st_SessionID st, st_Task st, st_Done st, st_DoneAt st),
     (st_LastBusy st, st_NudgedAt st, st_CompactedAt st, st_ReportNudged st),
     (st_Proc st, st_IdleBase st))"

lemma core2_of_core: "core a = core b \<Longrightarrow> core2 a = core2 b"
  by (simp add: core_def core2_def)

definition kinds :: "Action list \<Rightarrow> Kind set" where
  "kinds acts = a_Kind ` set acts"

lemma kinds_simps [simp]:
  "kinds [] = {}" "kinds (a # as) = insert (a_Kind a) (kinds as)" "kinds (as @ bs) = kinds as \<union> kinds bs"
  by (auto simp: kinds_def)

lemma kind_act [simp]: "a_Kind (act k) = k"
  by (simp add: act_def)

section \<open>Before the session: the stages keep the core\<close>

lemma core_trackAway: "core (trackAway st ob) = core st"
  by (simp add: trackAway_def core_def Let_def)

lemma core_observeQuota: "core (observeQuota th st ob) = core st"
  by (simp add: observeQuota_def fold_status_def core_def Let_def split: option.split)

lemma core_startup: "core (fst (startup th ob st)) = core st"
proof -
  have "core (st\<lparr>st_StartTried := a, st_StartFailing := b, st_CodeMissingSince := c\<rparr>) = core st"
    for a b c by (simp add: core_def)
  then have "core (observeQuota th (trackAway (if ob_Unreachable ob = '''' \<and> OutOfReach st (ob_Now ob)
        then st\<lparr>st_StartTried := zero_time, st_StartFailing := zero_time,
                st_CodeMissingSince := zero_time\<rparr> else st) ob) ob) = core st"
    by (simp add: core_observeQuota core_trackAway)
  then show ?thesis by (simp add: startup_def Let_def unalert_def core_def)
qed

lemma kinds_startup: "kinds (snd (startup th ob st)) \<subseteq> {Alert}"
  by (simp add: startup_def Let_def)

lemma core_home_event: "core (fst (home_event t e)) = core (fst t)"
  by (simp add: home_event_def Let_def core_def)

lemma core_code_event: "core (fst (code_event ob t e)) = core (fst t)"
  by (simp add: code_event_def Let_def core_def)

lemma core_code_alert: "core (fst (code_alert ob t)) = core (fst t)"
  by (simp add: code_alert_def Let_def core_def)

lemma foldl_keeps: "(\<And>t e. P (f t e) = P t) \<Longrightarrow> P (foldl f t es) = P t"
  by (induction es arbitrary: t) auto

lemma core_agent_run_events: "core (fst (agent_run_events ob t)) = core (fst t)"
proof -
  have "core (fst (foldl home_event t es)) = core (fst t)" for es
    by (rule foldl_keeps [where P = "\<lambda>t. core (fst t)"]) (rule core_home_event)
  moreover have "core (fst (foldl (code_event ob) t' es)) = core (fst t')" for t' es
    by (rule foldl_keeps [where P = "\<lambda>t. core (fst t)"]) (rule core_code_event)
  ultimately show ?thesis by (simp add: agent_run_events_def core_code_alert)
qed

lemma kinds_home_event: "kinds (snd (home_event t e)) \<subseteq> kinds (snd t) \<union> {Push, Alert}"
  and kinds_code_event: "snd (code_event ob t e) = snd t"
  and kinds_code_alert: "kinds (snd (code_alert ob t)) \<subseteq> kinds (snd t) \<union> {Push, Alert}"
  by (auto simp: home_event_def code_event_def code_alert_def Let_def)

lemma foldl_kinds:
  "(\<And>t e. kinds (snd (f t e)) \<subseteq> kinds (snd t) \<union> K) \<Longrightarrow>
   kinds (snd (foldl f t es)) \<subseteq> kinds (snd t) \<union> K"
proof (induction es arbitrary: t)
  case (Cons e es)
  then have "kinds (snd (foldl f (f t e) es)) \<subseteq> kinds (snd (f t e)) \<union> K" by blast
  with Cons.prems [of t e] show ?case by auto
qed simp

lemma kinds_agent_run_events:
  "kinds (snd (agent_run_events ob t)) \<subseteq> kinds (snd t) \<union> {Push, Alert}"
proof -
  have "kinds (snd (foldl home_event t (ob_Events ob))) \<subseteq> kinds (snd t) \<union> {Push, Alert}"
    by (rule foldl_kinds) (rule kinds_home_event)
  moreover have "snd (foldl (code_event ob) t' es) = snd t'" for t' es
    by (rule foldl_keeps [where P = snd]) (rule kinds_code_event)
  ultimately show ?thesis
    unfolding agent_run_events_def
    using kinds_code_alert [of ob "foldl (code_event ob) (foldl home_event t (ob_Events ob)) (ob_Events ob)"]
    by auto
qed

text \<open>The stages that may return: what they return, and what they pass on.\<close>

lemma refused_simps:
  "core2 (fst (refused k t)) = core2 (fst t)" "st_Phase (fst (refused k t)) = Disabled"
  "st_DisabledReason (fst (refused k t)) = k"
  "kinds (snd (refused k t)) \<subseteq> kinds (snd t) \<union> {Push, Alert}"
  by (auto simp: refused_def Let_def core2_def)

lemma rate_limited_simps:
  "core (fst (rate_limited th ob t)) = core (fst t)" "st_Phase (fst (rate_limited th ob t)) = Cooling"
  "kinds (snd (rate_limited th ob t)) \<subseteq> kinds (snd t) \<union> {Push, Alert}"
  by (auto simp: rate_limited_def Let_def core_def)

lemma stop_failures_Cons:
  obtains "stop_failures th ob (e # es) t = stop_failures th ob es t"
  | "stop_failures th ob (e # es) t = stop_failures th ob es (rate_limited th ob t)"
  | "stop_failures th ob (e # es) t = Return (refused (ErrorType e) t)" "ErrorType e \<in> set refusals"
  unfolding stop_failures.simps by metis

lemma stop_failures_Next:
  "stop_failures th ob es t = Next t' \<Longrightarrow>
   core (fst t') = core (fst t) \<and> kinds (snd t') \<subseteq> kinds (snd t) \<union> {Push, Alert}"
proof (induction es arbitrary: t)
  case (Cons e es t)
  show ?case
  proof (cases rule: stop_failures_Cons [of th ob e es t])
    case 1
    with Cons show ?thesis by metis
  next
    case 2
    with Cons.prems have "stop_failures th ob es (rate_limited th ob t) = Next t'" by simp
    from Cons.IH [OF this] rate_limited_simps(1,3) [of th ob t] show ?thesis by auto
  next
    case 3
    with Cons.prems show ?thesis by simp
  qed
qed auto

lemma stop_failures_Return:
  "stop_failures th ob es t = Return t' \<Longrightarrow>
   core2 (fst t') = core2 (fst t) \<and> st_Phase (fst t') = Disabled
     \<and> st_DisabledReason (fst t') \<in> set refusals
     \<and> kinds (snd t') \<subseteq> kinds (snd t) \<union> {Push, Alert}"
proof (induction es arbitrary: t)
  case (Cons e es t)
  show ?case
  proof (cases rule: stop_failures_Cons [of th ob e es t])
    case 1
    with Cons show ?thesis by metis
  next
    case 2
    with Cons.prems have "stop_failures th ob es (rate_limited th ob t) = Return t'" by simp
    from Cons.IH [OF this] rate_limited_simps(3) [of th ob t]
      core2_of_core [OF rate_limited_simps(1), of th ob t]
    show ?thesis by auto
  next
    case 3
    with Cons.prems have "t' = refused (ErrorType e) t" by simp
    with 3(2) refused_simps(4) [of "ErrorType e" t] show ?thesis by (simp add: refused_simps(1-3))
  qed
qed auto

lemma stop_failures_quiet:
  "\<forall>e\<in>set es. ev_Event e \<noteq> ''StopFailure'' \<Longrightarrow> stop_failures th ob es t = Next t"
  by (induction es arbitrary: t) auto

lemma unreachable_stage_Return:
  "unreachable_stage ob t = Return t' \<Longrightarrow> ob_Unreachable ob \<noteq> '''' \<and> core (fst t') = core (fst t)
     \<and> kinds (snd t') \<subseteq> kinds (snd t) \<union> {Push, Alert}"
  by (auto simp: unreachable_stage_def Let_def core_def split: if_splits)

lemma unreachable_stage_Next:
  "unreachable_stage ob t = Next t' \<Longrightarrow> ob_Unreachable ob = '''' \<and> core (fst t') = core (fst t)
     \<and> snd t' = snd t"
  by (auto simp: unreachable_stage_def Let_def core_def unalert_def split: if_splits)

lemma start_failing_simps:
  "core (fst (start_failing ob t)) = core (fst t)"
  "kinds (snd (start_failing ob t)) \<subseteq> kinds (snd t) \<union> {Start, Alert}"
  by (auto simp: start_failing_def Let_def core_def)

lemma core_phase [simp]: "core (s\<lparr>st_Phase := p\<rparr>) = core s"
  by (simp add: core_def)

lemma container_stage_Return:
  "container_stage ob t = Return t' \<Longrightarrow> \<not> ob_ContainerUp ob \<and> core (fst t') = core (fst t)
     \<and> kinds (snd t') \<subseteq> kinds (snd t) \<union> {Push, Alert, Start}"
  using start_failing_simps [of ob t]
  by (auto simp: container_stage_def Let_def split: if_splits)

lemma container_stage_Next:
  "container_stage ob t = Next t' \<Longrightarrow> ob_ContainerUp ob \<and> core (fst t') = core (fst t) \<and> snd t' = snd t"
  by (auto simp: container_stage_def Let_def core_def unalert_def split: if_splits)

lemma core_turn_event: "core (turn_event ob mine st e) = core st"
  by (simp add: turn_event_def core_def)

lemma sessions_stage_simps:
  "core (fst (snd (sessions_stage ob t))) = core (fst t)"
  "kinds (snd (snd (sessions_stage ob t))) \<subseteq> kinds (snd t) \<union> {ArchiveStray}"
  "fst (sessions_stage ob t) = mine_of ob (fst t)"
proof -
  have "core (foldl (turn_event ob m) st es) = core st" for m st es
    by (rule foldl_keeps [where P = core]) (rule core_turn_event)
  then show "core (fst (snd (sessions_stage ob t))) = core (fst t)"
    by (simp add: sessions_stage_def Let_def archive_strays_def)
  show "kinds (snd (snd (sessions_stage ob t))) \<subseteq> kinds (snd t) \<union> {ArchiveStray}"
    by (auto simp: sessions_stage_def Let_def archive_strays_def kinds_def)
  show "fst (sessions_stage ob t) = mine_of ob (fst t)"
    by (simp add: sessions_stage_def Let_def)
qed

section \<open>Ending a session\<close>

definition rotations :: "Action list \<Rightarrow> Action list" where
  "rotations acts = filter (\<lambda>a. a_Kind a = Rotate) acts"

lemma rotations_simps [simp]:
  "rotations [] = []" "rotations (as @ bs) = rotations as @ rotations bs"
  "rotations (a # as) = (if a_Kind a = Rotate then a # rotations as else rotations as)"
  by (simp_all add: rotations_def)

lemma rotations_Nil: "rotations acts = [] \<longleftrightarrow> Rotate \<notin> kinds acts"
  unfolding rotations_def kinds_def filter_empty_conv by (metis image_iff)

text \<open>The task is still the agent's and nothing was rotated; or exactly one rotation was asked for, of
  that task, and the agent is back on standby without it.\<close>

definition kept :: "string \<Rightarrow> tick \<Rightarrow> bool" where
  "kept task t \<longleftrightarrow> st_Task (fst t) = task \<and> rotations (snd t) = []"

definition ended :: "string \<Rightarrow> tick \<Rightarrow> bool" where
  "ended task t \<longleftrightarrow> (\<exists>a. rotations (snd t) = [a] \<and> a_Task a = task
     \<and> a_Reason a \<in> {ReasonTaskDone, ReasonStale, ReasonCrashed})
     \<and> st_Task (fst t) = '''' \<and> \<not> st_Done (fst t) \<and> st_SessionID (fst t) = ''''
     \<and> st_Phase (fst t) = Standby"

lemma core_task: "core a = core b \<Longrightarrow> st_Task a = st_Task b"
  and core2_task: "core2 a = core2 b \<Longrightarrow> st_Task a = st_Task b"
  by (auto simp: core_def core2_def)

lemma kept_core:
  "kept task t \<Longrightarrow> core (fst t') = core (fst t) \<Longrightarrow> kinds (snd t') \<subseteq> kinds (snd t) \<union> K \<Longrightarrow>
   Rotate \<notin> K \<Longrightarrow> kept task t'"
  unfolding kept_def rotations_Nil using core_task by blast

lemma restart_ends: "kept task t \<Longrightarrow> kept task (restart th ob t) \<or> ended task (restart th ob t)"
  by (auto simp: kept_def ended_def restart_def Let_def)

lemma wait_stuck_simps:
  "core (fst (wait_stuck ob d t)) = core (fst t)"
  "kinds (snd (wait_stuck ob d t)) \<subseteq> kinds (snd t) \<union> {Push, Alert}"
  by (auto simp: wait_stuck_def stuck_alert_def Let_def core_def)

lemma core_orphan [simp]: "core (s\<lparr>st_PaneOrphanSince := x\<rparr>) = core s"
  by (simp add: core_def)

lemma orphan_seen_eq:
  obtains x where "orphan_seen ob orphan st = st\<lparr>st_PaneOrphanSince := x\<rparr>"
proof (cases "orphan \<and> st_PaneOrphanSince st = zero_time")
  case True
  then show thesis by (intro that [of "ob_Now ob"]) (simp add: orphan_seen_def)
next
  case False
  then show thesis by (intro that [of "st_PaneOrphanSince st"]) (auto simp: orphan_seen_def)
qed

text \<open>How the stage that looks for the session can end.\<close>

lemma pane_stage_cases:
  assumes "pane_stage th ob mt = fl"
  obtains (dialog) d where "mt = (None, snd mt)" "ob_PaneAlive ob"
      "fl = Return (wait_stuck ob d ((fst (snd mt))\<lparr>st_PaneOrphanSince := zero_time\<rparr>, snd (snd mt)))"
  | (grace) x where "fl = Return ((fst (snd mt))\<lparr>st_PaneOrphanSince := x\<rparr>, snd (snd mt))"
  | (restarts) x where "fst mt = None \<or> \<not> ob_PaneAlive ob"
      "fl = Return (restart th ob ((fst (snd mt))\<lparr>st_PaneOrphanSince := x\<rparr>, snd (snd mt)))"
  | (live) m where "fst mt = Some m" "ob_PaneAlive ob"
      "fl = Next (m, (fst (snd mt))\<lparr>st_PaneOrphanSince := zero_time\<rparr>, snd (snd mt))"
proof -
  obtain mine st acts where mt: "mt = (mine, st, acts)" by (cases mt) auto
  obtain x where x: "orphan_seen ob (mine = None \<and> ob_PaneAlive ob) st = st\<lparr>st_PaneOrphanSince := x\<rparr>"
    by (rule orphan_seen_eq)
  have fl: "fl = pane_stage th ob (mine, st, acts)" using assms mt by simp
  show thesis
  proof (cases mine)
    case (Some m)
    then show thesis
      using x fl live restarts by (cases "ob_PaneAlive ob") (auto simp: pane_stage_def Let_def mt)
  next
    case None
    show thesis
    proof (cases "ob_PaneAlive ob")
      case False
      then show thesis using x fl None restarts by (auto simp: pane_stage_def Let_def mt)
    next
      case True
      consider "Dialog (ob_Screen ob) \<noteq> ''''"
        | "Dialog (ob_Screen ob) = ''''" "time_sub (ob_Now ob) x < paneGrace"
        | "Dialog (ob_Screen ob) = ''''" "\<not> time_sub (ob_Now ob) x < paneGrace"
        by blast
      then show thesis
      proof cases
        case 1
        with x fl None True dialog show thesis by (simp add: pane_stage_def Let_def mt)
      next
        case 2
        with x fl None True grace show thesis by (simp add: pane_stage_def Let_def mt)
      next
        case 3
        with x fl None True restarts show thesis by (simp add: pane_stage_def Let_def mt)
      qed
    qed
  qed
qed

lemma pane_stage_keeps:
  assumes "pane_stage th ob mt = fl" and "kept task (snd mt)"
  shows "case fl of Return t \<Rightarrow> kept task t \<or> ended task t | Next (m, t) \<Rightarrow> kept task t"
  using assms(1)
proof (cases rule: pane_stage_cases)
  case (dialog d)
  have "kept task (wait_stuck ob d ((fst (snd mt))\<lparr>st_PaneOrphanSince := zero_time\<rparr>, snd (snd mt)))"
    by (rule kept_core [OF assms(2), where K = "{Push, Alert}"])
      (use wait_stuck_simps(2) in \<open>force simp: wait_stuck_simps(1)\<close>)+
  with dialog show ?thesis by simp
next
  case (grace x)
  with assms(2) show ?thesis by (simp add: kept_def)
next
  case (restarts x)
  have "kept task ((fst (snd mt))\<lparr>st_PaneOrphanSince := x\<rparr>, snd (snd mt))"
    using assms(2) by (simp add: kept_def)
  from restart_ends [OF this] restarts show ?thesis by auto
next
  case (live m)
  with assms(2) show ?thesis by (simp add: kept_def)
qed

section \<open>With a session\<close>

text \<open>The identity of the agent and its task: what every stage of a live session keeps, but for a
  rotation.\<close>

definition ident :: "State \<Rightarrow> string \<times> string \<times> bool \<times> gtime" where
  "ident st = (st_Name st, st_Task st, st_Done st, st_DoneAt st)"

lemma ident_of_core: "core a = core b \<Longrightarrow> ident a = ident b"
  and ident_task: "ident a = ident b \<Longrightarrow> st_Task a = st_Task b \<and> st_Done a = st_Done b"
  by (auto simp: core_def ident_def)

lemma kept_ident:
  "kept task t \<Longrightarrow> ident (fst t') = ident (fst t) \<Longrightarrow> kinds (snd t') \<subseteq> kinds (snd t) \<union> K \<Longrightarrow>
   Rotate \<notin> K \<Longrightarrow> kept task t'"
  unfolding kept_def rotations_Nil using ident_task by blast

lemma waiting_stage_simps:
  "ident (fst (waiting_stage ob m t)) = ident (fst t)"
  "st_Phase (fst (waiting_stage ob m t)) = st_Phase (fst t)"
  "st_SessionID (fst (waiting_stage ob m t)) = st_SessionID (fst t)"
  "st_HookIdle (fst (waiting_stage ob m t)) = st_HookIdle (fst t)"
  "kinds (snd (waiting_stage ob m t)) \<subseteq> kinds (snd t) \<union> {Push, Alert}"
  by (auto simp: waiting_stage_def wait_stuck_def stuck_alert_def Let_def ident_def unalert_def)

lemma session_up_simps:
  "ident (session_up ob m st) = ident st"
  "st_SessionID (session_up ob m st) = ag_SessionID m"
  "st_HookIdle (session_up ob m st) = st_HookIdle st"
  "st_Phase (session_up ob m st) =
     (if st_Phase st = Down \<or> st_Phase st = CodeMissing then Standby else st_Phase st)"
  by (auto simp: session_up_def Let_def ident_def unalert_def)

lemma idle_clock_simps:
  "ident (snd (idle_clock ob busy st)) = ident st"
  "st_Phase (snd (idle_clock ob busy st)) = st_Phase st"
  "st_SessionID (snd (idle_clock ob busy st)) = st_SessionID st"
  "st_HookIdle (snd (idle_clock ob busy st)) = st_HookIdle st"
  "0 \<le> fst (idle_clock ob busy st)"
proof -
  have s: "ident (seen_busy ob busy st) = ident st" "st_Phase (seen_busy ob busy st) = st_Phase st"
    "st_SessionID (seen_busy ob busy st) = st_SessionID st"
    "st_HookIdle (seen_busy ob busy st) = st_HookIdle st"
    by (simp_all add: seen_busy_def Let_def ident_def)
  have r: "ident (idle_rebase i u) = ident u" "st_Phase (idle_rebase i u) = st_Phase u"
    "st_SessionID (idle_rebase i u) = st_SessionID u" "st_HookIdle (idle_rebase i u) = st_HookIdle u"
    for i u by (simp_all add: idle_rebase_def ident_def)
  show "ident (snd (idle_clock ob busy st)) = ident st"
    "st_Phase (snd (idle_clock ob busy st)) = st_Phase st"
    "st_SessionID (snd (idle_clock ob busy st)) = st_SessionID st"
    "st_HookIdle (snd (idle_clock ob busy st)) = st_HookIdle st"
    "0 \<le> fst (idle_clock ob busy st)"
    by (simp_all add: idle_clock_def Let_def s r)
qed

lemma session_stage_simps:
  assumes "lv = session_stage ob (m, t)"
  shows "ident (fst (l_tick lv)) = ident (fst t)"
    and "st_Phase (fst (l_tick lv)) =
      (if st_Phase (fst t) = Down \<or> st_Phase (fst t) = CodeMissing then Standby else st_Phase (fst t))"
    and "st_SessionID (fst (l_tick lv)) = ag_SessionID m"
    and "st_HookIdle (fst (l_tick lv)) = st_HookIdle (fst t)"
    and "l_busy lv \<longleftrightarrow> Activity m = ''busy''"
    and "0 \<le> l_idle lv"
    and "kinds (snd (l_tick lv)) \<subseteq> kinds (snd t) \<union> {Push, Alert}"
  using assms waiting_stage_simps(5) [of ob m "(session_up ob m (fst t), snd t)"]
  by (simp_all add: session_stage_def Let_def split_beta waiting_stage_simps(1-4) session_up_simps
      idle_clock_simps)

lemma cooling_stage_Return:
  "cooling_stage ob lv = Return t \<Longrightarrow>
     t = l_tick lv \<and> st_Phase (fst t) = Cooling \<and> ob_Now ob < st_CoolingUntil (fst t)"
  by (auto simp: cooling_stage_def Let_def split: if_splits)

lemma window_reset_simps:
  "ident (fst (l_tick (window_reset lv))) = ident (fst (l_tick lv))"
  "l_busy (window_reset lv) = l_busy lv" "l_idle (window_reset lv) = l_idle lv"
  "st_SessionID (fst (l_tick (window_reset lv))) = st_SessionID (fst (l_tick lv))"
  "st_HookIdle (fst (l_tick (window_reset lv))) = st_HookIdle (fst (l_tick lv))"
  "kinds (snd (l_tick (window_reset lv))) \<subseteq> kinds (snd (l_tick lv)) \<union> (if l_busy lv then {} else {Prompt})"
  by (auto simp: window_reset_def Let_def ident_def)

lemma cooling_stage_Next:
  assumes "cooling_stage ob lv = Next lv'"
  shows "ident (fst (l_tick lv')) = ident (fst (l_tick lv))" "l_busy lv' = l_busy lv" "l_idle lv' = l_idle lv"
    "st_SessionID (fst (l_tick lv')) = st_SessionID (fst (l_tick lv))"
    "st_HookIdle (fst (l_tick lv')) = st_HookIdle (fst (l_tick lv))"
    "kinds (snd (l_tick lv')) \<subseteq> kinds (snd (l_tick lv)) \<union> (if l_busy lv then {} else {Prompt})"
proof -
  have "lv' = lv \<or> lv' = window_reset lv"
    using assms by (auto simp: cooling_stage_def Let_def split: if_splits)
  then show "ident (fst (l_tick lv')) = ident (fst (l_tick lv))" "l_busy lv' = l_busy lv"
    "l_idle lv' = l_idle lv"
    "st_SessionID (fst (l_tick lv')) = st_SessionID (fst (l_tick lv))"
    "st_HookIdle (fst (l_tick lv')) = st_HookIdle (fst (l_tick lv))"
    "kinds (snd (l_tick lv')) \<subseteq> kinds (snd (l_tick lv)) \<union> (if l_busy lv then {} else {Prompt})"
    using window_reset_simps [of lv] by auto
qed

lemma carry_on_simps:
  "ident (fst (l_tick (carry_on ob lv))) = ident (fst (l_tick lv))"
  "l_busy (carry_on ob lv) = l_busy lv"
  "st_SessionID (fst (l_tick (carry_on ob lv))) = st_SessionID (fst (l_tick lv))"
  "st_HookIdle (fst (l_tick (carry_on ob lv))) = st_HookIdle (fst (l_tick lv))"
  "kinds (snd (l_tick (carry_on ob lv))) = kinds (snd (l_tick lv)) \<union> {Push, Prompt}"
  "l_idle (carry_on ob lv) = 0"
  by (simp_all add: carry_on_def Let_def ident_def insert_commute)

lemma close_turn_simps:
  "ident (fst (l_tick (close_turn lv))) = ident (fst (l_tick lv))"
  "l_busy (close_turn lv) = l_busy lv" "l_idle (close_turn lv) = l_idle lv"
  "st_SessionID (fst (l_tick (close_turn lv))) = st_SessionID (fst (l_tick lv))"
  "st_HookIdle (fst (l_tick (close_turn lv))) = st_HookIdle (fst (l_tick lv))"
  "snd (l_tick (close_turn lv)) = snd (l_tick lv)"
  by (simp_all add: close_turn_def ident_def)

lemma open_turn_simps:
  "ident (fst (l_tick (open_turn ob lv))) = ident (fst (l_tick lv))"
  "l_busy (open_turn ob lv) = l_busy lv" "l_idle (open_turn ob lv) = l_idle lv"
  "st_SessionID (fst (l_tick (open_turn ob lv))) = st_SessionID (fst (l_tick lv))"
  "st_HookIdle (fst (l_tick (open_turn ob lv))) = st_HookIdle (fst (l_tick lv))"
  "snd (l_tick (open_turn ob lv)) = snd (l_tick lv)"
  by (simp_all add: open_turn_def ident_def)

lemma turn_stage_cases:
  obtains (busy) "l_busy lv" "turn_stage ob lv = open_turn ob lv"
  | (idle) lv1 where "\<not> l_busy lv" "lv1 = lv \<or> lv1 = carry_on ob lv"
      "turn_stage ob lv = lv1 \<or> turn_stage ob lv = close_turn lv1"
proof (cases "l_busy lv")
  case True
  then show thesis by (intro busy) (simp_all add: turn_stage_def)
next
  case False
  have "carried ob lv = lv \<or> carried ob lv = carry_on ob lv"
    by (simp add: carried_def Let_def)
  moreover have "turn_stage ob lv = carried ob lv \<or> turn_stage ob lv = close_turn (carried ob lv)"
    using False by (simp add: turn_stage_def Let_def)
  ultimately show thesis using False by (intro idle [of "carried ob lv"]) auto
qed

lemma turn_stage_simps:
  "ident (fst (l_tick (turn_stage ob lv))) = ident (fst (l_tick lv))"
  "l_busy (turn_stage ob lv) = l_busy lv"
  "st_SessionID (fst (l_tick (turn_stage ob lv))) = st_SessionID (fst (l_tick lv))"
  "st_HookIdle (fst (l_tick (turn_stage ob lv))) = st_HookIdle (fst (l_tick lv))"
  "kinds (snd (l_tick (turn_stage ob lv))) \<subseteq> kinds (snd (l_tick lv)) \<union> (if l_busy lv then {} else {Push, Prompt})"
  "l_idle (turn_stage ob lv) = l_idle lv \<or> l_idle (turn_stage ob lv) = 0"
  by (cases rule: turn_stage_cases [of lv ob];
      auto simp: carry_on_simps close_turn_simps open_turn_simps)+

lemma phase_stage_Return:
  assumes "phase_stage ob lv = Return t"
  shows "ident (fst t) = ident (fst (l_tick lv)) \<and> snd t = snd (l_tick lv) \<and> l_busy lv
    \<and> st_Phase (fst t) = Working"
  using assms by (auto simp: phase_stage_def phase_of_def Let_def ident_def split: if_splits)

lemma phase_stage_Next:
  assumes "phase_stage ob lv = Next lv'"
  shows "ident (fst (l_tick lv')) = ident (fst (l_tick lv))" "snd (l_tick lv') = snd (l_tick lv)"
    "l_idle lv' = l_idle lv" "l_busy lv' = l_busy lv"
    "l_busy lv \<Longrightarrow> st_Done (fst (l_tick lv))"
    "st_SessionID (fst (l_tick lv')) = st_SessionID (fst (l_tick lv))"
  using assms by (auto simp: phase_stage_def Let_def ident_def done_now_def split: if_splits)

lemma rotate_session_ends:
  "rotations (snd t) = [] \<Longrightarrow> reason \<in> {ReasonTaskDone, ReasonStale, ReasonCrashed} \<Longrightarrow>
   st_Task (fst t) = task \<Longrightarrow> ended task (rotate_session ob reason t)"
  by (auto simp: rotate_session_def Let_def ended_def)

lemma rotation_stage_Return:
  "rotation_stage th ob lv = Return t \<Longrightarrow> kept task (l_tick lv) \<Longrightarrow> ended task t"
  by (auto simp: rotation_stage_def Let_def kept_def split: if_splits intro!: rotate_session_ends)

lemma rotation_stage_Next:
  assumes "rotation_stage th ob lv = Next lv'"
  shows "ident (fst (l_tick lv')) = ident (fst (l_tick lv))" "l_idle lv' = l_idle lv"
    "kinds (snd (l_tick lv')) \<subseteq> kinds (snd (l_tick lv)) \<union> {Push}"
    "\<not> st_Done (fst (l_tick lv))"
    "st_Phase (fst (l_tick lv')) = st_Phase (fst (l_tick lv))"
  using assms by (auto simp: rotation_stage_def Let_def ident_def split: if_splits)

lemma report_stage_simps:
  "ident (fst (report_stage ob idle t)) = ident (fst t)"
  "st_Phase (fst (report_stage ob idle t)) = st_Phase (fst t)"
  "kinds (snd (report_stage ob idle t)) \<subseteq> kinds (snd t) \<union> {Push, Prompt}"
  by (auto simp: report_stage_def Let_def ident_def)

lemma compact_stage_simps:
  "ident (fst (compact_stage th ob t)) = ident (fst t)"
  "st_Phase (fst (compact_stage th ob t)) = st_Phase (fst t)"
  "kinds (snd (compact_stage th ob t)) \<subseteq> kinds (snd t) \<union> {Compact}"
  by (auto simp: compact_stage_def Let_def ident_def)

lemma with_session_keeps:
  assumes "kept task (snd mt)"
  shows "kept task (outcome (with_session th ob mt)) \<or> ended task (outcome (with_session th ob mt))"
proof -
  obtain m t where mt: "mt = (m, t)" by (cases mt)
  let ?lv = "session_stage ob mt"
  have k0: "kept task (l_tick ?lv)"
    unfolding mt
    by (rule kept_ident [where K = "{Push, Alert}", OF _ session_stage_simps(1) [OF refl]
          session_stage_simps(7) [OF refl]]) (use assms mt in simp_all)
  show ?thesis
  proof (cases "cooling_stage ob ?lv")
    case (Return t')
    with k0 cooling_stage_Return [OF Return] show ?thesis
      by (simp add: with_session_def outcome_def)
  next
    case (Next lv1)
    have k1: "kept task (l_tick (turn_stage ob lv1))"
      by (rule kept_ident [of task "l_tick lv1" _ "{Push, Prompt}"],
          rule kept_ident [OF k0 cooling_stage_Next(1) [OF Next], of "{Prompt}"])
        (use cooling_stage_Next(6) [OF Next] turn_stage_simps(5) [of ob lv1] in
          \<open>auto simp: turn_stage_simps(1) split: if_splits\<close>)
    show ?thesis
    proof (cases "phase_stage ob (turn_stage ob lv1)")
      case (Return t')
      with k1 phase_stage_Return [OF Return] have "kept task t'"
        by (intro kept_ident [OF k1, of t' "{}"]) auto
      then show ?thesis by (simp add: with_session_def Next Return outcome_def)
    next
      case N2: (Next lv2)
      have k2: "kept task (l_tick lv2)"
        by (rule kept_ident [OF k1 phase_stage_Next(1) [OF N2], of "{}"])
          (simp_all add: phase_stage_Next(2) [OF N2])
      show ?thesis
      proof (cases "rotation_stage th ob lv2")
        case (Return t')
        from rotation_stage_Return [OF Return k2] show ?thesis
          by (simp add: with_session_def Next N2 Return outcome_def)
      next
        case N3: (Next lv3)
        have k3: "kept task (l_tick lv3)"
          by (rule kept_ident [OF k2 rotation_stage_Next(1,3) [OF N3]]) simp
        have "kept task (report_stage ob (l_idle lv3) (l_tick lv3))"
          by (rule kept_ident [OF k3 report_stage_simps(1,3)]) simp
        then have "kept task (compact_stage th ob (report_stage ob (l_idle lv3) (l_tick lv3)))"
          by (rule kept_ident [OF _ compact_stage_simps(1,3)]) simp
        then show ?thesis by (simp add: with_session_def Next N2 N3 outcome_def)
      qed
    qed
  qed
qed

section \<open>How a tick can go\<close>

abbreviation (input) entry :: "Thresholds \<Rightarrow> State \<Rightarrow> Obs \<Rightarrow> tick" where
  "entry th st ob \<equiv> agent_run_events ob (startup th ob st)"

lemma entry_core: "core (fst (entry th st ob)) = core st"
  by (simp add: core_agent_run_events core_startup)

lemma entry_kinds: "kinds (snd (entry th st ob)) \<subseteq> {Push, Alert}"
  using kinds_agent_run_events [of ob "startup th ob st"] kinds_startup [of th ob st] by auto

lemma Decide_cases:
  obtains (disabled) "st_Phase (fst (entry th st ob)) = Disabled" "Decide th st ob = (fst (entry th st ob), [])"
  | (refused) t1 where "st_Phase (fst (entry th st ob)) \<noteq> Disabled"
      "stop_failures th ob (ob_Events ob) (entry th st ob) = Return t1" "Decide th st ob = t1"
  | (unreachable) t1 t2 where "st_Phase (fst (entry th st ob)) \<noteq> Disabled"
      "stop_failures th ob (ob_Events ob) (entry th st ob) = Next t1"
      "unreachable_stage ob t1 = Return t2" "Decide th st ob = t2"
  | (down) t1 t2 t3 where "st_Phase (fst (entry th st ob)) \<noteq> Disabled"
      "stop_failures th ob (ob_Events ob) (entry th st ob) = Next t1"
      "unreachable_stage ob t1 = Next t2" "container_stage ob t2 = Return t3" "Decide th st ob = t3"
  | (no_session) t1 t2 t3 t4 where "st_Phase (fst (entry th st ob)) \<noteq> Disabled"
      "stop_failures th ob (ob_Events ob) (entry th st ob) = Next t1"
      "unreachable_stage ob t1 = Next t2" "container_stage ob t2 = Next t3"
      "pane_stage th ob (sessions_stage ob t3) = Return t4" "Decide th st ob = t4"
  | (session) t1 t2 t3 m t4 where "st_Phase (fst (entry th st ob)) \<noteq> Disabled"
      "stop_failures th ob (ob_Events ob) (entry th st ob) = Next t1"
      "unreachable_stage ob t1 = Next t2" "container_stage ob t2 = Next t3"
      "pane_stage th ob (sessions_stage ob t3) = Next (m, t4)"
      "Decide th st ob = outcome (with_session th ob (m, t4))"
proof (cases "st_Phase (fst (entry th st ob)) = Disabled")
  case True
  then show thesis
    by (intro disabled) (simp_all add: Decide_def before_session_def disabled_return_def outcome_def)
next
  case False
  note start = False
  have dec: "Decide th st ob = outcome (andThen (andThen (stop_failures th ob (ob_Events ob) (entry th st ob))
       (\<lambda>t. andThen (unreachable_stage ob t)
       (\<lambda>t. andThen (container_stage ob t)
       (\<lambda>t. pane_stage th ob (sessions_stage ob t))))) (with_session th ob))"
    using False by (simp add: Decide_def before_session_def disabled_return_def)
  show thesis
  proof (cases "stop_failures th ob (ob_Events ob) (entry th st ob)")
    case (Return t1)
    with dec start show thesis by (intro refused) (simp_all add: outcome_def)
  next
    case sf: (Next t1)
    show thesis
    proof (cases "unreachable_stage ob t1")
      case (Return t2)
      with dec start sf show thesis by (intro unreachable) (simp_all add: outcome_def)
    next
      case un: (Next t2)
      show thesis
      proof (cases "container_stage ob t2")
        case (Return t3)
        with dec start sf un show thesis by (intro down) (simp_all add: outcome_def)
      next
        case co: (Next t3)
        show thesis
        proof (cases "pane_stage th ob (sessions_stage ob t3)")
          case (Return t4)
          with dec start sf un co show thesis by (intro no_session) (simp_all add: outcome_def)
        next
          case (Next mt)
          with dec start sf un co show thesis
            by (cases mt) (intro session; simp add: outcome_def)
        qed
      qed
    qed
  qed
qed

text \<open>What reaches the stage after the container's still has the agent's core and only notes.\<close>

lemma reach_container:
  assumes "stop_failures th ob (ob_Events ob) (entry th st ob) = Next t1"
    and "unreachable_stage ob t1 = Next t2" and "container_stage ob t2 = Next t3"
  shows "core (fst t3) = core st" "kinds (snd t3) \<subseteq> {Push, Alert}" "ob_Unreachable ob = ''''" "ob_ContainerUp ob"
  using stop_failures_Next [OF assms(1)] unreachable_stage_Next [OF assms(2)]
    container_stage_Next [OF assms(3)] entry_core [of ob th st] entry_kinds [of ob th st]
  by auto

lemma entry_kept: "kept (st_Task st) (entry th st ob)"
  using core_task [OF entry_core] entry_kinds [of ob th st] by (auto simp: kept_def rotations_Nil)

lemma Decide_kept_or_ended:
  "kept (st_Task st) (Decide th st ob) \<or> ended (st_Task st) (Decide th st ob)"
proof (cases rule: Decide_cases [of ob th st])
  case disabled
  then show ?thesis using core_task [OF entry_core, of ob th st] by (simp add: kept_def)
next
  case (refused t1)
  with stop_failures_Return [OF refused(2)] entry_kinds [of ob th st] core_task [OF entry_core, of ob th st]
    core2_task [of "fst t1"] show ?thesis by (auto simp: kept_def rotations_Nil)
next
  case (unreachable t1 t2)
  with stop_failures_Next [OF unreachable(2)] unreachable_stage_Return [OF unreachable(3)]
  show ?thesis
    by (auto intro!: disjI1 kept_core [OF entry_kept, where K = "{Push, Alert}"])
next
  case (down t1 t2 t3)
  with stop_failures_Next [OF down(2)] unreachable_stage_Next [OF down(3)]
    container_stage_Return [OF down(4)]
  show ?thesis
    by (auto intro!: disjI1 kept_core [OF entry_kept, where K = "{Push, Alert, Start}"])
next
  case (no_session t1 t2 t3 t4)
  have "kept (st_Task st) (snd (sessions_stage ob t3))"
    using reach_container [OF no_session(2-4)] sessions_stage_simps(1,2) [of ob t3]
    by (intro kept_core [OF entry_kept, where K = "{Push, Alert, ArchiveStray}"])
      (auto simp: entry_core)
  from pane_stage_keeps [OF no_session(5) this] show ?thesis by (simp add: no_session(6))
next
  case (session t1 t2 t3 m t4)
  have "kept (st_Task st) (snd (sessions_stage ob t3))"
    using reach_container [OF session(2-4)] sessions_stage_simps(1,2) [of ob t3]
    by (intro kept_core [OF entry_kept, where K = "{Push, Alert, ArchiveStray}"])
      (auto simp: entry_core)
  from pane_stage_keeps [OF session(5) this] have "kept (st_Task st) t4" by simp
  then show ?thesis using with_session_keeps [of "st_Task st" "(m, t4)" th ob] session(6) by simp
qed

text \<open>
  C1. A task leaves an agent only through a rotation that names it: after one tick either the
  task is the one it was and no rotation is asked for, or exactly one rotation is, of that task, for one
  of the three reasons a session ends, and the agent is on standby with no task and no session.
\<close>

theorem decide_task_conserved:
  "(st_Task (fst (Decide th st ob)) = st_Task st \<and> rotations (snd (Decide th st ob)) = [])
   \<or> (\<exists>a. rotations (snd (Decide th st ob)) = [a] \<and> a_Task a = st_Task st
        \<and> a_Reason a \<in> {ReasonTaskDone, ReasonStale, ReasonCrashed}
        \<and> st_Task (fst (Decide th st ob)) = '''' \<and> \<not> st_Done (fst (Decide th st ob))
        \<and> st_SessionID (fst (Decide th st ob)) = '''' \<and> st_Phase (fst (Decide th st ob)) = Standby)"
  using Decide_kept_or_ended [of st th ob] by (auto simp: kept_def ended_def)

end
