(* ===== verification/Reconcile_Safety.thy ===== *)
theory Reconcile_Safety
  imports Reconcile_Props
begin

text \<open>
  What a tick does not do: disturb a session that works, archive the agent's own session, act on a
  host that cannot be asked, wake an agent whose subscription refused it. And what a run of ticks
  does with a task: it leaves the agent at most once.
\<close>

section \<open>Concrete agents and observations\<close>

definition demo_th :: Thresholds where
  "demo_th = \<lparr>th_RestartFailures = 3, th_RestartWindow = 10 * minute, th_StandbyIdle = 2 * hour,
     th_StandbyMinTranscript = 100, th_WaitingNudge = hour, th_WaitingArchive = 4 * hour,
     th_CompactBytes = 1000, th_Low5h = 80, th_Reserved7d = 90, th_CoolingDefault = hour,
     th_HostSettle = 10 * minute\<rparr>"

definition session_row :: "string \<Rightarrow> string \<Rightarrow> string \<Rightarrow> Agent" where
  "session_row name sid status = \<lparr>ag_ID = '''', ag_PID = 7, ag_Cwd = '''', ag_Kind = ''interactive'',
     ag_SessionID = sid, ag_Name = name, ag_Status = status, ag_WaitingFor = '''', ag_State = ''''\<rparr>"

definition seen :: "gtime \<Rightarrow> Agent list \<Rightarrow> Obs" where
  "seen now ss = \<lparr>ob_Now = now, ob_ContainerUp = True, ob_ContainerFailed = '''', ob_PaneAlive = True,
     ob_PanePID = 7, ob_Proc = ''boot1/7'', ob_Screen = '''', ob_CurrentSession = ''s1'',
     ob_Sessions = ss, ob_Status = None, ob_Events = [], ob_TranscriptSize = 500,
     ob_TranscriptMTime = 1, ob_Owes = False, ob_Asking = False, ob_AnsweredAt = 0,
     ob_Unreachable = '''', ob_Sibling = False\<rparr>"

definition code_missing_event :: Event where
  "code_missing_event = \<lparr>ev_Event = ''agent-run.code_missing'', ev_Session = '''', ev_Raw = None\<rparr>"

section \<open>A live session that works is left alone\<close>

lemma mine_of_core: "core a = core b \<Longrightarrow> mine_of ob a = mine_of ob b"
  unfolding mine_of_def own_def core_def by (simp only: prod.inject)

lemma own_core: "core a = core b \<Longrightarrow> own ob a sid = own ob b sid"
  by (simp add: own_def core_def)

lemma stray_core: "core a = core b \<Longrightarrow> stray ob a mine s = stray ob b mine s"
  unfolding stray_def by (simp only: own_core [of a b])

lemma with_session_busy:
  assumes "Activity m = ''busy''" and "\<not> st_Done (fst t)"
  shows "kinds (snd (outcome (with_session th ob (m, t)))) \<subseteq> kinds (snd t) \<union> {Push, Alert}"
proof -
  let ?lv = "session_stage ob (m, t)"
  note ss = session_stage_simps [OF refl, of ob m t]
  have busy: "l_busy ?lv" using ss(5) assms(1) by simp
  show ?thesis
  proof (cases "cooling_stage ob ?lv")
    case (Return t')
    then show ?thesis using ss(7) cooling_stage_Return [OF Return] by (simp add: with_session_def outcome_def)
  next
    case (Next lv1)
    note cs = cooling_stage_Next [OF Next]
    have b1: "l_busy lv1" and id1: "ident (fst (l_tick lv1)) = ident (fst t)"
      using cs(1,2) busy ss(1) by simp_all
    have k1: "kinds (snd (l_tick (turn_stage ob lv1))) \<subseteq> kinds (snd t) \<union> {Push, Alert}"
      using cs(6) ss(7) busy b1 by (auto simp: turn_stage_def Let_def open_turn_simps)
    have nd: "\<not> st_Done (fst (l_tick (turn_stage ob lv1)))" "l_busy (turn_stage ob lv1)"
      using ident_task [OF id1] assms(2) b1 ident_task [OF turn_stage_simps(1), of ob lv1]
      by (auto simp: turn_stage_def Let_def open_turn_simps)
    show ?thesis
    proof (cases "phase_stage ob (turn_stage ob lv1)")
      case (Return t')
      then show ?thesis using k1 phase_stage_Return [OF Return] by (simp add: with_session_def Next outcome_def)
    next
      case N2: (Next lv2)
      from phase_stage_Next(5) [OF N2 nd(2)] nd(1) show ?thesis by simp
    qed
  qed
qed

lemma pane_stage_Next:
  assumes "pane_stage th ob mt = Next (m, t)"
  shows "fst mt = Some m" "core (fst t) = core (fst (snd mt))" "snd t = snd (snd mt)" "ob_PaneAlive ob"
  by (cases rule: pane_stage_cases [OF assms]; simp; fail)+

lemma pane_stage_live:
  assumes "fst mt = Some m" "ob_PaneAlive ob"
  shows "\<exists>t. pane_stage th ob mt = Next (m, t)"
  using assms by (simp add: pane_stage_def Let_def)

lemma busy_kinds:
  assumes "mine_of ob st = Some m" and "Activity m = ''busy''" and "ob_PaneAlive ob" and "\<not> st_Done st"
  shows "kinds (snd (Decide th st ob)) \<subseteq>
    {Push, Alert} \<union> (if ob_ContainerUp ob then {ArchiveStray} else {Start})"
proof (cases rule: Decide_cases [of ob th st])
  case disabled
  then show ?thesis by simp
next
  case (refused t1)
  with stop_failures_Return [OF refused(2)] entry_kinds [of ob th st] show ?thesis by auto
next
  case (unreachable t1 t2)
  with stop_failures_Next [OF unreachable(2)] unreachable_stage_Return [OF unreachable(3)]
    entry_kinds [of ob th st] show ?thesis by auto
next
  case (down t1 t2 t3)
  with stop_failures_Next [OF down(2)] unreachable_stage_Next [OF down(3)]
    container_stage_Return [OF down(4)] entry_kinds [of ob th st] show ?thesis by auto
next
  case (no_session t1 t2 t3 t4)
  have "fst (sessions_stage ob t3) = Some m"
    using reach_container(1) [OF no_session(2-4)] assms(1) mine_of_core by (metis sessions_stage_simps(3))
  from pane_stage_live [OF this assms(3), of th] no_session(5) show ?thesis by simp
next
  case (session t1 t2 t3 m' t4)
  note rc = reach_container [OF session(2-4)]
  have "fst (sessions_stage ob t3) = Some m"
    using rc(1) assms(1) mine_of_core by (metis sessions_stage_simps(3))
  with pane_stage_Next(1) [OF session(5)] have m: "m' = m" by simp
  have "core (fst t4) = core st"
    using pane_stage_Next(2) [OF session(5)] sessions_stage_simps(1) [of ob t3] rc(1) by simp
  then have "\<not> st_Done (fst t4)" using assms(4) by (simp add: core_def)
  from with_session_busy [OF assms(2) this, of th ob] session(6) m rc(2,4)
    pane_stage_Next(3) [OF session(5)] sessions_stage_simps(2) [of ob t3]
  show ?thesis by auto
qed

section \<open>Strays\<close>

definition strays :: "Action list \<Rightarrow> Action list" where
  "strays acts = filter (\<lambda>a. a_Kind a = ArchiveStray) acts"

lemma strays_simps [simp]:
  "strays [] = []" "strays (as @ bs) = strays as @ strays bs"
  "strays (a # as) = (if a_Kind a = ArchiveStray then a # strays as else strays as)"
  by (simp_all add: strays_def)

lemma strays_Nil: "ArchiveStray \<notin> kinds acts \<Longrightarrow> strays acts = []"
  unfolding strays_def kinds_def filter_empty_conv by (metis image_iff)

lemma strays_push [simp]: "strays (snd (push e x t)) = strays (snd t)"
  by (simp add: push_def add_act_def)

lemma strays_add [simp]:
  "a_Kind a \<noteq> ArchiveStray \<Longrightarrow> strays (snd (add_act a t)) = strays (snd t)"
  by (simp add: add_act_def)

lemma strays_wait [simp]: "strays (snd (wait_stuck ob d t)) = strays (snd t)"
  by (simp add: wait_stuck_def stuck_alert_def Let_def)

lemma strays_restart [simp]: "strays (snd (restart th ob t)) = strays (snd t)"
  by (simp add: restart_def Let_def)

lemma strays_sessions:
  "strays (snd (snd (sessions_stage ob t))) = strays (snd t) @
     map (\<lambda>s. (act ArchiveStray)\<lparr>a_Session := ag_SessionID s, a_PID := ag_PID s, a_Reason := ReasonStray\<rparr>)
       (filter (stray ob (fst t) (mine_of ob (fst t))) (ob_Sessions ob))"
  by (simp add: sessions_stage_def archive_strays_def Let_def strays_def comp_def)

lemma strays_pane_stage:
  assumes "pane_stage th ob mt = fl"
  shows "case fl of Return t \<Rightarrow> strays (snd t) = strays (snd (snd mt))
    | Next (m, t) \<Rightarrow> strays (snd t) = strays (snd (snd mt))"
  by (cases rule: pane_stage_cases [OF assms]) simp_all

lemma strays_session_stage: "strays (snd (l_tick (session_stage ob mt))) = strays (snd (snd mt))"
  by (simp add: session_stage_def waiting_stage_def Let_def split_beta)

lemma strays_turn_stage: "strays (snd (l_tick (turn_stage ob lv))) = strays (snd (l_tick lv))"
  by (cases rule: turn_stage_cases [of lv ob]; auto simp: open_turn_simps close_turn_simps carry_on_def Let_def)

lemma strays_cooling_stage:
  "case cooling_stage ob lv of Return t \<Rightarrow> strays (snd t) = strays (snd (l_tick lv))
    | Next lv' \<Rightarrow> strays (snd (l_tick lv')) = strays (snd (l_tick lv))"
  by (simp add: cooling_stage_def window_reset_def Let_def)

lemma strays_rotate_session: "strays (snd (rotate_session ob r t)) = strays (snd t)"
  by (simp add: rotate_session_def Let_def)

lemma strays_rotation_stage:
  "case rotation_stage th ob lv of Return t \<Rightarrow> strays (snd t) = strays (snd (l_tick lv))
    | Next lv' \<Rightarrow> strays (snd (l_tick lv')) = strays (snd (l_tick lv))"
  by (simp add: rotation_stage_def Let_def strays_rotate_session)

lemma strays_last_stages [simp]:
  "strays (snd (compact_stage th ob t)) = strays (snd t)"
  "strays (snd (report_stage ob idle t)) = strays (snd t)"
  by (simp_all add: compact_stage_def report_stage_def Let_def)

lemma strays_with_session: "strays (snd (outcome (with_session th ob mt))) = strays (snd (snd mt))"
proof (cases "cooling_stage ob (session_stage ob mt)")
  case (Return t)
  with strays_cooling_stage [where ob = ob and lv = "session_stage ob mt"] show ?thesis
    by (simp add: with_session_def outcome_def strays_session_stage)
next
  case (Next lv1)
  have s1: "strays (snd (l_tick (turn_stage ob lv1))) = strays (snd (snd mt))"
    using strays_cooling_stage [where ob = ob and lv = "session_stage ob mt"] Next
    by (simp add: strays_session_stage strays_turn_stage)
  show ?thesis
  proof (cases "phase_stage ob (turn_stage ob lv1)")
    case (Return t)
    with s1 phase_stage_Return [OF Return] show ?thesis by (simp add: with_session_def Next outcome_def)
  next
    case N2: (Next lv2)
    note s2 = phase_stage_Next(2) [OF N2]
    show ?thesis
      using s1 s2 strays_rotation_stage [where th = th and ob = ob and lv = lv2]
      by (cases "rotation_stage th ob lv2") (simp_all add: with_session_def Next N2 outcome_def)
  qed
qed

text \<open>
  A session is archived as a stray only when the host answered, the container runs, the
  session is idle and registered in it, and it is not the agent's: not the session the agent's pane
  runs or is named for, not the one the volume's records name, not the one the state remembers.
\<close>

theorem strays_never_own:
  assumes "a \<in> set (snd (Decide th st ob))" and "a_Kind a = ArchiveStray"
  shows "ob_Unreachable ob = '''' \<and> ob_ContainerUp ob \<and>
    (\<exists>s\<in>set (ob_Sessions ob). a_Session a = ag_SessionID s \<and> a_PID a = ag_PID s
       \<and> Activity s = ''idle'' \<and> \<not> own ob st (ag_SessionID s)
       \<and> (case mine_of ob st of None \<Rightarrow> True | Some m \<Rightarrow> ag_SessionID s \<noteq> ag_SessionID m))"
proof -
  have mem: "a \<in> set (strays (snd (Decide th st ob)))" using assms by (simp add: strays_def)
  have found: ?thesis
    if "strays (snd (Decide th st ob)) = strays (snd (snd (sessions_stage ob t3)))"
      "core (fst t3) = core st" "kinds (snd t3) \<subseteq> {Push, Alert}" "ob_Unreachable ob = ''''" "ob_ContainerUp ob" for t3
  proof -
    have "strays (snd t3) = []" using that(3) by (intro strays_Nil) auto
    with mem that(1) have "a \<in> (\<lambda>s. (act ArchiveStray)\<lparr>a_Session := ag_SessionID s, a_PID := ag_PID s,
        a_Reason := ReasonStray\<rparr>) ` {s \<in> set (ob_Sessions ob). stray ob st (mine_of ob st) s}"
      by (simp add: strays_sessions mine_of_core [OF that(2)] stray_core [OF that(2)])
    with that(4,5) show ?thesis by (auto simp: stray_def is_mine_def act_def split: option.splits)
  qed
  have none: ?thesis if "ArchiveStray \<notin> kinds (snd (Decide th st ob))"
    using strays_Nil [OF that] mem by simp
  show ?thesis
  proof (cases rule: Decide_cases [of ob th st])
    case disabled
    then show ?thesis by (intro none) simp
  next
    case (refused t1)
    with stop_failures_Return [OF refused(2)] entry_kinds [of ob th st] show ?thesis by (intro none) auto
  next
    case (unreachable t1 t2)
    with stop_failures_Next [OF unreachable(2)] unreachable_stage_Return [OF unreachable(3)]
      entry_kinds [of ob th st] show ?thesis by (intro none) auto
  next
    case (down t1 t2 t3)
    with stop_failures_Next [OF down(2)] unreachable_stage_Next [OF down(3)]
      container_stage_Return [OF down(4)] entry_kinds [of ob th st] show ?thesis by (intro none) auto
  next
    case (no_session t1 t2 t3 t4)
    with strays_pane_stage [OF no_session(5)] show ?thesis
      by (intro found [OF _ reach_container [OF no_session(2-4)]]) simp
  next
    case (session t1 t2 t3 m t4)
    with strays_pane_stage [OF session(5)] show ?thesis
      by (intro found [OF _ reach_container [OF session(2-4)]]) (simp add: strays_with_session)
  qed
qed

theorem strays_never_own_witness:
  "let st = fresh_state ''amy'';
       ob = seen (of_unix 1700000000) [session_row ''amy'' ''s1'' ''busy'', session_row ''old'' ''s0'' ''idle''];
       a = (act ArchiveStray)\<lparr>a_Session := ''s0'', a_PID := 7, a_Reason := ReasonStray\<rparr>
   in a \<in> set (snd (Decide demo_th st ob)) \<and> \<not> own ob st ''s0''"
proof -
  let ?st = "fresh_state ''amy''"
  let ?ob = "seen (of_unix 1700000000) [session_row ''amy'' ''s1'' ''busy'', session_row ''old'' ''s0'' ''idle'']"
  let ?a = "(act ArchiveStray)\<lparr>a_Session := ''s0'', a_PID := 7, a_Reason := ReasonStray\<rparr>"
  have m: "?a \<in> set (snd (Decide demo_th ?st ?ob))" by code_simp
  moreover have "a_Kind ?a = ArchiveStray" "a_Session ?a = ''s0''" by code_simp+
  ultimately show ?thesis using strays_never_own [of ?a demo_th ?st ?ob] by (auto simp: Let_def)
qed



section \<open>A host that cannot be asked\<close>

text \<open>
  A tick in which the host could not be asked asks for nothing but messages to the operator, and
  leaves what is known of the agent's session, its task and its idle clock as it was.
\<close>

theorem unreachable_tick_inert:
  assumes "ob_Unreachable ob \<noteq> ''''"
  shows "kinds (snd (Decide th st ob)) \<subseteq> {Push, Alert} \<and> core2 (fst (Decide th st ob)) = core2 st"
proof (cases rule: Decide_cases [of ob th st])
  case disabled
  then show ?thesis using core2_of_core [OF entry_core, of ob th st] by simp
next
  case (refused t1)
  with stop_failures_Return [OF refused(2)] entry_kinds [of ob th st]
    core2_of_core [OF entry_core, of ob th st] show ?thesis by auto
next
  case (unreachable t1 t2)
  with stop_failures_Next [OF unreachable(2)] unreachable_stage_Return [OF unreachable(3)]
    entry_kinds [of ob th st] entry_core [of ob th st] show ?thesis
    by (auto intro!: core2_of_core)
next
  case (down t1 t2 t3)
  with unreachable_stage_Next [OF down(3)] assms show ?thesis by simp
next
  case (no_session t1 t2 t3 t4)
  with unreachable_stage_Next [OF no_session(3)] assms show ?thesis by simp
next
  case (session t1 t2 t3 m t4)
  with unreachable_stage_Next [OF session(3)] assms show ?thesis by simp
qed

theorem unreachable_tick_inert_witness:
  "let st = (fresh_state ''amy'')\<lparr>st_Task := ''T1''\<rparr>;
       ob = (seen (of_unix 1700000000) [])\<lparr>ob_Unreachable := ''host2''\<rparr>
   in kinds (snd (Decide demo_th st ob)) \<subseteq> {Push, Alert} \<and> core2 (fst (Decide demo_th st ob)) = core2 st"
  unfolding Let_def by (rule unreachable_tick_inert) simp

section \<open>A disabled agent\<close>

lemma phase_startup: "st_Phase (fst (startup th ob st)) = st_Phase st"
proof -
  have t: "st_Phase (trackAway s ob) = st_Phase s" for s by (simp add: trackAway_def Let_def)
  have f: "st_Phase (fold_status s n x) = st_Phase s" for s n x
    by (simp add: fold_status_def Let_def split: option.splits)
  have q: "st_Phase (observeQuota th s ob) = st_Phase s" for s
    by (simp add: observeQuota_def Let_def f split: option.splits)
  show ?thesis by (simp add: startup_def Let_def t q unalert_def)
qed

lemma phase_home: "st_Phase (fst (foldl home_event t es)) = st_Phase (fst t)"
  by (rule foldl_keeps [where P = "\<lambda>t. st_Phase (fst t)"]) (simp add: home_event_def Let_def)

lemma code_events_none:
  "\<forall>e\<in>set es. ev_Event e \<noteq> ''agent-run.code_missing'' \<Longrightarrow> foldl (code_event ob) t es = t"
  by (induction es) (simp_all add: code_event_def)

lemma phase_entry:
  assumes "\<forall>e\<in>set (ob_Events ob). ev_Event e \<noteq> ''agent-run.code_missing''"
  shows "st_Phase (fst (entry th st ob)) = st_Phase st"
  by (simp add: agent_run_events_def code_alert_def Let_def code_events_none [OF assms] phase_home
      phase_startup)

text \<open>
  An agent its subscription refused is not fought with restarts: unless its container reports
  the code share missing, a tick asks for nothing, and the agent stays disabled, whatever its pane, its
  sessions and its container do.
\<close>

theorem disabled_stays:
  assumes "st_Phase st = Disabled"
    and "\<forall>e\<in>set (ob_Events ob). ev_Event e \<noteq> ''agent-run.code_missing''"
  shows "snd (Decide th st ob) = [] \<and> st_Phase (fst (Decide th st ob)) = Disabled
    \<and> core (fst (Decide th st ob)) = core st"
proof (cases rule: Decide_cases [of ob th st])
  case disabled
  then show ?thesis using entry_core [of ob th st] by simp
qed (use phase_entry [OF assms(2), of th st] assms(1) in simp_all)

theorem disabled_stays_witness:
  "let st = (fresh_state ''amy'')\<lparr>st_Phase := Disabled\<rparr>; ob = seen (of_unix 1700000000) []
   in snd (Decide demo_th st ob) = [] \<and> st_Phase (fst (Decide demo_th st ob)) = Disabled
     \<and> core (fst (Decide demo_th st ob)) = core st"
  unfolding Let_def by (rule disabled_stays) (simp_all add: seen_def)

text \<open>
  A disabled agent whose container logs that the code share is missing is no longer disabled: the
  event overwrites the phase before the test for it, so the same tick restarts the agent whose
  subscription was refused.
\<close>

theorem disabled_woken_by_code_event:
  "let st = (fresh_state ''amy'')\<lparr>st_Phase := Disabled, st_DisabledReason := ''billing_error''\<rparr>;
       ob = (seen (of_unix 1700000000) [])\<lparr>ob_PaneAlive := False, ob_Events := [code_missing_event]\<rparr>
   in st_Phase (fst (Decide demo_th st ob)) = CodeMissing
      \<and> map a_Kind (snd (Decide demo_th st ob)) = [Restart]"
  by code_simp

text \<open>
  The alert that a disabled agent's weekly window is nearly used up is marked as sent and never
  sent: the early return for a disabled agent drops the actions the tick has gathered, after their keys
  were set.
\<close>

theorem disabled_drops_marked_alert:
  "let st = (fresh_state ''amy'')\<lparr>st_Phase := Disabled, st_Quota := \<lparr>q_FiveHour = 0,
         q_FiveHourResets = 0, q_SevenDay = 95, q_SevenDayResets = 0, q_At = 1\<rparr>\<rparr>;
       t = Decide demo_th st (seen (of_unix 1700000000) [])
   in \<not> st_Alerted st ''reserved'' \<and> st_Alerted (fst t) ''reserved'' \<and> snd t = []"
  by code_simp

section \<open>Runs of ticks\<close>

text \<open>
  The ticks of one agent in a row, as fleetd takes them, with the actions they asked for. A step
  that either keeps the task and ends nothing, or ends exactly that task, ends it at most once.
\<close>

fun run_ticks :: "('s \<Rightarrow> 'o \<Rightarrow> 's \<times> 'a list) \<Rightarrow> 's \<Rightarrow> 'o list \<Rightarrow> 's \<times> 'a list" where
  "run_ticks step s [] = (s, [])"
| "run_ticks step s (ob # obs) =
     (let (s1, a1) = step s ob; (s2, a2) = run_ticks step s1 obs in (s2, a1 @ a2))"

locale task_ticks =
  fixes step :: "'s \<Rightarrow> 'o \<Rightarrow> 's \<times> 'a list"
    and task :: "'s \<Rightarrow> string"
    and ends :: "'a list \<Rightarrow> string list"
  assumes ends_append: "ends (as @ bs) = ends as @ ends bs" and ends_Nil: "ends [] = []"
    and conserve: "step s ob = (s', acts) \<Longrightarrow>
      (task s' = task s \<and> ends acts = []) \<or> (task s' = '''' \<and> ends acts = [task s])"
begin

lemma none_stays_none: "task s = '''' \<Longrightarrow> run_ticks step s obs = (s', acts) \<Longrightarrow>
    task s' = '''' \<and> set (ends acts) \<subseteq> {''''}"
proof (induction obs arbitrary: s s' acts)
  case Nil
  then show ?case by (simp add: ends_Nil)
next
  case (Cons ob obs)
  obtain s1 a1 where 1: "step s ob = (s1, a1)" by (cases "step s ob")
  obtain s2 a2 where 2: "run_ticks step s1 obs = (s2, a2)" by (cases "run_ticks step s1 obs")
  from conserve [OF 1] Cons.prems(1) have "task s1 = ''''" "set (ends a1) \<subseteq> {''''}" by auto
  with Cons.IH [OF this(1) 2] Cons.prems(2) 1 2 show ?case by (auto simp: ends_append)
qed

lemma leaves_once: "run_ticks step s obs = (s', acts) \<Longrightarrow> task s \<noteq> '''' \<Longrightarrow>
    (task s' = task s \<and> ends acts = [])
    \<or> (task s' = '''' \<and> filter (\<lambda>x. x = task s) (ends acts) = [task s])"
proof (induction obs arbitrary: s s' acts)
  case Nil
  then show ?case by (simp add: ends_Nil)
next
  case (Cons ob obs)
  obtain s1 a1 where 1: "step s ob = (s1, a1)" by (cases "step s ob")
  obtain s2 a2 where 2: "run_ticks step s1 obs = (s2, a2)" by (cases "run_ticks step s1 obs")
  have fin: "s' = s2" "acts = a1 @ a2" using Cons.prems(1) 1 2 by simp_all
  from conserve [OF 1] consider (keep) "task s1 = task s" "ends a1 = []"
    | (leave) "task s1 = ''''" "ends a1 = [task s]" by blast
  then show ?case
  proof cases
    case keep
    with Cons.IH [OF 2] Cons.prems(2) show ?thesis by (simp add: fin ends_append)
  next
    case leave
    from none_stays_none [OF leave(1) 2] Cons.prems(2) have "filter (\<lambda>x. x = task s) (ends a2) = []"
      by (auto simp: filter_empty_conv)
    with leave none_stays_none [OF leave(1) 2] show ?thesis by (simp add: fin ends_append)
  qed
qed

end

interpretation agent: task_ticks "Decide th" st_Task "\<lambda>acts. map a_Task (rotations acts)" for th
proof
  fix s ob s' acts
  assume "Decide th s ob = (s', acts)"
  then show "(st_Task s' = st_Task s \<and> map a_Task (rotations acts) = [])
      \<or> (st_Task s' = '''' \<and> map a_Task (rotations acts) = [st_Task s])"
    using Decide_kept_or_ended [of s th ob] by (auto simp: kept_def ended_def)
qed simp_all

text \<open>
  Over any run of ticks, whatever is observed, a task an agent holds is ended at most once: either
  it still has it and no session was ended, or it has none and exactly one rotation named
  that task.
\<close>

theorem task_leaves_once:
  assumes "run_ticks (Decide th) st obs = (st', acts)" and "st_Task st \<noteq> ''''"
  shows "(st_Task st' = st_Task st \<and> rotations acts = [])
    \<or> (st_Task st' = '''' \<and> length (filter (\<lambda>a. a_Kind a = Rotate \<and> a_Task a = st_Task st) acts) = 1)"
proof -
  have "length (filter (\<lambda>a. a_Kind a = Rotate \<and> a_Task a = st_Task st) acts)
      = length (filter (\<lambda>x. x = st_Task st) (map a_Task (rotations acts)))"
    by (simp add: rotations_def filter_map comp_def conj_commute)
  note n = this
  from agent.leaves_once [OF assms] show ?thesis
  proof (elim disjE conjE)
    assume "st_Task st' = ''''" "filter (\<lambda>x. x = st_Task st) (map a_Task (rotations acts)) = [st_Task st]"
    then show ?thesis by (simp only: n) simp
  qed simp
qed

theorem task_leaves_once_witness:
  "let st = (fresh_state ''amy'')\<lparr>st_Task := ''T1'', st_LastBusy := of_unix 1700000000 - 5 * hour\<rparr>;
       ob = seen (of_unix 1700000000) [session_row ''amy'' ''s1'' ''idle''];
       r = run_ticks (Decide demo_th) st [ob, ob]
   in st_Task (fst r) = ''''
      \<and> length (filter (\<lambda>a. a_Kind a = Rotate \<and> a_Task a = ''T1'') (snd r)) = 1"
proof -
  let ?st = "(fresh_state ''amy'')\<lparr>st_Task := ''T1'', st_LastBusy := of_unix 1700000000 - 5 * hour\<rparr>"
  let ?ob = "seen (of_unix 1700000000) [session_row ''amy'' ''s1'' ''idle'']"
  let ?r = "run_ticks (Decide demo_th) ?st [?ob, ?ob]"
  have t: "st_Task ?st = ''T1''" by simp
  have e: "st_Task (fst ?r) = ''''" by code_simp
  have "run_ticks (Decide demo_th) ?st [?ob, ?ob] = (fst ?r, snd ?r)" by simp
  from task_leaves_once [OF this] t e show ?thesis unfolding Let_def by simp
qed

section \<open>Why a session is ended\<close>

text \<open>The clocks of the host and the restarts already counted: what the stages before a session
  leave as the start of the tick found them.\<close>

definition track :: "State \<Rightarrow> (gtime \<times> gtime list) \<times> (duration \<times> gtime) \<times> string" where
  "track st = ((st_HostBackAt st, st_Restarts st), (st_IdleAway st, st_AwaySince st), st_BootID st)"

lemma track_alertOnce [simp]: "track (st\<lparr>st_Alerted := al\<rparr>) = track st"
  and track_unalert [simp]: "track (unalert k st) = track st"
  and track_phase [simp]: "track (st\<lparr>st_Phase := ph\<rparr>) = track st"
  and track_orphan [simp]: "track (st\<lparr>st_PaneOrphanSince := since\<rparr>) = track st"
  by (simp_all add: track_def unalert_def)

lemma track_startup: "track (fst (startup th ob st)) = track (trackAway st ob)"
proof -
  have f: "track (fold_status s n x) = track s" for s n x
    by (simp add: track_def fold_status_def Let_def split: option.splits)
  have q: "track (observeQuota th s ob) = track s" for s
  proof -
    have "track (s\<lparr>st_Quota := q, st_Low := l, st_Reserved := r\<rparr>) = track s" for q l r s
      by (simp add: track_def)
    then show ?thesis by (simp add: observeQuota_def Let_def f split: option.splits)
  qed
  have t: "track (trackAway (st\<lparr>st_StartTried := zero_time, st_StartFailing := zero_time,
      st_CodeMissingSince := zero_time\<rparr>) ob) = track (trackAway st ob)"
    by (simp add: trackAway_def track_def Let_def)
  show ?thesis by (simp add: startup_def Let_def q t)
qed

lemma track_events: "track (fst (agent_run_events ob t)) = track (fst t)"
proof -
  have "track (fst (foldl home_event t es)) = track (fst t)" for es t
    by (rule foldl_keeps [where P = "\<lambda>t. track (fst t)"]) (simp add: home_event_def Let_def)
  moreover have "track (s\<lparr>st_CodeMissingSince := x, st_Phase := y\<rparr>) = track s" for s x y by (simp add: track_def)
  then have "track (fst (foldl (code_event ob) t es)) = track (fst t)" for es t
    by (intro foldl_keeps [where P = "\<lambda>t. track (fst t)"]) (simp add: code_event_def Let_def)
  ultimately show ?thesis by (simp add: agent_run_events_def code_alert_def Let_def)
qed

lemma track_stop_failures: "stop_failures th ob es t = Next t' \<Longrightarrow> track (fst t') = track (fst t)"
proof (induction es arbitrary: t)
  case (Cons e es t)
  have "track (fst (rate_limited th ob t)) = track (fst t)"
    by (simp add: rate_limited_def Let_def track_def)
  with Cons show ?case by (cases rule: stop_failures_Cons [of th ob e es t]) (metis flow.distinct(1))+
qed simp

lemma track_before:
  assumes "stop_failures th ob (ob_Events ob) (entry th st ob) = Next t1"
    and "unreachable_stage ob t1 = Next t2" and "container_stage ob t2 = Next t3"
  shows "track (fst (snd (sessions_stage ob t3))) = track (trackAway st ob)"
proof -
  have s: "track (s\<lparr>st_TurnOpen := x\<rparr>) = track s" "track (s\<lparr>st_TurnProc := y\<rparr>) = track s"
    "track (s\<lparr>st_HookIdle := z\<rparr>) = track s" "track (s\<lparr>st_UnreachableSince := v\<rparr>) = track s"
    "track (s\<lparr>st_StartTried := v\<rparr>) = track s" "track (s\<lparr>st_StartFailing := v\<rparr>) = track s"
    for s x y z v by (simp_all add: track_def)
  have "track (fst t1) = track (trackAway st ob)"
    using track_stop_failures [OF assms(1)] by (simp add: track_events track_startup)
  moreover have "track (fst t2) = track (fst t1)"
    using assms(2) by (auto simp: unreachable_stage_def Let_def s split: if_splits)
  moreover have "track (fst t3) = track (fst t2)"
    using assms(3) by (auto simp: container_stage_def Let_def s split: if_splits)
  moreover have "track (foldl (turn_event ob m) u es) = track u" for m u es
    by (rule foldl_keeps [where P = track]) (simp add: turn_event_def s)
  ultimately show ?thesis by (simp add: sessions_stage_def archive_strays_def Let_def)
qed

text \<open>A rotation by the stages of a live session: the task is done, or nothing moved for long.\<close>

definition stale_grounds :: "Thresholds \<Rightarrow> Obs \<Rightarrow> string \<Rightarrow> duration \<Rightarrow> bool" where
  "stale_grounds th ob task idle \<longleftrightarrow>
     (if task = '''' then th_StandbyIdle th < idle \<and> th_StandbyMinTranscript th \<le> ob_TranscriptSize ob
      else \<not> ob_Asking ob \<and> th_WaitingArchive th < idle)"

lemma stale_grounds_mono: "stale_grounds th ob task i \<Longrightarrow> i \<le> j \<Longrightarrow> stale_grounds th ob task j"
  by (auto simp: stale_grounds_def split: if_splits)

lemma rotation_stage_grounds:
  assumes "rotation_stage th ob lv = Return t" and "rotations (snd (l_tick lv)) = []"
    and "a \<in> set (rotations (snd t))"
  shows "(a_Reason a = ReasonTaskDone \<and> st_Done (fst (l_tick lv)))
    \<or> (a_Reason a = ReasonStale \<and> \<not> st_Done (fst (l_tick lv))
        \<and> stale_grounds th ob (st_Task (fst (l_tick lv))) (l_idle lv))"
  using assms by (auto simp: rotation_stage_def rotate_session_def stale_grounds_def Let_def split: if_splits)

lemma with_session_grounds:
  assumes "rotations (snd t) = []" and a: "a \<in> set (rotations (snd (outcome (with_session th ob (m, t)))))"
  shows "(a_Reason a = ReasonTaskDone \<and> st_Done (fst t))
    \<or> (a_Reason a = ReasonStale \<and> \<not> st_Done (fst t) \<and> Activity m \<noteq> ''busy''
        \<and> stale_grounds th ob (st_Task (fst t)) (l_idle (session_stage ob (m, t))))"
proof -
  let ?lv = "session_stage ob (m, t)"
  note ss = session_stage_simps [OF refl, of ob m t]
  have r0: "Rotate \<notin> kinds (snd (l_tick ?lv))" using ss(7) assms(1) by (auto simp: rotations_Nil)
  show ?thesis
  proof (cases "cooling_stage ob ?lv")
    case (Return t')
    then show ?thesis using a r0 cooling_stage_Return [OF Return]
      by (simp add: with_session_def outcome_def rotations_Nil [symmetric])
  next
    case (Next lv1)
    note cs = cooling_stage_Next [OF Next] and ts = turn_stage_simps [of ob lv1]
    have r1: "Rotate \<notin> kinds (snd (l_tick (turn_stage ob lv1)))"
      using cs(6) ts(5) r0 by (auto split: if_splits)
    show ?thesis
    proof (cases "phase_stage ob (turn_stage ob lv1)")
      case (Return t')
      then show ?thesis using a r1 phase_stage_Return [OF Return]
        by (simp add: with_session_def outcome_def Next rotations_Nil [symmetric])
    next
      case N2: (Next lv2)
      note ps = phase_stage_Next [OF N2]
      have id2: "ident (fst (l_tick lv2)) = ident (fst t)" using ps(1) ts(1) cs(1) ss(1) by simp
      have r2: "rotations (snd (l_tick lv2)) = []" using r1 ps(2) by (simp add: rotations_Nil)
      have i2: "l_idle lv2 \<le> l_idle ?lv" using ps(3) ts(6) cs(3) ss(6) by auto
      have b2: "Activity m = ''busy'' \<Longrightarrow> st_Done (fst t)"
        using ps(5) ident_task [OF ts(1)] ident_task [OF cs(1)] ident_task [OF ss(1)] ts(2) cs(2) ss(5) by simp
      show ?thesis
      proof (cases "rotation_stage th ob lv2")
        case (Return t')
        with a have "a \<in> set (rotations (snd t'))" by (simp add: with_session_def outcome_def Next N2)
        from rotation_stage_grounds [OF Return r2 this] b2 ident_task [OF id2] stale_grounds_mono [OF _ i2]
        show ?thesis by auto
      next
        case N3: (Next lv3)
        have "Rotate \<notin> kinds (snd (compact_stage th ob (report_stage ob (l_idle lv3) (l_tick lv3))))"
          using compact_stage_simps(3) [of th ob "report_stage ob (l_idle lv3) (l_tick lv3)"]
            report_stage_simps(3) [of ob "l_idle lv3" "l_tick lv3"] rotation_stage_Next(3) [OF N3] r2
          by (auto simp: rotations_Nil)
        with a show ?thesis by (simp add: with_session_def outcome_def Next N2 N3 rotations_Nil [symmetric])
      qed
    qed
  qed
qed

lemma restart_grounds:
  assumes "rotations (snd t) = []" and "a \<in> set (rotations (snd (restart th ob t)))"
  shows "a_Reason a = ReasonCrashed
    \<and> (st_HostBackAt (fst t) = zero_time \<or> th_HostSettle th \<le> time_sub (ob_Now ob) (st_HostBackAt (fst t)))
    \<and> th_RestartFailures th \<le>
        int (length (filter (\<lambda>r. time_sub (ob_Now ob) r < th_RestartWindow th) (st_Restarts (fst t)))) + 1"
  using assms by (auto simp: restart_def Let_def split: if_splits)

lemma Decide_rotation_source:
  assumes a: "a \<in> set (rotations (snd (Decide th st ob)))"
  obtains (crash) t where "ob_Unreachable ob = ''''" "ob_ContainerUp ob"
      "mine_of ob st = None \<or> \<not> ob_PaneAlive ob" "track (fst t) = track (trackAway st ob)"
      "rotations (snd t) = []" "a \<in> set (rotations (snd (restart th ob t)))"
  | (live) m t where "ob_Unreachable ob = ''''" "ob_ContainerUp ob" "ob_PaneAlive ob"
      "mine_of ob st = Some m" "core (fst t) = core st" "track (fst t) = track (trackAway st ob)"
      "rotations (snd t) = []" "a \<in> set (rotations (snd (outcome (with_session th ob (m, t)))))"
proof -
  have none: thesis if "Rotate \<notin> kinds (snd (Decide th st ob))"
    using rotations_Nil [THEN iffD2, OF that] a by simp
  show thesis
  proof (cases rule: Decide_cases [of ob th st])
    case disabled
    then show thesis by (intro none) simp
  next
    case (refused t1)
    with stop_failures_Return [OF refused(2)] entry_kinds [of ob th st] show thesis by (intro none) auto
  next
    case (unreachable t1 t2)
    with stop_failures_Next [OF unreachable(2)] unreachable_stage_Return [OF unreachable(3)]
      entry_kinds [of ob th st] show thesis by (intro none) auto
  next
    case (down t1 t2 t3)
    with stop_failures_Next [OF down(2)] unreachable_stage_Next [OF down(3)]
      container_stage_Return [OF down(4)] entry_kinds [of ob th st] show thesis by (intro none) auto
  next
    case (no_session t1 t2 t3 t4)
    note rc = reach_container [OF no_session(2-4)]
    let ?s = "sessions_stage ob t3"
    have m: "fst ?s = mine_of ob st" by (simp only: sessions_stage_simps(3) mine_of_core [OF rc(1)])
    have r: "rotations (snd (snd ?s)) = []"
      using sessions_stage_simps(2) [of ob t3] rc(2) by (auto simp: rotations_Nil)
    from no_session(5) show thesis
    proof (cases rule: pane_stage_cases)
      case (dialog d)
      with r wait_stuck_simps(2) [of ob d "((fst (snd ?s))\<lparr>st_PaneOrphanSince := zero_time\<rparr>, snd (snd ?s))"]
      show thesis by (intro none) (auto simp: no_session(6) rotations_Nil)
    next
      case (grace x)
      with r show thesis by (intro none) (auto simp: no_session(6) rotations_Nil)
    next
      case (restarts x)
      with a r m rc(3,4) track_before [OF no_session(2-4)] show thesis
        by (intro crash [of "((fst (snd ?s))\<lparr>st_PaneOrphanSince := x\<rparr>, snd (snd ?s))"])
          (auto simp: no_session(6))
    qed simp
  next
    case (session t1 t2 t3 m t4)
    note rc = reach_container [OF session(2-4)] and ps = pane_stage_Next [OF session(5)]
    have m: "mine_of ob st = Some m"
      using ps(1) by (simp only: sessions_stage_simps(3) mine_of_core [OF rc(1)])
    have r: "rotations (snd t4) = []"
      using sessions_stage_simps(2) [of ob t3] rc(2) ps(3) by (auto simp: rotations_Nil)
    have "fst t4 = (fst (snd (sessions_stage ob t3)))\<lparr>st_PaneOrphanSince := zero_time\<rparr>"
      using session(5) by (cases rule: pane_stage_cases) simp_all
    with track_before [OF session(2-4)] have "track (fst t4) = track (trackAway st ob)" by simp
    then show thesis
      using a r m rc ps(2,4) sessions_stage_simps(1) [of ob t3] session(6) by (intro live [of m t4]) simp_all
  qed
qed

text \<open>
  A session is given up as crashed only when the host answered and its container runs, the agent
  has no live session, the host has been back longer than it needs to settle, and the restarts within the
  window, this one included, have reached the configured number.
\<close>

theorem crash_rotation_grounds:
  assumes "a \<in> set (snd (Decide th st ob))" and "a_Kind a = Rotate" and "a_Reason a = ReasonCrashed"
  shows "ob_Unreachable ob = '''' \<and> ob_ContainerUp ob \<and> (mine_of ob st = None \<or> \<not> ob_PaneAlive ob)
    \<and> (st_HostBackAt (trackAway st ob) = zero_time
        \<or> th_HostSettle th \<le> time_sub (ob_Now ob) (st_HostBackAt (trackAway st ob)))
    \<and> th_RestartFailures th \<le> int (length (filter (\<lambda>r. time_sub (ob_Now ob) r < th_RestartWindow th)
          (st_Restarts (trackAway st ob)))) + 1"
proof -
  have "a \<in> set (rotations (snd (Decide th st ob)))" using assms by (simp add: rotations_def)
  then show ?thesis
  proof (cases rule: Decide_rotation_source)
    case (crash t)
    with restart_grounds [OF crash(5,6)] show ?thesis by (simp add: track_def)
  next
    case (live m t)
    from with_session_grounds [OF live(7,8)] assms(3) show ?thesis by (auto simp: reason_defs)
  qed
qed

text \<open>The idle clock counts no further back than the last write to the transcript, or the last time
  the session was seen busy.\<close>

lemma idle_bound:
  assumes "0 \<le> st_IdleAway (fst t)" and "st_LastBusy (fst t) \<le> ob_Now ob" and "ob_TranscriptMTime ob \<le> ob_Now ob"
    and "Activity m \<noteq> ''busy''" and "st_IdleAway (fst t) \<le> max_int64"
  shows "l_idle (session_stage ob (m, t)) \<le> time_sub (ob_Now ob) (ob_TranscriptMTime ob)"
proof -
  let ?t1 = "waiting_stage ob m (session_up ob m (fst t), snd t)"
  have a1: "st_IdleAway (fst ?t1) = st_IdleAway (fst t)" and b1: "st_LastBusy (fst ?t1) = st_LastBusy (fst t)"
    by (simp_all add: waiting_stage_def wait_stuck_def stuck_alert_def session_up_def unalert_def Let_def)
  define st2 where "st2 = seen_busy ob False (fst ?t1)"
  define i where "i = idle_since ob st2"
  define st3 where "st3 = idle_rebase i st2"
  have a2: "st_IdleAway st2 = st_IdleAway (fst t)" by (simp add: st2_def seen_busy_def Let_def a1)
  have b2: "st_LastBusy st2 \<le> ob_Now ob" using assms(2) by (simp add: st2_def seen_busy_def Let_def b1)
  have i: "ob_TranscriptMTime ob \<le> i" "i \<le> ob_Now ob"
    using b2 assms(3) by (auto simp: i_def idle_since_def Let_def)
  have a3: "0 \<le> st_IdleAway st3" "st_IdleAway st3 \<le> max_int64"
    using assms(1,5) by (simp_all add: st3_def idle_rebase_def a2 max_int64_def)
  have s: "time_sub (ob_Now ob) i \<le> time_sub (ob_Now ob) (ob_TranscriptMTime ob)"
    "0 \<le> time_sub (ob_Now ob) i" "time_sub (ob_Now ob) i \<le> max_int64"
    using i by (auto simp: time_sub_def max_int64_def min_int64_def)
  have "wrap64 (time_sub (ob_Now ob) i - st_IdleAway st3) = time_sub (ob_Now ob) i - st_IdleAway st3"
    using s(2,3) a3 by (intro wrap64_id) (auto simp: min_int64_def max_int64_def)
  moreover have "l_idle (session_stage ob (m, t)) = max (wrap64 (time_sub (ob_Now ob) i - st_IdleAway st3)) 0"
    using assms(4) by (simp add: session_stage_def idle_clock_def Let_def st2_def i_def st3_def)
  ultimately show ?thesis using s a3 by simp
qed

text \<open>
  A session is ended other than by crashing only when its task is reported done, or when the
  session is live and not busy, nothing was written to its transcript for longer than the threshold, and,
  if it has a task, it is not waiting for an answer it asked for. The clocks are assumed sane: the agent
  was last busy, and the transcript last written, not later than now.
\<close>

theorem stale_rotation_grounds:
  assumes "a \<in> set (snd (Decide th st ob))" and "a_Kind a = Rotate" and "a_Reason a \<noteq> ReasonCrashed"
    and "0 \<le> st_IdleAway (trackAway st ob)" and "st_IdleAway (trackAway st ob) \<le> max_int64"
    and "st_LastBusy st \<le> ob_Now ob" and "ob_TranscriptMTime ob \<le> ob_Now ob"
  shows "(a_Reason a = ReasonTaskDone \<and> st_Done st)
    \<or> (a_Reason a = ReasonStale \<and> \<not> st_Done st
       \<and> (\<exists>m. mine_of ob st = Some m \<and> Activity m \<noteq> ''busy'')
       \<and> (if st_Task st = '''' then th_StandbyIdle th < time_sub (ob_Now ob) (ob_TranscriptMTime ob)
          else \<not> ob_Asking ob \<and> th_WaitingArchive th < time_sub (ob_Now ob) (ob_TranscriptMTime ob)))"
proof -
  have "a \<in> set (rotations (snd (Decide th st ob)))" using assms by (simp add: rotations_def)
  then show ?thesis
  proof (cases rule: Decide_rotation_source)
    case (crash t)
    with restart_grounds [OF crash(5,6)] assms(3) show ?thesis by simp
  next
    case (live m t)
    have eq: "st_Task (fst t) = st_Task st" "st_Done (fst t) = st_Done st" "st_LastBusy (fst t) = st_LastBusy st"
      "st_IdleAway (fst t) = st_IdleAway (trackAway st ob)"
      using live(5,6) by (simp_all add: core_def track_def)
    from with_session_grounds [OF live(7,8)] idle_bound [of t ob m] assms(4-7) live(4) show ?thesis
      by (auto simp: eq stale_grounds_def split: if_splits)
  qed
qed

theorem crash_rotation_grounds_witness:
  "let n = of_unix 1700000000; st = (fresh_state ''amy'')\<lparr>st_Task := ''T1'', st_Restarts := [n - 2 * minute, n - minute]\<rparr>;
       ob = (seen n [])\<lparr>ob_PaneAlive := False\<rparr>
   in ReasonCrashed \<in> a_Reason ` set (snd (Decide demo_th st ob))
      \<and> th_RestartFailures demo_th \<le> int (length (filter (\<lambda>r. time_sub n r < th_RestartWindow demo_th)
          (st_Restarts (trackAway st ob)))) + 1"
proof -
  let ?n = "of_unix 1700000000"
  let ?st = "(fresh_state ''amy'')\<lparr>st_Task := ''T1'', st_Restarts := [?n - 2 * minute, ?n - minute]\<rparr>"
  let ?ob = "(seen ?n [])\<lparr>ob_PaneAlive := False\<rparr>"
  let ?a = "(act Rotate)\<lparr>a_Task := ''T1'', a_Reason := ReasonCrashed\<rparr>"
  have m: "?a \<in> set (snd (Decide demo_th ?st ?ob))" by code_simp
  have k: "a_Kind ?a = Rotate" and r: "a_Reason ?a = ReasonCrashed" and n: "ob_Now ?ob = ?n" by code_simp+
  have "ReasonCrashed \<in> a_Reason ` set (snd (Decide demo_th ?st ?ob))"
    by (rule image_eqI [where f = a_Reason and x = ?a, OF r [symmetric] m])
  with crash_rotation_grounds [OF m k r] n show ?thesis by (simp only: Let_def)
qed

theorem stale_rotation_grounds_witness:
  "let n = of_unix 1700000000; st = (fresh_state ''amy'')\<lparr>st_Task := ''T1'', st_LastBusy := n - 5 * hour\<rparr>;
       ob = seen n [session_row ''amy'' ''s1'' ''idle'']
   in ReasonStale \<in> a_Reason ` set (snd (Decide demo_th st ob))
      \<and> th_WaitingArchive demo_th < time_sub n (ob_TranscriptMTime ob)"
proof -
  let ?n = "of_unix 1700000000"
  let ?st = "(fresh_state ''amy'')\<lparr>st_Task := ''T1'', st_LastBusy := ?n - 5 * hour\<rparr>"
  let ?ob = "seen ?n [session_row ''amy'' ''s1'' ''idle'']"
  let ?a = "(act Rotate)\<lparr>a_Session := ''s1'', a_Task := ''T1'', a_Reason := ReasonStale\<rparr>"
  have m: "?a \<in> set (snd (Decide demo_th ?st ?ob))" by code_simp
  have k: "a_Kind ?a = Rotate" and r: "a_Reason ?a = ReasonStale" and c: "a_Reason ?a \<noteq> ReasonCrashed"
    and n: "ob_Now ?ob = ?n" and d: "\<not> st_Done ?st" and t: "st_Task ?st \<noteq> ''''"
    and w1: "0 \<le> st_IdleAway (trackAway ?st ?ob)" and w2: "st_IdleAway (trackAway ?st ?ob) \<le> max_int64"
    and w3: "st_LastBusy ?st \<le> ob_Now ?ob" and w4: "ob_TranscriptMTime ?ob \<le> ob_Now ?ob" by code_simp+
  have "ReasonStale \<in> a_Reason ` set (snd (Decide demo_th ?st ?ob))"
    by (rule image_eqI [where f = a_Reason and x = ?a, OF r [symmetric] m])
  with stale_rotation_grounds [OF m k c w1 w2 w3 w4] n d t show ?thesis by (simp add: Let_def)
qed

section \<open>The time a host is away\<close>

lemma trackAway_leaves:
  "ob_Unreachable ob \<noteq> '''' \<or> \<not> ob_ContainerUp ob \<Longrightarrow> st_AwaySince st = zero_time \<Longrightarrow>
   trackAway st ob = st\<lparr>st_AwaySince := ob_Now ob\<rparr>"
  by (simp add: trackAway_def)

lemma trackAway_back:
  assumes "ob_Unreachable ob = ''''" "ob_ContainerUp ob" "st_AwaySince st \<noteq> zero_time"
  shows "st_IdleAway (trackAway st ob) = wrap64 (st_IdleAway st + time_sub (ob_Now ob) (st_AwaySince st))"
    and "st_LastBusy (trackAway st ob) = st_LastBusy st" and "st_IdleBase (trackAway st ob) = st_IdleBase st"
    and "st_Restarts (trackAway st ob) = []" and "st_HostBackAt (trackAway st ob) = ob_Now ob"
  using assms by (simp_all add: trackAway_def Let_def)

lemma idle_clock_running:
  assumes "st_LastBusy st \<noteq> zero_time \<or> ob_TranscriptMTime ob \<noteq> zero_time"
    and "st_IdleBase st = idle_since ob st" and "st_IdleBase st \<noteq> zero_time"
  shows "fst (idle_clock ob False st) = max (wrap64 (time_sub (ob_Now ob) (idle_since ob st) - st_IdleAway st)) 0"
proof -
  have l: "st_LastBusy (seen_busy ob False st) = st_LastBusy st"
    and b: "st_IdleBase (seen_busy ob False st) = st_IdleBase st"
    and w: "st_IdleAway (seen_busy ob False st) = st_IdleAway st"
    using assms(1) by (auto simp: seen_busy_def Let_def)
  have i: "idle_since ob (seen_busy ob False st) = idle_since ob st" by (simp add: idle_since_def Let_def l)
  show ?thesis using assms(2,3) by (simp add: idle_clock_def Let_def i idle_rebase_def b w)
qed

text \<open>
  The time a host is away is not idleness: when the host goes out of reach or its container
  down at some tick, and is back at a later one with nothing written or answered in between, the idle
  clock of the agent stands where it stood when the host went, and the restarts counted before
  are forgotten.
\<close>

theorem outage_is_not_idleness:
  assumes "st_AwaySince st = zero_time"
    and gone: "ob_Unreachable ob1 \<noteq> '''' \<or> \<not> ob_ContainerUp ob1"
    and up: "ob_Unreachable ob2 = ''''" "ob_ContainerUp ob2"
    and order: "0 < ob_Now ob1" "ob_Now ob1 \<le> ob_Now ob2"
    and running: "st_IdleBase st = idle_since ob2 st" "st_IdleBase st \<noteq> zero_time"
      "st_LastBusy st \<noteq> zero_time \<or> ob_TranscriptMTime ob2 \<noteq> zero_time"
    and past: "idle_since ob2 st \<le> ob_Now ob1" "ob_AnsweredAt ob2 \<le> ob_Now ob1"
    and range: "ob_Now ob2 - idle_since ob2 st \<le> max_int64" "0 \<le> st_IdleAway st"
      "st_IdleAway st + (ob_Now ob2 - ob_Now ob1) \<le> max_int64"
  shows "fst (idle_clock ob2 False (trackAway (trackAway st ob1) ob2))
       = fst (idle_clock (ob2\<lparr>ob_Now := ob_Now ob1\<rparr>) False st)
    \<and> st_Restarts (trackAway (trackAway st ob1) ob2) = []"
proof -
  define i where "i = idle_since ob2 st"
  let ?s = "trackAway (trackAway st ob1) ob2" and ?ob0 = "ob2\<lparr>ob_Now := ob_Now ob1\<rparr>"
  have t1: "trackAway st ob1 = st\<lparr>st_AwaySince := ob_Now ob1\<rparr>" using gone assms(1) by (rule trackAway_leaves)
  have "st_AwaySince (trackAway st ob1) \<noteq> zero_time" using order(1) by (simp add: t1)
  note tb = trackAway_back [OF up this, unfolded t1, simplified]
  have away: "st_IdleAway ?s = st_IdleAway st + (ob_Now ob2 - ob_Now ob1)"
    using order range tb(1) by (simp add: t1 time_sub_eq min_int64_def max_int64_def)
  have i2: "idle_since ob2 ?s = i" using tb(2) by (simp add: i_def idle_since_def Let_def t1)
  have i0: "idle_since ?ob0 st = i"
    using past(2) order by (auto simp: i_def idle_since_def Let_def)
  have base: "st_IdleBase ?s = st_IdleBase st" "st_LastBusy ?s = st_LastBusy st" using tb(2,3) by (simp_all add: t1)
  have e2: "fst (idle_clock ob2 False ?s) = max (wrap64 (time_sub (ob_Now ob2) i - st_IdleAway ?s)) 0"
    using running base by (subst idle_clock_running) (simp_all add: i2, simp_all add: i_def)
  have e0: "fst (idle_clock ?ob0 False st) = max (wrap64 (time_sub (ob_Now ob1) i - st_IdleAway st)) 0"
    using running by (subst idle_clock_running) (simp_all add: i0, simp_all add: i_def)
  have d2: "time_sub (ob_Now ob2) i = ob_Now ob2 - i" and d1: "time_sub (ob_Now ob1) i = ob_Now ob1 - i"
    using past(1) order range(1) by (auto simp: time_sub_eq i_def min_int64_def)
  have "fst (idle_clock ob2 False ?s) = fst (idle_clock ?ob0 False st)"
    unfolding e2 e0 d2 d1 away by (rule arg_cong [where f = "\<lambda>x. max (wrap64 x) 0"]) simp
  with tb(4) show ?thesis by (simp add: t1)
qed

theorem outage_is_not_idleness_witness:
  "let n = of_unix 1700000000; st = (fresh_state ''amy'')\<lparr>st_LastBusy := n, st_IdleBase := n\<rparr>;
       ob1 = (seen (n + hour) [])\<lparr>ob_Unreachable := ''host2''\<rparr>; ob2 = seen (n + 9 * hour) []
   in fst (idle_clock ob2 False (trackAway (trackAway st ob1) ob2)) = hour"
proof -
  let ?n = "of_unix 1700000000" let ?st = "(fresh_state ''amy'')\<lparr>st_LastBusy := ?n, st_IdleBase := ?n\<rparr>"
  let ?ob1 = "(seen (?n + hour) [])\<lparr>ob_Unreachable := ''host2''\<rparr>" and ?ob2 = "seen (?n + 9 * hour) []"
  have "fst (idle_clock ?ob2 False (trackAway (trackAway ?st ?ob1) ?ob2))
      = fst (idle_clock (?ob2\<lparr>ob_Now := ob_Now ?ob1\<rparr>) False ?st)"
    by (rule outage_is_not_idleness [THEN conjunct1]) code_simp+
  also have "\<dots> = hour" by code_simp
  finally show ?thesis by (simp only: Let_def)
qed

end
