(* ===== verification/Event_Log_Store.thy ===== *)
theory Event_Log_Store
  imports Prelude
begin

text \<open>
  \<^verbatim>\<open>internal/store/event_log_store.go\<close>: the durable event log, the subscribers' offsets and
  the dead letters. \<open>log_next\<close> and \<open>dead_next\<close> are the database's AUTOINCREMENT counters.
  A statement that fails leaves the tables as they were. Encoding a payload to text and
  reading it back is \<open>encoding/json\<close>'s; the payload is kept decoded.
\<close>

section \<open>Data\<close>

definition DefaultWorkspace :: string where "DefaultWorkspace = ''default''"

record LogEvent =
  le_Seq :: int
  le_ID :: string
  le_Workspace :: string
  le_Kind :: string
  le_AgentID :: string
  le_Payload :: "(string \<times> json) list"
  le_Meta :: "(string \<times> string) list"
  le_CreatedAt :: gtime

record DeadLetter =
  dl_ID :: int
  dl_Subscriber :: string
  dl_EventSeq :: int
  dl_EventID :: string
  dl_Kind :: string
  dl_Attempts :: int
  dl_LastError :: string
  dl_CreatedAt :: gtime

record Offset =
  of_Subscriber :: string
  of_Workspace :: string
  of_Seq :: int
  of_UpdatedAt :: gtime

record log_db =
  log_rows :: "LogEvent list"
  log_next :: int
  offsets :: "Offset list"
  dead_rows :: "DeadLetter list"
  dead_next :: int

definition empty_log :: log_db where
  "empty_log = \<lparr>log_rows = [], log_next = 1, offsets = [], dead_rows = [], dead_next = 1\<rparr>"

definition ws_of :: "string \<Rightarrow> string" where
  "ws_of w = (if w = '''' then DefaultWorkspace else w)"

lemma ws_of_idem [simp]: "ws_of (ws_of w) = ws_of w"
  by (simp add: ws_of_def DefaultWorkspace_def)

section \<open>Appending and reading\<close>

text \<open>\<open>AppendLogEvent\<close>, given the driver's answers to the insertion and to the query that follows
  a conflict.\<close>

definition event_stamped :: "gtime \<Rightarrow> LogEvent \<Rightarrow> LogEvent" where
  "event_stamped now e = e\<lparr>le_Workspace := ws_of (le_Workspace e),
     le_CreatedAt := (if le_CreatedAt e = zero_time then now else le_CreatedAt e)\<rparr>"

definition AppendLogEvent :: "dberr \<Rightarrow> dberr \<Rightarrow> gtime \<Rightarrow> LogEvent \<Rightarrow> log_db \<Rightarrow> (string + int) \<times> log_db" where
  "AppendLogEvent ierr qerr now e db =
     (case ierr of Some m \<Rightarrow> (Inl m, db)
      | None \<Rightarrow>
         (case row_of le_ID (le_ID e) (log_rows db) of
            None \<Rightarrow> (Inr (log_next db),
              db\<lparr>log_rows := log_rows db @ [(event_stamped now e)\<lparr>le_Seq := log_next db\<rparr>],
                 log_next := log_next db + 1\<rparr>)
          | Some r \<Rightarrow> (case qerr of Some m \<Rightarrow> (Inl m, db) | None \<Rightarrow> (Inr (le_Seq r), db))))"

definition kind_in :: "string list \<Rightarrow> string \<Rightarrow> bool" where
  "kind_in kinds k \<longleftrightarrow> kinds = [] \<or> k \<in> set kinds"

definition past_seq :: "string \<Rightarrow> int \<Rightarrow> string list \<Rightarrow> LogEvent \<Rightarrow> bool" where
  "past_seq ws after kinds e \<longleftrightarrow>
     le_Workspace e = ws_of ws \<and> after < le_Seq e \<and> kind_in kinds (le_Kind e)"

definition LogEventsAfter :: "dberr \<Rightarrow> string \<Rightarrow> int \<Rightarrow> string list \<Rightarrow> int \<Rightarrow> log_db \<Rightarrow> string + LogEvent list" where
  "LogEventsAfter err ws after kinds limit db =
     (case err of Some m \<Rightarrow> Inl m
      | None \<Rightarrow> Inr (take (limit_or limit 128)
          (sort_key le_Seq (filter (past_seq ws after kinds) (log_rows db)))))"

definition RecentLogEvents :: "dberr \<Rightarrow> string \<Rightarrow> string \<Rightarrow> int \<Rightarrow> log_db \<Rightarrow> string + LogEvent list" where
  "RecentLogEvents err ws kindFilter limit db =
     (case err of Some m \<Rightarrow> Inl m
      | None \<Rightarrow> Inr (take (limit_or limit 50) (sort_key (\<lambda>e. - le_Seq e)
          (filter (\<lambda>e. le_Workspace e = ws_of ws \<and> (kindFilter = '''' \<or> le_Kind e = kindFilter)) (log_rows db)))))"

definition LogEventsByAgent :: "dberr \<Rightarrow> string \<Rightarrow> string \<Rightarrow> int \<Rightarrow> log_db \<Rightarrow> string + LogEvent list" where
  "LogEventsByAgent err ws agent limit db =
     (case err of Some m \<Rightarrow> Inl m
      | None \<Rightarrow> Inr (take (limit_or limit 50) (sort_key (\<lambda>e. - le_Seq e)
          (filter (\<lambda>e. le_Workspace e = ws_of ws \<and> le_AgentID e = agent) (log_rows db)))))"

section \<open>Offsets\<close>

definition offset_key :: "Offset \<Rightarrow> string \<times> string" where
  "offset_key r = (of_Subscriber r, of_Workspace r)"

definition merge_offset :: "Offset \<Rightarrow> Offset \<Rightarrow> Offset" where
  "merge_offset r x = r\<lparr>of_Seq := max (of_Seq r) (of_Seq x), of_UpdatedAt := of_UpdatedAt x\<rparr>"

definition stored :: "string \<Rightarrow> string \<Rightarrow> log_db \<Rightarrow> int option" where
  "stored name ws db = map_option of_Seq (row_of offset_key (name, ws_of ws) (offsets db))"

text \<open>The answer is the offset and whether the subscriber has ever run.\<close>

definition ConsumerOffset :: "dberr \<Rightarrow> string \<Rightarrow> string \<Rightarrow> log_db \<Rightarrow> string + int \<times> bool" where
  "ConsumerOffset err name ws db =
     (case err of Some m \<Rightarrow> Inl m
      | None \<Rightarrow> Inr (case stored name ws db of None \<Rightarrow> (0, False) | Some s \<Rightarrow> (s, True)))"

definition max_seq :: "int list \<Rightarrow> int" where
  "max_seq xs = (if xs = [] then 0 else foldl max (hd xs) (tl xs))"

definition LogHead :: "dberr \<Rightarrow> string \<Rightarrow> log_db \<Rightarrow> string + int" where
  "LogHead err ws db =
     (case err of Some m \<Rightarrow> Inl m
      | None \<Rightarrow> Inr (max_seq (map le_Seq (filter (\<lambda>e. le_Workspace e = ws_of ws) (log_rows db)))))"

definition SetConsumerOffset :: "dberr \<Rightarrow> gtime \<Rightarrow> string \<Rightarrow> string \<Rightarrow> int \<Rightarrow> log_db \<Rightarrow> dberr \<times> log_db" where
  "SetConsumerOffset err now name ws seq db =
     (case err of Some m \<Rightarrow> (Some m, db)
      | None \<Rightarrow> (None, db\<lparr>offsets := upsert offset_key merge_offset
          \<lparr>of_Subscriber = name, of_Workspace = ws_of ws, of_Seq = seq, of_UpdatedAt = now\<rparr> (offsets db)\<rparr>))"

definition min_seq :: "int list \<Rightarrow> int" where
  "min_seq xs = (if xs = [] then 0 else foldl min (hd xs) (tl xs))"

definition SafeSeq :: "dberr \<Rightarrow> string \<Rightarrow> log_db \<Rightarrow> string + int" where
  "SafeSeq err ws db =
     (case err of Some m \<Rightarrow> Inl m
      | None \<Rightarrow> Inr (min_seq (map of_Seq (filter (\<lambda>r. of_Workspace r = ws_of ws) (offsets db)))))"

section \<open>Dead letters, pruning\<close>

definition RecordDeadLetter :: "dberr \<Rightarrow> gtime \<Rightarrow> DeadLetter \<Rightarrow> log_db \<Rightarrow> dberr \<times> log_db" where
  "RecordDeadLetter err now d db =
     (case err of Some m \<Rightarrow> (Some m, db)
      | None \<Rightarrow> (None, db\<lparr>dead_rows := dead_rows db @ [d\<lparr>dl_ID := dead_next db, dl_CreatedAt := now\<rparr>],
          dead_next := dead_next db + 1\<rparr>))"

definition DeadLetters :: "dberr \<Rightarrow> int \<Rightarrow> log_db \<Rightarrow> string + DeadLetter list" where
  "DeadLetters err limit db =
     (case err of Some m \<Rightarrow> Inl m
      | None \<Rightarrow> Inr (take (limit_or limit 50) (sort_key (\<lambda>d. - dl_ID d) (dead_rows db))))"

text \<open>The answers to the two statements of \<open>PruneEventLog\<close>; the result is the number of rows deleted.\<close>

definition PruneEventLog :: "dberr \<Rightarrow> dberr \<Rightarrow> string \<Rightarrow> gtime \<Rightarrow> log_db \<Rightarrow> (string + nat) \<times> log_db" where
  "PruneEventLog serr derr ws before db =
     (case SafeSeq serr ws db of Inl m \<Rightarrow> (Inl m, db)
      | Inr safe \<Rightarrow>
         (case derr of Some m \<Rightarrow> (Inl m, db)
          | None \<Rightarrow>
             (let p = (\<lambda>e. le_Workspace e = ws_of ws \<and> le_CreatedAt e < before \<and> le_Seq e \<le> safe)
              in (Inr (length (filter p (log_rows db))), db\<lparr>log_rows := delete_where p (log_rows db)\<rparr>))))"

section \<open>The log stays a log\<close>

interpretation log_offsets: keyed_table offset_key merge_offset
  by unfold_locales (simp add: offset_key_def merge_offset_def)

text \<open>Events stand in the order of their sequence numbers, which start at 1 and stay below the next
  one; an event id is logged once.\<close>

definition log_ok :: "log_db \<Rightarrow> bool" where
  "log_ok db \<longleftrightarrow> sorted_wrt (<) (map le_Seq (log_rows db))
     \<and> (\<forall>e\<in>set (log_rows db). 0 < le_Seq e \<and> le_Seq e < log_next db)
     \<and> 0 < log_next db \<and> distinct (map le_ID (log_rows db))"

lemma log_ok_empty: "log_ok empty_log"
  by (simp add: log_ok_def empty_log_def)

lemma log_okD:
  assumes "log_ok db"
  shows "sorted (map le_Seq (log_rows db))" and "e \<in> set (log_rows db) \<Longrightarrow> 0 < le_Seq e \<and> le_Seq e < log_next db"
    and "distinct (map le_ID (log_rows db))" and "distinct (map le_Seq (log_rows db))"
  using assms unfolding log_ok_def strict_sorted_iff by auto

lemma append_ok [keeps_intros]:
  assumes "log_ok db"
  shows "log_ok (snd (AppendLogEvent ierr qerr now e db))"
  using assms
  by (auto simp: AppendLogEvent_def log_ok_def sorted_wrt_append row_of_None event_stamped_def
      split: option.splits)

lemma SetConsumerOffset_rows [simp]:
  "log_rows (snd (SetConsumerOffset err now name ws seq db)) = log_rows db"
  "log_next (snd (SetConsumerOffset err now name ws seq db)) = log_next db"
  by (simp_all add: SetConsumerOffset_def split: option.splits)

lemma RecordDeadLetter_rows [simp]:
  "log_rows (snd (RecordDeadLetter err now d db)) = log_rows db"
  "log_next (snd (RecordDeadLetter err now d db)) = log_next db"
  "offsets (snd (RecordDeadLetter err now d db)) = offsets db"
  by (simp_all add: RecordDeadLetter_def split: option.splits)

lemma prune_ok [keeps_intros]:
  assumes "log_ok db"
  shows "log_ok (snd (PruneEventLog serr derr ws before db))"
proof -
  have s: "sorted_wrt (<) (map le_Seq xs) \<Longrightarrow> sorted_wrt (<) (map le_Seq (filter P xs))" for P xs
    by (induction xs) auto
  have d: "distinct (map le_ID xs) \<Longrightarrow> distinct (map le_ID (filter P xs))" for P xs
    by (induction xs) auto
  show ?thesis using assms s d
    by (auto simp: PruneEventLog_def log_ok_def delete_where_def Let_def split: option.splits sum.splits)
qed

lemma LogEventsAfter_ok:
  "log_ok db \<Longrightarrow> LogEventsAfter None ws after kinds limit db =
     Inr (take (limit_or limit 128) (filter (past_seq ws after kinds) (log_rows db)))"
  by (simp add: LogEventsAfter_def sort_key_filter_sorted log_okD(1))

lemma max_seq_ge: "x \<in> set xs \<Longrightarrow> x \<le> max_seq xs"
proof -
  have "y \<in> insert a (set ys) \<Longrightarrow> y \<le> foldl max a ys" for y a :: int and ys
  proof (induction ys arbitrary: a y)
    case (Cons b ys)
    have "max a b \<le> foldl max (max a b) ys" by (rule Cons.IH) simp
    with Cons show ?case by auto
  qed simp
  then show "x \<in> set xs \<Longrightarrow> x \<le> max_seq xs" by (cases xs) (auto simp: max_seq_def)
qed

lemma max_seq_in: "max_seq xs \<in> insert 0 (set xs)"
proof -
  have "foldl max a ys \<in> insert a (set ys)" for a :: int and ys
  proof (induction ys arbitrary: a)
    case (Cons b ys)
    from Cons.IH [of "max a b"] show ?case by (auto simp: max_def split: if_splits)
  qed simp
  then show ?thesis by (cases xs) (auto simp: max_seq_def)
qed

lemma min_seq_le: "x \<in> set xs \<Longrightarrow> min_seq xs \<le> x"
proof -
  have "y \<in> insert a (set ys) \<Longrightarrow> foldl min a ys \<le> y" for y a :: int and ys
  proof (induction ys arbitrary: a y)
    case (Cons b ys)
    have "foldl min (min a b) ys \<le> min a b" by (rule Cons.IH) simp
    with Cons show ?case by auto
  qed simp
  then show "x \<in> set xs \<Longrightarrow> min_seq xs \<le> x" by (cases xs) (auto simp: min_seq_def)
qed

lemma min_seq_Nil [simp]: "min_seq [] = 0"
  by (simp add: min_seq_def)

text \<open>What the stored offsets become.\<close>

lemma stored_empty [simp]: "stored name ws empty_log = None"
  by (simp add: stored_def row_of_def empty_log_def)

lemma stored_SetConsumerOffset:
  "stored n w (snd (SetConsumerOffset None now name ws seq db)) =
     (if n = name \<and> ws_of w = ws_of ws
      then Some (case stored n w db of None \<Rightarrow> seq | Some s \<Rightarrow> max s seq) else stored n w db)"
  by (auto simp: stored_def SetConsumerOffset_def log_offsets.row_upsert offset_key_def merge_offset_def
      split: option.splits)

lemma stored_frame [simp]:
  "stored n w (snd (AppendLogEvent ierr qerr now e db)) = stored n w db"
  "stored n w (snd (RecordDeadLetter err now d db)) = stored n w db"
  "stored n w (snd (PruneEventLog serr derr ws before db)) = stored n w db"
  by (auto simp: stored_def AppendLogEvent_def PruneEventLog_def Let_def split: option.splits sum.splits)

lemma SetConsumerOffset_error [simp]: "SetConsumerOffset (Some m) now name ws seq db = (Some m, db)"
  by (simp add: SetConsumerOffset_def)

lemma stored_mono:
  "stored n w db = Some s \<Longrightarrow>
   \<exists>s'\<ge>s. stored n w (snd (SetConsumerOffset err now name ws seq db)) = Some s'"
  by (cases err) (auto simp: stored_SetConsumerOffset)

lemma SafeSeq_le_stored: "SafeSeq None ws db = Inr safe \<Longrightarrow> stored n ws db = Some s \<Longrightarrow> safe \<le> s"
  by (auto simp: SafeSeq_def stored_def offset_key_def dest!: row_of_Some intro!: min_seq_le)

lemma SafeSeq_none: "SafeSeq None ws db = Inr safe \<Longrightarrow> (\<forall>r\<in>set (offsets db). of_Workspace r \<noteq> ws_of ws) \<Longrightarrow> safe = 0"
  by (simp add: SafeSeq_def filter_False)

text \<open>What pruning removes.\<close>

lemma prune_rows:
  assumes "log_ok db" and "e \<in> set (log_rows db)"
    and "e \<notin> set (log_rows (snd (PruneEventLog serr derr ws before db)))"
  shows "le_Workspace e = ws_of ws \<and> le_CreatedAt e < before \<and>
    (\<forall>n s. stored n ws db = Some s \<longrightarrow> le_Seq e \<le> s)"
proof -
  obtain safe where safe: "SafeSeq serr ws db = Inr safe" and n: "serr = None"
    and e: "le_Workspace e = ws_of ws \<and> le_CreatedAt e < before \<and> le_Seq e \<le> safe"
    using assms(2,3)
    by (auto simp: PruneEventLog_def Let_def SafeSeq_def split: option.splits sum.splits)
  from SafeSeq_le_stored safe n e show ?thesis by fastforce
qed

lemma prune_subset: "set (log_rows (snd (PruneEventLog serr derr ws before db))) \<subseteq> set (log_rows db)"
  by (auto simp: PruneEventLog_def Let_def split: option.splits sum.splits)

text \<open>
  Publishing an event again is idempotent: the second append of an id answers the sequence
  number of the first and leaves the log as it was, whatever else was appended, recorded or read in
  between, as long as the event was not pruned.
\<close>

theorem append_idempotent:
  assumes "log_ok db" and "AppendLogEvent None None now e db = (Inr seq, db1)"
    and "set (log_rows db1) \<subseteq> set (log_rows db2)" and "log_ok db2" and "le_ID e' = le_ID e"
  shows "AppendLogEvent None None now' e' db2 = (Inr seq, db2)"
proof -
  obtain r where r: "r \<in> set (log_rows db1)" "le_ID r = le_ID e" "le_Seq r = seq"
  proof (cases "row_of le_ID (le_ID e) (log_rows db)")
    case None
    with assms(2) show thesis
      by (intro that [of "(event_stamped now e)\<lparr>le_Seq := log_next db\<rparr>"])
        (auto simp: AppendLogEvent_def event_stamped_def)
  next
    case (Some r)
    with assms(2) row_of_Some [OF Some] show thesis by (intro that [of r]) (auto simp: AppendLogEvent_def)
  qed
  with assms(3) have "r \<in> set (log_rows db2)" by auto
  from row_of_mem [OF log_okD(3) [OF assms(4)] this] r(2,3) assms(5) show ?thesis
    by (simp add: AppendLogEvent_def)
qed

definition demo_event :: "string \<Rightarrow> string \<Rightarrow> LogEvent" where
  "demo_event i k = \<lparr>le_Seq = 0, le_ID = i, le_Workspace = '''', le_Kind = k, le_AgentID = '''',
     le_Payload = [], le_Meta = [], le_CreatedAt = 0\<rparr>"

theorem append_idempotent_witness:
  "let db1 = snd (AppendLogEvent None None 5 (demo_event ''a'' ''k'') empty_log);
       db2 = snd (AppendLogEvent None None 6 (demo_event ''b'' ''k'') db1)
   in AppendLogEvent None None 7 (demo_event ''a'' ''other'') db2 = (Inr 1, db2)"
proof -
  let ?db1 = "snd (AppendLogEvent None None 5 (demo_event ''a'' ''k'') empty_log)"
  let ?db2 = "snd (AppendLogEvent None None 6 (demo_event ''b'' ''k'') ?db1)"
  have a: "AppendLogEvent None None 5 (demo_event ''a'' ''k'') empty_log = (Inr 1, ?db1)"
    by (simp add: AppendLogEvent_def empty_log_def row_of_def demo_event_def)
  have o2: "log_ok ?db2" by (intro append_ok log_ok_empty)
  have s: "set (log_rows ?db1) \<subseteq> set (log_rows ?db2)" by (auto simp: AppendLogEvent_def split: option.splits)
  have i: "le_ID (demo_event ''a'' ''other'') = le_ID (demo_event ''a'' ''k'')" by (simp add: demo_event_def)
  show ?thesis unfolding Let_def by (rule append_idempotent [OF log_ok_empty a s o2 i])
qed

end
