(* ===== verification/Bus.thy ===== *)
theory Bus
  imports Event_Log_Store
begin

text \<open>
  \<^verbatim>\<open>internal/bus/bus.go\<close>: the event log's publishers and durable subscribers. A \<open>Journal\<close> is
  the record of the storage operations the log calls, as the interface of that name is; the laws
  the log relies on are the locale \<open>durable_journal\<close>, and the store's operations satisfy them.

  A handler is code of the subscriber. One pass of \<open>consume\<close>'s loop is given an \<open>env\<close>: what the
  handler answers to each attempt (an error, or nothing; \<open>call\<close> turns a panic into an error), when
  the context is found cancelled, and what the driver answers. The waiting between passes, which a
  publish or the poll timer ends, takes no part in what is delivered.
\<close>

section \<open>Data\<close>

definition batchSize :: int where "batchSize = 128"
definition maxAttempts :: nat where "maxAttempts = 3"
definition idlePoll :: duration where "idlePoll = 5 * second"

definition backoff :: "nat \<Rightarrow> duration" where
  "backoff attempt = (if attempt = 1 then second else if attempt = 2 then 5 * second else 15 * second)"

record BusEvent =
  be_ID :: string
  be_Kind :: string
  be_AgentID :: string
  be_Timestamp :: gtime
  be_Payload :: "(string \<times> json) list"
  be_Meta :: "(string \<times> string) list"
  be_Seq :: int

definition eventFrom :: "LogEvent \<Rightarrow> BusEvent" where
  "eventFrom rec = \<lparr>be_ID = le_ID rec, be_Kind = le_Kind rec, be_AgentID = le_AgentID rec,
     be_Timestamp = le_CreatedAt rec, be_Payload = le_Payload rec, be_Meta = le_Meta rec,
     be_Seq = le_Seq rec\<rparr>"

record 'db Journal =
  j_Append :: "dberr \<Rightarrow> dberr \<Rightarrow> gtime \<Rightarrow> LogEvent \<Rightarrow> 'db \<Rightarrow> (string + int) \<times> 'db"
  j_After :: "dberr \<Rightarrow> string \<Rightarrow> int \<Rightarrow> string list \<Rightarrow> int \<Rightarrow> 'db \<Rightarrow> string + LogEvent list"
  j_Offset :: "dberr \<Rightarrow> string \<Rightarrow> string \<Rightarrow> 'db \<Rightarrow> string + int \<times> bool"
  j_Head :: "dberr \<Rightarrow> string \<Rightarrow> 'db \<Rightarrow> string + int"
  j_Set :: "dberr \<Rightarrow> gtime \<Rightarrow> string \<Rightarrow> string \<Rightarrow> int \<Rightarrow> 'db \<Rightarrow> dberr \<times> 'db"
  j_Dead :: "dberr \<Rightarrow> gtime \<Rightarrow> DeadLetter \<Rightarrow> 'db \<Rightarrow> dberr \<times> 'db"

definition store_journal :: "log_db Journal" where
  "store_journal = \<lparr>j_Append = AppendLogEvent, j_After = LogEventsAfter, j_Offset = ConsumerOffset,
     j_Head = LogHead, j_Set = SetConsumerOffset, j_Dead = RecordDeadLetter\<rparr>"

record env =
  en_now :: gtime
  en_read :: dberr \<comment> \<open>the answer to reading the batch\<close>
  en_call :: "BusEvent \<Rightarrow> nat \<Rightarrow> string option" \<comment> \<open>the handler's error on an attempt\<close>
  en_stop :: "BusEvent \<Rightarrow> nat \<Rightarrow> bool" \<comment> \<open>cancelled before an attempt\<close>
  en_stop_sleep :: "BusEvent \<Rightarrow> nat \<Rightarrow> bool" \<comment> \<open>cancelled while waiting after one\<close>
  en_set :: "int \<Rightarrow> dberr" \<comment> \<open>the answer to recording an offset\<close>
  en_dead :: "int \<Rightarrow> dberr" \<comment> \<open>the answer to recording a dead letter\<close>
  en_wait :: bool \<comment> \<open>cancelled while waiting for the next pass\<close>

section \<open>Publishing, and where a subscriber starts\<close>

text \<open>The id generated for an event without one is an argument.\<close>

definition Publish :: "'db Journal \<Rightarrow> dberr \<Rightarrow> dberr \<Rightarrow> gtime \<Rightarrow> string \<Rightarrow> string \<Rightarrow> BusEvent \<Rightarrow> 'db \<Rightarrow> string option \<times> 'db" where
  "Publish J ierr qerr now uuid ws e db =
     (case j_Append J ierr qerr now
        \<lparr>le_Seq = 0, le_ID = (if be_ID e = '''' then uuid else be_ID e), le_Workspace = ws,
          le_Kind = be_Kind e, le_AgentID = be_AgentID e, le_Payload = be_Payload e, le_Meta = be_Meta e,
          le_CreatedAt = (if be_Timestamp e = zero_time then now else be_Timestamp e)\<rparr> db of
        (Inl m, db') \<Rightarrow> (Some m, db') | (Inr _, db') \<Rightarrow> (None, db'))"

text \<open>\<open>None\<close>: the subscriber does not start.\<close>

definition startingPoint :: "'db Journal \<Rightarrow> dberr \<Rightarrow> dberr \<Rightarrow> dberr \<Rightarrow> gtime \<Rightarrow> string \<Rightarrow> string \<Rightarrow> 'db \<Rightarrow> int option \<times> 'db" where
  "startingPoint J oerr herr serr now ws name db =
     (case j_Offset J oerr name ws db of Inl _ \<Rightarrow> (None, db)
      | Inr (off, known) \<Rightarrow>
         (if known then (Some off, db)
          else case j_Head J herr ws db of Inl _ \<Rightarrow> (None, db)
             | Inr head \<Rightarrow> (Some head, snd (j_Set J serr now name ws head db))))"

section \<open>Delivering\<close>

datatype verdict = Handled | Cancelled | GaveUp string

fun attempts :: "env \<Rightarrow> BusEvent \<Rightarrow> string \<Rightarrow> nat list \<Rightarrow> verdict" where
  "attempts en e lastErr [] = GaveUp lastErr"
| "attempts en e lastErr (k # ks) =
     (if en_stop en e k then Cancelled
      else case en_call en e k of None \<Rightarrow> Handled
         | Some err \<Rightarrow> if k < maxAttempts \<and> en_stop_sleep en e k then Cancelled
                       else attempts en e err ks)"

definition dead_letter :: "string \<Rightarrow> LogEvent \<Rightarrow> string \<Rightarrow> DeadLetter" where
  "dead_letter name rec err = \<lparr>dl_ID = 0, dl_Subscriber = name, dl_EventSeq = le_Seq rec,
     dl_EventID = le_ID rec, dl_Kind = le_Kind rec, dl_Attempts = int maxAttempts,
     dl_LastError = err, dl_CreatedAt = 0\<rparr>"

definition deliver :: "'db Journal \<Rightarrow> env \<Rightarrow> string \<Rightarrow> LogEvent \<Rightarrow> 'db \<Rightarrow> bool \<times> 'db" where
  "deliver J en name rec db =
     (case attempts en (eventFrom rec) '''' [1..<maxAttempts + 1] of
        Handled \<Rightarrow> (True, db)
      | Cancelled \<Rightarrow> (False, db)
      | GaveUp err \<Rightarrow> (True, snd (j_Dead J (en_dead en (le_Seq rec)) (en_now en) (dead_letter name rec err) db)))"

text \<open>The loop over a batch: whether it was cancelled in it, the offset it ends with, and the events
  it delivered.\<close>

record 'db pass =
  ps_stopped :: bool
  ps_offset :: int
  ps_done :: "LogEvent list"
  ps_db :: 'db

fun deliver_batch :: "'db Journal \<Rightarrow> env \<Rightarrow> string \<Rightarrow> string \<Rightarrow> LogEvent list \<Rightarrow> int \<Rightarrow> 'db \<Rightarrow> 'db pass" where
  "deliver_batch J en ws name [] off db = \<lparr>ps_stopped = False, ps_offset = off, ps_done = [], ps_db = db\<rparr>"
| "deliver_batch J en ws name (rec # recs) off db =
     (case deliver J en name rec db of
        (False, db1) \<Rightarrow> \<lparr>ps_stopped = True, ps_offset = off, ps_done = [], ps_db = db1\<rparr>
      | (True, db1) \<Rightarrow>
          (let p = deliver_batch J en ws name recs (le_Seq rec)
                 (snd (j_Set J (en_set en (le_Seq rec)) (en_now en) name ws (le_Seq rec) db1))
           in p\<lparr>ps_done := rec # ps_done p\<rparr>))"

text \<open>One pass of \<open>consume\<close>'s loop.\<close>

definition consume_pass :: "'db Journal \<Rightarrow> env \<Rightarrow> string \<Rightarrow> string \<Rightarrow> string list \<Rightarrow> int \<Rightarrow> 'db \<Rightarrow> 'db pass" where
  "consume_pass J en ws name kinds off db =
     (case j_After J (en_read en) ws off kinds batchSize db of
        Inl _ \<Rightarrow> \<lparr>ps_stopped = en_wait en, ps_offset = off, ps_done = [], ps_db = db\<rparr>
      | Inr [] \<Rightarrow> \<lparr>ps_stopped = en_wait en, ps_offset = off, ps_done = [], ps_db = db\<rparr>
      | Inr (rec # recs) \<Rightarrow> deliver_batch J en ws name (rec # recs) off db)"

text \<open>The loop itself, for as many passes as there are environments.\<close>

fun consume :: "'db Journal \<Rightarrow> string \<Rightarrow> string \<Rightarrow> string list \<Rightarrow> env list \<Rightarrow> int \<Rightarrow> 'db \<Rightarrow> 'db pass" where
  "consume J ws name kinds [] off db = \<lparr>ps_stopped = False, ps_offset = off, ps_done = [], ps_db = db\<rparr>"
| "consume J ws name kinds (en # ens) off db =
     (let p = consume_pass J en ws name kinds off db
      in if ps_stopped p then p
         else let q = consume J ws name kinds ens (ps_offset p) (ps_db p)
              in q\<lparr>ps_done := ps_done p @ ps_done q\<rparr>)"

section \<open>What an attempt comes to\<close>

lemma attempts_three: "[1..<maxAttempts + 1] = [1, 2, 3]"
  by (simp add: maxAttempts_def upt_rec)

text \<open>
  An event is given up on exactly when the handler failed on each of the three attempts and the
  subscriber was not cancelled meanwhile; what is recorded is the third error. It is acknowledged
  exactly when some attempt succeeded or it was given up on.
\<close>

theorem gives_up_after_three:
  "attempts en e '''' [1..<maxAttempts + 1] = GaveUp err \<longleftrightarrow>
     \<not> en_stop en e 1 \<and> \<not> en_stop en e 2 \<and> \<not> en_stop en e 3
     \<and> en_call en e 1 \<noteq> None \<and> en_call en e 2 \<noteq> None \<and> en_call en e 3 = Some err
     \<and> \<not> en_stop_sleep en e 1 \<and> \<not> en_stop_sleep en e 2"
  unfolding attempts_three by (auto simp: maxAttempts_def split: option.splits)

lemma deliver_ack:
  "fst (deliver J en name rec db) \<longleftrightarrow> attempts en (eventFrom rec) '''' [1..<maxAttempts + 1] \<noteq> Cancelled"
  by (simp add: deliver_def split: verdict.split)

text \<open>A pass in which the context is not cancelled and the log can be read.\<close>

definition calm :: "env \<Rightarrow> bool" where
  "calm en \<longleftrightarrow> en_read en = None \<and> (\<forall>e k. \<not> en_stop en e k \<and> \<not> en_stop_sleep en e k) \<and> \<not> en_wait en"

lemma calm_attempts: "calm en \<Longrightarrow> attempts en e err ks \<noteq> Cancelled"
  by (induction ks arbitrary: err) (auto simp: calm_def split: option.splits)

section \<open>What the log relies on\<close>

text \<open>The laws of a journal, for one workspace: a batch is the first so many events past the offset, in
  order of their sequence numbers; recording an offset or a dead letter changes no event; an
  offset recorded is the larger of the old and the new one, and a failed write changes nothing.\<close>

locale durable_journal =
  fixes J :: "'db Journal" and ws :: string
    and ok :: "'db \<Rightarrow> bool" and events :: "'db \<Rightarrow> LogEvent list" and offset :: "string \<Rightarrow> 'db \<Rightarrow> int option"
  assumes after: "ok db \<Longrightarrow> 0 < n \<Longrightarrow> j_After J None ws a kinds n db =
      Inr (take (nat n) (filter (past_seq ws a kinds) (events db)))"
    and read_failed: "\<exists>x. j_After J (Some txt) wx a kinds n db = Inl x"
    and in_order: "ok db \<Longrightarrow> sorted_wrt (<) (map le_Seq (events db))"
    and set_events: "events (snd (j_Set J err now name ws seq db)) = events db"
    and set_ok: "ok db \<Longrightarrow> ok (snd (j_Set J err now name ws seq db))"
    and set_offset: "offset m (snd (j_Set J None now name ws seq db)) =
      (if m = name then Some (case offset m db of None \<Rightarrow> seq | Some s \<Rightarrow> max s seq) else offset m db)"
    and set_failed: "snd (j_Set J (Some txt) now name ws seq db) = db"
    and dead_frame: "events (snd (j_Dead J err now d db)) = events db"
      "ok db \<Longrightarrow> ok (snd (j_Dead J err now d db))" "offset m (snd (j_Dead J err now d db)) = offset m db"
begin

lemma deliver_frame:
  "events (snd (deliver J en name rec db)) = events db" "ok db \<Longrightarrow> ok (snd (deliver J en name rec db))"
  "offset n (snd (deliver J en name rec db)) = offset n db"
  by (simp_all add: deliver_def dead_frame split: verdict.split)

lemma batch_frame:
  "ps_db (deliver_batch J en ws name recs off db) = db' \<Longrightarrow>
   events db' = events db \<and> (ok db \<longrightarrow> ok db') \<and> (\<forall>n. n \<noteq> name \<longrightarrow> offset n db' = offset n db)"
proof (induction recs arbitrary: off db)
  case (Cons rec recs)
  let ?db1 = "snd (deliver J en name rec db)"
  let ?set = "j_Set J (en_set en (le_Seq rec)) (en_now en) name ws (le_Seq rec) ?db1"
  have other: "n \<noteq> name \<Longrightarrow> offset n (snd ?set) = offset n ?db1" for n
    by (cases "en_set en (le_Seq rec)") (simp_all add: set_offset set_failed)
  show ?case
  proof (cases "fst (deliver J en name rec db)")
    case True
    with Cons.prems have "ps_db (deliver_batch J en ws name recs (le_Seq rec) (snd ?set)) = db'"
      by (simp add: split_beta Let_def split: bool.split)
    from Cons.IH [OF this] show ?thesis by (simp add: set_events set_ok deliver_frame other)
  next
    case False
    with Cons.prems have "db' = ?db1" by (simp add: split_beta split: bool.split)
    then show ?thesis by (simp add: deliver_frame)
  qed
qed simp

text \<open>A pass delivers a prefix of the batch, all of it unless cancelled, and its offset is the last
  one delivered; every event it delivered was acknowledged.\<close>

lemma batch_delivers:
  "p = deliver_batch J en ws name recs off db \<Longrightarrow>
   \<exists>rest. recs = ps_done p @ rest \<and> (\<not> ps_stopped p \<longrightarrow> rest = [])
     \<and> ps_offset p = (if ps_done p = [] then off else le_Seq (last (ps_done p)))
     \<and> (\<forall>rec\<in>set (ps_done p). attempts en (eventFrom rec) '''' [1..<maxAttempts + 1] \<noteq> Cancelled)"
proof (induction recs arbitrary: off db p)
  case (Cons rec recs)
  show ?case
  proof (cases "fst (deliver J en name rec db)")
    case True
    let ?db2 = "snd (j_Set J (en_set en (le_Seq rec)) (en_now en) name ws (le_Seq rec) (snd (deliver J en name rec db)))"
    let ?q = "deliver_batch J en ws name recs (le_Seq rec) ?db2"
    have p: "p = ?q\<lparr>ps_done := rec # ps_done ?q\<rparr>"
      using Cons.prems True by (simp add: split_beta Let_def split: bool.split)
    from Cons.IH [OF refl, of "le_Seq rec" ?db2] deliver_ack [of J en name rec db] True show ?thesis
      by (auto simp: p)
  next
    case False
    with Cons.prems show ?thesis by (auto simp: split_beta split: bool.split)
  qed
qed simp

lemma batch_offset:
  "ok db \<Longrightarrow> offset name db = Some s \<Longrightarrow> s \<le> off \<Longrightarrow> sorted_wrt (<) (off # map le_Seq recs) \<Longrightarrow>
   p = deliver_batch J en ws name recs off db \<Longrightarrow>
   \<exists>s'. offset name (ps_db p) = Some s' \<and> s \<le> s' \<and> s' \<le> ps_offset p \<and> off \<le> ps_offset p"
proof (induction recs arbitrary: off db p s)
  case (Cons rec recs)
  let ?db1 = "snd (deliver J en name rec db)"
  let ?db2 = "snd (j_Set J (en_set en (le_Seq rec)) (en_now en) name ws (le_Seq rec) ?db1)"
  show ?case
  proof (cases "fst (deliver J en name rec db)")
    case True
    obtain s2 where s2: "offset name ?db2 = Some s2" "s \<le> s2" "s2 \<le> le_Seq rec"
      using Cons.prems(2-4)
      by (cases "en_set en (le_Seq rec)") (auto simp: set_offset set_failed deliver_frame)
    have "ok ?db2" using Cons.prems(1) by (simp add: set_ok deliver_frame)
    from Cons.IH [OF this s2(1,3) _ refl] Cons.prems(4,5) True s2(2) show ?thesis
      by (fastforce simp: split_beta Let_def split: bool.split)
  next
    case False
    with Cons.prems show ?thesis by (auto simp: split_beta deliver_frame split: bool.split)
  qed
qed auto

definition pending :: "'db \<Rightarrow> int \<Rightarrow> string list \<Rightarrow> LogEvent list" where
  "pending db off kinds = filter (past_seq ws off kinds) (events db)"

lemma pending_sorted: "ok db \<Longrightarrow> sorted_wrt (<) (off # map le_Seq (pending db off kinds))"
proof -
  have "sorted_wrt (<) (map le_Seq xs) \<Longrightarrow> sorted_wrt (<) (off # map le_Seq (filter (past_seq ws off kinds) xs))" for xs
    by (induction xs) (auto simp: past_seq_def)
  moreover assume "ok db"
  ultimately show ?thesis using in_order [of db] unfolding pending_def by blast
qed

lemma pass_cases:
  assumes "ok db" and "p = consume_pass J en ws name kinds off db"
  obtains (idle) "p = \<lparr>ps_stopped = en_wait en, ps_offset = off, ps_done = [], ps_db = db\<rparr>"
      "en_read en \<noteq> None \<or> pending db off kinds = []"
  | (batch) "en_read en = None" "pending db off kinds \<noteq> []"
      "p = deliver_batch J en ws name (take 128 (pending db off kinds)) off db"
proof (cases "en_read en")
  case None
  have a: "j_After J None ws off kinds batchSize db = Inr (take 128 (pending db off kinds))"
    using after [OF assms(1), of batchSize off kinds] by (simp add: batchSize_def pending_def)
  show thesis
  proof (cases "take 128 (pending db off kinds)")
    case Nil
    with None a assms(2) show thesis by (intro idle) (auto simp: consume_pass_def)
  next
    case (Cons rec recs)
    with None a assms(2) show thesis by (intro batch) (auto simp: consume_pass_def)
  qed
next
  case (Some m)
  show thesis
  proof (cases "j_After J (Some m) ws off kinds batchSize db")
    case (Inl x)
    with Some assms(2) show thesis by (intro idle) (auto simp: consume_pass_def)
  next
    case (Inr recs)
    with read_failed [of m ws off kinds batchSize db] show thesis by simp
  qed
qed

lemma pass_frame:
  assumes "ok db" and "p = consume_pass J en ws name kinds off db"
  shows "events (ps_db p) = events db" "ok (ps_db p)" "n \<noteq> name \<Longrightarrow> offset n (ps_db p) = offset n db"
  using pass_cases [OF assms] batch_frame [OF refl, of en name "take 128 (pending db off kinds)" off db] assms(1)
  by (metis pass.select_convs(4))+

text \<open>A pass delivers, in order, the first of what is pending, and all of it that its offset passes.\<close>

lemma pass_delivers:
  assumes "ok db" and "p = consume_pass J en ws name kinds off db"
  obtains rest where "pending db off kinds = ps_done p @ rest"
    and "\<forall>rec\<in>set rest. ps_offset p < le_Seq rec" and "\<forall>rec\<in>set (ps_done p). le_Seq rec \<le> ps_offset p"
    and "ps_offset p = off \<or> (\<exists>rec\<in>set (pending db off kinds). ps_offset p = le_Seq rec)"
proof (cases rule: pass_cases [OF assms])
  case 1
  then show thesis using pending_sorted [OF assms(1), of off kinds]
    by (intro that [of "pending db off kinds"]) auto
next
  case 2
  let ?pend = "pending db off kinds"
  from batch_delivers [OF 2(3)] obtain r where r: "take 128 ?pend = ps_done p @ r"
    "ps_offset p = (if ps_done p = [] then off else le_Seq (last (ps_done p)))" by blast
  then have eq: "?pend = ps_done p @ r @ drop 128 ?pend" by (metis append.assoc append_take_drop_id)
  have s: "sorted_wrt (<) (off # map le_Seq (ps_done p @ (r @ drop 128 ?pend)))"
    using pending_sorted [OF assms(1), of off kinds] eq by simp
  show thesis
  proof (cases "ps_done p" rule: rev_cases)
    case Nil
    from s have "\<forall>rec\<in>set (r @ drop 128 ?pend). off < le_Seq rec" by (auto simp: Nil)
    with Nil r(2) eq show thesis by (intro that [of "r @ drop 128 ?pend"]) simp_all
  next
    case (snoc xs x)
    have le: "\<forall>rec\<in>set (ps_done p). le_Seq rec \<le> ps_offset p"
      and gt: "\<forall>rec\<in>set (r @ drop 128 ?pend). ps_offset p < le_Seq rec"
      using s r(2) by (auto simp: snoc sorted_wrt_append)
    have "x \<in> set ?pend" using eq snoc by (metis in_set_conv_decomp append.assoc append_Cons)
    moreover have "ps_offset p = le_Seq x" using r(2) snoc by simp
    ultimately show thesis using eq le gt by (intro that [of "r @ drop 128 ?pend"]) auto
  qed
qed

lemma pass_offset:
  assumes "ok db" and "p = consume_pass J en ws name kinds off db" and "offset name db = Some s" and "s \<le> off"
  shows "\<exists>s'. offset name (ps_db p) = Some s' \<and> s \<le> s' \<and> s' \<le> ps_offset p \<and> off \<le> ps_offset p"
proof (cases rule: pass_cases [OF assms(1,2)])
  case 1
  with assms(3,4) show ?thesis by simp
next
  case 2
  have "sorted_wrt (<) (off # map le_Seq (take 128 (pending db off kinds)))"
    using sorted_wrt_take [OF pending_sorted [OF assms(1), of off kinds], of 129] by (simp add: take_map)
  from batch_offset [OF assms(1,3,4) this 2(3)] show ?thesis .
qed

text \<open>A subscriber that has no recorded offset records one no further than it read.\<close>

lemma batch_offset_new:
  "ok db \<Longrightarrow> offset name db = None \<Longrightarrow> sorted_wrt (<) (off # map le_Seq recs) \<Longrightarrow>
   p = deliver_batch J en ws name recs off db \<Longrightarrow>
   off \<le> ps_offset p \<and> (\<forall>s'. offset name (ps_db p) = Some s' \<longrightarrow> s' \<le> ps_offset p)"
proof (induction recs arbitrary: off db p)
  case (Cons rec recs)
  let ?db1 = "snd (deliver J en name rec db)"
  let ?db2 = "snd (j_Set J (en_set en (le_Seq rec)) (en_now en) name ws (le_Seq rec) ?db1)"
  let ?q = "deliver_batch J en ws name recs (le_Seq rec) ?db2"
  have ok2: "ok ?db2" using Cons.prems(1) by (simp add: set_ok deliver_frame)
  have sorted: "sorted_wrt (<) (le_Seq rec # map le_Seq recs)" and up: "off < le_Seq rec" using Cons.prems(3) by simp_all
  show ?case
  proof (cases "fst (deliver J en name rec db)")
    case True
    have p: "ps_offset p = ps_offset ?q" "ps_db p = ps_db ?q"
      using Cons.prems(4) True by (simp_all add: split_beta Let_def split: bool.split)
    show ?thesis
    proof (cases "en_set en (le_Seq rec)")
      case None
      then have "offset name ?db2 = Some (le_Seq rec)" using Cons.prems(2) by (simp add: set_offset deliver_frame)
      from batch_offset [OF ok2 this order_refl sorted refl, where en = en] p up show ?thesis by auto
    next
      case (Some m)
      then have "offset name ?db2 = None" using Cons.prems(2) by (simp add: set_failed deliver_frame)
      from Cons.IH [OF ok2 this sorted refl] p up show ?thesis by auto
    qed
  next
    case False
    with Cons.prems show ?thesis by (auto simp: split_beta deliver_frame split: bool.split)
  qed
qed auto

lemma pass_offset_new:
  assumes "ok db" and "p = consume_pass J en ws name kinds off db" and "offset name db = None" and "offset name (ps_db p) = Some s'"
  shows "s' \<le> ps_offset p"
proof (cases rule: pass_cases [OF assms(1,2)])
  case 1
  with assms(3,4) show ?thesis by simp
next
  case 2
  have "sorted_wrt (<) (off # map le_Seq (take 128 (pending db off kinds)))"
    using sorted_wrt_take [OF pending_sorted [OF assms(1), of off kinds], of 129] by (simp add: take_map)
  from batch_offset_new [OF assms(1,3) this 2(3)] assms(4) show ?thesis by simp
qed

lemma pass_rest:
  assumes "ok db" and "p = consume_pass J en ws name kinds off db"
  shows "pending db off kinds = ps_done p @ pending (ps_db p) (ps_offset p) kinds"
proof -
  obtain rest where r: "pending db off kinds = ps_done p @ rest"
    "\<forall>rec\<in>set rest. ps_offset p < le_Seq rec" "\<forall>rec\<in>set (ps_done p). le_Seq rec \<le> ps_offset p"
    "ps_offset p = off \<or> (\<exists>rec\<in>set (pending db off kinds). ps_offset p = le_Seq rec)"
    using pass_delivers [OF assms] .
  have "off \<le> ps_offset p" using r(4) by (auto simp: pending_def past_seq_def)
  then have "filter (past_seq ws (ps_offset p) kinds) (events db)
      = filter (\<lambda>e. ps_offset p < le_Seq e) (pending db off kinds)"
    by (auto simp: pending_def past_seq_def intro: filter_cong)
  also have "\<dots> = rest" using r(2,3) by (auto simp: r(1) filter_empty_conv intro: filter_True)
  finally have "pending (ps_db p) (ps_offset p) kinds = rest"
    by (simp add: pending_def pass_frame [OF assms])
  with r(1) show ?thesis by simp
qed

lemma batch_calm:
  "calm en \<Longrightarrow> \<not> ps_stopped (deliver_batch J en ws name recs off db)"
proof (induction recs arbitrary: off db)
  case (Cons rec recs)
  have "fst (deliver J en name rec db)" using calm_attempts [OF Cons.prems] by (simp add: deliver_ack)
  with Cons show ?case by (simp add: split_beta Let_def split: bool.split)
qed simp

lemma pass_calm:
  assumes "ok db" and "p = consume_pass J en ws name kinds off db" and "calm en"
  shows "\<not> ps_stopped p \<and> ps_done p = take 128 (pending db off kinds)"
proof (cases rule: pass_cases [OF assms(1,2)])
  case 1
  with assms(3) show ?thesis by (auto simp: calm_def)
next
  case 2
  have n: "\<not> ps_stopped p" using batch_calm [OF assms(3)] 2(3) by simp
  with batch_delivers [OF 2(3)] show ?thesis by auto
qed

lemma consume_drains:
  "ok db \<Longrightarrow> \<forall>en\<in>set ens. calm en \<Longrightarrow> q = consume J ws name kinds ens off db \<Longrightarrow>
   \<not> ps_stopped q \<and> ps_done q = take (128 * length ens) (pending db off kinds)"
proof (induction ens arbitrary: off db q)
  case (Cons en ens)
  let ?p = "consume_pass J en ws name kinds off db"
  have c: "calm en" using Cons.prems(2) by simp
  note pc = pass_calm [OF Cons.prems(1) refl c, of name kinds off]
  have rest: "pending (ps_db ?p) (ps_offset ?p) kinds = drop 128 (pending db off kinds)"
    using pass_rest [OF Cons.prems(1) refl, of off kinds en name] pc by (metis append_eq_conv_conj append_take_drop_id same_append_eq)
  have ok: "ok (ps_db ?p)" using pass_frame(2) [OF Cons.prems(1) refl] .
  from Cons.IH [OF ok _ refl, of "ps_offset ?p"] Cons.prems(2,3) pc rest show ?case
    by (simp add: Let_def take_add)
qed simp

end

section \<open>The store is such a journal\<close>

interpretation store_log: durable_journal store_journal ws log_ok log_rows "\<lambda>n db. stored n ws db" for ws
proof
  fix db a kinds and n :: int
  assume "log_ok db" "0 < n"
  then show "j_After store_journal None ws a kinds n db =
      Inr (take (nat n) (filter (past_seq ws a kinds) (log_rows db)))"
    by (simp add: store_journal_def LogEventsAfter_ok limit_or_def)
qed (auto simp: store_journal_def log_ok_def LogEventsAfter_def stored_SetConsumerOffset)

end
