(* ===== verification/Bus_Delivery.thy ===== *)
theory Bus_Delivery
  imports Bus
begin

text \<open>
  The event log as a whole: publishers, subscribers that start, read, stop and crash in any order,
  and pruning, as a step relation on the journal and the offsets the running subscribers hold in memory.
  What was ever appended, and what each subscriber was done with (handled, or given up on), are
  kept beside it as history. The theorems: nothing is lost, nothing unread is pruned, an offset
  never goes back, a subscriber that keeps running reads everything, in order.
\<close>

section \<open>Steps\<close>

record bus_world =
  bw_db :: log_db
  bw_run :: "string \<Rightarrow> int option" \<comment> \<open>the offset of a running subscriber\<close>
  bw_all :: "LogEvent set" \<comment> \<open>every event ever appended\<close>
  bw_from :: "string \<Rightarrow> int" \<comment> \<open>the last event appended when the subscriber's offset was first recorded\<close>
  bw_done :: "(string \<times> int) set" \<comment> \<open>who was done with which event\<close>

definition bus_init :: bus_world where
  "bus_init = \<lparr>bw_db = empty_log, bw_run = (\<lambda>_. None), bw_all = {}, bw_from = (\<lambda>_. 0), bw_done = {}\<rparr>"

text \<open>\<open>K\<close> is the kinds each subscriber asks for. A registration records the subscriber's offset; when that write fails
  the subscriber runs all the same, and its offset is first recorded by a pass of its own.\<close>

definition recorded :: "string \<Rightarrow> string \<Rightarrow> log_db \<Rightarrow> log_db \<Rightarrow> (string \<Rightarrow> int) \<Rightarrow> string \<Rightarrow> int" where
  "recorded ws name db db' from = (if stored name ws db = None \<and> stored name ws db' \<noteq> None then from(name := log_next db - 1) else from)"

inductive bus_step :: "string \<Rightarrow> (string \<Rightarrow> string list) \<Rightarrow> bus_world \<Rightarrow> bus_world \<Rightarrow> bool"
  for ws :: string and K :: "string \<Rightarrow> string list" where
  publish: "Publish store_journal ierr qerr now uuid ws e (bw_db w) = (r, db) \<Longrightarrow>
     bus_step ws K w (w\<lparr>bw_db := db, bw_all := bw_all w \<union> set (log_rows db)\<rparr>)"
| subscribe: "bw_run w name = None \<Longrightarrow>
     startingPoint store_journal oerr herr serr now ws name (bw_db w) = (Some off, db) \<Longrightarrow>
     bus_step ws K w (w\<lparr>bw_db := db, bw_run := (bw_run w)(name := Some off), bw_from := recorded ws name (bw_db w) db (bw_from w)\<rparr>)"
| read: "bw_run w name = Some off \<Longrightarrow>
     p = consume_pass store_journal en ws name (K name) off (bw_db w) \<Longrightarrow>
     bus_step ws K w (w\<lparr>bw_db := ps_db p,
       bw_run := (bw_run w)(name := if ps_stopped p then None else Some (ps_offset p)),
       bw_from := recorded ws name (bw_db w) (ps_db p) (bw_from w),
       bw_done := bw_done w \<union> (\<lambda>e. (name, le_Seq e)) ` set (ps_done p)\<rparr>)"
| crash: "bus_step ws K w (w\<lparr>bw_run := \<lambda>_. None\<rparr>)"
| prune: "PruneEventLog serr derr ws before (bw_db w) = (r, db) \<Longrightarrow>
     bus_step ws K w (w\<lparr>bw_db := db\<rparr>)"

inductive bus_reachable :: "string \<Rightarrow> (string \<Rightarrow> string list) \<Rightarrow> bus_world \<Rightarrow> bool"
  for ws :: string and K :: "string \<Rightarrow> string list" where
  init: "bus_reachable ws K bus_init"
| step: "bus_reachable ws K w \<Longrightarrow> bus_step ws K w w' \<Longrightarrow> bus_reachable ws K w'"

section \<open>The invariant\<close>

definition wanted :: "(string \<Rightarrow> string list) \<Rightarrow> bus_world \<Rightarrow> string \<Rightarrow> LogEvent \<Rightarrow> bool" where
  "wanted K w name e \<longleftrightarrow> e \<in> bw_all w \<and> kind_in (K name) (le_Kind e) \<and> bw_from w name < le_Seq e"

definition read_upto :: "(string \<Rightarrow> string list) \<Rightarrow> bus_world \<Rightarrow> string \<Rightarrow> int \<Rightarrow> bool" where
  "read_upto K w name s \<longleftrightarrow> (\<forall>e. wanted K w name e \<and> le_Seq e \<le> s \<longrightarrow> (name, le_Seq e) \<in> bw_done w)"

definition pruned_upto :: "bus_world \<Rightarrow> string \<Rightarrow> int \<Rightarrow> bool" where
  "pruned_upto w name s \<longleftrightarrow>
     (\<forall>e\<in>bw_all w. bw_from w name < le_Seq e \<and> e \<notin> set (log_rows (bw_db w)) \<longrightarrow> le_Seq e \<le> s)"

definition history_ok :: "string \<Rightarrow> bus_world \<Rightarrow> bool" where
  "history_ok ws w \<longleftrightarrow> log_ok (bw_db w) \<and> set (log_rows (bw_db w)) \<subseteq> bw_all w
     \<and> (\<forall>e\<in>bw_all w. le_Workspace e = ws_of ws \<and> le_Seq e < log_next (bw_db w))"

definition offsets_ok :: "string \<Rightarrow> (string \<Rightarrow> string list) \<Rightarrow> bus_world \<Rightarrow> bool" where
  "offsets_ok ws K w \<longleftrightarrow>
     (\<forall>name s. stored name ws (bw_db w) = Some s \<longrightarrow>
        s < log_next (bw_db w) \<and> read_upto K w name s \<and> pruned_upto w name s)
     \<and> (\<forall>name off. bw_run w name = Some off \<longrightarrow> off < log_next (bw_db w) \<and>
        (\<forall>s. stored name ws (bw_db w) = Some s \<longrightarrow> read_upto K w name off \<and> s \<le> off))"

definition bus_inv :: "string \<Rightarrow> (string \<Rightarrow> string list) \<Rightarrow> bus_world \<Rightarrow> bool" where
  "bus_inv ws K w \<longleftrightarrow> history_ok ws w \<and> offsets_ok ws K w"

lemma offsets_okD:
  assumes "offsets_ok ws K w"
  shows "stored name ws (bw_db w) = Some s \<Longrightarrow>
      s < log_next (bw_db w) \<and> read_upto K w name s \<and> pruned_upto w name s"
    and "bw_run w name = Some off \<Longrightarrow> off < log_next (bw_db w)"
    and "bw_run w name = Some off \<Longrightarrow> stored name ws (bw_db w) = Some s \<Longrightarrow> read_upto K w name off \<and> s \<le> off"
  using assms unfolding offsets_ok_def by blast+

lemma bus_inv_init: "bus_inv ws K bus_init"
  by (simp add: bus_inv_def history_ok_def offsets_ok_def bus_init_def log_ok_empty, simp add: empty_log_def)

text \<open>A step that appends at most one event, of the next sequence number, and touches no offset.\<close>

lemma append_shape:
  assumes "AppendLogEvent ierr qerr now e db = (r, db')"
  shows "db' = db \<or> (\<exists>x. le_Seq x = log_next db \<and> le_Workspace x = ws_of (le_Workspace e)
    \<and> db' = db\<lparr>log_rows := log_rows db @ [x], log_next := log_next db + 1\<rparr>)"
proof (cases "ierr = None \<and> row_of le_ID (le_ID e) (log_rows db) = None")
  case True
  with assms show ?thesis
    by (intro disjI2 exI [of _ "(event_stamped now e)\<lparr>le_Seq := log_next db\<rparr>"])
      (simp add: AppendLogEvent_def, simp add: event_stamped_def)
next
  case False
  with assms show ?thesis by (intro disjI1) (auto simp: AppendLogEvent_def split: option.splits)
qed

lemma publish_shape:
  assumes "Publish store_journal ierr qerr now uuid ws e db = (r, db')"
  shows "db' = db \<or> (\<exists>x. le_Seq x = log_next db \<and> le_Workspace x = ws_of ws
    \<and> db' = db\<lparr>log_rows := log_rows db @ [x], log_next := log_next db + 1\<rparr>)"
  using assms append_shape
  by (fastforce simp: Publish_def store_journal_def split: prod.splits sum.splits)

lemma publish_keeps:
  assumes inv: "bus_inv ws K w" and pub: "Publish store_journal ierr qerr now uuid ws e (bw_db w) = (r, db)"
  shows "bus_inv ws K (w\<lparr>bw_db := db, bw_all := bw_all w \<union> set (log_rows db)\<rparr>)"
proof -
  have hist: "history_ok ws w" and offs: "offsets_ok ws K w" using inv by (auto simp: bus_inv_def)
  from publish_shape [OF pub] show ?thesis
  proof
    assume "db = bw_db w"
    moreover have "bw_all w \<union> set (log_rows (bw_db w)) = bw_all w" using hist by (auto simp: history_ok_def)
    ultimately show ?thesis using inv by simp
  next
    assume "\<exists>x. le_Seq x = log_next (bw_db w) \<and> le_Workspace x = ws_of ws
      \<and> db = (bw_db w)\<lparr>log_rows := log_rows (bw_db w) @ [x], log_next := log_next (bw_db w) + 1\<rparr>"
    then obtain x where x: "le_Seq x = log_next (bw_db w)" "le_Workspace x = ws_of ws"
      and db: "db = (bw_db w)\<lparr>log_rows := log_rows (bw_db w) @ [x], log_next := log_next (bw_db w) + 1\<rparr>" by blast
    have ok: "log_ok db"
      using append_ok [of "bw_db w"] hist pub
      by (auto simp: Publish_def store_journal_def history_ok_def split: prod.splits sum.splits)
        (metis append_ok snd_conv)+
    let ?w = "w\<lparr>bw_db := db, bw_all := bw_all w \<union> set (log_rows db)\<rparr>"
    have all: "bw_all ?w = insert x (bw_all w)" using hist by (auto simp: db history_ok_def)
    have st: "stored n ws (bw_db ?w) = stored n ws (bw_db w)" for n by (simp add: stored_def db)
    have "history_ok ws ?w" unfolding history_ok_def all using hist ok x by (auto simp: history_ok_def db)
    moreover have "read_upto K w n s \<Longrightarrow> s < log_next (bw_db w) \<Longrightarrow> read_upto K ?w n s" for n s
      unfolding read_upto_def wanted_def all using x(1) by auto
    moreover have "pruned_upto w n s \<Longrightarrow> pruned_upto ?w n s" for n s
      unfolding pruned_upto_def all by (auto simp: db)
    ultimately show ?thesis using offs unfolding bus_inv_def offsets_ok_def st by (fastforce simp: db)
  qed
qed

lemma subscribe_keeps:
  assumes inv: "bus_inv ws K w" and idle: "bw_run w name = None"
    and start: "startingPoint store_journal oerr herr serr now ws name (bw_db w) = (Some off, db)"
  shows "bus_inv ws K (w\<lparr>bw_db := db, bw_run := (bw_run w)(name := Some off), bw_from := recorded ws name (bw_db w) db (bw_from w)\<rparr>)"
    (is "bus_inv ws K ?w")
proof -
  have hist: "history_ok ws w" and offs: "offsets_ok ws K w" using inv by (auto simp: bus_inv_def)
  note od = offsets_okD [OF offs]
  show ?thesis
  proof (cases "stored name ws (bw_db w)")
    case (Some s)
    with start have db: "db = bw_db w" "off = s"
      by (auto simp: startingPoint_def store_journal_def ConsumerOffset_def split: option.splits)
    have eq: "read_upto K ?w n x = read_upto K w n x" "pruned_upto ?w n x = pruned_upto w n x" for n x
      using Some db by (simp_all add: read_upto_def wanted_def pruned_upto_def recorded_def)
    show ?thesis
      unfolding bus_inv_def offsets_ok_def eq using hist od Some db by (auto simp: history_ok_def)
  next
    case None
    let ?head = "max_seq (map le_Seq (filter (\<lambda>e. le_Workspace e = ws_of ws) (log_rows (bw_db w))))"
    have db0: "db = snd (SetConsumerOffset serr now name ws off (bw_db w))" and off: "off = ?head"
      using start None
      by (auto simp: startingPoint_def store_journal_def ConsumerOffset_def LogHead_def split: option.splits)
    have ok: "log_ok (bw_db w)" using hist by (simp add: history_ok_def)
    have head: "off < log_next (bw_db w)"
      using max_seq_in [of "map le_Seq (filter (\<lambda>e. le_Workspace e = ws_of ws) (log_rows (bw_db w)))"] ok
      by (auto simp: off log_ok_def)
    show ?thesis
    proof (cases serr)
      case (Some m)
      then have same: "db = bw_db w" by (simp add: db0 SetConsumerOffset_def)
      have eq: "read_upto K ?w n x = read_upto K w n x" "pruned_upto ?w n x = pruned_upto w n x" for n x
        using same None by (simp_all add: read_upto_def wanted_def pruned_upto_def recorded_def)
      show ?thesis
        unfolding bus_inv_def offsets_ok_def eq using hist od None same head by (auto simp: history_ok_def)
    next
      case wrote: None
    have db: "db = snd (SetConsumerOffset None now name ws off (bw_db w))" using db0 wrote by simp
    have w_from: "bw_from ?w = (bw_from w)(name := log_next (bw_db w) - 1)"
      using None by (simp add: recorded_def db stored_SetConsumerOffset)
    have none: "\<not> wanted K ?w name e" if "e \<in> bw_all w" for e
      using hist that by (auto simp: wanted_def w_from history_ok_def)
    have eq: "read_upto K ?w n x = read_upto K w n x" "pruned_upto ?w n x = pruned_upto w n x" if "n \<noteq> name" for n x
      using that by (simp_all add: read_upto_def wanted_def pruned_upto_def w_from) (simp_all add: db)
    have mine: "read_upto K ?w name x" "pruned_upto ?w name x" for x
      using none hist by (auto simp: read_upto_def wanted_def pruned_upto_def w_from history_ok_def)
    have st: "stored n ws db = (if n = name then Some off else stored n ws (bw_db w))" for n
      using None by (simp add: db stored_SetConsumerOffset)
    have sw: "stored n ws (bw_db ?w) = (if n = name then Some off else stored n ws (bw_db w))"
      and rw: "bw_run ?w n = (if n = name then Some off else bw_run w n)"
      and nw: "log_next (bw_db ?w) = log_next (bw_db w)" for n
      by (simp_all add: st) (simp add: db)
    have "history_ok ws ?w" using hist by (simp add: history_ok_def db log_ok_def)
    moreover have "offsets_ok ws K ?w"
      unfolding offsets_ok_def nw
    proof (intro conjI allI impI)
      fix n s assume s: "stored n ws (bw_db ?w) = Some s"
      have "s < log_next (bw_db w) \<and> read_upto K ?w n s \<and> pruned_upto ?w n s"
      proof (cases "n = name")
        case True
        with s head mine show ?thesis unfolding sw by simp
      next
        case False
        with s od(1) [of n s] eq [OF False] show ?thesis unfolding sw by simp
      qed
      then show "s < log_next (bw_db w)" "read_upto K ?w n s" "pruned_upto ?w n s" by blast+
    next
      fix n x assume x: "bw_run ?w n = Some x"
      have "x < log_next (bw_db w) \<and> (\<forall>s. stored n ws (bw_db ?w) = Some s \<longrightarrow> read_upto K ?w n x \<and> s \<le> x)"
      proof (cases "n = name")
        case True
        with x head mine show ?thesis unfolding sw rw by simp
      next
        case False
        with x od(2,3) [of n x] eq [OF False] show ?thesis unfolding sw rw by simp
      qed
      then show "x < log_next (bw_db w)" "\<And>s. stored n ws (bw_db ?w) = Some s \<Longrightarrow> read_upto K ?w n x"
        "\<And>s. stored n ws (bw_db ?w) = Some s \<Longrightarrow> s \<le> x"
        by blast+
    qed
    ultimately show ?thesis by (simp add: bus_inv_def)
    qed
  qed
qed

lemma deliver_batch_next:
  "log_next (ps_db (deliver_batch store_journal en ws name recs off db)) = log_next db"
proof (induction recs arbitrary: off db)
  case (Cons rec recs)
  have d: "log_next (snd (deliver store_journal en name rec db)) = log_next db"
    by (simp add: deliver_def store_journal_def split: verdict.split)
  have s: "log_next (snd (j_Set store_journal err now name ws seq db)) = log_next db" for err now seq db
    by (simp add: store_journal_def)
  show ?case by (simp add: split_beta Let_def Cons.IH d s split: bool.split)
qed simp

lemma consume_pass_next: "log_next (ps_db (consume_pass store_journal en ws name kinds off db)) = log_next db"
  by (simp add: consume_pass_def deliver_batch_next del: deliver_batch.simps split: sum.split list.split)

lemma read_recorded_keeps:
  assumes inv: "bus_inv ws K w" and run: "bw_run w name = Some off"
    and p: "p = consume_pass store_journal en ws name (K name) off (bw_db w)" and s: "stored name ws (bw_db w) = Some s"
  shows "bus_inv ws K (w\<lparr>bw_db := ps_db p,
       bw_run := (bw_run w)(name := if ps_stopped p then None else Some (ps_offset p)),
       bw_done := bw_done w \<union> (\<lambda>e. (name, le_Seq e)) ` set (ps_done p)\<rparr>)"
    (is "bus_inv ws K ?w")
proof -
  have hist: "history_ok ws w" and offs: "offsets_ok ws K w" using inv by (auto simp: bus_inv_def)
  note od = offsets_okD [OF offs]
  have ok: "log_ok (bw_db w)" using hist by (simp add: history_ok_def)
  have le: "s \<le> off" using od(3) [OF run s] by blast
  note fr = store_log.pass_frame [OF ok p]
  have rows: "log_rows (ps_db p) = log_rows (bw_db w)" and ok': "log_ok (ps_db p)" using fr(1,2) .
  have next_eq: "log_next (ps_db p) = log_next (bw_db w)"
    using p by (simp add: consume_pass_next)
  obtain s' where s': "stored name ws (ps_db p) = Some s'" "s \<le> s'" "s' \<le> ps_offset p" "off \<le> ps_offset p"
    using store_log.pass_offset [OF ok p s le] by blast
  obtain rest where rest: "filter (past_seq ws off (K name)) (log_rows (bw_db w)) = ps_done p @ rest"
    "\<forall>rec\<in>set rest. ps_offset p < le_Seq rec"
    "ps_offset p = off \<or> (\<exists>rec\<in>set (filter (past_seq ws off (K name)) (log_rows (bw_db w))). ps_offset p = le_Seq rec)"
    using store_log.pass_delivers [OF ok p] unfolding store_log.pending_def by metis
  have lt: "ps_offset p < log_next (bw_db w)"
    using rest(3) od(2) [OF run] log_okD(2) [OF ok] by auto
  have hw: "history_ok ws ?w" using hist ok' by (simp add: history_ok_def rows next_eq)
  have mono: "read_upto K w n x \<Longrightarrow> read_upto K ?w n x" for n x by (auto simp: read_upto_def wanted_def)
  have pr: "pruned_upto ?w n x = pruned_upto w n x" for n x by (simp add: pruned_upto_def rows)
  have pr_mono: "pruned_upto w n x \<Longrightarrow> x \<le> y \<Longrightarrow> pruned_upto w n y" for n x y
    by (fastforce simp: pruned_upto_def)
  have here: "read_upto K ?w name (ps_offset p)"
    unfolding read_upto_def
  proof (intro allI impI, elim conjE)
    fix e assume e: "wanted K ?w name e" "le_Seq e \<le> ps_offset p"
    have w: "wanted K w name e" using e(1) by (simp add: wanted_def)
    show "(name, le_Seq e) \<in> bw_done ?w"
    proof (cases "le_Seq e \<le> off")
      case True
      with od(3) [OF run s] w show ?thesis by (auto simp: read_upto_def)
    next
      case False
      have "e \<in> set (log_rows (bw_db w))"
        using od(1) [OF s] w False le by (fastforce simp: pruned_upto_def wanted_def)
      moreover have "past_seq ws off (K name) e"
        using w hist False by (auto simp: past_seq_def wanted_def history_ok_def)
      ultimately have "e \<in> set (filter (past_seq ws off (K name)) (log_rows (bw_db w)))" by simp
      then have "e \<in> set (ps_done p @ rest)" by (simp only: rest(1))
      with rest(2) e(2) show ?thesis by fastforce
    qed
  qed
  have less: "read_upto K ?w name y \<Longrightarrow> x \<le> y \<Longrightarrow> read_upto K ?w name x" for x y by (auto simp: read_upto_def)
  have "offsets_ok ws K ?w"
    unfolding offsets_ok_def
  proof (intro conjI allI impI)
    fix n x assume x: "stored n ws (bw_db ?w) = Some x"
    have "x < log_next (bw_db w) \<and> read_upto K ?w n x \<and> pruned_upto ?w n x"
    proof (cases "n = name")
      case True
      have "pruned_upto w name s" using od(1) [OF s] by blast
      with True x s' lt less [OF here] pr_mono show ?thesis by (auto simp: pr)
    next
      case False
      with x fr(3) [OF False] od(1) [of n x] mono show ?thesis by (simp add: pr)
    qed
    then show "x < log_next (bw_db ?w)" "read_upto K ?w n x" "pruned_upto ?w n x"
      by (simp_all add: next_eq)
  next
    fix n x assume x: "bw_run ?w n = Some x"
    have "x < log_next (bw_db w) \<and> (\<forall>s. stored n ws (ps_db p) = Some s \<longrightarrow> read_upto K ?w n x \<and> s \<le> x)"
    proof (cases "n = name")
      case True
      with x s' lt here show ?thesis by (auto split: if_splits)
    next
      case False
      with x fr(3) [OF False] od(2,3) [of n x] mono show ?thesis by simp
    qed
    then show "x < log_next (bw_db ?w)" "\<And>s. stored n ws (bw_db ?w) = Some s \<Longrightarrow> read_upto K ?w n x"
      "\<And>s. stored n ws (bw_db ?w) = Some s \<Longrightarrow> s \<le> x"
      by (simp_all add: next_eq)
  qed
  with hw show ?thesis by (simp add: bus_inv_def)
qed

lemma read_keeps:
  assumes inv: "bus_inv ws K w" and run: "bw_run w name = Some off"
    and p: "p = consume_pass store_journal en ws name (K name) off (bw_db w)"
  shows "bus_inv ws K (w\<lparr>bw_db := ps_db p,
       bw_run := (bw_run w)(name := if ps_stopped p then None else Some (ps_offset p)),
       bw_from := recorded ws name (bw_db w) (ps_db p) (bw_from w),
       bw_done := bw_done w \<union> (\<lambda>e. (name, le_Seq e)) ` set (ps_done p)\<rparr>)"
    (is "bus_inv ws K ?w")
proof (cases "stored name ws (bw_db w)")
  case (Some s)
  then have "recorded ws name (bw_db w) (ps_db p) (bw_from w) = bw_from w" by (simp add: recorded_def)
  with read_recorded_keeps [OF inv run p Some] show ?thesis by simp
next
  case None
  have hist: "history_ok ws w" and offs: "offsets_ok ws K w" using inv by (auto simp: bus_inv_def)
  note od = offsets_okD [OF offs]
  have ok: "log_ok (bw_db w)" using hist by (simp add: history_ok_def)
  note fr = store_log.pass_frame [OF ok p]
  have next_eq: "log_next (ps_db p) = log_next (bw_db w)" using p by (simp add: consume_pass_next)
  have lt: "ps_offset p < log_next (bw_db w)"
    using store_log.pass_delivers [OF ok p] od(2) [OF run] log_okD(2) [OF ok] unfolding store_log.pending_def
    by (metis (no_types, lifting) filter_is_subset subsetD)
  have hw: "history_ok ws ?w" using hist fr(1,2) by (simp add: history_ok_def next_eq)
  have other: "read_upto K w n x \<Longrightarrow> read_upto K ?w n x" "pruned_upto ?w n x = pruned_upto w n x" if "n \<noteq> name" for n x
    using that fr(1) by (auto simp: read_upto_def wanted_def pruned_upto_def recorded_def)
  have mine: "read_upto K ?w name x" "pruned_upto ?w name x" if "stored name ws (ps_db p) \<noteq> None" for x
    using that None hist by (auto simp: read_upto_def wanted_def pruned_upto_def recorded_def history_ok_def)
  have "offsets_ok ws K ?w"
    unfolding offsets_ok_def
  proof (intro conjI allI impI)
    fix n x assume x: "stored n ws (bw_db ?w) = Some x"
    have "x < log_next (bw_db w) \<and> read_upto K ?w n x \<and> pruned_upto ?w n x"
    proof (cases "n = name")
      case True
      with x lt mine store_log.pass_offset_new [OF ok p None] show ?thesis by fastforce
    next
      case False
      with x fr(3) [OF False] od(1) [of n x] other [OF False] show ?thesis by simp
    qed
    then show "x < log_next (bw_db ?w)" "read_upto K ?w n x" "pruned_upto ?w n x" by (simp_all add: next_eq)
  next
    fix n x assume x: "bw_run ?w n = Some x"
    have "x < log_next (bw_db w) \<and> (\<forall>s. stored n ws (ps_db p) = Some s \<longrightarrow> read_upto K ?w n x \<and> s \<le> x)"
    proof (cases "n = name")
      case True
      with x lt mine store_log.pass_offset_new [OF ok p None] show ?thesis by (auto split: if_splits)
    next
      case False
      with x fr(3) [OF False] od(2,3) [of n x] other [OF False] show ?thesis by simp
    qed
    then show "x < log_next (bw_db ?w)" "\<And>s. stored n ws (bw_db ?w) = Some s \<Longrightarrow> read_upto K ?w n x"
      "\<And>s. stored n ws (bw_db ?w) = Some s \<Longrightarrow> s \<le> x"
      by (simp_all add: next_eq)
  qed
  with hw show ?thesis by (simp add: bus_inv_def)
qed

lemma prune_keeps:
  assumes inv: "bus_inv ws K w" and prune: "PruneEventLog serr derr ws before (bw_db w) = (r, db)"
  shows "bus_inv ws K (w\<lparr>bw_db := db\<rparr>)" (is "bus_inv ws K ?w")
proof -
  have hist: "history_ok ws w" and offs: "offsets_ok ws K w" using inv by (auto simp: bus_inv_def)
  have ok: "log_ok (bw_db w)" using hist by (simp add: history_ok_def)
  have db: "db = snd (PruneEventLog serr derr ws before (bw_db w))" using prune by simp
  have sub: "set (log_rows db) \<subseteq> set (log_rows (bw_db w))" unfolding db by (rule prune_subset)
  have st: "stored n ws db = stored n ws (bw_db w)" for n by (simp add: db)
  have nx: "log_next db = log_next (bw_db w)"
    by (simp add: db PruneEventLog_def Let_def split: sum.split option.split)
  have "history_ok ws ?w" using hist prune_ok [OF ok] sub nx by (auto simp: history_ok_def db)
  moreover have "read_upto K ?w n x = read_upto K w n x" for n x by (simp add: read_upto_def wanted_def)
  moreover have "pruned_upto ?w n s" if "pruned_upto w n s" "stored n ws (bw_db w) = Some s" for n s
    unfolding pruned_upto_def
  proof (intro ballI impI)
    fix e assume e: "e \<in> bw_all ?w" "bw_from ?w n < le_Seq e \<and> e \<notin> set (log_rows (bw_db ?w))"
    show "le_Seq e \<le> s"
    proof (cases "e \<in> set (log_rows (bw_db w))")
      case True
      with prune_rows [OF ok this, of serr derr ws before] e(2) that(2) show ?thesis by (auto simp: db)
    next
      case False
      with e that(1) show ?thesis by (simp add: pruned_upto_def)
    qed
  qed
  ultimately show ?thesis using offs by (simp add: bus_inv_def offsets_ok_def st nx)
qed

lemma bus_inv_reachable: "bus_reachable ws K w \<Longrightarrow> bus_inv ws K w"
proof (induction rule: bus_reachable.induct)
  case (step w w')
  note inv = step.IH
  from step.hyps(2) show ?case
  proof (cases rule: bus_step.cases)
    case publish
    then show ?thesis using publish_keeps [OF inv] by blast
  next
    case subscribe
    then show ?thesis using subscribe_keeps [OF inv] by blast
  next
    case read
    then show ?thesis using read_keeps [OF inv] by blast
  next
    case crash
    with inv show ?thesis
      by (simp add: bus_inv_def offsets_ok_def history_ok_def read_upto_def pruned_upto_def wanted_def)
  next
    case prune
    then show ?thesis using prune_keeps [OF inv] by blast
  qed
qed (rule bus_inv_init)

section \<open>What subscribers can count on\<close>

text \<open>
  C19. Nothing is lost: in whatever order events are published, subscribers register, read, are
  cancelled in the middle of an event or crash, and old events are pruned, every event of a kind a
  subscriber asks for that was appended after its offset was first recorded, at its registration or, when that write failed, by a pass of its own, has either been handled or given up
  on by it, or is still in the log past its recorded offset, where its next pass finds it.
\<close>

theorem nothing_lost:
  assumes "bus_reachable ws K w" and "stored name ws (bw_db w) = Some s" and "e \<in> bw_all w"
    and "kind_in (K name) (le_Kind e)" and "bw_from w name < le_Seq e"
  shows "(name, le_Seq e) \<in> bw_done w
    \<or> (e \<in> set (log_rows (bw_db w)) \<and> s < le_Seq e \<and> past_seq ws s (K name) e)"
proof -
  have "bus_inv ws K w" by (rule bus_inv_reachable [OF assms(1)])
  then have o: "offsets_ok ws K w" and h: "history_ok ws w" by (simp_all add: bus_inv_def)
  have "read_upto K w name s \<and> pruned_upto w name s" using offsets_okD(1) [OF o assms(2)] by blast
  with h assms(3-5) show ?thesis
    by (cases "le_Seq e \<le> s") (auto simp: read_upto_def pruned_upto_def wanted_def past_seq_def history_ok_def)
qed

text \<open>
  The offset a subscriber has recorded never goes back and never disappears, whatever step the
  system takes.
\<close>

theorem offset_never_back:
  assumes "bus_reachable ws K w" and "bus_step ws K w w'" and "stored name ws (bw_db w) = Some s"
  shows "\<exists>s'\<ge>s. stored name ws (bw_db w') = Some s'"
proof -
  have inv: "bus_inv ws K w" by (rule bus_inv_reachable [OF assms(1)])
  have ok: "log_ok (bw_db w)" and o: "offsets_ok ws K w" using inv by (simp_all add: bus_inv_def history_ok_def)
  from assms(2) show ?thesis
  proof (cases rule: bus_step.cases)
    case (publish ierr qerr now uuid e r db)
    then have "stored name ws db = stored name ws (bw_db w)"
      using publish_shape [OF publish(2)] by (auto simp: stored_def)
    with publish(1) assms(3) show ?thesis by simp
  next
    case (subscribe n oerr herr serr now off db)
    have "\<exists>s'\<ge>s. stored name ws db = Some s'"
      using subscribe(3) assms(3) stored_mono [OF assms(3)]
      by (auto simp: startingPoint_def store_journal_def split: sum.splits if_splits)
    with subscribe(1) show ?thesis by simp
  next
    case (read n off p en)
    have "\<exists>s'\<ge>s. stored name ws (ps_db p) = Some s'"
    proof (cases "n = name")
      case True
      from offsets_okD(3) [OF o read(2)] True assms(3) have "s \<le> off" by auto
      with store_log.pass_offset [OF ok read(3)] True assms(3) show ?thesis by blast
    next
      case False
      with store_log.pass_frame(3) [OF ok read(3)] assms(3) show ?thesis by auto
    qed
    with read(1) show ?thesis by simp
  next
    case crash
    with assms(3) show ?thesis by simp
  next
    case (prune serr derr before r db)
    have "stored name ws db = stored name ws (bw_db w)" using prune(2) stored_frame(3) by (metis snd_conv)
    with prune(1) assms(3) show ?thesis by simp
  qed
qed

text \<open>
  C39. A subscriber that keeps running reads everything: with the log readable and the subscriber not
  cancelled, as many passes as there are batches of 128 in what is pending deliver all of it, each event
  once, in the order of the log, whatever its handler does with them.
\<close>

theorem consume_reads_all:
  assumes "log_ok db" and "\<forall>en\<in>set ens. calm en"
    and "length (filter (past_seq ws off kinds) (log_rows db)) \<le> 128 * length ens"
  shows "ps_done (consume store_journal ws name kinds ens off db)
    = filter (past_seq ws off kinds) (log_rows db)"
  using store_log.consume_drains [OF assms(1,2) refl, of ws name kinds off] assms(3)
  by (simp add: store_log.pending_def)

text \<open>
  A subscriber that asks for some kinds only holds back all pruning while no event of them comes:
  its passes leave its offset where it is, and with it every later event stays in the log, whatever
  its age and whoever else has read it.
\<close>

theorem quiet_subscriber_blocks_pruning:
  assumes "log_ok db" and "stored name ws db = Some s"
    and "\<forall>e\<in>set (log_rows db). le_Workspace e = ws_of ws \<and> s < le_Seq e \<longrightarrow> \<not> kind_in kinds (le_Kind e)"
  shows "ps_db (consume_pass store_journal en ws name kinds s db) = db
    \<and> (\<forall>e\<in>set (log_rows db). le_Workspace e = ws_of ws \<and> s < le_Seq e \<longrightarrow>
         e \<in> set (log_rows (snd (PruneEventLog None None ws before db))))"
proof (intro conjI ballI impI)
  have "filter (past_seq ws s kinds) (log_rows db) = []"
    using assms(3) by (auto simp: past_seq_def filter_empty_conv)
  then show "ps_db (consume_pass store_journal en ws name kinds s db) = db"
    using store_log.pass_cases [OF assms(1) refl, of en ws name kinds s]
    by (metis pass.select_convs(4) store_log.pending_def)
next
  fix e assume "e \<in> set (log_rows db)" "le_Workspace e = ws_of ws \<and> s < le_Seq e"
  then show "e \<in> set (log_rows (snd (PruneEventLog None None ws before db)))"
    using prune_rows [OF assms(1)] assms(2) by fastforce
qed

section \<open>Concrete logs\<close>

definition calm_env :: env where
  "calm_env = \<lparr>en_now = 9, en_read = None, en_call = (\<lambda>e k. None), en_stop = (\<lambda>e k. False),
     en_stop_sleep = (\<lambda>e k. False), en_set = (\<lambda>_. None), en_dead = (\<lambda>_. None), en_wait = False\<rparr>"

definition two_event_db :: log_db where
  "two_event_db = snd (AppendLogEvent None None 7 (demo_event ''b'' ''k2'')
     (snd (AppendLogEvent None None 6 (demo_event ''a'' ''k1'')
       (snd (SetConsumerOffset None 5 ''s'' ''default'' 0 empty_log)))))"

lemma two_event_ok: "log_ok two_event_db"
  unfolding two_event_db_def by (intro append_ok) (simp add: log_ok_def SetConsumerOffset_def empty_log_def)

theorem consume_reads_all_witness:
  "map le_ID (ps_done (consume store_journal ''default'' ''s'' [] [calm_env] 0 two_event_db)) = [''a'', ''b'']"
proof -
  have c: "\<forall>en\<in>set [calm_env]. calm en" by (simp add: calm_def calm_env_def)
  have n: "length (filter (past_seq ''default'' 0 []) (log_rows two_event_db)) \<le> 128 * length [calm_env]"
    by code_simp
  show ?thesis unfolding consume_reads_all [OF two_event_ok c n] by code_simp
qed

theorem quiet_subscriber_blocks_pruning_witness:
  "ps_db (consume_pass store_journal calm_env ''default'' ''s'' [''alert''] 0 two_event_db) = two_event_db
   \<and> hd (log_rows two_event_db) \<in> set (log_rows (snd (PruneEventLog None None ''default'' 1000 two_event_db)))"
proof -
  have s: "stored ''s'' ''default'' two_event_db = Some 0" by code_simp
  have k: "\<forall>e\<in>set (log_rows two_event_db). le_Workspace e = ws_of ''default'' \<and> 0 < le_Seq e
      \<longrightarrow> \<not> kind_in [''alert''] (le_Kind e)" by code_simp
  have h: "hd (log_rows two_event_db) \<in> set (log_rows two_event_db)"
    "le_Workspace (hd (log_rows two_event_db)) = ws_of ''default''" "0 < le_Seq (hd (log_rows two_event_db))"
    by code_simp+
  show ?thesis using quiet_subscriber_blocks_pruning [OF two_event_ok s k] h by blast
qed

text \<open>A run in which a subscriber registers, an event comes, and it is delivered.\<close>

definition run_one :: bus_world where
  "run_one = bus_init\<lparr>bw_db := snd (SetConsumerOffset None 5 ''s'' ''default'' 0 empty_log),
     bw_run := (bw_run bus_init)(''s'' := Some 0), bw_from := (bw_from bus_init)(''s'' := 0)\<rparr>"

lemma run_one_reachable: "bus_reachable ''default'' (\<lambda>_. []) run_one"
proof (rule bus_reachable.step [OF bus_reachable.init])
  have s: "startingPoint store_journal None None None 5 ''default'' ''s'' (bw_db bus_init)
      = (Some 0, snd (SetConsumerOffset None 5 ''s'' ''default'' 0 empty_log))"
    by (simp add: startingPoint_def store_journal_def ConsumerOffset_def LogHead_def bus_init_def max_seq_def,
        simp add: empty_log_def)
  have "bw_run bus_init ''s'' = None" "stored ''s'' ''default'' (bw_db bus_init) = None" "log_next (bw_db bus_init) = 1"
    by (simp_all add: bus_init_def, simp add: empty_log_def)
  moreover from this(2,3) have "recorded ''default'' ''s'' (bw_db bus_init) (snd (SetConsumerOffset None 5 ''s'' ''default'' 0 empty_log)) (bw_from bus_init) =
      (bw_from bus_init)(''s'' := 0)" by (simp add: recorded_def bus_init_def stored_SetConsumerOffset)
  ultimately show "bus_step ''default'' (\<lambda>_. []) bus_init run_one"
    using bus_step.subscribe [of bus_init "''s''", OF _ s] by (simp add: run_one_def)
qed

definition published :: "bus_world \<Rightarrow> BusEvent \<Rightarrow> bus_world" where
  "published w e = (let db = snd (Publish store_journal None None 6 ''u'' ''default'' e (bw_db w))
     in w\<lparr>bw_db := db, bw_all := bw_all w \<union> set (log_rows db)\<rparr>)"

lemma published_step: "bus_step ''default'' K w (published w e)"
  unfolding published_def Let_def by (rule bus_step.publish) (rule prod.collapse [symmetric])

definition demo_bus_event :: BusEvent where
  "demo_bus_event = eventFrom (demo_event ''a'' ''k'')"

theorem nothing_lost_witness:
  "let w = published run_one demo_bus_event; e = hd (log_rows (bw_db w))
   in e \<in> bw_all w \<and> ((''s'', le_Seq e) \<in> bw_done w \<or> past_seq ''default'' 0 [] e)"
proof -
  let ?w = "published run_one demo_bus_event" let ?e = "hd (log_rows (bw_db ?w))"
  have r: "bus_reachable ''default'' (\<lambda>_. []) ?w"
    by (rule bus_reachable.step [OF run_one_reachable published_step])
  have s: "stored ''s'' ''default'' (bw_db ?w) = Some 0" by code_simp
  have "log_rows (bw_db ?w) \<noteq> []" by code_simp
  then have e: "?e \<in> bw_all ?w" by (simp add: published_def Let_def)
  have f: "bw_from ?w ''s'' < le_Seq ?e" by code_simp
  have k: "kind_in ((\<lambda>_. []) ''s'') (le_Kind ?e)" by (simp add: kind_in_def)
  from nothing_lost [OF r s e k f] e show ?thesis by (auto simp: Let_def)
qed

theorem offset_never_back_witness:
  "\<exists>s'\<ge>0. stored ''s'' ''default'' (bw_db (published run_one demo_bus_event)) = Some s'"
proof -
  have "stored ''s'' ''default'' (bw_db run_one) = Some 0" by code_simp
  from offset_never_back [OF run_one_reachable published_step this] show ?thesis .
qed

end
