(* ===== verification/Timer_Store.thy ===== *)
theory Timer_Store
  imports Event_Log_Store
begin

text \<open>
  \<^verbatim>\<open>internal/store/timer_store.go\<close>: durable timers, one row per id. A timer is armed while
  \<open>ti_FiredAt\<close> is \<open>None\<close>.
\<close>

record Timer =
  ti_ID :: string
  ti_Workspace :: string
  ti_FireAt :: gtime
  ti_Kind :: string
  ti_AgentID :: string
  ti_Loop :: string
  ti_Payload :: "(string \<times> json) list"
  ti_CreatedAt :: gtime
  ti_FiredAt :: "gtime option"

definition merge_timer :: "Timer \<Rightarrow> Timer \<Rightarrow> Timer" where
  "merge_timer r x = r\<lparr>ti_FireAt := ti_FireAt x, ti_Kind := ti_Kind x, ti_AgentID := ti_AgentID x,
     ti_Loop := ti_Loop x, ti_Payload := ti_Payload x, ti_FiredAt := None\<rparr>"

definition timer_stamped :: "gtime \<Rightarrow> Timer \<Rightarrow> Timer" where
  "timer_stamped now t = t\<lparr>ti_Workspace := ws_of (ti_Workspace t),
     ti_CreatedAt := (if ti_CreatedAt t = zero_time then now else ti_CreatedAt t), ti_FiredAt := None\<rparr>"

definition SetTimer :: "dberr \<Rightarrow> gtime \<Rightarrow> Timer \<Rightarrow> Timer list \<Rightarrow> string option \<times> Timer list" where
  "SetTimer err now t ts =
     (if TrimSpace (ti_ID t) = '''' then (Some ''store: a timer needs an id'', ts)
      else case err of Some m \<Rightarrow> (Some m, ts)
         | None \<Rightarrow> (None, upsert ti_ID merge_timer (timer_stamped now t) ts))"

definition due :: "string \<Rightarrow> gtime \<Rightarrow> Timer \<Rightarrow> bool" where
  "due ws now t \<longleftrightarrow> ti_Workspace t = ws_of ws \<and> ti_FiredAt t = None \<and> ti_FireAt t \<le> now"

definition DueTimers :: "dberr \<Rightarrow> string \<Rightarrow> gtime \<Rightarrow> int \<Rightarrow> Timer list \<Rightarrow> string + Timer list" where
  "DueTimers err ws now limit ts =
     (case err of Some m \<Rightarrow> Inl m
      | None \<Rightarrow> Inr (take (limit_or limit 64) (sort_key ti_FireAt (filter (due ws now) ts))))"

definition PendingTimers :: "dberr \<Rightarrow> string \<Rightarrow> int \<Rightarrow> Timer list \<Rightarrow> string + Timer list" where
  "PendingTimers err ws limit ts =
     (case err of Some m \<Rightarrow> Inl m
      | None \<Rightarrow> Inr (take (limit_or limit 100) (sort_key ti_FireAt
          (filter (\<lambda>t. ti_Workspace t = ws_of ws \<and> ti_FiredAt t = None) ts))))"

text \<open>An unknown id is \<open>sql.ErrNoRows\<close>.\<close>

definition TimerByID :: "dberr \<Rightarrow> string \<Rightarrow> Timer list \<Rightarrow> string + Timer" where
  "TimerByID err i ts =
     (case err of Some m \<Rightarrow> Inl m
      | None \<Rightarrow> (case row_of ti_ID i ts of None \<Rightarrow> Inl ''sql: no rows in result set'' | Some t \<Rightarrow> Inr t))"

definition MarkTimerFired :: "dberr \<Rightarrow> string \<Rightarrow> gtime \<Rightarrow> Timer list \<Rightarrow> (string + bool) \<times> Timer list" where
  "MarkTimerFired err i tm ts =
     (case err of Some m \<Rightarrow> (Inl m, ts)
      | None \<Rightarrow> (Inr (\<exists>t\<in>set ts. ti_ID t = i \<and> ti_FiredAt t = None),
          update_where (\<lambda>t. ti_ID t = i \<and> ti_FiredAt t = None) (\<lambda>t. t\<lparr>ti_FiredAt := Some tm\<rparr>) ts))"

definition CancelTimer :: "dberr \<Rightarrow> string \<Rightarrow> Timer list \<Rightarrow> dberr \<times> Timer list" where
  "CancelTimer err i ts =
     (case err of Some m \<Rightarrow> (Some m, ts) | None \<Rightarrow> (None, delete_where (\<lambda>t. ti_ID t = i) ts))"

definition CancelLoopTimers :: "dberr \<Rightarrow> string \<Rightarrow> Timer list \<Rightarrow> (string + nat) \<times> Timer list" where
  "CancelLoopTimers err loop ts =
     (case err of Some m \<Rightarrow> (Inl m, ts)
      | None \<Rightarrow> (let p = (\<lambda>t. ti_Loop t = loop \<and> ti_FiredAt t = None)
                 in (Inr (length (filter p ts)), delete_where p ts)))"

definition fired_before :: "gtime \<Rightarrow> Timer \<Rightarrow> bool" where
  "fired_before before t \<longleftrightarrow> (case ti_FiredAt t of None \<Rightarrow> False | Some tm \<Rightarrow> tm < before)"

definition PruneTimers :: "dberr \<Rightarrow> gtime \<Rightarrow> Timer list \<Rightarrow> (string + nat) \<times> Timer list" where
  "PruneTimers err before ts =
     (case err of Some m \<Rightarrow> (Inl m, ts)
      | None \<Rightarrow> (Inr (length (filter (fired_before before) ts)), delete_where (fired_before before) ts))"

section \<open>One row per id\<close>

interpretation timers: keyed_table ti_ID merge_timer
  by unfold_locales (simp add: merge_timer_def)

definition timers_ok :: "Timer list \<Rightarrow> bool" where
  "timers_ok ts \<longleftrightarrow> distinct (map ti_ID ts)"

lemma timer_stamped_ID [simp]: "ti_ID (timer_stamped now t) = ti_ID t"
  by (simp add: timer_stamped_def)

lemma mark_id [simp]: "map ti_ID (snd (MarkTimerFired err i tm ts)) = map ti_ID ts"
  by (simp add: MarkTimerFired_def split: option.split)

lemma timers_ok_keeps [keeps_intros]:
  assumes "timers_ok ts"
  shows "timers_ok (snd (SetTimer err now t ts))" "timers_ok (snd (MarkTimerFired err i tm ts))"
    "timers_ok (snd (CancelTimer err i ts))" "timers_ok (snd (CancelLoopTimers err loop ts))"
    "timers_ok (snd (PruneTimers err before ts))"
  using assms
  by (auto simp: timers_ok_def SetTimer_def CancelTimer_def CancelLoopTimers_def PruneTimers_def Let_def
      timers.distinct_upsert distinct_delete_where split: option.split)

lemma row_MarkTimerFired:
  "row_of ti_ID j (snd (MarkTimerFired None i tm ts)) =
     map_option (\<lambda>t. if ti_ID t = i \<and> ti_FiredAt t = None then t\<lparr>ti_FiredAt := Some tm\<rparr> else t) (row_of ti_ID j ts)"
  by (simp add: MarkTimerFired_def row_update_where)

lemma DueTimers_mem: "DueTimers err ws now limit ts = Inr ds \<Longrightarrow> t \<in> set ds \<Longrightarrow> t \<in> set ts \<and> due ws now t"
  by (auto simp: DueTimers_def split: option.splits dest!: in_set_takeD)

end
