(* ===== verification/Clock.thy ===== *)
theory Clock
  imports Timer_Store Bus
begin

text \<open>
  \<^verbatim>\<open>internal/clock/clock.go\<close>: arming durable timers and firing the due ones into the event log.
  A sweep is given the driver's answers to what it does for each timer. The text of an instant
  in an event's payload is the formatting function's, an argument.
\<close>

definition clock_batch :: int where "clock_batch = 64"
definition resolution :: duration where "resolution = 10 * second"

definition EventTimerFired :: string where "EventTimerFired = ''timer.fired''"

definition Arm :: "dberr \<Rightarrow> gtime \<Rightarrow> string \<Rightarrow> Timer \<Rightarrow> Timer list \<Rightarrow> string option \<times> Timer list" where
  "Arm err now ws t ts =
     (let t1 = (if ti_Workspace t = '''' then t\<lparr>ti_Workspace := ws\<rparr> else t);
          t2 = (if ti_Kind t1 = '''' then t1\<lparr>ti_Kind := EventTimerFired\<rparr> else t1)
      in if ti_FireAt t2 = zero_time
         then (Some (''clock: timer '' @ ti_ID t2 @ '' has no deadline''), ts)
         else SetTimer err now t2 ts)"

definition After :: "dberr \<Rightarrow> gtime \<Rightarrow> string \<Rightarrow> Timer \<Rightarrow> duration \<Rightarrow> Timer list \<Rightarrow> string option \<times> Timer list" where
  "After err now ws t d ts = Arm err now ws (t\<lparr>ti_FireAt := now + d\<rparr>) ts"

definition Cancel :: "dberr \<Rightarrow> string \<Rightarrow> Timer list \<Rightarrow> dberr \<times> Timer list" where
  "Cancel err i ts = CancelTimer err i ts"

definition Pending :: "dberr \<Rightarrow> string \<Rightarrow> int \<Rightarrow> Timer list \<Rightarrow> string + Timer list" where
  "Pending err ws limit ts = PendingTimers err ws limit ts"

section \<open>The event of a timer\<close>

definition timer_event_id :: "Timer \<Rightarrow> string" where
  "timer_event_id t = ''timer:'' @ ti_ID t @ '':'' @ show_int (unix_of (ti_FireAt t))"

definition eventFor :: "(gtime \<Rightarrow> string) \<Rightarrow> gtime \<Rightarrow> Timer \<Rightarrow> BusEvent" where
  "eventFor rfc3339 now t =
     (let p = obj_set ''fire_at'' (JStr (rfc3339 (ti_FireAt t)))
                (obj_set ''timer_id'' (JStr (ti_ID t)) (ti_Payload t))
      in \<lparr>be_ID = timer_event_id t, be_Kind = ti_Kind t, be_AgentID = ti_AgentID t, be_Timestamp = now,
           be_Payload = (if ti_Loop t \<noteq> '''' then obj_set ''loop'' (JStr (ti_Loop t)) p else p),
           be_Meta = [], be_Seq = 0\<rparr>)"

text \<open>
  The event id of a timer names the timer and the second of its deadline: two timers have the same
  one only when they are the same timer due in the same second, whatever colons and digits their ids
  contain.
\<close>

theorem timer_event_id_eq:
  "timer_event_id t = timer_event_id u \<longleftrightarrow>
     ti_ID t = ti_ID u \<and> unix_of (ti_FireAt t) = unix_of (ti_FireAt u)"
proof
  assume "timer_event_id t = timer_event_id u"
  then have "ti_ID t @ CHR '':'' # show_int (unix_of (ti_FireAt t))
      = ti_ID u @ CHR '':'' # show_int (unix_of (ti_FireAt u))" by (simp add: timer_event_id_def)
  from sep_inj [OF this] show "ti_ID t = ti_ID u \<and> unix_of (ti_FireAt t) = unix_of (ti_FireAt u)"
    by (simp add: show_int_no is_digit_def show_int_inj)
qed (simp add: timer_event_id_def)

section \<open>A sweep\<close>

record sweep_env =
  se_now :: gtime
  se_rfc :: "gtime \<Rightarrow> string"
  se_due :: dberr
  se_append :: "string \<Rightarrow> dberr \<times> dberr" \<comment> \<open>publishing the event of a timer id\<close>
  se_mark :: "string \<Rightarrow> dberr"

type_synonym clock_db = "Timer list \<times> log_db"

definition sweep_one :: "sweep_env \<Rightarrow> string \<Rightarrow> Timer \<Rightarrow> clock_db \<Rightarrow> clock_db" where
  "sweep_one se ws t db =
     (case Publish store_journal (fst (se_append se (ti_ID t))) (snd (se_append se (ti_ID t))) (se_now se) '''' ws
             (eventFor (se_rfc se) (se_now se) t) (snd db) of
        (Some _, lg) \<Rightarrow> (fst db, lg)
      | (None, lg) \<Rightarrow> (snd (MarkTimerFired (se_mark se (ti_ID t)) (ti_ID t) (se_now se) (fst db)), lg))"

definition sweep :: "sweep_env \<Rightarrow> string \<Rightarrow> clock_db \<Rightarrow> clock_db" where
  "sweep se ws db =
     (case DueTimers (se_due se) ws (se_now se) clock_batch (fst db) of
        Inl _ \<Rightarrow> db | Inr ts \<Rightarrow> fold (sweep_one se ws) ts db)"

section \<open>What a sweep does\<close>

definition logged :: "string \<Rightarrow> log_db \<Rightarrow> bool" where
  "logged i lg \<longleftrightarrow> i \<in> le_ID ` set (log_rows lg)"

lemma timer_event_id_nonempty [simp]: "timer_event_id t \<noteq> ''''"
  by (simp add: timer_event_id_def)

lemma publish_timer_cases:
  assumes "Publish store_journal ierr qerr now u ws (eventFor rfc now t) lg = (r, lg')"
  obtains (failed) "r \<noteq> None" "lg' = lg"
  | (again) "logged (timer_event_id t) lg" "lg' = lg"
  | (new) "logged (timer_event_id t) lg'" "\<not> logged (timer_event_id t) lg" "set (log_rows lg) \<subseteq> set (log_rows lg')"
      "r = None"
proof -
  define e where "e = \<lparr>le_Seq = 0, le_ID = timer_event_id t, le_Workspace = ws,
    le_Kind = be_Kind (eventFor rfc now t), le_AgentID = be_AgentID (eventFor rfc now t),
    le_Payload = be_Payload (eventFor rfc now t), le_Meta = be_Meta (eventFor rfc now t),
    le_CreatedAt = (if be_Timestamp (eventFor rfc now t) = zero_time then now else be_Timestamp (eventFor rfc now t))\<rparr>"
  have i: "be_ID (eventFor rfc now t) = timer_event_id t" by (simp add: eventFor_def Let_def)
  have p: "(case AppendLogEvent ierr qerr now e lg of (Inl m, db') \<Rightarrow> (Some m, db') | (Inr _, db') \<Rightarrow> (None, db')) = (r, lg')"
    using assms by (simp add: Publish_def store_journal_def i e_def)
  have id: "le_ID (event_stamped now e) = timer_event_id t" "le_ID e = timer_event_id t"
    by (simp_all add: event_stamped_def e_def)
  show thesis
  proof (cases "row_of le_ID (timer_event_id t) (log_rows lg)")
    case None
    then have "\<not> logged (timer_event_id t) lg" by (simp add: logged_def row_of_None)
    with p None id show thesis
      by (cases ierr) (auto simp: AppendLogEvent_def logged_def intro: failed new)
  next
    case (Some x)
    then have "logged (timer_event_id t) lg" using row_of_Some [OF Some] unfolding logged_def by (metis image_eqI)
    moreover have "lg' = lg" using p Some id by (auto simp: AppendLogEvent_def split: option.splits)
    ultimately show thesis by (rule again)
  qed
qed

lemma publish_timer:
  assumes "Publish store_journal ierr qerr now u ws (eventFor rfc now t) lg = (r, lg')"
  shows "r = None \<Longrightarrow> logged (timer_event_id t) lg'" and "logged i lg \<Longrightarrow> logged i lg'"
    and "logged (timer_event_id t) lg \<Longrightarrow> lg' = lg"
  by (cases rule: publish_timer_cases [OF assms]; auto simp: logged_def; fail)+

lemma row_mark_other: "i \<noteq> j \<Longrightarrow> row_of ti_ID i (snd (MarkTimerFired err j tm ts)) = row_of ti_ID i ts"
proof (cases err)
  case None
  assume "i \<noteq> j"
  with None show ?thesis
    by (cases "row_of ti_ID i ts") (auto simp: row_MarkTimerFired dest: row_of_Some)
qed (simp add: MarkTimerFired_def)

lemma sweep_one_cases:
  obtains (unpublished) "sweep_one se ws t db = db"
  | (published) lg where "sweep_one se ws t db = (snd (MarkTimerFired (se_mark se (ti_ID t)) (ti_ID t) (se_now se) (fst db)), lg)"
      "logged (timer_event_id t) lg" "\<And>i. logged i (snd db) \<Longrightarrow> logged i lg"
      "logged (timer_event_id t) (snd db) \<Longrightarrow> lg = snd db"
proof -
  obtain r lg where p: "Publish store_journal (fst (se_append se (ti_ID t))) (snd (se_append se (ti_ID t)))
      (se_now se) '''' ws (eventFor (se_rfc se) (se_now se) t) (snd db) = (r, lg)" by (meson surj_pair)
  show thesis
  proof (cases r)
    case None
    with p publish_timer [OF p] show thesis by (intro published [of lg]) (simp_all add: sweep_one_def)
  next
    case (Some m)
    have "lg = snd db" using Some by (cases rule: publish_timer_cases [OF p]) simp_all
    with p Some show thesis by (intro unpublished) (simp add: sweep_one_def)
  qed
qed

lemma sweep_one_other:
  "i \<noteq> ti_ID t \<Longrightarrow> row_of ti_ID i (fst (sweep_one se ws t db)) = row_of ti_ID i (fst db)"
  by (cases rule: sweep_one_cases [of se ws t db]) (simp_all add: row_mark_other)

lemma sweep_one_ids: "map ti_ID (fst (sweep_one se ws t db)) = map ti_ID (fst db)"
  by (cases rule: sweep_one_cases [of se ws t db]) simp_all

lemma sweep_one_log: "logged i (snd db) \<Longrightarrow> logged i (snd (sweep_one se ws t db))"
  by (cases rule: sweep_one_cases [of se ws t db]) simp_all

lemma sweep_one_same:
  "row_of ti_ID (ti_ID t) (fst db) = Some t \<Longrightarrow>
   row_of ti_ID (ti_ID t) (fst (sweep_one se ws t db)) = Some t
   \<or> logged (timer_event_id t) (snd (sweep_one se ws t db))"
  by (cases rule: sweep_one_cases [of se ws t db]) simp_all

lemma due_rows:
  assumes "timers_ok ts" and "DueTimers err ws now limit ts = Inr ds"
  shows "distinct (map ti_ID ds)" and "d \<in> set ds \<Longrightarrow> row_of ti_ID (ti_ID d) ts = Some d"
proof -
  have "map ti_ID ds = map ti_ID (take (limit_or limit 64) (sort_key ti_FireAt (filter (due ws now) ts)))"
    using assms(2) by (simp add: DueTimers_def split: option.splits)
  moreover have "distinct (map ti_ID (sort_key ti_FireAt (filter (due ws now) ts)))"
    using assms(1) by (simp add: timers_ok_def distinct_map) (auto intro: inj_on_subset)
  ultimately show "distinct (map ti_ID ds)" by (simp add: take_map [symmetric])
  show "d \<in> set ds \<Longrightarrow> row_of ti_ID (ti_ID d) ts = Some d"
    using DueTimers_mem [OF assms(2)] assms(1) by (auto simp: timers_ok_def intro: row_of_mem)
qed

text \<open>An event tells of a timer: its kind and its agent are the timer's, and its payload is, with the timer's id, deadline and loop.\<close>

definition tells :: "(gtime \<Rightarrow> string) \<Rightarrow> Timer \<Rightarrow> LogEvent \<Rightarrow> bool" where
  "tells rfc t e \<longleftrightarrow> le_Kind e = ti_Kind t \<and> le_AgentID e = ti_AgentID t \<and>
     map_of (le_Payload e) ''timer_id'' = Some (JStr (ti_ID t)) \<and> map_of (le_Payload e) ''fire_at'' = Some (JStr (rfc (ti_FireAt t))) \<and>
     (ti_Loop t \<noteq> '''' \<longrightarrow> map_of (le_Payload e) ''loop'' = Some (JStr (ti_Loop t))) \<and>
     (\<forall>k. k \<notin> {''timer_id'', ''fire_at'', ''loop''} \<longrightarrow> map_of (le_Payload e) k = map_of (ti_Payload t) k)"

definition announced :: "(gtime \<Rightarrow> string) \<Rightarrow> Timer \<Rightarrow> log_db \<Rightarrow> log_db \<Rightarrow> bool" where
  "announced rfc t before after \<longleftrightarrow> (\<exists>e\<in>set (log_rows after). le_ID e = ''timer:'' @ ti_ID t @ '':'' @ show_int (unix_of (ti_FireAt t)) \<and>
     (e \<in> set (log_rows before) \<or> tells rfc t e))"

lemma map_of_obj_set: "map_of (obj_set k v m) = (map_of m)(k \<mapsto> v)"
  by (induction m) (auto simp: obj_set_def fun_eq_iff)

lemma publish_timer_tells:
  assumes "Publish store_journal ierr qerr now u ws (eventFor rfc now t) lg = (r, lg')"
  shows "set (log_rows lg) \<subseteq> set (log_rows lg')"
    and "e \<in> set (log_rows lg') - set (log_rows lg) \<Longrightarrow> le_ID e = timer_event_id t \<and> tells rfc t e"
proof -
  have "set (log_rows lg) \<subseteq> set (log_rows lg') \<and>
    (\<forall>e\<in>set (log_rows lg') - set (log_rows lg). le_ID e = timer_event_id t \<and> tells rfc t e)"
    using assms by (auto simp: Publish_def store_journal_def AppendLogEvent_def event_stamped_def eventFor_def Let_def tells_def map_of_obj_set
        split: option.splits if_splits)
  then show "set (log_rows lg) \<subseteq> set (log_rows lg')"
    and "e \<in> set (log_rows lg') - set (log_rows lg) \<Longrightarrow> le_ID e = timer_event_id t \<and> tells rfc t e" by blast+
qed

lemma sweep_one_tells:
  "set (log_rows (snd db)) \<subseteq> set (log_rows (snd (sweep_one se ws t db)))"
  "e \<in> set (log_rows (snd (sweep_one se ws t db))) \<Longrightarrow> e \<notin> set (log_rows (snd db)) \<Longrightarrow> le_ID e = timer_event_id t \<and> tells (se_rfc se) t e"
proof -
  obtain r lg where p: "Publish store_journal (fst (se_append se (ti_ID t))) (snd (se_append se (ti_ID t)))
      (se_now se) '''' ws (eventFor (se_rfc se) (se_now se) t) (snd db) = (r, lg)" by (meson surj_pair)
  have "snd (sweep_one se ws t db) = lg" by (simp add: sweep_one_def p split: option.split)
  with publish_timer_tells [OF p] show "set (log_rows (snd db)) \<subseteq> set (log_rows (snd (sweep_one se ws t db)))"
    "e \<in> set (log_rows (snd (sweep_one se ws t db))) \<Longrightarrow> e \<notin> set (log_rows (snd db)) \<Longrightarrow> le_ID e = timer_event_id t \<and> tells (se_rfc se) t e"
    by auto
qed

lemma announced_logged:
  assumes "logged (timer_event_id t) (snd (sweep_one se ws t db))"
    and "\<And>e. e \<in> set (log_rows (snd db)) \<Longrightarrow> le_ID e = timer_event_id t \<Longrightarrow> e \<in> set (log_rows lg0)"
  shows "announced (se_rfc se) t lg0 (snd (sweep_one se ws t db))"
proof -
  obtain e where e: "e \<in> set (log_rows (snd (sweep_one se ws t db)))" "le_ID e = timer_event_id t" using assms(1) by (auto simp: logged_def)
  then have "e \<in> set (log_rows lg0) \<or> tells (se_rfc se) t e" using sweep_one_tells(2) [OF e(1)] assms(2) [of e] by blast
  with e show ?thesis by (auto simp: announced_def timer_event_id_def)
qed

lemma fold_sweep_other:
  "ti_ID t \<notin> ti_ID ` set ds \<Longrightarrow> row_of ti_ID (ti_ID t) (fst (fold (sweep_one se ws) ds db)) = row_of ti_ID (ti_ID t) (fst db)"
  by (induction ds arbitrary: db) (auto simp: sweep_one_other)

lemma fold_sweep_log: "set (log_rows (snd db)) \<subseteq> set (log_rows (snd (fold (sweep_one se ws) ds db)))"
proof (induction ds arbitrary: db)
  case (Cons d ds)
  from sweep_one_tells(1) [of db se ws d] Cons [of "sweep_one se ws d db"] show ?case by simp
qed simp

lemma announced_later: "announced rfc t lg0 lg \<Longrightarrow> set (log_rows lg) \<subseteq> set (log_rows lg') \<Longrightarrow> announced rfc t lg0 lg'"
  by (auto simp: announced_def)

lemma fold_sweep:
  assumes "distinct (map ti_ID ds)" and "t \<in> set ds" and "row_of ti_ID (ti_ID t) (fst db) = Some t"
    and "\<And>e. e \<in> set (log_rows (snd db)) \<Longrightarrow> le_ID e = timer_event_id t \<Longrightarrow> e \<in> set (log_rows lg0)"
  shows "row_of ti_ID (ti_ID t) (fst (fold (sweep_one se ws) ds db)) = Some t
    \<or> announced (se_rfc se) t lg0 (snd (fold (sweep_one se ws) ds db))"
  using assms
proof (induction ds arbitrary: db)
  case (Cons d ds)
  show ?case
  proof (cases "d = t")
    case True
    have o1: "ti_ID t \<notin> ti_ID ` set ds" using Cons.prems(1) True by auto
    from sweep_one_same [OF Cons.prems(3), of se ws] show ?thesis
    proof
      assume "row_of ti_ID (ti_ID t) (fst (sweep_one se ws t db)) = Some t"
      then show ?thesis using fold_sweep_other [OF o1, of se ws "sweep_one se ws t db"] True by simp
    next
      assume "logged (timer_event_id t) (snd (sweep_one se ws t db))"
      from announced_later [OF announced_logged [OF this Cons.prems(4)] fold_sweep_log] show ?thesis using True by simp
    qed
  next
    case False
    then have n: "ti_ID d \<noteq> ti_ID t" "t \<in> set ds" using Cons.prems(1,2) by auto
    then have "timer_event_id d \<noteq> timer_event_id t" by (simp add: timer_event_id_eq)
    then have "e \<in> set (log_rows lg0)" if "e \<in> set (log_rows (snd (sweep_one se ws d db)))" "le_ID e = timer_event_id t" for e
      using sweep_one_tells(2) [OF that(1)] that(2) Cons.prems(4) by auto
    then show ?thesis using Cons.IH [of "sweep_one se ws d db"] Cons.prems(1,3) n sweep_one_other [of "ti_ID t" d se ws db] by simp
  qed
qed simp

text \<open>
  C38. A timer never goes off in silence. Whatever fails during a sweep, a timer that was armed before it
  is either still armed, as it was, or it was due and the log has an event under its id and the second of its deadline: one with
  the timer's kind, agent and payload that the sweep appended, or one that was in the log before, from a firing of this timer
  that was not recorded, or of an earlier deadline within the same second.
\<close>

theorem sweep_never_silent:
  assumes "timers_ok (fst db)" and "t \<in> set (fst db)"
  shows "t \<in> set (fst (sweep se ws db)) \<or>
    (ti_FiredAt t = None \<and> ti_FireAt t \<le> se_now se \<and> ti_Workspace t = ws_of ws \<and> announced (se_rfc se) t (snd db) (snd (sweep se ws db)))"
proof (cases "DueTimers (se_due se) ws (se_now se) clock_batch (fst db)")
  case (Inl m)
  with assms show ?thesis by (simp add: sweep_def)
next
  case (Inr ds)
  have t: "row_of ti_ID (ti_ID t) (fst db) = Some t" using assms by (simp add: timers_ok_def row_of_mem)
  have sw: "sweep se ws db = fold (sweep_one se ws) ds db" using Inr by (simp add: sweep_def)
  show ?thesis
  proof (cases "t \<in> set ds")
    case True
    have "due ws (se_now se) t" using DueTimers_mem [OF Inr True] by blast
    moreover have "row_of ti_ID (ti_ID t) (fst (sweep se ws db)) = Some t \<or> announced (se_rfc se) t (snd db) (snd (sweep se ws db))"
      unfolding sw by (rule fold_sweep [OF due_rows(1) [OF assms(1) Inr] True t])
    ultimately show ?thesis using row_of_Some [of ti_ID "ti_ID t" "fst (sweep se ws db)" t] by (auto simp: due_def)
  next
    case False
    have "ti_ID t \<notin> ti_ID ` set ds"
    proof
      assume "ti_ID t \<in> ti_ID ` set ds"
      then obtain d where d: "d \<in> set ds" "ti_ID d = ti_ID t" by auto
      have "Some d = row_of ti_ID (ti_ID d) (fst db)" by (rule due_rows(2) [OF assms(1) Inr d(1), symmetric])
      with d t False show False by simp
    qed
    with t row_of_Some [of ti_ID "ti_ID t" "fst (sweep se ws db)" t] show ?thesis by (simp add: sw fold_sweep_other)
  qed
qed

definition no_sweep_faults :: "sweep_env \<Rightarrow> bool" where
  "no_sweep_faults se \<longleftrightarrow> se_due se = None \<and> (\<forall>i. se_append se i = (None, None)) \<and> (\<forall>i. se_mark se i = None)"

lemma publish_no_faults:
  "fst (Publish store_journal None None now u ws e lg) = None"
  by (simp add: Publish_def store_journal_def AppendLogEvent_def split: option.split)

definition fired :: "string \<Rightarrow> Timer list \<Rightarrow> bool" where
  "fired i ts \<longleftrightarrow> (case row_of ti_ID i ts of None \<Rightarrow> False | Some t \<Rightarrow> ti_FiredAt t \<noteq> None)"

lemma sweep_one_fires:
  assumes "no_sweep_faults se" and "ti_ID t \<in> ti_ID ` set (fst db)"
  shows "logged (timer_event_id t) (snd (sweep_one se ws t db))" and "fired (ti_ID t) (fst (sweep_one se ws t db))"
proof -
  obtain lg where p: "Publish store_journal None None (se_now se) '''' ws (eventFor (se_rfc se) (se_now se) t) (snd db) = (None, lg)"
    using publish_no_faults [of "se_now se" "''''" ws "eventFor (se_rfc se) (se_now se) t" "snd db"]
    by (cases "Publish store_journal None None (se_now se) '''' ws (eventFor (se_rfc se) (se_now se) t) (snd db)") auto
  have s: "sweep_one se ws t db = (snd (MarkTimerFired None (ti_ID t) (se_now se) (fst db)), lg)"
    using assms(1) p by (simp add: sweep_one_def no_sweep_faults_def)
  obtain r where "row_of ti_ID (ti_ID t) (fst db) = Some r" using assms(2) row_of_None [of ti_ID "ti_ID t" "fst db"]
    by (metis not_None_eq)
  then show "fired (ti_ID t) (fst (sweep_one se ws t db))"
    using row_of_Some [of ti_ID "ti_ID t" "fst db" r] by (simp add: s fired_def row_MarkTimerFired)
  show "logged (timer_event_id t) (snd (sweep_one se ws t db))" using publish_timer(1) [OF p] by (simp add: s)
qed

lemma fold_fires:
  assumes "no_sweep_faults se" and "d \<in> set ds" and "\<forall>x\<in>set ds. ti_ID x \<in> ti_ID ` set (fst db)" and "distinct (map ti_ID ds)"
  shows "logged (timer_event_id d) (snd (fold (sweep_one se ws) ds db)) \<and> fired (ti_ID d) (fst (fold (sweep_one se ws) ds db))"
  using assms(2-4)
proof (induction ds arbitrary: db)
  case (Cons x ds)
  have keep: "logged i (snd db') \<Longrightarrow> logged i (snd (fold (sweep_one se ws) xs db'))" for i xs db'
    by (induction xs arbitrary: db') (auto simp: sweep_one_log)
  have other: "i \<notin> ti_ID ` set xs \<Longrightarrow> fired i (fst db') \<Longrightarrow> fired i (fst (fold (sweep_one se ws) xs db'))" for i xs db'
    by (induction xs arbitrary: db') (auto simp: fired_def sweep_one_other)
  have ids: "ti_ID ` set (fst (sweep_one se ws x db)) = ti_ID ` set (fst db)"
    using arg_cong [OF sweep_one_ids [of se ws x db], of set] by simp
  show ?case
  proof (cases "d \<in> set ds")
    case True
    with Cons.IH [of "sweep_one se ws x db"] Cons.prems(2,3) ids show ?thesis by simp
  next
    case False
    with Cons.prems have "d = x" "ti_ID d \<notin> ti_ID ` set ds" by auto
    with sweep_one_fires [OF assms(1), of x db ws] Cons.prems(2) keep other show ?thesis by simp
  qed
qed simp

text \<open>
  When nothing fails and no more than 64 timers are due, a sweep fires each of them: its event is
  in the log and it is no longer armed.
\<close>

theorem sweep_fires_due:
  assumes "no_sweep_faults se" and "timers_ok (fst db)" and "t \<in> set (fst db)" and "due ws (se_now se) t"
    and "length (filter (due ws (se_now se)) (fst db)) \<le> 64"
  shows "logged (timer_event_id t) (snd (sweep se ws db)) \<and> fired (ti_ID t) (fst (sweep se ws db))"
proof -
  let ?ds = "sort_key ti_FireAt (filter (due ws (se_now se)) (fst db))"
  have d: "DueTimers (se_due se) ws (se_now se) clock_batch (fst db) = Inr ?ds"
    using assms(1,5) by (simp add: DueTimers_def no_sweep_faults_def clock_batch_def limit_or_def)
  have "distinct (map ti_ID ?ds)" using due_rows(1) [OF assms(2) d] .
  with fold_fires [OF assms(1), of t ?ds db ws] assms(3,4) d show ?thesis by (simp add: sweep_def)
qed

text \<open>
  A timer whose event was published and which could not be marked as fired, because the daemon
  crashed in between, is published again by a later sweep without being logged twice: the log stays as it is.
\<close>

theorem resweep_logs_once:
  assumes "logged (timer_event_id t) lg" and "log_ok lg"
  shows "snd (sweep_one se ws t (ts, lg)) = lg
    \<and> length (filter (\<lambda>e. le_ID e = timer_event_id t) (log_rows lg)) = 1"
proof -
  have "snd (sweep_one se ws t (ts, lg)) = lg"
    using assms(1) by (cases rule: sweep_one_cases [of se ws t "(ts, lg)"]) simp_all
  moreover have one: "distinct (map le_ID xs) \<Longrightarrow> i \<in> le_ID ` set xs \<Longrightarrow> length (filter (\<lambda>e. le_ID e = i) xs) = 1" for i xs
    by (induction xs) (auto simp: filter_empty_conv image_iff)
  have "length (filter (\<lambda>e. le_ID e = timer_event_id t) (log_rows lg)) = 1"
    by (rule one) (use assms log_okD(3) in \<open>simp_all add: logged_def\<close>)
  ultimately show ?thesis by simp
qed

section \<open>Two ways an armed timer is lost\<close>

definition demo_timer :: "gtime \<Rightarrow> Timer" where
  "demo_timer t = \<lparr>ti_ID = ''nudge'', ti_Workspace = ''default'', ti_FireAt = t, ti_Kind = ''timer.fired'',
     ti_AgentID = '''', ti_Loop = '''', ti_Payload = [], ti_CreatedAt = 1, ti_FiredAt = None\<rparr>"

definition calm_sweep :: "gtime \<Rightarrow> sweep_env" where
  "calm_sweep now = \<lparr>se_now = now, se_rfc = (\<lambda>_. ''''), se_due = None, se_append = (\<lambda>_. (None, None)),
     se_mark = (\<lambda>_. None)\<rparr>"

text \<open>
  Re-arming a timer within the second of its last deadline loses the firing: the event id is the one
  already logged, so nothing is appended and no subscriber hears of it, and the timer is marked as fired.
\<close>

theorem rearm_within_second_is_swallowed:
  "let t0 = of_unix 5;
       db1 = sweep (calm_sweep (t0 + second div 5)) ''default'' ([demo_timer t0], empty_log);
       rearmed = snd (SetTimer None (t0 + second div 4) (demo_timer (t0 + second div 2)) (fst db1));
       db2 = sweep (calm_sweep (t0 + second)) ''default'' (rearmed, snd db1)
   in length (log_rows (snd db1)) = 1 \<and> fired ''nudge'' (fst db1)
      \<and> \<not> fired ''nudge'' rearmed
      \<and> snd db2 = snd db1 \<and> fired ''nudge'' (fst db2)"
  by code_simp

text \<open>
  A timer that the subscriber of its event arms again, before the sweep that published the event
  has marked it, is marked as fired with the new deadline: the next occurrence is never published.
\<close>

theorem rearm_during_sweep_is_lost:
  "let t0 = of_unix 5; now = t0 + second; t = demo_timer t0; next = demo_timer (t0 + 3 * second);
       lg = snd (Publish store_journal None None now '''' ''default'' (eventFor (\<lambda>_. '''') now t) empty_log);
       rearmed = snd (SetTimer None now next [t]);
       after = snd (MarkTimerFired None (ti_ID t) now rearmed);
       later = sweep (calm_sweep (t0 + 5 * second)) ''default'' (after, lg)
   in rearmed = [next] \<and> later = (after, lg) \<and> \<not> logged (timer_event_id next) lg"
  by code_simp

section \<open>Concrete sweeps\<close>

theorem sweep_never_silent_witness:
  "let t = demo_timer (of_unix 5); db = sweep (calm_sweep (of_unix 6)) ''default'' ([t], empty_log)
   in t \<notin> set (fst db) \<and> announced (\<lambda>_. '''') t empty_log (snd db)"
proof -
  let ?t = "demo_timer (of_unix 5)" let ?db = "sweep (calm_sweep (of_unix 6)) ''default'' ([?t], empty_log)"
  have "\<not> list_ex (\<lambda>x. ti_FiredAt x = None) (fst ?db)" "ti_FiredAt ?t = None" by code_simp+
  then have n: "?t \<notin> set (fst ?db)" by (auto simp: list_ex_iff)
  have "timers_ok (fst ([?t], empty_log))" "?t \<in> set (fst ([?t], empty_log))" "se_rfc (calm_sweep (of_unix 6)) = (\<lambda>_. '''')"
    by (simp_all add: timers_ok_def calm_sweep_def)
  then show ?thesis using sweep_never_silent [of "([?t], empty_log)" ?t "calm_sweep (of_unix 6)" "''default''"] n by (simp add: Let_def)
qed

theorem sweep_fires_due_witness:
  "let t = demo_timer (of_unix 5); db = sweep (calm_sweep (of_unix 6)) ''default'' ([t], empty_log)
   in logged (timer_event_id t) (snd db) \<and> fired (ti_ID t) (fst db)"
  unfolding Let_def
  by (rule sweep_fires_due)
    (simp_all add: timers_ok_def no_sweep_faults_def calm_sweep_def due_def demo_timer_def of_unix_def second_def
      ws_of_def)

theorem resweep_logs_once_witness:
  "let t = demo_timer (of_unix 5); se = calm_sweep (of_unix 6);
       lg = snd (sweep_one se ''default'' t ([t], empty_log))
   in snd (sweep_one se ''default'' t ([t], lg)) = lg
      \<and> length (filter (\<lambda>e. le_ID e = timer_event_id t) (log_rows lg)) = 1"
proof -
  let ?t = "demo_timer (of_unix 5)"
  let ?lg = "snd (sweep_one (calm_sweep (of_unix 6)) ''default'' ?t ([?t], empty_log))"
  have "logged (timer_event_id ?t) ?lg" by code_simp
  moreover have "log_ok ?lg" by code_simp
  ultimately show ?thesis unfolding Let_def by (rule resweep_logs_once)
qed

end
