(* ===== verification/Job_Store.thy ===== *)
theory Job_Store
  imports Prelude
begin

text \<open>
  \<^verbatim>\<open>internal/store/job_store.go\<close>: the table of scheduled jobs, one row per id. The row's
  creation time is the insertion's default; saving an existing job keeps it.
\<close>

record StoredJob =
  stj_ID :: string
  stj_Name :: string
  stj_Cron :: string
  stj_AgentID :: string
  stj_Payload :: string
  stj_Enabled :: bool
  stj_LastRun :: "gtime option"
  stj_NextRun :: "gtime option"
  stj_RunCount :: int
  stj_CatchUp :: bool
  stj_CreatedAt :: gtime

definition merge_job :: "StoredJob \<Rightarrow> StoredJob \<Rightarrow> StoredJob" where
  "merge_job r x = x\<lparr>stj_ID := stj_ID r, stj_CreatedAt := stj_CreatedAt r\<rparr>"

definition SaveJob :: "dberr \<Rightarrow> gtime \<Rightarrow> StoredJob \<Rightarrow> StoredJob list \<Rightarrow> dberr \<times> StoredJob list" where
  "SaveJob err now j js =
     (case err of Some m \<Rightarrow> (Some m, js)
      | None \<Rightarrow> (None, upsert stj_ID merge_job (j\<lparr>stj_Payload := (if stj_Payload j = '''' then ''{}'' else stj_Payload j),
          stj_CreatedAt := now\<rparr>) js))"

definition ListJobs_db :: "dberr \<Rightarrow> StoredJob list \<Rightarrow> string + StoredJob list" where
  "ListJobs_db err js = (case err of Some m \<Rightarrow> Inl m | None \<Rightarrow> Inr (sort_key stj_Name js))"

definition DeleteJob :: "dberr \<Rightarrow> string \<Rightarrow> StoredJob list \<Rightarrow> dberr \<times> StoredJob list" where
  "DeleteJob err i js =
     (case err of Some m \<Rightarrow> (Some m, js) | None \<Rightarrow> (None, delete_where (\<lambda>j. stj_ID j = i) js))"

definition UpdateJobRun :: "dberr \<Rightarrow> string \<Rightarrow> gtime \<Rightarrow> gtime option \<Rightarrow> StoredJob list \<Rightarrow> dberr \<times> StoredJob list" where
  "UpdateJobRun err i lastRun nextRun js =
     (case err of Some m \<Rightarrow> (Some m, js)
      | None \<Rightarrow> (None, update_where (\<lambda>j. stj_ID j = i)
          (\<lambda>j. j\<lparr>stj_LastRun := Some lastRun, stj_NextRun := nextRun, stj_RunCount := stj_RunCount j + 1\<rparr>) js))"

definition GetJob :: "dberr \<Rightarrow> string \<Rightarrow> StoredJob list \<Rightarrow> string + StoredJob" where
  "GetJob err i js =
     (case err of Some m \<Rightarrow> Inl m
      | None \<Rightarrow> (case row_of stj_ID i js of None \<Rightarrow> Inl ''sql: no rows in result set'' | Some j \<Rightarrow> Inr j))"

interpretation jobs_table: keyed_table stj_ID merge_job
  by unfold_locales (simp add: merge_job_def)

lemma jobs_distinct [keeps_intros]:
  assumes "distinct (map stj_ID js)"
  shows "distinct (map stj_ID (snd (SaveJob err now j js)))" "distinct (map stj_ID (snd (DeleteJob err i js)))"
    "distinct (map stj_ID (snd (UpdateJobRun err i l n js)))"
  using assms
  by (auto simp: SaveJob_def DeleteJob_def UpdateJobRun_def jobs_table.distinct_upsert distinct_delete_where
      split: option.split)

lemma row_SaveJob:
  "row_of stj_ID k (snd (SaveJob None now j js)) =
    (if k = stj_ID j then Some ((let x = j\<lparr>stj_Payload := (if stj_Payload j = '''' then ''{}'' else stj_Payload j),
         stj_CreatedAt := now\<rparr> in case row_of stj_ID k js of None \<Rightarrow> x | Some r \<Rightarrow> merge_job r x))
     else row_of stj_ID k js)"
  by (simp add: SaveJob_def jobs_table.row_upsert Let_def)

lemma row_DeleteJob: "row_of stj_ID k (snd (DeleteJob None i js)) = (if k = i then None else row_of stj_ID k js)"
  by (simp add: DeleteJob_def row_delete_where_key)

end
