(* ===== verification/Scheduler.thy ===== *)
theory Scheduler
  imports Job_Store Bus
begin

text \<open>
  \<^verbatim>\<open>internal/scheduler/scheduler.go\<close>: scheduled jobs in memory, in the cron library and in the
  store. The cron library is the list of its live entries, each with the job id its callback fires;
  whether it accepts an expression, and when an entry fires next, are its own (arguments \<open>valid\<close>
  and \<open>nextAt\<close>). The map of jobs is the list of its entries in the order a run visits them. How a
  payload is written as text is \<open>encoding/json\<close>'s (\<open>enc\<close>, \<open>dec\<close>).
\<close>

section \<open>Schedules and names\<close>

definition withSeconds :: "string \<Rightarrow> string" where
  "withSeconds spec =
     (let s = TrimSpace spec
      in if HasPrefix s ''@'' then s
         else if length (Fields s) = 5 then ''0 '' @ s else s)"

definition norm_char :: "char \<Rightarrow> char" where
  "norm_char c = (if c \<in> {CHR ''-'', CHR ''_'', CHR '' ''} then CHR ''_'' else c)"

definition normalizeJobName :: "string \<Rightarrow> string" where
  "normalizeJobName s = map norm_char (ToLower (TrimSpace s))"

definition sameJobName :: "string \<Rightarrow> string \<Rightarrow> bool" where
  "sameJobName a b \<longleftrightarrow> normalizeJobName a = normalizeJobName b"

section \<open>State\<close>

record ScheduledJob =
  sj_ID :: string
  sj_Name :: string
  sj_Cron :: string
  sj_AgentID :: string
  sj_Payload :: "(string \<times> json) list"
  sj_Enabled :: bool
  sj_LastRun :: "gtime option"
  sj_NextRun :: "gtime option"
  sj_RunCount :: int
  sj_CatchUp :: bool

record jobEntry =
  je_job :: ScheduledJob
  je_entryID :: int

record Scheduler =
  sc_jobs :: "(string \<times> jobEntry) list"
  sc_cron :: "(int \<times> string) list"
  sc_next :: int
  sc_db :: "StoredJob list"

definition cron_remove :: "int \<Rightarrow> Scheduler \<Rightarrow> Scheduler" where
  "cron_remove k s = s\<lparr>sc_cron := filter (\<lambda>c. fst c \<noteq> k) (sc_cron s)\<rparr>"

section \<open>Adding and removing\<close>

text \<open>The text of an error names what the code's does; its quoting and the wrapped cause are left out.\<close>

definition merge_one :: "dberr \<Rightarrow> string \<times> jobEntry \<Rightarrow> ScheduledJob \<times> Scheduler \<Rightarrow> ScheduledJob \<times> Scheduler" where
  "merge_one derr ie js =
     (let i = fst ie; e = snd ie; j = fst js; s = snd js
      in if i \<noteq> sj_ID j \<and> sj_AgentID (je_job e) = sj_AgentID j \<and> sameJobName (sj_Name (je_job e)) (sj_Name j)
         then (j\<lparr>sj_ID := i, sj_RunCount := (if sj_RunCount j = 0 then sj_RunCount (je_job e) else sj_RunCount j)\<rparr>,
               (cron_remove (je_entryID e) s)\<lparr>sc_jobs := filter (\<lambda>x. fst x \<noteq> i) (sc_jobs s),
                 sc_db := snd (DeleteJob derr i (sc_db s))\<rparr>)
         else js)"

definition stored_of :: "((string \<times> json) list \<Rightarrow> string) \<Rightarrow> ScheduledJob \<Rightarrow> StoredJob" where
  "stored_of enc j = \<lparr>stj_ID = sj_ID j, stj_Name = sj_Name j, stj_Cron = sj_Cron j, stj_AgentID = sj_AgentID j,
     stj_Payload = enc (sj_Payload j), stj_Enabled = sj_Enabled j, stj_LastRun = sj_LastRun j,
     stj_NextRun = sj_NextRun j, stj_RunCount = sj_RunCount j, stj_CatchUp = sj_CatchUp j, stj_CreatedAt = 0\<rparr>"

record sched_env =
  sd_valid :: "string \<Rightarrow> bool"
  sd_enc :: "(string \<times> json) list \<Rightarrow> string"
  sd_dec :: "string \<Rightarrow> (string \<times> json) list"
  sd_uuid :: string
  sd_delete :: dberr
  sd_save :: dberr
  sd_now :: gtime

definition cron_add :: "sched_env \<Rightarrow> ScheduledJob \<Rightarrow> Scheduler \<Rightarrow> string option \<times> Scheduler" where
  "cron_add en j s =
     (if \<not> sd_valid en (sj_Cron j) then (Some (''invalid cron expression '' @ sj_Cron j), s)
      else let s1 = s\<lparr>sc_cron := sc_cron s @ [(sc_next s, sj_ID j)], sc_next := sc_next s + 1,
                      sc_jobs := upsert fst (\<lambda>_ x. x) (sj_ID j, \<lparr>je_job = j, je_entryID = sc_next s\<rparr>) (sc_jobs s)\<rparr>;
               (err, db) = SaveJob (sd_save en) (sd_now en) (stored_of (sd_enc en) j) (sc_db s1)
           in (err, s1\<lparr>sc_db := db\<rparr>))"

definition AddJob :: "sched_env \<Rightarrow> ScheduledJob \<Rightarrow> Scheduler \<Rightarrow> string option \<times> Scheduler" where
  "AddJob en j0 s0 =
     (let j1 = (if sj_ID j0 = '''' then j0\<lparr>sj_ID := sd_uuid en\<rparr> else j0);
          (j2, s2) = fold (merge_one (sd_delete en)) (sc_jobs s0) (j1, s0);
          s3 = (case row_of fst (sj_ID j2) (sc_jobs s2) of None \<Rightarrow> s2 | Some ie \<Rightarrow> cron_remove (je_entryID (snd ie)) s2)
      in cron_add en (j2\<lparr>sj_Cron := withSeconds (sj_Cron j2)\<rparr>) s3)"

definition RemoveJob :: "dberr \<Rightarrow> string \<Rightarrow> Scheduler \<Rightarrow> string option \<times> Scheduler" where
  "RemoveJob derr i s =
     (case row_of fst i (sc_jobs s) of
        None \<Rightarrow> (Some (''job not found: '' @ i), s)
      | Some ie \<Rightarrow> (let s1 = (cron_remove (je_entryID (snd ie)) s)\<lparr>sc_jobs := filter (\<lambda>x. fst x \<noteq> i) (sc_jobs s)\<rparr>;
                        (err, db) = DeleteJob derr i (sc_db s1)
                    in (err, s1\<lparr>sc_db := db\<rparr>)))"

section \<open>Loading, listing, firing\<close>

definition loaded :: "sched_env \<Rightarrow> StoredJob \<Rightarrow> ScheduledJob" where
  "loaded en r = \<lparr>sj_ID = stj_ID r, sj_Name = stj_Name r, sj_Cron = stj_Cron r, sj_AgentID = stj_AgentID r,
     sj_Payload = sd_dec en (stj_Payload r), sj_Enabled = stj_Enabled r, sj_LastRun = stj_LastRun r,
     sj_NextRun = stj_NextRun r, sj_RunCount = stj_RunCount r, sj_CatchUp = stj_CatchUp r\<rparr>"

definition Start :: "dberr \<Rightarrow> sched_env \<Rightarrow> Scheduler \<Rightarrow> string option \<times> Scheduler" where
  "Start lerr en s =
     (case ListJobs_db lerr (sc_db s) of
        Inl m \<Rightarrow> (Some (''load jobs: '' @ m), s)
      | Inr rows \<Rightarrow> (None, fold (\<lambda>r s. if stj_Enabled r then snd (AddJob en (loaded en r) s) else s) rows s))"

definition next_run :: "(int \<Rightarrow> gtime) \<Rightarrow> int \<Rightarrow> gtime option" where
  "next_run nextAt k = (if nextAt k = zero_time then None else Some (nextAt k))"

definition ListJobs :: "(int \<Rightarrow> gtime) \<Rightarrow> Scheduler \<Rightarrow> ScheduledJob list" where
  "ListJobs nextAt s = map (\<lambda>ie. let j = je_job (snd ie)
     in case next_run nextAt (je_entryID (snd ie)) of None \<Rightarrow> j | Some n \<Rightarrow> j\<lparr>sj_NextRun := Some n\<rparr>) (sc_jobs s)"

definition EventScheduledJob :: string where "EventScheduledJob = ''scheduler.job''"

definition job_event :: "string \<Rightarrow> gtime \<Rightarrow> ScheduledJob \<Rightarrow> BusEvent" where
  "job_event uuid now j = \<lparr>be_ID = uuid, be_Kind = EventScheduledJob, be_AgentID = sj_AgentID j, be_Timestamp = now,
     be_Payload = [(''job_id'', JStr (sj_ID j)), (''job_name'', JStr (sj_Name j)), (''agent_id'', JStr (sj_AgentID j)),
       (''payload'', JObj (sj_Payload j))], be_Meta = [], be_Seq = 0\<rparr>"

definition bump :: "gtime \<Rightarrow> jobEntry \<Rightarrow> jobEntry" where
  "bump now e = e\<lparr>je_job := (je_job e)\<lparr>sj_LastRun := Some now, sj_RunCount := sj_RunCount (je_job e) + 1\<rparr>\<rparr>"

definition fireJob :: "dberr \<Rightarrow> dberr \<Rightarrow> (int \<Rightarrow> gtime) \<Rightarrow> string \<Rightarrow> gtime \<Rightarrow> string \<Rightarrow> string \<Rightarrow>
    Scheduler \<times> log_db \<Rightarrow> Scheduler \<times> log_db" where
  "fireJob perr uerr nextAt uuid now ws i sl =
     (case row_of fst i (sc_jobs (fst sl)) of
        None \<Rightarrow> sl
      | Some ie \<Rightarrow>
         (let s = fst sl; e = snd ie;
              lg = snd (Publish store_journal perr None now uuid ws (job_event uuid now (je_job e)) (snd sl))
          in (s\<lparr>sc_jobs := update_where (\<lambda>x. fst x = i) (\<lambda>x. (fst x, bump now (snd x))) (sc_jobs s),
                sc_db := snd (UpdateJobRun uerr i now (next_run nextAt (je_entryID e)) (sc_db s))\<rparr>, lg)))"

text \<open>The error, or the job that will be fired in a goroutine of its own.\<close>

definition RunJobNow :: "string \<Rightarrow> Scheduler \<Rightarrow> string + string" where
  "RunJobNow i s = (case row_of fst i (sc_jobs s) of None \<Rightarrow> Inl (''job not found: '' @ i) | Some _ \<Rightarrow> Inr i)"

section \<open>Five fields or six\<close>

lemma Fields_zero: "Fields (''0 '' @ s) = ''0'' # Fields s"
  by (simp add: Fields_def is_space_def)

lemma no_space_zero: "TrimSpace s = s \<Longrightarrow> s \<noteq> '''' \<Longrightarrow> TrimSpace (''0 '' @ s) = ''0 '' @ s"
proof -
  assume t: "TrimSpace s = s" and ne: "s \<noteq> ''''"
  then have "dropWhile is_space (rev s) = rev s \<and> rev s \<noteq> ''''"
    by (metis TrimSpace_def dropWhile_eq_Nil_conv dropWhile_eq_self_iff hd_dropWhile rev.simps(1) rev_is_Nil_conv rev_rev_ident)
  then obtain a list where "rev s = a # list" "\<not> is_space a"
    by (metis dropWhile_eq_self_iff list.exhaust list.sel(1))
  then have "dropWhile is_space (rev s @ rev ''0 '') = rev s @ rev ''0 ''" by simp
  then show ?thesis by (simp add: TrimSpace_def is_space_def)
qed

text \<open>
  A crontab of five fields gains a seconds field of 0 in front and keeps its own; any other
  schedule, a descriptor such as @daily included, keeps its fields as they are. Doing it again changes nothing.
\<close>

theorem withSeconds_fields:
  "Fields (withSeconds spec) =
     (if \<not> HasPrefix (TrimSpace spec) ''@'' \<and> length (Fields spec) = 5 then ''0'' # Fields spec else Fields spec)
   \<and> withSeconds (withSeconds spec) = withSeconds spec"
proof -
  let ?t = "TrimSpace spec"
  have f: "Fields ?t = Fields spec" by (rule Fields_TrimSpace)
  have i: "TrimSpace ?t = ?t" by (rule TrimSpace_idem)
  show ?thesis
  proof (cases "\<not> HasPrefix ?t ''@'' \<and> length (Fields spec) = 5")
    case True
    then have ne: "?t \<noteq> ''''" using f by (auto simp: Fields_def)
    have w: "withSeconds spec = ''0 '' @ ?t" using True by (simp add: withSeconds_def Let_def f)
    have "length (Fields (''0 '' @ ?t)) = 6" using True f by (simp only: Fields_zero) simp
    then have "withSeconds (''0 '' @ ?t) = ''0 '' @ ?t"
      by (simp add: withSeconds_def Let_def no_space_zero [OF i ne, simplified])
    with w True f show ?thesis by (simp add: Fields_zero [simplified])
  next
    case False
    then have "withSeconds spec = ?t" by (auto simp: withSeconds_def Let_def f)
    with False f i show ?thesis by (auto simp: withSeconds_def Let_def)
  qed
qed

section \<open>One entry per job, one job per name\<close>

definition job_key :: "ScheduledJob \<Rightarrow> string \<times> string" where
  "job_key j = (sj_AgentID j, normalizeJobName (sj_Name j))"

definition entry_of :: "string \<times> jobEntry \<Rightarrow> int \<times> string" where
  "entry_of x = (je_entryID (snd x), fst x)"

definition sched_ok :: "Scheduler \<Rightarrow> bool" where
  "sched_ok s \<longleftrightarrow> distinct (map fst (sc_jobs s)) \<and> inj_on (\<lambda>x. job_key (je_job (snd x))) (set (sc_jobs s))
     \<and> (\<forall>x\<in>set (sc_jobs s). sj_ID (je_job (snd x)) = fst x)
     \<and> set (sc_cron s) = entry_of ` set (sc_jobs s) \<and> distinct (map fst (sc_cron s))
     \<and> (\<forall>c\<in>set (sc_cron s). fst c < sc_next s)"

definition matches_job :: "ScheduledJob \<Rightarrow> string \<times> jobEntry \<Rightarrow> bool" where
  "matches_job j ie \<longleftrightarrow> sj_AgentID (je_job (snd ie)) = sj_AgentID j \<and> sameJobName (sj_Name (je_job (snd ie))) (sj_Name j)"

lemma matches_key: "matches_job j ie \<longleftrightarrow> job_key (je_job (snd ie)) = job_key j"
  by (simp add: matches_job_def job_key_def sameJobName_def)

text \<open>Dropping a job with its cron entry.\<close>

definition drop_job :: "dberr \<Rightarrow> string \<times> jobEntry \<Rightarrow> Scheduler \<Rightarrow> Scheduler" where
  "drop_job derr ie s = (cron_remove (je_entryID (snd ie)) s)\<lparr>sc_jobs := filter (\<lambda>x. fst x \<noteq> fst ie) (sc_jobs s),
     sc_db := snd (DeleteJob derr (fst ie) (sc_db s))\<rparr>"

lemma entry_ids: "sched_ok s \<Longrightarrow> x \<in> set (sc_jobs s) \<Longrightarrow> y \<in> set (sc_jobs s) \<Longrightarrow>
    je_entryID (snd x) = je_entryID (snd y) \<longleftrightarrow> x = y"
proof
  assume ok: "sched_ok s" and m: "x \<in> set (sc_jobs s)" "y \<in> set (sc_jobs s)" and e: "je_entryID (snd x) = je_entryID (snd y)"
  have "entry_of x \<in> set (sc_cron s)" "entry_of y \<in> set (sc_cron s)" using ok m by (auto simp: sched_ok_def)
  moreover have "fst (entry_of x) = fst (entry_of y)" using e by (simp add: entry_of_def)
  ultimately have "entry_of x = entry_of y"
    using ok by (auto simp: sched_ok_def distinct_map dest: inj_onD)
  then have "fst x = fst y" by (simp add: entry_of_def)
  then show "x = y" using ok m by (auto simp: sched_ok_def distinct_map dest: inj_onD)
qed simp

lemma same_job: "sched_ok s \<Longrightarrow> x \<in> set (sc_jobs s) \<Longrightarrow> y \<in> set (sc_jobs s) \<Longrightarrow> fst x = fst y \<Longrightarrow> x = y"
  by (auto simp: sched_ok_def distinct_map dest: inj_onD)

lemma same_key: "sched_ok s \<Longrightarrow> x \<in> set (sc_jobs s) \<Longrightarrow> y \<in> set (sc_jobs s) \<Longrightarrow>
    job_key (je_job (snd x)) = job_key (je_job (snd y)) \<Longrightarrow> x = y"
  using inj_onD [of "\<lambda>x. job_key (je_job (snd x))" "set (sc_jobs s)" x y] by (simp add: sched_ok_def)

lemma drop_job_ok:
  assumes "sched_ok s" and "ie \<in> set (sc_jobs s)"
  shows "sched_ok (drop_job derr ie s)"
proof -
  have jobs: "set (sc_jobs (drop_job derr ie s)) = set (sc_jobs s) - {ie}"
    using same_job [OF assms(1) _ assms(2)] by (auto simp: drop_job_def)
  have "set (sc_cron (drop_job derr ie s)) = {c \<in> entry_of ` set (sc_jobs s). fst c \<noteq> je_entryID (snd ie)}"
    using assms(1) by (auto simp: drop_job_def cron_remove_def sched_ok_def)
  also have "\<dots> = entry_of ` (set (sc_jobs s) - {ie})"
    using entry_ids [OF assms(1) _ assms(2)] by (auto simp: entry_of_def)
  finally have cron: "set (sc_cron (drop_job derr ie s)) = entry_of ` (set (sc_jobs s) - {ie})" .
  have i: "inj_on (\<lambda>x. job_key (je_job (snd x))) (set (sc_jobs s) - {ie})"
    by (rule inj_on_subset [of _ "set (sc_jobs s)"]) (use assms(1) in \<open>auto simp: sched_ok_def\<close>)
  have dj: "distinct (map fst (sc_jobs (drop_job derr ie s)))" "distinct (map fst (sc_cron (drop_job derr ie s)))"
    using assms(1) by (simp_all add: drop_job_def cron_remove_def sched_ok_def distinct_map_filter)
  have n: "sc_next (drop_job derr ie s) = sc_next s" by (simp add: drop_job_def cron_remove_def)
  show ?thesis unfolding sched_ok_def jobs cron n
    using assms(1) i dj cron by (auto simp: sched_ok_def)
qed

lemma merge_one_simps:
  "merge_one derr ie (j, s) =
     (if fst ie \<noteq> sj_ID j \<and> matches_job j ie
      then (j\<lparr>sj_ID := fst ie, sj_RunCount := (if sj_RunCount j = 0 then sj_RunCount (je_job (snd ie)) else sj_RunCount j)\<rparr>,
            drop_job derr ie s)
      else (j, s))"
  by (simp add: merge_one_def matches_job_def drop_job_def Let_def)

lemma fold_no_match:
  "\<forall>ie\<in>set xs. fst ie = sj_ID j \<or> \<not> matches_job j ie \<Longrightarrow> fold (merge_one derr) xs (j, s) = (j, s)"
  by (induction xs) (auto simp: merge_one_simps)

text \<open>With one job per name, at most one job is merged.\<close>

lemma fold_merge:
  assumes "sched_ok s"
  obtains (none) "fold (merge_one derr) (sc_jobs s) (j, s) = (j, s)"
      "\<forall>ie\<in>set (sc_jobs s). matches_job j ie \<longrightarrow> fst ie = sj_ID j"
  | (one) ie where "ie \<in> set (sc_jobs s)" "matches_job j ie" "fst ie \<noteq> sj_ID j"
      "fold (merge_one derr) (sc_jobs s) (j, s) = merge_one derr ie (j, s)"
proof (cases "\<exists>ie\<in>set (sc_jobs s). matches_job j ie \<and> fst ie \<noteq> sj_ID j")
  case False
  then show thesis by (intro none fold_no_match) auto
next
  case True
  then obtain ie where ie: "ie \<in> set (sc_jobs s)" "matches_job j ie" "fst ie \<noteq> sj_ID j" by blast
  then obtain xs ys where sp: "sc_jobs s = xs @ ie # ys" by (meson split_list)
  have inj: "inj_on (\<lambda>x. job_key (je_job (snd x))) (set (sc_jobs s))" and d: "distinct (map fst (sc_jobs s))"
    using assms by (simp_all add: sched_ok_def)
  have only: "x = ie" if "x \<in> set (sc_jobs s)" "matches_job j x" for x
    using inj_onD [OF inj _ that(1) ie(1)] that(2) ie(2) by (simp add: matches_key)
  have out: "ie \<notin> set xs \<union> set ys" using d by (auto simp: sp)
  have nm: "\<forall>x\<in>set xs \<union> set ys. \<not> matches_job j x"
  proof (intro ballI notI)
    fix x assume x: "x \<in> set xs \<union> set ys" "matches_job j x"
    from x(1) have "x \<in> set (sc_jobs s)" by (auto simp: sp)
    from only [OF this x(2)] out x(1) show False by simp
  qed
  obtain j' s' where m: "merge_one derr ie (j, s) = (j', s')" by (cases "merge_one derr ie (j, s)")
  have "matches_job j' x = matches_job j x" for x
    using m ie(2,3) by (auto simp: merge_one_simps matches_job_def)
  then have "fold (merge_one derr) ys (j', s') = (j', s')" using nm by (intro fold_no_match) auto
  moreover have "fold (merge_one derr) xs (j, s) = (j, s)" using nm by (intro fold_no_match) auto
  ultimately have "fold (merge_one derr) (sc_jobs s) (j, s) = merge_one derr ie (j, s)" by (simp add: sp m)
  with ie show thesis by (rule one)
qed

definition replace_entry :: "string \<Rightarrow> Scheduler \<Rightarrow> Scheduler" where
  "replace_entry i s = (case row_of fst i (sc_jobs s) of None \<Rightarrow> s | Some ie \<Rightarrow> cron_remove (je_entryID (snd ie)) s)"

lemma AddJob_stages:
  assumes "fold (merge_one (sd_delete en)) (sc_jobs s) (if sj_ID j = '''' then j\<lparr>sj_ID := sd_uuid en\<rparr> else j, s) = (j2, s2)"
  shows "AddJob en j s = cron_add en (j2\<lparr>sj_Cron := withSeconds (sj_Cron j2)\<rparr>) (replace_entry (sj_ID j2) s2)"
  using assms by (simp add: AddJob_def replace_entry_def)

lemma replace_entry_simps:
  assumes "sched_ok s"
  shows "sc_jobs (replace_entry i s) = sc_jobs s" "sc_next (replace_entry i s) = sc_next s"
    "set (sc_cron (replace_entry i s)) = entry_of ` {x \<in> set (sc_jobs s). fst x \<noteq> i}"
    "distinct (map fst (sc_cron (replace_entry i s)))"
proof -
  show "sc_jobs (replace_entry i s) = sc_jobs s" "sc_next (replace_entry i s) = sc_next s"
    by (simp_all add: replace_entry_def cron_remove_def split: option.split)
  show "distinct (map fst (sc_cron (replace_entry i s)))"
    using assms by (auto simp: replace_entry_def cron_remove_def sched_ok_def distinct_map_filter split: option.split)
  show "set (sc_cron (replace_entry i s)) = entry_of ` {x \<in> set (sc_jobs s). fst x \<noteq> i}"
  proof (cases "row_of fst i (sc_jobs s)")
    case None
    then have "{x \<in> set (sc_jobs s). fst x \<noteq> i} = set (sc_jobs s)" by (auto simp: row_of_None)
    with None assms show ?thesis by (simp add: replace_entry_def sched_ok_def)
  next
    case (Some ie)
    then have ie: "ie \<in> set (sc_jobs s)" "fst ie = i" by (auto dest: row_of_Some)
    have "set (sc_cron (replace_entry i s)) = {c \<in> entry_of ` set (sc_jobs s). fst c \<noteq> je_entryID (snd ie)}"
      using assms Some by (auto simp: replace_entry_def cron_remove_def sched_ok_def)
    also have "\<dots> = entry_of ` {x \<in> set (sc_jobs s). x \<noteq> ie}"
      using entry_ids [OF assms _ ie(1)] by (auto simp: entry_of_def)
    also have "{x \<in> set (sc_jobs s). x \<noteq> ie} = {x \<in> set (sc_jobs s). fst x \<noteq> i}"
      using same_job [OF assms _ ie(1)] ie(2) by auto
    finally show ?thesis .
  qed
qed

lemma cron_add_jobs:
  assumes "sched_ok s" and "sd_valid en (sj_Cron j)"
  shows "set (sc_jobs (snd (cron_add en j (replace_entry (sj_ID j) s))))
    = insert (sj_ID j, \<lparr>je_job = j, je_entryID = sc_next s\<rparr>) {x \<in> set (sc_jobs s). fst x \<noteq> sj_ID j}"
  using assms set_upsert_replace [of fst "sc_jobs s" "(sj_ID j, \<lparr>je_job = j, je_entryID = sc_next s\<rparr>)"]
  by (simp add: cron_add_def Let_def split_beta replace_entry_simps sched_ok_def)

interpretation sched_jobs: keyed_table fst "\<lambda>_ x. x"
  by unfold_locales simp

lemma cron_add_ok:
  assumes "sched_ok s" and "sd_valid en (sj_Cron j)"
    and "\<forall>ie\<in>set (sc_jobs s). matches_job j ie \<longrightarrow> fst ie = sj_ID j"
  shows "sched_ok (snd (cron_add en j (replace_entry (sj_ID j) s)))" (is "sched_ok ?s'")
proof -
  let ?old = "{x \<in> set (sc_jobs s). fst x \<noteq> sj_ID j}"
  let ?new = "(sj_ID j, \<lparr>je_job = j, je_entryID = sc_next s\<rparr>)"
  note re = replace_entry_simps [OF assms(1), of "sj_ID j"]
  have jobs: "set (sc_jobs ?s') = insert ?new ?old" by (rule cron_add_jobs [OF assms(1,2)])
  have cron: "sc_cron ?s' = sc_cron (replace_entry (sj_ID j) s) @ [(sc_next s, sj_ID j)]" "sc_next ?s' = sc_next s + 1"
    using assms(2) by (simp_all add: cron_add_def Let_def split_beta re)
  have d: "distinct (map fst (sc_jobs ?s'))"
    using assms(1,2) by (simp add: cron_add_def Let_def split_beta re sched_jobs.distinct_upsert sched_ok_def)
  have lt: "\<forall>x\<in>?old. je_entryID (snd x) < sc_next s"
    using assms(1) by (fastforce simp: sched_ok_def entry_of_def)
  have inj: "inj_on (\<lambda>x. job_key (je_job (snd x))) (insert ?new ?old)"
  proof -
    have "inj_on (\<lambda>x. job_key (je_job (snd x))) ?old"
      by (rule inj_on_subset [of _ "set (sc_jobs s)"]) (use assms(1) in \<open>auto simp: sched_ok_def\<close>)
    moreover have "job_key j \<noteq> job_key (je_job (snd x))" if "x \<in> ?old" for x
      using assms(3) that unfolding matches_key by (metis (mono_tags, lifting) mem_Collect_eq)
    ultimately show ?thesis unfolding inj_on_insert by fastforce
  qed
  have sc: "set (sc_cron ?s') = entry_of ` insert ?new ?old" using re(3) cron(1) by (auto simp: entry_of_def)
  have dc: "distinct (map fst (sc_cron ?s'))" and next_lt: "\<forall>c\<in>set (sc_cron ?s'). fst c < sc_next ?s'"
    using re(3,4) lt cron by (fastforce simp: entry_of_def)+
  have ids: "\<forall>x\<in>insert ?new ?old. sj_ID (je_job (snd x)) = fst x" using assms(1) by (auto simp: sched_ok_def)
  show ?thesis unfolding sched_ok_def jobs using d inj ids sc dc next_lt by simp
qed

lemma merge_state:
  assumes "sched_ok s" and "fold (merge_one derr) (sc_jobs s) (j, s) = (j2, s2)"
  shows "sched_ok s2 \<and> (\<forall>ie\<in>set (sc_jobs s2). matches_job j2 ie \<longrightarrow> fst ie = sj_ID j2) \<and> sj_Cron j2 = sj_Cron j"
  using assms(1)
proof (cases rule: fold_merge [where j = j and derr = derr])
  case none
  with assms show ?thesis by simp
next
  case (one ie)
  then have j2: "j2 = j\<lparr>sj_ID := fst ie, sj_RunCount := (if sj_RunCount j = 0 then sj_RunCount (je_job (snd ie)) else sj_RunCount j)\<rparr>"
    and s2: "s2 = drop_job derr ie s"
    using assms(2) by (simp_all add: merge_one_simps)
  have "x = ie" if "x \<in> set (sc_jobs s)" "matches_job j x" for x
    using same_key [OF assms(1) that(1) one(1)] that(2) one(2) by (simp add: matches_key)
  then have "\<forall>x\<in>set (sc_jobs s2). \<not> matches_job j2 x"
    by (auto simp: s2 drop_job_def j2 matches_job_def)
  with drop_job_ok [OF assms(1) one(1)] s2 j2 show ?thesis by simp
qed

text \<open>
  Adding a job whose schedule the cron library accepts keeps the scheduler consistent: every job has
  exactly one live cron entry and every entry is a job's, and no agent has two jobs of one name, however
  the names are spelt.
\<close>

theorem add_keeps_one_job_per_name:
  assumes "sched_ok s" and "sd_valid en (withSeconds (sj_Cron j))"
  shows "sched_ok (snd (AddJob en j s))"
proof -
  let ?j = "if sj_ID j = '''' then j\<lparr>sj_ID := sd_uuid en\<rparr> else j"
  obtain j2 s2 where f: "fold (merge_one (sd_delete en)) (sc_jobs s) (?j, s) = (j2, s2)" by (meson surj_pair)
  let ?j3 = "j2\<lparr>sj_Cron := withSeconds (sj_Cron j2)\<rparr>"
  note m = merge_state [OF assms(1) f]
  have "\<forall>ie\<in>set (sc_jobs s2). matches_job ?j3 ie \<longrightarrow> fst ie = sj_ID ?j3" using m by (simp add: matches_job_def)
  moreover have "sd_valid en (sj_Cron ?j3)" using m assms(2) by simp
  ultimately have "sched_ok (snd (cron_add en ?j3 (replace_entry (sj_ID ?j3) s2)))" using m by (intro cron_add_ok) simp_all
  then show ?thesis by (simp add: AddJob_stages [OF f])
qed

text \<open>
  Adding a job an agent already has under that name, in any spelling, refreshes it: no job is added or
  lost, and the one there takes the new schedule and payload under its old id, with the runs it has
  counted.
\<close>

theorem readd_refreshes:
  assumes "sched_ok s" and "sd_valid en (withSeconds (sj_Cron j))"
    and "ie \<in> set (sc_jobs s)" and "matches_job j ie"
    and "(if sj_ID j = '''' then sd_uuid en else sj_ID j) \<noteq> fst ie"
  shows "fst ` set (sc_jobs (snd (AddJob en j s))) = fst ` set (sc_jobs s)
    \<and> (\<exists>e. (fst ie, e) \<in> set (sc_jobs (snd (AddJob en j s)))
         \<and> je_job e = j\<lparr>sj_ID := fst ie, sj_Cron := withSeconds (sj_Cron j),
             sj_RunCount := (if sj_RunCount j = 0 then sj_RunCount (je_job (snd ie)) else sj_RunCount j)\<rparr>)"
proof -
  let ?j = "if sj_ID j = '''' then j\<lparr>sj_ID := sd_uuid en\<rparr> else j"
  define rc where "rc = (if sj_RunCount j = 0 then sj_RunCount (je_job (snd ie)) else sj_RunCount j)"
  let ?j2 = "j\<lparr>sj_ID := fst ie, sj_RunCount := rc\<rparr>" and ?s2 = "drop_job (sd_delete en) ie s"
  let ?j3 = "?j2\<lparr>sj_Cron := withSeconds (sj_Cron j)\<rparr>"
  have mj: "matches_job ?j x = matches_job j x" for x by (simp add: matches_job_def)
  have neq: "fst ie \<noteq> sj_ID ?j" using assms(5) by auto
  have f: "fold (merge_one (sd_delete en)) (sc_jobs s) (?j, s) = (?j2, ?s2)"
    using assms(1)
  proof (cases rule: fold_merge [where j = "?j" and derr = "sd_delete en"])
    case none
    with assms(3,4) neq mj show ?thesis by blast
  next
    case (one x)
    have "job_key (je_job (snd x)) = job_key (je_job (snd ie))"
      using one(2) assms(4) unfolding mj by (simp add: matches_key)
    then have "x = ie" by (rule same_key [OF assms(1) one(1) assms(3)])
    with one show ?thesis by (simp add: merge_one_simps rc_def)
  qed
  have ok2: "sched_ok ?s2" by (rule drop_job_ok [OF assms(1,3)])
  have "set (sc_jobs (snd (AddJob en j s))) = insert (fst ie, \<lparr>je_job = ?j3, je_entryID = sc_next ?s2\<rparr>)
      {x \<in> set (sc_jobs ?s2). fst x \<noteq> fst ie}"
    using cron_add_jobs [OF ok2, of en ?j3] assms(2) unfolding AddJob_stages [OF f] by simp
  moreover have "{x \<in> set (sc_jobs ?s2). fst x \<noteq> fst ie} = {x \<in> set (sc_jobs s). fst x \<noteq> fst ie}"
    by (auto simp: drop_job_def)
  ultimately have jobs: "set (sc_jobs (snd (AddJob en j s))) =
      insert (fst ie, \<lparr>je_job = ?j3, je_entryID = sc_next ?s2\<rparr>) {x \<in> set (sc_jobs s). fst x \<noteq> fst ie}"
    by simp
  have "fst ` insert (fst ie, \<lparr>je_job = ?j3, je_entryID = sc_next ?s2\<rparr>) {x \<in> set (sc_jobs s). fst x \<noteq> fst ie}
      = fst ` set (sc_jobs s)" using assms(3) by (auto simp: image_iff)
  moreover have "?j3 = j\<lparr>sj_ID := fst ie, sj_Cron := withSeconds (sj_Cron j), sj_RunCount := rc\<rparr>" by simp
  ultimately show ?thesis unfolding jobs rc_def [symmetric]
    by (intro conjI exI [of _ "\<lparr>je_job = ?j3, je_entryID = sc_next ?s2\<rparr>"]) simp_all
qed

section \<open>A schedule that is refused\<close>

definition demo_job :: "string \<Rightarrow> string \<Rightarrow> string \<Rightarrow> ScheduledJob" where
  "demo_job i name cron = \<lparr>sj_ID = i, sj_Name = name, sj_Cron = cron, sj_AgentID = ''amy'', sj_Payload = [],
     sj_Enabled = True, sj_LastRun = None, sj_NextRun = None, sj_RunCount = 0, sj_CatchUp = False\<rparr>"

definition demo_sched_env :: "string \<Rightarrow> sched_env" where
  "demo_sched_env uuid = \<lparr>sd_valid = (\<lambda>c. length (Fields c) = 6), sd_enc = (\<lambda>_. ''{}''), sd_dec = (\<lambda>_. []),
     sd_uuid = uuid, sd_delete = None, sd_save = None, sd_now = 5\<rparr>"

definition no_jobs :: Scheduler where
  "no_jobs = \<lparr>sc_jobs = [], sc_cron = [], sc_next = 1, sc_db = []\<rparr>"

text \<open>
  Restating a job with a schedule the cron library refuses loses the job it should have refreshed: the
  old one is taken out of memory, the cron library and the store before the new schedule is parsed, and
  the error is returned with nothing in its place.
\<close>

theorem refused_schedule_loses_job:
  "let s1 = snd (AddJob (demo_sched_env ''u1'') (demo_job '''' ''daily-nudge'' ''0 8 * * *'') no_jobs);
       (err, s2) = AddJob (demo_sched_env ''u2'') (demo_job '''' ''Daily Nudge'' ''8am'') s1
   in map fst (sc_jobs s1) = [''u1''] \<and> map stj_ID (sc_db s1) = [''u1''] \<and> err \<noteq> None
      \<and> sc_jobs s2 = [] \<and> sc_cron s2 = [] \<and> sc_db s2 = []"
  by code_simp

text \<open>
  Replacing a job under its own id with a schedule the cron library refuses leaves it listed, in memory and
  in the store, without a cron entry: it never fires again until the daemon restarts.
\<close>

theorem refused_schedule_silences_job:
  "let s1 = snd (AddJob (demo_sched_env '''') (demo_job ''j1'' ''nudge'' ''0 8 * * *'') no_jobs);
       (err, s2) = AddJob (demo_sched_env '''') (demo_job ''j1'' ''nudge'' ''8am'') s1
   in err \<noteq> None \<and> map fst (sc_jobs s2) = [''j1''] \<and> map stj_ID (sc_db s2) = [''j1''] \<and> sc_cron s2 = []
      \<and> \<not> sched_ok s2"
  by code_simp

section \<open>Firing\<close>

text \<open>What firing a job does, to the store, to memory and to the log.\<close>

lemma fire_counts_once:
  "fireJob None None nextAt uuid now ws i (s, lg) =
     (case row_of fst i (sc_jobs s) of
        None \<Rightarrow> (s, lg)
      | Some ie \<Rightarrow>
         (s\<lparr>sc_jobs := map (\<lambda>x. if fst x = i then (i, bump now (snd x)) else x) (sc_jobs s),
            sc_db := map (\<lambda>r. if stj_ID r = i then r\<lparr>stj_LastRun := Some now,
                 stj_NextRun := next_run nextAt (je_entryID (snd ie)), stj_RunCount := stj_RunCount r + 1\<rparr> else r) (sc_db s)\<rparr>,
          snd (Publish store_journal None None now uuid ws (job_event uuid now (je_job (snd ie))) lg)))"
  by (auto simp: fireJob_def Let_def UpdateJobRun_def update_where_def split: option.split)

section \<open>Concrete schedulers\<close>

lemma no_jobs_ok: "sched_ok no_jobs"
  by (simp add: sched_ok_def no_jobs_def)

theorem add_keeps_one_job_per_name_witness:
  "sched_ok (snd (AddJob (demo_sched_env ''u1'') (demo_job '''' ''daily-nudge'' ''0 8 * * *'') no_jobs))"
  by (rule add_keeps_one_job_per_name [OF no_jobs_ok]) code_simp

theorem readd_refreshes_witness:
  "let s = snd (AddJob (demo_sched_env ''u1'') (demo_job '''' ''daily-nudge'' ''0 8 * * *'') no_jobs)
   in fst ` set (sc_jobs (snd (AddJob (demo_sched_env ''u2'') (demo_job '''' ''Daily Nudge'' ''0 9 * * *'') s))) = {''u1''}"
proof -
  let ?s = "snd (AddJob (demo_sched_env ''u1'') (demo_job '''' ''daily-nudge'' ''0 8 * * *'') no_jobs)"
  let ?ie = "hd (sc_jobs ?s)"
  have ok: "sched_ok ?s" by code_simp
  have v: "sd_valid (demo_sched_env ''u2'') (withSeconds (sj_Cron (demo_job '''' ''Daily Nudge'' ''0 9 * * *'')))"
    and m: "?ie \<in> set (sc_jobs ?s)" and n: "matches_job (demo_job '''' ''Daily Nudge'' ''0 9 * * *'') ?ie"
    and d: "(if sj_ID (demo_job '''' ''Daily Nudge'' ''0 9 * * *'') = '''' then sd_uuid (demo_sched_env ''u2'')
        else sj_ID (demo_job '''' ''Daily Nudge'' ''0 9 * * *'')) \<noteq> fst ?ie"
    and u: "fst ` set (sc_jobs ?s) = {''u1''}"
    by code_simp+
  show ?thesis unfolding Let_def using readd_refreshes [OF ok v m n d] u by simp
qed

end
