(* ===== verification/Loop_Step_Store.thy ===== *)
theory Loop_Step_Store
  imports Prelude
begin

text \<open>
  \<^verbatim>\<open>internal/store/loop_step_store.go\<close>: the checkpoints of a loop's execution, and which execution
  a loop is part-way through. \<^verbatim>\<open>internal/runtime/looprun.go\<close>: which execution an attempt belongs
  to, and what ends one.
\<close>

record LoopStepRow =
  ls_Execution :: string
  ls_Loop :: string
  ls_Name :: string
  ls_Result :: string
  ls_CompletedAt :: gtime

text \<open>The standing of a loop, whatever its runs: a row of \<open>loop_state\<close>, which the run store keeps too.\<close>

record LoopState =
  lo_Loop :: string
  lo_LeaseUntil :: "gtime option"
  lo_LeaseOwner :: string
  lo_LastSuccessAt :: "gtime option"
  lo_LastFailureAt :: "gtime option"
  lo_ConsecFails :: int
  lo_NextRetryAt :: "gtime option"
  lo_RetryAttempt :: int
  lo_LastError :: string
  lo_ExecutionID :: string

definition new_state :: "string \<Rightarrow> LoopState" where
  "new_state loop = \<lparr>lo_Loop = loop, lo_LeaseUntil = None, lo_LeaseOwner = '''', lo_LastSuccessAt = None, lo_LastFailureAt = None,
     lo_ConsecFails = 0, lo_NextRetryAt = None, lo_RetryAttempt = 0, lo_LastError = '''', lo_ExecutionID = ''''\<rparr>"

record steps_db =
  step_rows :: "LoopStepRow list"
  loop_states :: "LoopState list"

definition step_key :: "LoopStepRow \<Rightarrow> string \<times> string" where
  "step_key r = (ls_Execution r, ls_Name r)"

definition merge_step :: "LoopStepRow \<Rightarrow> LoopStepRow \<Rightarrow> LoopStepRow" where
  "merge_step r x = r\<lparr>ls_Result := ls_Result x, ls_CompletedAt := ls_CompletedAt x\<rparr>"

definition SaveLoopStep :: "dberr \<Rightarrow> gtime \<Rightarrow> string \<Rightarrow> string \<Rightarrow> string \<Rightarrow> string \<Rightarrow> steps_db \<Rightarrow> dberr \<times> steps_db" where
  "SaveLoopStep err now ex loop name result db =
     (case err of Some m \<Rightarrow> (Some m, db)
      | None \<Rightarrow> (None, db\<lparr>step_rows := upsert step_key merge_step
          \<lparr>ls_Execution = ex, ls_Loop = loop, ls_Name = name, ls_Result = result, ls_CompletedAt = now\<rparr> (step_rows db)\<rparr>))"

text \<open>The result of a step, and whether it ran at all.\<close>

definition LoopStep :: "dberr \<Rightarrow> string \<Rightarrow> string \<Rightarrow> steps_db \<Rightarrow> string + string option" where
  "LoopStep err ex name db =
     (case err of Some m \<Rightarrow> Inl m | None \<Rightarrow> Inr (map_option ls_Result (row_of step_key (ex, name) (step_rows db))))"

definition CompletedSteps :: "dberr \<Rightarrow> string \<Rightarrow> steps_db \<Rightarrow> string + nat" where
  "CompletedSteps err ex db =
     (case err of Some m \<Rightarrow> Inl m | None \<Rightarrow> Inr (length (filter (\<lambda>r. ls_Execution r = ex) (step_rows db))))"

definition ClearLoopSteps :: "dberr \<Rightarrow> string \<Rightarrow> steps_db \<Rightarrow> dberr \<times> steps_db" where
  "ClearLoopSteps err ex db =
     (case err of Some m \<Rightarrow> (Some m, db)
      | None \<Rightarrow> (None, db\<lparr>step_rows := delete_where (\<lambda>r. ls_Execution r = ex) (step_rows db)\<rparr>))"

definition merge_execution :: "LoopState \<Rightarrow> LoopState \<Rightarrow> LoopState" where
  "merge_execution r x = r\<lparr>lo_ExecutionID := lo_ExecutionID x\<rparr>"

definition SetLoopExecution :: "dberr \<Rightarrow> string \<Rightarrow> string \<Rightarrow> steps_db \<Rightarrow> dberr \<times> steps_db" where
  "SetLoopExecution err loop ex db =
     (case err of Some m \<Rightarrow> (Some m, db)
      | None \<Rightarrow> (None, db\<lparr>loop_states := upsert lo_Loop merge_execution ((new_state loop)\<lparr>lo_ExecutionID := ex\<rparr>) (loop_states db)\<rparr>))"

definition LoopExecution :: "dberr \<Rightarrow> string \<Rightarrow> steps_db \<Rightarrow> string + string" where
  "LoopExecution err loop db =
     (case err of Some m \<Rightarrow> Inl m
      | None \<Rightarrow> Inr (case row_of lo_Loop loop (loop_states db) of None \<Rightarrow> '''' | Some r \<Rightarrow> lo_ExecutionID r))"

definition PruneLoopSteps :: "dberr \<Rightarrow> gtime \<Rightarrow> steps_db \<Rightarrow> (string + nat) \<times> steps_db" where
  "PruneLoopSteps err before db =
     (case err of Some m \<Rightarrow> (Inl m, db)
      | None \<Rightarrow> (Inr (length (filter (\<lambda>r. ls_CompletedAt r < before) (step_rows db))),
          db\<lparr>step_rows := delete_where (\<lambda>r. ls_CompletedAt r < before) (step_rows db)\<rparr>))"

section \<open>Executions\<close>

text \<open>The answers of the driver to reading and to writing the loop's execution; a fresh id is an
  argument.\<close>

definition executionFor :: "dberr \<Rightarrow> dberr \<Rightarrow> string \<Rightarrow> string \<Rightarrow> int \<Rightarrow> steps_db \<Rightarrow> string \<times> steps_db" where
  "executionFor rerr werr uuid loop attempt db =
     (let fresh = (case SetLoopExecution werr loop uuid db of (Some _, db') \<Rightarrow> ('''', db') | (None, db') \<Rightarrow> (uuid, db'))
      in if attempt > 1
         then (case LoopExecution rerr loop db of
                 Inr ex \<Rightarrow> if ex \<noteq> '''' then (ex, db) else fresh
               | Inl _ \<Rightarrow> fresh)
         else fresh)"

definition finishExecution :: "dberr \<Rightarrow> dberr \<Rightarrow> string \<Rightarrow> string \<Rightarrow> steps_db \<Rightarrow> steps_db" where
  "finishExecution cerr werr loop ex db =
     (if ex = '''' then db else snd (SetLoopExecution werr loop '''' (snd (ClearLoopSteps cerr ex db))))"

section \<open>Lookups\<close>

interpretation steps_table: keyed_table step_key merge_step
  by unfold_locales (simp add: step_key_def merge_step_def)

interpretation executions: keyed_table lo_Loop merge_execution
  by unfold_locales (simp add: merge_execution_def)

lemma LoopExecution_SetLoopExecution:
  "LoopExecution None loop' (snd (SetLoopExecution None loop ex db)) = (if loop' = loop then Inr ex else LoopExecution None loop' db)"
  by (auto simp: LoopExecution_def SetLoopExecution_def executions.row_upsert merge_execution_def new_state_def split: option.splits)

lemma row_SaveLoopStep:
  "row_of step_key k (step_rows (snd (SaveLoopStep None now ex loop name result db))) =
    (if k = (ex, name)
     then Some (case row_of step_key k (step_rows db) of
            None \<Rightarrow> \<lparr>ls_Execution = ex, ls_Loop = loop, ls_Name = name, ls_Result = result, ls_CompletedAt = now\<rparr>
          | Some r \<Rightarrow> r\<lparr>ls_Result := result, ls_CompletedAt := now\<rparr>)
     else row_of step_key k (step_rows db))"
  by (auto simp: SaveLoopStep_def steps_table.row_upsert step_key_def merge_step_def split: option.splits)

lemma LoopStep_SaveLoopStep:
  "LoopStep None ex' name' (snd (SaveLoopStep None now ex loop name result db)) =
    (if (ex', name') = (ex, name) then Inr (Some result) else LoopStep None ex' name' db)"
  by (auto simp: LoopStep_def row_SaveLoopStep split: option.splits)



end
