(* ===== verification/Waiter_Store.thy ===== *)
theory Waiter_Store
  imports Prelude
begin

text \<open>
  \<^verbatim>\<open>internal/store/waiter_store.go\<close>: runs parked on an event, one row per execution and step. A
  waiter is pending while \<open>wt_ResolvedAt\<close> is \<open>None\<close>; resolving it is a compare-and-set. How a match
  and a result are written as text is \<open>encoding/json\<close>'s, so a match is its text, and so is a result.
\<close>

record Waiter =
  wt_ID :: string
  wt_ExecutionID :: string
  wt_Loop :: string
  wt_Step :: string
  wt_CaseID :: string
  wt_EventKind :: string
  wt_MatchJSON :: string
  wt_ExpiresAt :: "gtime option"
  wt_CreatedAt :: gtime
  wt_ResolvedAt :: "gtime option"
  wt_ResultJSON :: string

definition wait_key :: "Waiter \<Rightarrow> string \<times> string" where
  "wait_key w = (wt_ExecutionID w, wt_Step w)"

definition waiter_stamped :: "string \<Rightarrow> gtime \<Rightarrow> Waiter \<Rightarrow> Waiter" where
  "waiter_stamped uuid now w = w\<lparr>wt_ID := (if wt_ID w = '''' then uuid else wt_ID w),
     wt_MatchJSON := (if wt_MatchJSON w = '''' then ''{}'' else wt_MatchJSON w),
     wt_CreatedAt := (if wt_CreatedAt w = zero_time then now else wt_CreatedAt w),
     wt_ResolvedAt := None, wt_ResultJSON := ''''\<rparr>"

text \<open>The conflict clause covers the execution and step only; a second row with the same id is an error.\<close>

definition ArmWaiter :: "dberr \<Rightarrow> string \<Rightarrow> gtime \<Rightarrow> Waiter \<Rightarrow> Waiter list \<Rightarrow> dberr \<times> Waiter list" where
  "ArmWaiter err uuid now w0 ws =
     (let w = waiter_stamped uuid now w0
      in case err of Some m \<Rightarrow> (Some m, ws)
         | None \<Rightarrow> if row_of wait_key (wait_key w) ws \<noteq> None then (None, ws)
             else if row_of wt_ID (wt_ID w) ws \<noteq> None then (Some ''UNIQUE constraint failed: waiters.id'', ws)
             else (None, ws @ [w]))"

definition pending_for :: "string \<Rightarrow> gtime \<Rightarrow> Waiter \<Rightarrow> bool" where
  "pending_for kind now w \<longleftrightarrow> wt_EventKind w = kind \<and> wt_ResolvedAt w = None \<and>
     (case wt_ExpiresAt w of None \<Rightarrow> True | Some t \<Rightarrow> now < t)"

definition PendingWaiters :: "dberr \<Rightarrow> string \<Rightarrow> gtime \<Rightarrow> Waiter list \<Rightarrow> string + Waiter list" where
  "PendingWaiters err kind now ws =
     (case err of Some m \<Rightarrow> Inl m | None \<Rightarrow> Inr (sort_key wt_CreatedAt (filter (pending_for kind now) ws)))"

definition ResolveWaiter :: "dberr \<Rightarrow> gtime \<Rightarrow> string \<Rightarrow> string \<Rightarrow> Waiter list \<Rightarrow> (string + bool) \<times> Waiter list" where
  "ResolveWaiter err now i result ws =
     (case err of Some m \<Rightarrow> (Inl m, ws)
      | None \<Rightarrow> (Inr (\<exists>w\<in>set ws. wt_ID w = i \<and> wt_ResolvedAt w = None),
          update_where (\<lambda>w. wt_ID w = i \<and> wt_ResolvedAt w = None)
            (\<lambda>w. w\<lparr>wt_ResolvedAt := Some now, wt_ResultJSON := result\<rparr>) ws))"

definition WaiterResult :: "dberr \<Rightarrow> string \<Rightarrow> string \<Rightarrow> Waiter list \<Rightarrow> string + string option" where
  "WaiterResult err ex step ws =
     (case err of Some m \<Rightarrow> Inl m
      | None \<Rightarrow> Inr (case row_of wait_key (ex, step) ws of None \<Rightarrow> None
          | Some w \<Rightarrow> (if wt_ResolvedAt w = None then None else Some (wt_ResultJSON w))))"

definition expired_at :: "gtime \<Rightarrow> Waiter \<Rightarrow> bool" where
  "expired_at now w \<longleftrightarrow> wt_ResolvedAt w = None \<and> (case wt_ExpiresAt w of None \<Rightarrow> False | Some t \<Rightarrow> t \<le> now)"

definition timeoutResult :: string where
  "timeoutResult = ''{\"timeout\":true}''"

definition timed_out :: "gtime \<Rightarrow> Waiter \<Rightarrow> Waiter" where
  "timed_out now w = w\<lparr>wt_ResolvedAt := Some now, wt_ResultJSON := timeoutResult\<rparr>"

text \<open>The answers of the driver to the query and to the update; nothing found is no update.\<close>

definition ExpireWaiters :: "dberr \<Rightarrow> dberr \<Rightarrow> gtime \<Rightarrow> Waiter list \<Rightarrow> (string + Waiter list) \<times> Waiter list" where
  "ExpireWaiters rerr werr now ws =
     (case rerr of Some m \<Rightarrow> (Inl m, ws)
      | None \<Rightarrow> (let out = filter (expired_at now) ws
          in if out = [] then (Inr [], ws)
             else case werr of Some m \<Rightarrow> (Inl m, ws)
               | None \<Rightarrow> (Inr (map (timed_out now) out), update_where (expired_at now) (timed_out now) ws)))"

section \<open>A wait is settled once\<close>

definition waiters_ok :: "Waiter list \<Rightarrow> bool" where
  "waiters_ok ws \<longleftrightarrow> distinct (map wt_ID ws) \<and> distinct (map wait_key ws)"

datatype waiter_op = WArm dberr string gtime Waiter | WResolve dberr gtime string string
  | WExpire dberr dberr gtime

text \<open>What an operation wins: the waiters whose run its caller resumes.\<close>

fun waiter_step :: "waiter_op \<Rightarrow> Waiter list \<Rightarrow> string list \<times> Waiter list" where
  "waiter_step (WArm err uuid now w) ws = ([], snd (ArmWaiter err uuid now w ws))"
| "waiter_step (WResolve err now i r) ws =
     (case ResolveWaiter err now i r ws of (Inr True, ws') \<Rightarrow> ([i], ws') | (_, ws') \<Rightarrow> ([], ws'))"
| "waiter_step (WExpire rerr werr now) ws =
     (case ExpireWaiters rerr werr now ws of (Inr out, ws') \<Rightarrow> (map wt_ID out, ws') | (_, ws') \<Rightarrow> ([], ws'))"

primrec waiter_run :: "waiter_op list \<Rightarrow> Waiter list \<Rightarrow> string list \<times> Waiter list" where
  "waiter_run [] ws = ([], ws)"
| "waiter_run (p # ps) ws = (let (won, ws1) = waiter_step p ws; (more, ws2) = waiter_run ps ws1 in (won @ more, ws2))"

definition settled :: "Waiter list \<Rightarrow> string \<Rightarrow> bool" where
  "settled ws i \<longleftrightarrow> i \<in> wt_ID ` set ws \<and> (\<forall>w\<in>set ws. wt_ID w = i \<longrightarrow> wt_ResolvedAt w \<noteq> None)"

lemma wait_key_update [simp]:
  "wait_key (w\<lparr>wt_ResolvedAt := a, wt_ResultJSON := b\<rparr>) = wait_key w" "wait_key (timed_out now w) = wait_key w"
  "wt_ID (timed_out now w) = wt_ID w" "wt_ResolvedAt (timed_out now w) = Some now"
  by (simp_all add: wait_key_def timed_out_def)

lemma map_update_where:
  "(\<And>w. f (g w) = f w) \<Longrightarrow> map f (update_where P g ws) = map f ws"
  by (simp add: update_where_def)

lemma waiter_step_ok:
  assumes "waiters_ok ws"
  shows "waiters_ok (snd (waiter_step p ws))"
proof (cases p)
  case (WArm err uuid now w)
  with assms show ?thesis
    by (auto simp: ArmWaiter_def Let_def waiters_ok_def row_of_None split: option.splits)
qed (use assms in \<open>auto simp: ResolveWaiter_def ExpireWaiters_def Let_def waiters_ok_def map_update_where split: option.splits sum.splits bool.splits\<close>)

lemma settled_step:
  "settled ws i \<Longrightarrow> settled (snd (waiter_step p ws)) i \<and> i \<notin> set (fst (waiter_step p ws))"
proof (cases p)
  case (WArm err uuid now w)
  assume "settled ws i"
  with WArm show ?thesis
    by (auto simp: ArmWaiter_def Let_def settled_def row_of_None split: option.splits)
qed (auto simp: ResolveWaiter_def ExpireWaiters_def Let_def settled_def update_where_def expired_at_def image_image
      split: option.splits sum.splits bool.splits)

lemma won_step:
  assumes "waiters_ok ws"
  shows "distinct (fst (waiter_step p ws)) \<and> (\<forall>i \<in> set (fst (waiter_step p ws)). settled (snd (waiter_step p ws)) i)"
proof (cases p)
  case (WExpire rerr werr now)
  have inj: "inj_on wt_ID (set ws)" and d: "distinct ws"
    using assms by (simp_all add: waiters_ok_def distinct_map)
  have one: "w = w'" if "w \<in> set ws" "w' \<in> set ws" "wt_ID w = wt_ID w'" for w w'
    using inj_onD [OF inj] that by blast
  from WExpire d show ?thesis
    by (auto simp: ExpireWaiters_def Let_def settled_def update_where_def o_def distinct_map image_Un image_image
        intro: inj_on_subset [OF inj] split: option.splits sum.splits dest: one)
qed (auto simp: ResolveWaiter_def settled_def update_where_def image_Un image_image split: option.splits bool.splits)

lemma result_step:
  assumes "waiters_ok ws" and "WaiterResult None ex st ws = Inr (Some r)"
  shows "WaiterResult None ex st (snd (waiter_step p ws)) = Inr (Some r)"
proof -
  obtain w where w: "row_of wait_key (ex, st) ws = Some w" "wt_ResolvedAt w \<noteq> None" "wt_ResultJSON w = r"
    using assms(2) by (auto simp: WaiterResult_def split: option.splits if_splits)
  have "row_of wait_key (ex, st) (snd (waiter_step p ws)) = Some w"
  proof (cases p)
    case (WArm err uuid now v)
    with w(1) show ?thesis
      by (auto simp: ArmWaiter_def Let_def row_of_def find_Some_iff nth_append split: option.splits)
  next
    case (WResolve err now i v)
    with w(1,2) show ?thesis by (auto simp: ResolveWaiter_def row_update_where split: option.splits bool.splits)
  next
    case (WExpire rerr werr now)
    with w(1,2) show ?thesis
      by (auto simp: ExpireWaiters_def Let_def row_update_where expired_at_def split: option.splits sum.splits bool.splits)
  qed
  with w show ?thesis by (simp add: WaiterResult_def)
qed

text \<open>
  C22. Whatever events, redeliveries and deadlines race for a parked run, in any order and with any driver
  failures, each wait is won at most once, so at most one of them resumes the run; and once a wait has a
  result, every later look at it returns that same result.
\<close>
theorem wait_settles_once:
  assumes "waiters_ok ws"
  shows "distinct (fst (waiter_run ps ws)) \<and> (\<forall>i \<in> set (fst (waiter_run ps ws)). \<not> settled ws i) \<and>
    (WaiterResult None ex st ws = Inr (Some r) \<longrightarrow> WaiterResult None ex st (snd (waiter_run ps ws)) = Inr (Some r))"
  using assms
proof (induction ps arbitrary: ws)
  case (Cons p ps)
  obtain won ws1 where s: "waiter_step p ws = (won, ws1)" by fastforce
  have ok: "waiters_ok ws1" using waiter_step_ok [OF Cons.prems, of p] by (simp add: s)
  have w: "distinct won" "\<forall>i\<in>set won. settled ws1 i" "\<forall>i\<in>set won. \<not> settled ws i"
    and keep: "\<forall>i. settled ws i \<longrightarrow> settled ws1 i"
    using won_step [OF Cons.prems, of p] settled_step [of ws _ p] by (auto simp: s)
  have "WaiterResult None ex st ws = Inr (Some r) \<Longrightarrow> WaiterResult None ex st ws1 = Inr (Some r)"
    using result_step [OF Cons.prems, of ex st r p] by (simp add: s)
  with Cons.IH [OF ok] w keep show ?case by (auto simp: s Let_def split_def)
qed simp

definition sample_waiter :: Waiter where
  "sample_waiter = \<lparr>wt_ID = ''w'', wt_ExecutionID = ''e'', wt_Loop = ''l'', wt_Step = ''0-await'', wt_CaseID = '''', wt_EventKind = ''k'',
     wt_MatchJSON = ''{}'', wt_ExpiresAt = Some 5, wt_CreatedAt = 1, wt_ResolvedAt = None, wt_ResultJSON = ''''\<rparr>"

lemma wait_settles_once_witness:
  "distinct (fst (waiter_run [WResolve None 3 ''w'' ''x'', WExpire None None 6, WResolve None 7 ''w'' ''y''] [sample_waiter]))"
  by (rule conjunct1 [OF wait_settles_once]) (simp add: waiters_ok_def)

end
