(* ===== verification/Loop_Run_Store.thy ===== *)
theory Loop_Run_Store
  imports Loop_Step_Store
begin

text \<open>
  \<^verbatim>\<open>internal/store/loop_run_store.go\<close>: the runs of loops and the standing of each loop, with the
  lease that keeps a loop to one run at a time. The guard of the lease is the one of the statement for
  SQLite and Postgres. The duration of a run, which the driver computes, is left out.
\<close>

record LoopRun =
  lr_ID :: string
  lr_Loop :: string
  lr_Trigger :: string
  lr_Status :: string
  lr_Attempt :: int
  lr_StartedAt :: gtime
  lr_FinishedAt :: "gtime option"
  lr_Error :: string

section \<open>The lease\<close>

definition lease_free :: "gtime \<Rightarrow> LoopState \<Rightarrow> bool" where
  "lease_free now r \<longleftrightarrow> (case lo_LeaseUntil r of None \<Rightarrow> True | Some u \<Rightarrow> u < now)"

definition AcquireLoopLease :: "dberr \<Rightarrow> gtime \<Rightarrow> string \<Rightarrow> string \<Rightarrow> duration \<Rightarrow> LoopState list \<Rightarrow> (string + bool) \<times> LoopState list" where
  "AcquireLoopLease err now loop owner ttl ls =
     (case err of Some m \<Rightarrow> (Inl m, ls)
      | None \<Rightarrow> (case row_of lo_Loop loop ls of
            None \<Rightarrow> (Inr True, ls @ [(new_state loop)\<lparr>lo_LeaseUntil := Some (now + ttl), lo_LeaseOwner := owner\<rparr>])
          | Some r \<Rightarrow> if lease_free now r
              then (Inr True, update_where (\<lambda>r. lo_Loop r = loop) (\<lambda>r. r\<lparr>lo_LeaseUntil := Some (now + ttl), lo_LeaseOwner := owner\<rparr>) ls)
              else (Inr False, ls)))"

definition held_by :: "string \<Rightarrow> string \<Rightarrow> LoopState \<Rightarrow> bool" where
  "held_by loop owner r \<longleftrightarrow> lo_Loop r = loop \<and> lo_LeaseOwner r = owner"

definition RenewLoopLease :: "dberr \<Rightarrow> gtime \<Rightarrow> string \<Rightarrow> string \<Rightarrow> duration \<Rightarrow> LoopState list \<Rightarrow> (string + bool) \<times> LoopState list" where
  "RenewLoopLease err now loop owner ttl ls =
     (case err of Some m \<Rightarrow> (Inl m, ls)
      | None \<Rightarrow> (Inr (\<exists>r\<in>set ls. held_by loop owner r),
          update_where (held_by loop owner) (\<lambda>r. r\<lparr>lo_LeaseUntil := Some (now + ttl)\<rparr>) ls))"

definition ReleaseLoopLease :: "dberr \<Rightarrow> string \<Rightarrow> string \<Rightarrow> LoopState list \<Rightarrow> dberr \<times> LoopState list" where
  "ReleaseLoopLease err loop owner ls =
     (case err of Some m \<Rightarrow> (Some m, ls)
      | None \<Rightarrow> (None, update_where (held_by loop owner) (\<lambda>r. r\<lparr>lo_LeaseUntil := None, lo_LeaseOwner := ''''\<rparr>) ls))"

section \<open>Runs\<close>

record runs_db =
  rn_runs :: "LoopRun list"
  rn_states :: "LoopState list"

definition StartLoopRun :: "dberr \<Rightarrow> LoopRun \<Rightarrow> LoopRun list \<Rightarrow> dberr \<times> LoopRun list" where
  "StartLoopRun err r rs =
     (case err of Some m \<Rightarrow> (Some m, rs)
      | None \<Rightarrow> if row_of lr_ID (lr_ID r) rs \<noteq> None then (Some ''UNIQUE constraint failed: loop_runs.id'', rs)
          else (None, rs @ [r\<lparr>lr_Status := ''running'', lr_FinishedAt := None, lr_Error := ''''\<rparr>]))"

definition success_row :: "gtime \<Rightarrow> string \<Rightarrow> LoopState" where
  "success_row now loop = (new_state loop)\<lparr>lo_LastSuccessAt := Some now\<rparr>"

definition merge_success :: "LoopState \<Rightarrow> LoopState \<Rightarrow> LoopState" where
  "merge_success r x = r\<lparr>lo_LastSuccessAt := lo_LastSuccessAt x, lo_ConsecFails := 0, lo_NextRetryAt := None,
     lo_RetryAttempt := 0, lo_LastError := ''''\<rparr>"

definition failure_row :: "gtime \<Rightarrow> string \<Rightarrow> gtime option \<Rightarrow> int \<Rightarrow> string \<Rightarrow> LoopState" where
  "failure_row now loop nextRetry attempt msg = (new_state loop)\<lparr>lo_LastFailureAt := Some now, lo_ConsecFails := 1,
     lo_NextRetryAt := nextRetry, lo_RetryAttempt := attempt, lo_LastError := msg\<rparr>"

definition merge_failure :: "LoopState \<Rightarrow> LoopState \<Rightarrow> LoopState" where
  "merge_failure r x = r\<lparr>lo_LastFailureAt := lo_LastFailureAt x, lo_ConsecFails := lo_ConsecFails r + 1,
     lo_NextRetryAt := lo_NextRetryAt x, lo_RetryAttempt := lo_RetryAttempt x, lo_LastError := lo_LastError x\<rparr>"

text \<open>One transaction: it is committed whole, or the driver's answer is an error and nothing changes.\<close>

definition FinishLoopRun :: "dberr \<Rightarrow> gtime \<Rightarrow> string \<Rightarrow> string \<Rightarrow> string \<Rightarrow> string \<Rightarrow> int \<Rightarrow> gtime option \<Rightarrow> runs_db \<Rightarrow> dberr \<times> runs_db" where
  "FinishLoopRun err now i loop status msg attempt nextRetry db =
     (case err of Some m \<Rightarrow> (Some m, db)
      | None \<Rightarrow> (None, \<lparr>rn_runs = update_where (\<lambda>r. lr_ID r = i)
                   (\<lambda>r. r\<lparr>lr_Status := status, lr_FinishedAt := Some now, lr_Error := msg\<rparr>) (rn_runs db),
                 rn_states = (if status = ''ok''
                   then upsert lo_Loop merge_success (success_row now loop) (rn_states db)
                   else upsert lo_Loop merge_failure (failure_row now loop nextRetry attempt msg) (rn_states db))\<rparr>))"

definition retry_due :: "gtime \<Rightarrow> LoopState \<Rightarrow> bool" where
  "retry_due now r \<longleftrightarrow> (case lo_NextRetryAt r of None \<Rightarrow> False | Some t \<Rightarrow> t \<le> now)"

text \<open>The rows a query returns hold the loop, the attempt and the error only.\<close>

definition DueLoopRetries :: "dberr \<Rightarrow> gtime \<Rightarrow> LoopState list \<Rightarrow> string + LoopState list" where
  "DueLoopRetries err now ls =
     (case err of Some m \<Rightarrow> Inl m
      | None \<Rightarrow> Inr (map (\<lambda>r. (new_state (lo_Loop r))\<lparr>lo_RetryAttempt := lo_RetryAttempt r, lo_LastError := lo_LastError r\<rparr>)
          (filter (retry_due now) ls)))"

definition ClearLoopRetry :: "dberr \<Rightarrow> string \<Rightarrow> LoopState list \<Rightarrow> dberr \<times> LoopState list" where
  "ClearLoopRetry err loop ls =
     (case err of Some m \<Rightarrow> (Some m, ls)
      | None \<Rightarrow> (None, update_where (\<lambda>r. lo_Loop r = loop) (\<lambda>r. r\<lparr>lo_NextRetryAt := None\<rparr>) ls))"

definition LoopStates :: "dberr \<Rightarrow> LoopState list \<Rightarrow> string + LoopState list" where
  "LoopStates err ls =
     (case err of Some m \<Rightarrow> Inl m
      | None \<Rightarrow> Inr (sort_key lo_Loop (map (\<lambda>r. r\<lparr>lo_ExecutionID := ''''\<rparr>) ls)))"

definition DeadLoopRuns :: "dberr \<Rightarrow> int \<Rightarrow> LoopRun list \<Rightarrow> string + LoopRun list" where
  "DeadLoopRuns err limit rs =
     (case err of Some m \<Rightarrow> Inl m
      | None \<Rightarrow> Inr (take (limit_or limit 50) (sort_key (\<lambda>r. - lr_StartedAt r) (filter (\<lambda>r. lr_Status r = ''dead'') rs))))"

definition RecentLoopRuns :: "dberr \<Rightarrow> string \<Rightarrow> int \<Rightarrow> LoopRun list \<Rightarrow> string + LoopRun list" where
  "RecentLoopRuns err loop limit rs =
     (case err of Some m \<Rightarrow> Inl m
      | None \<Rightarrow> Inr (take (limit_or limit 20) (sort_key (\<lambda>r. - lr_StartedAt r)
          (filter (\<lambda>r. loop = '''' \<or> lr_Loop r = loop) rs))))"

definition run_prunable :: "gtime \<Rightarrow> LoopRun \<Rightarrow> bool" where
  "run_prunable before r \<longleftrightarrow> lr_StartedAt r < before \<and> lr_Status r \<noteq> ''dead''"

definition PruneLoopRuns :: "dberr \<Rightarrow> gtime \<Rightarrow> LoopRun list \<Rightarrow> (string + nat) \<times> LoopRun list" where
  "PruneLoopRuns err before rs =
     (case err of Some m \<Rightarrow> (Inl m, rs)
      | None \<Rightarrow> (Inr (length (filter (run_prunable before) rs)), delete_where (run_prunable before) rs))"

definition stale_run :: "gtime \<Rightarrow> LoopRun \<Rightarrow> bool" where
  "stale_run olderThan r \<longleftrightarrow> lr_Status r = ''running'' \<and> lr_StartedAt r < olderThan"

definition interrupted_error :: string where
  "interrupted_error = ''interrupted: the daemon stopped while this run was in progress''"

text \<open>The answers of the driver to the query and to the update; the runs found come back even when the update fails.\<close>

definition ReapStaleLoopRuns :: "dberr \<Rightarrow> dberr \<Rightarrow> gtime \<Rightarrow> gtime \<Rightarrow> LoopRun list \<Rightarrow> dberr \<times> LoopRun list \<times> LoopRun list" where
  "ReapStaleLoopRuns rerr werr now olderThan rs =
     (case rerr of Some m \<Rightarrow> (Some m, [], rs)
      | None \<Rightarrow> (let out = map (\<lambda>r. r\<lparr>lr_Status := ''interrupted'', lr_FinishedAt := None, lr_Error := ''''\<rparr>) (filter (stale_run olderThan) rs)
          in if out = [] then (None, [], rs)
             else case werr of Some m \<Rightarrow> (Some m, out, rs)
               | None \<Rightarrow> (None, out, update_where (stale_run olderThan)
                   (\<lambda>r. r\<lparr>lr_Status := ''interrupted'', lr_FinishedAt := Some now, lr_Error := interrupted_error\<rparr>) rs)))"

end
