(* ===== verification/Loop_Lease.thy ===== *)
theory Loop_Lease
  imports Loop_Run_Store
begin

text \<open>
  The lease of \<^verbatim>\<open>internal/store/loop_run_store.go\<close> as its users drive it
  (\<^verbatim>\<open>internal/runtime/looprun.go\<close> takes and releases it, \<^verbatim>\<open>looplease.go\<close> renews it): a step
  relation over the table, the clock and the runs in flight, and what it keeps.
\<close>

section \<open>The system\<close>

record lease_sys =
  ly_now :: gtime
  ly_states :: "LoopState list"
  ly_running :: "(string \<times> string) set"
  ly_loose :: "(string \<times> string) set"

text \<open>
  A run is known by its fresh id. \<open>ly_running\<close> are the runs in flight that hold their lease; \<open>ly_loose\<close> the ones that run without one, because
  the driver failed when they asked for it. Time passes only as far as the leases of the runs in flight reach: a run
  renews its lease at every third of the term. A crash ends every run and touches no row.
\<close>

inductive lease_step :: "duration \<Rightarrow> lease_sys \<Rightarrow> lease_sys \<Rightarrow> bool" for ttl :: duration where
  won: "AcquireLoopLease None (ly_now s) loop owner ttl (ly_states s) = (Inr True, ls) \<Longrightarrow> owner \<noteq> '''' \<Longrightarrow>
    owner \<notin> snd ` (ly_running s \<union> ly_loose s) \<Longrightarrow> lease_step ttl s (s\<lparr>ly_states := ls, ly_running := insert (loop, owner) (ly_running s)\<rparr>)"
| lost: "AcquireLoopLease None (ly_now s) loop owner ttl (ly_states s) = (Inr False, ls) \<Longrightarrow>
    lease_step ttl s (s\<lparr>ly_states := ls\<rparr>)"
| anyway: "AcquireLoopLease err (ly_now s) loop owner ttl (ly_states s) = (Inl m, ls) \<Longrightarrow> owner \<noteq> '''' \<Longrightarrow>
    owner \<notin> snd ` (ly_running s \<union> ly_loose s) \<Longrightarrow> lease_step ttl s (s\<lparr>ly_states := ls, ly_loose := insert (loop, owner) (ly_loose s)\<rparr>)"
| renew: "(loop, owner) \<in> ly_running s \<Longrightarrow>
    lease_step ttl s (s\<lparr>ly_states := snd (RenewLoopLease err (ly_now s) loop owner ttl (ly_states s))\<rparr>)"
| release: "(loop, owner) \<in> ly_running s \<Longrightarrow>
    lease_step ttl s (s\<lparr>ly_states := snd (ReleaseLoopLease err loop owner (ly_states s)), ly_running := ly_running s - {(loop, owner)}\<rparr>)"
| release_loose: "(loop, owner) \<in> ly_loose s \<Longrightarrow>
    lease_step ttl s (s\<lparr>ly_states := snd (ReleaseLoopLease err loop owner (ly_states s)), ly_loose := ly_loose s - {(loop, owner)}\<rparr>)"
| finish: "lease_step ttl s (s\<lparr>ly_states := rn_states (snd (FinishLoopRun err (ly_now s) i loop status msg attempt nextRetry
      \<lparr>rn_runs = rs, rn_states = ly_states s\<rparr>))\<rparr>)"
| retry: "lease_step ttl s (s\<lparr>ly_states := snd (ClearLoopRetry err loop (ly_states s))\<rparr>)"
| execution: "lease_step ttl s (s\<lparr>ly_states := loop_states (snd (SetLoopExecution err loop ex \<lparr>step_rows = sr, loop_states = ly_states s\<rparr>))\<rparr>)"
| tick: "ly_now s \<le> t \<Longrightarrow> \<forall>(l, w) \<in> ly_running s. \<forall>r \<in> set (ly_states s). held_by l w r \<longrightarrow> (\<exists>u. lo_LeaseUntil r = Some u \<and> t \<le> u) \<Longrightarrow>
    lease_step ttl s (s\<lparr>ly_now := t\<rparr>)"
| crash: "lease_step ttl s (s\<lparr>ly_running := {}, ly_loose := {}\<rparr>)"

inductive lease_reach :: "duration \<Rightarrow> lease_sys \<Rightarrow> bool" for ttl :: duration where
  start: "lease_reach ttl \<lparr>ly_now = t, ly_states = [], ly_running = {}, ly_loose = {}\<rparr>"
| step: "lease_reach ttl s \<Longrightarrow> lease_step ttl s s' \<Longrightarrow> lease_reach ttl s'"

section \<open>The invariant\<close>

definition holds :: "gtime \<Rightarrow> LoopState list \<Rightarrow> string \<Rightarrow> string \<Rightarrow> bool" where
  "holds now ls loop owner \<longleftrightarrow> (\<exists>r u. row_of lo_Loop loop ls = Some r \<and> lo_LeaseOwner r = owner \<and>
     lo_LeaseUntil r = Some u \<and> now \<le> u)"

definition lease_inv :: "lease_sys \<Rightarrow> bool" where
  "lease_inv s \<longleftrightarrow> distinct (map lo_Loop (ly_states s)) \<and> ly_running s \<inter> ly_loose s = {} \<and>
     (\<forall>(loop, owner) \<in> ly_running s. owner \<noteq> '''' \<and> holds (ly_now s) (ly_states s) loop owner)"

interpretation successes: keyed_table lo_Loop merge_success
  by unfold_locales (simp add: merge_success_def)

interpretation failures: keyed_table lo_Loop merge_failure
  by unfold_locales (simp add: merge_failure_def)

lemma map_loop_update [simp]:
  "(\<And>r. lo_Loop (f r) = lo_Loop r) \<Longrightarrow> map lo_Loop (update_where P f ls) = map lo_Loop ls"
  by (simp add: update_where_def)

text \<open>What keeps the loops of the table and the lease of every row keeps the invariant.\<close>

definition same_lease :: "LoopState list \<Rightarrow> LoopState list \<Rightarrow> bool" where
  "same_lease ls ls' \<longleftrightarrow> (distinct (map lo_Loop ls) \<longrightarrow> distinct (map lo_Loop ls')) \<and>
     (\<forall>loop r. row_of lo_Loop loop ls = Some r \<longrightarrow> (\<exists>r'. row_of lo_Loop loop ls' = Some r' \<and>
        lo_LeaseOwner r' = lo_LeaseOwner r \<and> lo_LeaseUntil r' = lo_LeaseUntil r))"

lemma same_lease_inv: "lease_inv s \<Longrightarrow> same_lease (ly_states s) ls \<Longrightarrow> lease_inv (s\<lparr>ly_states := ls\<rparr>)"
  by (fastforce simp: lease_inv_def same_lease_def holds_def)

lemma same_lease_refl [simp]: "same_lease ls ls"
  by (simp add: same_lease_def)

lemma same_lease_finish:
  "same_lease ls (rn_states (snd (FinishLoopRun err now i loop status msg attempt nextRetry \<lparr>rn_runs = rs, rn_states = ls\<rparr>)))"
  by (auto simp: same_lease_def FinishLoopRun_def successes.row_upsert failures.row_upsert successes.distinct_upsert
      failures.distinct_upsert success_row_def failure_row_def new_state_def merge_success_def merge_failure_def
      split: option.splits)

lemma same_lease_execution:
  "same_lease ls (loop_states (snd (SetLoopExecution err loop ex \<lparr>step_rows = sr, loop_states = ls\<rparr>)))"
  by (auto simp: same_lease_def SetLoopExecution_def executions.row_upsert executions.distinct_upsert new_state_def
      merge_execution_def split: option.splits)

lemma same_lease_retry: "same_lease ls (snd (ClearLoopRetry err loop ls))"
  by (auto simp: same_lease_def ClearLoopRetry_def row_update_where split: option.splits)

lemma holdsE:
  assumes "holds now ls loop owner"
  obtains r u where "row_of lo_Loop loop ls = Some r" "lo_Loop r = loop" "lo_LeaseOwner r = owner"
    "lo_LeaseUntil r = Some u" "now \<le> u"
  using assms row_of_Some [of lo_Loop loop ls] by (auto simp: holds_def)

lemma holds_release:
  assumes "holds now ls l w" and "(l, w) \<noteq> (loop, owner)"
  shows "holds now (snd (ReleaseLoopLease err loop owner ls)) l w"
proof -
  obtain r u where "row_of lo_Loop l ls = Some r" "lo_Loop r = l" "lo_LeaseOwner r = w" "lo_LeaseUntil r = Some u" "now \<le> u"
    using assms(1) by (rule holdsE)
  then show ?thesis
    using assms by (auto simp: holds_def ReleaseLoopLease_def row_update_where held_by_def split: option.splits)
qed

lemma holds_renew:
  assumes "holds now ls l w" and "0 \<le> ttl"
  shows "holds now (snd (RenewLoopLease err now loop owner ttl ls)) l w"
proof -
  obtain r u where "row_of lo_Loop l ls = Some r" "lo_Loop r = l" "lo_LeaseOwner r = w" "lo_LeaseUntil r = Some u" "now \<le> u"
    using assms(1) by (rule holdsE)
  then show ?thesis
    using assms(2) by (auto simp: holds_def RenewLoopLease_def row_update_where split: option.splits)
qed

lemma acquire_other:
  assumes "AcquireLoopLease err now loop owner ttl ls = (res, ls')" and "holds now ls l w"
  shows "l \<noteq> loop \<or> res \<noteq> Inr True" and "holds now ls' l w"
proof -
  obtain r u where r: "row_of lo_Loop l ls = Some r" "lo_Loop r = l" "lo_LeaseOwner r = w" "lo_LeaseUntil r = Some u" "now \<le> u"
    using assms(2) by (rule holdsE)
  then show n: "l \<noteq> loop \<or> res \<noteq> Inr True"
    using assms(1) by (auto simp: AcquireLoopLease_def lease_free_def split: option.splits if_splits)
  have "row_of lo_Loop l (ls @ [x]) = Some r" for x using r(1) by (auto simp: row_of_def find_Some_iff nth_append)
  with r n show "holds now ls' l w"
    using assms(1) by (auto simp: AcquireLoopLease_def holds_def row_update_where split: option.splits if_splits)
qed

lemma acquire_won:
  assumes "AcquireLoopLease err now loop owner ttl ls = (Inr True, ls')" and "0 \<le> ttl"
  shows "holds now ls' loop owner"
proof (cases "row_of lo_Loop loop ls")
  case None
  then have "row_of lo_Loop loop (ls @ [x]) = row_of lo_Loop loop [x]" for x
    by (induction ls) (auto simp: row_of_def split: if_splits)
  with None assms show ?thesis
    by (auto simp: AcquireLoopLease_def holds_def row_of_def new_state_def split: option.splits)
next
  case (Some r)
  then have "lo_Loop r = loop" by (auto dest: row_of_Some)
  with Some assms show ?thesis
    by (auto simp: AcquireLoopLease_def holds_def row_update_where split: option.splits if_splits)
qed

lemma acquire_distinct:
  "AcquireLoopLease err now loop owner ttl ls = (res, ls') \<Longrightarrow> distinct (map lo_Loop ls) \<Longrightarrow> distinct (map lo_Loop ls')"
  by (auto simp: AcquireLoopLease_def row_of_None new_state_def split: option.splits if_splits)

lemma lease_step_inv:
  assumes "lease_step ttl s s'" and "0 \<le> ttl" and "lease_inv s"
  shows "lease_inv s'"
  using assms
proof (induction rule: lease_step.induct)
  case (won s loop owner ls)
  have "(loop, owner) \<notin> ly_loose s" using won(3) by force
  with won show ?case
    using acquire_other(2) [OF won(1)] acquire_won [OF won(1)] acquire_distinct [OF won(1)]
    by (auto simp: lease_inv_def)
next
  case (lost s loop owner ls)
  then show ?case using acquire_other(2) [OF lost(1)] acquire_distinct [OF lost(1)] by (auto simp: lease_inv_def)
next
  case (anyway err s loop owner m ls)
  have "(loop, owner) \<notin> ly_running s" using anyway(3) by force
  with anyway show ?case using acquire_other(2) [OF anyway(1)] acquire_distinct [OF anyway(1)] by (auto simp: lease_inv_def)
next
  case (release_loose loop owner s err)
  have "distinct (map lo_Loop (snd (ReleaseLoopLease err loop owner (ly_states s))))"
    using release_loose(3) by (auto simp: ReleaseLoopLease_def lease_inv_def split: option.splits)
  moreover have "holds (ly_now s) (snd (ReleaseLoopLease err loop owner (ly_states s))) l w" if "(l, w) \<in> ly_running s" for l w
    using release_loose(1,3) that by (intro holds_release) (auto simp: lease_inv_def)
  ultimately show ?case using release_loose(3) by (auto simp: lease_inv_def)
next
  case (renew loop owner s err)
  have "distinct (map lo_Loop (snd (RenewLoopLease err (ly_now s) loop owner ttl (ly_states s))))"
    using renew(3) by (auto simp: RenewLoopLease_def lease_inv_def split: option.splits)
  with renew holds_renew show ?case by (auto simp: lease_inv_def)
next
  case (release loop owner s err)
  have "distinct (map lo_Loop (snd (ReleaseLoopLease err loop owner (ly_states s))))"
    using release(3) by (auto simp: ReleaseLoopLease_def lease_inv_def split: option.splits)
  moreover have "holds (ly_now s) (snd (ReleaseLoopLease err loop owner (ly_states s))) l w"
    if "(l, w) \<in> ly_running s" "(l, w) \<noteq> (loop, owner)" for l w
    using release(3) that by (intro holds_release) (auto simp: lease_inv_def)
  ultimately show ?case using release(3) by (auto simp: lease_inv_def)
next
  case (finish s err i loop status msg attempt nextRetry rs)
  then show ?case by (intro same_lease_inv same_lease_finish)
next
  case (retry s err loop)
  then show ?case by (intro same_lease_inv same_lease_retry)
next
  case (execution s err loop ex sr)
  then show ?case by (intro same_lease_inv same_lease_execution)
next
  case (tick s t)
  have "holds t (ly_states s) l w" if "(l, w) \<in> ly_running s" for l w
  proof -
    from that tick(4) have "holds (ly_now s) (ly_states s) l w" by (auto simp: lease_inv_def)
    then obtain r u where r: "row_of lo_Loop l (ly_states s) = Some r" "lo_Loop r = l" "lo_LeaseOwner r = w"
      by (rule holdsE)
    moreover have "r \<in> set (ly_states s)" using r(1) by (auto dest: row_of_Some)
    ultimately show ?thesis using tick(2) that by (fastforce simp: holds_def held_by_def)
  qed
  with tick show ?case by (auto simp: lease_inv_def)
next
  case (crash s)
  then show ?case by (simp add: lease_inv_def)
qed

lemma lease_reach_inv: "lease_reach ttl s \<Longrightarrow> 0 \<le> ttl \<Longrightarrow> lease_inv s"
  by (induction rule: lease_reach.induct) (auto simp: lease_inv_def [of "\<lparr>ly_now = _, ly_states = _, ly_running = _, ly_loose = _\<rparr>"] intro: lease_step_inv)

text \<open>
  C3. At most one run of a loop holds its lease at a time. Runs take, renew and release the lease, record
  their outcomes, clear retries and set executions in any order, the daemon may crash and come back, and the driver may fail: a run
  whose request for the lease fails goes on without one. Time passes as long as each run that holds a lease renews it before it is
  out. In every state reached, of the runs of a loop in flight at most one is not such a run without a lease, whatever those do.
\<close>
theorem loop_single_flight:
  assumes "lease_reach ttl s" and "0 \<le> ttl" and "(loop, owner) \<in> ly_running s"
  shows "{w. (loop, w) \<in> ly_running s \<union> ly_loose s \<and> (loop, w) \<notin> ly_loose s} = {owner}"
proof -
  have inv: "lease_inv s" by (rule lease_reach_inv [OF assms(1,2)])
  have "w = owner" if "(loop, w) \<in> ly_running s" for w
  proof -
    have "holds (ly_now s) (ly_states s) loop w" "holds (ly_now s) (ly_states s) loop owner"
      using inv assms(3) that by (auto simp: lease_inv_def)
    then show ?thesis by (auto elim!: holdsE)
  qed
  moreover have "ly_running s \<inter> ly_loose s = {}" using inv by (simp add: lease_inv_def)
  ultimately show ?thesis using assms(3) by blast
qed

lemma sample_lease_reach:
  "lease_reach 10 \<lparr>ly_now = 0, ly_states = [(new_state ''l'')\<lparr>lo_LeaseUntil := Some 10, lo_LeaseOwner := ''r1''\<rparr>],
     ly_running = {(''l'', ''r1'')}, ly_loose = {}\<rparr>"
proof -
  have "lease_step 10 \<lparr>ly_now = 0, ly_states = [], ly_running = {}, ly_loose = {}\<rparr>
    (\<lparr>ly_now = 0, ly_states = [], ly_running = {}, ly_loose = {}\<rparr>\<lparr>ly_states := [(new_state ''l'')\<lparr>lo_LeaseUntil := Some 10, lo_LeaseOwner := ''r1''\<rparr>],
      ly_running := insert (''l'', ''r1'') {}\<rparr>)"
    using lease_step.won [of "\<lparr>ly_now = 0, ly_states = [], ly_running = {}, ly_loose = {}\<rparr>" "''l''" "''r1''" 10]
    by (simp add: AcquireLoopLease_def row_of_def)
  then show ?thesis using lease_reach.step [OF lease_reach.start] by simp
qed

text \<open>
  A driver that fails lets a loop run twice: while a run holds the lease, another whose request for it failed runs beside it.\<close>

theorem failing_lease_runs_twice:
  "\<exists>s. lease_reach 10 s \<and> (''l'', ''r1'') \<in> ly_running s \<and> (''l'', ''r2'') \<in> ly_loose s"
proof -
  let ?s = "\<lparr>ly_now = 0, ly_states = [(new_state ''l'')\<lparr>lo_LeaseUntil := Some 10, lo_LeaseOwner := ''r1''\<rparr>],
     ly_running = {(''l'', ''r1'')}, ly_loose = {}\<rparr>"
  have "lease_step 10 ?s (?s\<lparr>ly_states := ly_states ?s, ly_loose := insert (''l'', ''r2'') (ly_loose ?s)\<rparr>)"
    by (rule lease_step.anyway [of "Some ''locked''" _ _ _ _ "''locked''"]) (simp_all add: AcquireLoopLease_def)
  then have "lease_reach 10 (?s\<lparr>ly_states := ly_states ?s, ly_loose := insert (''l'', ''r2'') (ly_loose ?s)\<rparr>)"
    by (rule lease_reach.step [OF sample_lease_reach])
  then show ?thesis by force
qed

lemma loop_single_flight_witness: "{w. (''l'', w) \<in> {(''l'', ''r1'')} \<union> {} \<and> (''l'', w) \<notin> {}} = {''r1''}"
  using loop_single_flight [OF sample_lease_reach, of "''l''" "''r1''"] by simp

end
