(* ===== verification/Loop_Trigger_Store.thy ===== *)
theory Loop_Trigger_Store
  imports Prelude
begin

text \<open>
  \<^verbatim>\<open>internal/store/loop_trigger_store.go\<close>: the event a loop was woken by, one row per loop and event,
  open until its run is over. \<^verbatim>\<open>internal/runtime/loopqueue.go\<close>: the events that arrive while a loop is
  busy, one per conversation, in memory.
\<close>

section \<open>Trigger rows\<close>

definition LoopTriggerPending :: string where "LoopTriggerPending = ''pending''"
definition LoopTriggerQueued :: string where "LoopTriggerQueued = ''queued''"
definition LoopTriggerRunning :: string where "LoopTriggerRunning = ''running''"
definition LoopTriggerRetry :: string where "LoopTriggerRetry = ''retry''"
definition LoopTriggerDone :: string where "LoopTriggerDone = ''done''"

lemmas trigger_status_defs = LoopTriggerPending_def LoopTriggerQueued_def LoopTriggerRunning_def LoopTriggerRetry_def LoopTriggerDone_def

record LoopTrigger =
  lt_Key :: string
  lt_Loop :: string
  lt_EventID :: string
  lt_Conversation :: string
  lt_Kind :: string
  lt_Payload :: string
  lt_Status :: string
  lt_Owner :: string
  lt_Acted :: bool
  lt_Attempts :: int
  lt_CreatedAt :: gtime
  lt_UpdatedAt :: gtime

definition LoopTriggerKey :: "string \<Rightarrow> string \<Rightarrow> string" where
  "LoopTriggerKey loop eventID = loop @ ''|'' @ eventID"

definition RecordLoopTrigger :: "dberr \<Rightarrow> gtime \<Rightarrow> LoopTrigger \<Rightarrow> LoopTrigger list \<Rightarrow> (string + bool) \<times> LoopTrigger list" where
  "RecordLoopTrigger err now t ts =
     (let key = (if lt_Key t = '''' then LoopTriggerKey (lt_Loop t) (lt_EventID t) else lt_Key t)
      in case err of Some m \<Rightarrow> (Inl m, ts)
         | None \<Rightarrow> if row_of lt_Key key ts \<noteq> None then (Inr False, ts)
             else (Inr True, ts @ [t\<lparr>lt_Key := key, lt_Status := LoopTriggerPending, lt_Owner := '''', lt_Acted := False,
                                    lt_Attempts := 0, lt_CreatedAt := now, lt_UpdatedAt := now\<rparr>]))"

definition SetLoopTriggerStatus :: "dberr \<Rightarrow> gtime \<Rightarrow> string \<Rightarrow> string \<Rightarrow> bool \<Rightarrow> LoopTrigger list \<Rightarrow> dberr \<times> LoopTrigger list" where
  "SetLoopTriggerStatus err now key status attempt ts =
     (case err of Some m \<Rightarrow> (Some m, ts)
      | None \<Rightarrow> (None, update_where (\<lambda>t. lt_Key t = key) (\<lambda>t. t\<lparr>lt_Status := status, lt_UpdatedAt := now,
          lt_Attempts := (if attempt then lt_Attempts t + 1 else lt_Attempts t)\<rparr>) ts))"

definition MarkLoopTriggerActed :: "dberr \<Rightarrow> gtime \<Rightarrow> string \<Rightarrow> LoopTrigger list \<Rightarrow> dberr \<times> LoopTrigger list" where
  "MarkLoopTriggerActed err now key ts =
     (case err of Some m \<Rightarrow> (Some m, ts)
      | None \<Rightarrow> (None, update_where (\<lambda>t. lt_Key t = key) (\<lambda>t. t\<lparr>lt_Acted := True, lt_UpdatedAt := now\<rparr>) ts))"

definition SetLoopTriggerOwner :: "dberr \<Rightarrow> gtime \<Rightarrow> string \<Rightarrow> string \<Rightarrow> LoopTrigger list \<Rightarrow> dberr \<times> LoopTrigger list" where
  "SetLoopTriggerOwner err now key owner ts =
     (case err of Some m \<Rightarrow> (Some m, ts)
      | None \<Rightarrow> (None, update_where (\<lambda>t. lt_Key t = key) (\<lambda>t. t\<lparr>lt_Owner := owner, lt_UpdatedAt := now\<rparr>) ts))"

definition GetLoopTrigger :: "dberr \<Rightarrow> string \<Rightarrow> LoopTrigger list \<Rightarrow> string + LoopTrigger option" where
  "GetLoopTrigger err key ts = (case err of Some m \<Rightarrow> Inl m | None \<Rightarrow> Inr (row_of lt_Key key ts))"

definition open_statuses :: "string list" where
  "open_statuses = [LoopTriggerPending, LoopTriggerQueued, LoopTriggerRunning, LoopTriggerRetry]"

definition OpenLoopTriggers :: "dberr \<Rightarrow> string \<Rightarrow> string list \<Rightarrow> LoopTrigger list \<Rightarrow> string + LoopTrigger list" where
  "OpenLoopTriggers err loop statuses ts =
     (case err of Some m \<Rightarrow> Inl m
      | None \<Rightarrow> Inr (sort_key lt_CreatedAt (filter (\<lambda>t. lt_Status t \<in> set (if statuses = [] then open_statuses else statuses) \<and>
          (loop = '''' \<or> lt_Loop t = loop)) ts)))"

definition superseded :: "string \<Rightarrow> string \<Rightarrow> gtime \<Rightarrow> LoopTrigger \<Rightarrow> bool" where
  "superseded loop conv upTo t \<longleftrightarrow> lt_Loop t = loop \<and> lt_Conversation t = conv \<and> lt_CreatedAt t \<le> upTo \<and>
     lt_Status t \<in> set [LoopTriggerPending, LoopTriggerQueued, LoopTriggerRetry]"

definition SupersedeLoopTriggers :: "dberr \<Rightarrow> gtime \<Rightarrow> string \<Rightarrow> string \<Rightarrow> gtime \<Rightarrow> LoopTrigger list \<Rightarrow> (string + nat) \<times> LoopTrigger list" where
  "SupersedeLoopTriggers err now loop conv upTo ts =
     (case err of Some m \<Rightarrow> (Inl m, ts)
      | None \<Rightarrow> (Inr (length (filter (superseded loop conv upTo) ts)),
          update_where (superseded loop conv upTo) (\<lambda>t. t\<lparr>lt_Status := LoopTriggerDone, lt_UpdatedAt := now\<rparr>) ts))"

definition trigger_prunable :: "gtime \<Rightarrow> LoopTrigger \<Rightarrow> bool" where
  "trigger_prunable before t \<longleftrightarrow> lt_Status t = LoopTriggerDone \<and> lt_UpdatedAt t < before"

definition PruneLoopTriggers :: "dberr \<Rightarrow> gtime \<Rightarrow> LoopTrigger list \<Rightarrow> (string + nat) \<times> LoopTrigger list" where
  "PruneLoopTriggers err before ts =
     (case err of Some m \<Rightarrow> (Inl m, ts)
      | None \<Rightarrow> (Inr (length (filter (trigger_prunable before) ts)), delete_where (trigger_prunable before) ts))"

section \<open>The queue of a busy loop\<close>

record LoopkitTrigger =
  tg_Kind :: string
  tg_Payload :: "(string \<times> json) list"

definition text_field :: "string \<Rightarrow> (string \<times> json) list \<Rightarrow> string" where
  "text_field k p = (case row_of fst k p of Some (_, JStr x) \<Rightarrow> x | _ \<Rightarrow> '''')"

fun first_id :: "(string \<times> json) list \<Rightarrow> string list \<Rightarrow> string option" where
  "first_id p [] = None"
| "first_id p (k # ks) = (if text_field k p \<noteq> '''' then Some (k @ '':'' @ text_field k p) else first_id p ks)"

definition conversationOf :: "LoopkitTrigger \<Rightarrow> string" where
  "conversationOf t = (case first_id (tg_Payload t) [''channel_id'', ''chat_id'', ''chat''] of
      Some c \<Rightarrow> c | None \<Rightarrow> ''kind:'' @ tg_Kind t)"

definition maxPendingPerLoop :: nat where "maxPendingPerLoop = 256"

record pendingTriggers =
  pq_byLoop :: "(string \<times> (string \<times> LoopkitTrigger) list) list"
  pq_order :: "(string \<times> string list) list"

definition newPendingTriggers :: pendingTriggers where
  "newPendingTriggers = \<lparr>pq_byLoop = [], pq_order = []\<rparr>"

text \<open>A loop with no entry reads as empty.\<close>

definition entry_of :: "string \<Rightarrow> (string \<times> 'v list) list \<Rightarrow> 'v list" where
  "entry_of k m = (case row_of fst k m of None \<Rightarrow> [] | Some kv \<Rightarrow> snd kv)"

definition pq_add :: "string \<Rightarrow> LoopkitTrigger \<Rightarrow> pendingTriggers \<Rightarrow> bool \<times> pendingTriggers" where
  "pq_add loop t p =
     (let key = conversationOf t; queue = entry_of loop (pq_byLoop p); known = (row_of fst key queue \<noteq> None)
      in if \<not> known \<and> length queue \<ge> maxPendingPerLoop then (False, p)
         else (True, p\<lparr>pq_byLoop := obj_set loop (obj_set key t queue) (pq_byLoop p),
                      pq_order := (if known then pq_order p else obj_set loop (entry_of loop (pq_order p) @ [key]) (pq_order p))\<rparr>))"

definition pq_take :: "string \<Rightarrow> pendingTriggers \<Rightarrow> LoopkitTrigger list \<times> pendingTriggers" where
  "pq_take loop p =
     (let queue = entry_of loop (pq_byLoop p)
      in (List.map_filter (\<lambda>k. map_option snd (row_of fst k queue)) (if queue = [] then [] else entry_of loop (pq_order p)),
          p\<lparr>pq_byLoop := delete_where (\<lambda>x. fst x = loop) (pq_byLoop p), pq_order := delete_where (\<lambda>x. fst x = loop) (pq_order p)\<rparr>))"

definition pq_waiting :: "string \<Rightarrow> pendingTriggers \<Rightarrow> nat" where
  "pq_waiting loop p = length (entry_of loop (pq_byLoop p))"

section \<open>What the queue holds\<close>

interpretation assoc: keyed_table fst "\<lambda>_ x. x"
  by unfold_locales simp

lemma entry_of_set: "entry_of k (obj_set l v m) = (if k = l then v else entry_of k m)"
  by (simp add: entry_of_def obj_set_def assoc.row_upsert split: option.split)

lemma row_of_delete_other: "k \<noteq> l \<Longrightarrow> row_of fst k (delete_where (\<lambda>x. fst x = l) m) = row_of fst k m"
  by (induction m) (auto simp: row_of_def delete_where_def)

lemma entry_of_delete: "entry_of k (delete_where (\<lambda>x. fst x = l) m) = (if k = l then [] else entry_of k m)"
proof (cases "k = l")
  case True
  then show ?thesis by (auto simp: entry_of_def row_of_None split: option.split dest: row_of_Some)
qed (simp add: entry_of_def row_of_delete_other)

text \<open>The distinct elements of a list in the order of their first occurrence.\<close>

definition firsts :: "'a list \<Rightarrow> 'a list" where
  "firsts xs = rev (remdups (rev xs))"

lemma firsts_snoc: "firsts (xs @ [x]) = (if x \<in> set xs then firsts xs else firsts xs @ [x])"
  by (simp add: firsts_def)

lemma firsts_simps [simp]: "firsts [] = []" "set (firsts xs) = set xs" "distinct (firsts xs)"
  by (simp_all add: firsts_def)

lemma obj_set_map:
  "obj_set c v (map (\<lambda>d. (d, f d)) ds) = map (\<lambda>d. (d, (f(c := v)) d)) (if c \<in> set ds then ds else ds @ [c])"
  if "distinct ds"
  using that by (induction ds) (auto simp: obj_set_def)

lemma row_of_map: "row_of fst c (map (\<lambda>d. (d, f d)) ds) = (if c \<in> set ds then Some (c, f c) else None)"
  by (induction ds) (auto simp: row_of_def)

text \<open>The newest trigger of a conversation.\<close>

definition newest :: "LoopkitTrigger list \<Rightarrow> string \<Rightarrow> LoopkitTrigger" where
  "newest ts c = last (filter (\<lambda>t. conversationOf t = c) ts)"

lemma newest_snoc: "newest (ts @ [t]) = (newest ts)(conversationOf t := t)"
  by (rule ext) (simp add: newest_def)

definition queued :: "string \<Rightarrow> LoopkitTrigger list \<Rightarrow> pendingTriggers \<Rightarrow> bool" where
  "queued loop ts p \<longleftrightarrow> entry_of loop (pq_order p) = firsts (map conversationOf ts) \<and>
     entry_of loop (pq_byLoop p) = map (\<lambda>c. (c, newest ts c)) (firsts (map conversationOf ts))"

definition add_all :: "string \<Rightarrow> LoopkitTrigger list \<Rightarrow> pendingTriggers \<Rightarrow> pendingTriggers" where
  "add_all loop ts p = foldl (\<lambda>p t. snd (pq_add loop t p)) p ts"

lemma queued_add:
  assumes "queued loop ts p" and "length (firsts (map conversationOf (ts @ [t]))) \<le> maxPendingPerLoop"
  shows "queued loop (ts @ [t]) (snd (pq_add loop t p)) \<and> fst (pq_add loop t p)"
proof -
  let ?c = "conversationOf t" and ?cs = "firsts (map conversationOf ts)"
  have k: "(row_of fst ?c (map (\<lambda>c. (c, newest ts c)) ?cs) \<noteq> None) = (?c \<in> set (map conversationOf ts))"
    by (simp add: row_of_map)
  have f: "firsts (map conversationOf (ts @ [t])) = (if ?c \<in> set (map conversationOf ts) then ?cs else ?cs @ [?c])"
    by (simp add: firsts_snoc)
  show ?thesis
    using assms k unfolding queued_def pq_add_def Let_def f
    by (auto simp: entry_of_set obj_set_map newest_snoc)
qed

text \<open>
  C24. The queue of a busy loop holds at most one trigger per conversation, the newest, and gives them back
  oldest conversation first, once: taking them leaves nothing. It keeps every conversation as long as no
  more than 256 wait, and what waits for another loop is not touched,
  neither by adding nor by taking.
\<close>
theorem queue_keeps_newest:
  assumes "length (firsts (map conversationOf ts)) \<le> maxPendingPerLoop"
    and "entry_of loop (pq_byLoop p) = []" and "entry_of loop (pq_order p) = []"
  shows "fst (pq_take loop (add_all loop ts p)) = map (newest ts) (firsts (map conversationOf ts)) \<and>
    pq_waiting loop (snd (pq_take loop (add_all loop ts p))) = 0 \<and>
    (\<forall>l. l \<noteq> loop \<longrightarrow> fst (pq_take l (add_all loop ts p)) = fst (pq_take l p) \<and>
       fst (pq_take l (snd (pq_take loop (add_all loop ts p)))) = fst (pq_take l p) \<and>
       pq_waiting l (snd (pq_take loop (add_all loop ts p))) = pq_waiting l p)"
proof -
  have q: "queued loop ts (add_all loop ts p)"
    using assms
  proof (induction ts rule: rev_induct)
    case Nil
    then show ?case by (simp add: queued_def add_all_def)
  next
    case (snoc t ts)
    have "length (firsts (map conversationOf ts)) \<le> maxPendingPerLoop"
      using snoc.prems(1) by (simp add: firsts_snoc split: if_splits)
    with snoc queued_add [OF _ snoc.prems(1)] show ?case by (simp add: add_all_def)
  qed
  have "List.map_filter (\<lambda>k. map_option snd (row_of fst k (map (\<lambda>c. (c, newest ts c)) cs))) ds = map (newest ts) ds"
    if "set ds \<subseteq> set cs" for cs ds
    using that by (induction ds) (auto simp: map_filter_simps row_of_map)
  with q have a: "fst (pq_take loop (add_all loop ts p)) = map (newest ts) (firsts (map conversationOf ts))"
    by (auto simp: queued_def pq_take_def Let_def)
  have "entry_of l (pq_byLoop (snd (pq_add loop t p))) = entry_of l (pq_byLoop p) \<and>
      entry_of l (pq_order (snd (pq_add loop t p))) = entry_of l (pq_order p)" if "l \<noteq> loop" for l t p
    using that by (simp add: pq_add_def Let_def entry_of_set)
  then have "entry_of l (pq_byLoop (add_all loop ts p)) = entry_of l (pq_byLoop p) \<and>
      entry_of l (pq_order (add_all loop ts p)) = entry_of l (pq_order p)" if "l \<noteq> loop" for l
    using that by (induction ts rule: rev_induct) (simp_all add: add_all_def)
  with a show ?thesis by (simp add: pq_waiting_def pq_take_def Let_def entry_of_delete)
qed

definition chat_trigger :: "string \<Rightarrow> string \<Rightarrow> LoopkitTrigger" where
  "chat_trigger i chat = \<lparr>tg_Kind = ''event'', tg_Payload = [(''event_id'', JStr i), (''chat'', JStr chat)]\<rparr>"

lemma queue_keeps_newest_witness:
  "fst (pq_take ''l'' (add_all ''l'' [chat_trigger ''1'' ''a'', chat_trigger ''2'' ''b'', chat_trigger ''3'' ''a''] newPendingTriggers)) =
     [chat_trigger ''3'' ''a'', chat_trigger ''2'' ''b'']"
  using queue_keeps_newest [where ts = "[chat_trigger ''1'' ''a'', chat_trigger ''2'' ''b'', chat_trigger ''3'' ''a'']" and
      p = newPendingTriggers and loop = "''l''"]
  by (simp add: chat_trigger_def conversationOf_def text_field_def row_of_def firsts_def newest_def maxPendingPerLoop_def
      newPendingTriggers_def entry_of_def)

end
