(* ===== verification/Loop_Run.thy ===== *)
theory Loop_Run
  imports Loop_Lease Loop_Trigger_Store Waiter_Store
begin

text \<open>
  \<^verbatim>\<open>internal/runtime/looprun.go\<close>, \<^verbatim>\<open>looptrigger.go\<close>, \<^verbatim>\<open>loopqueue.go\<close>,
  \<^verbatim>\<open>looplease.go\<close> and \<^verbatim>\<open>waiters.go\<close>: the durable runs of loops. A run is two steps of the
  state, its start (the lease, the execution, the record) and its end (what the loop's code returned, the
  record, the retry, the queue); the code between them is the loop's own. A run started in a goroutine is
  an entry of \<open>rt_spawned\<close>. What the driver answers and the clock are in a \<open>loop_env\<close>.
\<close>

section \<open>State\<close>

record spawn =
  sw_Loop :: string
  sw_Trigger :: LoopkitTrigger
  sw_Attempt :: int
  sw_Execution :: string

record loop_rt =
  rt_steps :: "LoopStepRow list"
  rt_states :: "LoopState list"
  rt_runs :: "LoopRun list"
  rt_triggers :: "LoopTrigger list"
  rt_waiters :: "Waiter list"
  rt_pending :: pendingTriggers
  rt_spawned :: "spawn list"
  rt_alerts :: "(message \<times> message) list"

record loop_env =
  le_now :: gtime
  le_acquire :: dberr
  le_read :: dberr
  le_write :: dberr
  le_trigger :: dberr
  le_record :: dberr
  le_finish :: dberr
  le_clear :: dberr
  le_release :: dberr
  le_parse_time :: "string \<Rightarrow> gtime option"
  le_dec :: "string \<Rightarrow> (string \<times> json) list option"
  le_installed :: "string \<Rightarrow> bool"
  le_turn_found :: "string \<Rightarrow> bool"
  le_shutdown :: bool
  le_resets :: "gtime option"

definition steps_of :: "loop_rt \<Rightarrow> steps_db" where
  "steps_of s = \<lparr>step_rows = rt_steps s, loop_states = rt_states s\<rparr>"

definition with_steps :: "steps_db \<Rightarrow> loop_rt \<Rightarrow> loop_rt" where
  "with_steps db s = s\<lparr>rt_steps := step_rows db, rt_states := loop_states db\<rparr>"

definition finish_row :: "loop_env \<Rightarrow> string \<Rightarrow> string \<Rightarrow> string \<Rightarrow> string \<Rightarrow> int \<Rightarrow> gtime option \<Rightarrow> loop_rt \<Rightarrow> loop_rt" where
  "finish_row en runID loop status msg attempt next s =
     (let db = snd (FinishLoopRun (le_finish en) (le_now en) runID loop status msg attempt next \<lparr>rn_runs = rt_runs s, rn_states = rt_states s\<rparr>)
      in s\<lparr>rt_runs := rn_runs db, rt_states := rn_states db\<rparr>)"

definition spawn_run :: "string \<Rightarrow> LoopkitTrigger \<Rightarrow> int \<Rightarrow> string \<Rightarrow> loop_rt \<Rightarrow> loop_rt" where
  "spawn_run loop t attempt ex s = s\<lparr>rt_spawned := rt_spawned s @ [\<lparr>sw_Loop = loop, sw_Trigger = t, sw_Attempt = attempt, sw_Execution = ex\<rparr>]\<rparr>"

definition alert :: "message \<Rightarrow> message \<Rightarrow> loop_rt \<Rightarrow> loop_rt" where
  "alert title body s = s\<lparr>rt_alerts := rt_alerts s @ [(title, body)]\<rparr>"

section \<open>Constants and kinds\<close>

definition maxAttempts :: int where "maxAttempts = 3"
definition retryBase :: duration where "retryBase = minute"
definition loopRunTimeout :: duration where "loopRunTimeout = 14 * minute"
definition leaseTTL :: duration where "leaseTTL = 15 * minute"
definition TriggerEvent :: string where "TriggerEvent = ''event''"
definition TriggerWebhook :: string where "TriggerWebhook = ''webhook''"

text \<open>Attempts count from 1.\<close>

definition retryDelay :: "int \<Rightarrow> duration" where
  "retryDelay attempt = (let d = wrap64 (retryBase * 2 ^ nat (attempt - 1)) in if d > 30 * minute then 30 * minute else d)"

section \<open>Triggers\<close>

definition triggerEventID :: "LoopkitTrigger \<Rightarrow> string" where
  "triggerEventID t = (if tg_Kind t \<noteq> TriggerEvent \<and> tg_Kind t \<noteq> TriggerWebhook then ''''
     else TrimSpace (text_field ''event_id'' (tg_Payload t)))"

definition triggerKey :: "string \<Rightarrow> LoopkitTrigger \<Rightarrow> string" where
  "triggerKey loop t = (if triggerEventID t = '''' then '''' else LoopTriggerKey loop (triggerEventID t))"

text \<open>How a payload is written is \<open>encoding/json\<close>'s (\<open>enc\<close>, \<open>None\<close> when it refuses).\<close>

definition ownLoopTriggerNew :: "loop_env \<Rightarrow> ((string \<times> json) list \<Rightarrow> string option) \<Rightarrow> string \<Rightarrow> LoopkitTrigger \<Rightarrow> loop_rt \<Rightarrow> (string + bool) \<times> loop_rt" where
  "ownLoopTriggerNew en enc loop t s =
     (if triggerEventID t = '''' then (Inr True, s)
      else case enc (tg_Payload t) of None \<Rightarrow> (Inl ''json: unsupported type'', s)
       | Some raw \<Rightarrow>
          (let (res, ts) = RecordLoopTrigger (le_record en) (le_now en)
               \<lparr>lt_Key = '''', lt_Loop = loop, lt_EventID = triggerEventID t, lt_Conversation = conversationOf t, lt_Kind = tg_Kind t,
                lt_Payload = raw, lt_Status = '''', lt_Owner = '''', lt_Acted = False, lt_Attempts = 0, lt_CreatedAt = 0, lt_UpdatedAt = 0\<rparr>
               (rt_triggers s)
           in (res, s\<lparr>rt_triggers := ts\<rparr>)))"

fun own_all :: "loop_env \<Rightarrow> ((string \<times> json) list \<Rightarrow> string option) \<Rightarrow> LoopkitTrigger \<Rightarrow> string list \<Rightarrow> string list \<Rightarrow> loop_rt \<Rightarrow> (string + string list) \<times> loop_rt" where
  "own_all en enc t [] start s = (Inr start, s)"
| "own_all en enc t (name # names) start s =
     (if \<not> le_installed en name then own_all en enc t names start s
      else case ownLoopTriggerNew en enc name t s of
          (Inl m, s') \<Rightarrow> (Inl (''record '' @ name @ CHR 0x27 # ''s trigger: '' @ m), s')
        | (Inr created, s') \<Rightarrow> own_all en enc t names (if created then start @ [name] else start) s')"

definition deliverToLoops :: "loop_env \<Rightarrow> ((string \<times> json) list \<Rightarrow> string option) \<Rightarrow> string list \<Rightarrow> LoopkitTrigger \<Rightarrow> loop_rt \<Rightarrow> string option \<times> loop_rt" where
  "deliverToLoops en enc loops t s =
     (case own_all en enc t loops [] s of
        (Inl m, s') \<Rightarrow> (Some m, s')
      | (Inr start, s') \<Rightarrow> (None, fold (\<lambda>l. spawn_run l t 1 '''') start s'))"

definition markTrigger :: "loop_env \<Rightarrow> string \<Rightarrow> LoopkitTrigger \<Rightarrow> string \<Rightarrow> bool \<Rightarrow> loop_rt \<Rightarrow> loop_rt" where
  "markTrigger en loop t status attempt s =
     (if triggerKey loop t = '''' then s
      else s\<lparr>rt_triggers := snd (SetLoopTriggerStatus (le_trigger en) (le_now en) (triggerKey loop t) status attempt (rt_triggers s))\<rparr>)"

definition finishTrigger :: "loop_env \<Rightarrow> string \<Rightarrow> LoopkitTrigger \<Rightarrow> loop_rt \<Rightarrow> loop_rt" where
  "finishTrigger en loop t s =
     (if triggerKey loop t = '''' then s
      else (let s1 = markTrigger en loop t LoopTriggerDone False s
            in case GetLoopTrigger (le_read en) (triggerKey loop t) (rt_triggers s1) of
                 Inr (Some row) \<Rightarrow>
                   (if lt_Conversation row = '''' then s1
                    else s1\<lparr>rt_triggers := snd (SupersedeLoopTriggers (le_trigger en) (le_now en) loop (lt_Conversation row) (lt_CreatedAt row) (rt_triggers s1))\<rparr>)
               | _ \<Rightarrow> s1))"

definition markTriggerActed :: "loop_env \<Rightarrow> string \<Rightarrow> LoopkitTrigger \<Rightarrow> loop_rt \<Rightarrow> loop_rt" where
  "markTriggerActed en loop t s =
     (if triggerKey loop t = '''' then s
      else s\<lparr>rt_triggers := snd (MarkLoopTriggerActed (le_trigger en) (le_now en) (triggerKey loop t) (rt_triggers s))\<rparr>)"

definition setTriggerOwner :: "loop_env \<Rightarrow> string \<Rightarrow> LoopkitTrigger \<Rightarrow> string \<Rightarrow> loop_rt \<Rightarrow> loop_rt" where
  "setTriggerOwner en loop t requestID s =
     (if triggerKey loop t = '''' then s
      else s\<lparr>rt_triggers := snd (SetLoopTriggerOwner (le_trigger en) (le_now en) (triggerKey loop t) requestID (rt_triggers s))\<rparr>)"

definition triggerFromRow :: "loop_env \<Rightarrow> LoopTrigger \<Rightarrow> LoopkitTrigger option" where
  "triggerFromRow en row =
     (case (if TrimSpace (lt_Payload row) = '''' then Some [] else le_dec en (lt_Payload row)) of
        None \<Rightarrow> None
      | Some p \<Rightarrow> Some \<lparr>tg_Kind = (if lt_Kind row = '''' then TriggerEvent else lt_Kind row),
                      tg_Payload = obj_set ''replayed'' (JBool True) (obj_set ''event_id'' (JStr (lt_EventID row)) p)\<rparr>)"

section \<open>Freshness\<close>

definition commsFreshness :: duration where "commsFreshness = 15 * minute"
definition defaultFreshness :: duration where "defaultFreshness = 24 * hour"

definition staleEvent :: "gtime \<Rightarrow> string \<Rightarrow> gtime \<Rightarrow> duration \<times> bool" where
  "staleEvent now kind stamp =
     (if stamp = zero_time then (0, False)
      else (let limit = (if kind \<in> set [''comms.message'', ''agent.message'', ''system.critical''] then commsFreshness else defaultFreshness);
                age = time_sub now stamp
            in (age, age > limit)))"

definition queuedTooLong :: "loop_env \<Rightarrow> LoopkitTrigger \<Rightarrow> bool" where
  "queuedTooLong en t =
     (let raw = text_field ''event_at'' (tg_Payload t)
      in if raw = '''' then False
         else case le_parse_time en raw of None \<Rightarrow> False
            | Some stamp \<Rightarrow> snd (staleEvent (le_now en) (text_field ''event_kind'' (tg_Payload t)) stamp))"

section \<open>The start of a run\<close>

definition start_row :: "loop_env \<Rightarrow> string \<Rightarrow> string \<Rightarrow> LoopkitTrigger \<Rightarrow> int \<Rightarrow> LoopRun" where
  "start_row en runID loop t attempt = \<lparr>lr_ID = runID, lr_Loop = loop, lr_Trigger = tg_Kind t, lr_Status = ''running'', lr_Attempt = attempt,
     lr_StartedAt = le_now en, lr_FinishedAt = None, lr_Error = ''''\<rparr>"

text \<open>The execution the run works on, or \<open>None\<close> when it does not run: the loop is busy.\<close>

definition begin_run :: "loop_env \<Rightarrow> string \<Rightarrow> string \<Rightarrow> string \<Rightarrow> LoopkitTrigger \<Rightarrow> int \<Rightarrow> string \<Rightarrow> loop_rt \<Rightarrow> string option \<times> loop_rt" where
  "begin_run en runID uuid loop t attempt execution s =
     (let (got, ls) = AcquireLoopLease (le_acquire en) (le_now en) loop runID leaseTTL (rt_states s);
          s1 = s\<lparr>rt_states := ls\<rparr>
      in if got = Inr False
         then (if tg_Kind t = TriggerEvent \<and> fst (pq_add loop t (rt_pending s1))
               then (None, markTrigger en loop t LoopTriggerQueued False (s1\<lparr>rt_pending := snd (pq_add loop t (rt_pending s1))\<rparr>))
               else (None, s1))
         else (let (ex, db) = (if execution = '''' then executionFor (le_read en) (le_write en) uuid loop attempt (steps_of s1)
                               else (execution, steps_of s1));
                   s2 = markTrigger en loop t LoopTriggerRunning True (with_steps db s1)
               in (Some ex, s2\<lparr>rt_runs := snd (StartLoopRun (le_record en) (start_row en runID loop t attempt) (rt_runs s2))\<rparr>)))"

text \<open>While a run is in flight its lease is renewed; the steps of its execution are the loop's own doing.\<close>

definition renew_lease :: "loop_env \<Rightarrow> string \<Rightarrow> string \<Rightarrow> loop_rt \<Rightarrow> loop_rt" where
  "renew_lease en loop owner s = s\<lparr>rt_states := snd (RenewLoopLease (le_acquire en) (le_now en) loop owner leaseTTL (rt_states s))\<rparr>"

section \<open>The end of a run\<close>

text \<open>
  What the loop's code returned, a panic included: its text, whether it is a suspension, the sends it made
  when it failed after acting, and whether it wraps an open breaker.
\<close>

record run_error =
  er_msg :: string
  er_suspended :: bool
  er_sends :: "int option"
  er_breaker :: bool

definition harnessWait :: "loop_env \<Rightarrow> run_error \<Rightarrow> duration option" where
  "harnessWait en e =
     (if \<not> er_breaker e \<and> \<not> Contains (er_msg e) ''harness unavailable'' then None
      else Some (case le_resets en of None \<Rightarrow> 15 * minute
        | Some t \<Rightarrow> (let until = time_sub t (le_now en) in if until > 0 then until + minute else 15 * minute)))"

definition finish_exec :: "loop_env \<Rightarrow> string \<Rightarrow> string \<Rightarrow> loop_rt \<Rightarrow> loop_rt" where
  "finish_exec en loop ex s = with_steps (finishExecution (le_clear en) (le_write en) loop ex (steps_of s)) s"

definition record_outcome :: "loop_env \<Rightarrow> string \<Rightarrow> string \<Rightarrow> LoopkitTrigger \<Rightarrow> int \<Rightarrow> string \<Rightarrow> run_error option \<Rightarrow> loop_rt \<Rightarrow> loop_rt" where
  "record_outcome en runID loop t attempt ex outcome s =
     (case outcome of
        None \<Rightarrow> finish_row en runID loop ''ok'' '''' attempt None (finishTrigger en loop t (finish_exec en loop ex s))
      | Some e \<Rightarrow>
          if er_suspended e then finish_row en runID loop ''waiting'' (er_msg e) attempt None (finishTrigger en loop t s)
          else case er_sends e of
            Some n \<Rightarrow> finish_row en runID loop ''failed'' (er_msg e) attempt None
              (alert [Str ''Loop '', Quoted loop, Str '' failed mid-way''] [Str ''It had already sent '', Num n, Str '' message(s)'', Str (er_msg e)]
                (finishTrigger en loop t (finish_exec en loop ex s)))
          | None \<Rightarrow> (case harnessWait en e of
              Some wait \<Rightarrow> finish_row en runID loop ''failed'' (er_msg e) (max (attempt - 1) 1) (Some (le_now en + wait))
                (markTrigger en loop t LoopTriggerRetry False s)
            | None \<Rightarrow>
                if attempt \<ge> maxAttempts
                then finish_row en runID loop ''dead'' (er_msg e) attempt None
                  (finishTrigger en loop t (alert [Str ''Loop '', Quoted loop, Str '' failed '', Num attempt, Str '' times''] [Str (er_msg e)]
                    (finish_exec en loop ex s)))
                else finish_row en runID loop ''failed'' (er_msg e) attempt (Some (le_now en + retryDelay attempt))
                  (markTrigger en loop t LoopTriggerRetry False s)))"

definition drain_one :: "loop_env \<Rightarrow> string \<Rightarrow> LoopkitTrigger \<Rightarrow> loop_rt \<Rightarrow> loop_rt" where
  "drain_one en loop t s = (if queuedTooLong en t then markTrigger en loop t LoopTriggerDone False s else spawn_run loop t 1 '''' s)"

definition drainPending :: "loop_env \<Rightarrow> string \<Rightarrow> loop_rt \<Rightarrow> loop_rt" where
  "drainPending en loop s =
     (let (waiting, p) = pq_take loop (rt_pending s); s1 = s\<lparr>rt_pending := p\<rparr>
      in if waiting = [] \<or> le_shutdown en then s1 else fold (drain_one en loop) waiting s1)"

definition end_run :: "loop_env \<Rightarrow> string \<Rightarrow> string \<Rightarrow> LoopkitTrigger \<Rightarrow> int \<Rightarrow> string \<Rightarrow> run_error option \<Rightarrow> loop_rt \<Rightarrow> loop_rt" where
  "end_run en runID loop t attempt ex outcome s =
     (let s1 = record_outcome en runID loop t attempt ex outcome s
      in drainPending en loop (s1\<lparr>rt_states := snd (ReleaseLoopLease (le_release en) loop runID (rt_states s1))\<rparr>))"

section \<open>Restarts, retries and replays\<close>

definition resume_one :: "loop_env \<Rightarrow> LoopRun \<Rightarrow> loop_rt \<Rightarrow> loop_rt" where
  "resume_one en r s =
     (let s1 = s\<lparr>rt_states := snd (ReleaseLoopLease (le_release en) (lr_Loop r) (lr_ID r) (rt_states s))\<rparr>
      in if lr_Attempt r \<ge> maxAttempts then s1
         else if lr_Trigger r = TriggerEvent \<or> lr_Trigger r = TriggerWebhook
         then finish_row en (lr_ID r) (lr_Loop r) ''interrupted'' ''the daemon stopped mid-run; its message is replayed'' (lr_Attempt r) None s1
         else finish_row en (lr_ID r) (lr_Loop r) ''interrupted'' ''the daemon stopped mid-run'' (lr_Attempt r)
           (Some (le_now en + retryDelay (lr_Attempt r))) s1)"

text \<open>The daemon's start, when it is known; \<open>zero_time\<close> otherwise. Nothing in memory outlives the crash.\<close>

definition resumeInterruptedRuns :: "loop_env \<Rightarrow> gtime \<Rightarrow> loop_rt \<Rightarrow> loop_rt" where
  "resumeInterruptedRuns en startedAt s =
     (let cutoff = (if startedAt = zero_time then le_now en - leaseTTL else startedAt)
      in case ReapStaleLoopRuns (le_read en) (le_write en) (le_now en) cutoff (rt_runs s) of
           (Some _, _, rs) \<Rightarrow> s\<lparr>rt_runs := rs\<rparr>
         | (None, out, rs) \<Rightarrow> fold (resume_one en) out (s\<lparr>rt_runs := rs\<rparr>))"

definition restarted :: "loop_rt \<Rightarrow> loop_rt" where
  "restarted s = s\<lparr>rt_pending := newPendingTriggers, rt_spawned := []\<rparr>"

definition set_status :: "loop_env \<Rightarrow> string \<Rightarrow> string \<Rightarrow> loop_rt \<Rightarrow> loop_rt" where
  "set_status en key status s = s\<lparr>rt_triggers := snd (SetLoopTriggerStatus (le_trigger en) (le_now en) key status False (rt_triggers s))\<rparr>"

text \<open>A trigger's row that must not be replayed, with what the operator is told. A payload that does not
  decode reads as no payload here.\<close>

definition replayBlocked :: "loop_env \<Rightarrow> LoopTrigger \<Rightarrow> loop_rt \<Rightarrow> bool \<times> loop_rt" where
  "replayBlocked en row s =
     (let trig = (case triggerFromRow en row of Some t \<Rightarrow> t | None \<Rightarrow> \<lparr>tg_Kind = '''', tg_Payload = []\<rparr>)
      in if lt_Acted row
         then (True, alert [Str ''Loop '', Quoted (lt_Loop row), Str '' was cut off mid-way''] [Str (lt_Conversation row)] s)
         else if lt_Owner row \<noteq> '''' \<and> le_turn_found en (lt_Owner row) then (True, s)
         else if queuedTooLong en trig then (True, s)
         else if lt_Attempts row \<ge> maxAttempts
         then (True, alert [Str ''Loop '', Quoted (lt_Loop row), Str '' gave up on a message''] [Str (lt_Conversation row), Num (lt_Attempts row)] s)
         else (False, s))"

definition replay_row :: "loop_env \<Rightarrow> LoopTrigger \<Rightarrow> loop_rt \<Rightarrow> loop_rt" where
  "replay_row en row s =
     (let (skip, s1) = replayBlocked en row s
      in if skip then set_status en (lt_Key row) LoopTriggerDone s1
         else case triggerFromRow en row of
             None \<Rightarrow> set_status en (lt_Key row) LoopTriggerDone s1
           | Some t \<Rightarrow> spawn_run (lt_Loop row) t (lt_Attempts row + 1) '''' s1)"

definition replayLoopTriggers :: "loop_env \<Rightarrow> loop_rt \<Rightarrow> loop_rt" where
  "replayLoopTriggers en s =
     (case OpenLoopTriggers (le_read en) '''' [] (rt_triggers s) of
        Inl _ \<Rightarrow> s
      | Inr rows \<Rightarrow> fold (\<lambda>row s. if le_installed en (lt_Loop row) then replay_row en row s
                               else set_status en (lt_Key row) LoopTriggerDone s) rows s)"

definition retryLoopTriggers :: "loop_env \<Rightarrow> string \<Rightarrow> loop_rt \<Rightarrow> bool \<times> loop_rt" where
  "retryLoopTriggers en loop s =
     (case OpenLoopTriggers (le_read en) loop [LoopTriggerRetry] (rt_triggers s) of
        Inl _ \<Rightarrow> (False, s)
      | Inr rows \<Rightarrow> if rows = [] then (False, s) else (True, fold (replay_row en) rows s))"

definition retry_trigger :: LoopkitTrigger where
  "retry_trigger = \<lparr>tg_Kind = ''retry'', tg_Payload = []\<rparr>"

definition retry_one :: "loop_env \<Rightarrow> LoopState \<Rightarrow> loop_rt \<Rightarrow> loop_rt" where
  "retry_one en st s =
     (let (err, ls) = ClearLoopRetry (le_write en) (lo_Loop st) (rt_states s); s1 = s\<lparr>rt_states := ls\<rparr>
      in if \<not> le_installed en (lo_Loop st) \<or> err \<noteq> None then s1
         else (let (replayed, s2) = retryLoopTriggers en (lo_Loop st) s1
               in if replayed then s2 else spawn_run (lo_Loop st) retry_trigger (lo_RetryAttempt st + 1) '''' s2))"

text \<open>One tick of the worker.\<close>

definition retry_tick :: "loop_env \<Rightarrow> loop_rt \<Rightarrow> loop_rt" where
  "retry_tick en s = (case DueLoopRetries (le_read en) (le_now en) (rt_states s) of
      Inl _ \<Rightarrow> s | Inr rows \<Rightarrow> fold (retry_one en) rows s)"

definition day :: duration where "day = 24 * hour"

text \<open>The six-hour sweep, of the tables modelled here. \<open>AddDate\<close> counts days of 24 hours.\<close>

definition prune_tick :: "loop_env \<Rightarrow> loop_rt \<Rightarrow> loop_rt" where
  "prune_tick en s =
     s\<lparr>rt_runs := snd (PruneLoopRuns (le_write en) (le_now en - 14 * day) (rt_runs s)),
       rt_steps := step_rows (snd (PruneLoopSteps (le_write en) (le_now en - 7 * day) (steps_of s))),
       rt_triggers := snd (PruneLoopTriggers (le_write en) (le_now en - 7 * day) (rt_triggers s))\<rparr>"

section \<open>Waits\<close>

text \<open>How a match's text reads, and how a value of a payload prints (\<open>fmt.Sprint\<close>), are the
  library's.\<close>

definition match_field :: "(json \<Rightarrow> string) \<Rightarrow> (string \<times> json) list \<Rightarrow> string \<times> string \<Rightarrow> bool" where
  "match_field sprint payload kv = (case row_of fst (fst kv) payload of
      None \<Rightarrow> False | Some (_, got) \<Rightarrow> EqualFold (sprint got) (snd kv))"

definition waiterMatches :: "(json \<Rightarrow> string) \<Rightarrow> (string \<Rightarrow> (string \<times> string) list option) \<Rightarrow> string \<Rightarrow> (string \<times> json) list \<Rightarrow> bool" where
  "waiterMatches sprint decm matchJSON payload =
     (if TrimSpace matchJSON = '''' \<or> matchJSON = ''{}'' \<or> matchJSON = ''null'' then True
      else case decm matchJSON of None \<Rightarrow> False | Some want \<Rightarrow> list_all (match_field sprint payload) want)"

definition resume_payload :: "string \<Rightarrow> (string \<times> json) list \<Rightarrow> (string \<times> json) list" where
  "resume_payload kind payload = obj_set ''resumed'' (JBool True) (obj_set ''event_kind'' (JStr kind) payload)"

definition resumeWaiter :: "loop_env \<Rightarrow> Waiter \<Rightarrow> (string \<times> json) list \<Rightarrow> loop_rt \<Rightarrow> loop_rt" where
  "resumeWaiter en w payload s =
     (if \<not> le_installed en (wt_Loop w) then s
      else spawn_run (wt_Loop w) \<lparr>tg_Kind = TriggerEvent, tg_Payload = resume_payload (wt_EventKind w) payload\<rparr> 2 (wt_ExecutionID w) s)"

definition resolve_one :: "loop_env \<Rightarrow> (json \<Rightarrow> string) \<Rightarrow> (string \<Rightarrow> (string \<times> string) list option) \<Rightarrow> ((string \<times> json) list \<Rightarrow> string option) \<Rightarrow>
    (string \<times> json) list \<Rightarrow> Waiter \<Rightarrow> loop_rt \<Rightarrow> loop_rt" where
  "resolve_one en sprint decm enc payload w s =
     (if \<not> waiterMatches sprint decm (wt_MatchJSON w) payload then s
      else case enc payload of None \<Rightarrow> s
         | Some body \<Rightarrow> (case ResolveWaiter (le_write en) (le_now en) (wt_ID w) body (rt_waiters s) of
               (Inr True, ws) \<Rightarrow> resumeWaiter en w payload (s\<lparr>rt_waiters := ws\<rparr>)
             | (_, ws) \<Rightarrow> s\<lparr>rt_waiters := ws\<rparr>))"

definition resolveWaiters :: "loop_env \<Rightarrow> (json \<Rightarrow> string) \<Rightarrow> (string \<Rightarrow> (string \<times> string) list option) \<Rightarrow> ((string \<times> json) list \<Rightarrow> string option) \<Rightarrow>
    string \<Rightarrow> (string \<times> json) list \<Rightarrow> loop_rt \<Rightarrow> loop_rt" where
  "resolveWaiters en sprint decm enc kind payload s =
     (case PendingWaiters (le_read en) kind (le_now en) (rt_waiters s) of
        Inl _ \<Rightarrow> s | Inr ws \<Rightarrow> fold (resolve_one en sprint decm enc payload) ws s)"

definition timeout_payload :: "Waiter \<Rightarrow> (string \<times> json) list" where
  "timeout_payload w = [(''timeout'', JBool True), (''event'', JStr (wt_EventKind w))]"

definition sweepWaiters :: "loop_env \<Rightarrow> loop_rt \<Rightarrow> loop_rt" where
  "sweepWaiters en s =
     (case ExpireWaiters (le_read en) (le_write en) (le_now en) (rt_waiters s) of
        (Inl _, ws) \<Rightarrow> s\<lparr>rt_waiters := ws\<rparr>
      | (Inr out, ws) \<Rightarrow> fold (\<lambda>w. resumeWaiter en w (timeout_payload w)) out (s\<lparr>rt_waiters := ws\<rparr>))"

end
