(* ===== verification/Loop_Run_Props.thy ===== *)
theory Loop_Run_Props
  imports Loop_Run
begin

text \<open>What the durable runs of \<^verbatim>\<open>internal/runtime/looprun.go\<close> keep, bring back, and lose.\<close>

section \<open>What each helper touches\<close>

lemma finish_row_other [simp]:
  "rt_steps (finish_row en i l st m a n s) = rt_steps s" "rt_triggers (finish_row en i l st m a n s) = rt_triggers s"
  "rt_waiters (finish_row en i l st m a n s) = rt_waiters s" "rt_pending (finish_row en i l st m a n s) = rt_pending s"
  "rt_spawned (finish_row en i l st m a n s) = rt_spawned s" "rt_alerts (finish_row en i l st m a n s) = rt_alerts s"
  by (simp_all add: finish_row_def Let_def)

lemma markTrigger_other [simp]:
  "rt_steps (markTrigger en l t st b s) = rt_steps s" "rt_states (markTrigger en l t st b s) = rt_states s"
  "rt_runs (markTrigger en l t st b s) = rt_runs s" "rt_waiters (markTrigger en l t st b s) = rt_waiters s"
  "rt_pending (markTrigger en l t st b s) = rt_pending s" "rt_spawned (markTrigger en l t st b s) = rt_spawned s"
  by (simp_all add: markTrigger_def)

lemma finishTrigger_other [simp]:
  "rt_steps (finishTrigger en l t s) = rt_steps s" "rt_states (finishTrigger en l t s) = rt_states s"
  "rt_runs (finishTrigger en l t s) = rt_runs s" "rt_waiters (finishTrigger en l t s) = rt_waiters s"
  "rt_pending (finishTrigger en l t s) = rt_pending s" "rt_spawned (finishTrigger en l t s) = rt_spawned s"
  by (simp_all add: finishTrigger_def Let_def split: sum.split option.split)

lemma with_steps_sels [simp]:
  "rt_steps (with_steps db s) = step_rows db" "rt_states (with_steps db s) = loop_states db"
  "rt_runs (with_steps db s) = rt_runs s" "rt_triggers (with_steps db s) = rt_triggers s"
  "rt_waiters (with_steps db s) = rt_waiters s" "rt_pending (with_steps db s) = rt_pending s"
  "rt_spawned (with_steps db s) = rt_spawned s"
  "step_rows (steps_of s) = rt_steps s" "loop_states (steps_of s) = rt_states s"
  by (simp_all add: with_steps_def steps_of_def)

lemma finish_exec_other [simp]:
  "rt_runs (finish_exec en l ex s) = rt_runs s" "rt_triggers (finish_exec en l ex s) = rt_triggers s"
  "rt_waiters (finish_exec en l ex s) = rt_waiters s" "rt_pending (finish_exec en l ex s) = rt_pending s"
  "rt_spawned (finish_exec en l ex s) = rt_spawned s"
  by (simp_all add: finish_exec_def)

lemma alert_other [simp]:
  "rt_steps (alert a b s) = rt_steps s" "rt_states (alert a b s) = rt_states s" "rt_runs (alert a b s) = rt_runs s"
  "rt_triggers (alert a b s) = rt_triggers s" "rt_waiters (alert a b s) = rt_waiters s" "rt_pending (alert a b s) = rt_pending s"
  "rt_spawned (alert a b s) = rt_spawned s"
  by (simp_all add: alert_def)

lemma spawn_run_sels [simp]:
  "rt_steps (spawn_run l t a ex s) = rt_steps s" "rt_states (spawn_run l t a ex s) = rt_states s"
  "rt_runs (spawn_run l t a ex s) = rt_runs s" "rt_triggers (spawn_run l t a ex s) = rt_triggers s"
  "rt_waiters (spawn_run l t a ex s) = rt_waiters s" "rt_pending (spawn_run l t a ex s) = rt_pending s"
  "rt_spawned (spawn_run l t a ex s) = rt_spawned s @ [\<lparr>sw_Loop = l, sw_Trigger = t, sw_Attempt = a, sw_Execution = ex\<rparr>]"
  by (simp_all add: spawn_run_def)

lemma drain_one_other [simp]:
  "rt_steps (drain_one en l t s) = rt_steps s" "rt_states (drain_one en l t s) = rt_states s"
  "rt_runs (drain_one en l t s) = rt_runs s" "rt_waiters (drain_one en l t s) = rt_waiters s"
  by (simp_all add: drain_one_def)

lemma drainPending_other [simp]:
  "rt_steps (drainPending en l s) = rt_steps s" "rt_states (drainPending en l s) = rt_states s"
  "rt_runs (drainPending en l s) = rt_runs s" "rt_waiters (drainPending en l s) = rt_waiters s"
  by (simp_all add: drainPending_def Let_def split_def fold_keeps)

section \<open>Executions\<close>

lemma row_upsert_execution:
  assumes "row_of lo_Loop loop ls = Some r"
  shows "row_of lo_Loop loop (rn_states (snd (FinishLoopRun err now i loop' status msg attempt nextRetry \<lparr>rn_runs = rs, rn_states = ls\<rparr>))) =
    Some (if loop' = loop \<and> err = None
          then (if status = ''ok'' then merge_success r (success_row now loop) else merge_failure r (failure_row now loop nextRetry attempt msg))
          else r)"
  using assms
  by (auto simp: FinishLoopRun_def successes.row_upsert failures.row_upsert success_row_def failure_row_def new_state_def split: option.splits)

definition execution_of :: "string \<Rightarrow> loop_rt \<Rightarrow> string" where
  "execution_of loop s = (case row_of lo_Loop loop (rt_states s) of None \<Rightarrow> '''' | Some r \<Rightarrow> lo_ExecutionID r)"

lemma execution_of_finish_row [simp]: "execution_of loop (finish_row en i loop' st m a n s) = execution_of loop s"
  by (auto simp: execution_of_def finish_row_def Let_def FinishLoopRun_def successes.row_upsert failures.row_upsert
      success_row_def failure_row_def new_state_def merge_success_def merge_failure_def split: option.splits)

lemma execution_of_release [simp]:
  "execution_of loop (s\<lparr>rt_states := snd (ReleaseLoopLease err l w (rt_states s))\<rparr>) = execution_of loop s"
  by (auto simp: execution_of_def ReleaseLoopLease_def row_update_where split: option.splits)

lemma execution_of_cong: "rt_states s = rt_states s' \<Longrightarrow> execution_of loop s = execution_of loop s'"
  by (simp add: execution_of_def)

lemma LoopExecution_steps_of: "LoopExecution None loop (steps_of s) = Inr (execution_of loop s)"
  by (simp add: LoopExecution_def execution_of_def)

lemma acquire_execution:
  assumes "AcquireLoopLease err now loop owner ttl ls = (res, ls')"
  shows "(case row_of lo_Loop l ls' of None \<Rightarrow> '''' | Some r \<Rightarrow> lo_ExecutionID r) = (case row_of lo_Loop l ls of None \<Rightarrow> '''' | Some r \<Rightarrow> lo_ExecutionID r)"
proof -
  have "row_of lo_Loop l (ls @ [x]) = (case row_of lo_Loop l ls of None \<Rightarrow> (if lo_Loop x = l then Some x else None) | Some r \<Rightarrow> Some r)" for x
    by (induction ls) (auto simp: row_of_def)
  then show ?thesis
    using assms by (auto simp: AcquireLoopLease_def row_update_where new_state_def split: option.splits if_splits)
qed

text \<open>A failure that is not a suspension and made no sends keeps the execution and its checkpoints.\<close>

lemma end_failed:
  assumes "\<not> er_suspended e" and "er_sends e = None" and "attempt < maxAttempts \<or> harnessWait en e \<noteq> None"
  shows "execution_of l (end_run en r loop t attempt ex (Some e) s) = execution_of l s \<and> rt_steps (end_run en r loop t attempt ex (Some e) s) = rt_steps s"
proof -
  let ?o = "record_outcome en r loop t attempt ex (Some e) s"
  have "execution_of l ?o = execution_of l s \<and> rt_steps ?o = rt_steps s"
    using assms by (auto simp: record_outcome_def execution_of_cong [of "markTrigger _ _ _ _ _ s" s] split: option.splits)
  moreover have "execution_of l (end_run en r loop t attempt ex (Some e) s) = execution_of l ?o"
    by (simp add: end_run_def Let_def execution_of_cong [OF drainPending_other(2)])
  ultimately show ?thesis by (simp add: end_run_def Let_def)
qed

lemma begin_first:
  assumes "begin_run en r uuid loop t 1 '''' s = (Some ex, s1)" and "le_write en = None"
  shows "ex = uuid \<and> execution_of loop s1 = uuid \<and> rt_steps s1 = rt_steps s"
  using assms
  by (auto simp: begin_run_def executionFor_def SetLoopExecution_def execution_of_def executions.row_upsert new_state_def merge_execution_def
      Let_def split_def split: if_splits option.splits)

lemma begin_again:
  assumes "begin_run en r uuid loop t attempt '''' s = (Some ex, s1)" and "le_read en = None" and "attempt > 1" and "execution_of loop s \<noteq> ''''"
  shows "ex = execution_of loop s \<and> rt_steps s1 = rt_steps s"
proof -
  obtain res ls where a: "AcquireLoopLease (le_acquire en) (le_now en) loop r leaseTTL (rt_states s) = (res, ls)" by fastforce
  have "execution_of loop (s\<lparr>rt_states := ls\<rparr>) = execution_of loop s"
    using acquire_execution [OF a, of loop] by (simp add: execution_of_def)
  then have "LoopExecution None loop (steps_of (s\<lparr>rt_states := ls\<rparr>)) = Inr (execution_of loop s)"
    by (simp add: LoopExecution_steps_of)
  with assms a show ?thesis
    by (auto simp: begin_run_def executionFor_def Let_def split: if_splits)
qed

lemma begin_any:
  assumes "begin_run en r uuid loop t attempt '''' s = (Some ex, s1)" and "le_read en = None" and "le_write en = None" and "uuid \<noteq> ''''"
  shows "ex \<noteq> '''' \<and> execution_of loop s1 = ex \<and> rt_steps s1 = rt_steps s"
proof -
  obtain res ls where a: "AcquireLoopLease (le_acquire en) (le_now en) loop r leaseTTL (rt_states s) = (res, ls)" by fastforce
  let ?db = "steps_of (s\<lparr>rt_states := ls\<rparr>)"
  obtain ex' db where e: "executionFor None None uuid loop attempt ?db = (ex', db)" by fastforce
  have st: "rt_states s1 = loop_states db" "rt_steps s1 = step_rows db" and x: "ex = ex'"
    using assms(1-3) a e by (auto simp: begin_run_def Let_def split_def split: if_splits)
  have "ex' \<noteq> '''' \<and> LoopExecution None loop db = Inr ex' \<and> step_rows db = rt_steps s"
    using e assms(4) LoopExecution_SetLoopExecution [of loop loop uuid ?db]
    by (auto simp: executionFor_def Let_def SetLoopExecution_def split: if_splits sum.splits)
  then show ?thesis by (simp add: x execution_of_def st LoopExecution_def)
qed

lemma release_row:
  "row_of lo_Loop loop (snd (ReleaseLoopLease err l w ls)) =
     map_option (\<lambda>r. if err = None \<and> held_by l w r then r\<lparr>lo_LeaseUntil := None, lo_LeaseOwner := ''''\<rparr> else r) (row_of lo_Loop loop ls)"
  by (cases err) (auto simp: ReleaseLoopLease_def row_update_where option.map_ident)

text \<open>What the failure of a run leaves in its loop's row: the retry that is due, if any, and the attempts it counts.\<close>

lemma end_failed_row:
  assumes "\<not> er_suspended e" and "er_sends e = None" and "le_finish en = None"
  shows "\<exists>st. row_of lo_Loop loop (rt_states (end_run en r loop t attempt ex (Some e) s)) = Some st \<and>
    (case harnessWait en e of
       Some wait \<Rightarrow> lo_NextRetryAt st = Some (le_now en + wait) \<and> lo_RetryAttempt st = max (attempt - 1) 1
     | None \<Rightarrow> lo_NextRetryAt st = (if attempt < maxAttempts then Some (le_now en + retryDelay attempt) else None) \<and> lo_RetryAttempt st = attempt)"
proof -
  have f: "\<exists>st. row_of lo_Loop loop (rt_states (finish_row en r loop status m a next s')) = Some st \<and> lo_NextRetryAt st = next \<and> lo_RetryAttempt st = a"
    if "status \<noteq> ''ok''" for status m a "next" s'
    using that assms(3) by (auto simp: finish_row_def Let_def FinishLoopRun_def failures.row_upsert failure_row_def new_state_def merge_failure_def
        split: option.splits)
  have "\<exists>st. row_of lo_Loop loop (rt_states (record_outcome en r loop t attempt ex (Some e) s)) = Some st \<and>
    (case harnessWait en e of
       Some wait \<Rightarrow> lo_NextRetryAt st = Some (le_now en + wait) \<and> lo_RetryAttempt st = max (attempt - 1) 1
     | None \<Rightarrow> lo_NextRetryAt st = (if attempt < maxAttempts then Some (le_now en + retryDelay attempt) else None) \<and> lo_RetryAttempt st = attempt)"
    using assms(1,2) by (auto simp: record_outcome_def intro!: f split: option.split)
  then obtain st where st: "row_of lo_Loop loop (rt_states (record_outcome en r loop t attempt ex (Some e) s)) = Some st"
    "case harnessWait en e of
       Some wait \<Rightarrow> lo_NextRetryAt st = Some (le_now en + wait) \<and> lo_RetryAttempt st = max (attempt - 1) 1
     | None \<Rightarrow> lo_NextRetryAt st = (if attempt < maxAttempts then Some (le_now en + retryDelay attempt) else None) \<and> lo_RetryAttempt st = attempt"
    by blast
  let ?st = "if le_release en = None \<and> held_by loop r st then st\<lparr>lo_LeaseUntil := None, lo_LeaseOwner := ''''\<rparr> else st"
  have "row_of lo_Loop loop (rt_states (end_run en r loop t attempt ex (Some e) s)) = Some ?st"
    by (simp add: end_run_def Let_def release_row st(1))
  moreover have "lo_NextRetryAt ?st = lo_NextRetryAt st" "lo_RetryAttempt ?st = lo_RetryAttempt st" by simp_all
  ultimately obtain st2 where "row_of lo_Loop loop (rt_states (end_run en r loop t attempt ex (Some e) s)) = Some st2"
    "lo_NextRetryAt st2 = lo_NextRetryAt st" "lo_RetryAttempt st2 = lo_RetryAttempt st" by blast
  with st(2) show ?thesis by (cases "harnessWait en e") simp_all
qed

text \<open>
  C35. A run that fails, at any attempt that is not the last, or at any attempt when it is deferred
  because the harness is unavailable, leaves the execution it worked on and every checkpoint it recorded; the retry it
  schedules counts at least one attempt, and when a later attempt starts, that attempt is on the same execution,
  with the checkpoints still there, so it does not repeat a step that was done. Between the start and the failure, and between the
  failure and the retry, anything may happen that leaves the loop's current execution: leases renewed, other
  loops run, steps recorded. The run is one that was not pinned to an execution, and the driver answers when the executions are read
  and written.
\<close>
theorem retry_resumes_execution:
  assumes "begin_run en r uuid loop t attempt '''' s = (Some ex, s1)" and "le_read en = None" and "le_write en = None" and "uuid \<noteq> ''''"
    and "execution_of loop s2 = execution_of loop s1"
    and "\<not> er_suspended e" and "er_sends e = None" and "attempt < maxAttempts \<or> harnessWait en2 e \<noteq> None"
    and "1 \<le> attempt" and "le_finish en2 = None"
    and "execution_of loop s3 = execution_of loop (end_run en2 r loop t attempt ex (Some e) s2)"
    and "begin_run en3 r3 uuid3 loop t3 later '''' s3 = (Some ex3, s4)" and "le_read en3 = None" and "later > 1"
  shows "rt_steps (end_run en2 r loop t attempt ex (Some e) s2) = rt_steps s2 \<and>
    (\<exists>st. row_of lo_Loop loop (rt_states (end_run en2 r loop t attempt ex (Some e) s2)) = Some st \<and>
       lo_NextRetryAt st \<noteq> None \<and> lo_RetryAttempt st \<ge> 1) \<and>
    ex3 = ex \<and> rt_steps s4 = rt_steps s3"
proof -
  have b: "ex \<noteq> '''' \<and> execution_of loop s1 = ex" using begin_any [OF assms(1-4)] by simp
  have f: "execution_of loop (end_run en2 r loop t attempt ex (Some e) s2) = execution_of loop s2 \<and>
      rt_steps (end_run en2 r loop t attempt ex (Some e) s2) = rt_steps s2"
    by (rule end_failed [OF assms(6-8)])
  then have "execution_of loop s3 = ex" using assms(5,11) b by simp
  then have "ex3 = ex \<and> rt_steps s4 = rt_steps s3" using begin_again [OF assms(12-14)] b by simp
  moreover have "\<exists>st. row_of lo_Loop loop (rt_states (end_run en2 r loop t attempt ex (Some e) s2)) = Some st \<and>
      lo_NextRetryAt st \<noteq> None \<and> lo_RetryAttempt st \<ge> 1"
    using end_failed_row [OF assms(6,7,10), of loop r t attempt ex s2] assms(8,9) by (auto split: option.splits)
  ultimately show ?thesis using f by simp
qed

definition calm :: "gtime \<Rightarrow> loop_env" where
  "calm now = \<lparr>le_now = now, le_acquire = None, le_read = None, le_write = None, le_trigger = None, le_record = None, le_finish = None,
     le_clear = None, le_release = None, le_parse_time = (\<lambda>_. None), le_dec = (\<lambda>_. Some []), le_installed = (\<lambda>_. True),
     le_turn_found = (\<lambda>_. False), le_shutdown = False, le_resets = None\<rparr>"

definition empty_rt :: loop_rt where
  "empty_rt = \<lparr>rt_steps = [], rt_states = [], rt_runs = [], rt_triggers = [], rt_waiters = [], rt_pending = newPendingTriggers,
     rt_spawned = [], rt_alerts = []\<rparr>"

definition manual_trigger :: LoopkitTrigger where
  "manual_trigger = \<lparr>tg_Kind = ''manual'', tg_Payload = []\<rparr>"

definition plain_error :: run_error where
  "plain_error = \<lparr>er_msg = ''boom'', er_suspended = False, er_sends = None, er_breaker = False\<rparr>"

definition first_run :: loop_rt where
  "first_run = snd (begin_run (calm 0) ''r1'' ''u1'' ''l'' manual_trigger 1 '''' empty_rt)"

definition second_run :: "string option \<times> loop_rt" where
  "second_run = begin_run (calm 9) ''r2'' ''u2'' ''l'' retry_trigger 2 '''' (end_run (calm 5) ''r1'' ''l'' manual_trigger 1 ''u1'' (Some plain_error) first_run)"

text \<open>The second run records a step, renews its lease and fails too.\<close>

definition second_state :: loop_rt where
  "second_state = renew_lease (calm 10) ''l'' ''r2''
     (with_steps (snd (SaveLoopStep None 10 ''u1'' ''l'' ''0-notify'' ''sent'' (steps_of (snd second_run)))) (snd second_run))"

definition third_run :: "string option \<times> loop_rt" where
  "third_run = begin_run (calm 20) ''r3'' ''u3'' ''l'' retry_trigger 3 '''' (end_run (calm 11) ''r2'' ''l'' retry_trigger 2 ''u1'' (Some plain_error) second_state)"

lemma retry_resumes_execution_witness: "fst third_run = Some ''u1'' \<and> LoopStep None ''u1'' ''0-notify'' (steps_of (snd third_run)) = Inr (Some ''sent'')"
proof -
  have a: "begin_run (calm 9) ''r2'' ''u2'' ''l'' retry_trigger 2 ''''
      (end_run (calm 5) ''r1'' ''l'' manual_trigger 1 ''u1'' (Some plain_error) first_run) = (Some ''u1'', snd second_run)"
    unfolding second_run_def [symmetric] by (rule prod_eqI) (simp_all, code_simp)
  have b: "fst third_run \<noteq> None" by code_simp
  then obtain x y where c: "third_run = (Some x, y)" by (metis not_None_eq prod.collapse)
  have ex: "execution_of ''l'' second_state = execution_of ''l'' (snd second_run)" by code_simp
  have st: "LoopStep None ''u1'' ''0-notify'' (steps_of (end_run (calm 11) ''r2'' ''l'' retry_trigger 2 ''u1'' (Some plain_error) second_state)) = Inr (Some ''sent'')"
    by code_simp
  have "x = ''u1'' \<and> rt_steps y = rt_steps (end_run (calm 11) ''r2'' ''l'' retry_trigger 2 ''u1'' (Some plain_error) second_state)"
    using retry_resumes_execution [OF a _ _ _ ex _ _ _ _ _ refl c [unfolded third_run_def]]
    by (simp add: calm_def plain_error_def maxAttempts_def)
  moreover from this have "LoopStep None ''u1'' ''0-notify'' (steps_of y) =
      LoopStep None ''u1'' ''0-notify'' (steps_of (end_run (calm 11) ''r2'' ''l'' retry_trigger 2 ''u1'' (Some plain_error) second_state))"
    by (simp add: LoopStep_def)
  ultimately show ?thesis by (simp only: st c fst_conv snd_conv)
qed

section \<open>Waits and their runs\<close>

text \<open>
  A run resumed by an event while its loop is busy is queued as a bare trigger; when the loop is free
  it is run as a first attempt with no execution. The execution the wait was armed under is lost, and the
  loop starts over on a new one, repeating every step it had done before it parked.
\<close>
theorem queued_resume_loses_execution:
  assumes "begin_run en r uuid loop t 2 execution s = (None, s1)" and "tg_Kind t = TriggerEvent"
    and "entry_of loop (pq_byLoop (rt_pending s)) = []" and "entry_of loop (pq_order (rt_pending s)) = []"
    and "\<not> queuedTooLong en' t" and "\<not> le_shutdown en'"
  shows "rt_spawned (drainPending en' loop s1) = rt_spawned s @ [\<lparr>sw_Loop = loop, sw_Trigger = t, sw_Attempt = 1, sw_Execution = ''''\<rparr>]"
proof -
  let ?p = "snd (pq_add loop t (rt_pending s))"
  have q: "fst (pq_add loop t (rt_pending s))" "entry_of loop (pq_byLoop ?p) = [(conversationOf t, t)]"
    "entry_of loop (pq_order ?p) = [conversationOf t]"
    using assms(3,4) by (simp_all add: pq_add_def Let_def row_of_def obj_set_def maxPendingPerLoop_def entry_of_set [unfolded obj_set_def])
  have "rt_pending s1 = ?p \<and> rt_spawned s1 = rt_spawned s"
    using assms(1,2) q(1) by (auto simp: begin_run_def Let_def split_def split: if_splits)
  then show ?thesis
    using q(2,3) assms(5,6) by (simp add: drainPending_def pq_take_def row_of_def map_filter_simps drain_one_def Let_def)
qed

definition event_trigger :: "string \<Rightarrow> string \<Rightarrow> LoopkitTrigger" where
  "event_trigger i chat = \<lparr>tg_Kind = TriggerEvent, tg_Payload = [(''event_id'', JStr i), (''chat'', JStr chat)]\<rparr>"

lemma queued_resume_loses_execution_witness:
  "rt_spawned (drainPending (calm 2) ''l'' (snd (begin_run (calm 1) ''r2'' ''u2'' ''l'' (event_trigger ''e'' ''c'') 2 ''x'' first_run))) =
    [\<lparr>sw_Loop = ''l'', sw_Trigger = event_trigger ''e'' ''c'', sw_Attempt = 1, sw_Execution = ''''\<rparr>]"
proof -
  have e: "rt_pending first_run = newPendingTriggers \<and> rt_spawned first_run = []"
    by code_simp
  let ?b = "begin_run (calm 1) ''r2'' ''u2'' ''l'' (event_trigger ''e'' ''c'') 2 ''x'' first_run"
  have "fst ?b = None" by code_simp
  then have b: "?b = (None, snd ?b)" by (metis prod.collapse)
  show ?thesis
    using queued_resume_loses_execution [OF b, of "calm 2"] e
    by (simp add: event_trigger_def newPendingTriggers_def entry_of_def queuedTooLong_def text_field_def row_of_def calm_def)
qed

text \<open>
  A loop has one current execution. When a run resumed on an older execution ends well, it clears
  whatever execution is current: the retry another failed run is waiting for then starts on a fresh one,
  and every step that run had recorded is done again.
\<close>
theorem other_finish_orphans_retry:
  assumes "execution_of loop s = ex2" and "ex1 \<noteq> ''''" and "ex2 \<noteq> ex1" and "le_write en = None" and "le_finish en = None"
    and "begin_run en3 r3 uuid loop t3 attempt '''' (end_run en r1 loop t 2 ex1 None s) = (Some ex, s')"
    and "le_write en3 = None"
  shows "ex = uuid \<and> (\<forall>row \<in> set (rt_steps s). ls_Execution row = ex2 \<longrightarrow> row \<in> set (rt_steps s'))"
proof -
  let ?f = "finish_exec en loop ex1 s" and ?e = "end_run en r1 loop t 2 ex1 None s"
  have f: "execution_of loop ?f = ''''"
    using LoopExecution_SetLoopExecution [of loop loop "''''" "snd (ClearLoopSteps (le_clear en) ex1 (steps_of s))"] assms(2,4)
    by (auto simp: finish_exec_def finishExecution_def execution_of_def LoopExecution_def split: option.splits)
  have "execution_of loop ?e = execution_of loop ?f"
    by (simp add: end_run_def record_outcome_def Let_def execution_of_cong [OF drainPending_other(2)]
        execution_of_cong [OF finishTrigger_other(2)])
  then have e: "LoopExecution None loop (steps_of ?e) = Inr ''''" using f by (simp add: LoopExecution_steps_of)
  obtain res ls where a: "AcquireLoopLease (le_acquire en3) (le_now en3) loop r3 leaseTTL (rt_states ?e) = (res, ls)" by fastforce
  let ?db = "steps_of (?e\<lparr>rt_states := ls\<rparr>)"
  have "LoopExecution None loop ?db = Inr ''''"
    using acquire_execution [OF a, of loop] e by (simp add: LoopExecution_def)
  then have "LoopExecution (le_read en3) loop ?db = Inr '''' \<or> (\<exists>m. LoopExecution (le_read en3) loop ?db = Inl m)"
    by (cases "le_read en3") (auto simp: LoopExecution_def)
  then have "fst (executionFor (le_read en3) None uuid loop attempt ?db) = uuid"
    by (auto simp: executionFor_def SetLoopExecution_def Let_def)
  with a assms(6,7) have ex: "ex = uuid" by (auto simp: begin_run_def Let_def split_def split: if_splits)
  have "rt_steps s' = rt_steps ?e"
    using assms(6) a by (auto simp: begin_run_def Let_def split_def executionFor_def SetLoopExecution_def split: if_splits option.splits sum.splits)
  moreover have "rt_steps ?e = rt_steps ?f" by (simp add: end_run_def record_outcome_def Let_def)
  moreover have "row \<in> set (rt_steps ?f)" if "row \<in> set (rt_steps s)" "ls_Execution row = ex2" for row
    using that assms(3) by (auto simp: finish_exec_def finishExecution_def ClearLoopSteps_def SetLoopExecution_def split: option.splits)
  ultimately show ?thesis using ex by simp
qed

text \<open>The loop of a row: parked on \<open>''e1''\<close>, while its run on \<open>''e2''\<close> failed and waits for its retry.\<close>

definition parked_rt :: loop_rt where
  "parked_rt = empty_rt\<lparr>rt_steps := [\<lparr>ls_Execution = ''e1'', ls_Loop = ''l'', ls_Name = ''0-notify'', ls_Result = '''', ls_CompletedAt = 0\<rparr>,
      \<lparr>ls_Execution = ''e2'', ls_Loop = ''l'', ls_Name = ''0-notify'', ls_Result = '''', ls_CompletedAt = 0\<rparr>],
     rt_states := [(new_state ''l'')\<lparr>lo_ExecutionID := ''e2'', lo_NextRetryAt := Some 7, lo_RetryAttempt := 1, lo_ConsecFails := 1\<rparr>]\<rparr>"

lemma other_finish_orphans_retry_witness:
  "fst (begin_run (calm 9) ''r2'' ''u2'' ''l'' retry_trigger 2 '''' (end_run (calm 5) ''r1'' ''l'' manual_trigger 2 ''e1'' None parked_rt)) = Some ''u2''"
proof -
  let ?b = "begin_run (calm 9) ''r2'' ''u2'' ''l'' retry_trigger 2 '''' (end_run (calm 5) ''r1'' ''l'' manual_trigger 2 ''e1'' None parked_rt)"
  have "fst ?b \<noteq> None" by code_simp
  then obtain x y where b: "?b = (Some x, y)" by (metis not_None_eq prod.collapse)
  have "execution_of ''l'' parked_rt = ''e2''" by code_simp
  then have "x = ''u2''" using other_finish_orphans_retry [OF _ _ _ _ _ b] by (simp add: calm_def)
  with b show ?thesis by simp
qed

text \<open>
  A run that parks is recorded in its loop's standing as a failure: the consecutive failures go up, the
  last failure is now, and a retry that was due for another failed run of the loop is forgotten.
\<close>
theorem parked_counts_as_failure:
  assumes "er_suspended e" and "row_of lo_Loop loop (rt_states s) = Some st" and "le_finish en = None"
    and "row_of lo_Loop loop (rt_states (end_run en r loop t attempt ex (Some e) s)) = Some st'"
  shows "lo_ConsecFails st' = lo_ConsecFails st + 1 \<and> lo_LastFailureAt st' = Some (le_now en) \<and> lo_NextRetryAt st' = None"
proof -
  let ?s = "finishTrigger en loop t s"
  have "row_of lo_Loop loop (rt_states (finish_row en r loop ''waiting'' (er_msg e) attempt None ?s)) =
      Some (merge_failure st (failure_row (le_now en) loop None attempt (er_msg e)))"
    using row_upsert_execution [of loop "rt_states ?s" st] assms(2,3) by (simp add: finish_row_def Let_def)
  then show ?thesis
    using assms(1,4) by (auto simp: end_run_def record_outcome_def Let_def release_row merge_failure_def failure_row_def new_state_def
        split: if_splits)
qed

definition parking :: run_error where
  "parking = \<lparr>er_msg = ''run suspended'', er_suspended = True, er_sends = None, er_breaker = False\<rparr>"

lemma parked_counts_as_failure_witness:
  "(case row_of lo_Loop ''l'' (rt_states (end_run (calm 5) ''r1'' ''l'' manual_trigger 1 ''e1'' (Some parking) parked_rt)) of
      Some st \<Rightarrow> lo_ConsecFails st = 2 \<and> lo_NextRetryAt st = None | None \<Rightarrow> False)"
proof -
  let ?r = "row_of lo_Loop ''l'' (rt_states (end_run (calm 5) ''r1'' ''l'' manual_trigger 1 ''e1'' (Some parking) parked_rt))"
  have "?r \<noteq> None" by code_simp
  then obtain st' where r: "?r = Some st'" by blast
  have "row_of lo_Loop ''l'' (rt_states parked_rt) = Some ((new_state ''l'')\<lparr>lo_ExecutionID := ''e2'', lo_NextRetryAt := Some 7, lo_RetryAttempt := 1, lo_ConsecFails := 1\<rparr>)"
    by code_simp
  from parked_counts_as_failure [OF _ this _ r] have "lo_ConsecFails st' = 2 \<and> lo_NextRetryAt st' = None"
    by (simp add: parking_def calm_def)
  with r show ?thesis by simp
qed

text \<open>
  The sweep of old checkpoints does not ask whether their run is parked: seven days after a step, its
  checkpoint is gone while the wait stays armed, and the run that wait resumes does the step again.
\<close>
theorem parked_checkpoints_are_pruned:
  assumes "distinct (map step_key (rt_steps s))" and "row \<in> set (rt_steps s)" and "ls_CompletedAt row < le_now en - 7 * day" and "le_write en = None"
  shows "LoopStep None (ls_Execution row) (ls_Name row) (steps_of s) = Inr (Some (ls_Result row)) \<and>
    LoopStep None (ls_Execution row) (ls_Name row) (steps_of (prune_tick en s)) = Inr None \<and>
    rt_waiters (prune_tick en s) = rt_waiters s"
proof -
  let ?k = "(ls_Execution row, ls_Name row)"
  have k: "step_key row = ?k" by (simp add: step_key_def)
  have "row_of step_key ?k (rt_steps s) = Some row"
    using row_of_mem [OF assms(1,2)] by (simp add: k)
  moreover have "?k \<notin> step_key ` set (delete_where (\<lambda>r. ls_CompletedAt r < le_now en - 7 * day) (rt_steps s))"
  proof
    assume "?k \<in> step_key ` set (delete_where (\<lambda>r. ls_CompletedAt r < le_now en - 7 * day) (rt_steps s))"
    then obtain r where "r \<in> set (rt_steps s)" "step_key r = step_key row" "\<not> ls_CompletedAt r < le_now en - 7 * day" by (auto simp: k)
    moreover have "inj_on step_key (set (rt_steps s))" using assms(1) by (simp add: distinct_map)
    ultimately show False using assms(2,3) by (auto dest: inj_onD)
  qed
  ultimately show ?thesis using assms(4) by (simp add: LoopStep_def prune_tick_def PruneLoopSteps_def row_of_None [THEN iffD2])
qed

lemma parked_checkpoints_are_pruned_witness:
  "LoopStep None ''e1'' ''0-notify'' (steps_of (prune_tick (calm (8 * day)) parked_rt)) = Inr None"
  using parked_checkpoints_are_pruned [of parked_rt "\<lparr>ls_Execution = ''e1'', ls_Loop = ''l'', ls_Name = ''0-notify'', ls_Result = '''', ls_CompletedAt = 0\<rparr>" "calm (8 * day)"]
  by (simp add: parked_rt_def empty_rt_def calm_def day_def step_key_def duration_defs)

section \<open>Retries\<close>

lemma distinct_states:
  "distinct (map lo_Loop (rt_states s)) \<Longrightarrow> distinct (map lo_Loop (rt_states (finish_row en i l st m a n s)))"
  "distinct (map lo_Loop (rt_states s)) \<Longrightarrow> distinct (map lo_Loop (rt_states (finish_exec en l ex s)))"
  "distinct (map lo_Loop ls) \<Longrightarrow> distinct (map lo_Loop (snd (ReleaseLoopLease err l w ls)))"
  by (auto simp: finish_row_def Let_def FinishLoopRun_def finish_exec_def finishExecution_def SetLoopExecution_def ClearLoopSteps_def
      ReleaseLoopLease_def successes.distinct_upsert failures.distinct_upsert executions.distinct_upsert split: option.splits)

lemma row_finish_ok:
  assumes "le_finish en = None"
  shows "\<exists>st. row_of lo_Loop loop (rt_states (finish_row en r loop ''ok'' m a n s)) = Some st \<and> lo_NextRetryAt st = None"
  using assms by (auto simp: finish_row_def Let_def FinishLoopRun_def successes.row_upsert success_row_def new_state_def
      merge_success_def split: option.splits)

lemma not_due:
  assumes "distinct (map lo_Loop ls)" and "row_of lo_Loop loop ls = Some st" and "lo_NextRetryAt st = None"
    and "DueLoopRetries err now ls = Inr rows"
  shows "loop \<notin> lo_Loop ` set rows"
proof -
  have "\<not> retry_due now st'" if "st' \<in> set ls" "lo_Loop st' = loop" for st'
    using row_of_mem [OF assms(1) that(1)] that(2) assms(2,3) by (simp add: retry_due_def)
  with assms(4) show ?thesis by (auto simp: DueLoopRetries_def new_state_def split: option.splits)
qed

lemma drain_empty:
  "entry_of loop (pq_byLoop (rt_pending s)) = [] \<Longrightarrow> rt_triggers (drainPending en loop s) = rt_triggers s"
  by (simp add: drainPending_def pq_take_def Let_def map_filter_simps)

text \<open>
  A run that ends well clears the loop's pending retry, also when the retry was for another
  conversation's message: that message's row stays in the state retry, no tick of the worker ever finds the
  loop due again for it, and only a restart or the loop's next failure brings it back.
\<close>
theorem success_strands_retry:
  assumes "distinct (map lo_Loop (rt_states s))" and "le_finish en = None"
    and "row \<in> set (rt_triggers s)" and "lt_Status row = LoopTriggerRetry" and "lt_Key row \<noteq> triggerKey loop t"
    and "\<forall>own \<in> set (rt_triggers s). lt_Key own = triggerKey loop t \<longrightarrow> lt_Conversation own \<noteq> lt_Conversation row"
    and "entry_of loop (pq_byLoop (rt_pending s)) = []"
    and "DueLoopRetries None now (rt_states (end_run en r loop t attempt ex None s)) = Inr rows"
  shows "loop \<notin> lo_Loop ` set rows \<and> row \<in> set (rt_triggers (end_run en r loop t attempt ex None s))"
proof -
  let ?o = "record_outcome en r loop t attempt ex None s" and ?f = "finishTrigger en loop t (finish_exec en loop ex s)"
  obtain st where st: "row_of lo_Loop loop (rt_states ?o) = Some st" "lo_NextRetryAt st = None"
    using row_finish_ok [OF assms(2), of loop r "''''" attempt None ?f] by (auto simp: record_outcome_def)
  have d: "distinct (map lo_Loop (rt_states ?o))"
    using assms(1) by (simp add: record_outcome_def distinct_states)
  have "loop \<notin> lo_Loop ` set rows"
  proof (rule not_due)
    show "distinct (map lo_Loop (snd (ReleaseLoopLease (le_release en) loop r (rt_states ?o))))" using d by (rule distinct_states)
    show "row_of lo_Loop loop (snd (ReleaseLoopLease (le_release en) loop r (rt_states ?o))) =
        Some (if le_release en = None \<and> held_by loop r st then st\<lparr>lo_LeaseUntil := None, lo_LeaseOwner := ''''\<rparr> else st)"
      by (simp add: release_row st(1))
    show "lo_NextRetryAt (if le_release en = None \<and> held_by loop r st then st\<lparr>lo_LeaseUntil := None, lo_LeaseOwner := ''''\<rparr> else st) = None"
      using st(2) by simp
    show "DueLoopRetries None now (snd (ReleaseLoopLease (le_release en) loop r (rt_states ?o))) = Inr rows"
      using assms(8) by (simp add: end_run_def Let_def)
  qed
  moreover have "row \<in> set (rt_triggers ?f)"
  proof -
    let ?m = "markTrigger en loop t LoopTriggerDone False (finish_exec en loop ex s)"
    have m: "row \<in> set (rt_triggers ?m)"
      using assms(3,5) by (auto simp: markTrigger_def SetLoopTriggerStatus_def update_where_def split: option.splits)
    have "lt_Conversation own \<noteq> lt_Conversation row" if "row_of lt_Key (triggerKey loop t) (rt_triggers ?m) = Some own" for own
      using row_of_Some [OF that] assms(6) by (auto simp: markTrigger_def SetLoopTriggerStatus_def update_where_def split: option.splits if_splits)
    with m assms(3) show ?thesis
      by (auto simp: finishTrigger_def Let_def GetLoopTrigger_def SupersedeLoopTriggers_def update_where_def superseded_def
          split: option.splits)
  qed
  ultimately show ?thesis using assms(7) by (simp add: end_run_def record_outcome_def Let_def drain_empty)
qed

definition retry_row :: LoopTrigger where
  "retry_row = \<lparr>lt_Key = ''l|a'', lt_Loop = ''l'', lt_EventID = ''a'', lt_Conversation = ''chat:x'', lt_Kind = ''event'', lt_Payload = ''p'',
     lt_Status = ''retry'', lt_Owner = '''', lt_Acted = False, lt_Attempts = 1, lt_CreatedAt = 0, lt_UpdatedAt = 0\<rparr>"

definition stranded_rt :: loop_rt where
  "stranded_rt = parked_rt\<lparr>rt_triggers := [retry_row]\<rparr>"

lemma success_strands_retry_witness:
  "DueLoopRetries None 9 (rt_states (end_run (calm 8) ''r1'' ''l'' (event_trigger ''b'' ''y'') 1 ''e3'' None stranded_rt)) = Inr [] \<and>
   retry_row \<in> set (rt_triggers (end_run (calm 8) ''r1'' ''l'' (event_trigger ''b'' ''y'') 1 ''e3'' None stranded_rt))"
proof -
  have d: "DueLoopRetries None 9 (rt_states (end_run (calm 8) ''r1'' ''l'' (event_trigger ''b'' ''y'') 1 ''e3'' None stranded_rt)) = Inr []"
    by code_simp
  have "triggerKey ''l'' (event_trigger ''b'' ''y'') = ''l|b''" by code_simp
  then show ?thesis
    using success_strands_retry [OF _ _ _ _ _ _ _ d, of retry_row] d
    by (simp add: stranded_rt_def parked_rt_def empty_rt_def calm_def retry_row_def new_state_def LoopTriggerRetry_def
        newPendingTriggers_def entry_of_def row_of_def)
qed

end
