(* ===== verification/Loop_Run_Live.thy ===== *)
theory Loop_Run_Live
  imports Loop_Run_Props
begin

text \<open>
  What the durable runs of \<^verbatim>\<open>internal/runtime/looprun.go\<close> bring back: the events a loop was
  woken by, after a failure, a crash or a redelivery, and the runs parked on an event; and how often a run
  is attempted.
\<close>

section \<open>Folds over rows\<close>

text \<open>One element of the list does \<open>P\<close>, which stays; the elements before it keep what it needs.\<close>

lemma fold_hits:
  assumes "x \<in> set xs" and "Q s" and "\<And>y s. y \<in> set xs \<Longrightarrow> y \<noteq> x \<Longrightarrow> Q s \<Longrightarrow> Q (g y s)"
    and "\<And>s. Q s \<Longrightarrow> P (g x s)" and "\<And>y s. P s \<Longrightarrow> P (g y s)"
  shows "P (fold g xs s)"
  using assms(1-3)
proof (induction xs arbitrary: s)
  case (Cons z zs)
  show ?case
  proof (cases "z = x")
    case True
    then have "P (g z s)" using assms(4) Cons.prems(2) by simp
    then show ?thesis using fold_inv [of P "g z s" zs g] assms(5) by simp
  next
    case False
    then show ?thesis using Cons by auto
  qed
qed simp

definition spawned :: "string \<Rightarrow> LoopkitTrigger \<Rightarrow> int \<Rightarrow> string \<Rightarrow> loop_rt \<Rightarrow> bool" where
  "spawned loop t attempt ex s \<longleftrightarrow> \<lparr>sw_Loop = loop, sw_Trigger = t, sw_Attempt = attempt, sw_Execution = ex\<rparr> \<in> set (rt_spawned s)"

lemma spawned_spawn_run [simp]: "spawned l t a ex (spawn_run l t a ex s)"
  by (simp add: spawned_def)

lemma spawned_mono: "set (rt_spawned s) \<subseteq> set (rt_spawned s') \<Longrightarrow> spawned l t a ex s \<Longrightarrow> spawned l t a ex s'"
  by (auto simp: spawned_def)

lemma set_status_other [simp]:
  "rt_spawned (set_status en k st s) = rt_spawned s" "rt_states (set_status en k st s) = rt_states s"
  by (simp_all add: set_status_def)

lemma replayBlocked_other [simp]:
  "rt_spawned (snd (replayBlocked en row s)) = rt_spawned s" "rt_triggers (snd (replayBlocked en row s)) = rt_triggers s"
  by (simp_all add: replayBlocked_def Let_def)

lemma replay_row_spawns: "set (rt_spawned s) \<subseteq> set (rt_spawned (replay_row en row s))"
  by (auto simp: replay_row_def Let_def split_def split: option.splits)

text \<open>A row that is replayed: not yet acted on or handed over, with attempts left, readable and fresh.\<close>

definition replayable :: "loop_env \<Rightarrow> LoopTrigger \<Rightarrow> LoopkitTrigger \<Rightarrow> bool" where
  "replayable en row t \<longleftrightarrow> \<not> lt_Acted row \<and> lt_Owner row = '''' \<and> lt_Attempts row < maxAttempts \<and>
     triggerFromRow en row = Some t \<and> \<not> queuedTooLong en t"

lemma replay_row_replayable:
  "replayable en row t \<Longrightarrow> replay_row en row s = spawn_run (lt_Loop row) t (lt_Attempts row + 1) '''' s"
  by (simp add: replayable_def replay_row_def replayBlocked_def Let_def)

section \<open>After a crash\<close>

lemma resume_one_triggers [simp]:
  "rt_triggers (resume_one en r s) = rt_triggers s" "rt_spawned (resume_one en r s) = rt_spawned s" "rt_waiters (resume_one en r s) = rt_waiters s"
  by (simp_all add: resume_one_def Let_def)

lemma resumeInterruptedRuns_triggers [simp]:
  "rt_triggers (resumeInterruptedRuns en st s) = rt_triggers s" "rt_spawned (resumeInterruptedRuns en st s) = rt_spawned s"
  by (simp_all add: resumeInterruptedRuns_def Let_def fold_keeps split: prod.split option.split)

lemma restarted_sels [simp]: "rt_triggers (restarted s) = rt_triggers s" "rt_spawned (restarted s) = []"
  by (simp_all add: restarted_def)

text \<open>
  C23. An event a loop owns survives a crash at any point of its handling: whether it was recorded, queued,
  running or waiting for a retry, when the daemon is back the loop runs again for it, with its payload and
  one more attempt, unless its run had already acted, another request owns it, its attempts are used up, or
  it is too old.
\<close>
theorem crash_replays_event:
  assumes "row \<in> set (rt_triggers s)" and "lt_Status row \<in> set open_statuses" and "replayable en2 row t"
    and "le_installed en2 (lt_Loop row)" and "le_read en2 = None"
  shows "spawned (lt_Loop row) t (lt_Attempts row + 1) '''' (replayLoopTriggers en2 (resumeInterruptedRuns en startedAt (restarted s)))"
proof -
  let ?s = "resumeInterruptedRuns en startedAt (restarted s)"
  let ?rows = "sort_key lt_CreatedAt (filter (\<lambda>t. lt_Status t \<in> set open_statuses) (rt_triggers s))"
  let ?g = "\<lambda>row s. if le_installed en2 (lt_Loop row) then replay_row en2 row s else set_status en2 (lt_Key row) LoopTriggerDone s"
  have "spawned (lt_Loop row) t (lt_Attempts row + 1) '''' (fold ?g ?rows ?s)"
  proof (rule fold_hits [where x = row and Q = "\<lambda>_. True"])
    show "spawned (lt_Loop row) t (lt_Attempts row + 1) '''' (?g row s)" for s
      using assms(3,4) by (simp add: replay_row_replayable)
    show "spawned (lt_Loop row) t (lt_Attempts row + 1) '''' (?g y s)" if "spawned (lt_Loop row) t (lt_Attempts row + 1) '''' s" for y s
      using that replay_row_spawns [of s en2 y] by (auto simp: spawned_def)
  qed (use assms(1,2) in auto)
  then show ?thesis using assms(5) by (simp add: replayLoopTriggers_def OpenLoopTriggers_def)
qed

lemma crash_replays_event_witness:
  "spawned ''l'' \<lparr>tg_Kind = ''event'', tg_Payload = [(''event_id'', JStr ''a''), (''replayed'', JBool True)]\<rparr> 2 ''''
     (replayLoopTriggers (calm 9) (resumeInterruptedRuns (calm 8) 7 (restarted stranded_rt)))"
  using crash_replays_event [of retry_row stranded_rt "calm 9" _ "calm 8" 7]
  by (simp add: replayable_def stranded_rt_def retry_row_def open_statuses_def trigger_status_defs maxAttempts_def triggerFromRow_def
      TrimSpace_def is_space_def calm_def obj_set_def queuedTooLong_def text_field_def row_of_def)

section \<open>After a failure\<close>

lemma open_row:
  assumes "row \<in> set ts" and "lt_Loop row = loop" and "lt_Status row = LoopTriggerRetry"
  shows "\<exists>rows. OpenLoopTriggers None loop [LoopTriggerRetry] ts = Inr rows \<and> row \<in> set rows \<and> set rows \<subseteq> set ts"
  using assms by (auto simp: OpenLoopTriggers_def)

lemma retryLoopTriggers_spawns: "set (rt_spawned s) \<subseteq> set (rt_spawned (snd (retryLoopTriggers en loop s)))"
proof -
  have "set (rt_spawned s) \<subseteq> set (rt_spawned (fold (replay_row en) rows s))" for rows
    by (rule fold_inv [where P = "\<lambda>s'. set (rt_spawned s) \<subseteq> set (rt_spawned s')"]) (use replay_row_spawns in fastforce)+
  then show ?thesis by (simp add: retryLoopTriggers_def split: sum.split)
qed

lemma retry_one_spawns: "set (rt_spawned s) \<subseteq> set (rt_spawned (retry_one en st s))"
proof -
  let ?s = "s\<lparr>rt_states := snd (ClearLoopRetry (le_write en) (lo_Loop st) (rt_states s))\<rparr>"
  show ?thesis using retryLoopTriggers_spawns [of ?s en "lo_Loop st"]
    by (auto simp: retry_one_def Let_def split_def)
qed

lemma retryLoopTriggers_hits:
  assumes "row \<in> set (rt_triggers s)" and "lt_Status row = LoopTriggerRetry" and "lt_Loop row = loop" and "replayable en row t" and "le_read en = None"
  shows "fst (retryLoopTriggers en loop s) \<and> spawned loop t (lt_Attempts row + 1) '''' (snd (retryLoopTriggers en loop s))"
proof -
  obtain rows where r: "OpenLoopTriggers None loop [LoopTriggerRetry] (rt_triggers s) = Inr rows" "row \<in> set rows"
    using open_row [OF assms(1,3,2)] by auto
  have "spawned loop t (lt_Attempts row + 1) '''' (fold (replay_row en) rows s)"
  proof (rule fold_hits [where x = row and Q = "\<lambda>_. True"])
    show "spawned loop t (lt_Attempts row + 1) '''' (replay_row en row s)" for s
      using assms(3,4) by (auto simp: replay_row_replayable)
    show "spawned loop t (lt_Attempts row + 1) '''' (replay_row en y s)" if "spawned loop t (lt_Attempts row + 1) '''' s" for y s
      using that replay_row_spawns by (rule spawned_mono [rotated])
  qed (use r in auto)
  with r assms(5) show ?thesis by (auto simp: retryLoopTriggers_def)
qed

text \<open>The retry of one loop leaves the rows of every other alone.\<close>

lemma replay_row_keeps:
  assumes "distinct (map lt_Key (rt_triggers s))" and "row \<in> set (rt_triggers s)" and "lt_Key row \<noteq> lt_Key other"
  shows "row \<in> set (rt_triggers (replay_row en other s)) \<and> map lt_Key (rt_triggers (replay_row en other s)) = map lt_Key (rt_triggers s)"
  using assms by (auto simp: replay_row_def Let_def split_def set_status_def SetLoopTriggerStatus_def update_where_def split: option.splits)

lemma retryLoopTriggers_keeps:
  assumes "distinct (map lt_Key (rt_triggers s))" and "row \<in> set (rt_triggers s)" and "lt_Loop row \<noteq> loop" and "loop \<noteq> ''''"
  shows "row \<in> set (rt_triggers (snd (retryLoopTriggers en loop s))) \<and> distinct (map lt_Key (rt_triggers (snd (retryLoopTriggers en loop s))))"
proof (cases "OpenLoopTriggers (le_read en) loop [LoopTriggerRetry] (rt_triggers s)")
  case (Inr rows)
  have k: "lt_Key row \<noteq> lt_Key other" if "other \<in> set rows" for other
  proof -
    from Inr that assms(4) have "other \<in> set (rt_triggers s)" "lt_Loop other = loop" by (auto simp: OpenLoopTriggers_def split: option.splits)
    moreover have "inj_on lt_Key (set (rt_triggers s))" using assms(1) by (simp add: distinct_map)
    ultimately show ?thesis using assms(2,3) by (auto dest: inj_onD)
  qed
  have "row \<in> set (rt_triggers (fold (replay_row en) rows s)) \<and> distinct (map lt_Key (rt_triggers (fold (replay_row en) rows s)))"
    by (rule fold_inv [where P = "\<lambda>s. row \<in> set (rt_triggers s) \<and> distinct (map lt_Key (rt_triggers s))"])
      (use assms(1,2) replay_row_keeps k in \<open>auto simp del: distinct_map\<close>)
  with Inr show ?thesis using assms by (auto simp: retryLoopTriggers_def)
qed (use assms in \<open>simp add: retryLoopTriggers_def\<close>)

lemma triggerFromRow_marked: "triggerFromRow en (row\<lparr>lt_Status := st, lt_UpdatedAt := u\<rparr>) = triggerFromRow en row"
  by (simp add: triggerFromRow_def split: option.split)


text \<open>
  What that age means for the harness: with no reset known the wait is 15 minutes, as long as a message
  stays fresh. So a message whose run is deferred is too old when the wait is over: its row is marked done, the
  loop does not run for it again, and nobody is told.
\<close>
theorem deferred_message_is_dropped:
  assumes "er_breaker e" and "le_resets en = None" and "harnessWait en e = Some w" and "le_now en2 \<ge> le_now en + w"
    and "triggerFromRow en2 row = Some t" and "text_field ''event_kind'' (tg_Payload t) = ''comms.message''"
    and "text_field ''event_at'' (tg_Payload t) = raw" and "raw \<noteq> ''''" and "le_parse_time en2 raw = Some stamp"
    and "stamp \<noteq> zero_time" and "stamp < le_now en" and "\<not> lt_Acted row"
  shows "replay_row en2 row s = set_status en2 (lt_Key row) LoopTriggerDone s"
proof -
  have "w = 15 * minute" using assms(1-3) by (simp add: harnessWait_def)
  then have "snd (staleEvent (le_now en2) ''comms.message'' stamp)"
    using assms(4,10,11) by (simp add: staleEvent_def Let_def commsFreshness_def time_sub_def duration_defs)
  then have "queuedTooLong en2 t" using assms(6-9) by (simp add: queuedTooLong_def)
  then show ?thesis using assms(5,12) by (simp add: replay_row_def replayBlocked_def)
qed

definition running_rt :: loop_rt where
  "running_rt = empty_rt\<lparr>rt_triggers := [retry_row\<lparr>lt_Status := ''running''\<rparr>]\<rparr>"


section \<open>Deliveries\<close>

lemma own_new_keys:
  assumes "ownLoopTriggerNew en enc loop t s = (Inr b, s')" and "triggerEventID t \<noteq> ''''"
  shows "b = (triggerKey loop t \<notin> lt_Key ` set (rt_triggers s)) \<and> lt_Key ` set (rt_triggers s') = insert (triggerKey loop t) (lt_Key ` set (rt_triggers s))"
  using assms by (auto simp: ownLoopTriggerNew_def RecordLoopTrigger_def triggerKey_def row_of_None Let_def split: option.splits if_splits)

lemma own_new_other: "rt_spawned (snd (ownLoopTriggerNew en enc loop t s)) = rt_spawned s"
  by (simp add: ownLoopTriggerNew_def Let_def split_def split: option.split)

lemma own_all_spawned: "rt_spawned (snd (own_all en enc t names start s)) = rt_spawned s"
proof (induction en enc t names start s rule: own_all.induct)
  case (2 en enc t name names start s)
  then show ?case using own_new_other [of en enc name t s] by (auto split: sum.split prod.split)
qed simp

lemma own_all_keys:
  assumes "own_all en enc t names start s = (Inr start', s')" and "triggerEventID t \<noteq> ''''"
  shows "\<forall>l \<in> set names. le_installed en l \<longrightarrow> triggerKey l t \<in> lt_Key ` set (rt_triggers s')"
    and "lt_Key ` set (rt_triggers s) \<subseteq> lt_Key ` set (rt_triggers s')"
    and "set start' \<subseteq> set start \<union> {l \<in> set names. le_installed en l \<and> triggerKey l t \<notin> lt_Key ` set (rt_triggers s)}"
proof -
  have "(\<forall>l \<in> set names. le_installed en l \<longrightarrow> triggerKey l t \<in> lt_Key ` set (rt_triggers s')) \<and>
    lt_Key ` set (rt_triggers s) \<subseteq> lt_Key ` set (rt_triggers s') \<and>
    set start' \<subseteq> set start \<union> {l \<in> set names. le_installed en l \<and> triggerKey l t \<notin> lt_Key ` set (rt_triggers s)}"
    using assms
  proof (induction en enc t names start s rule: own_all.induct)
    case (2 en enc t name names start s)
    show ?case
    proof (cases "le_installed en name")
      case True
      then obtain b s1 where o: "ownLoopTriggerNew en enc name t s = (Inr b, s1)"
        and r: "own_all en enc t names (if b then start @ [name] else start) s1 = (Inr start', s')"
        using "2.prems"(1) by (auto split: sum.splits prod.splits)
      note ih = "2.IH"(2) [OF _ o [symmetric] refl r "2.prems"(2)]
      show ?thesis using ih True own_new_keys [OF o "2.prems"(2)] by (auto split: if_splits)
    next
      case False
      with 2 show ?thesis by auto
    qed
  qed simp
  then show "\<forall>l \<in> set names. le_installed en l \<longrightarrow> triggerKey l t \<in> lt_Key ` set (rt_triggers s')"
    "lt_Key ` set (rt_triggers s) \<subseteq> lt_Key ` set (rt_triggers s')"
    "set start' \<subseteq> set start \<union> {l \<in> set names. le_installed en l \<and> triggerKey l t \<notin> lt_Key ` set (rt_triggers s)}" by blast+
qed

text \<open>
  An event is owned before it is acknowledged, and run once. A delivery that is refused starts no run,
  so nothing is acknowledged that some listening loop does not own; after one that is accepted every
  installed loop that listens has the event's row; and a second delivery of the event starts no run at all,
  as long as those rows are there.
\<close>
theorem delivery_owned_once:
  assumes "deliverToLoops en enc loops t s = (res, s1)" and "triggerEventID t \<noteq> ''''"
    and "deliverToLoops en2 enc loops t s2 = (res2, s3)"
    and "lt_Key ` set (rt_triggers s1) \<subseteq> lt_Key ` set (rt_triggers s2)" and "le_installed en2 = le_installed en"
  shows "(res \<noteq> None \<longrightarrow> rt_spawned s1 = rt_spawned s) \<and>
    (res = None \<longrightarrow> (\<forall>l \<in> set loops. le_installed en l \<longrightarrow> triggerKey l t \<in> lt_Key ` set (rt_triggers s1)) \<and> rt_spawned s3 = rt_spawned s2)"
proof -
  have f: "rt_triggers (fold (\<lambda>l. spawn_run l t 1 '''') ls s') = rt_triggers s'" for ls s'
    by (rule fold_keeps) simp
  obtain r x where o: "own_all en enc t loops [] s = (r, x)" by fastforce
  show ?thesis
  proof (cases r)
    case (Inl m)
    with o assms(1) show ?thesis using own_all_spawned [of en enc t loops "[]" s] by (auto simp: deliverToLoops_def)
  next
    case (Inr start)
    with o have o': "own_all en enc t loops [] s = (Inr start, x)" by simp
    from o' assms(1) have s1: "res = None" "rt_triggers s1 = rt_triggers x" by (auto simp: deliverToLoops_def f)
    have k: "\<forall>l \<in> set loops. le_installed en l \<longrightarrow> triggerKey l t \<in> lt_Key ` set (rt_triggers s1)"
      using own_all_keys(1) [OF o' assms(2)] s1(2) by simp
    have "rt_spawned s3 = rt_spawned s2"
    proof (cases "own_all en2 enc t loops [] s2")
      case (Pair r2 y)
      show ?thesis
      proof (cases r2)
        case (Inl m)
        with Pair assms(3) show ?thesis using own_all_spawned [of en2 enc t loops "[]" s2] by (auto simp: deliverToLoops_def)
      next
        case (Inr start2)
        with Pair have o2: "own_all en2 enc t loops [] s2 = (Inr start2, y)" by simp
        have "triggerKey l t \<in> lt_Key ` set (rt_triggers s2)" if "l \<in> set loops" "le_installed en2 l" for l
        proof (rule subsetD [OF assms(4)])
          show "triggerKey l t \<in> lt_Key ` set (rt_triggers s1)" using k that assms(5) by simp
        qed
        with own_all_keys(3) [OF o2 assms(2)] have "l \<notin> set start2" for l by (auto simp only: list.set)
        then have "start2 = []" by (cases start2) auto
        with o2 assms(3) show ?thesis using own_all_spawned [of en2 enc t loops "[]" s2] by (auto simp: deliverToLoops_def)
      qed
    qed
    with s1(1) k show ?thesis by simp
  qed
qed

definition plain_enc :: "(string \<times> json) list \<Rightarrow> string option" where
  "plain_enc p = Some ''p''"

definition delivered :: "string option \<times> loop_rt" where
  "delivered = deliverToLoops (calm 1) plain_enc [''l'', ''m''] (event_trigger ''a'' ''x'') empty_rt"

lemma delivery_owned_once_witness:
  "rt_spawned (snd (deliverToLoops (calm 2) plain_enc [''l'', ''m''] (event_trigger ''a'' ''x'') (snd delivered))) = rt_spawned (snd delivered) \<and>
   length (rt_spawned (snd delivered)) = 2"
proof -
  have d: "deliverToLoops (calm 1) plain_enc [''l'', ''m''] (event_trigger ''a'' ''x'') empty_rt = (None, snd delivered)"
    unfolding delivered_def by (rule prod_eqI) (simp_all, code_simp)
  have i: "triggerEventID (event_trigger ''a'' ''x'') \<noteq> ''''" by code_simp
  have l: "length (rt_spawned (snd delivered)) = 2" by code_simp
  obtain r2 s3 where d2: "deliverToLoops (calm 2) plain_enc [''l'', ''m''] (event_trigger ''a'' ''x'') (snd delivered) = (r2, s3)" by fastforce
  have "rt_spawned s3 = rt_spawned (snd delivered)" using delivery_owned_once [OF d i d2] by (simp add: calm_def)
  with l d2 show ?thesis by simp
qed

section \<open>Parked runs\<close>

lemma resumeWaiter_other [simp]:
  "rt_waiters (resumeWaiter en w p s) = rt_waiters s" "set (rt_spawned s) \<subseteq> set (rt_spawned (resumeWaiter en w p s))"
  by (auto simp: resumeWaiter_def)

lemma resolve_one_keeps:
  "set (rt_spawned s) \<subseteq> set (rt_spawned (resolve_one en sprint decm enc payload w s))"
  by (auto simp: resolve_one_def ResolveWaiter_def resumeWaiter_def split: option.splits bool.splits)

lemma resolve_one_other:
  assumes "v \<in> set (rt_waiters s)" and "wt_ID v \<noteq> wt_ID w"
  shows "v \<in> set (rt_waiters (resolve_one en sprint decm enc payload w s))"
  using assms by (auto simp: resolve_one_def ResolveWaiter_def update_where_def split: option.splits bool.splits)

text \<open>
  An event wakes every parked run whose wait it matches: the run comes back as a second attempt on the
  very execution it parked in, with the event's fields in its trigger. The wait is pending and not expired,
  its loop is installed, and the driver answers.
\<close>
theorem event_resumes_parked_run:
  assumes "waiters_ok (rt_waiters s)" and "w \<in> set (rt_waiters s)" and "pending_for kind (le_now en) w"
    and "waiterMatches sprint decm (wt_MatchJSON w) payload" and "enc payload = Some body"
    and "le_installed en (wt_Loop w)" and "le_read en = None" and "le_write en = None"
  shows "spawned (wt_Loop w) \<lparr>tg_Kind = TriggerEvent, tg_Payload = resume_payload (wt_EventKind w) payload\<rparr> 2 (wt_ExecutionID w)
    (resolveWaiters en sprint decm enc kind payload s)"
proof -
  let ?ws = "sort_key wt_CreatedAt (filter (pending_for kind (le_now en)) (rt_waiters s))"
  let ?P = "spawned (wt_Loop w) \<lparr>tg_Kind = TriggerEvent, tg_Payload = resume_payload (wt_EventKind w) payload\<rparr> 2 (wt_ExecutionID w)"
  have inj: "inj_on wt_ID (set (rt_waiters s))" using assms(1) by (simp add: waiters_ok_def distinct_map)
  have "?P (fold (resolve_one en sprint decm enc payload) ?ws s)"
  proof (rule fold_hits [where x = w and Q = "\<lambda>s'. w \<in> set (rt_waiters s')"])
    show "w \<in> set (rt_waiters (resolve_one en sprint decm enc payload y s'))"
      if "y \<in> set ?ws" "y \<noteq> w" "w \<in> set (rt_waiters s')" for y s'
      using that assms(2) inj by (intro resolve_one_other) (auto dest: inj_onD)
    show "?P (resolve_one en sprint decm enc payload w s')" if "w \<in> set (rt_waiters s')" for s'
    proof -
      have "\<exists>v\<in>set (rt_waiters s'). wt_ID v = wt_ID w \<and> wt_ResolvedAt v = None" using that assms(3) by (auto simp: pending_for_def)
      then show ?thesis using assms(4-6,8) by (simp add: resolve_one_def ResolveWaiter_def resumeWaiter_def)
    qed
    show "?P (resolve_one en sprint decm enc payload y s')" if "?P s'" for y s'
      using that resolve_one_keeps by (rule spawned_mono [rotated])
  qed (use assms(2,3) in auto)
  then show ?thesis using assms(7) by (simp add: resolveWaiters_def PendingWaiters_def)
qed

definition waiting_rt :: loop_rt where
  "waiting_rt = parked_rt\<lparr>rt_waiters := [sample_waiter]\<rparr>"

lemma event_resumes_parked_run_witness:
  "spawned ''l'' \<lparr>tg_Kind = TriggerEvent, tg_Payload = resume_payload ''k'' [(''x'', JStr ''y'')]\<rparr> 2 ''e''
     (resolveWaiters (calm 3) (\<lambda>_. '''') (\<lambda>_. None) plain_enc ''k'' [(''x'', JStr ''y'')] waiting_rt)"
  using event_resumes_parked_run [of waiting_rt sample_waiter "''k''" "calm 3" "\<lambda>_. ''''" "\<lambda>_. None" "[(''x'', JStr ''y'')]" plain_enc "''p''"]
  by (simp add: waiting_rt_def waiters_ok_def sample_waiter_def pending_for_def waiterMatches_def calm_def plain_enc_def)

end
