(* ===== verification/Loop_System.thy ===== *)
theory Loop_System
  imports Loop_Run_Live
begin

text \<open>
  The durable runs of \<^verbatim>\<open>internal/runtime/looprun.go\<close> as a system: every step the daemon can take
  on them, in any order and with any answers of the driver, and how often a run is attempted.
\<close>

section \<open>Steps\<close>

record flight =
  fl_run :: string
  fl_loop :: string
  fl_trigger :: LoopkitTrigger
  fl_attempt :: int
  fl_execution :: string

record loop_sys =
  ys_rt :: loop_rt
  ys_flight :: "flight list"

definition took_off :: "string \<Rightarrow> string \<Rightarrow> LoopkitTrigger \<Rightarrow> int \<Rightarrow> string option \<Rightarrow> flight list" where
  "took_off r loop t attempt res = (case res of None \<Rightarrow> []
     | Some ex \<Rightarrow> [\<lparr>fl_run = r, fl_loop = loop, fl_trigger = t, fl_attempt = attempt, fl_execution = ex\<rparr>])"

inductive sys_step :: "loop_sys \<Rightarrow> loop_sys \<Rightarrow> bool" where
  spawned: "sp \<in> set (rt_spawned (ys_rt y)) \<Longrightarrow>
    begin_run en r uuid (sw_Loop sp) (sw_Trigger sp) (sw_Attempt sp) (sw_Execution sp) (ys_rt y) = (res, s) \<Longrightarrow>
    sys_step y \<lparr>ys_rt = s\<lparr>rt_spawned := remove1 sp (rt_spawned s)\<rparr>,
      ys_flight = ys_flight y @ took_off r (sw_Loop sp) (sw_Trigger sp) (sw_Attempt sp) res\<rparr>"
| fresh: "begin_run en r uuid loop t 1 '''' (ys_rt y) = (res, s) \<Longrightarrow>
    sys_step y \<lparr>ys_rt = s, ys_flight = ys_flight y @ took_off r loop t 1 res\<rparr>"
| work: "sys_step y (y\<lparr>ys_rt := (ys_rt y)\<lparr>rt_steps := steps\<rparr>\<rparr>)"
| arm: "sys_step y (y\<lparr>ys_rt := (ys_rt y)\<lparr>rt_waiters := snd (ArmWaiter err uuid now w (rt_waiters (ys_rt y)))\<rparr>\<rparr>)"
| renew: "f \<in> set (ys_flight y) \<Longrightarrow> sys_step y (y\<lparr>ys_rt := renew_lease en (fl_loop f) (fl_run f) (ys_rt y)\<rparr>)"
| acted: "f \<in> set (ys_flight y) \<Longrightarrow> sys_step y (y\<lparr>ys_rt := markTriggerActed en (fl_loop f) (fl_trigger f) (ys_rt y)\<rparr>)"
| owner: "f \<in> set (ys_flight y) \<Longrightarrow> sys_step y (y\<lparr>ys_rt := setTriggerOwner en (fl_loop f) (fl_trigger f) rid (ys_rt y)\<rparr>)"
| finish: "f \<in> set (ys_flight y) \<Longrightarrow>
    sys_step y \<lparr>ys_rt = end_run en (fl_run f) (fl_loop f) (fl_trigger f) (fl_attempt f) (fl_execution f) outcome (ys_rt y),
      ys_flight = remove1 f (ys_flight y)\<rparr>"
| deliver: "sys_step y (y\<lparr>ys_rt := snd (deliverToLoops en enc loops t (ys_rt y))\<rparr>)"
| resolve: "sys_step y (y\<lparr>ys_rt := resolveWaiters en sprint decm enc kind payload (ys_rt y)\<rparr>)"
| sweep: "sys_step y (y\<lparr>ys_rt := sweepWaiters en (ys_rt y)\<rparr>)"
| retry: "sys_step y (y\<lparr>ys_rt := retry_tick en (ys_rt y)\<rparr>)"
| prune: "sys_step y (y\<lparr>ys_rt := prune_tick en (ys_rt y)\<rparr>)"
| crash: "sys_step y \<lparr>ys_rt = replayLoopTriggers en2 (resumeInterruptedRuns en startedAt (restarted (ys_rt y))), ys_flight = []\<rparr>"

inductive sys_reach :: "loop_sys \<Rightarrow> bool" where
  init: "sys_reach \<lparr>ys_rt = empty_rt, ys_flight = []\<rparr>"
| step: "sys_reach y \<Longrightarrow> sys_step y y' \<Longrightarrow> sys_reach y'"

section \<open>The attempts of every part of the state\<close>

definition attempt_ok :: "int \<Rightarrow> bool" where
  "attempt_ok a \<longleftrightarrow> 1 \<le> a \<and> a \<le> maxAttempts"

definition state_ok :: "LoopState \<Rightarrow> bool" where
  "state_ok st \<longleftrightarrow> (lo_NextRetryAt st \<noteq> None \<longrightarrow> 1 \<le> lo_RetryAttempt st \<and> lo_RetryAttempt st < maxAttempts)"

definition rt_ok :: "loop_rt \<Rightarrow> bool" where
  "rt_ok s \<longleftrightarrow> (\<forall>sp \<in> set (rt_spawned s). attempt_ok (sw_Attempt sp)) \<and> (\<forall>r \<in> set (rt_runs s). attempt_ok (lr_Attempt r)) \<and>
     (\<forall>st \<in> set (rt_states s). state_ok st) \<and> (\<forall>t \<in> set (rt_triggers s). 0 \<le> lt_Attempts t)"

lemma attempt_ok_consts [simp]: "attempt_ok 1" "attempt_ok 2"
  by (simp_all add: attempt_ok_def maxAttempts_def)

lemma upsert_all: "(\<forall>r \<in> set rs. P r) \<Longrightarrow> P x \<Longrightarrow> (\<And>r. P r \<Longrightarrow> P (mrg r x)) \<Longrightarrow> \<forall>r \<in> set (upsert key mrg x rs). P r"
  by (induction rs) auto

lemma update_all: "(\<forall>r \<in> set rs. P r) \<Longrightarrow> (\<And>r. P r \<Longrightarrow> P (f r)) \<Longrightarrow> \<forall>r \<in> set (update_where p f rs). P r"
  by (auto simp: update_where_def)

lemma rt_ok_simps [simp]:
  "rt_ok (s\<lparr>rt_steps := a\<rparr>) = rt_ok s" "rt_ok (s\<lparr>rt_waiters := b\<rparr>) = rt_ok s" "rt_ok (s\<lparr>rt_pending := c\<rparr>) = rt_ok s"
  "rt_ok (alert x z s) = rt_ok s"
  by (simp_all add: rt_ok_def alert_def)

lemma rt_ok_spawn [simp]: "rt_ok (spawn_run l t a ex s) \<longleftrightarrow> rt_ok s \<and> attempt_ok a"
  by (auto simp: rt_ok_def)

lemma rt_ok_triggers: "rt_ok s \<Longrightarrow> (\<forall>t \<in> set ts. 0 \<le> lt_Attempts t) \<Longrightarrow> rt_ok (s\<lparr>rt_triggers := ts\<rparr>)"
  by (simp add: rt_ok_def)

lemma rt_ok_states: "rt_ok s \<Longrightarrow> (\<forall>st \<in> set ls. state_ok st) \<Longrightarrow> rt_ok (s\<lparr>rt_states := ls\<rparr>)"
  by (simp add: rt_ok_def)

lemma set_status_ok [simp]: "rt_ok s \<Longrightarrow> rt_ok (set_status en k st s)"
  unfolding set_status_def
  by (rule rt_ok_triggers) (auto simp: SetLoopTriggerStatus_def update_where_def rt_ok_def split: option.splits)

lemma markTrigger_ok [simp]: "rt_ok s \<Longrightarrow> rt_ok (markTrigger en l t st b s)"
  by (auto simp: markTrigger_def SetLoopTriggerStatus_def update_where_def rt_ok_def split: option.splits)

lemma finishTrigger_ok [simp]: "rt_ok s \<Longrightarrow> rt_ok (finishTrigger en l t s)"
proof -
  assume "rt_ok s"
  then have "rt_ok (markTrigger en l t LoopTriggerDone False s)" by simp
  moreover have "rt_ok (s'\<lparr>rt_triggers := snd (SupersedeLoopTriggers err now l c u (rt_triggers s'))\<rparr>)" if "rt_ok s'" for s' err now c u
    using that by (intro rt_ok_triggers) (auto simp: SupersedeLoopTriggers_def update_where_def rt_ok_def split: option.splits)
  ultimately show ?thesis using \<open>rt_ok s\<close> by (simp add: finishTrigger_def Let_def split: sum.split option.split)
qed

lemma acted_owner_ok [simp]: "rt_ok s \<Longrightarrow> rt_ok (markTriggerActed en l t s)" "rt_ok s \<Longrightarrow> rt_ok (setTriggerOwner en l t rid s)"
  by (auto simp: markTriggerActed_def MarkLoopTriggerActed_def setTriggerOwner_def SetLoopTriggerOwner_def update_where_def rt_ok_def
      split: option.splits)

lemma exec_states_ok: "\<forall>st \<in> set (loop_states db). state_ok st \<Longrightarrow> \<forall>st \<in> set (loop_states (snd (SetLoopExecution err l ex db))). state_ok st"
proof -
  assume a: "\<forall>st \<in> set (loop_states db). state_ok st"
  have "\<forall>st \<in> set (upsert lo_Loop merge_execution ((new_state l)\<lparr>lo_ExecutionID := ex\<rparr>) (loop_states db)). state_ok st"
    by (rule upsert_all [OF a]) (auto simp: state_ok_def new_state_def merge_execution_def)
  with a show ?thesis by (simp add: SetLoopExecution_def split: option.split)
qed

lemma finish_exec_ok [simp]: "rt_ok s \<Longrightarrow> rt_ok (finish_exec en l ex s)"
proof -
  assume "rt_ok s"
  then have "\<forall>st \<in> set (loop_states (snd (ClearLoopSteps (le_clear en) ex (steps_of s)))). state_ok st"
    by (simp add: ClearLoopSteps_def rt_ok_def split: option.split)
  from exec_states_ok [OF this] \<open>rt_ok s\<close> show ?thesis
    by (auto simp: finish_exec_def finishExecution_def with_steps_def rt_ok_def steps_of_def)
qed

lemma finish_row_ok:
  assumes "rt_ok s" and "next \<noteq> None \<Longrightarrow> 1 \<le> a \<and> a < maxAttempts"
  shows "rt_ok (finish_row en i l st m a next s)"
proof -
  let ?db = "snd (FinishLoopRun (le_finish en) (le_now en) i l st m a next \<lparr>rn_runs = rt_runs s, rn_states = rt_states s\<rparr>)"
  have "\<forall>r \<in> set (rn_runs ?db). attempt_ok (lr_Attempt r)"
    using assms(1) by (auto simp: FinishLoopRun_def update_where_def rt_ok_def split: option.splits)
  moreover have "\<forall>st \<in> set (rn_states ?db). state_ok st"
  proof -
    have a: "\<forall>st \<in> set (rt_states s). state_ok st" using assms(1) by (simp add: rt_ok_def)
    have "\<forall>st \<in> set (upsert lo_Loop merge_success (success_row (le_now en) l) (rt_states s)). state_ok st"
      by (rule upsert_all [OF a]) (auto simp: state_ok_def success_row_def new_state_def merge_success_def)
    moreover have "\<forall>st \<in> set (upsert lo_Loop merge_failure (failure_row (le_now en) l next a m) (rt_states s)). state_ok st"
      by (rule upsert_all [OF a]) (use assms(2) in \<open>auto simp: state_ok_def failure_row_def new_state_def merge_failure_def\<close>)
    ultimately show ?thesis using a by (simp add: FinishLoopRun_def split: option.split)
  qed
  ultimately show ?thesis using assms(1) by (simp add: finish_row_def Let_def rt_ok_def)
qed

lemma release_ok [simp]: "rt_ok s \<Longrightarrow> rt_ok (s\<lparr>rt_states := snd (ReleaseLoopLease err l w (rt_states s))\<rparr>)"
  by (rule rt_ok_states) (auto simp: ReleaseLoopLease_def update_where_def rt_ok_def state_ok_def split: option.splits)

section \<open>Every step keeps them\<close>

lemma begin_run_ok:
  assumes "begin_run en r uuid loop t attempt ex s = (res, s')" and "rt_ok s" and "attempt_ok attempt"
  shows "rt_ok s' \<and> rt_spawned s' = rt_spawned s"
proof -
  obtain got ls where a: "AcquireLoopLease (le_acquire en) (le_now en) loop r leaseTTL (rt_states s) = (got, ls)" by fastforce
  have "\<forall>st \<in> set ls. state_ok st"
    using a assms(2) by (auto simp: AcquireLoopLease_def rt_ok_def state_ok_def new_state_def update_where_def split: option.splits if_splits)
  then have s1: "rt_ok (s\<lparr>rt_states := ls\<rparr>)" using assms(2) by (intro rt_ok_states)
  have w: "rt_ok (with_steps (snd (executionFor re we uuid loop attempt (steps_of (s\<lparr>rt_states := ls\<rparr>)))) (s\<lparr>rt_states := ls\<rparr>))" for re we
  proof -
    have "\<forall>st \<in> set (loop_states (snd (SetLoopExecution we loop uuid (steps_of (s\<lparr>rt_states := ls\<rparr>))))). state_ok st"
      using s1 by (intro exec_states_ok) (simp add: rt_ok_def)
    with s1 show ?thesis
      by (auto simp: executionFor_def Let_def with_steps_def rt_ok_def steps_of_def split: option.splits sum.splits prod.splits)
  qed
  have w0: "rt_ok (with_steps (steps_of (s\<lparr>rt_states := ls\<rparr>)) (s\<lparr>rt_states := ls\<rparr>))"
    using s1 by (simp add: with_steps_def steps_of_def rt_ok_def)
  have st: "rt_ok (x\<lparr>rt_runs := snd (StartLoopRun err (start_row en r loop t attempt) (rt_runs s))\<rparr>)" if "rt_ok x" for x err
    using that assms(2,3) by (auto simp: StartLoopRun_def start_row_def rt_ok_def split: option.splits)
  show ?thesis
    using assms(1) a s1 w w0 st by (auto simp: begin_run_def Let_def split_def split: if_splits)
qed

lemma record_outcome_ok:
  assumes "rt_ok s" and "attempt_ok attempt"
  shows "rt_ok (record_outcome en r loop t attempt ex outcome s)"
  using assms by (auto simp: record_outcome_def attempt_ok_def maxAttempts_def split: option.split intro!: finish_row_ok)

lemma drainPending_ok [simp]: "rt_ok s \<Longrightarrow> rt_ok (drainPending en loop s)"
proof -
  assume "rt_ok s"
  have "rt_ok (fold (drain_one en loop) ts (s\<lparr>rt_pending := p\<rparr>))" for ts p
    by (rule fold_inv) (use \<open>rt_ok s\<close> in \<open>auto simp: drain_one_def\<close>)
  with \<open>rt_ok s\<close> show ?thesis by (simp add: drainPending_def Let_def split_def)
qed

lemma end_run_ok: "rt_ok s \<Longrightarrow> attempt_ok attempt \<Longrightarrow> rt_ok (end_run en r loop t attempt ex outcome s)"
  using record_outcome_ok [of s attempt en r loop t ex outcome] by (simp add: end_run_def Let_def)

lemma replay_row_ok: "rt_ok s \<Longrightarrow> 0 \<le> lt_Attempts row \<Longrightarrow> rt_ok (replay_row en row s)"
  by (auto simp: replay_row_def replayBlocked_def Let_def attempt_ok_def split: option.split)

lemma retryLoopTriggers_ok: "rt_ok s \<Longrightarrow> rt_ok (snd (retryLoopTriggers en loop s))"
proof -
  assume s: "rt_ok s"
  have "rt_ok (fold (replay_row en) rows s)" if "set rows \<subseteq> set (rt_triggers s)" for rows
    by (rule fold_inv) (use s that in \<open>auto intro!: replay_row_ok simp: rt_ok_def [of s]\<close>)
  with s show ?thesis by (auto simp: retryLoopTriggers_def OpenLoopTriggers_def split: option.split)
qed

lemma retry_one_ok:
  assumes "rt_ok s" and "attempt_ok (lo_RetryAttempt st + 1)"
  shows "rt_ok (retry_one en st s)"
proof -
  let ?s = "s\<lparr>rt_states := snd (ClearLoopRetry (le_write en) (lo_Loop st) (rt_states s))\<rparr>"
  have "rt_ok ?s" using assms(1)
    by (intro rt_ok_states) (auto simp: ClearLoopRetry_def update_where_def rt_ok_def state_ok_def split: option.splits)
  with assms(2) retryLoopTriggers_ok [OF this, of en "lo_Loop st"] show ?thesis
    by (auto simp: retry_one_def Let_def split_def)
qed

lemma resume_one_ok: "rt_ok s \<Longrightarrow> attempt_ok (lr_Attempt r) \<Longrightarrow> rt_ok (resume_one en r s)"
  by (auto simp: resume_one_def Let_def attempt_ok_def intro!: finish_row_ok)

lemma own_all_ok: "rt_ok s \<Longrightarrow> rt_ok (snd (own_all en enc t names start s))"
proof (induction en enc t names start s rule: own_all.induct)
  case (2 en enc t name names start s)
  have "rt_ok (snd (ownLoopTriggerNew en enc name t s))"
    using "2.prems" by (auto simp: ownLoopTriggerNew_def RecordLoopTrigger_def Let_def rt_ok_def split: option.splits)
  with 2 show ?case by (auto split: sum.split prod.split)
qed simp

lemma resumeWaiter_ok: "rt_ok s \<Longrightarrow> rt_ok (resumeWaiter en w p s)"
  by (simp add: resumeWaiter_def)

lemma resolve_one_ok: "rt_ok s \<Longrightarrow> rt_ok (resolve_one en sprint decm enc payload w s)"
  by (auto simp: resolve_one_def intro!: resumeWaiter_ok split: option.split prod.split sum.split bool.split)

lemma sys_step_ok:
  assumes "sys_step y y'" and "rt_ok (ys_rt y)" and "\<forall>f \<in> set (ys_flight y). attempt_ok (fl_attempt f)"
  shows "rt_ok (ys_rt y') \<and> (\<forall>f \<in> set (ys_flight y'). attempt_ok (fl_attempt f))"
  using assms
proof (induction rule: sys_step.induct)
  case (spawned sp y en r uuid res s)
  then have "attempt_ok (sw_Attempt sp)" by (simp add: rt_ok_def)
  with begin_run_ok [OF spawned(2)] spawned(3,4) have "rt_ok s" by simp
  then have "rt_ok (s\<lparr>rt_spawned := remove1 sp (rt_spawned s)\<rparr>)"
    by (auto simp: rt_ok_def dest: in_set_remove1 [THEN iffD1, rotated] notin_set_remove1)
  with spawned \<open>attempt_ok (sw_Attempt sp)\<close> show ?case by (auto simp: took_off_def split: option.splits)
next
  case (fresh en r uuid loop t y res s)
  with begin_run_ok [OF fresh(1)] show ?case by (auto simp: took_off_def split: option.splits)
next
  case (renew f y en)
  then show ?case
    by (auto simp: renew_lease_def RenewLoopLease_def update_where_def rt_ok_def state_ok_def split: option.splits)
next
  case (finish f y en outcome)
  then show ?case by (auto intro!: end_run_ok dest: notin_set_remove1)
next
  case (deliver y en enc loops t)
  have "rt_ok (fold (\<lambda>l. spawn_run l t 1 '''') ls s)" if "rt_ok s" for ls s
    by (rule fold_inv) (use that in auto)
  with deliver own_all_ok [of "ys_rt y" en enc t loops "[]"] show ?case
    by (auto simp: deliverToLoops_def split: prod.split sum.split)
next
  case (resolve y en sprint decm enc kind payload)
  have "rt_ok (fold (resolve_one en sprint decm enc payload) ws (ys_rt y))" for ws
    by (rule fold_inv) (use resolve(1) resolve_one_ok in auto)
  with resolve show ?case by (simp add: resolveWaiters_def split: sum.split)
next
  case (sweep y en)
  have "rt_ok (fold (\<lambda>w. resumeWaiter en w (timeout_payload w)) ws ((ys_rt y)\<lparr>rt_waiters := v\<rparr>))" for ws v
    by (rule fold_inv) (use sweep(1) resumeWaiter_ok in auto)
  with sweep show ?case by (simp add: sweepWaiters_def split: sum.split prod.split)
next
  case (retry y en)
  have due: "attempt_ok (lo_RetryAttempt d + 1)"
    if "DueLoopRetries (le_read en) (le_now en) (rt_states (ys_rt y)) = Inr rows" "d \<in> set rows" for rows d
  proof -
    have "\<exists>st \<in> set (rt_states (ys_rt y)). retry_due (le_now en) st \<and> lo_RetryAttempt d = lo_RetryAttempt st"
      using that by (fastforce simp: DueLoopRetries_def new_state_def split: option.splits)
    then obtain st where "st \<in> set (rt_states (ys_rt y))" "lo_NextRetryAt st \<noteq> None" "lo_RetryAttempt d = lo_RetryAttempt st"
      by (fastforce simp: retry_due_def split: option.splits)
    moreover have "\<forall>st \<in> set (rt_states (ys_rt y)). state_ok st" using retry(1) by (simp add: rt_ok_def)
    ultimately show ?thesis by (fastforce simp: state_ok_def attempt_ok_def)
  qed
  have "rt_ok (fold (retry_one en) rows (ys_rt y))" if "DueLoopRetries (le_read en) (le_now en) (rt_states (ys_rt y)) = Inr rows" for rows
  proof (rule fold_inv [where P = rt_ok])
    show "rt_ok (retry_one en d s)" if "d \<in> set rows" "rt_ok s" for d s
      using \<open>DueLoopRetries _ _ _ = _\<close> that by (intro retry_one_ok due)
  qed (rule retry(1))
  with retry show ?case by (simp add: retry_tick_def split: sum.split)
next
  case (prune y en)
  then show ?case by (auto simp: prune_tick_def PruneLoopRuns_def PruneLoopTriggers_def rt_ok_def split: option.splits)
next
  case (crash y en2 en startedAt)
  let ?s = "restarted (ys_rt y)"
  have s: "rt_ok ?s" using crash(1) by (simp add: rt_ok_def restarted_def)
  have r: "rt_ok (?s\<lparr>rt_runs := rs\<rparr>) \<and> (\<forall>x \<in> set out. attempt_ok (lr_Attempt x))"
    if "ReapStaleLoopRuns re we now c (rt_runs ?s) = (e, out, rs)" for re we now c e out rs
    using that s by (auto simp: ReapStaleLoopRuns_def Let_def rt_ok_def update_where_def split: option.splits if_splits)
  have f: "rt_ok (fold (resume_one en) out x)" if "rt_ok x" "\<forall>x \<in> set out. attempt_ok (lr_Attempt x)" for out x
    by (rule fold_inv) (use that resume_one_ok in auto)
  have i: "rt_ok (resumeInterruptedRuns en startedAt ?s)"
    using r f by (auto simp: resumeInterruptedRuns_def Let_def split: prod.split option.split)
  have "rt_ok (fold (\<lambda>row s. if le_installed en2 (lt_Loop row) then replay_row en2 row s else set_status en2 (lt_Key row) LoopTriggerDone s) rows
      (resumeInterruptedRuns en startedAt ?s))" if "set rows \<subseteq> set (rt_triggers ?s)" for rows
    by (rule fold_inv) (use i s that in \<open>auto intro!: replay_row_ok simp: rt_ok_def [of ?s]\<close>)
  with i show ?case by (auto simp: replayLoopTriggers_def OpenLoopTriggers_def split: option.split)
qed auto

lemma end_dead:
  assumes "\<not> er_suspended e" and "er_sends e = None" and "le_finish en = None" and "harnessWait en e = None" and "\<not> attempt < maxAttempts"
  shows "\<forall>x \<in> set (rt_runs (end_run en r loop t attempt ex (Some e) s)). lr_ID x = r \<longrightarrow> lr_Status x = ''dead''"
proof -
  have f: "\<forall>x \<in> set (rt_runs (finish_row en r loop ''dead'' m attempt None s')). lr_ID x = r \<longrightarrow> lr_Status x = ''dead''" for m s'
    by (simp add: finish_row_def Let_def FinishLoopRun_def update_where_def assms(3) ball_Un)
  have "rt_runs (end_run en r loop t attempt ex (Some e) s) = rt_runs (record_outcome en r loop t attempt ex (Some e) s)"
    by (simp add: end_run_def Let_def)
  with f assms show ?thesis by (simp add: record_outcome_def)
qed

lemma end_spends:
  assumes "attempt_ok a" and "\<not> er_suspended e" and "er_sends e = None" and "le_finish en = None"
  shows "\<exists>st. row_of lo_Loop l (rt_states (end_run en r l t a ex (Some e) s)) = Some st \<and>
      (if harnessWait en e = None
       then lo_RetryAttempt st = a \<and>
         (if a = 3
          then lo_NextRetryAt st = None \<and> (\<forall>x \<in> set (rt_runs (end_run en r l t a ex (Some e) s)). lr_ID x = r \<longrightarrow> lr_Status x = ''dead'')
          else lo_NextRetryAt st = Some (le_now en + retryDelay a))
       else lo_NextRetryAt st = map_option (\<lambda>wait. le_now en + wait) (harnessWait en e) \<and> lo_RetryAttempt st + 1 = max a 2)"
proof -
  obtain st where st: "row_of lo_Loop l (rt_states (end_run en r l t a ex (Some e) s)) = Some st"
    "case harnessWait en e of
       Some wait \<Rightarrow> lo_NextRetryAt st = Some (le_now en + wait) \<and> lo_RetryAttempt st = max (a - 1) 1
     | None \<Rightarrow> lo_NextRetryAt st = (if a < maxAttempts then Some (le_now en + retryDelay a) else None) \<and> lo_RetryAttempt st = a"
    using end_failed_row [OF assms(2-4)] by blast
  have a: "a = 1 \<or> a = 2 \<or> a = 3" using assms(1) by (auto simp: attempt_ok_def maxAttempts_def)
  have d: "\<forall>x \<in> set (rt_runs (end_run en r l t a ex (Some e) s)). lr_ID x = r \<longrightarrow> lr_Status x = ''dead''"
    if "harnessWait en e = None" "a = 3"
    by (rule end_dead) (use assms that in \<open>simp_all add: maxAttempts_def\<close>)
  show ?thesis
  proof (cases "harnessWait en e")
    case None
    have "lo_RetryAttempt st = a \<and> lo_NextRetryAt st = (if a = 3 then None else Some (le_now en + retryDelay a))"
      using st(2) a None by (auto simp: maxAttempts_def)
    with None st(1) d show ?thesis by simp
  next
    case (Some w)
    with st(2) a have "lo_NextRetryAt st = Some (le_now en + w) \<and> lo_RetryAttempt st + 1 = max a 2" by auto
    with Some st(1) show ?thesis by simp
  qed
qed



end
