(* ===== verification/Recipe.thy ===== *)
theory Recipe
  imports Prelude
begin

text \<open>
  \<^verbatim>\<open>internal/recipes/recipe.go\<close>: reading a recipe's steps from the YAML tree, and validating a
  recipe. A YAML document is the tree the library parses it to, a \<open>node\<close>; the generic decoding of the
  fields other than the steps is the library's, and so is the cron parser (the argument \<open>valid\<close>).
  An error carries its line and its message; the advice that follows a message is left out.
\<close>

section \<open>Verbs\<close>

definition VerbAsk :: string where "VerbAsk = ''ask''"
definition VerbObserve :: string where "VerbObserve = ''observe''"
definition VerbHarness :: string where "VerbHarness = ''harness''"
definition VerbHarnessForget :: string where "VerbHarnessForget = ''harness.forget''"
definition VerbGateway :: string where "VerbGateway = ''gateway''"
definition VerbHTTP :: string where "VerbHTTP = ''http''"
definition VerbTool :: string where "VerbTool = ''tool''"
definition VerbRecall :: string where "VerbRecall = ''recall''"
definition VerbRemember :: string where "VerbRemember = ''remember''"
definition VerbNotify :: string where "VerbNotify = ''notify''"
definition VerbPropose :: string where "VerbPropose = ''propose''"
definition VerbRemind :: string where "VerbRemind = ''remind''"
definition VerbSend :: string where "VerbSend = ''send''"
definition VerbSleep :: string where "VerbSleep = ''sleep''"
definition VerbLog :: string where "VerbLog = ''log''"
definition VerbCaseOpen :: string where "VerbCaseOpen = ''case.open''"
definition VerbCaseGet :: string where "VerbCaseGet = ''case.get''"
definition VerbCaseState :: string where "VerbCaseState = ''case.state''"
definition VerbCaseLog :: string where "VerbCaseLog = ''case.log''"
definition VerbCaseHistory :: string where "VerbCaseHistory = ''case.history''"
definition VerbCaseSay :: string where "VerbCaseSay = ''case.say''"
definition VerbAwait :: string where "VerbAwait = ''await''"
definition VerbForeach :: string where "VerbForeach = ''foreach''"

lemmas verb_defs = VerbAsk_def VerbObserve_def VerbHarness_def VerbHarnessForget_def VerbGateway_def VerbHTTP_def VerbTool_def VerbRecall_def
   VerbRemember_def VerbNotify_def VerbPropose_def VerbRemind_def VerbSend_def
   VerbSleep_def VerbLog_def VerbCaseOpen_def VerbCaseGet_def VerbCaseState_def VerbCaseLog_def VerbCaseHistory_def VerbCaseSay_def VerbAwait_def VerbForeach_def

definition verbs :: "string list" where
  "verbs = [VerbAsk, VerbObserve, VerbHarness, VerbHarnessForget, VerbGateway, VerbHTTP, VerbTool, VerbRecall,
     VerbRemember, VerbNotify, VerbPropose, VerbRemind, VerbSend, VerbSleep, VerbLog,
     VerbCaseOpen, VerbCaseGet, VerbCaseState, VerbCaseLog, VerbCaseHistory, VerbCaseSay, VerbAwait, VerbForeach]"

definition isVerb :: "string \<Rightarrow> bool" where
  "isVerb k \<longleftrightarrow> k \<in> set verbs"

definition storesResult :: "string \<Rightarrow> bool" where
  "storesResult v \<longleftrightarrow> v \<in> set [VerbAsk, VerbObserve, VerbHarness, VerbGateway, VerbHTTP, VerbTool, VerbRecall,
     VerbCaseOpen, VerbCaseGet, VerbCaseHistory, VerbAwait]"

section \<open>Data\<close>

datatype ykind = ScalarNode | MappingNode | SequenceNode | OtherNode

datatype node = Node (n_Kind: ykind) (n_Line: int) (n_Value: string) (n_Content: "node list")

datatype Step = Step (sp_Verb: string) (sp_Args: "(string \<times> string) list option") (sp_Text: string)
  (sp_As: string) (sp_When: string) (sp_Else: "Step list") (sp_Steps: "Step list")
  (sp_Match: "(string \<times> string) list") (sp_In: "string list") (sp_Line: int)

record Trigger =
  tr_Event :: string
  tr_Schedule :: string
  tr_Webhook :: string
  tr_Manual :: bool

record Recipe =
  rc_Name :: string
  rc_Enabled :: "bool option"
  rc_On :: Trigger
  rc_Steps :: "Step list"
  rc_Grants :: "string list"
  rc_Path :: string

record RecipeError =
  re_Path :: string
  re_Line :: int
  re_Message :: message

definition IsEnabled :: "Recipe \<Rightarrow> bool" where
  "IsEnabled r \<longleftrightarrow> rc_Enabled r = None \<or> rc_Enabled r = Some True"

definition fails :: "string \<Rightarrow> int \<Rightarrow> message \<Rightarrow> RecipeError" where
  "fails path line msg = \<lparr>re_Path = path, re_Line = line, re_Message = msg\<rparr>"

text \<open>A field of a step's arguments; a missing one reads as the empty text.\<close>

definition arg_of :: "Step \<Rightarrow> string \<Rightarrow> string" where
  "arg_of s k = (case sp_Args s of None \<Rightarrow> '''' | Some m \<Rightarrow> (case row_of fst k m of None \<Rightarrow> '''' | Some kv \<Rightarrow> snd kv))"

fun set_As :: "string \<Rightarrow> Step \<Rightarrow> Step" where
  "set_As x (Step ve ar te as wh el st ma ii li) = Step ve ar te x wh el st ma ii li"
fun set_When :: "string \<Rightarrow> Step \<Rightarrow> Step" where
  "set_When x (Step ve ar te as wh el st ma ii li) = Step ve ar te as x el st ma ii li"
fun set_Else :: "Step list \<Rightarrow> Step \<Rightarrow> Step" where
  "set_Else x (Step ve ar te as wh el st ma ii li) = Step ve ar te as wh x st ma ii li"
fun set_Verb :: "string \<Rightarrow> Step \<Rightarrow> Step" where
  "set_Verb x (Step ve ar te as wh el st ma ii li) = Step x ar te as wh el st ma ii li"
fun set_Text :: "string \<Rightarrow> Step \<Rightarrow> Step" where
  "set_Text x (Step ve ar te as wh el st ma ii li) = Step ve ar x as wh el st ma ii li"
fun set_Args :: "(string \<times> string) list \<Rightarrow> Step \<Rightarrow> Step" where
  "set_Args x (Step ve ar te as wh el st ma ii li) = Step ve (Some x) te as wh el st ma ii li"
fun set_Steps :: "Step list \<Rightarrow> Step \<Rightarrow> Step" where
  "set_Steps x (Step ve ar te as wh el st ma ii li) = Step ve ar te as wh el x ma ii li"
fun set_Match :: "(string \<times> string) list \<Rightarrow> Step \<Rightarrow> Step" where
  "set_Match x (Step ve ar te as wh el st ma ii li) = Step ve ar te as wh el st x ii li"
fun set_In :: "string list \<Rightarrow> Step \<Rightarrow> Step" where
  "set_In x (Step ve ar te as wh el st ma ii li) = Step ve ar te as wh el st ma x li"

fun put_arg :: "string \<Rightarrow> string \<Rightarrow> Step \<Rightarrow> Step" where
  "put_arg k v (Step ve ar te as wh el st ma ii li) =
     Step ve (Some (obj_set k v (case ar of None \<Rightarrow> [] | Some m \<Rightarrow> m))) te as wh el st ma ii li"

section \<open>Decoding\<close>

fun decodeMatch_from :: "string \<Rightarrow> node list \<Rightarrow> (string \<times> string) list \<Rightarrow> RecipeError + (string \<times> string) list" where
  "decodeMatch_from path (name # val # rest) out =
     (if n_Kind val \<noteq> ScalarNode
      then Inl (fails path (n_Line val) [Quoted (n_Value name), Str '' under '', Quoted ''match'',
             Str '' is a block, and a match compares one value''])
      else decodeMatch_from path rest (obj_set (n_Value name) (n_Value val) out))"
| "decodeMatch_from path _ out = Inr out"

definition decodeMatch :: "string \<Rightarrow> node \<Rightarrow> RecipeError + (string \<times> string) list" where
  "decodeMatch path v =
     (if n_Kind v \<noteq> MappingNode
      then Inl (fails path (n_Line v) [Str ''\"match\" under \"await\" must be a set of field: value pairs''])
      else decodeMatch_from path (n_Content v) [])"

fun decodeIn_from :: "string \<Rightarrow> node list \<Rightarrow> RecipeError + string list" where
  "decodeIn_from path [] = Inr []"
| "decodeIn_from path (item # rest) =
     (if n_Kind item \<noteq> ScalarNode
      then Inl (fails path (n_Line item) [Str ''each item in a literal \"in\" list must be plain text''])
      else map_sum id (\<lambda>xs. n_Value item # xs) (decodeIn_from path rest))"

definition decodeForeachIn :: "string \<Rightarrow> node \<Rightarrow> RecipeError + string list" where
  "decodeForeachIn path v =
     (if n_Kind v \<noteq> SequenceNode
      then Inl (fails path (n_Line v) [Str ''\"in\" under \"foreach\" must be a list''])
      else decodeIn_from path (n_Content v))"

definition empty_step :: "int \<Rightarrow> Step" where
  "empty_step line = Step '''' None '''' '''' '''' [] [] [] [] line"

lemma content_size: "size_list size (n_Content n) < size n"
  by (cases n) simp

lemma content_size_items: "3 * size_list size (n_Content n) + 2 < 3 * size n + 1"
  using content_size [of n] by linarith

lemma content_size_args: "3 * size_list size (n_Content n) < 6 + (3 * size k + (3 * size n + 3 * c))"
  for n k :: node
  using content_size [of n] by linarith

text \<open>The four loops of the decoder: over a list of steps, the keys of a step, the fields of a verb; a
  mapping's content is its keys and values in turn.\<close>

function decodeStepList :: "string \<Rightarrow> node \<Rightarrow> RecipeError + Step list"
  and decodeItems :: "string \<Rightarrow> node list \<Rightarrow> RecipeError + Step list"
  and decodeStep :: "string \<Rightarrow> node \<Rightarrow> RecipeError + Step"
  and decodeKeys :: "string \<Rightarrow> int \<Rightarrow> node list \<Rightarrow> Step \<times> string list \<Rightarrow> RecipeError + Step \<times> string list"
  and decodeArgs :: "string \<Rightarrow> string \<Rightarrow> node list \<Rightarrow> Step \<Rightarrow> RecipeError + Step" where
  "decodeStepList path sq =
     (if n_Kind sq \<noteq> SequenceNode then Inl (fails path (n_Line sq) [Str ''steps must be a list''])
      else decodeItems path (n_Content sq))"
| "decodeItems path [] = Inr []"
| "decodeItems path (item # rest) =
     (case decodeStep path item of Inl e \<Rightarrow> Inl e
      | Inr s \<Rightarrow> map_sum id (\<lambda>out. s # out) (decodeItems path rest))"
| "decodeStep path nd =
     (if n_Kind nd \<noteq> MappingNode then Inl (fails path (n_Line nd) [Str ''a step must be a mapping''])
      else case decodeKeys path (n_Line nd) (n_Content nd) (empty_step (n_Line nd), []) of
             Inl e \<Rightarrow> Inl e
           | Inr (s, found) \<Rightarrow>
               if found = [] then Inl (fails path (n_Line nd) [Str ''this step has no action''])
               else if length found > 1
               then Inl (fails path (n_Line nd) [Str ''this step does '', Num (int (length found)),
                      Str '' things at once ('', Str (Join (sort found) '' and ''), Str '')''])
               else Inr s)"
| "decodeKeys path line (k # val # rest) (s, found) =
     (if n_Value k = ''as'' then decodeKeys path line rest (set_As (n_Value val) s, found)
      else if n_Value k = ''when'' then decodeKeys path line rest (set_When (n_Value val) s, found)
      else if n_Value k = ''else'' then
        (case decodeStepList path val of Inl e \<Rightarrow> Inl e
         | Inr nested \<Rightarrow> decodeKeys path line rest (set_Else nested s, found))
      else if \<not> isVerb (n_Value k) then Inl (fails path line [Str ''unknown step '', Quoted (n_Value k)])
      else if n_Kind val = ScalarNode
      then decodeKeys path line rest (set_Text (n_Value val) (set_Verb (n_Value k) s), found @ [n_Value k])
      else if n_Kind val = MappingNode
      then (case decodeArgs path (n_Value k) (n_Content val) (set_Args [] (set_Verb (n_Value k) s)) of
              Inl e \<Rightarrow> Inl e | Inr s' \<Rightarrow> decodeKeys path line rest (s', found @ [n_Value k]))
      else Inl (fails path (n_Line val) [Quoted (n_Value k), Str '' needs text or a set of fields'']))"
| "decodeKeys path line [] sf = Inr sf"
| "decodeKeys path line [x] sf = Inr sf"
| "decodeArgs path verb (name # v # rest) s =
     (if n_Kind v = ScalarNode then decodeArgs path verb rest (put_arg (n_Value name) (n_Value v) s)
      else if verb = VerbAwait \<and> n_Value name = ''match'' then
        (case decodeMatch path v of Inl e \<Rightarrow> Inl e | Inr m \<Rightarrow> decodeArgs path verb rest (set_Match m s))
      else if verb = VerbForeach \<and> n_Value name = ''steps'' then
        (if n_Kind v \<noteq> SequenceNode
         then Inl (fails path (n_Line v) [Str ''\"steps\" under \"foreach\" must be a list''])
         else case decodeStepList path v of Inl e \<Rightarrow> Inl e
              | Inr nested \<Rightarrow> decodeArgs path verb rest (set_Steps nested s))
      else if verb = VerbForeach \<and> n_Value name = ''in'' then
        (case decodeForeachIn path v of Inl e \<Rightarrow> Inl e | Inr items \<Rightarrow> decodeArgs path verb rest (set_In items s))
      else Inl (fails path (n_Line v) [Quoted (n_Value name), Str '' under '', Quoted verb,
             Str '' is a block, and steps take plain values'']))"
| "decodeArgs path verb [] s = Inr s"
| "decodeArgs path verb [x] s = Inr s"
  by pat_completeness auto

termination
proof (relation "measure (\<lambda>x. case x of
    Inl (Inl (path, n)) \<Rightarrow> 3 * size n + 1
  | Inl (Inr (path, ns)) \<Rightarrow> 3 * size_list size ns + 2
  | Inr (Inl (path, n)) \<Rightarrow> 3 * size n
  | Inr (Inr (Inl (path, line, ns, sf))) \<Rightarrow> 3 * size_list size ns
  | Inr (Inr (Inr (path, verb, ns, s))) \<Rightarrow> 3 * size_list size ns)", goal_cases)
qed (use content_size content_size_items content_size_args in auto)


fun childNode_in :: "string \<Rightarrow> node list \<Rightarrow> node option" where
  "childNode_in key (k # v # rest) = (if n_Value k = key then Some v else childNode_in key rest)"
| "childNode_in key _ = None"

definition childNode :: "node \<Rightarrow> string \<Rightarrow> node option" where
  "childNode m key = (if n_Kind m \<noteq> MappingNode then None else childNode_in key (n_Content m))"

definition parseSteps :: "string \<Rightarrow> node \<Rightarrow> RecipeError + Step list" where
  "parseSteps path rt = (case childNode rt ''steps'' of
      None \<Rightarrow> Inl (fails path (n_Line rt) [Str ''no steps''])
    | Some sq \<Rightarrow> decodeStepList path sq)"

section \<open>Validation\<close>

definition required :: "string \<Rightarrow> string list" where
  "required v =
     (if v = VerbHTTP then [''url''] else if v = VerbTool then [''name''] else if v = VerbNotify then [''title'']
      else if v = VerbPropose then [''title'', ''action''] else if v = VerbRemind then [''title'']
      else if v = VerbSend then [''text''] else if v = VerbRemember then [''fact'']
      else if v = VerbCaseOpen then [''key'', ''title''] else if v = VerbCaseGet then [''key'']
      else if v = VerbCaseState then [''case'', ''state''] else if v = VerbCaseLog then [''case'', ''kind'', ''payload'']
      else if v = VerbCaseHistory then [''case''] else if v = VerbCaseSay then [''case'', ''text'']
      else if v = VerbAwait then [''event''] else if v = VerbHarnessForget then [''session_id''] else [])"

definition blank :: "string \<Rightarrow> bool" where
  "blank x \<longleftrightarrow> TrimSpace x = ''''"

definition validate_step :: "string \<Rightarrow> Step \<Rightarrow> RecipeError option" where
  "validate_step path s =
     (if sp_Else s \<noteq> [] \<and> sp_When s = '''' then Some (fails path (sp_Line s) [Str ''else with no when''])
      else if sp_As s \<noteq> '''' \<and> \<not> storesResult (sp_Verb s)
      then Some (fails path (sp_Line s) [Quoted (sp_Verb s), Str '' produces nothing to bind with as''])
      else case filter (\<lambda>k. sp_Args s = None \<or> blank (arg_of s k)) (required (sp_Verb s)) of
        k # _ \<Rightarrow> Some (fails path (sp_Line s) [Quoted (sp_Verb s), Str '' needs '', Quoted k])
      | [] \<Rightarrow>
          if sp_Verb s = VerbSleep \<and> sp_Text s = '''' \<and> (sp_Args s = None \<or> arg_of s ''for'' = '''')
          then Some (fails path (sp_Line s) [Str ''sleep needs a duration''])
          else if sp_Verb s = VerbSend \<and> blank (arg_of s ''to'') \<and> blank (arg_of s ''channel'')
          then Some (fails path (sp_Line s) [Str ''\"send\" needs \"to\" or \"channel\"''])
          else if sp_Verb s = VerbForeach \<and> blank (arg_of s ''in'') \<and> sp_In s = []
          then Some (fails path (sp_Line s) [Str ''\"foreach\" needs \"in\"''])
          else if sp_Verb s = VerbForeach \<and> blank (arg_of s ''as'')
          then Some (fails path (sp_Line s) [Str ''\"foreach\" needs \"as\"''])
          else if sp_Verb s = VerbForeach \<and> sp_Steps s = []
          then Some (fails path (sp_Line s) [Str ''\"foreach\" needs \"steps\"''])
          else None)"

function validateSteps :: "string \<Rightarrow> Step list \<Rightarrow> RecipeError option" where
  "validateSteps path [] = None"
| "validateSteps path (s # rest) =
     (case validate_step path s of Some e \<Rightarrow> Some e
      | None \<Rightarrow> (case validateSteps path (sp_Else s) of Some e \<Rightarrow> Some e
          | None \<Rightarrow> (case validateSteps path (sp_Steps s) of Some e \<Rightarrow> Some e
              | None \<Rightarrow> validateSteps path rest)))"
  by pat_completeness auto

lemma step_size: "size_list size (sp_Else s) < size s \<and> size_list size (sp_Steps s) < size s"
  by (cases s) auto

lemma step_size_args:
  "size_list size (sp_Else s) < Suc (size s + n)" "size_list size (sp_Steps s) < Suc (size s + n)"
  using step_size [of s] by auto

termination validateSteps
  by (relation "measure (\<lambda>(p, ss). size_list size ss)") (auto simp: step_size_args)

definition normaliseSchedule :: "(string \<Rightarrow> bool) \<Rightarrow> string \<Rightarrow> string \<Rightarrow> RecipeError + string" where
  "normaliseSchedule valid path raw =
     (let spec = TrimSpace raw; fields = Fields spec; with_s = ''0 '' @ Join fields '' ''
      in if spec = '''' then Inr ''''
         else if valid spec then Inr spec
         else if length fields = 5 \<and> valid with_s then Inr with_s
         else Inl (fails path 1 [Str ''the schedule '', Quoted spec, Str '' is not one the scheduler can run'']))"

definition bad_grant :: "string \<Rightarrow> bool" where
  "bad_grant g = (let (class, val, ok) = Cut g CHR '':'' in \<not> ok \<or> blank class \<or> blank val)"

definition validate :: "(string \<Rightarrow> bool) \<Rightarrow> Recipe \<Rightarrow> RecipeError + Recipe" where
  "validate valid r =
     (let p = rc_Path r; t = rc_On r
      in if blank (rc_Name r) then Inl (fails p 1 [Str ''no name''])
         else if set (rc_Name r) \<inter> {CHR '' '', CHR ''/'', CHR 0x5C} \<noteq> {}
         then Inl (fails p 1 [Str ''the name '', Quoted (rc_Name r), Str '' contains a space or a slash''])
         else if tr_Event t = '''' \<and> tr_Schedule t = '''' \<and> tr_Webhook t = '''' \<and> \<not> tr_Manual t
         then Inl (fails p 1 [Str ''nothing triggers this recipe''])
         else case normaliseSchedule valid p (tr_Schedule t) of
           Inl e \<Rightarrow> Inl e
         | Inr n \<Rightarrow>
             (let r' = r\<lparr>rc_On := t\<lparr>tr_Schedule := n\<rparr>\<rparr>
              in if rc_Steps r = [] then Inl (fails p 1 [Str ''no steps''])
                 else case filter bad_grant (rc_Grants r) of
                   g # _ \<Rightarrow> Inl (fails p 1 [Str ''the grant '', Quoted g, Str '' is not <capability>:<value>''])
                 | [] \<Rightarrow> (case validateSteps p (rc_Steps r) of Some e \<Rightarrow> Inl e | None \<Rightarrow> Inr r')))"

text \<open>
  The library reads the file (\<open>doc\<close>: an error's line and message, or the document's content) and
  decodes the recipe's own fields from the root (\<open>head\<close>), the path and the steps aside.
\<close>

definition Parse :: "(string \<Rightarrow> bool) \<Rightarrow> (node \<Rightarrow> Recipe \<Rightarrow> message + Recipe) \<Rightarrow> string \<Rightarrow>
    (int \<times> message) + node list \<Rightarrow> RecipeError + Recipe" where
  "Parse valid head path doc =
     (case doc of
        Inl (line, msg) \<Rightarrow> Inl (fails path line msg)
      | Inr [] \<Rightarrow> Inl (fails path 1 [Str ''the file is empty''])
      | Inr (rt # _) \<Rightarrow>
          (case head rt \<lparr>rc_Name = '''', rc_Enabled = None, rc_On = \<lparr>tr_Event = '''', tr_Schedule = '''', tr_Webhook = '''',
                     tr_Manual = False\<rparr>, rc_Steps = [], rc_Grants = [], rc_Path = path\<rparr> of
             Inl msg \<Rightarrow> Inl (fails path (n_Line rt) msg)
           | Inr r \<Rightarrow> (case parseSteps path rt of
                 Inl e \<Rightarrow> Inl e
               | Inr steps \<Rightarrow> validate valid (r\<lparr>rc_Steps := steps\<rparr>))))"

section \<open>What a parsed recipe is\<close>

text \<open>The steps of a recipe at every depth.\<close>

function all_steps :: "Step list \<Rightarrow> Step list" where
  "all_steps [] = []"
| "all_steps (s # rest) = s # all_steps (sp_Else s) @ all_steps (sp_Steps s) @ all_steps rest"
  by pat_completeness auto

termination all_steps
  by (relation "measure (size_list size)") (auto simp: step_size_args)

end
