(* ===== verification/Recipe_Props.thy ===== *)
theory Recipe_Props
  imports Recipe Scheduler
begin

text \<open>
  What \<^verbatim>\<open>recipes.Parse\<close> promises whoever runs a recipe: the shape of every step at every depth,
  and that its schedule is one the scheduler of \<^verbatim>\<open>internal/scheduler/scheduler.go\<close> takes unchanged.
\<close>

section \<open>Decoding\<close>

lemma set_Step_sels [simp]:
  "sp_Else (set_As x s) = sp_Else s" "sp_Steps (set_As x s) = sp_Steps s" "sp_Verb (set_As x s) = sp_Verb s"
  "sp_Else (set_When x s) = sp_Else s" "sp_Steps (set_When x s) = sp_Steps s" "sp_Verb (set_When x s) = sp_Verb s"
  "sp_Else (set_Else e s) = e" "sp_Steps (set_Else e s) = sp_Steps s" "sp_Verb (set_Else e s) = sp_Verb s"
  "sp_Else (set_Verb x s) = sp_Else s" "sp_Steps (set_Verb x s) = sp_Steps s" "sp_Verb (set_Verb x s) = x"
  "sp_Else (set_Text x s) = sp_Else s" "sp_Steps (set_Text x s) = sp_Steps s" "sp_Verb (set_Text x s) = sp_Verb s"
  "sp_Else (set_Args m s) = sp_Else s" "sp_Steps (set_Args m s) = sp_Steps s" "sp_Verb (set_Args m s) = sp_Verb s"
  "sp_Else (set_Steps e s) = sp_Else s" "sp_Steps (set_Steps e s) = e" "sp_Verb (set_Steps e s) = sp_Verb s"
  "sp_Else (set_Match m s) = sp_Else s" "sp_Steps (set_Match m s) = sp_Steps s" "sp_Verb (set_Match m s) = sp_Verb s"
  "sp_Else (set_In l s) = sp_Else s" "sp_Steps (set_In l s) = sp_Steps s" "sp_Verb (set_In l s) = sp_Verb s"
  "sp_Else (put_arg x y s) = sp_Else s" "sp_Steps (put_arg x y s) = sp_Steps s" "sp_Verb (put_arg x y s) = sp_Verb s"
  by (cases s; simp)+

definition known :: "Step list \<Rightarrow> bool" where
  "known ss \<longleftrightarrow> (\<forall>s \<in> set (all_steps ss). isVerb (sp_Verb s))"

lemma known_simps [simp]:
  "known []"
  "known (s # ss) \<longleftrightarrow> isVerb (sp_Verb s) \<and> known (sp_Else s) \<and> known (sp_Steps s) \<and> known ss"
  by (auto simp: known_def)

lemma known_decode:
  "decodeStepList path n = Inr ss \<Longrightarrow> known ss"
  "decodeItems path ns = Inr ss \<Longrightarrow> known ss"
  "decodeStep path n = Inr s' \<Longrightarrow> known [s']"
  "decodeKeys path line ns sf = Inr sf' \<Longrightarrow> known (sp_Else (fst sf)) \<Longrightarrow> known (sp_Steps (fst sf)) \<Longrightarrow>
     (snd sf \<noteq> [] \<longrightarrow> isVerb (sp_Verb (fst sf))) \<Longrightarrow>
     known (sp_Else (fst sf')) \<and> known (sp_Steps (fst sf')) \<and> (snd sf' \<noteq> [] \<longrightarrow> isVerb (sp_Verb (fst sf')))"
  "decodeArgs path verb ns s = Inr s' \<Longrightarrow> known (sp_Else s) \<Longrightarrow> known (sp_Steps s) \<Longrightarrow>
     known (sp_Else s') \<and> known (sp_Steps s') \<and> sp_Verb s' = sp_Verb s"
proof (induction path n and path ns and path n and path line ns sf and path verb ns s
    arbitrary: ss and ss and s' and sf' and s'
    rule: decodeStepList_decodeItems_decodeStep_decodeKeys_decodeArgs.induct)
  case (1 path sq)
  then show ?case by (simp split: if_splits)
next
  case (2 path)
  then show ?case by simp
next
  case (3 path item rest)
  then show ?case
    by (cases "decodeItems path rest") (auto split: sum.splits simp del: decodeStep.simps)
next
  case (4 path nd)
  from "4.prems" obtain s found where "n_Kind nd = MappingNode"
    and k: "decodeKeys path (n_Line nd) (n_Content nd) (empty_step (n_Line nd), []) = Inr (s, found)"
    and "found \<noteq> []" "s' = s"
    by (auto split: if_splits sum.splits)
  with "4.IH" [OF _ k] show ?case by (auto simp: empty_step_def)
next
  case (5 path line k val rest s found)
  consider "n_Value k = ''as''" | "n_Value k = ''when''"
    | "n_Value k = ''else''" | "n_Value k \<notin> {''as'', ''when'', ''else''}" by blast
  then show ?case
  proof cases
    case 4
    show ?thesis
    proof (cases "isVerb (n_Value k)")
      case True
      show ?thesis
      proof (cases "n_Kind val")
        case ScalarNode
        with 4 True "5.prems" "5.IH"(5) show ?thesis by simp
      next
        case MappingNode
        with 4 True "5.prems" "5.IH"(6,7) show ?thesis by (auto split: sum.splits)
      qed (use 4 True "5.prems" in auto)
    qed (use 4 "5.prems" in auto)
  qed (use "5.prems" "5.IH"(1-4) in \<open>auto split: sum.splits simp del: decodeStepList.simps\<close>)
next
  case (8 path verb name v rest s)
  show ?case
  proof (cases "n_Kind v = ScalarNode")
    case True
    with "8.prems" "8.IH"(1) show ?thesis by simp
  next
    case block: False
    consider "verb = VerbAwait \<and> n_Value name = ''match''" | "verb = VerbForeach \<and> n_Value name = ''steps''"
      | "verb = VerbForeach \<and> n_Value name = ''in''"
      | "\<not> (verb = VerbAwait \<and> n_Value name = ''match'')" "\<not> (verb = VerbForeach \<and> n_Value name = ''steps'')"
        "\<not> (verb = VerbForeach \<and> n_Value name = ''in'')" by blast
    then show ?thesis
      by cases (use block "8.prems" "8.IH"(2-) in
        \<open>auto split: sum.splits if_splits simp: verb_defs simp del: decodeStepList.simps\<close>)
  qed
qed simp_all


section \<open>Validation\<close>

lemma validateSteps_None:
  "validateSteps path ss = None \<longleftrightarrow> (\<forall>s \<in> set (all_steps ss). validate_step path s = None)"
proof (induction path ss rule: validateSteps.induct)
  case (2 path s rest)
  show ?case
    by (cases "validate_step path s"; cases "validateSteps path (sp_Else s)"; cases "validateSteps path (sp_Steps s)")
      (use 2 in \<open>simp_all add: ball_Un\<close>)
qed simp

text \<open>What the run of a step relies on.\<close>

definition well_formed :: "Step \<Rightarrow> bool" where
  "well_formed s \<longleftrightarrow> isVerb (sp_Verb s) \<and> (sp_Else s \<noteq> [] \<longrightarrow> sp_When s \<noteq> '''') \<and>
     (sp_As s \<noteq> '''' \<longrightarrow> storesResult (sp_Verb s)) \<and>
     (\<forall>k \<in> set (required (sp_Verb s)). \<not> blank (arg_of s k)) \<and>
     (sp_Verb s = VerbSleep \<longrightarrow> sp_Text s \<noteq> '''' \<or> arg_of s ''for'' \<noteq> '''') \<and>
     (sp_Verb s = VerbSend \<longrightarrow> \<not> blank (arg_of s ''to'') \<or> \<not> blank (arg_of s ''channel'')) \<and>
     (sp_Verb s = VerbForeach \<longrightarrow> (sp_In s \<noteq> [] \<or> \<not> blank (arg_of s ''in'')) \<and> \<not> blank (arg_of s ''as'') \<and> sp_Steps s \<noteq> [])"

lemma arg_of_no_args: "sp_Args s = None \<Longrightarrow> arg_of s k = ''''"
  by (simp add: arg_of_def)

lemma blank_empty [simp]: "blank ''''"
  by (simp add: blank_def TrimSpace_def)

lemma filter_case: "(case filter P xs of [] \<Rightarrow> a | k # _ \<Rightarrow> Some (f k)) = None \<longleftrightarrow> (\<forall>x \<in> set xs. \<not> P x) \<and> a = None"
  by (induction xs) auto

lemma if_Some_None: "(if c then Some x else y) = None \<longleftrightarrow> \<not> c \<and> y = None"
  by simp

lemma validate_step_None: "validate_step path s = None \<and> isVerb (sp_Verb s) \<longleftrightarrow> well_formed s"
proof -
  have a: "sp_Args s = None \<or> blank (arg_of s k) \<longleftrightarrow> blank (arg_of s k)" for k
    by (auto simp: arg_of_no_args)
  have b: "sp_Args s = None \<or> arg_of s k = '''' \<longleftrightarrow> arg_of s k = ''''" for k
    by (auto simp: arg_of_no_args)
  show ?thesis
    unfolding validate_step_def well_formed_def if_Some_None filter_case a b by blast
qed

lemma filter_case_sum: "(case filter P xs of [] \<Rightarrow> b | k # _ \<Rightarrow> Inl (f k)) = Inr r \<longleftrightarrow> (\<forall>x \<in> set xs. \<not> P x) \<and> b = Inr r"
  by (induction xs) auto

lemma validate_Inr:
  assumes "validate valid r = Inr r'"
  obtains n where "normaliseSchedule valid (rc_Path r) (tr_Schedule (rc_On r)) = Inr n"
    and "r' = r\<lparr>rc_On := (rc_On r)\<lparr>tr_Schedule := n\<rparr>\<rparr>" and "rc_Steps r \<noteq> []" and "\<not> blank (rc_Name r)"
    and "\<forall>g \<in> set (rc_Grants r). \<not> bad_grant g" and "validateSteps (rc_Path r) (rc_Steps r) = None"
    and "tr_Event (rc_On r) \<noteq> '''' \<or> tr_Schedule (rc_On r) \<noteq> '''' \<or> tr_Webhook (rc_On r) \<noteq> '''' \<or> tr_Manual (rc_On r)"
  using assms unfolding validate_def Let_def
  by (auto simp: filter_case_sum split: if_splits sum.splits option.splits)

lemma Parse_Inr:
  assumes "Parse valid head path doc = Inr r"
  obtains rt r0 steps where "parseSteps path rt = Inr steps" and "validate valid (r0\<lparr>rc_Steps := steps\<rparr>) = Inr r"
  using assms by (auto simp: Parse_def split: sum.splits list.splits)

lemma parseSteps_known: "parseSteps path rt = Inr steps \<Longrightarrow> known steps"
  by (auto simp: parseSteps_def simp del: decodeStepList.simps split: option.splits dest: known_decode(1))

text \<open>
  C26. A recipe that parses has steps, and every step of it at any depth, in an \<open>else\<close> or in the
  body of a \<open>foreach\<close> too, is one the runner can run: a verb it knows, the fields that verb needs
  present and not blank, an \<open>as\<close> only on a verb that returns something, an \<open>else\<close> only under a
  \<open>when\<close>, a sleep with a duration, a send with an addressee, a \<open>foreach\<close> with a list, a name and
  a body; and every grant it declares has a class and a value.
\<close>
theorem parsed_recipe_well_formed:
  assumes "Parse valid head path doc = Inr r"
  shows "rc_Steps r \<noteq> [] \<and> (\<forall>s \<in> set (all_steps (rc_Steps r)). well_formed s) \<and>
    (\<forall>g \<in> set (rc_Grants r). \<not> bad_grant g)"
proof -
  obtain rt r0 steps where p: "parseSteps path rt = Inr steps"
    and v: "validate valid (r0\<lparr>rc_Steps := steps\<rparr>) = Inr r" using assms by (rule Parse_Inr)
  then show ?thesis
    using parseSteps_known [OF p]
    by (elim validate_Inr) (simp add: known_def validateSteps_None validate_step_None [of "rc_Path r0", symmetric])
qed


text \<open>A recipe with a \<open>foreach\<close> whose body only logs, scheduled every morning in five fields.\<close>

definition scalar :: "string \<Rightarrow> node" where
  "scalar x = Node ScalarNode 1 x []"

definition sample_doc :: node where
  "sample_doc = Node MappingNode 1 '''' [scalar ''steps'', Node SequenceNode 2 '''' [Node MappingNode 2 ''''
     [scalar ''foreach'', Node MappingNode 2 '''' [scalar ''in'', Node SequenceNode 2 '''' [scalar ''a''],
        scalar ''as'', scalar ''t'', scalar ''steps'', Node SequenceNode 3 '''' [Node MappingNode 3 ''''
          [scalar ''log'', scalar ''hi'']]]]]]"

definition sample_valid :: "string \<Rightarrow> bool" where
  "sample_valid x \<longleftrightarrow> length (Fields x) = 6"

definition sample_head :: "node \<Rightarrow> Recipe \<Rightarrow> message + Recipe" where
  "sample_head rt r = Inr (r\<lparr>rc_Name := ''r'', rc_On := (rc_On r)\<lparr>tr_Schedule := ''0 9 * * *''\<rparr>, rc_Grants := [''http:x'']\<rparr>)"

definition log_step :: Step where
  "log_step = Step VerbLog None ''hi'' '''' '''' [] [] [] [] 3"

definition sample_steps :: "Step list" where
  "sample_steps = [Step VerbForeach (Some [(''as'', ''t'')]) '''' '''' '''' [] [log_step] [] [''a''] 2]"

lemma sample_parses:
  "Parse sample_valid sample_head ''p'' (Inr [sample_doc]) =
     Inr \<lparr>rc_Name = ''r'', rc_Enabled = None, rc_On = \<lparr>tr_Event = '''', tr_Schedule = ''0 0 9 * * *'', tr_Webhook = '''',
       tr_Manual = False\<rparr>, rc_Steps = sample_steps, rc_Grants = [''http:x''], rc_Path = ''p''\<rparr>"
  by code_simp

lemma parsed_recipe_well_formed_witness:
  "list_all well_formed (all_steps sample_steps)"
  using parsed_recipe_well_formed [OF sample_parses] by (simp add: list_all_iff)

section \<open>The schedule\<close>

definition word :: "string \<Rightarrow> bool" where
  "word u \<longleftrightarrow> u \<noteq> [] \<and> (\<forall>c \<in> set u. \<not> is_space c)"

lemma Fields_from_words:
  "\<forall>c \<in> set w. \<not> is_space c \<Longrightarrow> \<forall>u \<in> set (Fields_from w s). word u"
proof (induction s arbitrary: w)
  case (Cons c s)
  then show ?case using Cons.IH [of "[]"] Cons.IH [of "c # w"]
    by (cases "is_space c") (simp_all add: word_def [of "rev w"])
qed (simp add: word_def)

lemma last_Join: "ws \<noteq> [] \<Longrightarrow> last ws \<noteq> [] \<Longrightarrow> Join ws sep \<noteq> [] \<and> last (Join ws sep) = last (last ws)"
proof (induction ws sep rule: Join.induct)
  case (3 a b ws sep)
  then have "Join (b # ws) sep \<noteq> [] \<and> last (Join (b # ws) sep) = last (last (b # ws))" by simp
  then show ?case by simp
qed simp_all

lemma TrimSpace_id: "s \<noteq> [] \<Longrightarrow> \<not> is_space (hd s) \<Longrightarrow> \<not> is_space (last s) \<Longrightarrow> TrimSpace s = s"
proof -
  assume a: "s \<noteq> []" "\<not> is_space (hd s)" "\<not> is_space (last s)"
  then have "dropWhile is_space s = s" by (cases s) auto
  moreover have "dropWhile is_space (rev s) = rev s" using a(1,3) by (cases s rule: rev_cases) auto
  ultimately show ?thesis by (simp add: TrimSpace_def)
qed

lemma normaliseSchedule_form:
  assumes "normaliseSchedule valid p raw = Inr n" and "n \<noteq> ''''"
  shows "valid n \<and> TrimSpace n = n"
proof -
  let ?fs = "Fields (TrimSpace raw)"
  have w: "TrimSpace (''0 '' @ Join ?fs '' '') = ''0 '' @ Join ?fs '' ''" if "length ?fs = 5"
  proof -
    from that have ne: "?fs \<noteq> []" by auto
    then have "word (last ?fs)" using Fields_from_words [of "[]" "TrimSpace raw"] by (simp add: Fields_def)
    then have l: "last ?fs \<noteq> [] \<and> (\<forall>c \<in> set (last ?fs). \<not> is_space c)" by (simp add: word_def)
    with last_Join [OF ne] have "Join ?fs '' '' \<noteq> [] \<and> \<not> is_space (last (Join ?fs '' ''))" by simp
    then show ?thesis by (intro TrimSpace_id) (auto simp: is_space_def)
  qed
  show ?thesis
    using assms w by (auto simp: normaliseSchedule_def Let_def TrimSpace_idem split: if_splits)
qed

lemma fold_merge_cron: "sj_Cron (fst (fold (merge_one derr) xs js)) = sj_Cron (fst js)"
  by (induction xs arbitrary: js) (auto simp: merge_one_def Let_def)

lemma AddJob_accepts:
  assumes "sd_valid en (withSeconds (sj_Cron j))" and "sd_save en = None"
  shows "fst (AddJob en j s) = None"
proof -
  let ?j = "if sj_ID j = '''' then j\<lparr>sj_ID := sd_uuid en\<rparr> else j"
  obtain j2 s2 where f: "fold (merge_one (sd_delete en)) (sc_jobs s) (?j, s) = (j2, s2)" by fastforce
  have "sj_Cron j2 = sj_Cron j" using fold_merge_cron [of "sd_delete en" "sc_jobs s" "(?j, s)"] by (simp add: f split: if_splits)
  then show ?thesis
    using assms unfolding AddJob_stages [OF f] by (simp add: cron_add_def SaveJob_def Let_def)
qed

text \<open>
  The schedule of a parsed recipe, five fields or six or a descriptor, is one the scheduler runs as
  it stands: it is valid for the parser both use, the scheduler's own normalisation leaves it unchanged,
  and a job with it is accepted. The parser takes six fields, or a descriptor such as @daily.
\<close>
theorem parsed_schedule_is_accepted:
  assumes "\<forall>x. valid x \<longrightarrow> HasPrefix x ''@'' \<or> length (Fields x) = 6"
    and "Parse valid head path doc = Inr r" and "tr_Schedule (rc_On r) \<noteq> ''''"
    and "sd_valid en = valid" and "sd_save en = None" and "sj_Cron j = tr_Schedule (rc_On r)"
  shows "withSeconds (tr_Schedule (rc_On r)) = tr_Schedule (rc_On r) \<and> valid (tr_Schedule (rc_On r)) \<and>
    fst (AddJob en j s) = None"
proof -
  let ?n = "tr_Schedule (rc_On r)"
  have n: "valid ?n \<and> TrimSpace ?n = ?n"
    using assms(2,3) by (elim Parse_Inr validate_Inr) (auto dest!: normaliseSchedule_form)
  then have "withSeconds ?n = ?n" using assms(1) by (auto simp: withSeconds_def Let_def)
  with n show ?thesis using AddJob_accepts [of en j s] assms(4-6) by simp
qed

definition sample_env :: sched_env where
  "sample_env = \<lparr>sd_valid = sample_valid, sd_enc = (\<lambda>_. ''{}''), sd_dec = (\<lambda>_. []), sd_uuid = ''u'', sd_delete = None,
     sd_save = None, sd_now = 0\<rparr>"

definition sample_job :: ScheduledJob where
  "sample_job = \<lparr>sj_ID = ''j'', sj_Name = ''r'', sj_Cron = ''0 0 9 * * *'', sj_AgentID = ''a'', sj_Payload = [], sj_Enabled = True,
     sj_LastRun = None, sj_NextRun = None, sj_RunCount = 0, sj_CatchUp = False\<rparr>"

lemma parsed_schedule_is_accepted_witness:
  "withSeconds ''0 0 9 * * *'' = ''0 0 9 * * *'' \<and>
   fst (AddJob sample_env sample_job \<lparr>sc_jobs = [], sc_cron = [], sc_next = 1, sc_db = []\<rparr>) = None"
  using parsed_schedule_is_accepted [OF _ sample_parses, of sample_env sample_job]
  by (simp add: sample_valid_def sample_env_def sample_job_def)

end
