(* ===== verification/Recipe_Run.thy ===== *)
theory Recipe_Run
  imports Recipe Loop_Run
begin

text \<open>
  \<^verbatim>\<open>internal/recipes/run.go\<close>: running a recipe against a kit, and the kit's checkpoints and waits
  (\<^verbatim>\<open>internal/runtime/loophost.go\<close> Step and Once, \<^verbatim>\<open>loophost_org.go\<close> Await). What the
  kit's other calls do in the world is a \<open>kit_world\<close>, which may answer each call by all that was done
  before; every call made is recorded with the step it was made for. Templates, durations, JSON and quoting
  are the standard library's, in a \<open>run_env\<close>; a text without \<open>{{\<close> is not a template.
\<close>

section \<open>The kit\<close>

datatype rerr = Fail message | KitFail string | Suspended string | Located string int string rerr

record kit_case =
  kc_ID :: string
  kc_Key :: string
  kc_Agent :: string
  kc_Title :: string
  kc_State :: string
  kc_Namespace :: string
  kc_ThreadChannel :: string
  kc_ThreadTS :: string

datatype call =
    CAsk string | CObserve string | CHarness string | CHarnessWith string string string bool
  | CHarnessForget string string | CGateway string | CRecall string int | CRemember string
  | CNotify string string | CPropose string string string | CProposeTo string string string string
  | CRemind string string string | CSendWhatsApp string string | CSendTo string string string
  | CHTTP string string "(string \<times> string) list" string | CSleep duration
  | CAfter string duration "(string \<times> json) list" | CLogf string
  | CCaseOpen string string string | CCaseGet string | CCaseHistory string int | CCaseSay string string string
  | CCaseSetState string string | CCaseLog string string string

text \<open>A call made for a step, and whether what it was made for succeeded.\<close>

record event =
  ev_step :: string
  ev_call :: call
  ev_ok :: bool

record kit_world =
  kw_text :: "event list \<Rightarrow> call \<Rightarrow> rerr + string"
  kw_unit :: "event list \<Rightarrow> call \<Rightarrow> rerr option"
  kw_lines :: "event list \<Rightarrow> call \<Rightarrow> rerr + string list"
  kw_http :: "event list \<Rightarrow> call \<Rightarrow> rerr + string \<times> int"
  kw_case :: "event list \<Rightarrow> call \<Rightarrow> rerr + kit_case"
  kw_read :: "event list \<Rightarrow> string \<Rightarrow> dberr"
  kw_write :: "event list \<Rightarrow> string \<Rightarrow> dberr"
  kw_now :: "event list \<Rightarrow> gtime"
  kw_uuid :: "event list \<Rightarrow> string"

type_synonym bindings = "(string \<times> json) list"

record run_env =
  re_world :: kit_world
  re_exec :: string
  re_loop :: string
  re_expand :: "string \<Rightarrow> bindings \<Rightarrow> message + string"
  re_duration :: "string \<Rightarrow> duration option"
  re_strings :: "string \<Rightarrow> string list option"
  re_anys :: "string \<Rightarrow> string list option"
  re_quote :: "string \<Rightarrow> string"
  re_marshal :: "(string \<times> string) list \<Rightarrow> string"
  re_dec :: "string \<Rightarrow> (string \<times> json) list option"

text \<open>\<open>ks_asked\<close> are the checkpoint names the run asked for, in order.\<close>

record kit_state =
  ks_db :: steps_db
  ks_waiters :: "Waiter list"
  ks_hist :: "event list"
  ks_asked :: "string list"

type_synonym 'a act = "kit_state \<Rightarrow> (rerr + 'a) \<times> kit_state"

definition noted :: "string \<Rightarrow> call \<Rightarrow> bool \<Rightarrow> kit_state \<Rightarrow> kit_state" where
  "noted i c ok s = s\<lparr>ks_hist := ks_hist s @ [\<lparr>ev_step = i, ev_call = c, ev_ok = ok\<rparr>]\<rparr>"

definition call_as :: "(event list \<Rightarrow> call \<Rightarrow> rerr + 'a) \<Rightarrow> ('a \<Rightarrow> rerr + 'b) \<Rightarrow> string \<Rightarrow> call \<Rightarrow> 'b act" where
  "call_as ask check i c s =
     (case ask (ks_hist s) c of
        Inl e \<Rightarrow> (Inl e, noted i c False s)
      | Inr x \<Rightarrow> (case check x of Inl e \<Rightarrow> (Inl e, noted i c False s) | Inr y \<Rightarrow> (Inr y, noted i c True s)))"

definition call_text :: "run_env \<Rightarrow> string \<Rightarrow> call \<Rightarrow> string act" where
  "call_text en = call_as (kw_text (re_world en)) Inr"

definition call_unit :: "run_env \<Rightarrow> string \<Rightarrow> call \<Rightarrow> string act" where
  "call_unit en = call_as (\<lambda>h c. case kw_unit (re_world en) h c of None \<Rightarrow> Inr '''' | Some e \<Rightarrow> Inl e) Inr"

definition newline :: string where "newline = [CHR 0x0A]"

definition call_lines :: "run_env \<Rightarrow> string \<Rightarrow> call \<Rightarrow> string act" where
  "call_lines en = call_as (kw_lines (re_world en)) (\<lambda>xs. Inr (Join xs newline))"

text \<open>A checkpoint: what is recorded for its name is the answer; otherwise the function runs, and its
  result is recorded if it succeeds. Once is Step without a result.\<close>

definition asked :: "string \<Rightarrow> kit_state \<Rightarrow> kit_state" where
  "asked name s = s\<lparr>ks_asked := ks_asked s @ [name]\<rparr>"

definition kit_Step :: "run_env \<Rightarrow> string \<Rightarrow> string act \<Rightarrow> string act" where
  "kit_Step en name0 fn s0 =
     (let name = TrimSpace name0; w = re_world en; s = asked name s0
      in if name = '''' then (Inl (Fail [Str ''step: a checkpoint needs a name'']), s)
         else if re_exec en = '''' then fn s
         else case LoopStep (kw_read w (ks_hist s) name) (re_exec en) name (ks_db s) of
             Inr (Some result) \<Rightarrow> (Inr result, s)
           | _ \<Rightarrow> (case fn s of
                 (Inl e, s') \<Rightarrow> (Inl e, s')
               | (Inr result, s') \<Rightarrow> (Inr result, s'\<lparr>ks_db := snd (SaveLoopStep (kw_write w (ks_hist s') name) (kw_now w (ks_hist s'))
                     (re_exec en) (re_loop en) name result (ks_db s'))\<rparr>)))"

text \<open>Waiting: the run's wait for this step, if it has come to an end, or a new one and a suspended run.\<close>

record await_spec =
  as_Event :: string
  as_Match :: "(string \<times> string) list"
  as_CaseID :: string
  as_Timeout :: duration

definition new_wait :: "run_env \<Rightarrow> string \<Rightarrow> await_spec \<Rightarrow> kit_state \<Rightarrow> Waiter" where
  "new_wait en i spec s = \<lparr>wt_ID = kw_uuid (re_world en) (ks_hist s), wt_ExecutionID = re_exec en, wt_Loop = re_loop en, wt_Step = i,
     wt_CaseID = as_CaseID spec, wt_EventKind = as_Event spec, wt_MatchJSON = re_marshal en (as_Match spec),
     wt_ExpiresAt = (if as_Timeout spec > 0 then Some (kw_now (re_world en) (ks_hist s) + as_Timeout spec) else None),
     wt_CreatedAt = 0, wt_ResolvedAt = None, wt_ResultJSON = ''''\<rparr>"

definition kit_Await :: "run_env \<Rightarrow> string \<Rightarrow> await_spec \<Rightarrow> json act" where
  "kit_Await en i spec s0 =
     (let s = asked i s0; w = re_world en
      in if re_exec en = '''' then (Inl (Fail [Str ''await needs a durable execution; this run has none'']), s)
         else if as_Event spec = '''' then (Inl (Fail [Str ''await needs an event kind'']), s)
         else case WaiterResult (kw_read w (ks_hist s) i) (re_exec en) i (ks_waiters s) of
             Inl m \<Rightarrow> (Inl (KitFail m), s)
           | Inr (Some res) \<Rightarrow>
               (case (if res = '''' then Some [] else re_dec en res) of
                  None \<Rightarrow> (Inl (Fail [Str ''await result was not readable'']), s)
                | Some out \<Rightarrow> (if row_of fst ''timeout'' out = Some (''timeout'', JBool True)
                     then (Inl (Fail [Str ''await '', Quoted (as_Event spec), Str '' timed out'']), s) else (Inr (JObj out), s)))
           | Inr None \<Rightarrow>
               (case ArmWaiter (kw_write w (ks_hist s) i) (kw_uuid w (ks_hist s)) (kw_now w (ks_hist s)) (new_wait en i spec s) (ks_waiters s) of
                  (Some m, ws) \<Rightarrow> (Inl (KitFail m), s\<lparr>ks_waiters := ws\<rparr>)
                | (None, ws) \<Rightarrow> (Inl (Suspended (as_Event spec)), s\<lparr>ks_waiters := ws\<rparr>)))"

definition kit_Sleep :: "run_env \<Rightarrow> string \<Rightarrow> duration \<Rightarrow> string act" where
  "kit_Sleep en i d s =
     (if d \<le> 0 then (Inr '''', s)
      else if d \<ge> loopRunTimeout then (Inl (Fail [Str ''sleep: '', DurText d, Str '' is longer than a run can live'']), s)
      else call_unit en i (CSleep d) s)"

section \<open>Texts\<close>

definition render :: "run_env \<Rightarrow> string \<Rightarrow> bindings \<Rightarrow> rerr + string" where
  "render en x b = (if \<not> Contains x ''{{'' then Inr x else (case re_expand en x b of Inl m \<Rightarrow> Inl (Fail m) | Inr y \<Rightarrow> Inr y))"

definition truthy :: "run_env \<Rightarrow> string \<Rightarrow> bindings \<Rightarrow> rerr + bool" where
  "truthy en x b = (case render en x b of Inl e \<Rightarrow> Inl e
     | Inr y \<Rightarrow> Inr (TrimSpace (ToLower y) \<notin> set ['''', ''false'', ''0'', ''no'', ''off'', ''<no value>'', ''null'', ''nil'', ''[]'', ''{}'']))"

definition intArg :: "string \<Rightarrow> int \<Rightarrow> int" where
  "intArg x def = (case Atoi (TrimSpace x) of None \<Rightarrow> def | Some n \<Rightarrow> if n > 0 then n else def)"

definition boolArg :: "string \<Rightarrow> bool \<Rightarrow> bool" where
  "boolArg x def = (let y = ToLower (TrimSpace x) in if y \<in> set [''true'', ''1'', ''yes'', ''on''] then True
     else if y \<in> set [''false'', ''0'', ''no'', ''off''] then False else def)"

definition duration_of :: "run_env \<Rightarrow> Step \<Rightarrow> bindings \<Rightarrow> rerr + duration" where
  "duration_of en s b =
     (case render en (if sp_Text s = '''' then arg_of s ''for'' else sp_Text s) b of Inl e \<Rightarrow> Inl e
      | Inr y \<Rightarrow> (case re_duration en (TrimSpace y) of
            None \<Rightarrow> Inl (Fail [Quoted y, Str '' is not a duration (try 30m, 6h, 72h)'']) | Some d \<Rightarrow> Inr d))"

definition renderDuration :: "run_env \<Rightarrow> string \<Rightarrow> string \<Rightarrow> bindings \<Rightarrow> rerr + duration" where
  "renderDuration en field raw b =
     (case render en raw b of Inl e \<Rightarrow> Inl e
      | Inr y \<Rightarrow> if TrimSpace y = '''' then Inr 0
          else (case re_duration en (TrimSpace y) of
            None \<Rightarrow> Inl (Fail [Quoted (TrimSpace y), Str '' is not a duration for '', Quoted field]) | Some d \<Rightarrow> Inr d))"

fun render_fields :: "run_env \<Rightarrow> bindings \<Rightarrow> (string \<times> string) list \<Rightarrow> rerr + (string \<times> string) list" where
  "render_fields en b [] = Inr []"
| "render_fields en b ((k, v) # kvs) =
     (case render en v b of Inl e \<Rightarrow> Inl e | Inr y \<Rightarrow> map_sum id (\<lambda>out. (k, y) # out) (render_fields en b kvs))"

definition awaitSpec :: "run_env \<Rightarrow> Step \<Rightarrow> bindings \<Rightarrow> rerr + await_spec" where
  "awaitSpec en s b =
     (case render en (arg_of s ''event'') b of Inl e \<Rightarrow> Inl e
      | Inr ev \<Rightarrow> (case render en (arg_of s ''case'') b of Inl e \<Rightarrow> Inl e
         | Inr c \<Rightarrow> (case render_fields en b (sp_Match s) of Inl e \<Rightarrow> Inl e
            | Inr m \<Rightarrow> (case renderDuration en ''timeout'' (arg_of s ''timeout'') b of Inl e \<Rightarrow> Inl e
               | Inr d \<Rightarrow> Inr \<lparr>as_Event = ev, as_Match = m, as_CaseID = c, as_Timeout = d\<rparr>))))"

fun render_all :: "run_env \<Rightarrow> bindings \<Rightarrow> string list \<Rightarrow> rerr + string list" where
  "render_all en b [] = Inr []"
| "render_all en b (x # xs) = (case render en x b of Inl e \<Rightarrow> Inl e | Inr y \<Rightarrow> map_sum id (\<lambda>ys. y # ys) (render_all en b xs))"

definition foreachItems :: "run_env \<Rightarrow> Step \<Rightarrow> bindings \<Rightarrow> rerr + string list" where
  "foreachItems en s b =
     (if sp_In s \<noteq> [] then render_all en b (sp_In s)
      else case render en (arg_of s ''in'') b of Inl e \<Rightarrow> Inl e
         | Inr y \<Rightarrow> (let raw = TrimSpace y
             in if raw = '''' \<or> raw = ''<no value>'' then Inr []
                else case re_strings en raw of Some items \<Rightarrow> Inr items
                   | None \<Rightarrow> (case re_anys en raw of Some items \<Rightarrow> Inr items
                       | None \<Rightarrow> Inl (Fail [Quoted raw, Str '' is not a JSON list'']))))"

definition caseBinding :: "kit_case \<Rightarrow> json" where
  "caseBinding c = JObj [(''id'', JStr (kc_ID c)), (''key'', JStr (kc_Key c)), (''agent'', JStr (kc_Agent c)), (''title'', JStr (kc_Title c)),
     (''state'', JStr (kc_State c)), (''namespace'', JStr (kc_Namespace c)), (''thread_channel'', JStr (kc_ThreadChannel c)),
     (''thread_ts'', JStr (kc_ThreadTS c))]"

section \<open>One step\<close>

definition got :: "rerr + 'a \<Rightarrow> ('a \<Rightarrow> 'b act) \<Rightarrow> 'b act" where
  "got r f s = (case r of Inl e \<Rightarrow> (Inl e, s) | Inr x \<Rightarrow> f x s)"

definition result_as :: "('a \<Rightarrow> json) \<Rightarrow> 'a act \<Rightarrow> json act" where
  "result_as f m s = (case m s of (Inl e, s') \<Rightarrow> (Inl e, s') | (Inr x, s') \<Rightarrow> (Inr (f x), s'))"

definition arg :: "run_env \<Rightarrow> bindings \<Rightarrow> Step \<Rightarrow> string \<Rightarrow> rerr + string" where
  "arg en b s key = render en (arg_of s key) b"

definition text_r :: "run_env \<Rightarrow> bindings \<Rightarrow> Step \<Rightarrow> rerr + string" where
  "text_r en b s = (if sp_Text s \<noteq> '''' then render en (sp_Text s) b else arg en b s ''text'')"

text \<open>A checkpointed call whose text is the step's value, and one whose value is nothing.\<close>

definition step_text :: "run_env \<Rightarrow> string \<Rightarrow> call \<Rightarrow> json act" where
  "step_text en i c = result_as JStr (kit_Step en i (call_text en i c))"

definition once :: "run_env \<Rightarrow> string \<Rightarrow> call \<Rightarrow> json act" where
  "once en i c = result_as (\<lambda>_. JNull) (kit_Step en i (call_unit en i c))"

definition run_ask :: "run_env \<Rightarrow> bindings \<Rightarrow> Step \<Rightarrow> string \<Rightarrow> json act" where
  "run_ask en b s i = got (text_r en b s) (\<lambda>p. step_text en i (CAsk p))"

definition run_observe :: "run_env \<Rightarrow> bindings \<Rightarrow> Step \<Rightarrow> string \<Rightarrow> json act" where
  "run_observe en b s i = got (text_r en b s) (\<lambda>p. step_text en i (CObserve p))"

definition run_harness :: "run_env \<Rightarrow> bindings \<Rightarrow> Step \<Rightarrow> string \<Rightarrow> json act" where
  "run_harness en b s i =
     got (text_r en b s) (\<lambda>p. got (arg en b s ''session_id'') (\<lambda>sid. got (arg en b s ''working_dir'') (\<lambda>wd.
       got (arg en b s ''ephemeral'') (\<lambda>eph.
         if sid = '''' \<and> wd = '''' then step_text en i (CHarness p) else step_text en i (CHarnessWith p sid wd (boolArg eph True))))))"

definition run_harness_forget :: "run_env \<Rightarrow> bindings \<Rightarrow> Step \<Rightarrow> string \<Rightarrow> json act" where
  "run_harness_forget en b s i =
     got (arg en b s ''session_id'') (\<lambda>sid. got (arg en b s ''working_dir'') (\<lambda>wd. once en i (CHarnessForget sid wd)))"

definition run_gateway :: "run_env \<Rightarrow> bindings \<Rightarrow> Step \<Rightarrow> string \<Rightarrow> json act" where
  "run_gateway en b s i = got (text_r en b s) (\<lambda>p. step_text en i (CGateway p))"

definition run_recall :: "run_env \<Rightarrow> bindings \<Rightarrow> Step \<Rightarrow> string \<Rightarrow> json act" where
  "run_recall en b s i = got (text_r en b s) (\<lambda>q.
     result_as JStr (kit_Step en i (call_lines en i (CRecall q (intArg (arg_of s ''limit'') 5)))))"

definition run_remember :: "run_env \<Rightarrow> bindings \<Rightarrow> Step \<Rightarrow> string \<Rightarrow> json act" where
  "run_remember en b s i = got (arg en b s ''fact'') (\<lambda>fact. once en i (CRemember fact))"

definition run_notify :: "run_env \<Rightarrow> bindings \<Rightarrow> Step \<Rightarrow> string \<Rightarrow> json act" where
  "run_notify en b s i = got (arg en b s ''title'') (\<lambda>title. got (arg en b s ''body'') (\<lambda>body. once en i (CNotify title body)))"

definition run_propose :: "run_env \<Rightarrow> bindings \<Rightarrow> Step \<Rightarrow> string \<Rightarrow> json act" where
  "run_propose en b s i =
     got (arg en b s ''title'') (\<lambda>title. got (arg en b s ''summary'') (\<lambda>summary. got (arg en b s ''action'') (\<lambda>action.
       got (arg en b s ''to_role'') (\<lambda>role.
         if role \<noteq> '''' then once en i (CProposeTo role title summary action) else once en i (CPropose title summary action)))))"

definition run_remind :: "run_env \<Rightarrow> bindings \<Rightarrow> Step \<Rightarrow> string \<Rightarrow> json act" where
  "run_remind en b s i =
     got (arg en b s ''title'') (\<lambda>title. got (arg en b s ''due'') (\<lambda>due_at. got (arg en b s ''notes'') (\<lambda>notes.
       once en i (CRemind title due_at notes))))"

definition run_send :: "run_env \<Rightarrow> bindings \<Rightarrow> Step \<Rightarrow> string \<Rightarrow> json act" where
  "run_send en b s i =
     got (arg en b s ''to'') (\<lambda>to. got (text_r en b s) (\<lambda>body. got (arg en b s ''channel'') (\<lambda>channel. got (arg en b s ''thread'') (\<lambda>thread.
       if channel = '''' \<and> thread = '''' then once en i (CSendWhatsApp to body)
       else once en i (CSendTo (if channel = '''' then to else channel) thread body)))))"

fun http_headers :: "run_env \<Rightarrow> bindings \<Rightarrow> (string \<times> string) list \<Rightarrow> (string \<times> string) list \<Rightarrow> rerr + (string \<times> string) list" where
  "http_headers en b [] hs = Inr hs"
| "http_headers en b ((key, v) # kvs) hs =
     (if HasPrefix key ''header.'' then (case render en v b of Inl e \<Rightarrow> Inl e
        | Inr y \<Rightarrow> http_headers en b kvs (obj_set (TrimPrefix key ''header.'') y hs))
      else http_headers en b kvs hs)"

definition args_list :: "Step \<Rightarrow> (string \<times> string) list" where
  "args_list s = (case sp_Args s of None \<Rightarrow> [] | Some m \<Rightarrow> m)"

definition http_result :: "string \<Rightarrow> string \<Rightarrow> string \<times> int \<Rightarrow> rerr + string" where
  "http_result meth url res = (if snd res < 200 \<or> snd res > 299
     then Inl (Fail [Str meth, Str '' '', Str url, Str '' answered '', Num (snd res)]) else Inr (fst res))"

definition run_http :: "run_env \<Rightarrow> bindings \<Rightarrow> Step \<Rightarrow> string \<Rightarrow> json act" where
  "run_http en b s i =
     (let meth = (if ToUpper (arg_of s ''method'') = '''' then ''GET'' else ToUpper (arg_of s ''method''))
      in got (arg en b s ''url'') (\<lambda>url. got (arg en b s ''body'') (\<lambda>body. got (http_headers en b (args_list s) []) (\<lambda>hs.
           result_as JStr (kit_Step en i (call_as (kw_http (re_world en)) (http_result meth url) i (CHTTP meth url hs body)))))))"

definition run_tool :: "run_env \<Rightarrow> bindings \<Rightarrow> Step \<Rightarrow> string \<Rightarrow> json act" where
  "run_tool en b s i =
     got (arg en b s ''name'') (\<lambda>name. got (render_fields en b (filter (\<lambda>kv. fst kv \<noteq> ''name'') (args_list s))) (\<lambda>input.
       step_text en i (CAsk (''Call the tool '' @ re_quote en name @ '' with exactly this input and reply with only its result:'' @ newline @
         re_marshal en input))))"

definition run_sleep :: "run_env \<Rightarrow> string \<Rightarrow> bindings \<Rightarrow> Step \<Rightarrow> string \<Rightarrow> json act" where
  "run_sleep en recipe b s i =
     got (duration_of en s b) (\<lambda>d.
       if d < minute then result_as (\<lambda>_. JNull) (kit_Sleep en i d)
       else once en i (CAfter (''recipe-'' @ recipe @ ''-'' @ i) d [(''recipe'', JStr recipe), (''resumed_from'', JStr i)]))"

definition run_log :: "run_env \<Rightarrow> bindings \<Rightarrow> Step \<Rightarrow> string \<Rightarrow> json act" where
  "run_log en b s i = got (text_r en b s) (\<lambda>msg st. (Inr JNull, noted i (CLogf msg) True st))"

definition run_case_open :: "run_env \<Rightarrow> bindings \<Rightarrow> Step \<Rightarrow> string \<Rightarrow> json act" where
  "run_case_open en b s i =
     got (arg en b s ''key'') (\<lambda>key. got (arg en b s ''title'') (\<lambda>title.
       got (if arg_of s ''agent'' \<noteq> '''' then arg en b s ''agent'' else Inr '''') (\<lambda>agent.
         result_as caseBinding (call_as (kw_case (re_world en)) Inr i (CCaseOpen agent key title)))))"

definition run_case_get :: "run_env \<Rightarrow> bindings \<Rightarrow> Step \<Rightarrow> string \<Rightarrow> json act" where
  "run_case_get en b s i = got (arg en b s ''key'') (\<lambda>key. result_as caseBinding (call_as (kw_case (re_world en)) Inr i (CCaseGet key)))"

definition run_case_history :: "run_env \<Rightarrow> bindings \<Rightarrow> Step \<Rightarrow> string \<Rightarrow> json act" where
  "run_case_history en b s i = got (arg en b s ''case'') (\<lambda>c.
     result_as JStr (call_lines en i (CCaseHistory c (intArg (arg_of s ''limit'') 40))))"

definition run_case_say :: "run_env \<Rightarrow> bindings \<Rightarrow> Step \<Rightarrow> string \<Rightarrow> json act" where
  "run_case_say en b s i =
     got (arg en b s ''case'') (\<lambda>c. got (arg en b s ''channel'') (\<lambda>channel. got (text_r en b s) (\<lambda>body. once en i (CCaseSay c channel body))))"

definition run_case_state :: "run_env \<Rightarrow> bindings \<Rightarrow> Step \<Rightarrow> string \<Rightarrow> json act" where
  "run_case_state en b s i =
     got (arg en b s ''case'') (\<lambda>c. got (arg en b s ''state'') (\<lambda>state. result_as (\<lambda>_. JNull) (call_unit en i (CCaseSetState c state))))"

definition run_case_log :: "run_env \<Rightarrow> bindings \<Rightarrow> Step \<Rightarrow> string \<Rightarrow> json act" where
  "run_case_log en b s i =
     got (arg en b s ''case'') (\<lambda>c. got (arg en b s ''kind'') (\<lambda>kind. got (arg en b s ''payload'') (\<lambda>payload. once en i (CCaseLog c kind payload))))"

definition run_await :: "run_env \<Rightarrow> bindings \<Rightarrow> Step \<Rightarrow> string \<Rightarrow> json act" where
  "run_await en b s i = got (awaitSpec en s b) (kit_Await en i)"

text \<open>Every verb but \<open>foreach\<close>, whose body is a run of its own.\<close>

definition run_verb :: "run_env \<Rightarrow> string \<Rightarrow> bindings \<Rightarrow> Step \<Rightarrow> string \<Rightarrow> json act" where
  "run_verb en recipe b s i =
     (let v = sp_Verb s
      in if v = VerbAsk then run_ask en b s i else if v = VerbObserve then run_observe en b s i
         else if v = VerbHarness then run_harness en b s i else if v = VerbHarnessForget then run_harness_forget en b s i
         else if v = VerbGateway then run_gateway en b s i else if v = VerbRecall then run_recall en b s i
         else if v = VerbRemember then run_remember en b s i else if v = VerbNotify then run_notify en b s i
         else if v = VerbPropose then run_propose en b s i else if v = VerbRemind then run_remind en b s i
         else if v = VerbSend then run_send en b s i else if v = VerbHTTP then run_http en b s i
         else if v = VerbTool then run_tool en b s i else if v = VerbSleep then run_sleep en recipe b s i
         else if v = VerbLog then run_log en b s i else if v = VerbCaseOpen then run_case_open en b s i
         else if v = VerbCaseGet then run_case_get en b s i else if v = VerbCaseHistory then run_case_history en b s i
         else if v = VerbCaseSay then run_case_say en b s i else if v = VerbCaseState then run_case_state en b s i
         else if v = VerbCaseLog then run_case_log en b s i else if v = VerbAwait then run_await en b s i
         else (\<lambda>st. (Inl (Fail [Str ''unknown verb '', Quoted v]), st)))"

section \<open>The run\<close>

definition step_id :: "string \<Rightarrow> nat \<Rightarrow> Step \<Rightarrow> string" where
  "step_id prefix i s = prefix @ show_nat i @ ''-'' @ sp_Verb s"

definition else_prefix :: "string \<Rightarrow> string" where
  "else_prefix i = i @ ''-else-''"

definition item_prefix :: "string \<Rightarrow> nat \<Rightarrow> string" where
  "item_prefix i k = i @ ''-'' @ show_nat k @ ''-''"

lemma step_size_less: "size_list size (sp_Else s) < size s" "size_list size (sp_Steps s) < size s"
  using step_size [of s] by simp_all

text \<open>The steps of a list from the \<open>i\<close>-th on, and the iterations of a \<open>foreach\<close> from the \<open>k\<close>-th on. An
  \<open>else\<close> binds in the bindings of its step; an iteration binds in a copy.\<close>

function runSteps :: "run_env \<Rightarrow> Recipe \<Rightarrow> string \<Rightarrow> nat \<Rightarrow> Step list \<Rightarrow> bindings \<Rightarrow> bindings act"
  and runForeach :: "run_env \<Rightarrow> Recipe \<Rightarrow> string \<Rightarrow> nat \<Rightarrow> Step \<Rightarrow> string list \<Rightarrow> bindings \<Rightarrow> json act" where
  "runSteps en r prefix i [] b st = (Inr b, st)"
| "runSteps en r prefix i (s # rest) b st =
     (case (if sp_When s = '''' then Inr True else truthy en (sp_When s) b) of
        Inl e \<Rightarrow> (Inl (Located (rc_Path r) (sp_Line s) '''' e), st)
      | Inr False \<Rightarrow>
          (if sp_Else s = [] then runSteps en r prefix (i + 1) rest b st
           else case runSteps en r (else_prefix (step_id prefix i s)) 0 (sp_Else s) b st of
               (Inl e, st') \<Rightarrow> (Inl e, st')
             | (Inr b', st') \<Rightarrow> runSteps en r prefix (i + 1) rest b' st')
      | Inr True \<Rightarrow>
          (case (if sp_Verb s = VerbForeach
                 then (case foreachItems en s b of Inl e \<Rightarrow> (Inl e, st) | Inr items \<Rightarrow> runForeach en r (step_id prefix i s) 0 s items b st)
                 else run_verb en (rc_Name r) b s (step_id prefix i s) st) of
             (Inl e, st') \<Rightarrow> (Inl (Located (rc_Path r) (sp_Line s) (sp_Verb s) e), st')
           | (Inr out, st') \<Rightarrow> runSteps en r prefix (i + 1) rest (if sp_As s = '''' then b else obj_set (sp_As s) out b) st'))"
| "runForeach en r i k s [] b st = (Inr JNull, st)"
| "runForeach en r i k s (item # items) b st =
     (case runSteps en r (item_prefix i k) 0 (sp_Steps s) (obj_set (arg_of s ''as'') (JStr item) b) st of
        (Inl e, st') \<Rightarrow> (Inl e, st')
      | (Inr _, st') \<Rightarrow> runForeach en r i (k + 1) s items b st')"
  by pat_completeness auto

termination
proof (relation "measures [\<lambda>x. case x of Inl (en, r, p, i, ss, b, st) \<Rightarrow> size_list size ss | Inr (en, r, i, k, s, items, b, st) \<Rightarrow> size s,
    \<lambda>x. case x of Inl _ \<Rightarrow> 0 | Inr (en, r, i, k, s, items, b, st) \<Rightarrow> length items]", goal_cases)
qed (use step_size_less step_size_args in auto)

text \<open>The bindings a run starts with: the trigger, the clock as text, and the trigger's fields on top.\<close>

definition start_bindings :: "string \<Rightarrow> string \<Rightarrow> LoopkitTrigger \<Rightarrow> bindings" where
  "start_bindings now today t = fold (\<lambda>kv b. obj_set (fst kv) (snd kv) b) (tg_Payload t)
     [(''trigger'', JStr (tg_Kind t)), (''payload'', JObj (tg_Payload t)), (''now'', JStr now), (''today'', JStr today)]"

definition Run :: "run_env \<Rightarrow> string \<Rightarrow> string \<Rightarrow> LoopkitTrigger \<Rightarrow> Recipe \<Rightarrow> kit_state \<Rightarrow> rerr option \<times> kit_state" where
  "Run en now today t r st =
     (case runSteps en r '''' 0 (rc_Steps r) (start_bindings now today t) st of
        (Inl e, st') \<Rightarrow> (Some e, st') | (Inr _, st') \<Rightarrow> (None, st'))"

end
