(* ===== verification/Recipe_Run_Props.thy ===== *)
theory Recipe_Run_Props
  imports Recipe_Run Recipe_Props
begin

text \<open>
  What a run of a recipe (\<^verbatim>\<open>internal/recipes/run.go\<close>) does with its checkpoints: no effect twice
  however often it is retried, no two steps on one checkpoint, and what parks it.
\<close>

section \<open>What every part of a run does\<close>

text \<open>Every outcome of an action stands in a relation to the state it started in.\<close>

definition moves :: "(kit_state \<Rightarrow> kit_state \<Rightarrow> bool) \<Rightarrow> 'a act \<Rightarrow> bool" where
  "moves R m \<longleftrightarrow> (\<forall>s. R s (snd (m s)))"

lemma movesD: "moves R m \<Longrightarrow> R s (snd (m s))"
  by (simp add: moves_def)

named_theorems run_intros \<open>the parts of a run stay in a relation\<close>

lemma moves_got [run_intros]: "(\<And>s. R s s) \<Longrightarrow> (\<And>x. moves R (f x)) \<Longrightarrow> moves R (got r f)"
  by (auto simp: moves_def got_def split: sum.split)

lemma moves_result_as [run_intros]: "moves R m \<Longrightarrow> moves R (result_as f m)"
proof (unfold moves_def, intro allI)
  fix s assume "\<forall>s. R s (snd (m s))"
  then have "R s (snd (m s))" by blast
  then show "R s (snd (result_as f m s))" by (cases "m s"; cases "fst (m s)") (auto simp: result_as_def)
qed

lemma moves_if [run_intros]: "moves R m \<Longrightarrow> moves R m' \<Longrightarrow> moves R (if c then m else m')"
  by simp

lemma moves_fail [run_intros]: "(\<And>s. R s s) \<Longrightarrow> moves R (\<lambda>st. (Inl e, st))"
  by (simp add: moves_def)

lemmas run_verb_defs = run_ask_def run_observe_def run_harness_def run_harness_forget_def run_gateway_def run_recall_def run_remember_def
  run_notify_def run_propose_def run_remind_def run_send_def run_http_def run_tool_def run_sleep_def run_log_def run_case_open_def
  run_case_get_def run_case_history_def run_case_say_def run_case_state_def run_case_log_def run_await_def step_text_def once_def

text \<open>
  The calls a run makes under a checkpoint and those it makes without one.
\<close>

definition checkpointed :: "call \<Rightarrow> bool" where
  "checkpointed c = (case c of CLogf _ \<Rightarrow> False | CSleep _ \<Rightarrow> False | CCaseOpen _ _ _ \<Rightarrow> False | CCaseGet _ \<Rightarrow> False
     | CCaseHistory _ _ \<Rightarrow> False | CCaseSetState _ _ \<Rightarrow> False | _ \<Rightarrow> True)"

text \<open>An action that makes one call for a step, and records it with its outcome.\<close>

definition calls :: "string \<Rightarrow> call \<Rightarrow> 'a act \<Rightarrow> bool" where
  "calls i c m \<longleftrightarrow> (\<forall>s. (\<exists>y. m s = (Inr y, noted i c True s)) \<or> (\<exists>e. m s = (Inl e, noted i c False s)))"

lemma calls_call_as [run_intros]: "calls i c (call_as ask check i c)"
  by (auto simp: calls_def call_as_def split: sum.split)

lemma calls_snd: "calls i c m \<Longrightarrow> \<exists>ok. snd (m s) = noted i c ok s"
  by (metis calls_def snd_conv)

lemma moves_run_verb:
  assumes refl: "\<And>s. R s s"
    and step: "\<And>c m. checkpointed c \<Longrightarrow> calls i c m \<Longrightarrow> moves R (kit_Step en i m)"
    and plain: "\<And>c ok s. \<not> checkpointed c \<Longrightarrow> R s (noted i c ok s)"
    and wait: "\<And>spec. moves R (kit_Await en i spec)"
  shows "moves R (run_verb en recipe b s i)"
proof -
  have pl: "moves R m" if "\<not> checkpointed c" "calls i c m" for c and m :: "'a act"
    using that plain calls_snd [OF that(2)] by (metis moves_def)
  have lg: "moves R (\<lambda>st. (Inr JNull, noted i (CLogf x) True st))" for x
    using plain by (simp add: moves_def checkpointed_def)
  have sl: "moves R (kit_Sleep en i d)" for d
  proof -
    have "moves R (call_unit en i (CSleep d))" unfolding call_unit_def
      by (rule pl [OF _ calls_call_as]) (simp add: checkpointed_def)
    then show ?thesis by (auto simp: kit_Sleep_def moves_def refl)
  qed
  show ?thesis
    unfolding run_verb_def Let_def run_verb_defs call_text_def call_unit_def call_lines_def
    by (intro run_intros sl lg wait step pl; (rule calls_call_as)?; simp add: checkpointed_def refl)
qed

lemma run_verb_unknown: "\<not> isVerb (sp_Verb s) \<Longrightarrow> run_verb en recipe b s i st = (Inl (Fail [Str ''unknown verb '', Quoted (sp_Verb s)]), st)"
  by (simp add: run_verb_def isVerb_def verbs_def Let_def)

text \<open>
  What the steps of a list do from the \<open>i\<close>-th on, and the iterations of a \<open>foreach\<close> from the \<open>k\<close>-th on,
  follows from what each step does.
\<close>

locale run_parts =
  fixes ok :: "run_env \<Rightarrow> bool"
    and Rs :: "string \<Rightarrow> nat \<Rightarrow> kit_state \<Rightarrow> kit_state \<Rightarrow> bool"
    and Rf :: "string \<Rightarrow> nat \<Rightarrow> kit_state \<Rightarrow> kit_state \<Rightarrow> bool"
  assumes steps_refl: "Rs p i st st" and items_refl: "Rf x k st st"
    and verb_then: "ok en \<Longrightarrow> Rs p (Suc i) (snd (run_verb en name b s (step_id p i s) st)) st' \<Longrightarrow> Rs p i st st'"
    and else_then: "Rs (else_prefix (step_id p i s)) 0 st t \<Longrightarrow> Rs p (Suc i) t st' \<Longrightarrow> Rs p i st st'"
    and each_then: "Rf (step_id p i s) 0 st t \<Longrightarrow> Rs p (Suc i) t st' \<Longrightarrow> Rs p i st st'"
    and item_then: "Rs (item_prefix x k) 0 st t \<Longrightarrow> Rf x (Suc k) t st' \<Longrightarrow> Rf x k st st'"
begin

lemma skip: "Rs p (Suc i) st st' \<Longrightarrow> Rs p i st st'"
  using else_then [OF steps_refl] .

lemma run:
  "ok en \<Longrightarrow> Rs prefix i st (snd (runSteps en r prefix i ss b st))"
  "ok en \<Longrightarrow> Rf j k st (snd (runForeach en r j k s items b st))"
proof (induction en r prefix i ss b st and en r j k s items b st rule: runSteps_runForeach.induct)
  case (2 en r prefix i s rest b st)
  let ?c = "if sp_When s = '''' then Inr True else truthy en (sp_When s) b"
  consider e where "?c = Inl e" | "?c = Inr False" | "?c = Inr True"
    by (metis (full_types) sum.exhaust)
  then show ?case
  proof cases
    case 1
    then show ?thesis by (simp add: steps_refl)
  next
    case f: 2
    show ?thesis
    proof (cases "sp_Else s = []")
      case True
      then show ?thesis using skip "2.IH"(3) [OF f refl True "2.prems"] f by simp
    next
      case False
      obtain res st' where e: "runSteps en r (else_prefix (step_id prefix i s)) 0 (sp_Else s) b st = (res, st')" by fastforce
      have "Rs (else_prefix (step_id prefix i s)) 0 st st'" using "2.IH"(4) [OF f refl False "2.prems"] e by simp
      from else_then [OF this] show ?thesis using "2.IH"(5) [OF f refl False e [symmetric] _ "2.prems"] f False e steps_refl
        by (auto split: sum.split)
    qed
  next
    case t: 3
    let ?m = "if sp_Verb s = VerbForeach
         then (case foreachItems en s b of Inl e \<Rightarrow> (Inl e, st) | Inr items \<Rightarrow> runForeach en r (step_id prefix i s) 0 s items b st)
         else run_verb en (rc_Name r) b s (step_id prefix i s) st"
    obtain res st' where e: "?m = (res, st')" by fastforce
    have *: "Rs prefix (Suc i) st' u \<Longrightarrow> Rs prefix i st u" for u
    proof (cases "sp_Verb s = VerbForeach")
      case True
      have "Rf (step_id prefix i s) 0 st (snd ?m)" using "2.IH"(1) [OF t refl True _ "2.prems"] True items_refl by (auto split: sum.split)
      then show "Rs prefix (Suc i) st' u \<Longrightarrow> Rs prefix i st u" using each_then e by simp
    next
      case False
      then show "Rs prefix (Suc i) st' u \<Longrightarrow> Rs prefix i st u" using verb_then [OF "2.prems"] e by (metis snd_conv)
    qed
    show ?thesis using "2.IH"(2) [OF t refl e [symmetric] _ "2.prems"] t e * steps_refl
      by (simp only: runSteps.simps) (auto split: sum.split)
  qed
next
  case (4 en r i k s item items b st)
  obtain res st' where e: "runSteps en r (item_prefix i k) 0 (sp_Steps s) (obj_set (arg_of s ''as'') (JStr item) b) st = (res, st')"
    by fastforce
  have "Rs (item_prefix i k) 0 st st'" using "4.IH"(1) [OF "4.prems"] e by simp
  from item_then [OF this] show ?case using "4.IH"(2) [OF e [symmetric] _ "4.prems"] e items_refl by (auto split: sum.split)
qed (simp_all add: steps_refl items_refl)

end

section \<open>No effect twice\<close>

text \<open>A store that answers, for an attempt at an execution.\<close>

definition reliable :: "string \<Rightarrow> run_env \<Rightarrow> bool" where
  "reliable ex en \<longleftrightarrow> ex \<noteq> '''' \<and> re_exec en = ex \<and>
     kw_read (re_world en) = (\<lambda>h n. None) \<and> kw_write (re_world en) = (\<lambda>h n. None)"

text \<open>The calls under a checkpoint that succeeded, for the step of a name.\<close>

definition successes :: "string \<Rightarrow> event list \<Rightarrow> nat" where
  "successes n h = length (filter (\<lambda>e. TrimSpace (ev_step e) = n \<and> ev_ok e \<and> checkpointed (ev_call e)) h)"

definition once_each :: "string \<Rightarrow> kit_state \<Rightarrow> bool" where
  "once_each ex st \<longleftrightarrow> (\<forall>n. successes n (ks_hist st) \<le>
     (if row_of step_key (ex, n) (step_rows (ks_db st)) = None then 0 else 1))"

lemma successes_noted: "successes n (ks_hist (noted i c ok s)) =
    successes n (ks_hist s) + (if TrimSpace i = n \<and> ok \<and> checkpointed c then 1 else 0)"
  by (simp add: successes_def noted_def)

lemma kit_state_parts [simp]:
  "ks_db (noted i c ok s) = ks_db s" "ks_db (asked n s) = ks_db s" "ks_hist (asked n s) = ks_hist s"
  "ks_asked (noted i c ok s) = ks_asked s" "ks_asked (asked n s) = ks_asked s @ [n]"
  "ks_waiters (noted i c ok s) = ks_waiters s" "ks_waiters (asked n s) = ks_waiters s"
  by (simp_all add: noted_def asked_def)

lemma once_each_Step:
  assumes "reliable ex en" "calls i c m"
  shows "moves (\<lambda>s t. once_each ex s \<longrightarrow> once_each ex t) (kit_Step en i m)"
proof (unfold moves_def, intro allI impI)
  fix s assume s: "once_each ex s"
  from assms(1) have ex: "ex \<noteq> ''''" "re_exec en = ex" "\<And>h n. kw_read (re_world en) h n = None" "\<And>h n. kw_write (re_world en) h n = None"
    by (simp_all add: reliable_def)
  have a: "once_each ex (asked n s)" for n using s by (simp add: once_each_def asked_def)
  show "once_each ex (snd (kit_Step en i m s))"
  proof (cases "row_of step_key (ex, TrimSpace i) (step_rows (ks_db s))")
    case (Some r)
    then show ?thesis using a by (simp add: kit_Step_def Let_def ex LoopStep_def asked_def)
  next
    case None
    have z: "successes (TrimSpace i) (ks_hist s) = 0" using s None by (auto simp: once_each_def elim: allE [of _ "TrimSpace i"])
    show ?thesis
    proof (cases "TrimSpace i = ''''")
      case True
      then show ?thesis using a by (simp add: kit_Step_def Let_def)
    next
      case False
      from assms(2) [unfolded calls_def, rule_format, of "asked (TrimSpace i) s"] show ?thesis
      proof (elim disjE exE)
        fix y assume m: "m (asked (TrimSpace i) s) = (Inr y, noted i c True (asked (TrimSpace i) s))"
        show ?thesis unfolding once_each_def
        proof
          fix n show "successes n (ks_hist (snd (kit_Step en i m s))) \<le>
              (if row_of step_key (ex, n) (step_rows (ks_db (snd (kit_Step en i m s)))) = None then 0 else 1)"
            using s [unfolded once_each_def, rule_format, of n] False None z m
            by (cases "n = TrimSpace i") (simp_all add: kit_Step_def Let_def ex LoopStep_def row_SaveLoopStep successes_noted)
        qed
      qed (use s False None in \<open>simp add: kit_Step_def Let_def ex LoopStep_def once_each_def successes_noted\<close>)
    qed
  qed
qed

lemma once_each_Await: "moves (\<lambda>s t. once_each ex s \<longrightarrow> once_each ex t) (kit_Await en i spec)"
  by (auto simp: moves_def kit_Await_def Let_def asked_def once_each_def split: sum.splits option.splits prod.splits)

interpretation effects: run_parts "reliable ex" "\<lambda>p i s t. once_each ex s \<longrightarrow> once_each ex t"
  "\<lambda>x k s t. once_each ex s \<longrightarrow> once_each ex t" for ex
proof unfold_locales
  fix p i en name b s st st'
  assume en: "reliable ex en" and *: "once_each ex (snd (run_verb en name b s (step_id p i s) st)) \<longrightarrow> once_each ex st'"
  have "moves (\<lambda>s t. once_each ex s \<longrightarrow> once_each ex t) (run_verb en name b s (step_id p i s))"
    by (rule moves_run_verb) (use en once_each_Step once_each_Await in \<open>auto simp: once_each_def successes_noted\<close>)
  from movesD [OF this, of st] * show "once_each ex st \<longrightarrow> once_each ex st'" by blast
qed blast+

text \<open>Attempts at one execution, each in its own world and clock and with the waits as they then are.\<close>

record attempt =
  at_env :: run_env
  at_now :: string
  at_today :: string
  at_trigger :: LoopkitTrigger
  at_waiters :: "Waiter list"

definition attempted :: "Recipe \<Rightarrow> attempt \<Rightarrow> kit_state \<Rightarrow> kit_state" where
  "attempted r a st = snd (Run (at_env a) (at_now a) (at_today a) (at_trigger a) r (st\<lparr>ks_waiters := at_waiters a\<rparr>))"

lemma snd_Run: "snd (Run en now today t r st) = snd (runSteps en r '''' 0 (rc_Steps r) (start_bindings now today t) st)"
  by (simp add: Run_def split: prod.split sum.split)

lemma once_each_attempts:
  "list_all (\<lambda>a. reliable ex (at_env a)) as \<Longrightarrow> once_each ex st \<Longrightarrow> once_each ex (fold (attempted r) as st)"
proof (induction as arbitrary: st)
  case (Cons a as)
  have "once_each ex (attempted r a st)"
    unfolding attempted_def snd_Run by (rule effects.run(1) [rule_format]) (use Cons.prems in \<open>auto simp: once_each_def\<close>)
  with Cons show ?case by simp
qed simp

text \<open>
  C2. A recipe's effects happen at most once per execution: whatever its steps, and however many attempts at
  the execution are made, each in a world that answers as it likes and fails where it likes, no step's
  checkpointed call (a message, a proposal, an agent or HTTP call) succeeds twice, as long as the store
  answers.
\<close>
theorem effects_at_most_once:
  assumes "list_all (\<lambda>a. reliable ex (at_env a)) as" "ks_hist st = []"
  shows "successes n (ks_hist (fold (attempted r) as st)) \<le> 1"
proof -
  have "once_each ex st" by (simp add: once_each_def successes_def assms(2))
  from once_each_attempts [OF assms(1) this, of r] show ?thesis
    by (auto simp: once_each_def split: if_splits elim: allE [of _ n])
qed

text \<open>A small recipe (a note to the owner, then a message), and a world where the message fails first.\<close>

definition simple_step :: "string \<Rightarrow> (string \<times> string) list \<Rightarrow> string \<Rightarrow> Step" where
  "simple_step v args text = Step v (Some args) text '''' '''' [] [] [] [] 1"

definition simple_recipe :: "Step list \<Rightarrow> Recipe" where
  "simple_recipe ss = \<lparr>rc_Name = ''r'', rc_Enabled = None, rc_On = \<lparr>tr_Event = '''', tr_Schedule = '''', tr_Webhook = '''', tr_Manual = True\<rparr>,
     rc_Steps = ss, rc_Grants = [], rc_Path = ''r.yaml''\<rparr>"

definition simple_world :: "(event list \<Rightarrow> call \<Rightarrow> rerr option) \<Rightarrow> kit_world" where
  "simple_world unit = \<lparr>kw_text = (\<lambda>h c. Inr ''ok''), kw_unit = unit, kw_lines = (\<lambda>h c. Inr []), kw_http = (\<lambda>h c. Inr ('''', 200)),
     kw_case = (\<lambda>h c. Inl (KitFail ''no case'')), kw_read = (\<lambda>h n. None), kw_write = (\<lambda>h n. None),
     kw_now = (\<lambda>h. 10), kw_uuid = (\<lambda>h. ''u'')\<rparr>"

definition simple_run_env :: "(event list \<Rightarrow> call \<Rightarrow> rerr option) \<Rightarrow> run_env" where
  "simple_run_env unit = \<lparr>re_world = simple_world unit, re_exec = ''e'', re_loop = ''l'', re_expand = (\<lambda>x b. Inr x),
     re_duration = (\<lambda>x. if x = ''72h'' then Some (72 * 60 * minute) else None), re_strings = (\<lambda>x. None), re_anys = (\<lambda>x. None),
     re_quote = (\<lambda>x. x), re_marshal = (\<lambda>kvs. ''{}''), re_dec = (\<lambda>x. None)\<rparr>"

definition simple_trigger :: LoopkitTrigger where
  "simple_trigger = \<lparr>tg_Kind = ''manual'', tg_Payload = []\<rparr>"

definition simple_attempt :: "(event list \<Rightarrow> call \<Rightarrow> rerr option) \<Rightarrow> attempt" where
  "simple_attempt unit = \<lparr>at_env = simple_run_env unit, at_now = ''n'', at_today = ''d'', at_trigger = simple_trigger, at_waiters = []\<rparr>"

definition empty_kit :: kit_state where
  "empty_kit = \<lparr>ks_db = \<lparr>step_rows = [], loop_states = []\<rparr>, ks_waiters = [], ks_hist = [], ks_asked = []\<rparr>"

definition send_fails_first :: "event list \<Rightarrow> call \<Rightarrow> rerr option" where
  "send_fails_first h c = (if length h = 1 then Some (KitFail ''offline'') else None)"

definition notify_then_send :: Recipe where
  "notify_then_send = simple_recipe [simple_step VerbNotify [(''title'', ''t'')] '''', simple_step VerbSend [(''to'', ''x'')] ''hi'']"

lemma effects_at_most_once_witness:
  "successes ''0-notify'' (ks_hist (fold (attempted notify_then_send) (replicate 3 (simple_attempt send_fails_first)) empty_kit)) \<le> 1 \<and>
   length (ks_hist (fold (attempted notify_then_send) (replicate 3 (simple_attempt send_fails_first)) empty_kit)) = 3"
proof
  show "successes ''0-notify'' (ks_hist (fold (attempted notify_then_send) (replicate 3 (simple_attempt send_fails_first)) empty_kit)) \<le> 1"
    by (rule effects_at_most_once [where ex = "''e''"])
      (simp_all add: numeral_3_eq_3 reliable_def simple_attempt_def simple_run_env_def simple_world_def empty_kit_def)
qed code_simp

section \<open>No two steps on one checkpoint\<close>

definition fresh :: "(string \<Rightarrow> bool) \<Rightarrow> kit_state \<Rightarrow> kit_state \<Rightarrow> bool" where
  "fresh A s t \<longleftrightarrow> (\<exists>new. ks_asked t = ks_asked s @ new \<and> distinct new \<and> list_all A new)"

lemma fresh_refl: "fresh A s s"
  by (simp add: fresh_def)

lemma fresh_trans:
  assumes "fresh A s t" "fresh B t u" "\<And>n. A n \<Longrightarrow> B n \<Longrightarrow> False" "\<And>n. A n \<Longrightarrow> C n" "\<And>n. B n \<Longrightarrow> C n"
  shows "fresh C s u"
proof -
  obtain x where x: "ks_asked t = ks_asked s @ x" "distinct x" "list_all A x" using assms(1) by (auto simp: fresh_def)
  obtain y where y: "ks_asked u = ks_asked t @ y" "distinct y" "list_all B y" using assms(2) by (auto simp: fresh_def)
  from x y assms(3-5) show ?thesis by (auto simp: fresh_def list_all_iff intro!: exI [of _ "x @ y"])
qed

text \<open>The names under a prefix, from the \<open>i\<close>-th on.\<close>

definition numbered :: "string \<Rightarrow> nat \<Rightarrow> string \<Rightarrow> bool" where
  "numbered p i n \<longleftrightarrow> (\<exists>j\<ge>i. \<exists>y. n = p @ show_nat j @ ''-'' @ y)"

lemma show_nat_prefix: "show_nat i @ CHR ''-'' # x = show_nat j @ CHR ''-'' # y \<longleftrightarrow> i = j \<and> x = y"
proof -
  have t: "takeWhile (\<lambda>c. c \<noteq> CHR ''-'') (show_nat k @ CHR ''-'' # z) = show_nat k" for k z
    using show_nat_no [of "CHR ''-''" k] by (subst takeWhile_append2) (auto simp: is_digit_def)
  show ?thesis using t [of i x] t [of j y] by (metis same_append_eq list.inject show_nat_inj)
qed

lemma numbered_parts:
  "numbered p i (p @ show_nat i @ ''-'' @ y)" "numbered p (Suc i) n \<Longrightarrow> numbered p i n"
  "numbered p (Suc i) (p @ show_nat i @ ''-'' @ y) \<Longrightarrow> False"
  by (auto simp: numbered_def show_nat_prefix intro: Suc_leD)

definition under :: "string \<Rightarrow> nat \<Rightarrow> string \<Rightarrow> bool" where
  "under p i n \<longleftrightarrow> (\<exists>y. n = p @ show_nat i @ ''-'' @ y)"

lemma under_parts:
  "under p i n \<Longrightarrow> numbered p (Suc i) n \<Longrightarrow> False" "under p i n \<Longrightarrow> numbered p i n" "numbered p (Suc i) n \<Longrightarrow> numbered p i n"
  "under p i (step_id p i s)"
  "numbered (else_prefix (step_id p i s)) 0 n \<Longrightarrow> under p i n" "numbered (step_id p i s @ ''-'') 0 n \<Longrightarrow> under p i n"
  "numbered (item_prefix x k) 0 n \<Longrightarrow> under (x @ ''-'') k n"
  by (auto simp: under_def numbered_def show_nat_prefix step_id_def else_prefix_def item_prefix_def intro: Suc_leD)

lemma fresh_under: "fresh A s t \<Longrightarrow> (\<And>n. A n \<Longrightarrow> under p i n) \<Longrightarrow> fresh (numbered p (Suc i)) t u \<Longrightarrow> fresh (numbered p i) s u"
  by (erule fresh_trans, assumption) (auto dest: under_parts(1) intro: under_parts(2,3))

text \<open>A prefix is empty or starts with a digit, so a step's name has no space at its ends to trim.\<close>

definition plain_prefix :: "string \<Rightarrow> bool" where
  "plain_prefix p \<longleftrightarrow> p = '''' \<or> is_digit (hd p)"

lemma hd_show_nat: "is_digit (hd (show_nat n))"
  using show_nat_digits [of n] list.set_sel(1) [OF show_nat_nonempty] by blast

lemma plain_prefixes:
  assumes "plain_prefix p"
  shows "plain_prefix (step_id p i s)" "plain_prefix (else_prefix (step_id p i s))" "plain_prefix (item_prefix (step_id p i s) k)"
    "step_id p i s \<noteq> ''''"
  using assms by (auto simp: plain_prefix_def step_id_def else_prefix_def item_prefix_def hd_append hd_show_nat)

lemma verb_ends: "isVerb v \<Longrightarrow> v \<noteq> '''' \<and> \<not> is_space (last v)"
  by (auto simp: isVerb_def verbs_def verb_defs is_space_def)

lemma step_id_trimmed:
  assumes "plain_prefix p" "isVerb (sp_Verb s)"
  shows "TrimSpace (step_id p i s) = step_id p i s"
proof (rule TrimSpace_id)
  have "is_digit (hd (step_id p i s))"
    using plain_prefixes(1,4) [OF assms(1), of i s] by (simp add: plain_prefix_def)
  then show "\<not> is_space (hd (step_id p i s))" by (auto simp: is_digit_def is_space_def)
  show "\<not> is_space (last (step_id p i s))" using verb_ends [OF assms(2)] by (simp add: step_id_def)
qed (simp add: step_id_def)

lemma asked_by_call: "calls i c m \<Longrightarrow> ks_asked (snd (m s)) = ks_asked s"
  by (metis calls_snd kit_state_parts(4))

lemma asks_Step: "calls i c m \<Longrightarrow> moves (fresh (\<lambda>n. n = i \<or> n = TrimSpace i)) (kit_Step en i m)"
proof (unfold moves_def, intro allI)
  fix s assume "calls i c m"
  let ?s = "asked (TrimSpace i) s"
  have "ks_asked (snd (m ?s)) = ks_asked s @ [TrimSpace i]" using asked_by_call [OF \<open>calls i c m\<close>, of ?s] by simp
  moreover obtain res t where "m ?s = (res, t)" by fastforce
  ultimately have "ks_asked (snd (kit_Step en i m s)) = ks_asked s @ [TrimSpace i]"
    by (cases res) (simp_all add: kit_Step_def Let_def split: sum.split option.split)
  then show "fresh (\<lambda>n. n = i \<or> n = TrimSpace i) s (snd (kit_Step en i m s))" by (simp add: fresh_def)
qed

lemma asks_Await: "moves (fresh (\<lambda>n. n = i \<or> n = TrimSpace i)) (kit_Await en i spec)"
  by (auto simp: moves_def kit_Await_def Let_def fresh_def asked_def split: sum.split option.split prod.split)

interpretation names: run_parts "\<lambda>_. True" "\<lambda>p i s t. plain_prefix p \<longrightarrow> fresh (numbered p i) s t"
  "\<lambda>x k s t. x \<noteq> '''' \<and> plain_prefix x \<longrightarrow> fresh (numbered (x @ ''-'') k) s t"
proof (unfold_locales; (intro impI)?)
  fix p i en name b s st st'
  assume p: "plain_prefix p"
    and *: "plain_prefix p \<longrightarrow> fresh (numbered p (Suc i)) (snd (run_verb en name b s (step_id p i s) st)) st'"
  show "fresh (numbered p i) st st'"
  proof (cases "isVerb (sp_Verb s)")
    case True
    have "moves (fresh (\<lambda>n. n = step_id p i s \<or> n = TrimSpace (step_id p i s))) (run_verb en name b s (step_id p i s))"
      by (rule moves_run_verb) (use asks_Step asks_Await in \<open>auto simp: fresh_def\<close>)
    from fresh_under [OF movesD [OF this, of st]] show ?thesis
      using p * step_id_trimmed [OF p True, of i] under_parts(4) by metis
  next
    case False
    then have f: "fresh (numbered p (Suc i)) st st'" using * p by (simp add: run_verb_unknown)
    show ?thesis by (rule fresh_under [OF fresh_refl [of "\<lambda>_. False"] _ f]) simp
  qed
next
  fix p i s st t st'
  assume "plain_prefix p" "plain_prefix (else_prefix (step_id p i s)) \<longrightarrow> fresh (numbered (else_prefix (step_id p i s)) 0) st t"
    "plain_prefix p \<longrightarrow> fresh (numbered p (Suc i)) t st'"
  then show "fresh (numbered p i) st st'" using plain_prefixes(2) fresh_under under_parts(5) by blast
next
  fix p i s st t st'
  assume "plain_prefix p" "step_id p i s \<noteq> '''' \<and> plain_prefix (step_id p i s) \<longrightarrow> fresh (numbered (step_id p i s @ ''-'') 0) st t"
    "plain_prefix p \<longrightarrow> fresh (numbered p (Suc i)) t st'"
  then show "fresh (numbered p i) st st'" using plain_prefixes(1,4) fresh_under under_parts(6) by blast
next
  fix x k st t st'
  assume x: "x \<noteq> '''' \<and> plain_prefix x" and "plain_prefix (item_prefix x k) \<longrightarrow> fresh (numbered (item_prefix x k) 0) st t"
    and "x \<noteq> '''' \<and> plain_prefix x \<longrightarrow> fresh (numbered (x @ ''-'') (Suc k)) t st'"
  moreover from x have "plain_prefix (item_prefix x k)" by (auto simp: plain_prefix_def item_prefix_def)
  ultimately show "fresh (numbered (x @ ''-'') k) st st'" using fresh_under under_parts(7) by blast
qed (simp_all add: fresh_refl)

text \<open>
  C25. No two steps of a run share a checkpoint: the names one run of a recipe asks the checkpoints and the
  waits for are all distinct, however its steps are nested in conditions and loops, whatever the world
  answers; the names of steps as the store has them, trimmed.
\<close>
theorem checkpoints_distinct:
  assumes "ks_asked st = []"
  shows "distinct (ks_asked (snd (Run en now today t r st)))"
  using names.run(1) [of "''''" 0 st en r "rc_Steps r" "start_bindings now today t"] assms
  by (auto simp: snd_Run fresh_def plain_prefix_def)

lemma checkpoints_distinct_witness:
  "distinct (ks_asked (snd (Run (simple_run_env send_fails_first) ''n'' ''d'' simple_trigger notify_then_send empty_kit))) \<and>
   ks_asked (snd (Run (simple_run_env send_fails_first) ''n'' ''d'' simple_trigger notify_then_send empty_kit)) = [''0-notify'', ''1-send'']"
proof
  show "distinct (ks_asked (snd (Run (simple_run_env send_fails_first) ''n'' ''d'' simple_trigger notify_then_send empty_kit)))"
    by (rule checkpoints_distinct) (simp add: empty_kit_def)
qed code_simp

end
