(* ===== verification/Recipe_Suspend.thy ===== *)
theory Recipe_Suspend
  imports Recipe_Run_Props
begin

text \<open>
  What makes a recipe wait (\<^verbatim>\<open>internal/recipes/run.go\<close> sleep and await,
  \<^verbatim>\<open>internal/runtime/loophost_org.go\<close> Await): an await parks the run and is answered by the
  event that settles its wait; one that timed out always fails; a long sleep does not park at all.
\<close>

section \<open>Await\<close>

lemma WaiterResult_settled:
  assumes "waiters_ok ws" "w \<in> set ws" "wait_key w = (ex, i)"
  shows "WaiterResult None ex i ws = Inr (if wt_ResolvedAt w = None then None else Some (wt_ResultJSON w))"
proof -
  have "row_of wait_key (ex, i) ws = Some w" using row_of_mem [of wait_key ws w] assms by (simp add: waiters_ok_def)
  then show ?thesis by (simp add: WaiterResult_def)
qed

lemma row_of_snoc: "row_of key k (xs @ [x]) = (case row_of key k xs of None \<Rightarrow> if key x = k then Some x else None | Some r \<Rightarrow> Some r)"
  by (induction xs) (auto simp: row_of_def)

text \<open>
  An await is answered by the event that settles its wait: reaching it for the first time arms one wait
  and parks the run, and once that wait is resolved with a payload the next attempt gets the payload,
  without arming another.
\<close>
theorem await_parks_then_answers:
  assumes "reliable ex en" "as_Event spec \<noteq> ''''" "row_of wait_key (ex, i) (ks_waiters st) = None"
    and "kw_uuid (re_world en) (ks_hist st) = u" "u \<notin> wt_ID ` set (ks_waiters st)" "u \<noteq> ''''"
    and "kit_Await en i spec st = (res, st1)"
    and "ResolveWaiter None now u payload (ks_waiters st1) = (Inr True, ws)"
    and "payload \<noteq> ''''" "re_dec en payload = Some out" "row_of fst ''timeout'' out = None"
  shows "res = Inl (Suspended (as_Event spec)) \<and>
    fst (kit_Await en i spec (st1\<lparr>ks_waiters := ws\<rparr>)) = Inr (JObj out) \<and>
    ks_waiters (snd (kit_Await en i spec (st1\<lparr>ks_waiters := ws\<rparr>))) = ws"
proof -
  from assms(1) have ex: "ex \<noteq> ''''" "re_exec en = ex" "\<And>h n. kw_read (re_world en) h n = None" "\<And>h n. kw_write (re_world en) h n = None"
    by (simp_all add: reliable_def)
  define W where "W = waiter_stamped u (kw_now (re_world en) (ks_hist st)) (new_wait en i spec st)"
  have W: "wait_key W = (ex, i)" "wt_ID W = u" "wt_ResolvedAt W = None"
    by (simp_all add: W_def waiter_stamped_def new_wait_def wait_key_def ex assms(4))
  have "new_wait en i spec (asked i st) = new_wait en i spec st" by (simp add: new_wait_def)
  then have arm: "ArmWaiter None u (kw_now (re_world en) (ks_hist st)) (new_wait en i spec (asked i st)) (ks_waiters st) = (None, ks_waiters st @ [W])"
    using W(1,2) assms(3,5) by (simp add: ArmWaiter_def Let_def W_def [symmetric] row_of_None)
  have ws1: "kit_Await en i spec st = (Inl (Suspended (as_Event spec)), (asked i st)\<lparr>ks_waiters := ks_waiters st @ [W]\<rparr>)"
    using arm assms(2,3,4) ex by (simp add: kit_Await_def Let_def WaiterResult_def)
  then have st1: "res = Inl (Suspended (as_Event spec))" "ks_waiters st1 = ks_waiters st @ [W]" using assms(7) by auto
  have ws: "ws = update_where (\<lambda>w. wt_ID w = u \<and> wt_ResolvedAt w = None) (\<lambda>w. w\<lparr>wt_ResolvedAt := Some now, wt_ResultJSON := payload\<rparr>)
      (ks_waiters st @ [W])"
    using assms(8) st1(2) by (simp add: ResolveWaiter_def)
  have "row_of wait_key (ex, i) ws = Some (W\<lparr>wt_ResolvedAt := Some now, wt_ResultJSON := payload\<rparr>)"
    using W assms(3) by (simp add: ws row_update_where row_of_snoc)
  then have "WaiterResult None ex i ws = Inr (Some payload)" by (simp add: WaiterResult_def)
  with st1(1) ex assms(2,9-11) show ?thesis by (simp add: kit_Await_def Let_def asked_def)
qed

text \<open>
  A wait that timed out always fails its step: whatever the recipe, the attempt after the deadline gets
  an error from the await, never a value it could branch on.
\<close>
theorem timed_out_await_fails:
  assumes "reliable ex en" "as_Event spec \<noteq> ''''"
    and "waiters_ok ws" "w \<in> set ws" "wait_key w = (ex, i)" "expired_at now w"
    and "re_dec en timeoutResult = Some [(''timeout'', JBool True)]"
  shows "fst (kit_Await en i spec (st\<lparr>ks_waiters := snd (ExpireWaiters None None now ws)\<rparr>)) =
    Inl (Fail [Str ''await '', Quoted (as_Event spec), Str '' timed out''])"
proof -
  let ?ws = "snd (ExpireWaiters None None now ws)"
  have "?ws = update_where (expired_at now) (timed_out now) ws"
    using assms(4,6) by (auto simp: ExpireWaiters_def Let_def filter_empty_conv)
  then have "timed_out now w \<in> set ?ws" using assms(4,6) by (auto simp: update_where_def)
  moreover have "waiters_ok ?ws" using waiter_step_ok [OF assms(3), of "WExpire None None now"]
    by (auto split: prod.splits sum.splits)
  ultimately have "WaiterResult None ex i ?ws = Inr (Some timeoutResult)"
    using WaiterResult_settled [of ?ws "timed_out now w" ex i] assms(5) by (simp add: timed_out_def wait_key_def)
  with assms(1,2,7) show ?thesis
    by (simp add: kit_Await_def Let_def reliable_def asked_def row_of_def timeoutResult_def)
qed

definition await_env :: run_env where
  "await_env = (simple_run_env (\<lambda>h c. None))\<lparr>re_dec := (\<lambda>x. Some (if x = timeoutResult then [(''timeout'', JBool True)] else [(''by'', JStr ''ann'')]))\<rparr>"

definition paid_spec :: await_spec where
  "paid_spec = \<lparr>as_Event = ''invoice.paid'', as_Match = [], as_CaseID = '''', as_Timeout = 5\<rparr>"

lemma reliable_await_env: "reliable ''e'' await_env"
  by (simp add: reliable_def await_env_def simple_run_env_def simple_world_def)

lemma await_parks_then_answers_witness:
  "fst (kit_Await await_env ''0-await'' paid_spec empty_kit) = Inl (Suspended ''invoice.paid'') \<and>
   fst (kit_Await await_env ''0-await'' paid_spec ((snd (kit_Await await_env ''0-await'' paid_spec empty_kit))
     \<lparr>ks_waiters := snd (ResolveWaiter None 12 ''u'' ''x'' (ks_waiters (snd (kit_Await await_env ''0-await'' paid_spec empty_kit))))\<rparr>)) =
     Inr (JObj [(''by'', JStr ''ann'')])"
proof -
  let ?k = "kit_Await await_env ''0-await'' paid_spec empty_kit"
  have "fst (ResolveWaiter None 12 ''u'' ''x'' (ks_waiters (snd ?k))) = Inr True" by code_simp
  then have "ResolveWaiter None 12 ''u'' ''x'' (ks_waiters (snd ?k)) = (Inr True, snd (ResolveWaiter None 12 ''u'' ''x'' (ks_waiters (snd ?k))))"
    by (metis prod.collapse)
  from await_parks_then_answers [OF reliable_await_env _ _ _ _ _ prod.collapse [symmetric] this, of "[(''by'', JStr ''ann'')]"]
  show ?thesis
    by (simp add: paid_spec_def empty_kit_def row_of_def) (simp add: await_env_def simple_run_env_def simple_world_def timeoutResult_def)
qed

lemma timed_out_await_fails_witness:
  "fst (kit_Await await_env ''0-await'' paid_spec (empty_kit\<lparr>ks_waiters := snd (ExpireWaiters None None 6 [sample_waiter])\<rparr>)) =
    Inl (Fail [Str ''await '', Quoted ''invoice.paid'', Str '' timed out''])"
  using timed_out_await_fails [OF reliable_await_env, of paid_spec "[sample_waiter]" sample_waiter "''0-await''" 6 empty_kit]
  by (simp add: paid_spec_def waiters_ok_def sample_waiter_def wait_key_def expired_at_def) (simp add: await_env_def)

section \<open>Sleep\<close>

lemma kit_Step_runs:
  assumes "reliable ex en" "TrimSpace i = i" "i \<noteq> ''''" "row_of step_key (ex, i) (step_rows (ks_db st)) = None"
    and "m (asked i st) = (Inr x, noted i c True (asked i st))"
  shows "\<exists>t. kit_Step en i m st = (Inr x, t) \<and> ks_hist t = ks_hist st @ [\<lparr>ev_step = i, ev_call = c, ev_ok = True\<rparr>]"
  using assms by (simp add: reliable_def kit_Step_def Let_def LoopStep_def) (simp add: noted_def asked_def)

text \<open>
  A sleep of a minute or more does not park the run: the step records that it set a timer and is done,
  and the same run goes on with the steps after it.
\<close>
theorem sleep_does_not_park:
  assumes "reliable ex en" "sp_Verb s = VerbSleep" "sp_When s = ''''" "sp_As s = ''''"
    and "plain_prefix p" "duration_of en s b = Inr d" "minute \<le> d"
    and "row_of step_key (ex, step_id p i s) (step_rows (ks_db st)) = None"
    and "kw_unit (re_world en) = (\<lambda>h c. None)"
  shows "\<exists>st'. runSteps en r p i (s # rest) b st = runSteps en r p (i + 1) rest b st' \<and>
    ks_hist st' = ks_hist st @ [\<lparr>ev_step = step_id p i s,
      ev_call = CAfter (''recipe-'' @ rc_Name r @ ''-'' @ step_id p i s) d
        [(''recipe'', JStr (rc_Name r)), (''resumed_from'', JStr (step_id p i s))], ev_ok = True\<rparr>]"
proof -
  let ?i = "step_id p i s"
  let ?c = "CAfter (''recipe-'' @ rc_Name r @ ''-'' @ ?i) d [(''recipe'', JStr (rc_Name r)), (''resumed_from'', JStr ?i)]"
  have i: "TrimSpace ?i = ?i" by (rule step_id_trimmed) (simp_all add: assms isVerb_def verbs_def)
  have "call_unit en ?i ?c (asked ?i st) = (Inr '''', noted ?i ?c True (asked ?i st))"
    by (simp add: call_unit_def call_as_def assms(9))
  from kit_Step_runs [of ex en ?i st "call_unit en ?i ?c", OF assms(1) i plain_prefixes(4) [OF assms(5)] assms(8) this]
  obtain t where t: "kit_Step en ?i (call_unit en ?i ?c) st = (Inr '''', t)" "ks_hist t = ks_hist st @ [\<lparr>ev_step = ?i, ev_call = ?c, ev_ok = True\<rparr>]"
    by blast
  have "run_verb en (rc_Name r) b s ?i st = once en ?i ?c st"
    using assms(2,6,7) by (simp add: run_verb_def Let_def verb_defs run_sleep_def got_def)
  also have "\<dots> = (Inr JNull, t)" unfolding once_def result_as_def t(1) by simp
  finally have "run_verb en (rc_Name r) b s ?i st = (Inr JNull, t)" .
  then show ?thesis using t(2) assms(2-4) by (intro exI [of _ t]) (simp add: verb_defs)
qed

text \<open>The recipe that sends its reminder at once.\<close>

definition remind_after_sleep :: Recipe where
  "remind_after_sleep = simple_recipe [simple_step VerbSleep [] ''72h'', simple_step VerbNotify [(''title'', ''three days on'')] '''']"

lemma sleep_does_not_park_witness:
  "(\<exists>st'. runSteps (simple_run_env (\<lambda>h c. None)) remind_after_sleep '''' 0 (rc_Steps remind_after_sleep) [] empty_kit =
      runSteps (simple_run_env (\<lambda>h c. None)) remind_after_sleep '''' (0 + 1) (tl (rc_Steps remind_after_sleep)) [] st' \<and>
      length (ks_hist st') = 1) \<and>
   map ev_step (ks_hist (snd (Run (simple_run_env (\<lambda>h c. None)) ''n'' ''d'' simple_trigger remind_after_sleep empty_kit))) =
     [''0-sleep'', ''1-notify'']"
proof
  let ?s = "simple_step VerbSleep [] ''72h''"
  have "\<exists>st'. runSteps (simple_run_env (\<lambda>h c. None)) remind_after_sleep '''' 0 (?s # tl (rc_Steps remind_after_sleep)) [] empty_kit =
      runSteps (simple_run_env (\<lambda>h c. None)) remind_after_sleep '''' (0 + 1) (tl (rc_Steps remind_after_sleep)) [] st' \<and>
      ks_hist st' = ks_hist empty_kit @ [\<lparr>ev_step = step_id '''' 0 ?s,
      ev_call = CAfter (''recipe-'' @ rc_Name remind_after_sleep @ ''-'' @ step_id '''' 0 ?s) (72 * 60 * minute)
        [(''recipe'', JStr (rc_Name remind_after_sleep)), (''resumed_from'', JStr (step_id '''' 0 ?s))], ev_ok = True\<rparr>]"
    by (rule sleep_does_not_park [where ex = "''e''"])
      (simp_all add: reliable_def simple_run_env_def simple_world_def duration_of_def render_def TrimSpace_def is_space_def
        simple_step_def minute_def second_def empty_kit_def plain_prefix_def row_of_def)
  then obtain st' where st': "runSteps (simple_run_env (\<lambda>h c. None)) remind_after_sleep '''' 0 (?s # tl (rc_Steps remind_after_sleep)) [] empty_kit =
      runSteps (simple_run_env (\<lambda>h c. None)) remind_after_sleep '''' (0 + 1) (tl (rc_Steps remind_after_sleep)) [] st'"
    and "length (ks_hist st') = 1" by (elim exE conjE) (simp add: empty_kit_def)
  moreover have "rc_Steps remind_after_sleep = ?s # tl (rc_Steps remind_after_sleep)" by (simp add: remind_after_sleep_def simple_recipe_def)
  ultimately show "\<exists>st'. runSteps (simple_run_env (\<lambda>h c. None)) remind_after_sleep '''' 0 (rc_Steps remind_after_sleep) [] empty_kit =
      runSteps (simple_run_env (\<lambda>h c. None)) remind_after_sleep '''' (0 + 1) (tl (rc_Steps remind_after_sleep)) [] st' \<and>
      length (ks_hist st') = 1"
    by metis
qed code_simp

end
