(* ===== verification/Fleet_Ledger.thy ===== *)
theory Fleet_Ledger
  imports Prelude
begin

text \<open>
  \<^verbatim>\<open>fleet/internal/ledger\<close>: the fleet's system of record. Here the tasks, the secrets and their
  grants (\<^verbatim>\<open>ledger.go\<close>, \<^verbatim>\<open>secrets.go\<close>), the events and what their retention keeps. Times are
  stored as unix seconds; a column that may be NULL is an option.
\<close>

section \<open>Tables\<close>

record TaskRow =
  tk_ID :: string
  tk_Agent :: "string option"
  tk_Assigned :: "int option"
  tk_Closed :: "int option"
  tk_Outcome :: "string option"
  tk_Branch :: "string option"
  tk_PR :: "string option"
  tk_Assigner :: "string option"
  tk_Repo :: "string option"
  tk_Model :: "string option"
  tk_AdminWork :: "bool option"

record SecretRow =
  se_Name :: string
  se_Sealed :: string
  se_Created :: int
  se_Updated :: int
  se_ReadAt :: "int option"
  se_ReadAgent :: "string option"
  se_ReadTask :: "string option"

record SecretGrant =
  sg_Secret :: string
  sg_Task :: string
  sg_Agent :: string
  sg_Granted :: int
  sg_Expires :: "int option"
  sg_By :: "string option"

record FleetEvent =
  fe_ID :: int
  fe_Agent :: string
  fe_At :: int
  fe_Kind :: string
  fe_Session :: "string option"
  fe_Detail :: "string option"

record DailyCount =
  dc_Agent :: string
  dc_Day :: int
  dc_Kind :: string
  dc_Count :: nat

record Relay =
  rl_ID :: int
  rl_From :: string
  rl_To :: string
  rl_At :: int
  rl_Size :: int
  rl_Delivered :: bool
  rl_Text :: string
  rl_Error :: "string option"
  rl_Task :: "string option"
  rl_Kind :: string
  rl_Escalated :: "int option"
  rl_Alerted :: "int option"
  rl_DeliveredAt :: "int option"

record ledger =
  lg_tasks :: "TaskRow list"
  lg_secrets :: "SecretRow list"
  lg_grants :: "SecretGrant list"
  lg_relays :: "Relay list"
  lg_next_relay :: int
  lg_cursors :: "((string \<times> string) \<times> int) list"
  lg_events :: "FleetEvent list"
  lg_next_event :: int
  lg_daily :: "DailyCount list"
  lg_overrides :: "(string \<times> string) list"

definition empty_ledger :: ledger where
  "empty_ledger = \<lparr>lg_tasks = [], lg_secrets = [], lg_grants = [], lg_relays = [], lg_next_relay = 1, lg_cursors = [],
     lg_events = [], lg_next_event = 1, lg_daily = [], lg_overrides = []\<rparr>"

definition nullStr :: "string \<Rightarrow> string option" where
  "nullStr s = (if s = '''' then None else Some s)"

definition coalesce :: "'a \<Rightarrow> 'a option \<Rightarrow> 'a" where
  "coalesce d x = (case x of None \<Rightarrow> d | Some y \<Rightarrow> y)"

definition unix :: "gtime \<Rightarrow> int option" where
  "unix t = (if t = zero_time then None else Some (unix_of t))"

definition fromUnix :: "int option \<Rightarrow> gtime" where
  "fromUnix v = (case v of None \<Rightarrow> zero_time | Some s \<Rightarrow> of_unix s)"

definition ran :: "'a \<Rightarrow> dberr \<Rightarrow> 'a \<Rightarrow> dberr \<times> 'a" where
  "ran after err before = (case err of Some m \<Rightarrow> (Some m, before) | None \<Rightarrow> (None, after))"

section \<open>Tasks\<close>

definition no_task :: "string \<Rightarrow> TaskRow" where
  "no_task i = \<lparr>tk_ID = i, tk_Agent = None, tk_Assigned = None, tk_Closed = None, tk_Outcome = None, tk_Branch = None, tk_PR = None,
     tk_Assigner = None, tk_Repo = None, tk_Model = None, tk_AdminWork = None\<rparr>"

definition merge_open :: "TaskRow \<Rightarrow> TaskRow \<Rightarrow> TaskRow" where
  "merge_open r x = r\<lparr>tk_Agent := tk_Agent x, tk_Assigned := tk_Assigned x, tk_Assigner := tk_Assigner x,
     tk_Closed := None, tk_Outcome := None, tk_AdminWork := None\<rparr>"

definition OpenTask :: "dberr \<Rightarrow> string \<Rightarrow> string \<Rightarrow> string \<Rightarrow> gtime \<Rightarrow> ledger \<Rightarrow> dberr \<times> ledger" where
  "OpenTask err i agent assigner now g = ran (g\<lparr>lg_tasks := upsert tk_ID merge_open
     ((no_task i)\<lparr>tk_Agent := Some agent, tk_Assigned := Some (unix_of now), tk_Assigner := nullStr assigner\<rparr>) (lg_tasks g)\<rparr>) err g"

definition set_task :: "(TaskRow \<Rightarrow> TaskRow) \<Rightarrow> dberr \<Rightarrow> string \<Rightarrow> ledger \<Rightarrow> dberr \<times> ledger" where
  "set_task f err i g = ran (g\<lparr>lg_tasks := update_where (\<lambda>r. tk_ID r = i) f (lg_tasks g)\<rparr>) err g"

definition SetTaskAdminWork :: "dberr \<Rightarrow> string \<Rightarrow> bool \<Rightarrow> ledger \<Rightarrow> dberr \<times> ledger" where
  "SetTaskAdminWork err i admin = set_task (\<lambda>r. r\<lparr>tk_AdminWork := Some admin\<rparr>) err i"

definition SetTaskRepo :: "dberr \<Rightarrow> string \<Rightarrow> string \<Rightarrow> ledger \<Rightarrow> dberr \<times> ledger" where
  "SetTaskRepo err i repo = set_task (\<lambda>r. r\<lparr>tk_Repo := nullStr repo\<rparr>) err i"

definition SetTaskModel :: "dberr \<Rightarrow> string \<Rightarrow> string \<Rightarrow> ledger \<Rightarrow> dberr \<times> ledger" where
  "SetTaskModel err i model = set_task (\<lambda>r. r\<lparr>tk_Model := nullStr model\<rparr>) err i"

definition ModelOverride :: "dberr \<Rightarrow> string \<Rightarrow> ledger \<Rightarrow> string + string" where
  "ModelOverride err agent g = (case err of Some m \<Rightarrow> Inl m
     | None \<Rightarrow> Inr (case row_of fst agent (lg_overrides g) of None \<Rightarrow> '''' | Some x \<Rightarrow> snd x))"

definition SetModelOverride :: "dberr \<Rightarrow> string \<Rightarrow> string \<Rightarrow> ledger \<Rightarrow> dberr \<times> ledger" where
  "SetModelOverride err agent model g = ran (g\<lparr>lg_overrides :=
     (if model = '''' then delete_where (\<lambda>x. fst x = agent) (lg_overrides g) else upsert fst (\<lambda>_ x. x) (agent, model) (lg_overrides g))\<rparr>) err g"

text \<open>A row as the program reads it. An operator's task has no assigner on its row.\<close>

record Task =
  ta_ID :: string
  ta_Agent :: string
  ta_Assigner :: string
  ta_Outcome :: string
  ta_Repo :: string
  ta_Model :: string
  ta_Branch :: string
  ta_PR :: string
  ta_Assigned :: gtime
  ta_Closed :: gtime
  ta_AdminWork :: bool

definition task_read :: "TaskRow \<Rightarrow> Task" where
  "task_read r = \<lparr>ta_ID = tk_ID r, ta_Agent = coalesce '''' (tk_Agent r), ta_Assigner = coalesce '''' (tk_Assigner r),
     ta_Outcome = coalesce '''' (tk_Outcome r), ta_Repo = coalesce '''' (tk_Repo r), ta_Model = coalesce '''' (tk_Model r),
     ta_Branch = coalesce '''' (tk_Branch r), ta_PR = coalesce '''' (tk_PR r), ta_Assigned = fromUnix (tk_Assigned r),
     ta_Closed = fromUnix (tk_Closed r), ta_AdminWork = coalesce False (tk_AdminWork r)\<rparr>"

text \<open>\<open>Inr None\<close> is \<^verbatim>\<open>sql.ErrNoRows\<close>.\<close>

definition read_task :: "dberr \<Rightarrow> string \<Rightarrow> ledger \<Rightarrow> string + Task option" where
  "read_task err i g = (case err of Some m \<Rightarrow> Inl m | None \<Rightarrow> Inr (map_option task_read (row_of tk_ID i (lg_tasks g))))"

text \<open>\<open>LIKE\<close> folds case. Rows without a time sort first, and so come last in the reverse order.\<close>

definition by_assigned :: "TaskRow \<Rightarrow> (int \<times> int) \<times> string" where
  "by_assigned r = ((case tk_Assigned r of None \<Rightarrow> (0, 0) | Some t \<Rightarrow> (1, t)), tk_ID r)"

definition of_assigner :: "string \<Rightarrow> TaskRow \<Rightarrow> bool" where
  "of_assigner assigner r \<longleftrightarrow> assigner = '''' \<or> (case tk_Assigner r of None \<Rightarrow> False
     | Some a \<Rightarrow> a = assigner \<or> HasPrefix (ToLower a) (ToLower (assigner @ ''/'')))"

definition TasksBy :: "dberr \<Rightarrow> bool \<Rightarrow> string \<Rightarrow> string \<Rightarrow> int \<Rightarrow> ledger \<Rightarrow> string + Task list" where
  "TasksBy err opened agent assigner limit g =
     (case err of Some m \<Rightarrow> Inl m
      | None \<Rightarrow> (let rows = rev (sort_key by_assigned (filter (\<lambda>r. tk_Agent r \<noteq> None \<and> (agent = '''' \<or> tk_Agent r = Some agent) \<and>
            of_assigner assigner r \<and> (opened \<longrightarrow> tk_Closed r = None)) (lg_tasks g)))
          in Inr (map task_read (if limit > 0 then take (nat limit) rows else rows))))"

definition Tasks :: "dberr \<Rightarrow> bool \<Rightarrow> string \<Rightarrow> int \<Rightarrow> ledger \<Rightarrow> string + Task list" where
  "Tasks err opened agent limit = TasksBy err opened agent '''' limit"

definition LatestTask :: "dberr \<Rightarrow> string \<Rightarrow> ledger \<Rightarrow> string + Task option" where
  "LatestTask err agent g = (case Tasks err False agent 1 g of Inl m \<Rightarrow> Inl m
     | Inr ts \<Rightarrow> Inr (case ts of [] \<Rightarrow> None | t # _ \<Rightarrow> Some t))"

section \<open>Secrets and their grants\<close>

definition SealedSecret :: "dberr \<Rightarrow> string \<Rightarrow> ledger \<Rightarrow> string + string" where
  "SealedSecret err name g = (case err of Some m \<Rightarrow> Inl m
     | None \<Rightarrow> (case row_of se_Name name (lg_secrets g) of None \<Rightarrow> Inl ''no such secret'' | Some r \<Rightarrow> Inr (se_Sealed r)))"

definition merge_secret :: "SecretRow \<Rightarrow> SecretRow \<Rightarrow> SecretRow" where
  "merge_secret r x = r\<lparr>se_Sealed := se_Sealed x, se_Updated := se_Updated x\<rparr>"

definition PutSecret :: "dberr \<Rightarrow> string \<Rightarrow> string \<Rightarrow> gtime \<Rightarrow> ledger \<Rightarrow> dberr \<times> ledger" where
  "PutSecret err name sealed now g = ran (g\<lparr>lg_secrets := upsert se_Name merge_secret
     \<lparr>se_Name = name, se_Sealed = sealed, se_Created = unix_of now, se_Updated = unix_of now, se_ReadAt = None,
      se_ReadAgent = None, se_ReadTask = None\<rparr> (lg_secrets g)\<rparr>) err g"

text \<open>The answers to deleting the grants and the secret.\<close>

definition RemoveSecret :: "dberr \<Rightarrow> dberr \<Rightarrow> string \<Rightarrow> ledger \<Rightarrow> (string + bool) \<times> ledger" where
  "RemoveSecret gerr serr name g =
     (case gerr of Some m \<Rightarrow> (Inl m, g)
      | None \<Rightarrow> (let g1 = g\<lparr>lg_grants := delete_where (\<lambda>x. sg_Secret x = name) (lg_grants g)\<rparr>
          in case serr of Some m \<Rightarrow> (Inl m, g1)
             | None \<Rightarrow> (Inr (\<exists>r\<in>set (lg_secrets g). se_Name r = name),
                 g1\<lparr>lg_secrets := delete_where (\<lambda>r. se_Name r = name) (lg_secrets g)\<rparr>)))"

definition secret_grant_key :: "SecretGrant \<Rightarrow> string \<times> string \<times> string" where
  "secret_grant_key x = (sg_Secret x, sg_Task x, sg_Agent x)"

definition merge_secret_grant :: "SecretGrant \<Rightarrow> SecretGrant \<Rightarrow> SecretGrant" where
  "merge_secret_grant r x = r\<lparr>sg_Granted := sg_Granted x, sg_Expires := sg_Expires x, sg_By := sg_By x\<rparr>"

definition AddGrant :: "dberr \<Rightarrow> dberr \<Rightarrow> SecretGrant \<Rightarrow> ledger \<Rightarrow> dberr \<times> ledger" where
  "AddGrant serr err x g =
     (case SealedSecret serr (sg_Secret x) g of Inl m \<Rightarrow> (Some m, g)
      | Inr _ \<Rightarrow> ran (g\<lparr>lg_grants := upsert secret_grant_key merge_secret_grant x (lg_grants g)\<rparr>) err g)"

definition secret_Revoke :: "dberr \<Rightarrow> string \<Rightarrow> string \<Rightarrow> string \<Rightarrow> ledger \<Rightarrow> (string + bool) \<times> ledger" where
  "secret_Revoke err secret task agent g =
     (case err of Some m \<Rightarrow> (Inl m, g)
      | None \<Rightarrow> (Inr (\<exists>x\<in>set (lg_grants g). secret_grant_key x = (secret, task, agent)),
          g\<lparr>lg_grants := delete_where (\<lambda>x. secret_grant_key x = (secret, task, agent)) (lg_grants g)\<rparr>))"

definition grant_over :: "gtime \<Rightarrow> SecretGrant \<Rightarrow> bool" where
  "grant_over now x \<longleftrightarrow> (case sg_Expires x of None \<Rightarrow> False | Some t \<Rightarrow> t \<le> unix_of now)"

definition dropExpired :: "dberr \<Rightarrow> gtime \<Rightarrow> ledger \<Rightarrow> dberr \<times> ledger" where
  "dropExpired err now g = ran (g\<lparr>lg_grants := delete_where (grant_over now) (lg_grants g)\<rparr>) err g"

definition grants_to :: "string \<Rightarrow> string \<Rightarrow> string \<Rightarrow> SecretGrant \<Rightarrow> bool" where
  "grants_to secret agent task x \<longleftrightarrow> sg_Secret x = secret \<and>
     ((sg_Task x \<noteq> '''' \<and> sg_Task x = task) \<or> (sg_Agent x \<noteq> '''' \<and> sg_Agent x = agent))"

definition Granted :: "dberr \<Rightarrow> dberr \<Rightarrow> string \<Rightarrow> string \<Rightarrow> string \<Rightarrow> gtime \<Rightarrow> ledger \<Rightarrow> (string + bool) \<times> ledger" where
  "Granted derr qerr secret agent task now g =
     (case dropExpired derr now g of (Some m, g1) \<Rightarrow> (Inl m, g1)
      | (None, g1) \<Rightarrow> (case qerr of Some m \<Rightarrow> (Inl m, g1) | None \<Rightarrow> (Inr (\<exists>x\<in>set (lg_grants g1). grants_to secret agent task x), g1)))"

definition SecretRead :: "dberr \<Rightarrow> string \<Rightarrow> string \<Rightarrow> string \<Rightarrow> gtime \<Rightarrow> ledger \<Rightarrow> dberr \<times> ledger" where
  "SecretRead err secret agent task now g = ran (g\<lparr>lg_secrets := update_where (\<lambda>r. se_Name r = secret)
     (\<lambda>r. r\<lparr>se_ReadAt := Some (unix_of now), se_ReadAgent := Some agent, se_ReadTask := nullStr task\<rparr>) (lg_secrets g)\<rparr>) err g"

text \<open>The grants to tasks that closed, one statement for each task.\<close>

fun endTaskGrants :: "(string \<Rightarrow> dberr) \<Rightarrow> string list \<Rightarrow> ledger \<Rightarrow> dberr \<times> ledger" where
  "endTaskGrants derr [] g = (None, g)"
| "endTaskGrants derr (i # is) g =
     (case derr i of Some m \<Rightarrow> (Some m, g)
      | None \<Rightarrow> endTaskGrants derr is (g\<lparr>lg_grants := delete_where (\<lambda>x. sg_Task x = i \<and> sg_Task x \<noteq> '''') (lg_grants g)\<rparr>))"

section \<open>The end of a task\<close>

definition merge_close :: "TaskRow \<Rightarrow> TaskRow \<Rightarrow> TaskRow" where
  "merge_close r x = r\<lparr>tk_Closed := tk_Closed x, tk_Outcome := tk_Outcome x,
     tk_Branch := (if tk_Branch x = None then tk_Branch r else tk_Branch x), tk_PR := (if tk_PR x = None then tk_PR r else tk_PR x)\<rparr>"

definition CloseTask :: "dberr \<Rightarrow> (string \<Rightarrow> dberr) \<Rightarrow> string \<Rightarrow> gtime \<Rightarrow> string \<Rightarrow> string \<Rightarrow> string \<Rightarrow> ledger \<Rightarrow> dberr \<times> ledger" where
  "CloseTask err derr i now outcome branch pr g =
     (case err of Some m \<Rightarrow> (Some m, g)
      | None \<Rightarrow> endTaskGrants derr [i] (g\<lparr>lg_tasks := upsert tk_ID merge_close
          ((no_task i)\<lparr>tk_Closed := Some (unix_of now), tk_Outcome := Some outcome, tk_Branch := nullStr branch, tk_PR := nullStr pr\<rparr>)
          (lg_tasks g)\<rparr>))"

definition superseded_row :: "gtime \<Rightarrow> TaskRow \<Rightarrow> TaskRow" where
  "superseded_row now r = r\<lparr>tk_Closed := Some (unix_of now), tk_Outcome := Some ''superseded''\<rparr>"

fun supersede_each :: "(string \<Rightarrow> dberr) \<Rightarrow> gtime \<Rightarrow> string list \<Rightarrow> ledger \<Rightarrow> dberr \<times> ledger" where
  "supersede_each uerr now [] g = (None, g)"
| "supersede_each uerr now (i # is) g =
     (case uerr i of Some m \<Rightarrow> (Some m, g)
      | None \<Rightarrow> supersede_each uerr now is (g\<lparr>lg_tasks := update_where (\<lambda>r. tk_ID r = i \<and> tk_Closed r = None) (superseded_row now) (lg_tasks g)\<rparr>))"

definition open_of :: "string \<Rightarrow> string \<Rightarrow> ledger \<Rightarrow> string list" where
  "open_of agent except g = map tk_ID (sort_key by_assigned
     (filter (\<lambda>r. tk_Agent r = Some agent \<and> tk_Closed r = None \<and> tk_ID r \<noteq> except) (lg_tasks g)))"

definition SupersedeOpen :: "dberr \<Rightarrow> (string \<Rightarrow> dberr) \<Rightarrow> (string \<Rightarrow> dberr) \<Rightarrow> string \<Rightarrow> string \<Rightarrow> gtime \<Rightarrow> ledger \<Rightarrow>
    (string list \<times> dberr) \<times> ledger" where
  "SupersedeOpen qerr uerr derr agent except now g =
     (case qerr of Some m \<Rightarrow> (([], Some m), g)
      | None \<Rightarrow> (let ids = open_of agent except g
          in case supersede_each uerr now ids g of
               (Some m, g1) \<Rightarrow> ((ids, Some m), g1)
             | (None, g1) \<Rightarrow> (let (e, g2) = endTaskGrants derr ids g1 in ((ids, e), g2))))"

end
