(* ===== verification/Fleet_Relays.thy ===== *)
theory Fleet_Relays
  imports Fleet_Ledger
begin

text \<open>
  \<^verbatim>\<open>fleet/internal/ledger/ledger.go\<close>: the messages between sessions (relays) with the questions
  among them, the cursors of their readers, the events, and the retention that ages them.
\<close>

section \<open>Messages\<close>

definition KindReport :: string where "KindReport = ''report''"
definition KindQuestion :: string where "KindQuestion = ''question''"
definition KindProgress :: string where "KindProgress = ''progress''"
definition KindAnswer :: string where "KindAnswer = ''answer''"
definition Operator :: string where "Operator = ''operator''"
definition Sending :: string where "Sending = ''sending''"
definition Interrupted :: string where "Interrupted = ''interrupted''"
definition Held :: string where "Held = ''held''"

lemmas relay_errors = Sending_def Interrupted_def Held_def

definition ValidKind :: "string \<Rightarrow> bool" where
  "ValidKind k \<longleftrightarrow> k = '''' \<or> k = KindReport \<or> k = KindQuestion \<or> k = KindProgress"

definition IsPerson :: "string \<Rightarrow> bool" where
  "IsPerson name \<longleftrightarrow> name = Operator \<or> Contains name ''@''"

definition OwnerOf :: "string \<Rightarrow> string" where
  "OwnerOf assigner = fst (Cut assigner (CHR ''/''))"

definition OwnedBy :: "string \<Rightarrow> string \<Rightarrow> bool" where
  "OwnedBy assigner login \<longleftrightarrow> login \<noteq> '''' \<and> OwnerOf assigner = login"

text \<open>A failing query reads as no session.\<close>

definition IsSession :: "dberr \<Rightarrow> string \<Rightarrow> ledger \<Rightarrow> bool" where
  "IsSession err name g \<longleftrightarrow> name \<noteq> '''' \<and> \<not> IsPerson name \<and> err = None \<and> (\<exists>t\<in>set (lg_tasks g). tk_Assigner t = Some name)"

record Message =
  ms_From :: string
  ms_To :: string
  ms_Text :: string
  ms_Error :: string
  ms_At :: gtime
  ms_Delivered :: bool
  ms_Task :: string
  ms_Kind :: string

definition relay_row :: "int \<Rightarrow> Message \<Rightarrow> Relay" where
  "relay_row i m = \<lparr>rl_ID = i, rl_From = ms_From m, rl_To = ms_To m, rl_At = unix_of (ms_At m), rl_Size = int (length (ms_Text m)),
     rl_Delivered = ms_Delivered m, rl_Text = ms_Text m, rl_Error = nullStr (ms_Error m), rl_Task = nullStr (ms_Task m),
     rl_Kind = (if ms_Kind m = '''' then KindReport else ms_Kind m), rl_Escalated = None, rl_Alerted = None, rl_DeliveredAt = None\<rparr>"

definition addRelay :: "dberr \<Rightarrow> Message \<Rightarrow> ledger \<Rightarrow> (string + int) \<times> ledger" where
  "addRelay err m g = (case err of Some e \<Rightarrow> (Inl e, g)
     | None \<Rightarrow> (Inr (lg_next_relay g), g\<lparr>lg_relays := lg_relays g @ [relay_row (lg_next_relay g) m], lg_next_relay := lg_next_relay g + 1\<rparr>))"

definition AddRelay :: "dberr \<Rightarrow> Message \<Rightarrow> ledger \<Rightarrow> dberr \<times> ledger" where
  "AddRelay err m g = (case addRelay err m g of (Inl e, g') \<Rightarrow> (Some e, g') | (Inr _, g') \<Rightarrow> (None, g'))"

definition BeginRelay :: "dberr \<Rightarrow> Message \<Rightarrow> ledger \<Rightarrow> (string + int) \<times> ledger" where
  "BeginRelay err m = addRelay err (m\<lparr>ms_Delivered := False, ms_Error := Sending\<rparr>)"

definition set_relay :: "(Relay \<Rightarrow> bool) \<Rightarrow> (Relay \<Rightarrow> Relay) \<Rightarrow> dberr \<Rightarrow> ledger \<Rightarrow> dberr \<times> ledger" where
  "set_relay p f err g = ran (g\<lparr>lg_relays := update_where p f (lg_relays g)\<rparr>) err g"

definition EndRelay :: "dberr \<Rightarrow> int \<Rightarrow> string option \<Rightarrow> ledger \<Rightarrow> dberr \<times> ledger" where
  "EndRelay err i failure = set_relay (\<lambda>r. rl_ID r = i) (\<lambda>r. r\<lparr>rl_Delivered := (failure = None), rl_Error := failure\<rparr>) err"

definition StampDelivered :: "dberr \<Rightarrow> int \<Rightarrow> gtime \<Rightarrow> ledger \<Rightarrow> dberr \<times> ledger" where
  "StampDelivered err i now = set_relay (\<lambda>r. rl_ID r = i) (\<lambda>r. r\<lparr>rl_DeliveredAt := Some (unix_of now)\<rparr>) err"

definition HoldRelay :: "dberr \<Rightarrow> int \<Rightarrow> ledger \<Rightarrow> dberr \<times> ledger" where
  "HoldRelay err i = set_relay (\<lambda>r. rl_ID r = i) (\<lambda>r. r\<lparr>rl_Delivered := False, rl_Error := Some Held\<rparr>) err"

definition on_its_way :: "Relay \<Rightarrow> bool" where
  "on_its_way r \<longleftrightarrow> rl_Error r = Some Sending \<and> \<not> rl_Delivered r"

definition InterruptRelays :: "dberr \<Rightarrow> ledger \<Rightarrow> dberr \<times> ledger" where
  "InterruptRelays err = set_relay on_its_way (\<lambda>r. r\<lparr>rl_Error := Some Interrupted\<rparr>) err"

definition MarkEscalated :: "dberr \<Rightarrow> int \<Rightarrow> gtime \<Rightarrow> ledger \<Rightarrow> dberr \<times> ledger" where
  "MarkEscalated err i now = set_relay (\<lambda>r. rl_ID r = i) (\<lambda>r. r\<lparr>rl_Escalated := Some (unix_of now)\<rparr>) err"

definition MarkAlerted :: "dberr \<Rightarrow> int \<Rightarrow> gtime \<Rightarrow> ledger \<Rightarrow> dberr \<times> ledger" where
  "MarkAlerted err i now = set_relay (\<lambda>r. rl_ID r = i) (\<lambda>r. r\<lparr>rl_Alerted := Some (unix_of now)\<rparr>) err"

definition AlertedRelay :: "dberr \<Rightarrow> int \<Rightarrow> ledger \<Rightarrow> dberr \<times> ledger" where
  "AlertedRelay err i = set_relay (\<lambda>r. rl_ID r = i) (\<lambda>r. r\<lparr>rl_Alerted := Some 1\<rparr>) err"

section \<open>What is still to be sent\<close>

text \<open>\<^verbatim>\<open>pendingWhere\<close>: held or interrupted, and worth sending: no task, or one that was open when it was
  written and whose receiver no later message of it got through to.\<close>

definition timely :: "ledger \<Rightarrow> Relay \<Rightarrow> bool" where
  "timely g r \<longleftrightarrow> (case rl_Task r of None \<Rightarrow> True
     | Some t \<Rightarrow> (\<exists>k\<in>set (lg_tasks g). tk_ID k = t \<and> (case tk_Closed k of None \<Rightarrow> True | Some c \<Rightarrow> c \<le> rl_At r)))"

definition overtaken :: "ledger \<Rightarrow> Relay \<Rightarrow> bool" where
  "overtaken g r \<longleftrightarrow> rl_Task r \<noteq> None \<and>
     (\<exists>l\<in>set (lg_relays g). rl_Task l = rl_Task r \<and> rl_To l = rl_To r \<and> rl_ID r < rl_ID l \<and> rl_Delivered l)"

definition kept :: "Relay \<Rightarrow> bool" where
  "kept r \<longleftrightarrow> rl_Error r = Some Interrupted \<or> rl_Error r = Some Held"

definition pendingWhere :: "ledger \<Rightarrow> Relay \<Rightarrow> bool" where
  "pendingWhere g r \<longleftrightarrow> kept r \<and> timely g r \<and> \<not> overtaken g r"

definition PendingRelays :: "dberr \<Rightarrow> string \<Rightarrow> gtime \<Rightarrow> ledger \<Rightarrow> string + Relay list" where
  "PendingRelays err agent since g = (case err of Some m \<Rightarrow> Inl m
     | None \<Rightarrow> Inr (sort_key rl_ID (filter (\<lambda>r. rl_To r = agent \<and> unix_of since \<le> rl_At r \<and> pendingWhere g r) (lg_relays g))))"

definition HeldBefore :: "dberr \<Rightarrow> gtime \<Rightarrow> ledger \<Rightarrow> string + Relay list" where
  "HeldBefore err before g = (case err of Some m \<Rightarrow> Inl m
     | None \<Rightarrow> Inr (sort_key rl_ID (filter (\<lambda>r. rl_At r < unix_of before \<and> coalesce 0 (rl_Alerted r) = 0 \<and> pendingWhere g r) (lg_relays g))))"

section \<open>Reading\<close>

definition InboxOf :: "dberr \<Rightarrow> string \<Rightarrow> int \<Rightarrow> ledger \<Rightarrow> string + Relay list" where
  "InboxOf err to after g = (case err of Some m \<Rightarrow> Inl m
     | None \<Rightarrow> Inr (sort_key rl_ID (filter (\<lambda>r. rl_To r = to \<and> after < rl_ID r) (lg_relays g))))"

definition task_agent :: "string \<Rightarrow> ledger \<Rightarrow> string option" where
  "task_agent t g = (case row_of tk_ID t (lg_tasks g) of None \<Rightarrow> None | Some r \<Rightarrow> tk_Agent r)"

definition taskRelays :: "(Relay \<Rightarrow> bool) \<Rightarrow> dberr \<Rightarrow> string \<Rightarrow> int \<Rightarrow> ledger \<Rightarrow> string + Relay list" where
  "taskRelays extra err t after g = (case err of Some m \<Rightarrow> Inl m
     | None \<Rightarrow> Inr (sort_key rl_ID (filter (\<lambda>r. rl_Task r = Some t \<and> after < rl_ID r \<and> extra r) (lg_relays g))))"

definition TaskReports :: "dberr \<Rightarrow> string \<Rightarrow> int \<Rightarrow> ledger \<Rightarrow> string + Relay list" where
  "TaskReports err t after g = taskRelays (\<lambda>r. task_agent t g = Some (rl_From r)) err t after g"

definition TaskThread :: "dberr \<Rightarrow> string \<Rightarrow> ledger \<Rightarrow> string + Relay list" where
  "TaskThread err t g = taskRelays (\<lambda>_. True) err t 0 g"

definition max_id :: "Relay list \<Rightarrow> int" where
  "max_id rs = fold (\<lambda>r n. max (rl_ID r) n) rs 0"

definition LastInstruction :: "dberr \<Rightarrow> string \<Rightarrow> ledger \<Rightarrow> string + int" where
  "LastInstruction err t g = (case err of Some m \<Rightarrow> Inl m
     | None \<Rightarrow> Inr (max_id (filter (\<lambda>r. rl_Task r = Some t \<and> task_agent t g \<noteq> Some (rl_From r)) (lg_relays g))))"

definition Owes :: "dberr \<Rightarrow> string \<Rightarrow> ledger \<Rightarrow> string + bool" where
  "Owes err t g = (case err of Some m \<Rightarrow> Inl m
     | None \<Rightarrow> Inr (row_of tk_ID t (lg_tasks g) \<noteq> None \<and>
         max_id (filter (\<lambda>r. rl_Task r = Some t \<and> task_agent t g = Some (rl_From r)) (lg_relays g)) <
         max_id (filter (\<lambda>r. rl_Task r = Some t \<and> task_agent t g \<noteq> Some (rl_From r) \<and> rl_Delivered r) (lg_relays g))))"

record Question =
  qu_ID :: int
  qu_Task :: string
  qu_Agent :: string
  qu_Assigner :: string
  qu_Text :: string
  qu_At :: gtime
  qu_Escalated :: gtime
  qu_Alerted :: gtime

definition unanswered_row :: "ledger \<Rightarrow> Relay \<Rightarrow> bool" where
  "unanswered_row g r \<longleftrightarrow> rl_Kind r = KindQuestion \<and>
     (case rl_Task r of None \<Rightarrow> False | Some t \<Rightarrow> (case row_of tk_ID t (lg_tasks g) of None \<Rightarrow> False
        | Some k \<Rightarrow> tk_Agent k = Some (rl_From r) \<and> tk_Closed k = None)) \<and>
     (rl_Delivered r \<or> rl_Error r \<notin> set [Some Sending, Some Held, Some Interrupted]) \<and>
     \<not> (\<exists>l\<in>set (lg_relays g). rl_Task l = rl_Task r \<and> rl_ID r < rl_ID l)"

definition question_of :: "ledger \<Rightarrow> Relay \<Rightarrow> Question" where
  "question_of g r = (let t = coalesce '''' (rl_Task r)
     in \<lparr>qu_ID = rl_ID r, qu_Task = t, qu_Agent = coalesce '''' (task_agent t g),
         qu_Assigner = (case row_of tk_ID t (lg_tasks g) of None \<Rightarrow> '''' | Some k \<Rightarrow> coalesce '''' (tk_Assigner k)), qu_Text = rl_Text r,
         qu_At = of_unix (coalesce (rl_At r) (rl_DeliveredAt r)), qu_Escalated = fromUnix (rl_Escalated r), qu_Alerted = fromUnix (rl_Alerted r)\<rparr>)"

definition Unanswered :: "dberr \<Rightarrow> ledger \<Rightarrow> string + Question list" where
  "Unanswered err g = (case err of Some m \<Rightarrow> Inl m
     | None \<Rightarrow> Inr (map (question_of g) (sort_key rl_ID (filter (unanswered_row g) (lg_relays g)))))"

text \<open>The answers to the two queries; the answer to a question is the first message of its task after it.\<close>

definition Asking :: "dberr \<Rightarrow> dberr \<Rightarrow> string \<Rightarrow> ledger \<Rightarrow> string + bool \<times> gtime" where
  "Asking err1 err2 t g =
     (case err1 of Some m \<Rightarrow> Inl m
      | None \<Rightarrow> (let q = max_id (filter (\<lambda>r. rl_Task r = Some t \<and> rl_Kind r = KindQuestion \<and> task_agent t g = Some (rl_From r)) (lg_relays g))
          in if q = 0 then Inr (False, zero_time)
             else case err2 of Some m \<Rightarrow> Inl m
              | None \<Rightarrow> (case sort_key rl_ID (filter (\<lambda>r. rl_Task r = Some t \<and> q < rl_ID r) (lg_relays g)) of
                    [] \<Rightarrow> Inr (True, zero_time) | r # _ \<Rightarrow> Inr (False, of_unix (rl_At r)))))"

definition Cursor :: "dberr \<Rightarrow> string \<Rightarrow> string \<Rightarrow> ledger \<Rightarrow> string + int" where
  "Cursor err t reader g = (case err of Some m \<Rightarrow> Inl m
     | None \<Rightarrow> Inr (case row_of fst (t, reader) (lg_cursors g) of None \<Rightarrow> 0 | Some c \<Rightarrow> snd c))"

definition SetCursor :: "dberr \<Rightarrow> string \<Rightarrow> string \<Rightarrow> int \<Rightarrow> ledger \<Rightarrow> dberr \<times> ledger" where
  "SetCursor err t reader i g = ran (g\<lparr>lg_cursors := upsert fst (\<lambda>c x. (fst c, max (snd c) (snd x))) ((t, reader), i) (lg_cursors g)\<rparr>) err g"

section \<open>Events and retention\<close>

definition AddEvent :: "dberr \<Rightarrow> string \<Rightarrow> gtime \<Rightarrow> string \<Rightarrow> string \<Rightarrow> string \<Rightarrow> ledger \<Rightarrow> dberr \<times> ledger" where
  "AddEvent err agent now kind session detail g = ran (g\<lparr>lg_events := lg_events g @
     [\<lparr>fe_ID = lg_next_event g, fe_Agent = agent, fe_At = unix_of now, fe_Kind = kind, fe_Session = nullStr session, fe_Detail = nullStr detail\<rparr>],
     lg_next_event := lg_next_event g + 1\<rparr>) err g"

record EventQuery =
  eq_Agent :: string
  eq_Since :: gtime
  eq_After :: int
  eq_Kinds :: "string list"
  eq_Limit :: int
  eq_Newest :: bool

definition kind_selects :: "string \<Rightarrow> string \<Rightarrow> bool" where
  "kind_selects kind k = (if HasSuffix k ''.'' then HasPrefix (ToLower kind) (ToLower k) else kind = k)"

definition EventsWhere :: "dberr \<Rightarrow> EventQuery \<Rightarrow> ledger \<Rightarrow> string + FleetEvent list" where
  "EventsWhere err q g = (case err of Some m \<Rightarrow> Inl m
     | None \<Rightarrow> (let rows = sort_key fe_ID (filter (\<lambda>e. (eq_Agent q = '''' \<or> fe_Agent e = eq_Agent q) \<and> unix_of (eq_Since q) \<le> fe_At e \<and>
            eq_After q < fe_ID e \<and> (eq_Kinds q = [] \<or> list_ex (kind_selects (fe_Kind e)) (eq_Kinds q))) (lg_events g));
          lim = (\<lambda>xs. if eq_Limit q > 0 then take (nat (eq_Limit q)) xs else xs)
        in Inr (if eq_Newest q then rev (lim (rev rows)) else lim rows)))"

definition DailyEventCounts :: "dberr \<Rightarrow> string \<Rightarrow> ledger \<Rightarrow> string + DailyCount list" where
  "DailyEventCounts err agent g = (case err of Some m \<Rightarrow> Inl m
     | None \<Rightarrow> Inr (sort_key (\<lambda>d. (dc_Day d, dc_Kind d)) (filter (\<lambda>d. dc_Agent d = agent) (lg_daily g))))"

text \<open>The day of a time: \<^verbatim>\<open>date(at, 'unixepoch')\<close>, as the number of days since 1970.\<close>

definition event_day :: "FleetEvent \<Rightarrow> string \<times> int \<times> string" where
  "event_day e = (fe_Agent e, fe_At e div 86400, fe_Kind e)"

definition daily_key :: "DailyCount \<Rightarrow> string \<times> int \<times> string" where
  "daily_key d = (dc_Agent d, dc_Day d, dc_Kind d)"

definition merge_daily :: "DailyCount \<Rightarrow> DailyCount \<Rightarrow> DailyCount" where
  "merge_daily d x = d\<lparr>dc_Count := dc_Count d + dc_Count x\<rparr>"

definition count_day :: "FleetEvent list \<Rightarrow> string \<times> int \<times> string \<Rightarrow> nat" where
  "count_day es k = length (filter (\<lambda>e. event_day e = k) es)"

definition add_counts :: "FleetEvent list \<Rightarrow> DailyCount list \<Rightarrow> DailyCount list" where
  "add_counts es ds = fold (\<lambda>k. upsert daily_key merge_daily \<lparr>dc_Agent = fst k, dc_Day = fst (snd k), dc_Kind = snd (snd k), dc_Count = count_day es k\<rparr>)
     (remdups (map event_day es)) ds"

text \<open>One transaction, of the events and the relays here.\<close>

definition Retain :: "dberr \<Rightarrow> gtime \<Rightarrow> duration \<Rightarrow> duration \<Rightarrow> ledger \<Rightarrow> dberr \<times> ledger" where
  "Retain err now events_raw relays g =
     (let old_at = unix_of (now - events_raw); old = filter (\<lambda>e. fe_At e < old_at) (lg_events g)
      in ran (g\<lparr>lg_daily := add_counts old (lg_daily g), lg_events := delete_where (\<lambda>e. fe_At e < old_at) (lg_events g),
            lg_relays := delete_where (\<lambda>r. rl_At r < unix_of (now - relays) \<and> \<not> pendingWhere g r) (lg_relays g)\<rparr>) err g)"

end
