(* ===== verification/Fleet_Delivery.thy ===== *)
theory Fleet_Delivery
  imports Fleet_Relays Reconcile
begin

text \<open>
  \<^verbatim>\<open>fleet/internal/daemon\<close>: how fleetd hands agents their tasks and delivers what sessions write to each
  other (\<^verbatim>\<open>daemon.go\<close>, \<^verbatim>\<open>followup.go\<close>, \<^verbatim>\<open>ask.go\<close>). The throwaway session that delivers a message
  (\<^verbatim>\<open>Box.Relay\<close>) answers by all it was asked before; every try is recorded. The events fleetd writes
  about what it does are left out.
\<close>

section \<open>The fleet\<close>

record fleet_conf =
  fc_workers :: "string list"
  fc_orchestrator :: string
  fc_sandboxes :: "string list"
  fc_siblings :: "string \<Rightarrow> string list"
  fc_HeldAlertAfter :: duration
  fc_EventsRaw :: duration
  fc_RelayText :: duration

text \<open>One try to deliver a message. Of the fleet, \<open>fd_alerted\<close> is when each alert text last went out, and
  \<open>fd_typed\<close> what fleetd typed into sessions.\<close>

record delivery_try =
  ty_To :: string
  ty_From :: string
  ty_Text :: string
  ty_OK :: bool

record ask =
  ak_Answer :: "string option"
  ak_Done :: bool

record fleet =
  fd_ledger :: ledger
  fd_states :: "string \<Rightarrow> State"
  fd_resendFailed :: "string \<Rightarrow> gtime"
  fd_resendFails :: "string \<Rightarrow> nat"
  fd_asks :: "(string \<times> ask) list"
  fd_outboxAlerted :: "string list"
  fd_lastRetain :: gtime
  fd_alerts :: "(string \<times> string) list"
  fd_tries :: "delivery_try list"
  fd_alerted :: "(string \<times> gtime) list"
  fd_typed :: "(string \<times> string) list"

text \<open>The answers of the world: of a try, whether the caller has gone, what redacting makes of a text, and of
  the ledger's driver, for a relay where it is asked about one. \<open>fw_notifier\<close>: fleetd was given a notifier. \<open>fw_clock\<close> and \<open>fw_dur\<close> are the texts of a time and of a duration.\<close>

record fleet_world =
  fw_relay :: "delivery_try list \<Rightarrow> string \<Rightarrow> string \<Rightarrow> string \<Rightarrow> string option"
  fw_gone :: "delivery_try list \<Rightarrow> bool"
  fw_redact :: "string \<Rightarrow> string"
  fw_begin :: dberr
  fw_end :: "int \<Rightarrow> dberr"
  fw_hold :: "int \<Rightarrow> dberr"
  fw_stamp :: "int \<Rightarrow> dberr"
  fw_pending :: dberr
  fw_read :: dberr
  fw_write :: dberr
  fw_each :: "string \<Rightarrow> dberr"
  fw_interrupt :: "string \<Rightarrow> string option"
  fw_notify :: dberr
  fw_notifier :: bool
  fw_clock :: "gtime \<Rightarrow> string"
  fw_dur :: "duration \<Rightarrow> string"

definition with_ledger :: "ledger \<Rightarrow> fleet \<Rightarrow> fleet" where
  "with_ledger g f = f\<lparr>fd_ledger := g\<rparr>"

definition known :: "fleet_conf \<Rightarrow> string \<Rightarrow> bool" where
  "known c name \<longleftrightarrow> name \<in> set (fc_workers c)"

definition inbox :: "fleet_conf \<Rightarrow> fleet_world \<Rightarrow> string \<Rightarrow> fleet \<Rightarrow> bool" where
  "inbox c w name f = (if IsPerson name then True
     else if known c name \<or> name = fc_orchestrator c then False
     else IsSession (fw_read w) name (fd_ledger f))"

definition unable :: "fleet_conf \<Rightarrow> string \<Rightarrow> fleet \<Rightarrow> string option" where
  "unable c to f = (if \<not> known c to then None
     else if st_UnreachableSince (fd_states f to) \<noteq> zero_time then Some ''its host does not answer''
     else if st_Phase (fd_states f to) = Down then Some ''its container is down'' else None)"

section \<open>Relaying\<close>

definition try_once :: "fleet_world \<Rightarrow> string \<Rightarrow> string \<Rightarrow> string \<Rightarrow> fleet \<Rightarrow> string option \<times> fleet" where
  "try_once w to from text f = (let err = fw_relay w (fd_tries f) to from text
     in (err, f\<lparr>fd_tries := fd_tries f @ [\<lparr>ty_To = to, ty_From = from, ty_Text = text, ty_OK = (err = None)\<rparr>]\<rparr>))"

text \<open>The tries of a message after the first, as many as there are pauses.\<close>

fun relay_again :: "nat \<Rightarrow> fleet_world \<Rightarrow> string \<Rightarrow> string \<Rightarrow> string \<Rightarrow> string option \<Rightarrow> fleet \<Rightarrow> string option \<times> fleet" where
  "relay_again 0 w to from text err f = (err, f)"
| "relay_again (Suc n) w to from text err f =
     (if err = None \<or> fw_gone w (fd_tries f) then (err, f)
      else (let (err', f') = try_once w to from text f in relay_again n w to from text err' f'))"

definition relayBackoff :: nat where "relayBackoff = 2"

definition relay :: "fleet_world \<Rightarrow> string \<Rightarrow> string \<Rightarrow> string \<Rightarrow> fleet \<Rightarrow> string option \<times> fleet" where
  "relay w to from text f = (let (err, f1) = try_once w to from text f in relay_again relayBackoff w to from text err f1)"

definition resendNote :: string where
  "resendNote = ''[fleetd restarted while it was delivering this message, so it is sent again. If you already have it, ignore this copy.]''"

definition heldNote :: "string \<Rightarrow> string" where
  "heldNote clk = ''[fleetd could not reach you when this was sent ('' @ clk @
     ''), so it comes now. If you already have it, ignore this copy.]''"

definition noted_text :: "fleet_world \<Rightarrow> Relay \<Rightarrow> string" where
  "noted_text w r = (if rl_Error r = Some Held then heldNote (fw_clock w (of_unix (rl_At r))) else resendNote) @ [CHR 0x0A] @ rl_Text r"

definition note_failure :: "fleet_conf \<Rightarrow> string \<Rightarrow> string option \<Rightarrow> gtime \<Rightarrow> fleet \<Rightarrow> fleet" where
  "note_failure c name err now f =
     (case err of None \<Rightarrow> f\<lparr>fd_resendFails := (fd_resendFails f)(name := 0), fd_resendFailed := (fd_resendFailed f)(name := zero_time)\<rparr>
      | Some _ \<Rightarrow> f\<lparr>fd_resendFails := (if unable c name f = None then (fd_resendFails f)(name := fd_resendFails f name + 1) else fd_resendFails f),
                  fd_resendFailed := (fd_resendFailed f)(name := now)\<rparr>)"

definition got_through :: "fleet_world \<Rightarrow> int \<Rightarrow> gtime \<Rightarrow> ledger \<Rightarrow> ledger" where
  "got_through w i now g = (case EndRelay (fw_end w i) i None g of
     (Some _, g1) \<Rightarrow> g1 | (None, g1) \<Rightarrow> snd (StampDelivered (fw_stamp w i) i now g1))"

fun flush_each :: "fleet_conf \<Rightarrow> fleet_world \<Rightarrow> string \<Rightarrow> gtime \<Rightarrow> Relay list \<Rightarrow> fleet \<Rightarrow> string option \<times> fleet" where
  "flush_each c w name now [] f = (None, f)"
| "flush_each c w name now (r # rs) f =
     (let (err, f1) = try_once w name (rl_From r) (noted_text w r) f; f2 = note_failure c name err now f1
      in if err = None then flush_each c w name now rs (with_ledger (got_through w (rl_ID r) now (fd_ledger f2)) f2)
         else (err, if rl_Error r = Some Interrupted then with_ledger (snd (HoldRelay (fw_hold w (rl_ID r)) (rl_ID r) (fd_ledger f2))) f2 else f2))"

definition flush :: "fleet_conf \<Rightarrow> fleet_world \<Rightarrow> string \<Rightarrow> gtime \<Rightarrow> fleet \<Rightarrow> string option \<times> fleet" where
  "flush c w name now f = (case PendingRelays (fw_pending w) name zero_time (fd_ledger f) of
     Inl _ \<Rightarrow> (None, f) | Inr pend \<Rightarrow> flush_each c w name now pend f)"

definition resendEvery :: duration where "resendEvery = 30 * second"
definition resendMax :: duration where "resendMax = 5 * minute"

text \<open>\<open>busy\<close>: a send to the receiver is under way.\<close>

definition resend :: "fleet_conf \<Rightarrow> fleet_world \<Rightarrow> bool \<Rightarrow> string \<Rightarrow> gtime \<Rightarrow> fleet \<Rightarrow> fleet" where
  "resend c w busy name now f =
     (if busy \<or> time_sub now (fd_resendFailed f name) < min (resendEvery * 2 ^ min (fd_resendFails f name) 4) resendMax then f
      else snd (flush c w name now f))"

section \<open>Sending\<close>

datatype send_error = SendFail string | SendHeld string string

definition noTask :: string where "noTask = ''-''"
definition lateWindow :: duration where "lateWindow = 30 * minute"

definition reportTask :: "fleet_world \<Rightarrow> string \<Rightarrow> gtime \<Rightarrow> fleet \<Rightarrow> string" where
  "reportTask w agent now f =
     (if st_Task (fd_states f agent) \<noteq> '''' then st_Task (fd_states f agent)
      else case LatestTask (fw_read w) agent (fd_ledger f) of
          Inr (Some t) \<Rightarrow> (if ta_Closed t = zero_time \<or> time_sub now (ta_Closed t) < lateWindow then ta_ID t else '''')
        | _ \<Rightarrow> '''')"

definition filed_under :: "fleet_conf \<Rightarrow> fleet_world \<Rightarrow> string \<Rightarrow> string \<Rightarrow> string \<Rightarrow> gtime \<Rightarrow> fleet \<Rightarrow> string" where
  "filed_under c w from to task now f =
     (let t0 = (if known c from \<and> task = '''' then reportTask w from now f else task);
          t1 = (if known c from \<and> task = '''' \<and> known c to \<and> t0 \<noteq> ''''
                then (case read_task (fw_read w) t0 (fd_ledger f) of Inr (Some t) \<Rightarrow> (if ta_Assigner t = to then t0 else '''') | _ \<Rightarrow> '''')
                else t0)
      in if t1 = noTask then '''' else t1)"

definition message :: "string \<Rightarrow> string \<Rightarrow> string \<Rightarrow> string \<Rightarrow> string \<Rightarrow> gtime \<Rightarrow> bool \<Rightarrow> Message" where
  "message from to text task kind now delivered = \<lparr>ms_From = from, ms_To = to, ms_Text = text, ms_Error = '''', ms_At = now,
     ms_Delivered = delivered, ms_Task = task, ms_Kind = kind\<rparr>"

text \<open>
  A send has two parts: it is checked and put on the ledger, and then it waits for its turn and goes out. The
  first ends a message to an inbox; otherwise it leaves the answer of \<^verbatim>\<open>BeginRelay\<close>, and the text goes
  out as it was redacted.
\<close>

definition deliver_begin :: "fleet_conf \<Rightarrow> fleet_world \<Rightarrow> string \<Rightarrow> string \<Rightarrow> string \<Rightarrow> string \<Rightarrow> string \<Rightarrow> gtime \<Rightarrow> fleet \<Rightarrow>
    (send_error option + (string + int)) \<times> fleet" where
  "deliver_begin c w from to text task kind now f =
     (if from \<noteq> fc_orchestrator c \<and> \<not> inbox c w from f \<and> \<not> known c from then (Inl (Some (SendFail ''unknown sender'')), f)
      else let task' = filed_under c w from to task now f
        in if inbox c w to f
           then (if inbox c w from f \<and> IsPerson from \<and> IsPerson to
                 then (Inl (Some (SendFail ''people read the ledger'')), f)
                 else (let (e, g) = AddRelay (fw_begin w) (message from to (fw_redact w text) task' kind now True) (fd_ledger f)
                       in (Inl (map_option SendFail e), with_ledger g f)))
           else if to \<noteq> fc_orchestrator c \<and> \<not> known c to then (Inl (Some (SendFail ''no agent of that name'')), f)
           else (let (r, g) = BeginRelay (fw_begin w) (message from to (fw_redact w text) task' kind now False) (fd_ledger f)
                 in (Inr r, with_ledger g f)))"

definition deliver_rest :: "fleet_conf \<Rightarrow> fleet_world \<Rightarrow> string \<Rightarrow> string \<Rightarrow> string \<Rightarrow> gtime \<Rightarrow> bool \<Rightarrow> string + int \<Rightarrow> fleet \<Rightarrow>
    send_error option \<times> fleet" where
  "deliver_rest c w from to text now hold begun f =
     (case begun of
        Inl _ \<Rightarrow> (let (err, f1) = relay w to from text f in (map_option SendFail err, f1))
      | Inr i \<Rightarrow>
          if hold then
            (let (err, f1) = (case unable c to f of Some e \<Rightarrow> (Some e, f)
                 | None \<Rightarrow> (case flush c w to now f of (Some e, f') \<Rightarrow> (Some e, f') | (None, f') \<Rightarrow> relay w to from text f'))
             in case err of
                 None \<Rightarrow> (None, with_ledger (snd (EndRelay (fw_end w i) i None (fd_ledger f1))) f1)
               | Some e \<Rightarrow> (case HoldRelay (fw_hold w i) i (fd_ledger f1) of
                     (Some _, g) \<Rightarrow> (Some (SendFail e), with_ledger g f1)
                   | (None, g) \<Rightarrow> (Some (SendHeld to e), with_ledger g f1)))
          else (let (err, f1) = relay w to from text f
                in (map_option SendFail err, with_ledger (snd (EndRelay (fw_end w i) i err (fd_ledger f1))) f1)))"

definition deliverMsg :: "fleet_conf \<Rightarrow> fleet_world \<Rightarrow> string \<Rightarrow> string \<Rightarrow> string \<Rightarrow> string \<Rightarrow> string \<Rightarrow> gtime \<Rightarrow> bool \<Rightarrow> fleet \<Rightarrow>
    send_error option \<times> fleet" where
  "deliverMsg c w from to text task kind now hold f =
     (case deliver_begin c w from to text task kind now f of
        (Inl res, f1) \<Rightarrow> (res, f1) | (Inr begun, f1) \<Rightarrow> deliver_rest c w from to (fw_redact w text) now hold begun f1)"

definition tell :: "fleet_conf \<Rightarrow> fleet_world \<Rightarrow> string \<Rightarrow> string \<Rightarrow> string \<Rightarrow> string \<Rightarrow> gtime \<Rightarrow> fleet \<Rightarrow> send_error option \<times> fleet" where
  "tell c w from to text task now = deliverMsg c w from to text task '''' now False"

definition send :: "fleet_conf \<Rightarrow> fleet_world \<Rightarrow> string \<Rightarrow> string \<Rightarrow> string \<Rightarrow> string \<Rightarrow> gtime \<Rightarrow> fleet \<Rightarrow> send_error option \<times> fleet" where
  "send c w from to text task now = deliverMsg c w from to text task '''' now True"

definition TellKind :: "fleet_conf \<Rightarrow> fleet_world \<Rightarrow> string \<Rightarrow> string \<Rightarrow> string \<Rightarrow> string \<Rightarrow> gtime \<Rightarrow> fleet \<Rightarrow> send_error option \<times> fleet" where
  "TellKind c w from to text kind now f =
     (if \<not> ValidKind kind then (Some (SendFail ''bad input''), f) else deliverMsg c w from to text '''' kind now True f)"

section \<open>What an agent queued, and what waits long\<close>

definition alert :: "string \<Rightarrow> string \<Rightarrow> fleet \<Rightarrow> fleet" where
  "alert name text f = f\<lparr>fd_alerts := fd_alerts f @ [(name, text)]\<rparr>"

record Outboxed =
  ob_File :: string
  ob_To :: string
  ob_Text :: string
  ob_Kind :: string
  ob_At :: gtime

definition outbox_key :: "string \<Rightarrow> Outboxed \<Rightarrow> string" where
  "outbox_key name m = name @ ''/'' @ ob_File m"

definition send_text :: "send_error option \<Rightarrow> string" where
  "send_text e = (case e of None \<Rightarrow> '''' | Some (SendFail m) \<Rightarrow> m | Some (SendHeld to m) \<Rightarrow>
     ''queued: '' @ to @ '' cannot take it now ('' @ m @ ''); fleetd delivers it when '' @ to @ '' is back. Do not send it again.'')"

definition outbox_one :: "fleet_conf \<Rightarrow> fleet_world \<Rightarrow> string \<Rightarrow> gtime \<Rightarrow> Outboxed \<Rightarrow> string list \<times> fleet \<Rightarrow> string list \<times> fleet" where
  "outbox_one c w name now m acc =
     (case acc of (left, f) \<Rightarrow>
       (let sent = (if ob_At m = zero_time \<or> now < ob_At m then now else ob_At m);
            key = outbox_key name m;
            (e, f1) = deliverMsg c w name (ob_To m) (ob_Text m) '''' (ob_Kind m) sent True f
        in case e of
             Some (SendFail why) \<Rightarrow>
               if ob_To m \<noteq> fc_orchestrator c \<and> \<not> inbox c w (ob_To m) f1 \<and> \<not> known c (ob_To m)
               then (left @ [ob_File m], alert name (name @ [CHR 0x27] @ ''s message to '' @ ob_To m @
                      '', queued while fleetd was away, could not be delivered: '' @ why)
                      (f1\<lparr>fd_outboxAlerted := removeAll key (fd_outboxAlerted f1)\<rparr>))
               else if fc_HeldAlertAfter c \<le> time_sub now sent \<and> key \<notin> set (fd_outboxAlerted f1)
               then (left, alert name (name @ [CHR 0x27] @ ''s message to '' @ ob_To m @ '' has been queued '' @ fw_dur w (time_sub now sent) @
                      '' and cannot be sent yet ('' @ why @ ''); it stays queued'')
                      (f1\<lparr>fd_outboxAlerted := key # fd_outboxAlerted f1\<rparr>))
               else (left, f1)
           | _ \<Rightarrow> (left @ [ob_File m], f1\<lparr>fd_outboxAlerted := removeAll key (fd_outboxAlerted f1)\<rparr>)))"

text \<open>The files that are acknowledged, and so leave the agent's outbox.\<close>

definition deliverOutbox :: "fleet_conf \<Rightarrow> fleet_world \<Rightarrow> string \<Rightarrow> Outboxed list \<Rightarrow> gtime \<Rightarrow> fleet \<Rightarrow> string list \<times> fleet" where
  "deliverOutbox c w name msgs now f = fold (outbox_one c w name now) msgs ([], f)"

definition alert_one :: "fleet_world \<Rightarrow> gtime \<Rightarrow> Relay \<Rightarrow> fleet \<Rightarrow> fleet" where
  "alert_one w now r f =
     (let what = (if coalesce '''' (rl_Task r) \<noteq> '''' then ''the message on task '' @ coalesce '''' (rl_Task r) @ '' from '' @ rl_From r
                  else ''a message from '' @ rl_From r);
          f1 = alert (rl_To r) (what @ '' to '' @ rl_To r @ '' has been held '' @ fw_dur w (time_sub now (of_unix (rl_At r))) @
                 '': '' @ rl_To r @ '' cannot take it yet; it is delivered when it can'') f
      in with_ledger (snd (AlertedRelay (fw_hold w (rl_ID r)) (rl_ID r) (fd_ledger f1))) f1)"

definition alertHeld :: "fleet_conf \<Rightarrow> fleet_world \<Rightarrow> gtime \<Rightarrow> fleet \<Rightarrow> fleet" where
  "alertHeld c w now f = (case HeldBefore (fw_pending w) (now - fc_HeldAlertAfter c) (fd_ledger f) of
     Inl _ \<Rightarrow> f | Inr long \<Rightarrow> fold (alert_one w now) long f)"

definition retain :: "fleet_conf \<Rightarrow> fleet_world \<Rightarrow> gtime \<Rightarrow> fleet \<Rightarrow> fleet" where
  "retain c w now f =
     (if 24 * hour < time_sub now (fd_lastRetain f)
      then with_ledger (snd (Retain (fw_write w) now (fc_EventsRaw c) (fc_RelayText c) (fd_ledger f))) (f\<lparr>fd_lastRetain := now\<rparr>) else f)"

section \<open>Starting again\<close>

text \<open>A new fleetd reads the states the last one saved; what was on its way is interrupted, and what it only
  held in memory is gone. \<open>blank\<close> is a state with nothing in it. The row of each agent is not modelled.\<close>

definition New :: "fleet_conf \<Rightarrow> dberr \<Rightarrow> (string \<Rightarrow> State option) \<Rightarrow> State \<Rightarrow> fleet \<Rightarrow> string option \<times> fleet" where
  "New c err saved blank f =
     (case InterruptRelays err (fd_ledger f) of (Some m, _) \<Rightarrow> (Some m, f)
      | (None, g) \<Rightarrow> (None, f\<lparr>fd_ledger := g,
          fd_states := (\<lambda>n. if known c n then (case saved n of None \<Rightarrow> blank\<lparr>st_Name := n, st_Phase := Standby\<rparr> | Some st \<Rightarrow> st) else blank),
          fd_resendFailed := (\<lambda>_. zero_time), fd_resendFails := (\<lambda>_. 0), fd_asks := [], fd_outboxAlerted := [], fd_lastRetain := zero_time, fd_alerted := []\<rparr>))"

end
