(* ===== verification/Fleet_Tasks.thy ===== *)
theory Fleet_Tasks
  imports Fleet_Delivery
begin

text \<open>
  \<^verbatim>\<open>fleet/internal/daemon\<close>: giving an agent a task and ending it (\<^verbatim>\<open>daemon.go\<close> Assign, Done, Close,
  Enable), following up and cancelling (\<^verbatim>\<open>followup.go\<close>), and the questions an agent is blocked on
  (\<^verbatim>\<open>ask.go\<close>). A worker's lock is held by each of these for its whole length, so each is one step.
\<close>

section \<open>Assigning\<close>

definition set_state :: "State \<Rightarrow> fleet \<Rightarrow> fleet" where
  "set_state st f = f\<lparr>fd_states := (fd_states f)(st_Name st := st)\<rparr>"

definition assigned_state :: "string \<Rightarrow> gtime \<Rightarrow> State \<Rightarrow> State" where
  "assigned_state task now st = st\<lparr>st_Task := task, st_Done := False, st_DoneAt := zero_time, st_NudgedAt := zero_time, st_LastBusy := now\<rparr>"

definition assign :: "fleet_world \<Rightarrow> string \<Rightarrow> string \<Rightarrow> string \<Rightarrow> gtime \<Rightarrow> fleet \<Rightarrow> string option \<times> fleet" where
  "assign w name task from now f =
     (let st = fd_states f name
      in if st_Phase st = Disabled then (Some (name @ '' is disabled''), f)
         else (let f1 = set_state (assigned_state task now st) f;
                   ((ids, err), g1) = SupersedeOpen (fw_read w) (fw_each w) (fw_each w) name task now (fd_ledger f1)
               in case err of Some m \<Rightarrow> (Some m, with_ledger g1 f1)
                  | None \<Rightarrow> (let (e, g2) = OpenTask (fw_write w) task name from now g1 in (e, with_ledger g2 f1))))"

definition OperatorAssigner :: "string \<Rightarrow> bool" where
  "OperatorAssigner assigner \<longleftrightarrow> assigner \<noteq> '''' \<and> \<not> Contains assigner ''@''"

definition adminWork :: "fleet_conf \<Rightarrow> string \<Rightarrow> string \<Rightarrow> bool" where
  "adminWork c worker from \<longleftrightarrow> worker \<notin> set (fc_sandboxes c) \<and> OperatorAssigner from"

definition Assign :: "fleet_conf \<Rightarrow> fleet_world \<Rightarrow> string \<Rightarrow> string \<Rightarrow> string \<Rightarrow> string \<Rightarrow> gtime \<Rightarrow> fleet \<Rightarrow> send_error option \<times> fleet" where
  "Assign c w name task from brief now f =
     (if \<not> known c name then (Some (SendFail ''no agent of that name''), f)
      else case assign w name task from now f of
          (Some m, f1) \<Rightarrow> (Some (SendFail m), f1)
        | (None, f1) \<Rightarrow>
            (case SetTaskAdminWork (fw_write w) task (adminWork c name from) (fd_ledger f1) of
               (Some m, g) \<Rightarrow> (Some (SendFail m), with_ledger g f1)
             | (None, g) \<Rightarrow> if TrimSpace brief = '''' then (None, with_ledger g f1)
                 else send c w from name brief task now (with_ledger g f1)))"

section \<open>Ending a task\<close>

definition taskOwner :: "fleet_world \<Rightarrow> string \<Rightarrow> fleet \<Rightarrow> string + string" where
  "taskOwner w task f =
     (if task = '''' then Inl ''name an agent or a --task''
      else case read_task (fw_read w) task (fd_ledger f) of Inl m \<Rightarrow> Inl m | Inr None \<Rightarrow> Inl ''no task'' | Inr (Some t) \<Rightarrow> Inr (ta_Agent t))"

definition owner_or :: "fleet_world \<Rightarrow> string \<Rightarrow> string \<Rightarrow> fleet \<Rightarrow> string + string" where
  "owner_or w name task f = (if name = '''' then taskOwner w task f else Inr name)"

definition close_row :: "fleet_world \<Rightarrow> string \<Rightarrow> gtime \<Rightarrow> string \<Rightarrow> string \<Rightarrow> string \<Rightarrow> fleet \<Rightarrow> string option \<times> fleet" where
  "close_row w task now result branch pr f =
     (let (e, g) = CloseTask (fw_write w) (fw_each w) task now (if result = '''' then ''done'' else result) branch pr (fd_ledger f)
      in (e, with_ledger g f))"

definition Done :: "fleet_conf \<Rightarrow> fleet_world \<Rightarrow> string \<Rightarrow> string \<Rightarrow> string \<Rightarrow> string \<Rightarrow> string \<Rightarrow> gtime \<Rightarrow> fleet \<Rightarrow> string option \<times> fleet" where
  "Done c w name0 task0 result branch pr now f =
     (case owner_or w name0 task0 f of
        Inl m \<Rightarrow> (Some m, f)
      | Inr name \<Rightarrow>
          if \<not> known c name then (Some ''no agent of that name'', f)
          else (let st = fd_states f name; task = (if task0 = '''' then st_Task st else task0);
                    f1 = set_state (st\<lparr>st_Task := (if st_Task st = '''' then task else st_Task st), st_Done := True, st_DoneAt := now,
                           st_Phase := (if st_Phase st = Waiting then Standby else st_Phase st)\<rparr>) f
                in if task = '''' then (None, f1) else close_row w task now result branch pr f1))"

definition Close :: "fleet_conf \<Rightarrow> fleet_world \<Rightarrow> string \<Rightarrow> string \<Rightarrow> string \<Rightarrow> string \<Rightarrow> string \<Rightarrow> gtime \<Rightarrow> fleet \<Rightarrow> string option \<times> fleet" where
  "Close c w name0 task0 result branch pr now f =
     (case owner_or w name0 task0 f of
        Inl m \<Rightarrow> (Some m, f)
      | Inr name \<Rightarrow>
          if \<not> known c name then (Some ''no agent of that name'', f)
          else (let st = fd_states f name; task = (if task0 = '''' then st_Task st else task0)
                in if task = '''' then (Some (name @ '' has no open task to close''), f)
                   else close_row w task now result branch pr
                     (if st_Task st = task then set_state (st\<lparr>st_Task := '''', st_Phase := (if st_Phase st = Waiting then Standby else st_Phase st)\<rparr>) f
                      else f)))"

definition enable :: "string \<Rightarrow> fleet \<Rightarrow> fleet" where
  "enable name f = (let st = fd_states f name
     in set_state (if st_Phase st = Disabled
          then st\<lparr>st_Phase := Standby, st_DisabledReason := '''', st_Alerted := (st_Alerted st)(''disabled'' := False)\<rparr> else st) f)"

definition Enable :: "fleet_conf \<Rightarrow> string \<Rightarrow> fleet \<Rightarrow> string option \<times> fleet" where
  "Enable c name f = (if \<not> known c name then (Some ''no agent of that name'', f) else (None, fold enable (name # fc_siblings c name) f))"

section \<open>Questions and follow-ups\<close>

definition openTask :: "fleet_world \<Rightarrow> string \<Rightarrow> fleet \<Rightarrow> string + Task" where
  "openTask w i f = (case read_task (fw_read w) i (fd_ledger f) of
     Inl m \<Rightarrow> Inl m | Inr None \<Rightarrow> Inl ''no task'' | Inr (Some t) \<Rightarrow> if ta_Closed t \<noteq> zero_time then Inl ''conflict: closed'' else Inr t)"

definition answerBlocked :: "fleet_world \<Rightarrow> string \<Rightarrow> string \<Rightarrow> string \<Rightarrow> string \<Rightarrow> gtime \<Rightarrow> fleet \<Rightarrow> bool \<times> fleet" where
  "answerBlocked w task from agent text now f =
     (case row_of fst task (fd_asks f) of
        None \<Rightarrow> (False, f)
      | Some (_, a) \<Rightarrow> if ak_Done a then (False, f)
          else (True, f\<lparr>fd_ledger := snd (AddRelay (fw_begin w) (message from agent (fw_redact w text) task KindAnswer now True) (fd_ledger f)),
                      fd_asks := upsert fst (\<lambda>_ x. x) (task, \<lparr>ak_Answer = Some (fw_redact w text), ak_Done = True\<rparr>) (fd_asks f)\<rparr>))"

definition Followup :: "fleet_conf \<Rightarrow> fleet_world \<Rightarrow> string \<Rightarrow> string \<Rightarrow> string \<Rightarrow> gtime \<Rightarrow> fleet \<Rightarrow> send_error option \<times> fleet" where
  "Followup c w task from text now f =
     (case openTask w task f of
        Inl m \<Rightarrow> (Some (SendFail m), f)
      | Inr t \<Rightarrow> (case answerBlocked w task from (ta_Agent t) text now f of
            (True, f1) \<Rightarrow> (None, f1)
          | (False, f1) \<Rightarrow> send c w from (ta_Agent t) (''Task '' @ task @ '' follow-up from '' @ from @ ''. '' @ text) task now f1))"

definition Answer :: "fleet_conf \<Rightarrow> fleet_world \<Rightarrow> string \<Rightarrow> string \<Rightarrow> string \<Rightarrow> gtime \<Rightarrow> fleet \<Rightarrow> (bool \<times> send_error option) \<times> fleet" where
  "Answer c w task from text now f =
     (case openTask w task f of
        Inl m \<Rightarrow> ((False, Some (SendFail m)), f)
      | Inr t \<Rightarrow> (case answerBlocked w task from (ta_Agent t) text now f of
            (True, f1) \<Rightarrow> ((True, None), f1)
          | (False, f1) \<Rightarrow> (let (e, f2) = Followup c w task from text now f1 in ((False, e), f2))))"

definition cancel_notice :: "string \<Rightarrow> string \<Rightarrow> string \<Rightarrow> string" where
  "cancel_notice task from reason = ''Task '' @ task @ '' was cancelled by '' @ from @
     '': stop work on it now, leave the branch as it is, and report nothing further.'' @
     (if TrimSpace reason = '''' then '''' else '' '' @ TrimSpace reason)"

definition Cancel :: "fleet_conf \<Rightarrow> fleet_world \<Rightarrow> string \<Rightarrow> string \<Rightarrow> string \<Rightarrow> gtime \<Rightarrow> fleet \<Rightarrow> send_error option \<times> fleet" where
  "Cancel c w task from reason now f =
     (case openTask w task f of
        Inl m \<Rightarrow> (Some (SendFail m), f)
      | Inr t \<Rightarrow>
          (let agent = ta_Agent t;
               pressed = (if unable c agent f = None then fw_interrupt w agent else None);
               (e, f1) = send c w from agent (cancel_notice task from reason) task now f;
               (ce, f2) = Close c w agent task ''cancelled'' '''' '''' now f1
           in (case (e, ce) of
                 (Some (SendHeld to cause), None) \<Rightarrow> Some (SendHeld to cause)
               | (Some (SendHeld to cause), Some m) \<Rightarrow> Some (SendFail m)
               | (Some (SendFail m), _) \<Rightarrow> Some (SendFail m)
               | (None, Some m) \<Rightarrow> Some (SendFail m)
               | (None, None) \<Rightarrow> map_option SendFail pressed, f2)))"

text \<open>An ask is filed and then waits. Its end takes the answer, if one came.\<close>

definition two_lines :: string where "two_lines = [CHR 0x0A, CHR 0x0A]"
definition answer_with :: "string \<Rightarrow> string" where
  "answer_with task = ''fleetctl answer '' @ task @ '' '' @ [CHR 0x22] @ ''<text>'' @ [CHR 0x22]"

definition asker_text :: "fleet_conf \<Rightarrow> fleet_world \<Rightarrow> string \<Rightarrow> string \<Rightarrow> string \<Rightarrow> string \<Rightarrow> fleet \<Rightarrow> string" where
  "asker_text c w assigner task from text f = (if inbox c w assigner f then text
     else ''Task '' @ task @ '': '' @ from @ '' asks a question and is blocked until it is answered.'' @ two_lines @ text @ two_lines @
       ''Answer with: '' @ answer_with task)"

definition ask_begin :: "fleet_conf \<Rightarrow> fleet_world \<Rightarrow> string \<Rightarrow> string \<Rightarrow> gtime \<Rightarrow> fleet \<Rightarrow> (send_error + string) \<times> fleet" where
  "ask_begin c w from text now f =
     (let task = reportTask w from now f
      in if \<not> known c from \<or> TrimSpace text = '''' \<or> task = '''' then (Inl (SendFail ''bad input''), f)
         else case openTask w task f of
             Inl m \<Rightarrow> (Inl (SendFail m), f)
           | Inr t \<Rightarrow>
               if row_of fst task (fd_asks f) \<noteq> None then (Inl (SendFail ''conflict: already asking''), f)
               else (let to = (if ta_Assigner t = '''' then Operator else ta_Assigner t);
                         f1 = f\<lparr>fd_asks := fd_asks f @ [(task, \<lparr>ak_Answer = None, ak_Done = False\<rparr>)]\<rparr>
                     in case deliverMsg c w from to (asker_text c w to task from text f1) task KindQuestion now True f1 of
                          (Some (SendFail m), f2) \<Rightarrow> (Inl (SendFail m), f2\<lparr>fd_asks := delete_where (\<lambda>x. fst x = task) (fd_asks f2)\<rparr>)
                        | (_, f2) \<Rightarrow> (Inr task, f2)))"

definition ask_end :: "string \<Rightarrow> fleet \<Rightarrow> string option \<times> fleet" where
  "ask_end task f = (case row_of fst task (fd_asks f) of None \<Rightarrow> None | Some (_, a) \<Rightarrow> ak_Answer a,
     f\<lparr>fd_asks := delete_where (\<lambda>x. fst x = task) (fd_asks f)\<rparr>)"

section \<open>Questions nobody answers\<close>

definition escalates :: "fleet_conf \<Rightarrow> string \<Rightarrow> bool" where
  "escalates c assigner = (if assigner = Operator then True
     else if known c assigner \<or> assigner = fc_orchestrator c then False
     else \<not> Contains assigner ''@'' \<or> Contains assigner ''/'')"

definition guest :: "string \<Rightarrow> bool" where
  "guest assigner \<longleftrightarrow> Contains assigner ''@'' \<and> \<not> OperatorAssigner assigner"

definition not_sent :: "send_error option \<Rightarrow> bool" where
  "not_sent e \<longleftrightarrow> (case e of Some (SendFail _) \<Rightarrow> True | _ \<Rightarrow> False)"

definition ellipsis :: string where "ellipsis = [CHR 0xE2, CHR 0x80, CHR 0xA6]"

definition clip :: "string \<Rightarrow> nat \<Rightarrow> string" where
  "clip s n = (if length s \<le> n then s else take n s @ ellipsis)"

definition firstLines :: "string \<Rightarrow> nat \<Rightarrow> nat \<Rightarrow> string" where
  "firstLines s n m = (let ls = Split (TrimSpace s) (CHR 0x0A)
     in clip (Join (if n < length ls then take n ls @ [ellipsis] else ls) [CHR 0x0A]) m)"

definition escalation :: "fleet_world \<Rightarrow> Question \<Rightarrow> gtime \<Rightarrow> fleet \<Rightarrow> string" where
  "escalation w q now f =
     (let brief = (case TaskThread (fw_read w) (qu_Task q) (fd_ledger f) of Inl _ \<Rightarrow> ''(no brief on the ledger)''
            | Inr th \<Rightarrow> (case List.find (\<lambda>m. rl_From m \<noteq> qu_Agent q) th of None \<Rightarrow> ''(no brief on the ledger)''
                | Some m \<Rightarrow> firstLines (rl_Text m) 5 600))
      in ''Task '' @ qu_Task q @ '': '' @ qu_Agent q @ '' asked '' @ qu_Assigner q @ '' a question '' @ fw_dur w (time_sub now (qu_At q)) @
         '' ago and nobody has answered.'' @ two_lines @ ''Question: '' @ qu_Text q @ two_lines @ ''The brief begins:'' @ [CHR 0x0A] @ brief @
         two_lines @ ''If you can answer it, run: '' @ answer_with (qu_Task q) @ '' '' @ em_dash @ '' '' @ qu_Agent q @
         '' is blocked on it and goes on with your answer. If you cannot, leave it: you are told nothing further, and the operator gets one alert if it stays unanswered.'')"

definition retell_text :: "fleet_world \<Rightarrow> Question \<Rightarrow> gtime \<Rightarrow> string" where
  "retell_text w q now = ''Task '' @ qu_Task q @ '': '' @ qu_Agent q @ '' still waits for your answer (asked '' @
     fw_dur w (time_sub now (qu_At q)) @ '' ago): '' @ qu_Text q @ two_lines @ ''Answer with: '' @ answer_with (qu_Task q)"

definition waited_text :: "fleet_world \<Rightarrow> Question \<Rightarrow> gtime \<Rightarrow> string" where
  "waited_text w q now = qu_Agent q @ '' has waited '' @ fw_dur w (time_sub now (qu_At q)) @ '' for an answer on task '' @ qu_Task q @
     '' (asked of '' @ qu_Assigner q @ ''): '' @ clip (qu_Text q) 200"

definition mark_thread :: "fleet_world \<Rightarrow> Question \<Rightarrow> gtime \<Rightarrow> ledger \<Rightarrow> ledger" where
  "mark_thread w q now g = (case TaskThread (fw_read w) (qu_Task q) g of Inl _ \<Rightarrow> g
     | Inr th \<Rightarrow> fold (\<lambda>m g. if qu_ID q \<le> rl_ID m \<and> rl_Kind m = KindQuestion then snd (MarkEscalated (fw_write w) (rl_ID m) now g) else g) th g)"

definition retell :: "fleet_conf \<Rightarrow> fleet_world \<Rightarrow> Question \<Rightarrow> duration \<Rightarrow> gtime \<Rightarrow> fleet \<Rightarrow> fleet" where
  "retell c w q grace now f =
     (if qu_Escalated q \<noteq> zero_time \<or> time_sub now (qu_At q) < grace then f
      else case deliverMsg c w (qu_Agent q) (qu_Assigner q) (retell_text w q now) (qu_Task q) KindQuestion now True f of (e, f1) \<Rightarrow>
          if not_sent e then f1 else with_ledger (mark_thread w q now (fd_ledger f1)) f1)"

definition escalate_one :: "fleet_conf \<Rightarrow> fleet_world \<Rightarrow> duration \<Rightarrow> gtime \<Rightarrow> Question \<Rightarrow> fleet \<Rightarrow> fleet" where
  "escalate_one c w grace now q f =
     (if guest (qu_Assigner q) then retell c w q grace now f
      else if \<not> escalates c (qu_Assigner q) then f
      else if qu_Escalated q = zero_time \<and> grace \<le> time_sub now (qu_At q)
      then (let (e, f1) = (if fc_orchestrator c = '''' then (None, f)
                else deliverMsg c w (qu_Agent q) (fc_orchestrator c) (escalation w q now f) noTask '''' now True f)
            in if not_sent e then f1 else with_ledger (snd (MarkEscalated (fw_write w) (qu_ID q) now (fd_ledger f1))) f1)
      else if qu_Escalated q \<noteq> zero_time \<and> qu_Alerted q = zero_time \<and> grace \<le> time_sub now (qu_Escalated q)
      then (if fw_notify w \<noteq> None then f
            else with_ledger (snd (MarkAlerted (fw_write w) (qu_ID q) now (fd_ledger f))) (alert (qu_Agent q) (waited_text w q now) f))
      else f)"

definition escalate :: "fleet_conf \<Rightarrow> fleet_world \<Rightarrow> duration \<Rightarrow> gtime \<Rightarrow> fleet \<Rightarrow> fleet" where
  "escalate c w grace now f = (case Unanswered (fw_read w) (fd_ledger f) of
     Inl _ \<Rightarrow> f | Inr qs \<Rightarrow> fold (escalate_one c w grace now) qs f)"

section \<open>Waiting\<close>

datatype WaitResult = WaitMessage Relay | WaitClosed Task | WaitPhase Phase

text \<open>Where a wait begins: the agent, and the message after which it looks. A \<open>reader\<close> is handed each message
  of a task once (\<^verbatim>\<open>wait --new\<close>).\<close>

definition wait_from :: "fleet_conf \<Rightarrow> fleet_world \<Rightarrow> string \<Rightarrow> string \<Rightarrow> int \<Rightarrow> string \<Rightarrow> fleet \<Rightarrow> string + string \<times> int" where
  "wait_from c w agent0 task after reader f =
     (if agent0 = '''' \<and> task = '''' then Inl ''wait needs an agent or a task''
      else case (if task = '''' then Inr agent0 else case taskOwner w task f of Inl m \<Rightarrow> Inl m
                 | Inr a \<Rightarrow> Inr (if agent0 = '''' then a else agent0)) of
          Inl m \<Rightarrow> Inl m
        | Inr agent \<Rightarrow>
            if \<not> known c agent then Inl ''no agent of that name''
            else (case (if reader \<noteq> '''' then Cursor (fw_read w) task reader (fd_ledger f)
                        else if task \<noteq> '''' \<and> after = 0 then LastInstruction (fw_read w) task (fd_ledger f) else Inr after) of
                    Inl m \<Rightarrow> Inl m | Inr a \<Rightarrow> Inr (agent, a)))"

definition wait_phase :: "State \<Rightarrow> gtime \<Rightarrow> WaitResult option" where
  "wait_phase st now =
     (if st_Phase st \<in> {Down, CodeMissing, Cooling, Disabled} \<and> \<not> Recovering st now then Some (WaitPhase (st_Phase st))
      else if OutOfReach st (st_RecordedAt st) then Some (WaitPhase Unreachable) else None)"

text \<open>One look; with no reason to return the wait looks again after what it saw.\<close>

definition wait_look :: "fleet_world \<Rightarrow> string \<Rightarrow> string \<Rightarrow> string \<Rightarrow> gtime \<Rightarrow> int \<Rightarrow> fleet \<Rightarrow> (string + WaitResult option \<times> int) \<times> fleet" where
  "wait_look w agent task reader now after f =
     (case (if task \<noteq> '''' then TaskReports (fw_read w) task after (fd_ledger f) else InboxOf (fw_read w) Operator after (fd_ledger f)) of
        Inl m \<Rightarrow> (Inl m, f)
      | Inr msgs \<Rightarrow>
          (case List.find (\<lambda>m. task \<noteq> '''' \<or> rl_From m = agent) msgs of
             Some m \<Rightarrow>
               if reader = '''' then (Inr (Some (WaitMessage m), after), f)
               else (case SetCursor (fw_write w) task reader (rl_ID m) (fd_ledger f) of
                       (Some e, g) \<Rightarrow> (Inl e, with_ledger g f)
                     | (None, g) \<Rightarrow> (Inr (Some (WaitMessage m), after), with_ledger g f))
           | None \<Rightarrow>
               (let next = (if msgs = [] then after else rl_ID (last msgs));
                    st = fd_states f agent
                in (Inr (case (if task = '''' then Inr None else read_task (fw_read w) task (fd_ledger f)) of
                       Inr (Some t) \<Rightarrow> if ta_Closed t \<noteq> zero_time then (Some (WaitClosed t), next)
                          else (wait_phase st now, next)
                     | _ \<Rightarrow> (wait_phase st now, next)), f))))"

end
