(* ===== verification/Fleet_Moves.thy ===== *)
theory Fleet_Moves
  imports Fleet_Tasks
begin

text \<open>
  What the operations of fleetd do to the messages on its ledger. \<open>moved\<close> says how the rows of one state
  become those of a later one: a message never changes, one that is kept or under way may be delivered by a
  try that was accepted, or kept again, and new messages come after the old ones. It is transitive, so an
  operation satisfies it when its parts do.
\<close>

section \<open>How a message moves\<close>

definition same_message :: "Relay \<Rightarrow> Relay \<Rightarrow> bool" where
  "same_message r r' \<longleftrightarrow> rl_ID r' = rl_ID r \<and> rl_From r' = rl_From r \<and> rl_To r' = rl_To r \<and> rl_At r' = rl_At r \<and>
     rl_Text r' = rl_Text r \<and> rl_Task r' = rl_Task r \<and> rl_Kind r' = rl_Kind r"

definition carried :: "delivery_try list \<Rightarrow> Relay \<Rightarrow> bool" where
  "carried ts r \<longleftrightarrow> (\<exists>t\<in>set ts. ty_OK t \<and> ty_To t = rl_To r \<and> ty_From t = rl_From r \<and> drop (length (ty_Text t) - length (rl_Text r)) (ty_Text t) = rl_Text r)"

definition same_status :: "Relay \<Rightarrow> Relay \<Rightarrow> bool" where
  "same_status r r' \<longleftrightarrow> rl_Delivered r' = rl_Delivered r \<and> rl_Error r' = rl_Error r"

definition settled :: "delivery_try list \<Rightarrow> Relay \<Rightarrow> Relay \<Rightarrow> bool" where
  "settled ts r r' \<longleftrightarrow> (rl_Delivered r' \<and> rl_Error r' = None \<and> carried ts r) \<or> (\<not> rl_Delivered r' \<and> kept r')"

text \<open>\<open>H\<close> are messages that may be delivered or kept, and \<open>E\<close> those that may also fail.\<close>

definition evolved :: "int set \<Rightarrow> int set \<Rightarrow> delivery_try list \<Rightarrow> Relay \<Rightarrow> Relay \<Rightarrow> bool" where
  "evolved H E ts r r' \<longleftrightarrow> same_message r r' \<and>
     (same_status r r' \<or> ((kept r \<or> rl_ID r \<in> H \<union> E) \<and> settled ts r r') \<or> (rl_ID r \<in> E \<and> \<not> rl_Delivered r'))"

definition relayed :: "fleet_conf \<Rightarrow> Relay \<Rightarrow> bool" where
  "relayed c r \<longleftrightarrow> (known c (rl_To r) \<or> rl_To r = fc_orchestrator c) \<and> \<not> IsPerson (rl_To r) \<and> rl_Kind r \<noteq> KindAnswer"

definition born :: "fleet_conf \<Rightarrow> delivery_try list \<Rightarrow> Relay \<Rightarrow> bool" where
  "born c ts r \<longleftrightarrow> \<not> rl_Delivered r \<or> \<not> relayed c r \<or> carried ts r"

definition moved :: "fleet_conf \<Rightarrow> int set \<Rightarrow> int set \<Rightarrow> fleet \<Rightarrow> fleet \<Rightarrow> bool" where
  "moved c H E f f' \<longleftrightarrow> (\<exists>ts old new. fd_tries f' = fd_tries f @ ts \<and> lg_relays (fd_ledger f') = old @ new \<and>
     list_all2 (evolved H E ts) (lg_relays (fd_ledger f)) old \<and>
     lg_next_relay (fd_ledger f) \<le> lg_next_relay (fd_ledger f') \<and>
     map rl_ID new = [lg_next_relay (fd_ledger f)..lg_next_relay (fd_ledger f') - 1] \<and> list_all (born c ts) new)"

lemma carried_mono: "carried ts r \<Longrightarrow> set ts \<subseteq> set us \<Longrightarrow> carried us r"
  by (auto simp: carried_def)

lemma carried_same: "same_message r r' \<Longrightarrow> carried ts r' \<longleftrightarrow> carried ts r"
  by (simp add: carried_def same_message_def)

lemma evolved_mono: "evolved H E ts r r' \<Longrightarrow> set ts \<subseteq> set us \<Longrightarrow> evolved H E us r r'"
  unfolding evolved_def settled_def using carried_mono by blast

lemma evolved_refl [simp]: "evolved H E ts r r"
  by (simp add: evolved_def same_message_def same_status_def)

lemma same_message_trans: "same_message r s \<Longrightarrow> same_message s t \<Longrightarrow> same_message r t"
  by (simp add: same_message_def)

lemma settled_same: "same_message r s \<Longrightarrow> settled ts s t \<longleftrightarrow> settled ts r t"
  by (simp add: settled_def carried_same)

lemma same_status_settled: "settled ts r s \<Longrightarrow> same_status s t \<Longrightarrow> settled ts r t"
  by (auto simp: settled_def same_status_def kept_def)

lemma same_status_kept: "same_status r s \<Longrightarrow> kept s \<longleftrightarrow> kept r"
  by (auto simp: same_status_def kept_def)

lemma settled_kept: "settled ts r s \<Longrightarrow> kept s \<Longrightarrow> \<not> rl_Delivered s"
  by (auto simp: settled_def kept_def)

lemma evolved_trans:
  assumes a: "evolved H E ts r s" and b: "evolved H E ts s t"
  shows "evolved H E ts r t"
proof -
  from a have ab: "same_message r s" by (simp add: evolved_def)
  from b have bc: "same_message s t" by (simp add: evolved_def)
  have ac: "same_message r t" by (rule same_message_trans [OF ab bc])
  have ids: "rl_ID s = rl_ID r" using ab by (simp add: same_message_def)
  consider "same_status r s" | "kept r \<or> rl_ID r \<in> H \<union> E" "settled ts r s" | "rl_ID r \<in> E" "\<not> rl_Delivered s"
    using a by (auto simp: evolved_def)
  then show ?thesis
  proof cases
    case 1
    then show ?thesis using b ac ids settled_same [OF ab] same_status_kept [OF 1]
      by (auto simp: evolved_def same_status_def)
  next
    case 2
    then show ?thesis using b ac ids settled_same [OF ab] same_status_settled [OF 2(2)] by (auto simp: evolved_def)
  next
    case 3
    then show ?thesis using b ac ids settled_same [OF ab] by (auto simp: evolved_def same_status_def)
  qed
qed

lemma relayed_same: "same_message r r' \<Longrightarrow> relayed c r' = relayed c r"
  by (simp add: relayed_def same_message_def)

lemma born_evolved:
  assumes "born c ts r" and "evolved H E ts r r'"
  shows "born c ts r'"
proof -
  have same: "same_message r r'" using assms(2) by (simp add: evolved_def)
  have "\<not> rl_Delivered r' \<or> rl_Delivered r' = rl_Delivered r \<or> carried ts r"
    using assms(2) unfolding evolved_def same_status_def settled_def by blast
  then show ?thesis
    using assms(1) unfolding born_def carried_same [OF same] relayed_same [OF same] by blast
qed

lemma born_mono: "born c ts r \<Longrightarrow> set ts \<subseteq> set us \<Longrightarrow> born c us r"
  unfolding born_def using carried_mono by blast

lemma movedI:
  assumes "fd_tries f' = fd_tries f @ ts" and "lg_relays (fd_ledger f') = old @ new"
    and "list_all2 (evolved H E ts) (lg_relays (fd_ledger f)) old"
    and "lg_next_relay (fd_ledger f) \<le> lg_next_relay (fd_ledger f')"
    and "map rl_ID new = [lg_next_relay (fd_ledger f)..lg_next_relay (fd_ledger f') - 1]" and "list_all (born c ts) new"
  shows "moved c H E f f'"
  unfolding moved_def using assms by blast

lemma moved_refl: "moved c H E f f"
  by (rule movedI [where ts = "[]" and new = "[]"]) (auto simp: list.rel_refl_strong)

lemma evolved_weaken: "evolved H E ts r r' \<Longrightarrow> H \<subseteq> H' \<Longrightarrow> E \<subseteq> E' \<Longrightarrow> evolved H' E' ts r r'"
  unfolding evolved_def by blast

lemma movedE:
  assumes "moved c H E f f'"
  obtains ts old new where "fd_tries f' = fd_tries f @ ts" "lg_relays (fd_ledger f') = old @ new"
    "list_all2 (evolved H E ts) (lg_relays (fd_ledger f)) old" "lg_next_relay (fd_ledger f) \<le> lg_next_relay (fd_ledger f')"
    "map rl_ID new = [lg_next_relay (fd_ledger f)..lg_next_relay (fd_ledger f') - 1]" "list_all (born c ts) new"
  using assms unfolding moved_def by blast

lemma moved_weaken:
  assumes "moved c H E f f'" and "H \<subseteq> H'" and "E \<subseteq> E'"
  shows "moved c H' E' f f'"
  using assms(1)
proof (rule movedE)
  fix ts old new
  assume m: "fd_tries f' = fd_tries f @ ts" "lg_relays (fd_ledger f') = old @ new"
    "list_all2 (evolved H E ts) (lg_relays (fd_ledger f)) old" "lg_next_relay (fd_ledger f) \<le> lg_next_relay (fd_ledger f')"
    "map rl_ID new = [lg_next_relay (fd_ledger f)..lg_next_relay (fd_ledger f') - 1]" "list_all (born c ts) new"
  have "list_all2 (evolved H' E' ts) (lg_relays (fd_ledger f)) old"
    by (rule list_all2_mono [OF m(3)]) (rule evolved_weaken [OF _ assms(2,3)])
  then show ?thesis by (rule movedI [OF m(1,2) _ m(4-6)])
qed

lemma upto_join:
  assumes "(a::int) \<le> b" and "b \<le> c"
  shows "[a..b - 1] @ [b..c - 1] = [a..c - 1]"
proof (cases "b \<le> c - 1")
  case True
  show ?thesis using upto_split1 [OF assms(1) True] by (rule sym)
next
  case False
  with assms(2) have "b = c" by simp
  then show ?thesis by simp
qed

lemma moved_trans:
  assumes "moved c H E f g" and "moved c H E g h"
  shows "moved c H E f h"
proof -
  let ?R = "\<lambda>x. lg_relays (fd_ledger x)" and ?n = "\<lambda>x. lg_next_relay (fd_ledger x)"
  obtain ts old new where 1: "fd_tries g = fd_tries f @ ts" "?R g = old @ new" "list_all2 (evolved H E ts) (?R f) old"
      "?n f \<le> ?n g" "map rl_ID new = [?n f..?n g - 1]" "list_all (born c ts) new"
    by (rule movedE [OF assms(1)]) blast
  obtain us old' new' where 2: "fd_tries h = fd_tries g @ us" "?R h = old' @ new'" "list_all2 (evolved H E us) (?R g) old'"
      "?n g \<le> ?n h" "map rl_ID new' = [?n g..?n h - 1]" "list_all (born c us) new'"
    by (rule movedE [OF assms(2)]) blast
  from 1(2) 2(3) obtain o1 o2 where o: "old' = o1 @ o2" "list_all2 (evolved H E us) old o1" "list_all2 (evolved H E us) new o2"
    by (metis list_all2_append1)
  let ?ts = "ts @ us"
  have m1: "list_all2 (evolved H E ?ts) (?R f) old" by (rule list_all2_mono [OF 1(3)]) (auto elim: evolved_mono)
  have m2: "list_all2 (evolved H E ?ts) old o1" by (rule list_all2_mono [OF o(2)]) (auto elim: evolved_mono)
  have m3: "list_all2 (evolved H E ?ts) new o2" by (rule list_all2_mono [OF o(3)]) (auto elim: evolved_mono)
  have old: "list_all2 (evolved H E ?ts) (?R f) o1" by (rule list_all2_trans [OF evolved_trans m1 m2])
  have b1: "list_all (born c ?ts) new" using 1(6) by (auto simp: list_all_iff intro: born_mono)
  have b2: "list_all (born c ?ts) o2"
    using m3 b1 by (induction rule: list_all2_induct) (auto dest: born_evolved)
  have b3: "list_all (born c ?ts) new'" using 2(6) by (auto simp: list_all_iff intro: born_mono)
  have ids: "map rl_ID o2 = map rl_ID new"
    using m3 by (induction rule: list_all2_induct) (auto simp: evolved_def same_message_def)
  show ?thesis
    by (rule movedI [where ts = ?ts and old = o1 and new = "o2 @ new'"])
      (use 1 2 o old b2 b3 ids upto_join [OF 1(4) 2(4)] in auto)
qed

text \<open>The ids of a ledger: each once, and all given out before.\<close>

definition ids_ok :: "ledger \<Rightarrow> bool" where
  "ids_ok g \<longleftrightarrow> distinct (map rl_ID (lg_relays g)) \<and> list_all (\<lambda>r. rl_ID r < lg_next_relay g) (lg_relays g)"

lemma evolved_ids: "list_all2 (evolved H E ts) rs rs' \<Longrightarrow> map rl_ID rs' = map rl_ID rs"
  by (induction rule: list_all2_induct) (auto simp: evolved_def same_message_def)

lemma moved_ids:
  assumes "moved c H E f f'" and ok: "ids_ok (fd_ledger f)"
  shows "ids_ok (fd_ledger f')"
proof -
  obtain ts old new where m: "lg_relays (fd_ledger f') = old @ new"
      "list_all2 (evolved H E ts) (lg_relays (fd_ledger f)) old" "lg_next_relay (fd_ledger f) \<le> lg_next_relay (fd_ledger f')"
      "map rl_ID new = [lg_next_relay (fd_ledger f)..lg_next_relay (fd_ledger f') - 1]"
    by (rule movedE [OF assms(1)]) blast
  have ids: "map rl_ID (lg_relays (fd_ledger f')) = map rl_ID (lg_relays (fd_ledger f)) @ [lg_next_relay (fd_ledger f)..lg_next_relay (fd_ledger f') - 1]"
    using m evolved_ids by simp
  have small: "\<forall>i\<in>set (map rl_ID (lg_relays (fd_ledger f))). i < lg_next_relay (fd_ledger f)"
    using ok by (auto simp: ids_ok_def list_all_iff)
  have "distinct (map rl_ID (lg_relays (fd_ledger f')))" unfolding ids using ok small by (fastforce simp: ids_ok_def)
  moreover have "\<forall>i\<in>set (map rl_ID (lg_relays (fd_ledger f'))). i < lg_next_relay (fd_ledger f')"
    unfolding ids using small m(3) by auto
  ultimately show ?thesis by (auto simp: ids_ok_def list_all_iff)
qed

text \<open>Ids no old message has do not matter.\<close>

lemma moved_fresh:
  assumes "moved c H E f f'" and "\<forall>r\<in>set (lg_relays (fd_ledger f)). rl_ID r \<notin> H \<union> E"
  shows "moved c {} {} f f'"
proof -
  obtain ts old new where m: "fd_tries f' = fd_tries f @ ts" "lg_relays (fd_ledger f') = old @ new"
      "list_all2 (evolved H E ts) (lg_relays (fd_ledger f)) old" "lg_next_relay (fd_ledger f) \<le> lg_next_relay (fd_ledger f')"
      "map rl_ID new = [lg_next_relay (fd_ledger f)..lg_next_relay (fd_ledger f') - 1]" "list_all (born c ts) new"
    by (rule movedE [OF assms(1)]) blast
  have "list_all2 (evolved {} {} ts) (lg_relays (fd_ledger f)) old"
    using m(3) assms(2) by (induction rule: list_all2_induct) (auto simp: evolved_def)
  then show ?thesis by (rule movedI [OF m(1,2) _ m(4,5,6)])
qed

section \<open>The operations of the ledger\<close>

lemma moved_same:
  "lg_relays (fd_ledger f') = lg_relays (fd_ledger f) \<Longrightarrow> lg_next_relay (fd_ledger f') = lg_next_relay (fd_ledger f) \<Longrightarrow>
   fd_tries f' = fd_tries f @ ts \<Longrightarrow> moved c H E f f'"
  by (rule movedI [where new = "[]"]) (auto simp: list.rel_refl_strong)

lemma moved_update:
  assumes "lg_relays (fd_ledger f') = update_where p u (lg_relays (fd_ledger f))" and "lg_next_relay (fd_ledger f') = lg_next_relay (fd_ledger f)"
    and "fd_tries f' = fd_tries f @ ts" and "\<And>r. r \<in> set (lg_relays (fd_ledger f)) \<Longrightarrow> p r \<Longrightarrow> evolved H E ts r (u r)"
  shows "moved c H E f f'"
proof (rule movedI [where new = "[]"])
  show "list_all2 (evolved H E ts) (lg_relays (fd_ledger f)) (lg_relays (fd_ledger f'))"
    unfolding assms(1) update_where_def list.rel_map using assms(4) by (auto intro: list.rel_refl_strong)
qed (use assms in auto)

lemma ran_snd: "snd (ran a err b) = (if err = None then a else b)"
  by (simp add: ran_def split: option.splits)

lemma set_relay_next [simp]: "lg_next_relay (snd (set_relay p u err g)) = lg_next_relay g"
  by (simp add: set_relay_def ran_snd)

lemma set_relay_tasks [simp]: "lg_tasks (snd (set_relay p u err g)) = lg_tasks g"
  by (simp add: set_relay_def ran_snd)

lemma set_relay_relays:
  "lg_relays (snd (set_relay p u err g)) = (if err = None then update_where p u (lg_relays g) else lg_relays g)"
  by (simp add: set_relay_def ran_snd)

lemma with_ledger_simps [simp]:
  "fd_ledger (with_ledger g f) = g" "fd_tries (with_ledger g f) = fd_tries f" "fd_states (with_ledger g f) = fd_states f"
  "fd_asks (with_ledger g f) = fd_asks f"
  by (simp_all add: with_ledger_def)

lemma set_relay_moved:
  assumes "fd_tries f' = fd_tries f @ ts" and "fd_ledger f' = fd_ledger f"
    and "\<And>r. r \<in> set (lg_relays (fd_ledger f)) \<Longrightarrow> p r \<Longrightarrow> evolved H E ts r (u r)"
  shows "moved c H E f (with_ledger (snd (set_relay p u err (fd_ledger f'))) f')"
proof (cases "err = None")
  case True
  then show ?thesis by (intro moved_update [where p = p and u = u and ts = ts]) (use assms in \<open>simp_all add: set_relay_relays\<close>)
next
  case False
  then have "snd (set_relay p u err (fd_ledger f')) = fd_ledger f" using assms(2) by (auto simp: set_relay_def ran_snd)
  then show ?thesis by (intro moved_same [where ts = ts]) (use assms in simp_all)
qed

lemma mark_moved:
  assumes "\<And>r. same_message r (u r)" and "\<And>r. same_status r (u r)"
  shows "moved c H E f (with_ledger (snd (set_relay p u err (fd_ledger f))) f)"
  by (rule set_relay_moved [where ts = "[]"]) (use assms in \<open>auto simp: evolved_def\<close>)

lemma marks_moved:
  "moved c H E f (with_ledger (snd (MarkEscalated err i now (fd_ledger f))) f)"
  "moved c H E f (with_ledger (snd (MarkAlerted err i now (fd_ledger f))) f)"
  "moved c H E f (with_ledger (snd (AlertedRelay err i (fd_ledger f))) f)"
  "moved c H E f (with_ledger (snd (StampDelivered err i now (fd_ledger f))) f)"
  unfolding MarkEscalated_def MarkAlerted_def AlertedRelay_def StampDelivered_def
  by (rule mark_moved; simp add: same_message_def same_status_def)+

lemma row_unique: "ids_ok g \<Longrightarrow> r \<in> set (lg_relays g) \<Longrightarrow> r' \<in> set (lg_relays g) \<Longrightarrow> rl_ID r' = rl_ID r \<Longrightarrow> r' = r"
  by (auto simp: ids_ok_def distinct_map inj_on_def)

section \<open>Trying, relaying, flushing\<close>

definition accepted :: "delivery_try list \<Rightarrow> string \<Rightarrow> string \<Rightarrow> string \<Rightarrow> bool" where
  "accepted ts to from text \<longleftrightarrow> ts \<noteq> [] \<and> last ts = \<lparr>ty_To = to, ty_From = from, ty_Text = text, ty_OK = True\<rparr>"

lemma try_once_tries:
  assumes "try_once w to from text f = (err, f')"
  shows "\<exists>t. f' = f\<lparr>fd_tries := fd_tries f @ [t]\<rparr> \<and> t = \<lparr>ty_To = to, ty_From = from, ty_Text = text, ty_OK = (err = None)\<rparr>"
  using assms by (auto simp: try_once_def Let_def)

lemma relay_again_tries:
  "relay_again n w to from text err f = (err', f') \<Longrightarrow>
   \<exists>ts. f' = f\<lparr>fd_tries := fd_tries f @ ts\<rparr> \<and> length ts \<le> n \<and> (err' = None \<longrightarrow> ts = [] \<and> err = None \<or> accepted ts to from text)"
proof (induction n arbitrary: err f)
  case 0
  then show ?case by (intro exI [of _ "[]"]) auto
next
  case (Suc n)
  show ?case
  proof (cases "err = None \<or> fw_gone w (fd_tries f)")
    case True
    with Suc.prems show ?thesis by (intro exI [of _ "[]"]) auto
  next
    case False
    obtain e1 f1 where t: "try_once w to from text f = (e1, f1)" by (cases "try_once w to from text f")
    then obtain u where u: "f1 = f\<lparr>fd_tries := fd_tries f @ [u]\<rparr>" "u = \<lparr>ty_To = to, ty_From = from, ty_Text = text, ty_OK = (e1 = None)\<rparr>"
      using try_once_tries by blast
    from Suc.prems False t have "relay_again n w to from text e1 f1 = (err', f')" by simp
    from Suc.IH [OF this] obtain ts where ts: "f' = f1\<lparr>fd_tries := fd_tries f1 @ ts\<rparr>" "length ts \<le> n"
        "err' = None \<longrightarrow> ts = [] \<and> e1 = None \<or> accepted ts to from text" by blast
    show ?thesis using u ts by (intro exI [of _ "u # ts"]) (auto simp: accepted_def)
  qed
qed

lemma relay_tries:
  assumes "relay w to from text f = (err, f')"
  shows "\<exists>ts. f' = f\<lparr>fd_tries := fd_tries f @ ts\<rparr> \<and> length ts \<le> Suc relayBackoff \<and> (err = None \<longrightarrow> accepted ts to from text)"
proof -
  obtain e1 f1 where t: "try_once w to from text f = (e1, f1)" by (cases "try_once w to from text f")
  then obtain u where u: "f1 = f\<lparr>fd_tries := fd_tries f @ [u]\<rparr>" "u = \<lparr>ty_To = to, ty_From = from, ty_Text = text, ty_OK = (e1 = None)\<rparr>"
    using try_once_tries by blast
  from assms t have "relay_again relayBackoff w to from text e1 f1 = (err, f')" by (simp add: relay_def)
  from relay_again_tries [OF this] obtain ts where ts: "f' = f1\<lparr>fd_tries := fd_tries f1 @ ts\<rparr>" "length ts \<le> relayBackoff"
      "err = None \<longrightarrow> ts = [] \<and> e1 = None \<or> accepted ts to from text" by blast
  show ?thesis using u ts by (intro exI [of _ "u # ts"]) (auto simp: accepted_def)
qed

lemma accepted_carried:
  "accepted ts to (rl_From r) (p @ rl_Text r) \<Longrightarrow> rl_To r = to \<Longrightarrow> carried ts r"
  unfolding accepted_def carried_def by (intro bexI [of _ "last ts"]) (simp_all, metis last_in_set)

lemma note_failure_keeps [simp]:
  "fd_ledger (note_failure c name err now f) = fd_ledger f" "fd_tries (note_failure c name err now f) = fd_tries f"
  "fd_states (note_failure c name err now f) = fd_states f" "fd_asks (note_failure c name err now f) = fd_asks f"
  by (simp_all add: note_failure_def split: option.splits)

text \<open>Ending a message that was accepted, and holding one.\<close>

lemma end_moved:
  assumes "fd_tries f' = fd_tries f @ ts" and "fd_ledger f' = fd_ledger f"
    and "\<And>r. r \<in> set (lg_relays (fd_ledger f)) \<Longrightarrow> rl_ID r = i \<Longrightarrow> (kept r \<or> i \<in> H \<union> E) \<and> carried ts r"
  shows "moved c H E f (with_ledger (snd (EndRelay err i None (fd_ledger f'))) f')"
  unfolding EndRelay_def
  by (rule set_relay_moved [OF assms(1,2)]) (use assms(3) in \<open>auto simp: evolved_def same_message_def settled_def carried_def\<close>)

lemma hold_moved:
  assumes "fd_tries f' = fd_tries f @ ts" and "fd_ledger f' = fd_ledger f"
    and "\<And>r. r \<in> set (lg_relays (fd_ledger f)) \<Longrightarrow> rl_ID r = i \<Longrightarrow> kept r \<or> i \<in> H \<union> E"
  shows "moved c H E f (with_ledger (snd (HoldRelay err i (fd_ledger f'))) f')"
  unfolding HoldRelay_def
  by (rule set_relay_moved [OF assms(1,2)]) (use assms(3) in \<open>auto simp: evolved_def same_message_def settled_def kept_def\<close>)

lemma got_through_moved:
  assumes "fd_tries f' = fd_tries f @ ts" and "fd_ledger f' = fd_ledger f"
    and "\<And>r. r \<in> set (lg_relays (fd_ledger f)) \<Longrightarrow> rl_ID r = i \<Longrightarrow> (kept r \<or> i \<in> H \<union> E) \<and> carried ts r"
  shows "moved c H E f (with_ledger (got_through w i now (fd_ledger f')) f')"
proof -
  let ?f1 = "with_ledger (snd (EndRelay (fw_end w i) i None (fd_ledger f'))) f'"
  have m: "moved c H E f ?f1" by (rule end_moved [OF assms])
  have w: "with_ledger g (with_ledger h x) = with_ledger g x" for g h x by (simp add: with_ledger_def)
  have "moved c H E ?f1 (with_ledger (snd (StampDelivered (fw_stamp w i) i now (fd_ledger ?f1))) ?f1)" by (rule marks_moved)
  from moved_trans [OF m this] m show ?thesis
    by (auto simp: got_through_def w split: prod.splits option.splits)
qed

lemma got_through_other:
  "r \<in> set (lg_relays g) \<Longrightarrow> rl_ID r \<noteq> i \<Longrightarrow> r \<in> set (lg_relays (got_through w i now g))"
  by (auto simp: got_through_def EndRelay_def StampDelivered_def set_relay_def ran_def update_where_def image_iff
      split: prod.splits option.splits)

lemma flush_each_moved:
  "ids_ok (fd_ledger f) \<Longrightarrow> \<forall>r\<in>set rs. r \<in> set (lg_relays (fd_ledger f)) \<and> kept r \<and> rl_To r = name \<Longrightarrow> distinct (map rl_ID rs) \<Longrightarrow>
   moved c {} {} f (snd (flush_each c w name now rs f))"
proof (induction rs arbitrary: f)
  case Nil
  then show ?case by (simp add: moved_refl)
next
  case (Cons r rs)
  obtain err f1 where t: "try_once w name (rl_From r) (noted_text w r) f = (err, f1)" by (cases "try_once w name (rl_From r) (noted_text w r) f")
  then obtain u where u: "f1 = f\<lparr>fd_tries := fd_tries f @ [u]\<rparr>" "u = \<lparr>ty_To = name, ty_From = rl_From r, ty_Text = noted_text w r, ty_OK = (err = None)\<rparr>"
    using try_once_tries by blast
  let ?f2 = "note_failure c name err now f1"
  have f2: "fd_tries ?f2 = fd_tries f @ [u]" "fd_ledger ?f2 = fd_ledger f" using u by simp_all
  have r: "r \<in> set (lg_relays (fd_ledger f))" "kept r" "rl_To r = name" using Cons.prems(2) by auto
  have only: "s = r" if "s \<in> set (lg_relays (fd_ledger f))" "rl_ID s = rl_ID r" for s
    using row_unique [OF Cons.prems(1) r(1) that] .
  show ?case
  proof (cases "err = None")
    case True
    let ?f3 = "with_ledger (got_through w (rl_ID r) now (fd_ledger ?f2)) ?f2"
    have "carried [u] r"
      by (rule accepted_carried [where to = name and p = "(if rl_Error r = Some Held then heldNote (fw_clock w (of_unix (rl_At r))) else resendNote) @ [CHR 0x0A]"])
        (use u True r in \<open>auto simp: accepted_def noted_text_def\<close>)
    then have m: "moved c {} {} f ?f3" by (intro got_through_moved [OF f2]) (use only r in auto)
    have "moved c {} {} ?f3 (snd (flush_each c w name now rs ?f3))"
    proof (rule Cons.IH)
      show "ids_ok (fd_ledger ?f3)" by (rule moved_ids [OF m Cons.prems(1)])
      show "\<forall>s\<in>set rs. s \<in> set (lg_relays (fd_ledger ?f3)) \<and> kept s \<and> rl_To s = name"
      proof
        fix s
        assume s: "s \<in> set rs"
        then have "rl_ID s \<noteq> rl_ID r" using Cons.prems(3) by (metis distinct.simps(2) imageI list.map(2) list.set_map)
        then show "s \<in> set (lg_relays (fd_ledger ?f3)) \<and> kept s \<and> rl_To s = name"
          using s Cons.prems(2) f2 got_through_other by simp
      qed
      show "distinct (map rl_ID rs)" using Cons.prems(3) by simp
    qed
    from moved_trans [OF m this] True t show ?thesis by (simp add: Let_def)
  next
    case False
    have s: "moved c {} {} f ?f2" by (rule moved_same) (use f2 in auto)
    have h: "moved c {} {} f (with_ledger (snd (HoldRelay (fw_hold w (rl_ID r)) (rl_ID r) (fd_ledger ?f2))) ?f2)"
      by (rule hold_moved [OF f2]) (use only r in auto)
    from False t s h show ?thesis by (auto simp: Let_def)
  qed
qed

lemma PendingRelays_rows:
  assumes "PendingRelays err name since g = Inr rs" and "ids_ok g"
  shows "\<forall>r\<in>set rs. r \<in> set (lg_relays g) \<and> kept r \<and> rl_To r = name" "distinct (map rl_ID rs)"
  using assms by (auto simp: PendingRelays_def pendingWhere_def ids_ok_def distinct_map inj_on_def split: option.splits)

lemma flush_moved: "ids_ok (fd_ledger f) \<Longrightarrow> moved c {} {} f (snd (flush c w name now f))"
  by (auto simp: flush_def moved_refl split: sum.splits intro!: flush_each_moved dest: PendingRelays_rows)

end
