(* ===== verification/Fleet_Keeps.thy ===== *)
theory Fleet_Keeps
  imports Fleet_Moves
begin

text \<open>
  Every operation of the daemon moves the messages of its ledger as \<^verbatim>\<open>Fleet_Moves\<close> allows: a send, and
  all that send on the way (assigning, following up, cancelling, asking, escalating, the outbox).
\<close>

section \<open>A send\<close>

lemma list_all2_back: "list_all2 P xs ys \<Longrightarrow> y \<in> set ys \<Longrightarrow> \<exists>x\<in>set xs. P x y"
  by (induction rule: list_all2_induct) auto

lemma list_all2_forth: "list_all2 P xs ys \<Longrightarrow> x \<in> set xs \<Longrightarrow> \<exists>y\<in>set ys. P x y"
  by (induction rule: list_all2_induct) auto

lemma moved_row_back:
  assumes "moved c H E f f'" and "r' \<in> set (lg_relays (fd_ledger f'))" and "rl_ID r' < lg_next_relay (fd_ledger f)"
  shows "\<exists>r\<in>set (lg_relays (fd_ledger f)). same_message r r'"
proof -
  obtain ts old new where m: "lg_relays (fd_ledger f') = old @ new"
      "list_all2 (evolved H E ts) (lg_relays (fd_ledger f)) old"
      "map rl_ID new = [lg_next_relay (fd_ledger f)..lg_next_relay (fd_ledger f') - 1]"
    by (rule movedE [OF assms(1)]) blast
  have "r' \<notin> set new"
  proof
    assume "r' \<in> set new"
    then have "rl_ID r' \<in> set (map rl_ID new)" by simp
    with m(3) assms(3) show False by simp
  qed
  with assms(2) m(1) have "r' \<in> set old" by simp
  from list_all2_back [OF m(2) this] obtain r where "r \<in> set (lg_relays (fd_ledger f))" "evolved H E ts r r'" ..
  then show ?thesis by (auto simp: evolved_def)
qed

lemma moved_next: "moved c H E f f' \<Longrightarrow> lg_next_relay (fd_ledger f) \<le> lg_next_relay (fd_ledger f')"
  by (erule movedE)

definition row_is :: "int \<Rightarrow> string \<Rightarrow> string \<Rightarrow> string \<Rightarrow> fleet \<Rightarrow> bool" where
  "row_is i from to text f \<longleftrightarrow> i < lg_next_relay (fd_ledger f) \<and>
     list_all (\<lambda>r. rl_ID r = i \<longrightarrow> rl_To r = to \<and> rl_From r = from \<and> rl_Text r = text) (lg_relays (fd_ledger f))"

lemma row_is_moved: "row_is i from to text f \<Longrightarrow> moved c H E f f' \<Longrightarrow> row_is i from to text f'"
  unfolding row_is_def list_all_iff using moved_row_back moved_next by (fastforce simp: same_message_def)

lemma row_is_carried:
  assumes "row_is i from to text f" and "accepted ts to from text" and "r \<in> set (lg_relays (fd_ledger f))" and "rl_ID r = i"
  shows "carried ts r"
  using assms accepted_carried [where p = "[]"] by (fastforce simp: row_is_def list_all_iff)

lemma relay_fleet:
  assumes "relay w to from text f = (err, f')"
  obtains ts where "fd_tries f' = fd_tries f @ ts" "fd_ledger f' = fd_ledger f" "fd_states f' = fd_states f" "fd_asks f' = fd_asks f"
    "err = None \<longrightarrow> accepted ts to from text"
  using relay_tries [OF assms] by fastforce

lemma relay_end_moved:
  assumes row: "row_is i from to text f" and "i \<in> H \<union> E" and "relay w to from text f = (None, f')"
  shows "moved c H E f (with_ledger (snd (EndRelay err i None (fd_ledger f'))) f')"
  using assms(3)
proof (rule relay_fleet)
  fix ts
  assume ts: "fd_tries f' = fd_tries f @ ts" "fd_ledger f' = fd_ledger f" "(None::dberr) = None \<longrightarrow> accepted ts to from text"
  show ?thesis by (rule end_moved [OF ts(1,2)]) (use assms(2) ts(3) row_is_carried [OF row] in blast)
qed

lemma relay_moved: "relay w to from text f = (err, f') \<Longrightarrow> moved c H E f f'"
  by (erule relay_fleet) (rule moved_same; simp)

lemma fail_moved:
  assumes "i \<in> E"
  shows "moved c H E f (with_ledger (snd (EndRelay err i (Some m) (fd_ledger f))) f)"
  unfolding EndRelay_def
  by (rule set_relay_moved [where ts = "[]"]) (use assms in \<open>auto simp: evolved_def same_message_def\<close>)

lemma hold_step_moved:
  "i \<in> H \<union> E \<Longrightarrow> moved c H E f (with_ledger (snd (HoldRelay err i (fd_ledger f))) f)"
  by (rule hold_moved [where ts = "[]"]) auto

lemma deliver_rest_moved:
  assumes ok: "ids_ok (fd_ledger f)" and row: "\<And>i. begun = Inr i \<Longrightarrow> row_is i from to text f \<and> (if hold then i \<in> H \<union> E else i \<in> E)"
  shows "moved c H E f (snd (deliver_rest c w from to text now hold begun f))"
proof (cases begun)
  case (Inl e)
  then show ?thesis
    by (cases "relay w to from text f") (auto simp: deliver_rest_def intro: relay_moved)
next
  case (Inr i)
  note row = row [OF Inr]
  show ?thesis
  proof (cases hold)
    case False
    obtain err f1 where r: "relay w to from text f = (err, f1)" by (cases "relay w to from text f")
    show ?thesis
    proof (cases err)
      case None
      with r row False show ?thesis using relay_end_moved [where i = i and f = f and H = H and E = E and w = w and f' = f1] by (auto simp: deliver_rest_def Inr)
    next
      case (Some m)
      have "moved c H E f1 (with_ledger (snd (EndRelay (fw_end w i) i (Some m) (fd_ledger f1))) f1)"
        using row False by (intro fail_moved) simp
      from moved_trans [OF relay_moved [OF r] this] r Some False show ?thesis by (simp add: deliver_rest_def Inr)
    qed
  next
    case True
    define tried where "tried = (case unable c to f of Some e \<Rightarrow> (Some e, f)
      | None \<Rightarrow> (case flush c w to now f of (Some e, f') \<Rightarrow> (Some e, f') | (None, f') \<Rightarrow> relay w to from text f'))"
    obtain err f1 where tr: "tried = (err, f1)" by (cases tried)
    obtain e2 f2 where fl: "flush c w to now f = (e2, f2)" by (cases "flush c w to now f")
    have m2: "moved c H E f f2" using flush_moved [OF ok, of c w to now] fl moved_weaken by fastforce
    have row2: "row_is i from to text f2" using row row_is_moved [OF _ m2] by blast
    have hold: "moved c H E g (with_ledger (snd (HoldRelay (fw_hold w i) i (fd_ledger g))) g)" for g
      using row True by (intro hold_step_moved) simp
    show ?thesis
    proof (cases err)
      case (Some m)
      have "moved c H E f f1"
        using tr m2 relay_moved [where c = c and H = H and E = E] moved_trans [OF m2]
        unfolding tried_def fl by (fastforce simp: moved_refl split: option.splits prod.splits)
      from moved_trans [OF this hold] tr Some True show ?thesis
        unfolding tried_def by (auto simp: deliver_rest_def Inr split: prod.splits option.splits)
    next
      case None
      then have r: "relay w to from text f2 = (None, f1)"
        using tr unfolding tried_def fl by (auto split: option.splits)
      from moved_trans [OF m2 relay_end_moved [OF row2 _ r]] row tr None True show ?thesis
        unfolding tried_def by (auto simp: deliver_rest_def Inr)
    qed
  qed
qed

lemma addRelay_fleet:
  assumes "addRelay err m (fd_ledger f) = (b, g)" and "born c [] (relay_row (lg_next_relay (fd_ledger f)) m)"
  shows "moved c H E f (with_ledger g f)"
proof (cases err)
  case None
  then show ?thesis
    by (intro movedI [where ts = "[]" and old = "lg_relays (fd_ledger f)" and new = "[relay_row (lg_next_relay (fd_ledger f)) m]"])
      (use assms in \<open>auto simp: addRelay_def relay_row_def list.rel_refl_strong\<close>)
next
  case (Some e)
  with assms show ?thesis by (intro moved_same [where ts = "[]"]) (auto simp: addRelay_def)
qed

lemma inbox_not_relayed: "inbox c w to f \<Longrightarrow> rl_To r = to \<Longrightarrow> \<not> relayed c r"
  by (auto simp: inbox_def relayed_def split: if_splits)

lemma AddRelay_fleet:
  "AddRelay err m g = (e, g') \<Longrightarrow> \<exists>b. addRelay err m g = (b, g')"
  by (auto simp: AddRelay_def split: prod.splits sum.splits)

lemma filed_fleet:
  assumes "AddRelay err m (fd_ledger f) = (e, g)" and "\<not> relayed c (relay_row (lg_next_relay (fd_ledger f)) m)"
  shows "moved c H E f (with_ledger g f)"
  using AddRelay_fleet [OF assms(1)] assms(2) by (auto intro!: addRelay_fleet simp: born_def)

lemma deliver_begin_cases:
  assumes "deliver_begin c w from to text task kind now f = (b, f')"
  obtains (refused) e where "b = Inl e" "f' = f"
  | (filed) e g where "inbox c w to f" "b = Inl (map_option SendFail e)" "f' = with_ledger g f"
      "AddRelay (fw_begin w) (message from to (fw_redact w text) (filed_under c w from to task now f) kind now True) (fd_ledger f) = (e, g)"
  | (begun) r g where "b = Inr r" "f' = with_ledger g f"
      "BeginRelay (fw_begin w) (message from to (fw_redact w text) (filed_under c w from to task now f) kind now False) (fd_ledger f) = (r, g)"
proof -
  let ?m = "message from to (fw_redact w text) (filed_under c w from to task now f) kind now"
  obtain e g where a: "AddRelay (fw_begin w) (?m True) (fd_ledger f) = (e, g)" by fastforce
  obtain r g' where b: "BeginRelay (fw_begin w) (?m False) (fd_ledger f) = (r, g')" by fastforce
  show thesis
    using assms unfolding deliver_begin_def Let_def a b prod.case
    by (auto split: if_splits intro: refused filed [OF _ _ _ a] begun [OF _ _ b])
qed

lemma deliver_begin_moved: 
  assumes "deliver_begin c w from to text task kind now f = (b, f')"
  shows "moved c H E f f'"
  using assms
proof (cases rule: deliver_begin_cases)
  case refused
  then show ?thesis by (simp add: moved_refl)
next
  case (filed e g)
  have "\<not> relayed c (relay_row i (message from to x t kind now True))" for i x t
    by (rule inbox_not_relayed [OF filed(1)]) (simp add: relay_row_def message_def)
  then show ?thesis unfolding filed(3) by (rule filed_fleet [OF filed(4)])
next
  case (begun r g)
  show ?thesis unfolding begun(2)
    by (rule addRelay_fleet [OF begun(3) [unfolded BeginRelay_def]]) (simp add: born_def relay_row_def message_def)
qed

text \<open>A send that goes on has its message on the ledger, under way.\<close>

lemma deliver_begin_row:
  assumes "deliver_begin c w from to text task kind now f = (Inr (Inr i), f')" and ok: "ids_ok (fd_ledger f)"
  shows "i = lg_next_relay (fd_ledger f) \<and> row_is i from to (fw_redact w text) f' \<and>
    (\<exists>r. lg_relays (fd_ledger f') = lg_relays (fd_ledger f) @ [r] \<and> rl_ID r = i \<and> on_its_way r \<and>
       rl_From r = from \<and> rl_To r = to \<and> rl_Text r = fw_redact w text \<and> rl_At r = unix_of now \<and>
       rl_Task r = nullStr (filed_under c w from to task now f))"
  using assms(1)
proof (cases rule: deliver_begin_cases)
  case (begun r g)
  then have i: "i = lg_next_relay (fd_ledger f)" and g: "lg_next_relay g = lg_next_relay (fd_ledger f) + 1"
      "lg_relays g = lg_relays (fd_ledger f) @ [relay_row i ((message from to (fw_redact w text) (filed_under c w from to task now f) kind now False)\<lparr>ms_Delivered := False, ms_Error := Sending\<rparr>)]"
    by (auto simp: BeginRelay_def addRelay_def split: option.splits)
  have old: "\<forall>r\<in>set (lg_relays (fd_ledger f)). rl_ID r \<noteq> i" using ok i by (auto simp: ids_ok_def list_all_iff)
  show ?thesis
    unfolding begun(2) row_is_def with_ledger_simps g(2) list_all_append using g(1) i old
    by (auto simp: relay_row_def message_def on_its_way_def nullStr_def Sending_def list_all_iff)
qed auto

lemma deliverMsg_moved:
  assumes ok: "ids_ok (fd_ledger f)"
  shows "moved c {} {} f (snd (deliverMsg c w from to text task kind now hold f))"
proof -
  obtain b f1 where b: "deliver_begin c w from to text task kind now f = (b, f1)" by (cases "deliver_begin c w from to text task kind now f")
  let ?E = "{lg_next_relay (fd_ledger f)}"
  have m1: "moved c {} ?E f f1" by (rule deliver_begin_moved [OF b])
  have ok1: "ids_ok (fd_ledger f1)" by (rule moved_ids [OF m1 ok])
  have "moved c {} ?E f (snd (deliverMsg c w from to text task kind now hold f))"
  proof (cases b)
    case (Inl e)
    with b m1 show ?thesis by (simp add: deliverMsg_def)
  next
    case (Inr begun)
    have "moved c {} ?E f1 (snd (deliver_rest c w from to (fw_redact w text) now hold begun f1))"
    proof (rule deliver_rest_moved [OF ok1])
      fix i assume "begun = Inr i"
      then show "row_is i from to (fw_redact w text) f1 \<and> (if hold then i \<in> {} \<union> ?E else i \<in> ?E)"
        using b Inr deliver_begin_row [OF _ ok] by auto
    qed
    from moved_trans [OF m1 this] b Inr show ?thesis by (simp add: deliverMsg_def)
  qed
  then show ?thesis by (rule moved_fresh) (use ok in \<open>auto simp: ids_ok_def list_all_iff\<close>)
qed

section \<open>Everything that sends\<close>

definition msgs_kept :: "fleet_conf \<Rightarrow> fleet \<Rightarrow> fleet \<Rightarrow> bool" where
  "msgs_kept c f f' \<longleftrightarrow> (ids_ok (fd_ledger f) \<longrightarrow> moved c {} {} f f')"

lemma msgs_kept_refl [simp, intro]: "msgs_kept c f f"
  by (simp add: msgs_kept_def moved_refl)

lemma msgs_kept_trans: "msgs_kept c f g \<Longrightarrow> msgs_kept c g h \<Longrightarrow> msgs_kept c f h"
  unfolding msgs_kept_def using moved_trans moved_ids by blast

lemma msgs_kept_moved: "(\<And>H E. moved c H E f f') \<Longrightarrow> msgs_kept c f f'"
  by (simp add: msgs_kept_def)

lemma msgs_kept_same:
  "lg_relays (fd_ledger f') = lg_relays (fd_ledger f) \<Longrightarrow> lg_next_relay (fd_ledger f') = lg_next_relay (fd_ledger f) \<Longrightarrow>
   fd_tries f' = fd_tries f \<Longrightarrow> msgs_kept c f f'"
  unfolding msgs_kept_def by (intro impI moved_same [where ts = "[]"]) auto

text \<open>A field the messages are not in may be set on either side.\<close>

lemma msgs_kept_cong:
  "msgs_kept c f g \<Longrightarrow> lg_relays (fd_ledger g') = lg_relays (fd_ledger g) \<Longrightarrow> lg_next_relay (fd_ledger g') = lg_next_relay (fd_ledger g) \<Longrightarrow>
   fd_tries g' = fd_tries g \<Longrightarrow> msgs_kept c f g'"
  using msgs_kept_trans msgs_kept_same by blast

lemma msgs_kept_fold:
  "(\<And>x g. msgs_kept c g (h x g)) \<Longrightarrow> msgs_kept c f (fold h xs f)"
  by (induction xs arbitrary: f) (auto intro: msgs_kept_trans)

lemma deliverMsg_kept: "msgs_kept c f (snd (deliverMsg c w from to text task kind now hold f))"
  by (simp add: msgs_kept_def deliverMsg_moved)

lemma deliverMsg_kept': "deliverMsg c w from to text task kind now hold f = (e, f') \<Longrightarrow> msgs_kept c f f'"
  using deliverMsg_kept by (metis snd_conv)

lemma send_kept: "msgs_kept c f (snd (send c w from to text task now f))"
  by (simp add: send_def deliverMsg_kept)

lemma send_kept': "send c w from to text task now f = (e, f') \<Longrightarrow> msgs_kept c f f'"
  using send_kept by (metis snd_conv)

lemma marks_kept:
  "msgs_kept c f (with_ledger (snd (MarkEscalated err i now (fd_ledger f))) f)"
  "msgs_kept c f (with_ledger (snd (MarkAlerted err i now (fd_ledger f))) f)"
  "msgs_kept c f (with_ledger (snd (AlertedRelay err i (fd_ledger f))) f)"
  by (intro msgs_kept_moved marks_moved)+

text \<open>Statements on tasks, grants and cursors leave the messages alone.\<close>

definition same_relays :: "ledger \<Rightarrow> ledger \<Rightarrow> bool" where
  "same_relays g g' \<longleftrightarrow> lg_relays g' = lg_relays g \<and> lg_next_relay g' = lg_next_relay g"

lemma same_relays_trans: "same_relays g h \<Longrightarrow> same_relays h k \<Longrightarrow> same_relays g k"
  by (simp add: same_relays_def)

lemma same_relays_kept: "same_relays (fd_ledger f) g \<Longrightarrow> msgs_kept c f (with_ledger g f)"
  by (rule msgs_kept_same) (simp_all add: same_relays_def)

lemma endTaskGrants_relays: "same_relays g (snd (endTaskGrants derr ids g))"
  by (induction derr ids g rule: endTaskGrants.induct) (auto simp: same_relays_def split: option.splits)

lemma supersede_each_relays: "same_relays g (snd (supersede_each uerr now ids g))"
  by (induction uerr now ids g rule: supersede_each.induct) (auto simp: same_relays_def split: option.splits)

lemma SupersedeOpen_relays: "same_relays g (snd (SupersedeOpen qerr uerr derr agent except now g))"
proof (cases qerr)
  case None
  obtain e1 g1 where s: "supersede_each uerr now (open_of agent except g) g = (e1, g1)" by fastforce
  obtain e2 g2 where t: "endTaskGrants derr (open_of agent except g) g1 = (e2, g2)" by fastforce
  have "same_relays g g1" using supersede_each_relays s by (metis snd_conv)
  moreover have "same_relays g1 g2" using endTaskGrants_relays t by (metis snd_conv)
  ultimately have "same_relays g g1" "same_relays g g2" by (auto intro: same_relays_trans)
  then show ?thesis unfolding SupersedeOpen_def None by (simp add: s t Let_def split: option.split)
qed (simp add: SupersedeOpen_def same_relays_def)

lemma CloseTask_relays: "same_relays g (snd (CloseTask err derr i now outcm branch pr g))"
proof (cases err)
  case None
  then show ?thesis
    using endTaskGrants_relays [where derr = derr and ids = "[i]"] unfolding CloseTask_def same_relays_def by fastforce
qed (simp add: CloseTask_def same_relays_def)

lemma OpenTask_relays: "same_relays g (snd (OpenTask err i agent assigner now g))"
  by (simp add: OpenTask_def ran_snd same_relays_def)

lemma set_task_relays: "same_relays g (snd (set_task u err i g))"
  by (simp add: set_task_def ran_snd same_relays_def)

lemma SetCursor_relays: "same_relays g (snd (SetCursor err t reader i g))"
  by (simp add: SetCursor_def ran_snd same_relays_def)

section \<open>Each operation\<close>

lemma set_state_keeps [simp]:
  "fd_ledger (set_state st f) = fd_ledger f" "fd_tries (set_state st f) = fd_tries f" "fd_asks (set_state st f) = fd_asks f"
  by (simp_all add: set_state_def)

lemma set_state_kept: "msgs_kept c f (set_state st f)"
  by (rule msgs_kept_same) simp_all

lemma assign_kept: "msgs_kept c f (snd (assign w name task from now f))"
proof -
  let ?f1 = "set_state (assigned_state task now (fd_states f name)) f"
  obtain ids err g1 where s: "SupersedeOpen (fw_read w) (fw_each w) (fw_each w) name task now (fd_ledger ?f1) = ((ids, err), g1)"
    by (metis prod.collapse)
  have m: "same_relays (fd_ledger f) g1" using SupersedeOpen_relays s by (metis set_state_keeps(1) snd_conv)
  obtain e g2 where t: "OpenTask (fw_write w) task name from now g1 = (e, g2)" by fastforce
  have m2: "same_relays (fd_ledger f) g2" using OpenTask_relays t m same_relays_trans by (metis snd_conv)
  have k: "msgs_kept c f (with_ledger g ?f1)" if "same_relays (fd_ledger f) g" for g
    using that by (intro msgs_kept_same) (simp_all add: same_relays_def)
  from s t k m m2 show ?thesis by (auto simp: assign_def Let_def split: option.splits)
qed

lemma Assign_kept: "msgs_kept c f (snd (Assign c w name task from brief now f))"
proof -
  obtain e f1 where a: "assign w name task from now f = (e, f1)" by fastforce
  have ka: "msgs_kept c f f1" using assign_kept a by (metis snd_conv)
  obtain e2 g where s: "SetTaskAdminWork (fw_write w) task (adminWork c name from) (fd_ledger f1) = (e2, g)" by fastforce
  have ks: "msgs_kept c f (with_ledger g f1)"
    using msgs_kept_trans [OF ka] same_relays_kept set_task_relays s by (metis SetTaskAdminWork_def snd_conv)
  have kd: "msgs_kept c f (snd (send c w from name brief task now (with_ledger g f1)))"
    using msgs_kept_trans [OF ks send_kept] .
  from a s ka ks kd show ?thesis by (auto simp: Assign_def split: option.splits)
qed

lemma close_row_kept: "msgs_kept c f (snd (close_row w task now result branch pr f))"
  unfolding close_row_def by (simp add: split_def Let_def same_relays_kept CloseTask_relays)

lemma set_close_kept: "msgs_kept c f (snd (close_row w t now result branch pr (set_state st f)))"
  by (rule msgs_kept_trans [OF set_state_kept close_row_kept])

lemma Done_kept: "msgs_kept c f (snd (Done c w name0 task0 result branch pr now f))"
proof (cases "owner_or w name0 task0 f")
  case (Inr name)
  show ?thesis unfolding Done_def Inr sum.case Let_def by (simp add: set_state_kept set_close_kept)
qed (simp add: Done_def)

lemma Close_kept: "msgs_kept c f (snd (Close c w name0 task0 result branch pr now f))"
proof (cases "owner_or w name0 task0 f")
  case (Inr name)
  show ?thesis unfolding Close_def Inr sum.case Let_def by (simp add: close_row_kept set_close_kept)
qed (simp add: Close_def)

lemma enable_kept: "msgs_kept c f (enable name f)"
  unfolding enable_def Let_def by (rule set_state_kept)

lemma Enable_kept: "msgs_kept c f (snd (Enable c name f))"
proof -
  have "msgs_kept c f (fold enable (name # fc_siblings c name) f)" by (rule msgs_kept_fold) (rule enable_kept)
  then show ?thesis by (simp add: Enable_def)
qed

lemma answerBlocked_kept: "msgs_kept c f (snd (answerBlocked w task from agent text now f))"
proof -
  let ?m = "message from agent (fw_redact w text) task KindAnswer now True"
  obtain e g where a: "AddRelay (fw_begin w) ?m (fd_ledger f) = (e, g)" by fastforce
  have "msgs_kept c f (with_ledger g f)"
    by (intro msgs_kept_moved filed_fleet [OF a]) (simp add: relayed_def relay_row_def message_def KindAnswer_def)
  then have "msgs_kept c f (f\<lparr>fd_ledger := g, fd_asks := x\<rparr>)" for x
    by (rule msgs_kept_cong) simp_all
  then show ?thesis by (auto simp: answerBlocked_def a split: option.splits prod.splits)
qed

lemma Followup_kept: "msgs_kept c f (snd (Followup c w task from text now f))"
proof -
  have "msgs_kept c f (snd (case answerBlocked w task from a text now f of (True, f1) \<Rightarrow> (None, f1) | (False, f1) \<Rightarrow> send c w from b x task now f1))"
    for a b x
    using answerBlocked_kept [of c f w task "from" a "text" now] msgs_kept_trans [OF _ send_kept]
    by (cases "answerBlocked w task from a text now f") (auto split: bool.splits)
  then show ?thesis unfolding Followup_def by (simp split: sum.splits)
qed

lemma Answer_kept: "msgs_kept c f (snd (Answer c w task from text now f))"
proof (cases "openTask w task f")
  case (Inr t)
  obtain d f1 where a: "answerBlocked w task from (ta_Agent t) text now f = (d, f1)" by fastforce
  have ka: "msgs_kept c f f1" using answerBlocked_kept a by (metis snd_conv)
  have kf: "msgs_kept c f (snd (Followup c w task from text now f1))" by (rule msgs_kept_trans [OF ka Followup_kept])
  from Inr a ka kf show ?thesis by (auto simp: Answer_def split: bool.splits prod.splits)
qed (simp add: Answer_def)

lemma Cancel_kept: "msgs_kept c f (snd (Cancel c w task from reason now f))"
proof (cases "openTask w task f")
  case (Inr t)
  let ?S = "send c w from (ta_Agent t) (cancel_notice task from reason) task now f"
  have "msgs_kept c f (snd (Close c w (ta_Agent t) task ''cancelled'' '''' '''' now (snd ?S)))"
    by (rule msgs_kept_trans [OF send_kept Close_kept])
  then show ?thesis by (auto simp: Cancel_def Inr Let_def split: prod.splits)
qed (simp add: Cancel_def)

lemma ask_begin_kept: "msgs_kept c f (snd (ask_begin c w from text now f))"
proof -
  have "msgs_kept c f (f1\<lparr>fd_asks := y\<rparr>)"
    if "deliverMsg c w from to t1 task KindQuestion now True (f\<lparr>fd_asks := x\<rparr>) = (e, f1)" for to t1 task x y e f1
  proof -
    have "msgs_kept c f (f\<lparr>fd_asks := x\<rparr>)" by (rule msgs_kept_same) simp_all
    from msgs_kept_trans [OF this deliverMsg_kept' [OF that]] show ?thesis by (rule msgs_kept_cong) simp_all
  qed
  note k = this
  have k': "msgs_kept c f f1"
    if "deliverMsg c w from to t1 task KindQuestion now True (f\<lparr>fd_asks := x\<rparr>) = (e, f1)" for to t1 task x e f1
    by (rule msgs_kept_cong [OF k [OF that]]) simp_all
  show ?thesis unfolding ask_begin_def Let_def
    by (auto split: sum.splits prod.splits option.splits send_error.splits intro: k k')
qed

lemma ask_end_kept: "msgs_kept c f (snd (ask_end task f))"
  unfolding ask_end_def by (simp, rule msgs_kept_same) simp_all

lemma mark_thread_kept: "msgs_kept c f (with_ledger (mark_thread w q now (fd_ledger f)) f)"
proof -
  have "msgs_kept c f (with_ledger (fold (\<lambda>m g. if qu_ID q \<le> rl_ID m \<and> rl_Kind m = KindQuestion then snd (MarkEscalated (fw_write w) (rl_ID m) now g) else g) th g0) f)"
    if "msgs_kept c f (with_ledger g0 f)" for th g0
    using that
  proof (induction th arbitrary: g0)
    case (Cons m th)
    have w: "with_ledger g (with_ledger h x) = with_ledger g x" for g h x by (simp add: with_ledger_def)
    have "msgs_kept c f (with_ledger (snd (MarkEscalated (fw_write w) (rl_ID m) now g0)) f)"
      using msgs_kept_trans [OF Cons.prems marks_kept(1)] by (simp add: w)
    then show ?case using Cons by simp
  qed simp
  note fold = this
  have self: "with_ledger (fd_ledger f) f = f" by (simp add: with_ledger_def)
  have "msgs_kept c f (with_ledger (fd_ledger f) f)" by (simp add: self)
  then show ?thesis using fold by (cases "TaskThread (fw_read w) (qu_Task q) (fd_ledger f)") (auto simp: mark_thread_def)
qed

lemma retell_kept: "msgs_kept c f (retell c w q grace now f)"
  unfolding retell_def
  by (auto split: prod.splits intro: deliverMsg_kept' msgs_kept_trans [OF deliverMsg_kept' mark_thread_kept])

lemma alert_keeps [simp]: "fd_ledger (alert n t f) = fd_ledger f" "fd_tries (alert n t f) = fd_tries f"
  by (simp_all add: alert_def)

lemma alert_mark: "msgs_kept c f (with_ledger (snd (MarkAlerted err i now (fd_ledger f))) (alert n t f))"
proof -
  have "msgs_kept c f (alert n t f)" by (rule msgs_kept_same) simp_all
  from msgs_kept_trans [OF this marks_kept(2)] show ?thesis by simp
qed

lemma escalate_one_kept: "msgs_kept c f (escalate_one c w grace now q f)"
  unfolding escalate_one_def Let_def
  by (auto split: prod.splits intro: retell_kept deliverMsg_kept' msgs_kept_trans [OF deliverMsg_kept' marks_kept(1)] marks_kept alert_mark)

lemma escalate_kept: "msgs_kept c f (escalate c w grace now f)"
  unfolding escalate_def by (auto split: sum.splits intro: msgs_kept_fold escalate_one_kept)

lemma wait_look_kept: "msgs_kept c f (snd (wait_look w agent task reader now after f))"
proof -
  have k: "msgs_kept c f (with_ledger g f)" if "SetCursor err t r i (fd_ledger f) = (e, g)" for err t r i e g
    using same_relays_kept SetCursor_relays that by (metis snd_conv)
  show ?thesis unfolding wait_look_def Let_def
    by (auto split: sum.splits option.splits prod.splits intro: k)
qed

lemma outbox_one_kept: "msgs_kept c (snd acc) (snd (outbox_one c w name now m acc))"
proof -
  obtain left f where acc: "acc = (left, f)" by fastforce
  define sent where "sent = (if ob_At m = zero_time \<or> now < ob_At m then now else ob_At m)"
  obtain e f1 where d: "deliverMsg c w name (ob_To m) (ob_Text m) '''' (ob_Kind m) sent True f = (e, f1)" by fastforce
  have k: "msgs_kept c f (f1\<lparr>fd_outboxAlerted := x\<rparr>)" "msgs_kept c f (alert n t (f1\<lparr>fd_outboxAlerted := x\<rparr>))" for x n t
    by (rule msgs_kept_cong [OF deliverMsg_kept' [OF d]]; simp add: alert_def)+
  show ?thesis
    unfolding outbox_one_def acc prod.case sent_def [symmetric] Let_def d snd_conv
    using k deliverMsg_kept' [OF d] by (auto split: option.splits send_error.splits)
qed

lemma deliverOutbox_kept: "msgs_kept c f (snd (deliverOutbox c w name msgs now f))"
proof -
  have "msgs_kept c (snd acc) (snd (fold (outbox_one c w name now) msgs acc))" for acc
    proof (induction msgs arbitrary: acc)
    case (Cons m msgs)
    show ?case using msgs_kept_trans [OF outbox_one_kept Cons] by simp
  qed simp
  from this [of "([], f)"] show ?thesis by (simp add: deliverOutbox_def)
qed

lemma alertHeld_kept: "msgs_kept c f (alertHeld c w now f)"
proof -
  have "msgs_kept c g (alert_one w now r g)" for r g
    unfolding alert_one_def Let_def
    by (rule msgs_kept_trans [OF _ marks_kept(3)]) (rule msgs_kept_same; simp add: alert_def)
  then show ?thesis unfolding alertHeld_def by (auto split: sum.splits intro: msgs_kept_fold)
qed

lemma resend_kept: "msgs_kept c f (resend c w busy name now f)"
  unfolding resend_def msgs_kept_def by (simp add: moved_refl flush_moved)

lemmas ops_kept = Assign_kept Done_kept Close_kept Enable_kept Followup_kept Answer_kept Cancel_kept ask_begin_kept ask_end_kept
  escalate_kept wait_look_kept deliverOutbox_kept alertHeld_kept resend_kept

end
