(* ===== verification/Tool_Policy.thy ===== *)
theory Tool_Policy
  imports Prelude
begin

text \<open>
  \<^verbatim>\<open>fleet/internal/config/karmax.go\<close>: what the gateway does with a call to a KARMAX tool, by the tool's
  name and the entries of \<^verbatim>\<open>karmax.tools\<close>. The entries are a Go map: they are listed in the order a run
  visits them.
\<close>

section \<open>Classes and names\<close>

type_synonym tool_entries = "(string \<times> string) list"

definition ToolRead :: string where "ToolRead = ''read''"
definition ToolWrite :: string where "ToolWrite = ''write''"
definition ToolDeny :: string where "ToolDeny = ''deny''"

lemmas tool_classes = ToolRead_def ToolWrite_def ToolDeny_def

definition alwaysDenied :: "string list" where
  "alwaysDenied =
    [''shell.exec'', ''file.*'', ''http.request'', ''harness.*'', ''task.*'', ''scheduler.*'', ''proposal.*'',
     ''memory.ingest'', ''memory.forget'', ''claude_code.call'', ''subagent.spawn'', ''orchestrator.send'',
     ''*.exec'', ''*.run'', ''*.spawn'']"

definition knownReads :: "string list" where
  "knownReads =
    [''activity.recent'', ''cost.report'', ''karmax.capabilities'', ''tools.load'', ''slack.channels'',
     ''slack.user'', ''google.chat.spaces'', ''whatsapp_status'', ''whatsapp_logs'',
     ''whatsapp_message_receipts'', ''whatsapp_webhook_deliveries'', ''whatsapp_group_info'',
     ''whatsapp_call_status'', ''whatsapp_check_numbers'', ''whatsapp_resolve'', ''whatsapp_download_media'']"

definition deniedWords :: "string list" where
  "deniedWords = [''credential'', ''secret'', ''fleet'']"

definition readVerbs :: "string list" where
  "readVerbs =
    [''list'', ''get'', ''read'', ''search'', ''view'', ''show'', ''find'', ''recall'', ''retrieve'',
     ''monitored'', ''lookup'', ''query'', ''history'', ''status'', ''schema'', ''describe'', ''count'']"

definition writeVerbs :: "string list" where
  "writeVerbs =
    [''send'', ''set'', ''delete'', ''create'', ''edit'', ''join'', ''leave'', ''rename'', ''place'', ''answer'',
     ''reject'', ''end'', ''test'', ''replay'', ''bulk'', ''add'', ''update'', ''post'', ''remove'', ''start'',
     ''stop'', ''sync'', ''write'', ''upload'', ''invite'', ''reply'', ''forward'', ''share'', ''move'', ''copy'',
     ''put'', ''patch'', ''modify'', ''change'', ''mark'', ''archive'', ''approve'', ''accept'', ''decline'',
     ''cancel'', ''revoke'', ''reset'', ''enable'', ''disable'', ''lock'', ''unlock'', ''pin'', ''mute'',
     ''block'', ''kick'', ''ban'', ''promote'', ''demote'', ''assign'', ''merge'', ''close'', ''submit'',
     ''publish'', ''schedule'', ''book'', ''pay'', ''transfer'', ''save'', ''insert'', ''upsert'', ''clear'',
     ''purge'', ''grant'', ''subscribe'', ''unsubscribe'', ''react'', ''comment'', ''notify'', ''trigger'',
     ''call'', ''push'', ''import'']"

definition name_char :: "char \<Rightarrow> bool" where
  "name_char c \<longleftrightarrow> (let n = of_char c :: nat in is_digit c \<or> (65 \<le> n \<and> n \<le> 90) \<or> (97 \<le> n \<and> n \<le> 122) \<or> n = 95 \<or> n = 45)"

text \<open>\<^verbatim>\<open>^[A-Za-z0-9_-]+(\.[A-Za-z0-9_-]+)*$\<close>: dotted parts, none of them empty.\<close>

definition ValidToolName :: "string \<Rightarrow> bool" where
  "ValidToolName name \<longleftrightarrow> list_all (\<lambda>p. p \<noteq> [] \<and> list_all name_char p) (Split name (CHR ''.''))"

definition globMatch :: "string \<Rightarrow> string \<Rightarrow> bool" where
  "globMatch pattern name =
     (if HasSuffix pattern ''*'' then HasPrefix name (TrimSuffix pattern ''*'')
      else if HasPrefix pattern ''*'' then HasSuffix name (TrimPrefix pattern ''*'') else pattern = name)"

definition AlwaysDenied :: "string \<Rightarrow> bool" where
  "AlwaysDenied name \<longleftrightarrow> (let n = ToLower name in list_ex (\<lambda>p. globMatch p n) alwaysDenied \<or> list_ex (Contains n) deniedWords)"

section \<open>The class of a tool\<close>

definition longer_prefix :: "string \<Rightarrow> string \<times> string \<Rightarrow> int \<times> string \<Rightarrow> int \<times> string" where
  "longer_prefix name e best = (if HasSuffix (fst e) ''*'' \<and> globMatch (fst e) name \<and> fst best < int (length (fst e))
     then (int (length (fst e)), snd e) else best)"

definition best_prefix :: "tool_entries \<Rightarrow> string \<Rightarrow> int \<times> string" where
  "best_prefix ts name = fold (longer_prefix name) ts (-1, '''')"

text \<open>The words of a name, without the first, which is the namespace.\<close>

definition name_words :: "string \<Rightarrow> string list" where
  "name_words name = tl (FieldsFunc (\<lambda>c. c = CHR ''.'' \<or> c = CHR ''_'') name)"

fun words_class :: "bool \<Rightarrow> string list \<Rightarrow> string" where
  "words_class read [] = (if read then ToolRead else ToolWrite)"
| "words_class read (w # ws) = (if w \<in> set writeVerbs then ToolWrite else words_class (read \<or> w \<in> set readVerbs) ws)"

definition ToolClass :: "tool_entries \<Rightarrow> string \<Rightarrow> string" where
  "ToolClass ts name =
     (if \<not> ValidToolName name \<or> AlwaysDenied name then ToolDeny
      else case map_of ts name of Some c \<Rightarrow> c
        | None \<Rightarrow> (let best = best_prefix ts name
            in if 0 \<le> fst best then snd best
               else if name \<in> set knownReads then ToolRead else words_class False (name_words name)))"

section \<open>What the entries may be\<close>

definition entry_error :: "string \<times> string \<Rightarrow> string option" where
  "entry_error e = (let (p, c) = e; name = TrimSuffix p ''*''
     in if c \<noteq> ToolRead \<and> c \<noteq> ToolWrite \<and> c \<noteq> ToolDeny then Some (p @ '': not read, write or deny'')
        else if name = '''' \<or> \<not> ValidToolName (TrimSuffix name ''.'') then Some (p @ '': not a tool name or a prefix ending in *'')
        else if c \<noteq> ToolDeny \<and> \<not> HasSuffix p ''*'' \<and> AlwaysDenied p then Some (p @ '': always denied'') else None)"

definition validateTools :: "tool_entries \<Rightarrow> string option" where
  "validateTools ts = (case List.find (\<lambda>e. entry_error e \<noteq> None) ts of None \<Rightarrow> None | Some e \<Rightarrow> entry_error e)"

section \<open>Lemmas\<close>

lemma words_class_read: "words_class b ws = ToolRead \<longleftrightarrow>
    (b \<or> (\<exists>w\<in>set ws. w \<in> set readVerbs)) \<and> (\<forall>w\<in>set ws. w \<notin> set writeVerbs)"
  by (induction b ws rule: words_class.induct) (auto simp: tool_classes)

lemma words_class_or: "words_class b ws = ToolRead \<or> words_class b ws = ToolWrite"
  by (induction b ws rule: words_class.induct) auto

text \<open>A prefix that matches a name is what its length takes of the name.\<close>

definition prefix_entry :: "string \<Rightarrow> string \<Rightarrow> bool" where
  "prefix_entry name p \<longleftrightarrow> HasSuffix p ''*'' \<and> globMatch p name"

lemma prefix_entry_eq: "prefix_entry name p \<Longrightarrow> p = take (length p - 1) name @ ''*''"
  by (auto simp: prefix_entry_def globMatch_def HasSuffix_iff HasPrefix_def)

lemma prefix_entry_inj: "prefix_entry name p \<Longrightarrow> prefix_entry name q \<Longrightarrow> length p = length q \<Longrightarrow> p = q"
  by (metis prefix_entry_eq)

lemma prefix_entry_pos: "prefix_entry name p \<Longrightarrow> 0 < length p"
  by (auto simp: prefix_entry_def HasSuffix_iff)

text \<open>The best prefix: none matches, or it is an entry that no other exceeds.\<close>

definition is_best :: "string \<Rightarrow> (string \<times> string) set \<Rightarrow> int \<times> string \<Rightarrow> bool" where
  "is_best name E b \<longleftrightarrow>
     (if \<exists>e\<in>E. prefix_entry name (fst e)
      then \<exists>e\<in>E. prefix_entry name (fst e) \<and> b = (int (length (fst e)), snd e) \<and>
             (\<forall>e'\<in>E. prefix_entry name (fst e') \<longrightarrow> length (fst e') \<le> length (fst e))
      else b = (-1, ''''))"

lemma is_best_step:
  assumes "is_best name E b"
  shows "is_best name (insert e E) (longer_prefix name e b)"
proof (cases "prefix_entry name (fst e)")
  case False
  then have "longer_prefix name e b = b" by (auto simp: longer_prefix_def prefix_entry_def)
  then show ?thesis using assms False by (simp add: is_best_def)
next
  case True
  show ?thesis
  proof (cases "\<exists>x\<in>E. prefix_entry name (fst x)")
    case False
    then have "b = (-1, '''')" using assms by (simp add: is_best_def)
    with True False show ?thesis by (auto simp: is_best_def longer_prefix_def prefix_entry_def)
  next
    case some: True
    then obtain x where x: "x \<in> E" "prefix_entry name (fst x)" "b = (int (length (fst x)), snd x)"
        "\<forall>e'\<in>E. prefix_entry name (fst e') \<longrightarrow> length (fst e') \<le> length (fst x)"
      using assms by (auto simp: is_best_def)
    show ?thesis
    proof (cases "length (fst x) < length (fst e)")
      case True
      then have "longer_prefix name e b = (int (length (fst e)), snd e)"
        using \<open>prefix_entry name (fst e)\<close> x(3) by (simp add: longer_prefix_def prefix_entry_def)
      moreover have "\<forall>e'\<in>insert e E. prefix_entry name (fst e') \<longrightarrow> length (fst e') \<le> length (fst e)"
        using x(4) True by fastforce
      ultimately show ?thesis using \<open>prefix_entry name (fst e)\<close> unfolding is_best_def by auto
    next
      case False
      then have "longer_prefix name e b = b" using x(3) by (simp add: longer_prefix_def)
      moreover have "\<forall>e'\<in>insert e E. prefix_entry name (fst e') \<longrightarrow> length (fst e') \<le> length (fst x)"
        using x(4) False by fastforce
      ultimately show ?thesis using x(1,2,3) unfolding is_best_def by auto
    qed
  qed
qed

lemma best_prefix_is_best: "is_best name (set ts) (best_prefix ts name)"
proof (induction ts rule: rev_induct)
  case Nil
  then show ?case by (simp add: is_best_def best_prefix_def)
next
  case (snoc e ts)
  then show ?case using is_best_step [OF snoc, of e] by (simp add: best_prefix_def)
qed

lemma is_best_unique:
  assumes "is_best name E b" and "is_best name E b'"
    and "\<forall>e\<in>E. \<forall>e'\<in>E. fst e = fst e' \<longrightarrow> e = e'"
  shows "b = b'"
proof (cases "\<exists>e\<in>E. prefix_entry name (fst e)")
  case False
  then show ?thesis using assms(1,2) by (simp add: is_best_def)
next
  case True
  obtain e where e: "e \<in> E" "prefix_entry name (fst e)" "b = (int (length (fst e)), snd e)"
      "\<forall>x\<in>E. prefix_entry name (fst x) \<longrightarrow> length (fst x) \<le> length (fst e)"
    using assms(1) True by (auto simp: is_best_def)
  obtain e' where e': "e' \<in> E" "prefix_entry name (fst e')" "b' = (int (length (fst e')), snd e')"
      "\<forall>x\<in>E. prefix_entry name (fst x) \<longrightarrow> length (fst x) \<le> length (fst e')"
    using assms(2) True by (auto simp: is_best_def)
  have "length (fst e) = length (fst e')" using e e' by (meson le_antisym)
  then have "fst e = fst e'" using prefix_entry_inj e(2) e'(2) by blast
  then have "e = e'" using assms(3) e(1) e'(1) by blast
  then show ?thesis using e(3) e'(3) by simp
qed

lemma keys_inj: "distinct (map fst ts) \<Longrightarrow> \<forall>e\<in>set ts. \<forall>e'\<in>set ts. fst e = fst e' \<longrightarrow> e = e'"
  by (auto intro: eq_key_imp_eq_value)

lemma best_prefix_order:
  assumes "distinct (map fst ts)" and "set ts = set us"
  shows "best_prefix ts name = best_prefix us name"
  using is_best_unique [OF best_prefix_is_best [of name ts], of "best_prefix us name"] best_prefix_is_best [of name us]
    keys_inj [OF assms(1)] assms(2) by simp

lemma always_denied: "AlwaysDenied name \<Longrightarrow> ToolClass ts name = ToolDeny"
  by (simp add: ToolClass_def)

lemma exact_entry: "ValidToolName name \<Longrightarrow> \<not> AlwaysDenied name \<Longrightarrow> map_of ts name = Some c \<Longrightarrow> ToolClass ts name = c"
  by (simp add: ToolClass_def)

section \<open>What the policy gives\<close>

text \<open>What makes a call of a tool free: an entry says read, and is the tool's own or the longest prefix; or no entry is for it, and it is
  known to read or its name says so.\<close>

definition entry_reads :: "tool_entries \<Rightarrow> string \<Rightarrow> bool" where
  "entry_reads ts name \<longleftrightarrow> map_of ts name = Some ToolRead \<or>
     map_of ts name = None \<and> list_ex (\<lambda>e. prefix_entry name (fst e) \<and> snd e = ToolRead \<and>
       list_all (\<lambda>x. \<not> prefix_entry name (fst x) \<or> length (fst x) \<le> length (fst e)) ts) ts"

definition name_reads :: "string \<Rightarrow> bool" where
  "name_reads name \<longleftrightarrow> name \<in> set knownReads \<or>
     list_ex (\<lambda>v. v \<in> set readVerbs) (name_words name) \<and> list_all (\<lambda>v. v \<notin> set writeVerbs) (name_words name)"

definition no_entry :: "tool_entries \<Rightarrow> string \<Rightarrow> bool" where
  "no_entry ts name \<longleftrightarrow> map_of ts name = None \<and> list_all (\<lambda>e. \<not> prefix_entry name (fst e)) ts"

text \<open>
  A tool is free to call exactly when its name is well formed, it is not one of those always denied, and either the most specific
  entry of the configuration for it says read, or no entry is for it and it is known to read, or has a verb that reads and none that
  writes after its first word.
\<close>
theorem free_tools_read:
  assumes "distinct (map fst ts)"
  shows "ToolClass ts name = ToolRead \<longleftrightarrow>
     ValidToolName name \<and> \<not> AlwaysDenied name \<and> (entry_reads ts name \<or> no_entry ts name \<and> name_reads name)"
proof (cases "ValidToolName name \<and> \<not> AlwaysDenied name")
  case False
  then show ?thesis by (auto simp: ToolClass_def tool_classes)
next
  case open_tool: True
  show ?thesis
  proof (cases "map_of ts name")
    case (Some c)
    then show ?thesis using open_tool by (simp add: ToolClass_def entry_reads_def no_entry_def)
  next
    case None
    show ?thesis
    proof (cases "\<exists>e\<in>set ts. prefix_entry name (fst e)")
      case False
      then have b: "best_prefix ts name = (-1, '''')" using best_prefix_is_best [of name ts] by (simp add: is_best_def)
      have "ToolClass ts name = (if name \<in> set knownReads then ToolRead else words_class False (name_words name))"
        using open_tool None b by (simp add: ToolClass_def)
      moreover have "\<not> entry_reads ts name" using False None by (auto simp: entry_reads_def list_ex_iff)
      moreover have "no_entry ts name" using False None by (simp add: no_entry_def list_all_iff)
      ultimately show ?thesis using open_tool by (simp add: name_reads_def words_class_read list_ex_iff list_all_iff)
    next
      case True
      then obtain e where e: "e \<in> set ts" "prefix_entry name (fst e)" "best_prefix ts name = (int (length (fst e)), snd e)"
          "\<forall>x\<in>set ts. prefix_entry name (fst x) \<longrightarrow> length (fst x) \<le> length (fst e)"
        using best_prefix_is_best [of name ts] by (auto simp: is_best_def)
      have "ToolClass ts name = ToolRead \<longleftrightarrow> snd e = ToolRead" using open_tool None e(3) by (simp add: ToolClass_def)
      moreover have "\<not> no_entry ts name" using e(1,2) by (auto simp: no_entry_def list_all_iff)
      moreover have "entry_reads ts name" if "snd e = ToolRead"
        using that e None by (auto simp: entry_reads_def list_ex_iff list_all_iff)
      moreover have "snd e = ToolRead" if er: "entry_reads ts name"
      proof -
        obtain x where x: "x \<in> set ts" "prefix_entry name (fst x)" "snd x = ToolRead"
            "\<forall>y\<in>set ts. prefix_entry name (fst y) \<longrightarrow> length (fst y) \<le> length (fst x)"
          using er None by (auto simp: entry_reads_def list_ex_iff list_all_iff)
        have "length (fst x) = length (fst e)" using x e by (meson le_antisym)
        then have "fst x = fst e" using prefix_entry_inj x(2) e(2) by blast
        then have "x = e" using keys_inj [OF assms] x(1) e(1) by blast
        then show ?thesis using x(3) by simp
      qed
      ultimately show ?thesis using open_tool by blast
    qed
  qed
qed

theorem free_tools_read_witness:
  "ToolClass [(''slack.*'', ToolWrite)] ''google.mail.search'' = ToolRead \<and> ToolClass [(''slack.*'', ToolWrite)] ''slack.list'' \<noteq> ToolRead"
proof -
  have d: "distinct (map fst [(''slack.*'', ToolWrite)])" by simp
  have r: "no_entry [(''slack.*'', ToolWrite)] ''google.mail.search''" "name_reads ''google.mail.search''" "ValidToolName ''google.mail.search''"
    "\<not> AlwaysDenied ''google.mail.search''" "\<not> entry_reads [(''slack.*'', ToolWrite)] ''slack.list''" "\<not> no_entry [(''slack.*'', ToolWrite)] ''slack.list''"
    by code_simp+
  then show ?thesis using free_tools_read [OF d, of "''google.mail.search''"] free_tools_read [OF d, of "''slack.list''"] by blast
qed

text \<open>
  The class of a tool does not depend on the order in which a run visits the entries of the configuration: it is the same for any
  two lists of the same entries.
\<close>
theorem class_ignores_order:
  assumes "distinct (map fst ts)" and "distinct (map fst us)" and "set ts = set us"
  shows "ToolClass ts name = ToolClass us name"
proof -
  have "map_of ts = map_of us" using assms by (metis map_of_inject_set)
  then show ?thesis unfolding ToolClass_def best_prefix_order [OF assms(1,3)] by simp
qed

theorem class_ignores_order_witness:
  "ToolClass [(''google.*'', ToolRead), (''google.mail.*'', ToolWrite)] ''google.mail.list'' =
   ToolClass [(''google.mail.*'', ToolWrite), (''google.*'', ToolRead)] ''google.mail.list'' \<and>
   ToolClass [(''google.*'', ToolRead), (''google.mail.*'', ToolWrite)] ''google.mail.list'' = ToolWrite"
proof
  show "ToolClass [(''google.*'', ToolRead), (''google.mail.*'', ToolWrite)] ''google.mail.list'' =
      ToolClass [(''google.mail.*'', ToolWrite), (''google.*'', ToolRead)] ''google.mail.list''"
    by (rule class_ignores_order) auto
  show "ToolClass [(''google.*'', ToolRead), (''google.mail.*'', ToolWrite)] ''google.mail.list'' = ToolWrite" by code_simp
qed

text \<open>A verb that writes is not seen when it is the first word of a name.\<close>

lemma leading_verb_unseen: "ToolClass [] ''delete_history'' = ToolRead \<and> ToolClass [] ''slack.history_delete'' = ToolWrite"
  by code_simp

end
