(* ===== verification/Fleet_Identity.thy ===== *)
theory Fleet_Identity
  imports Prelude
begin

text \<open>
  \<^verbatim>\<open>fleet/internal/identity\<close>: which agent a request is from. The HMAC of the library is the parameter \<open>mac\<close>: of the key
  and the message, the digest's bytes.
\<close>

section \<open>Keys\<close>

type_synonym mac = "string \<Rightarrow> string \<Rightarrow> string"

definition hex_digit :: "nat \<Rightarrow> char" where
  "hex_digit n = (if n < 10 then char_of (48 + n) else char_of (87 + n))"

text \<open>\<^verbatim>\<open>hex.EncodeToString\<close>.\<close>

definition hex_encode :: "string \<Rightarrow> string" where
  "hex_encode bs = concat (map (\<lambda>b. let n = of_char b :: nat in [hex_digit (n div 16), hex_digit (n mod 16)]) bs)"

definition Key :: "mac \<Rightarrow> string \<Rightarrow> string \<Rightarrow> string" where
  "Key mac full agent = (if full = '''' then '''' else hex_encode (mac full (''agent:'' @ agent)))"

definition Value :: "string \<Rightarrow> string \<Rightarrow> string" where
  "Value name key = name @ '':'' @ key"

text \<open>The container a worker runs in. The pattern of a slot is \<^verbatim>\<open>^(agent-\d+)-s\d+$\<close>.\<close>

definition slot_base :: "string \<Rightarrow> string option" where
  "slot_base name =
     (let r = drop 6 name; ds = takeWhile is_digit r; s = dropWhile is_digit r; n = drop 2 s
      in if HasPrefix name ''agent-'' \<and> ds \<noteq> '''' \<and> HasPrefix s ''-s'' \<and> n \<noteq> '''' \<and> list_all is_digit n
         then Some (''agent-'' @ ds) else None)"

definition Base :: "string \<Rightarrow> string" where
  "Base name = (case Cut name (CHR '':'') of (b, _, ok) \<Rightarrow>
     if ok then b else case slot_base name of Some b \<Rightarrow> b | None \<Rightarrow> name)"

text \<open>A text around the last \<open>c\<close> in it: \<^verbatim>\<open>strings.LastIndex\<close> of one byte.\<close>

definition cut_last :: "char \<Rightarrow> string \<Rightarrow> (string \<times> string) option" where
  "cut_last c s = (case Cut (rev s) c of (b, a, ok) \<Rightarrow> if ok then Some (rev a, rev b) else None)"

definition Verify :: "mac \<Rightarrow> string \<Rightarrow> string \<Rightarrow> string option" where
  "Verify mac full v = (case cut_last (CHR '':'') v of None \<Rightarrow> None
     | Some (name, key) \<Rightarrow>
         if full = '''' \<or> name = '''' \<or> key = '''' then None
         else if key \<noteq> Key mac full (Base name) then None else Some name)"

definition SandboxKey :: "mac \<Rightarrow> string \<Rightarrow> string \<Rightarrow> string" where
  "SandboxKey mac full agent = (if full = '''' then '''' else hex_encode (mac full (''sandbox:'' @ agent)))"

definition SandboxOf :: "mac \<Rightarrow> string \<Rightarrow> string \<Rightarrow> string list \<Rightarrow> string option" where
  "SandboxOf mac full bearer agents = (if full = '''' \<or> bearer = '''' then None
     else List.find (\<lambda>a. bearer = SandboxKey mac full a) agents)"

section \<open>Lemmas\<close>

lemma Cut_no: "c \<notin> set s \<Longrightarrow> Cut s c = (s, [], False)"
  by (induction s) auto

lemma Cut_found: "c \<notin> set a \<Longrightarrow> Cut (a @ c # b) c = (a, b, True)"
  by (induction a) auto

lemma Cut_True: "Cut s c = (a, b, True) \<Longrightarrow> s = a @ c # b \<and> c \<notin> set a"
  by (induction s arbitrary: a) (auto split: if_splits prod.splits)

lemma cut_last_append: "c \<notin> set b \<Longrightarrow> cut_last c (a @ c # b) = Some (a, b)"
  by (simp add: cut_last_def Cut_found)

lemma cut_last_Some: "cut_last c s = Some (a, b) \<Longrightarrow> s = a @ c # b \<and> c \<notin> set b"
  by (auto simp: cut_last_def split: prod.splits if_splits dest!: Cut_True) (metis append.assoc append_Cons append_Nil rev.simps(2) rev_append rev_rev_ident)

lemma hex_digit_no_colon: "n < 16 \<Longrightarrow> hex_digit n \<noteq> CHR '':''"
proof
  assume n: "n < 16" and h: "hex_digit n = CHR '':''"
  have "(of_char (hex_digit n) :: nat) = of_char (CHR '':'')" by (simp only: h)
  then show False using n by (auto simp: hex_digit_def of_char_of split: if_splits)
qed

lemma hex_no_colon: "CHR '':'' \<notin> set (hex_encode bs)"
proof (induction bs)
  case (Cons b bs)
  have "x < 256 \<Longrightarrow> x div 16 < 16" for x :: nat by presburger
  then have "(of_char b :: nat) div 16 < 16" by simp
  then show ?case using Cons hex_digit_no_colon [of "of_char b div 16"] hex_digit_no_colon [of "of_char b mod 16"]
    by (simp add: hex_encode_def Let_def)
qed (simp add: hex_encode_def)

lemma hex_encode_Nil [simp]: "hex_encode bs = [] \<longleftrightarrow> bs = []"
  by (cases bs) (auto simp: hex_encode_def Let_def)

lemma Key_no_colon: "CHR '':'' \<notin> set (Key mac full agent)"
  by (simp add: Key_def hex_no_colon)

text \<open>A digest has 32 bytes.\<close>

definition digests :: "mac \<Rightarrow> bool" where
  "digests mac \<longleftrightarrow> (\<forall>k m. length (mac k m) = 32)"

lemma Key_nonempty: "digests mac \<Longrightarrow> full \<noteq> '''' \<Longrightarrow> Key mac full agent \<noteq> ''''"
  by (auto simp: Key_def digests_def) (metis list.size(3) zero_neq_numeral)

section \<open>What a header proves\<close>

text \<open>A header is read as a name exactly when it is that name with the key of its base.\<close>

lemma Verify_iff:
  assumes "digests mac"
  shows "Verify mac full v = Some name \<longleftrightarrow> full \<noteq> '''' \<and> name \<noteq> '''' \<and> v = Value name (Key mac full (Base name))"
proof
  assume "Verify mac full v = Some name"
  then show "full \<noteq> '''' \<and> name \<noteq> '''' \<and> v = Value name (Key mac full (Base name))"
    by (auto simp: Verify_def Value_def split: option.splits if_splits dest!: cut_last_Some)
next
  assume h: "full \<noteq> '''' \<and> name \<noteq> '''' \<and> v = Value name (Key mac full (Base name))"
  then have "cut_last (CHR '':'') v = Some (name, Key mac full (Base name))"
    using cut_last_append [OF Key_no_colon] by (simp add: Value_def)
  then show "Verify mac full v = Some name" using h Key_nonempty [OF assms] by (simp add: Verify_def)
qed

text \<open>A digest for the witness: the first 32 bytes of the message and the key, padded.\<close>

definition demo_mac :: mac where
  "demo_mac k m = take 32 (m @ ''|'' @ k @ replicate 32 (CHR 0x00))"

text \<open>Names of the pattern, and what they stand for.\<close>

definition number :: "string \<Rightarrow> bool" where
  "number s \<longleftrightarrow> s \<noteq> '''' \<and> list_all is_digit s"

lemma HasPrefix_split: "HasPrefix s p \<Longrightarrow> length p = n \<Longrightarrow> s = p @ drop n s"
  by (metis HasPrefix_def append_take_drop_id)

lemma slot_base_Some: "slot_base name = Some b \<Longrightarrow> \<exists>ds n. number ds \<and> number n \<and> b = ''agent-'' @ ds \<and> name = ''agent-'' @ ds @ ''-s'' @ n"
proof -
  assume h: "slot_base name = Some b"
  let ?r = "drop 6 name" let ?s = "dropWhile is_digit (drop 6 name)"
  have p: "HasPrefix name ''agent-''" "takeWhile is_digit ?r \<noteq> ''''" "HasPrefix ?s ''-s''" "drop 2 ?s \<noteq> ''''" "list_all is_digit (drop 2 ?s)"
    "b = ''agent-'' @ takeWhile is_digit ?r"
    using h by (auto simp: slot_base_def Let_def split: if_splits)
  have "name = ''agent-'' @ ?r" by (rule HasPrefix_split [OF p(1)]) simp
  moreover have "?s = ''-s'' @ drop 2 ?s" by (rule HasPrefix_split [OF p(3)]) simp
  ultimately have "name = ''agent-'' @ takeWhile is_digit ?r @ ''-s'' @ drop 2 ?s" by (metis append.assoc takeWhile_dropWhile_id)
  moreover have "number (takeWhile is_digit ?r)" using p(2) by (simp add: number_def list_all_iff) (blast dest: set_takeWhileD)
  moreover have "number (drop 2 ?s)" using p(4,5) by (simp only: number_def simp_thms)
  ultimately show ?thesis using p(6) by blast
qed

lemma slot_base_slot: "number ds \<Longrightarrow> number n \<Longrightarrow> slot_base (''agent-'' @ ds @ ''-s'' @ n) = Some (''agent-'' @ ds)"
proof -
  assume h: "number ds" "number n"
  have d: "\<not> is_digit (CHR ''-'')" by code_simp
  have "takeWhile is_digit (ds @ ''-s'' @ n) = ds" "dropWhile is_digit (ds @ ''-s'' @ n) = ''-s'' @ n"
    using h d by (simp_all add: number_def list_all_iff takeWhile_append2 dropWhile_append2)
  then show ?thesis using h by (simp add: slot_base_def number_def HasPrefix_def)
qed

end
