(* ===== verification/Fleet_Config.thy ===== *)
theory Fleet_Config
  imports Reconcile Tool_Policy Fleet_Identity
begin

text \<open>
  \<^verbatim>\<open>fleet/internal/config\<close>: fleet.yaml, its defaults and what of it is refused (\<^verbatim>\<open>config.go\<close>,
  \<^verbatim>\<open>aws.go\<close>), and the workers it names. The YAML library answers with the decoded settings; a Go map is the
  list of its entries in the order a run visits them. A setting that may be left out is an option.
  Regular expressions are their recognisers; the wording of errors is shortened.
\<close>

section \<open>Settings\<close>

record HostConf =
  hc_Exec :: "string list"
  hc_FleetdURL :: string
  hc_OTLPURL :: string
  hc_KarmaxURL :: string

record Orchestrator =
  oc_Name :: string
  oc_Host :: string
  oc_Container :: string
  oc_TokenEnv :: string
  oc_Native :: bool
  oc_Report :: string
  oc_KarmaxAgent :: string

record AgentConf =
  ac_Host :: string
  ac_TokenEnv :: string
  ac_Models :: "string list"
  ac_Model :: string
  ac_Account :: string
  ac_Container :: string
  ac_CPUs :: string
  ac_Memory :: string
  ac_Slots :: int
  ac_Sandbox :: bool

record GitHub =
  gh_TokenEnv :: string
  gh_SSHAliases :: "string list"
  gh_Owners :: "(string \<times> string) list"
  gh_PackagesTokenEnv :: string

record Karmax =
  kx_WebhookURL :: string
  kx_WebhookSecretEnv :: string
  kx_Dashboard :: string
  kx_DataDir :: string
  kx_Notify :: "bool option"
  kx_Bin :: string
  kx_APIURL :: string
  kx_Tools :: tool_entries

record AllThresholds = Thresholds +
  th_Tick :: duration
  th_QuestionEscalate :: duration
  th_HeldAlertAfter :: duration
  th_EventsRaw :: duration
  th_QuotaRaw :: duration
  th_RelayText :: duration
  th_HostSamples :: duration

record Console =
  cc_Host :: string
  cc_Listen :: string
  cc_FleetdURL :: string
  cc_TokenEnv :: string
  cc_Repos :: "string list"
  cc_Dir :: string

record Tailnet =
  tn_Listen :: string
  tn_GuestOpen :: int
  tn_Socket :: string
  tn_Dist :: string

record MemoryConf =
  mc_URL :: string
  mc_KeyEnv :: string
  mc_Namespace :: string

record Cleanup =
  cu_Enabled :: "bool option"
  cu_Every :: duration
  cu_Stale :: duration

record HostFiles =
  hf_Enabled :: "bool option"
  hf_LANListen :: string

record AWS =
  aw_KeysCSV :: string
  aw_Regions :: "string list"
  aw_Every :: duration
  aw_CostEvery :: duration
  aw_CLI :: string

record Config =
  cf_Home :: string
  cf_Code :: string
  cf_Image :: string
  cf_UID :: int
  cf_GID :: int
  cf_User :: string
  cf_ClaudeVersion :: string
  cf_EnvFile :: string
  cf_StateDir :: string
  cf_Listen :: string
  cf_RelayListen :: string
  cf_OTLPListen :: string
  cf_TokenEnv :: string
  cf_RelayTokenEnv :: string
  cf_SockDir :: string
  cf_Slots :: int
  cf_Hosts :: "(string \<times> HostConf) list"
  cf_Orchestrator :: Orchestrator
  cf_Agents :: "(string \<times> AgentConf) list"
  cf_Karmax :: Karmax
  cf_Build :: "string \<times> string"
  cf_GitHub :: GitHub
  cf_Git :: "string \<times> string"
  cf_Thresholds :: AllThresholds
  cf_MaxBytes :: int
  cf_Console :: "Console option"
  cf_Tailnet :: "Tailnet option"
  cf_HideFromAgents :: "string list"
  cf_Memory :: "MemoryConf option"
  cf_Subnet :: string
  cf_Cleanup :: Cleanup
  cf_Desk :: "bool option \<times> string"
  cf_HostFiles :: HostFiles
  cf_AWS :: "AWS option"

text \<open>What the operating system answers, and whether a text is a CIDR (\<^verbatim>\<open>net.ParseCIDR\<close>).\<close>

record config_world =
  cw_home :: string
  cw_uid :: int
  cw_gid :: int
  cw_user :: "string option"
  cw_cidr :: "string \<Rightarrow> bool"

section \<open>Paths, addresses and names\<close>

definition clean_step :: "bool \<Rightarrow> string \<Rightarrow> string list \<Rightarrow> string list" where
  "clean_step rooted e st = (if e = '''' \<or> e = ''.'' then st
     else if e = ''..'' then (case st of [] \<Rightarrow> if rooted then [] else [''..'']
        | x # xs \<Rightarrow> if x = ''..'' then ''..'' # st else xs) else e # st)"

text \<open>\<^verbatim>\<open>filepath.Clean\<close>, \<^verbatim>\<open>Join\<close> and \<^verbatim>\<open>IsAbs\<close>.\<close>

definition IsAbs :: "string \<Rightarrow> bool" where
  "IsAbs p = HasPrefix p ''/''"

definition Clean :: "string \<Rightarrow> string" where
  "Clean p = (let parts = rev (fold (clean_step (IsAbs p)) (Split p (CHR ''/'')) [])
     in if IsAbs p then ''/'' @ Join parts ''/'' else if parts = [] then ''.'' else Join parts ''/'')"

definition path_Join :: "string list \<Rightarrow> string" where
  "path_Join ps = (let xs = filter (\<lambda>p. p \<noteq> '''') ps in if xs = [] then '''' else Clean (Join xs ''/''))"

definition expand :: "string \<Rightarrow> string \<Rightarrow> string" where
  "expand p home = (if p = ''~'' then home else if HasPrefix p ''~/'' then path_Join [home, drop 2 p] else p)"

text \<open>The port of \<^verbatim>\<open>net.SplitHostPort\<close>.\<close>

definition host_port :: "string \<Rightarrow> string option" where
  "host_port s = (case cut_last (CHR '':'') s of None \<Rightarrow> None
     | Some (h, p) \<Rightarrow>
         if HasPrefix s ''['' then
           (case Cut s (CHR '']'') of (b, _, ok) \<Rightarrow>
              if \<not> ok \<or> h \<noteq> b @ '']'' \<or> CHR ''['' \<in> set (drop 1 s) \<or> CHR '']'' \<in> set p then None else Some p)
         else if CHR '':'' \<in> set h \<or> CHR ''['' \<in> set s \<or> CHR '']'' \<in> set s then None else Some p)"

definition is_lower :: "char \<Rightarrow> bool" where "is_lower c \<longleftrightarrow> (let n = of_char c :: nat in 97 \<le> n \<and> n \<le> 122)"
definition is_upper :: "char \<Rightarrow> bool" where "is_upper c \<longleftrightarrow> (let n = of_char c :: nat in 65 \<le> n \<and> n \<le> 90)"
definition is_alnum :: "char \<Rightarrow> bool" where "is_alnum c \<longleftrightarrow> is_lower c \<or> is_upper c \<or> is_digit c"

definition namePattern :: "string \<Rightarrow> bool" where
  "namePattern s \<longleftrightarrow> s \<noteq> [] \<and> length s \<le> 63 \<and> hd s \<noteq> CHR ''-'' \<and> list_all (\<lambda>c. is_lower c \<or> is_digit c \<or> c = CHR ''-'') s"

definition envName :: "string \<Rightarrow> bool" where
  "envName s \<longleftrightarrow> s \<noteq> [] \<and> \<not> is_digit (hd s) \<and> list_all (\<lambda>c. is_upper c \<or> is_digit c \<or> c = CHR ''_'') s"

definition hostAlias :: "string \<Rightarrow> bool" where
  "hostAlias s \<longleftrightarrow> s \<noteq> [] \<and> is_alnum (hd s) \<and> list_all (\<lambda>c. is_alnum c \<or> c \<in> {CHR ''.'', CHR ''_'', CHR ''-''}) s"

definition ghOwner :: "string \<Rightarrow> bool" where
  "ghOwner s \<longleftrightarrow> s \<noteq> [] \<and> is_alnum (hd s) \<and> is_alnum (last s) \<and> list_all (\<lambda>c. is_alnum c \<or> c = CHR ''-'') s"

definition awsRegion :: "string \<Rightarrow> bool" where
  "awsRegion s \<longleftrightarrow> (let ps = Split s (CHR ''-'')
     in 3 \<le> length ps \<and> length (hd ps) = 2 \<and> list_all (\<lambda>p. p \<noteq> [] \<and> list_all is_lower p) (butlast ps) \<and>
        last ps \<noteq> [] \<and> list_all is_digit (last ps))"

definition checkTokenEnv :: "string \<Rightarrow> string \<Rightarrow> string option" where
  "checkTokenEnv who v = (if v = '''' then Some (who @ '': token_env is required'')
     else if \<not> envName v then Some (who @ '': token_env must be an env var NAME, not a token'') else None)"

section \<open>Workers\<close>

definition maxSlots :: int where "maxSlots = 8"

record Worker =
  wk_Name :: string
  wk_Agent :: string
  wk_Slot :: int
  wk_Host :: string
  wk_Container :: string
  wk_Account :: string
  wk_Models :: "string list"
  wk_Model :: string
  wk_Sandbox :: bool

definition WorkerName :: "string \<Rightarrow> int \<Rightarrow> string" where
  "WorkerName agent slot = (if slot \<le> 1 then agent else agent @ '':'' @ show_int slot)"

definition SplitWorker :: "string \<Rightarrow> string \<times> int" where
  "SplitWorker name = (case Cut name (CHR '':'') of (a, k, ok) \<Rightarrow>
     if \<not> ok then (name, 1)
     else case Atoi k of None \<Rightarrow> (name, 0) | Some n \<Rightarrow> if n < 2 \<or> show_int n \<noteq> k then (name, 0) else (a, n))"

definition AgentNames :: "Config \<Rightarrow> string list" where
  "AgentNames c = sort (map fst (cf_Agents c))"

definition slot_worker :: "string \<Rightarrow> AgentConf \<Rightarrow> int \<Rightarrow> Worker" where
  "slot_worker agent a k = \<lparr>wk_Name = WorkerName agent k, wk_Agent = agent, wk_Slot = k, wk_Host = ac_Host a, wk_Container = ac_Container a,
     wk_Account = ac_Account a, wk_Models = ac_Models a, wk_Model = ac_Model a, wk_Sandbox = ac_Sandbox a\<rparr>"

definition Workers :: "Config \<Rightarrow> Worker list" where
  "Workers c = concat (map (\<lambda>n. case map_of (cf_Agents c) n of None \<Rightarrow> []
     | Some a \<Rightarrow> map (slot_worker n a) [1..max (ac_Slots a) 1]) (AgentNames c))"

definition WorkerNames :: "Config \<Rightarrow> string list" where
  "WorkerNames c = map wk_Name (Workers c)"

definition config_Worker :: "Config \<Rightarrow> string \<Rightarrow> Worker option" where
  "config_Worker c name = (case SplitWorker name of (agent, slot) \<Rightarrow>
     (case map_of (cf_Agents c) agent of None \<Rightarrow> None
      | Some a \<Rightarrow> if slot < 1 \<or> max (ac_Slots a) 1 < slot then None else Some (slot_worker agent a slot)))"

definition Siblings :: "Config \<Rightarrow> string \<Rightarrow> string list" where
  "Siblings c name = (case config_Worker c name of None \<Rightarrow> []
     | Some w \<Rightarrow> (case map_of (cf_Agents c) (wk_Agent w) of None \<Rightarrow> []
         | Some a \<Rightarrow> map (WorkerName (wk_Agent w)) (filter (\<lambda>k. k \<noteq> wk_Slot w) [1..max (ac_Slots a) 1])))"

definition AgentsOn :: "Config \<Rightarrow> string \<Rightarrow> string list" where
  "AgentsOn c host = filter (\<lambda>n. case map_of (cf_Agents c) n of None \<Rightarrow> False | Some a \<Rightarrow> ac_Host a = host) (AgentNames c)"

definition HostNames :: "Config \<Rightarrow> string list" where
  "HostNames c = sort (map fst (cf_Hosts c))"

definition OwnerNames :: "GitHub \<Rightarrow> string list" where
  "OwnerNames g = sort (map fst (gh_Owners g))"

definition NotifyOn :: "Karmax \<Rightarrow> bool" where
  "NotifyOn k \<longleftrightarrow> (case kx_Notify k of None \<Rightarrow> True | Some b \<Rightarrow> b)"

definition LAN :: "HostFiles \<Rightarrow> string" where
  "LAN f = (if hf_LANListen f = ''off'' then '''' else hf_LANListen f)"

section \<open>Defaults\<close>

definition or_path :: "string \<Rightarrow> string \<Rightarrow> string \<Rightarrow> string" where
  "or_path home p v = expand (if p = '''' then v else p) home"

definition or_text :: "string \<Rightarrow> string \<Rightarrow> string" where
  "or_text p v = (if p = '''' then v else p)"

definition or_dur :: "duration \<Rightarrow> duration \<Rightarrow> duration" where
  "or_dur p v = (if p \<le> 0 then v else p)"

definition default_console :: "Console \<Rightarrow> Console" where
  "default_console k = k\<lparr>cc_Listen := or_text (cc_Listen k) ''127.0.0.1:7880'', cc_Dir := or_text (cc_Dir k) ''~/.config/fleet-console''\<rparr>"

definition default_tailnet :: "string \<Rightarrow> string \<Rightarrow> Tailnet \<Rightarrow> Tailnet" where
  "default_tailnet home state t = t\<lparr>tn_GuestOpen := (if tn_GuestOpen t \<le> 0 then 2 else tn_GuestOpen t),
     tn_Socket := or_text (tn_Socket t) ''/var/run/tailscale/tailscaled.sock'',
     tn_Dist := or_path home (tn_Dist t) (path_Join [state, ''dist''])\<rparr>"

definition default_agent :: "int \<Rightarrow> string \<Rightarrow> AgentConf \<Rightarrow> AgentConf" where
  "default_agent slots name a =
     (let a1 = (if ac_Sandbox a \<and> ac_Slots a = 0 then a\<lparr>ac_Slots := 1\<rparr> else a);
          a2 = (if ac_Sandbox a1 \<and> ac_Memory a1 = '''' then a1\<lparr>ac_Memory := ''1536m''\<rparr> else a1);
          a3 = (if ac_Slots a2 = 0 then a2\<lparr>ac_Slots := slots\<rparr> else a2);
          a4 = (if ac_Container a3 = '''' then a3\<lparr>ac_Container := name\<rparr> else a3);
          a5 = (if ac_Models a4 = [] then a4\<lparr>ac_Models := [''sonnet'']\<rparr> else a4)
      in if ac_Account a5 = '''' then a5\<lparr>ac_Account := name\<rparr> else a5)"

definition default_thresholds :: "AllThresholds \<Rightarrow> AllThresholds" where
  "default_thresholds th = th\<lparr>
     th_Tick := or_dur (th_Tick th) (30 * second), th_RestartWindow := or_dur (th_RestartWindow th) (10 * minute),
     th_StandbyIdle := or_dur (th_StandbyIdle th) (12 * hour), th_WaitingNudge := or_dur (th_WaitingNudge th) (2 * hour),
     th_WaitingArchive := or_dur (th_WaitingArchive th) (24 * hour), th_CoolingDefault := or_dur (th_CoolingDefault th) hour,
     th_QuestionEscalate := or_dur (th_QuestionEscalate th) (10 * minute), th_HeldAlertAfter := or_dur (th_HeldAlertAfter th) hour,
     th_HostSettle := or_dur (th_HostSettle th) (10 * minute), th_EventsRaw := or_dur (th_EventsRaw th) (90 * 24 * hour),
     th_QuotaRaw := or_dur (th_QuotaRaw th) (7 * 24 * hour), th_RelayText := or_dur (th_RelayText th) (30 * 24 * hour),
     th_HostSamples := or_dur (th_HostSamples th) (7 * 24 * hour),
     th_RestartFailures := (if th_RestartFailures th \<le> 0 then 3 else th_RestartFailures th),
     th_StandbyMinTranscript := (if th_StandbyMinTranscript th \<le> 0 then 32768 else th_StandbyMinTranscript th),
     th_CompactBytes := (if th_CompactBytes th \<le> 0 then 8388608 else th_CompactBytes th),
     th_Low5h := (if th_Low5h th = 0 then 80 else th_Low5h th),
     th_Reserved7d := (if th_Reserved7d th = 0 then 90 else th_Reserved7d th)\<rparr>"

definition aws_defaults :: "string \<Rightarrow> AWS \<Rightarrow> AWS" where
  "aws_defaults home a = a\<lparr>aw_Regions := (if aw_Regions a = [] then [''ap-south-1'', ''us-east-1''] else aw_Regions a),
     aw_Every := or_dur (aw_Every a) (5 * minute), aw_CostEvery := or_dur (aw_CostEvery a) (6 * hour),
     aw_KeysCSV := expand (aw_KeysCSV a) home, aw_CLI := expand (aw_CLI a) home\<rparr>"

definition defaults :: "config_world \<Rightarrow> Config \<Rightarrow> Config" where
  "defaults w c =
     (let h0 = (if cf_Home c = '''' then cw_home w else cf_Home c); home = expand h0 h0;
          state = or_path home (cf_StateDir c) (path_Join [home, ''.karmax'', ''fleet'']);
          k = cf_Karmax c; o1 = cf_Orchestrator c; slots = (if cf_Slots c = 0 then 2 else cf_Slots c); cu = cf_Cleanup c
      in c\<lparr>cf_Home := home,
           cf_Console := map_option default_console (cf_Console c),
           cf_Code := or_path home (cf_Code c) (path_Join [home, ''code'']),
           cf_EnvFile := or_path home (cf_EnvFile c) (path_Join [home, ''.karmax'', ''.env'']),
           cf_StateDir := state,
           cf_Image := or_text (cf_Image c) ''karmax-fleet:latest'',
           cf_UID := (if cf_UID c = 0 then cw_uid w else cf_UID c),
           cf_GID := (if cf_GID c = 0 then cw_gid w else cf_GID c),
           cf_User := (if cf_User c = '''' then (case cw_user w of None \<Rightarrow> '''' | Some u \<Rightarrow> u) else cf_User c),
           cf_Listen := or_text (cf_Listen c) ''127.0.0.1:7878'',
           cf_Tailnet := map_option (default_tailnet home state) (cf_Tailnet c),
           cf_MaxBytes := (if cf_MaxBytes c \<le> 0 then 2147483648 else cf_MaxBytes c),
           cf_TokenEnv := or_text (cf_TokenEnv c) ''FLEET_TOKEN'',
           cf_RelayTokenEnv := or_text (cf_RelayTokenEnv c) ''FLEET_RELAY_TOKEN'',
           cf_SockDir := or_text (cf_SockDir c) ''/run/fleet'',
           cf_Karmax := k\<lparr>kx_DataDir := or_path home (kx_DataDir k) (path_Join [home, ''.karmax'']),
             kx_Bin := or_text (kx_Bin k) ''karmax'', kx_APIURL := or_text (kx_APIURL k) ''http://127.0.0.1:9091''\<rparr>,
           cf_Orchestrator := o1\<lparr>oc_Name := or_text (oc_Name o1) ''karmax'', oc_Container := or_text (oc_Container o1) ''karmax-brain''\<rparr>,
           cf_Slots := slots,
           cf_Subnet := or_text (cf_Subnet c) ''172.30.250.0/24'',
           cf_Agents := map (\<lambda>(n, a). (n, default_agent slots n a)) (cf_Agents c),
           cf_Thresholds := default_thresholds (cf_Thresholds c),
           cf_Cleanup := cu\<lparr>cu_Every := or_dur (cu_Every cu) (24 * hour), cu_Stale := or_dur (cu_Stale cu) (7 * 24 * hour)\<rparr>,
           cf_AWS := map_option (aws_defaults home) (cf_AWS c),
           cf_Desk := (fst (cf_Desk c), or_text (snd (cf_Desk c)) ''fleet-desk''),
           cf_HostFiles := (cf_HostFiles c)\<lparr>hf_LANListen := or_text (hf_LANListen (cf_HostFiles c)) '':7877''\<rparr>\<rparr>)"

section \<open>What is refused\<close>

text \<open>The first error of checks that are made in turn.\<close>

definition first_refusal :: "string option list \<Rightarrow> string option" where
  "first_refusal es = (case List.find (\<lambda>e. e \<noteq> None) es of None \<Rightarrow> None | Some e \<Rightarrow> e)"

definition refuse :: "bool \<Rightarrow> string \<Rightarrow> string option" where
  "refuse bad m = (if bad then Some m else None)"

definition if_set :: "('a \<Rightarrow> string option list) \<Rightarrow> 'a option \<Rightarrow> string option" where
  "if_set check x = (case x of None \<Rightarrow> None | Some y \<Rightarrow> first_refusal (check y))"

definition is_http :: "string \<Rightarrow> bool" where
  "is_http u \<longleftrightarrow> HasPrefix u ''http://'' \<or> HasPrefix u ''https://''"

definition no_port :: "string \<Rightarrow> bool" where
  "no_port s \<longleftrightarrow> host_port s = None \<or> host_port s = Some ''''"

definition aws_validate :: "AWS \<Rightarrow> string option list" where
  "aws_validate a =
     [refuse (aw_KeysCSV a = '''') ''aws: keys_csv is required'',
      refuse (\<not> IsAbs (aw_KeysCSV a)) ''aws: keys_csv must be a full path, not a key'',
      refuse (aw_Every a < minute) ''aws: every: want at least 1m'',
      refuse (aw_CostEvery a < hour) ''aws: cost_every: want at least 1h'',
      (if ''all'' \<in> set (aw_Regions a) then refuse (1 < length (aw_Regions a)) ''aws: regions: all stands alone''
       else refuse (\<not> list_all awsRegion (aw_Regions a)) ''aws: regions: not a region'')]"

text \<open>The agents in order: \<open>seen\<close> are the token variables taken so far, with whose they are.\<close>

definition agent_checks :: "Config \<Rightarrow> (string \<times> string) list \<Rightarrow> string \<Rightarrow> AgentConf \<Rightarrow> string option list" where
  "agent_checks c seen name a =
     [refuse (snd (SplitWorker name) \<noteq> 1) (name @ '': names with : in them are taken by agents slots''),
      refuse (\<not> namePattern name) (name @ '': names are lowercase letters, digits and dashes''),
      refuse (name = oc_Name (cf_Orchestrator c)) (name @ '': same name as the orchestrator''),
      refuse (map_of (cf_Hosts c) (ac_Host a) = None) (name @ '': unknown host''),
      refuse (ac_Slots a < 1 \<or> maxSlots < ac_Slots a) (name @ '': slots: want 1 to 8''),
      checkTokenEnv (''agent '' @ name) (ac_TokenEnv a),
      refuse (map_of seen (ac_TokenEnv a) \<noteq> None) (name @ '': one subscription per agent'')]"

fun agents_error :: "Config \<Rightarrow> (string \<times> string) list \<Rightarrow> string list \<Rightarrow> string option" where
  "agents_error c seen [] = None"
| "agents_error c seen (n # ns) =
     (case map_of (cf_Agents c) n of None \<Rightarrow> agents_error c seen ns
      | Some a \<Rightarrow> (case first_refusal (agent_checks c seen n a) of Some e \<Rightarrow> Some e
          | None \<Rightarrow> agents_error c ((ac_TokenEnv a, n) # seen) ns))"

fun owners_error :: "GitHub \<Rightarrow> string list \<Rightarrow> string list \<Rightarrow> string option" where
  "owners_error g seen [] = None"
| "owners_error g seen (n # ns) =
     (case first_refusal [refuse (\<not> ghOwner n) ''github: owners: not a GitHub user or org name'',
          refuse (ToLower n \<in> set seen) ''github: owners: the same owner twice'',
          checkTokenEnv (''github: owners: '' @ n) (case map_of (gh_Owners g) n of None \<Rightarrow> '''' | Some v \<Rightarrow> v)] of
        Some e \<Rightarrow> Some e | None \<Rightarrow> owners_error g (ToLower n # seen) ns)"

definition console_checks :: "Config \<Rightarrow> Console \<Rightarrow> string option list" where
  "console_checks c k =
     [refuse (map_of (cf_Hosts c) (cc_Host k) = None) ''console: unknown host'',
      checkTokenEnv ''console'' (cc_TokenEnv k),
      refuse (cc_TokenEnv k = cf_TokenEnv c \<or> cc_TokenEnv k = cf_RelayTokenEnv c) ''console: the console needs a token of its own'',
      refuse (\<not> is_http (cc_FleetdURL k)) ''console: fleetd_url is not an http(s) URL'']"

definition memory_checks :: "Config \<Rightarrow> MemoryConf \<Rightarrow> string option list" where
  "memory_checks c m =
     [refuse (\<not> is_http (mc_URL m)) ''memory: url is not an http(s) URL'',
      refuse (mc_KeyEnv m = '''' \<or> \<not> envName (mc_KeyEnv m)) ''memory: key_env must be an env var NAME, not a key'',
      refuse (mc_KeyEnv m = cf_TokenEnv c \<or> mc_KeyEnv m = cf_RelayTokenEnv c) ''memory: key_env is also a fleet token'',
      refuse (TrimSpace (mc_Namespace m) = '''') ''memory: namespace is required'']"

definition hidden_ok :: "string \<Rightarrow> bool" where
  "hidden_ok p \<longleftrightarrow> p \<noteq> '''' \<and> \<not> IsAbs p \<and> Clean p \<noteq> ''.'' \<and> \<not> HasPrefix (Clean p) ''..''"

definition first_tokens :: "Config \<Rightarrow> (string \<times> string) list" where
  "first_tokens c = (if oc_Native (cf_Orchestrator c) then [] else [(oc_TokenEnv (cf_Orchestrator c), ''orchestrator'')])"

definition validate_config :: "config_world \<Rightarrow> Config \<Rightarrow> string option" where
  "validate_config w c =
     (let oc = cf_Orchestrator c; gh = cf_GitHub c; th = cf_Thresholds c; lan = LAN (cf_HostFiles c)
      in first_refusal
        [refuse (cf_Hosts c = []) ''no hosts'',
         refuse (\<exists>h\<in>set (cf_Hosts c). hc_Exec (snd h) = []) ''a host without exec'',
         refuse (map_of (cf_Hosts c) (oc_Host oc) = None) ''orchestrator: unknown host'',
         (if oc_Native oc then None else checkTokenEnv ''orchestrator'' (oc_TokenEnv oc)),
         refuse (cf_Agents c = []) ''no agents'',
         refuse (cu_Every (cf_Cleanup c) < hour) ''cleanup: every: want at least 1h'',
         refuse (cu_Stale (cf_Cleanup c) < 24 * hour) ''cleanup: stale: want at least 24h'',
         if_set aws_validate (cf_AWS c),
         refuse (lan \<noteq> '''' \<and> no_port lan) ''host_files: lan_listen: want [address]:port'',
         refuse (\<not> hostAlias (snd (cf_Desk c))) ''desk: want a tmux socket name'',
         refuse (cf_Slots c < 1 \<or> maxSlots < cf_Slots c) ''slots: want 1 to 8'',
         refuse (snd (SplitWorker (oc_Name oc)) \<noteq> 1) ''orchestrator: a name with : in it is a slot'',
         refuse (\<not> cw_cidr w (cf_Subnet c)) ''sandbox: want a CIDR'',
         agents_error c (first_tokens c) (AgentNames c),
         (if gh_TokenEnv gh \<noteq> '''' then checkTokenEnv ''github'' (gh_TokenEnv gh) else None),
         refuse (\<not> list_all hostAlias (gh_SSHAliases gh)) ''github: ssh_aliases: not a host name'',
         owners_error gh [] (OwnerNames gh),
         refuse (gh_PackagesTokenEnv gh \<noteq> '''' \<and> \<not> envName (gh_PackagesTokenEnv gh)) ''github: packages_token_env must be an env var NAME'',
         (if fst (cf_Build c) \<noteq> '''' then checkTokenEnv ''build'' (snd (cf_Build c)) else None),
         if_set (console_checks c) (cf_Console c),
         if_set (\<lambda>t. [refuse (no_port (tn_Listen t)) ''tailnet: want the tailnet address and a port'']) (cf_Tailnet c),
         if_set (memory_checks c) (cf_Memory c),
         refuse (\<not> list_all hidden_ok (cf_HideFromAgents c)) ''hide_from_agents: want a path under code'',
         validateTools (kx_Tools (cf_Karmax c)),
         refuse (Contains (oc_Name oc) ''@'') ''orchestrator: no @ in its name'',
         refuse (th_Low5h th < 0 \<or> 100 < th_Low5h th \<or> th_Reserved7d th < 0 \<or> 100 < th_Reserved7d th)
           ''thresholds: low_5h and reserved_7d are percentages''])"

definition goneTailnetKeys :: "string list" where
  "goneTailnetKeys = [''operators'', ''members'', ''member_open'']"

text \<open>\<open>decoded\<close> is what the YAML library makes of the file, \<open>tailnet\<close> the keys under \<^verbatim>\<open>tailnet\<close>, if that
  decodes.\<close>

definition Parse_config :: "config_world \<Rightarrow> string + Config \<Rightarrow> string list option \<Rightarrow> string + Config" where
  "Parse_config w decoded tailnet =
     (case decoded of Inl m \<Rightarrow> Inl (''fleet.yaml: '' @ m)
      | Inr c0 \<Rightarrow>
          if (case tailnet of None \<Rightarrow> False | Some ks \<Rightarrow> list_ex (\<lambda>k. k \<in> set ks) goneTailnetKeys)
          then Inl ''fleet.yaml: tailnet.operators and members are gone''
          else (let c = defaults w c0
            in case validate_config w c of Some m \<Rightarrow> Inl (''fleet.yaml: '' @ m) | None \<Rightarrow> Inr c))"

text \<open>The file as it is read.\<close>

definition Load_config :: "config_world \<Rightarrow> string + string \<Rightarrow> (string \<Rightarrow> string + Config) \<Rightarrow> (string \<Rightarrow> string list option) \<Rightarrow> string + Config" where
  "Load_config w file yaml yaml_tailnet = (case file of Inl m \<Rightarrow> Inl m | Inr b \<Rightarrow> Parse_config w (yaml b) (yaml_tailnet b))"

end
