(* ===== verification/Fleet_Model.thy ===== *)
theory Fleet_Model
  imports Fleet_Tasks Fleet_Config
begin

text \<open>
  \<^verbatim>\<open>fleet/internal/daemon/model.go\<close>: the model an agent's session runs, from fleet.yaml, the ledger's
  override and the open task; and how fleetd asks a session for it. What fleetd types into sessions is recorded; a pane answers by
  all that was typed before.
\<close>

section \<open>The fleet of a configuration\<close>

definition fleet_of :: "Config \<Rightarrow> fleet_conf" where
  "fleet_of c = \<lparr>fc_workers = WorkerNames c, fc_orchestrator = oc_Name (cf_Orchestrator c),
     fc_sandboxes = map wk_Name (filter wk_Sandbox (Workers c)), fc_siblings = Siblings c,
     fc_HeldAlertAfter = th_HeldAlertAfter (cf_Thresholds c), fc_EventsRaw = th_EventsRaw (cf_Thresholds c),
     fc_RelayText = th_RelayText (cf_Thresholds c)\<rparr>"

definition no_worker :: Worker where
  "no_worker = \<lparr>wk_Name = '''', wk_Agent = '''', wk_Slot = 0, wk_Host = '''', wk_Container = '''', wk_Account = '''', wk_Models = [],
     wk_Model = '''', wk_Sandbox = False\<rparr>"

definition worker :: "Config \<Rightarrow> string \<Rightarrow> Worker" where
  "worker c name = (case config_Worker c name of None \<Rightarrow> no_worker | Some x \<Rightarrow> x)"

section \<open>Names of models\<close>

definition modelFamilies :: "string list" where
  "modelFamilies = [''sonnet'', ''opus'', ''haiku'']"

definition id_char :: "char \<Rightarrow> bool" where
  "id_char x \<longleftrightarrow> is_lower x \<or> is_digit x"

text \<open>\<^verbatim>\<open>^[a-z0-9][a-z0-9.\-]*(\[[0-9a-z]+\])?$\<close>.\<close>

definition model_name :: "string \<Rightarrow> bool" where
  "model_name s \<longleftrightarrow> s \<noteq> [] \<and> id_char (hd s) \<and> list_all (\<lambda>x. id_char x \<or> x = CHR ''.'' \<or> x = CHR ''-'') s"

definition modelID :: "string \<Rightarrow> bool" where
  "modelID s = (case Cut s (CHR ''['') of (b, a, ok) \<Rightarrow>
     model_name b \<and> (ok \<longrightarrow> HasSuffix a '']'' \<and> TrimSuffix a '']'' \<noteq> '''' \<and> list_all id_char (TrimSuffix a '']'')))"

definition NormalizeModel :: "string \<Rightarrow> string + string" where
  "NormalizeModel s = (let m = ToLower (TrimSpace s) in if modelID m then Inr m else Inl ''bad input: model'')"

definition family :: "string \<Rightarrow> string" where
  "family m = (case List.find (Contains m) modelFamilies of None \<Rightarrow> '''' | Some x \<Rightarrow> x)"

definition model_matches :: "string \<Rightarrow> string \<Rightarrow> bool" where
  "model_matches m e \<longleftrightarrow> e = m \<or> (e = family m \<and> family e = e) \<or> (m = family m \<and> family e = m)"

definition ModelAllowed :: "string list \<Rightarrow> string \<Rightarrow> bool" where
  "ModelAllowed models m \<longleftrightarrow> list_ex (\<lambda>e. model_matches m (ToLower e)) models"

definition modelIs :: "string \<Rightarrow> string \<Rightarrow> string \<Rightarrow> bool" where
  "modelIs want0 i0 display0 =
     (if i0 = '''' \<and> display0 = '''' then False
      else let i = ToLower i0; display = ToLower display0; want = TrimSuffix want0 ''[1m]''
        in if want = family want then Contains i want \<or> Contains display want
           else (i \<noteq> '''' \<and> (HasPrefix want i \<or> HasPrefix i want)) \<or> EqualFold display want)"

section \<open>The model that is wanted\<close>

record ModelReply =
  mr_Agent :: string
  mr_Default :: string
  mr_Override :: string
  mr_Task :: string
  mr_Wanted :: string
  mr_Live :: string

definition firstNonEmpty :: "string list \<Rightarrow> string" where
  "firstNonEmpty ss = (case List.find (\<lambda>s. s \<noteq> '''') ss of None \<Rightarrow> '''' | Some s \<Rightarrow> s)"

definition wantedModel :: "Config \<Rightarrow> fleet_world \<Rightarrow> string \<Rightarrow> State \<Rightarrow> fleet \<Rightarrow> ModelReply" where
  "wantedModel c w name st f =
     (let default = wk_Model (worker c name);
          override = (case ModelOverride (fw_read w) name (fd_ledger f) of Inl _ \<Rightarrow> '''' | Inr m \<Rightarrow> m);
          task = (if st_Task st \<noteq> '''' \<and> \<not> st_Done st
                  then (case read_task (fw_read w) (st_Task st) (fd_ledger f) of
                          Inr (Some t) \<Rightarrow> if ta_Closed t = zero_time then ta_Model t else '''' | _ \<Rightarrow> '''') else '''')
      in \<lparr>mr_Agent = name, mr_Default = default, mr_Override = override, mr_Task = task,
          mr_Wanted = firstNonEmpty [task, override, default], mr_Live = st_Model st\<rparr>)"

definition Model :: "Config \<Rightarrow> fleet_world \<Rightarrow> string \<Rightarrow> fleet \<Rightarrow> string + ModelReply" where
  "Model c w name f = (if \<not> known (fleet_of c) name then Inl ''no agent of that name''
     else Inr (wantedModel c w name (fd_states f name) f))"

definition SetModel :: "Config \<Rightarrow> fleet_world \<Rightarrow> string \<Rightarrow> string \<Rightarrow> fleet \<Rightarrow> string option \<times> fleet" where
  "SetModel c w name model f =
     (if \<not> known (fleet_of c) name then (Some ''bad input: no agent of that name'', f)
      else case (if model = '''' then Inr '''' else NormalizeModel model) of Inl m \<Rightarrow> (Some m, f)
        | Inr m \<Rightarrow> (let (e, g) = SetModelOverride (fw_write w) name m (fd_ledger f) in (e, with_ledger g f)))"

section \<open>Asking a session for it\<close>

definition alertEvery :: duration where "alertEvery = 15 * minute"

definition firstAlert :: "string \<Rightarrow> gtime \<Rightarrow> fleet \<Rightarrow> bool \<times> fleet" where
  "firstAlert text now f =
     (if (case map_of (fd_alerted f) text of None \<Rightarrow> False | Some t \<Rightarrow> time_sub now t < alertEvery) then (False, f)
      else (True, f\<lparr>fd_alerted := (text, now) # filter (\<lambda>x. time_sub now (snd x) < alertEvery \<and> fst x \<noteq> text) (fd_alerted f)\<rparr>))"

definition modelAskGrace :: duration where "modelAskGrace = 2 * minute"

type_synonym pane = "(string \<times> string) list \<Rightarrow> string \<Rightarrow> string \<Rightarrow> string option"

definition type_in :: "pane \<Rightarrow> string \<Rightarrow> string \<Rightarrow> fleet \<Rightarrow> string option \<times> fleet" where
  "type_in p name text f = (p (fd_typed f) name text, f\<lparr>fd_typed := fd_typed f @ [(name, text)]\<rparr>)"

definition session_key :: "State \<Rightarrow> string" where
  "session_key st = st_SessionID st @ ''/'' @ st_Proc st"

text \<open>\<open>status\<close>: the model the session runs is known. The model can only be asked for between turns (\<open>idle\<close>).\<close>

definition applyModel :: "Config \<Rightarrow> fleet_world \<Rightarrow> pane \<Rightarrow> string \<Rightarrow> State \<Rightarrow> bool \<Rightarrow> bool \<Rightarrow> gtime \<Rightarrow> fleet \<Rightarrow> State \<times> fleet" where
  "applyModel c w p name st status idle now f =
     (if st_SessionID st = '''' \<or> st_Done st then (st, f)
      else let want = mr_Wanted (wantedModel c w name st f)
        in if want = '''' \<or> (status \<and> modelIs want (st_ModelID st) (st_Model st))
           then (if status \<and> want \<noteq> '''' then st\<lparr>st_Alerted := (st_Alerted st)(''model'' := False)\<rparr> else st, f)
           else if \<not> status then (st, f)
           else if st_ModelAsked st = want \<and> st_ModelAskedKey st = session_key st
           then (if modelAskGrace \<le> time_sub now (st_ModelAskedAt st) \<and> \<not> st_Alerted st ''model'' \<and> fw_notifier w
                 then (let txt = name @ '' was asked for '' @ want @ '' and still shows '' @ st_Model st;
                           (first, f1) = firstAlert txt now f
                       in (st\<lparr>st_Alerted := (st_Alerted st)(''model'' := True)\<rparr>, if first then alert name txt f1 else f1))
                 else (st, f))
           else if \<not> idle then (st, f)
           else (case type_in p name (''/model '' @ want) f of
                   (Some _, f1) \<Rightarrow> (st, f1)
                 | (None, f1) \<Rightarrow> (st\<lparr>st_ModelAsked := want, st_ModelAskedKey := session_key st, st_ModelAskedAt := now\<rparr>, f1)))"

definition setModelNow :: "Config \<Rightarrow> fleet_world \<Rightarrow> pane \<Rightarrow> string \<Rightarrow> gtime \<Rightarrow> fleet \<Rightarrow> fleet" where
  "setModelNow c w p name now f = (case applyModel c w p name (fd_states f name) True True now f of (st, f1) \<Rightarrow> set_state st f1)"

end
