(* ===== verification/Fleet_Access.thy ===== *)
theory Fleet_Access
  imports Fleet_Tasks Fleet_Identity
begin

text \<open>
  Who may use the fleet from the tailnet: the tables of tagged devices and of devices that asked
  (\<^verbatim>\<open>fleet/internal/ledger/access.go\<close>), what a tag gives and how it is changed (\<^verbatim>\<open>fleet/internal/access\<close>), and
  the daemon's part (\<^verbatim>\<open>fleet/internal/daemon/access.go\<close>). A driver's answer is an argument of each statement.
\<close>

section \<open>Tables\<close>

record Who =
  wh_Login :: string
  wh_Node :: string
  wh_StableID :: string

record DeviceRow =
  dv_StableID :: string
  dv_Name :: string
  dv_Login :: string
  dv_Role :: string
  dv_TaggedAt :: int
  dv_TaggedBy :: string
  dv_LastSeen :: "int option"

record KnockRow =
  kn_StableID :: string
  kn_Name :: string
  kn_Login :: string
  kn_First :: int
  kn_Last :: int
  kn_Count :: int
  kn_ToldAt :: "int option"

record access_db =
  ax_devices :: "DeviceRow list"
  ax_agents :: "(string \<times> string) list"
  ax_knocks :: "KnockRow list"

definition no_devices :: access_db where
  "no_devices = \<lparr>ax_devices = [], ax_agents = [], ax_knocks = []\<rparr>"

record Device =
  de_StableID :: string
  de_Name :: string
  de_Login :: string
  de_Role :: string
  de_Agents :: "string list"
  de_TaggedAt :: gtime
  de_TaggedBy :: string
  de_LastSeen :: gtime

record Knock =
  ko_StableID :: string
  ko_Name :: string
  ko_Login :: string
  ko_First :: gtime
  ko_Last :: gtime
  ko_Count :: int

definition RoleAdmin :: string where "RoleAdmin = ''admin''"
definition RoleGuest :: string where "RoleGuest = ''guest''"

definition no_device :: Device where
  "no_device = \<lparr>de_StableID = '''', de_Name = '''', de_Login = '''', de_Role = '''', de_Agents = [], de_TaggedAt = zero_time,
     de_TaggedBy = '''', de_LastSeen = zero_time\<rparr>"

definition knockTold :: duration where "knockTold = 24 * hour"
definition seenEvery :: duration where "seenEvery = minute"

text \<open>The agents of a device come as one text, in order, and are taken apart.\<close>

definition lent_to :: "string \<Rightarrow> access_db \<Rightarrow> string list" where
  "lent_to i x = sort (map snd (filter (\<lambda>a. fst a = i) (ax_agents x)))"

definition scan_agents :: "string list \<Rightarrow> string list" where
  "scan_agents as = (let s = Join as '','' in if s = '''' then [] else Split s (CHR '',''))"

definition scan_device :: "access_db \<Rightarrow> DeviceRow \<Rightarrow> Device" where
  "scan_device x r = \<lparr>de_StableID = dv_StableID r, de_Name = dv_Name r, de_Login = dv_Login r, de_Role = dv_Role r,
     de_Agents = scan_agents (lent_to (dv_StableID r) x), de_TaggedAt = of_unix (dv_TaggedAt r), de_TaggedBy = dv_TaggedBy r,
     de_LastSeen = fromUnix (dv_LastSeen r)\<rparr>"

definition device :: "dberr \<Rightarrow> string \<Rightarrow> access_db \<Rightarrow> string + Device option" where
  "device err i x = (case err of Some m \<Rightarrow> Inl m | None \<Rightarrow> Inr (map_option (scan_device x) (row_of dv_StableID i (ax_devices x))))"

definition devices :: "dberr \<Rightarrow> access_db \<Rightarrow> string + Device list" where
  "devices err x = (case err of Some m \<Rightarrow> Inl m
     | None \<Rightarrow> Inr (map (scan_device x) (sort_key (\<lambda>r. (dv_Name r, dv_StableID r)) (ax_devices x))))"

definition merge_device :: "DeviceRow \<Rightarrow> DeviceRow \<Rightarrow> DeviceRow" where
  "merge_device r x = r\<lparr>dv_Name := dv_Name x, dv_Login := dv_Login x, dv_Role := dv_Role x, dv_TaggedAt := dv_TaggedAt x, dv_TaggedBy := dv_TaggedBy x\<rparr>"

text \<open>One transaction.\<close>

definition Tag :: "dberr \<Rightarrow> Device \<Rightarrow> access_db \<Rightarrow> dberr \<times> access_db" where
  "Tag err d x = (if de_StableID d = '''' then (Some ''a device tag needs its StableID'', x)
     else ran (x\<lparr>ax_devices := upsert dv_StableID merge_device \<lparr>dv_StableID = de_StableID d, dv_Name = de_Name d, dv_Login = de_Login d,
             dv_Role = de_Role d, dv_TaggedAt = unix_of (de_TaggedAt d), dv_TaggedBy = de_TaggedBy d, dv_LastSeen = None\<rparr> (ax_devices x),
           ax_agents := fold (\<lambda>a. upsert id (\<lambda>r _. r) (de_StableID d, a)) (de_Agents d) (delete_where (\<lambda>a. fst a = de_StableID d) (ax_agents x)),
           ax_knocks := delete_where (\<lambda>k. kn_StableID k = de_StableID d) (ax_knocks x)\<rparr>) err x)"

definition Untag :: "dberr \<Rightarrow> string \<Rightarrow> access_db \<Rightarrow> dberr \<times> access_db" where
  "Untag err i x = ran (x\<lparr>ax_agents := delete_where (\<lambda>a. fst a = i) (ax_agents x),
     ax_devices := delete_where (\<lambda>r. dv_StableID r = i) (ax_devices x)\<rparr>) err x"

definition Seen :: "dberr \<Rightarrow> string \<Rightarrow> gtime \<Rightarrow> access_db \<Rightarrow> dberr \<times> access_db" where
  "Seen err i now x = ran (x\<lparr>ax_devices := update_where
     (\<lambda>r. dv_StableID r = i \<and> (case dv_LastSeen r of None \<Rightarrow> True | Some t \<Rightarrow> t \<le> unix_of (now - seenEvery)))
     (\<lambda>r. r\<lparr>dv_LastSeen := Some (unix_of now)\<rparr>) (ax_devices x)\<rparr>) err x"

definition merge_knock :: "KnockRow \<Rightarrow> KnockRow \<Rightarrow> KnockRow" where
  "merge_knock r x = r\<lparr>kn_Name := kn_Name x, kn_Login := kn_Login x, kn_Last := kn_Last x, kn_Count := kn_Count r + 1\<rparr>"

text \<open>The knock is counted, and whether the operator is told of it: not when a knock of the device was told in the last day.\<close>

definition first_knock :: "string \<Rightarrow> gtime \<Rightarrow> access_db \<Rightarrow> bool" where
  "first_knock i now x = (case row_of kn_StableID i (ax_knocks x) of None \<Rightarrow> True
     | Some k \<Rightarrow> (case kn_ToldAt k of None \<Rightarrow> True | Some t \<Rightarrow> knockTold \<le> time_sub now (of_unix t)))"

definition db_Knock :: "dberr \<Rightarrow> Who \<Rightarrow> gtime \<Rightarrow> access_db \<Rightarrow> (string + bool) \<times> access_db" where
  "db_Knock err w now x = (case err of Some m \<Rightarrow> (Inl m, x)
     | None \<Rightarrow> (let first = first_knock (wh_StableID w) now x;
           ks = upsert kn_StableID merge_knock \<lparr>kn_StableID = wh_StableID w, kn_Name = wh_Node w, kn_Login = wh_Login w, kn_First = unix_of now,
                  kn_Last = unix_of now, kn_Count = 1, kn_ToldAt = None\<rparr> (ax_knocks x)
         in (Inr first, x\<lparr>ax_knocks := (if first
               then update_where (\<lambda>k. kn_StableID k = wh_StableID w) (\<lambda>k. k\<lparr>kn_ToldAt := Some (unix_of now)\<rparr>) ks else ks)\<rparr>)))"

definition scan_knock :: "KnockRow \<Rightarrow> Knock" where
  "scan_knock k = \<lparr>ko_StableID = kn_StableID k, ko_Name = kn_Name k, ko_Login = kn_Login k, ko_First = of_unix (kn_First k),
     ko_Last = of_unix (kn_Last k), ko_Count = kn_Count k\<rparr>"

definition Knocks :: "dberr \<Rightarrow> int \<Rightarrow> access_db \<Rightarrow> string + Knock list" where
  "Knocks err limit x = (case err of Some m \<Rightarrow> Inl m
     | None \<Rightarrow> (let rows = sort_key (\<lambda>k. (- kn_Last k, kn_StableID k)) (ax_knocks x)
         in Inr (map scan_knock (if 0 < limit then take (nat limit) rows else rows))))"

section \<open>Who a caller is\<close>

definition Resolve :: "dberr \<Rightarrow> Who \<Rightarrow> access_db \<Rightarrow> string + Device" where
  "Resolve err w x =
     (if wh_StableID w = '''' \<or> wh_Login w = '''' then Inr no_device
      else case device err (wh_StableID w) x of Inl m \<Rightarrow> Inl m | Inr None \<Rightarrow> Inr no_device
        | Inr (Some d) \<Rightarrow>
            if \<not> EqualFold (de_Login d) (wh_Login w) then Inr no_device
            else if de_Role d \<noteq> RoleAdmin \<and> de_Role d \<noteq> RoleGuest then Inr no_device
            else Inr (d\<lparr>de_Name := wh_Node w\<rparr>))"

definition Refusal :: "Who \<Rightarrow> string" where
  "Refusal w = (let name = TrimSuffix (wh_Node w) ''.''
     in ''this device ('' @ wh_Node w @ '', '' @ wh_Login w @ '') may not use this fleet yet. Its request is recorded.'' @ [CHR 0x0A] @
        ''The fleet'' @ [CHR 0x27] @ ''s operator lets it in, on the fleet'' @ [CHR 0x27] @ ''s host, with'' @ [CHR 0x0A] @
        ''  fleetctl access admin '' @ name @ [CHR 0x0A] @ ''or lends it agents with'' @ [CHR 0x0A] @
        ''  fleetctl access lend '' @ name @ '' <agent>'' @ ellipsis)"

definition Short :: "string \<Rightarrow> string" where
  "Short name = fst (Cut name (CHR ''.''))"

record AccessList =
  al_Devices :: "Device list"
  al_Knocks :: "Knock list"

definition List :: "dberr \<Rightarrow> dberr \<Rightarrow> access_db \<Rightarrow> string + AccessList" where
  "List derr kerr x = (case devices derr x of Inl m \<Rightarrow> Inl m
     | Inr ds \<Rightarrow> (case Knocks kerr 50 x of Inl m \<Rightarrow> Inl m
         | Inr ks \<Rightarrow> Inr \<lparr>al_Devices = ds, al_Knocks = filter (\<lambda>k. \<not> list_ex (\<lambda>d. de_StableID d = ko_StableID k) ds) ks\<rparr>))"

section \<open>Changing who may\<close>

datatype access_error = NoDevice string | BadChange string | AccessFailed string

definition add_known :: "Knock \<Rightarrow> (string \<times> string \<times> string) list \<Rightarrow> (string \<times> string \<times> string) list" where
  "add_known k all = (if list_ex (\<lambda>y. fst y = ko_StableID k) all then all else all @ [(ko_StableID k, ko_Name k, ko_Login k)])"

definition known_devices :: "Device list \<Rightarrow> Knock list \<Rightarrow> (string \<times> string \<times> string) list" where
  "known_devices ds ks = fold add_known ks (map (\<lambda>d. (de_StableID d, de_Name d, de_Login d)) ds)"

definition Find :: "dberr \<Rightarrow> dberr \<Rightarrow> string \<Rightarrow> access_db \<Rightarrow> access_error + string \<times> string \<times> string" where
  "Find derr kerr ref0 x =
     (let ref = TrimSuffix (TrimSpace ref0) ''.''
      in if ref = '''' then Inl (BadChange ''name a device'')
         else case devices derr x of Inl m \<Rightarrow> Inl (AccessFailed m)
          | Inr ds \<Rightarrow> (case Knocks kerr 0 x of Inl m \<Rightarrow> Inl (AccessFailed m)
             | Inr ks \<Rightarrow> (let all = known_devices ds ks
                 in case List.find (\<lambda>y. fst y = ref \<or> EqualFold (fst (snd y)) ref) all of Some y \<Rightarrow> Inr y
                    | None \<Rightarrow> (case filter (\<lambda>y. EqualFold (Short (fst (snd y))) ref) all of
                         [y] \<Rightarrow> Inr y | [] \<Rightarrow> Inl (NoDevice ref) | _ \<Rightarrow> Inl (BadChange (ref @ '' is more than one device''))))))"

definition union :: "string list \<Rightarrow> string list \<Rightarrow> string list" where
  "union a b = sort (fold (\<lambda>y out. if y \<in> set out then out else out @ [y]) b a)"

record AccessChange =
  cg_Op :: string
  cg_Device :: string
  cg_Agents :: "string list"

record access_world =
  xw_devices :: dberr
  xw_knocks :: dberr
  xw_device :: dberr
  xw_write :: dberr
  xw_list :: dberr
  xw_listed :: dberr

definition after_change :: "access_world \<Rightarrow> dberr \<times> access_db \<Rightarrow> (access_error + AccessList) \<times> access_db" where
  "after_change w r = (case r of (Some m, x) \<Rightarrow> (Inl (AccessFailed m), x)
     | (None, x) \<Rightarrow> (case List (xw_list w) (xw_listed w) x of Inl m \<Rightarrow> (Inl (AccessFailed m), x) | Inr l \<Rightarrow> (Inr l, x)))"

text \<open>What the device is to be, or why the change is refused.\<close>

definition changed :: "AccessChange \<Rightarrow> string \<Rightarrow> (string \<Rightarrow> bool) \<Rightarrow> gtime \<Rightarrow> string \<times> string \<times> string \<Rightarrow> Device option \<Rightarrow> access_error + Device" where
  "changed c by_whom sandbox now y tagged =
     (let cur = (case tagged of None \<Rightarrow> no_device | Some d \<Rightarrow> d);
          d = no_device\<lparr>de_StableID := fst y, de_Name := fst (snd y), de_Login := snd (snd y), de_TaggedAt := now, de_TaggedBy := by_whom\<rparr>;
          kept = (if tagged = None then d else d\<lparr>de_TaggedAt := de_TaggedAt cur, de_TaggedBy := de_TaggedBy cur\<rparr>);
          agents = map (\<lambda>a. Base (TrimSpace a)) (cg_Agents c)
      in if cg_Op c = ''admin'' then Inr (d\<lparr>de_Role := RoleAdmin\<rparr>)
         else if cg_Op c = ''lend''
         then (if agents = [] then Inl (BadChange ''lend needs at least one agent'')
               else if tagged \<noteq> None \<and> de_Role cur = RoleAdmin then Inl (BadChange ''is an admin device'')
               else if \<not> list_all sandbox agents then Inl (BadChange ''only sandbox agents can be lent'')
               else Inr (kept\<lparr>de_Role := RoleGuest, de_Agents := union (de_Agents cur) agents\<rparr>))
         else if cg_Op c = ''unlend''
         then (if tagged = None \<or> de_Role cur \<noteq> RoleGuest then Inl (BadChange ''is not a guest device'')
               else if agents = [] then Inl (BadChange ''unlend needs at least one agent'')
               else Inr (kept\<lparr>de_Role := RoleGuest, de_Agents := filter (\<lambda>a. a \<notin> set agents) (de_Agents cur)\<rparr>))
         else Inl (BadChange ''want admin, lend, unlend or revoke''))"

definition Change :: "access_world \<Rightarrow> AccessChange \<Rightarrow> string \<Rightarrow> (string \<Rightarrow> bool) \<Rightarrow> gtime \<Rightarrow> access_db \<Rightarrow> (access_error + AccessList) \<times> access_db" where
  "Change w c by_whom sandbox now x =
     (case Find (xw_devices w) (xw_knocks w) (cg_Device c) x of Inl e \<Rightarrow> (Inl e, x)
      | Inr y \<Rightarrow> (case device (xw_device w) (fst y) x of Inl m \<Rightarrow> (Inl (AccessFailed m), x)
         | Inr tagged \<Rightarrow>
             if cg_Op c = ''revoke''
             then (if tagged = None then (Inl (BadChange ''is not tagged''), x) else after_change w (Untag (xw_write w) (fst y) x))
             else (case changed c by_whom sandbox now y tagged of Inl e \<Rightarrow> (Inl e, x) | Inr d \<Rightarrow> after_change w (Tag (xw_write w) d x))))"

text \<open>What the operator is told, if anything.\<close>

definition Knocked :: "dberr \<Rightarrow> Who \<Rightarrow> gtime \<Rightarrow> access_db \<Rightarrow> (string + string option) \<times> access_db" where
  "Knocked err w now x = (case db_Knock err w now x of (Inl m, x') \<Rightarrow> (Inl m, x')
     | (Inr first, x') \<Rightarrow> (Inr (if first then (let name = TrimSuffix (wh_Node w) ''.''
          in Some (Short (wh_Node w) @ '' ('' @ wh_Login w @ '') asked for fleet access: fleetctl access admin '' @ name @
               '', or fleetctl access lend '' @ name @ '' <agent>'' @ ellipsis)) else None), x'))"

section \<open>The daemon\<close>

definition Sandbox :: "fleet_conf \<Rightarrow> string \<Rightarrow> bool" where
  "Sandbox c worker \<longleftrightarrow> worker \<in> set (fc_sandboxes c)"

definition ResolveDevice :: "dberr \<Rightarrow> dberr \<Rightarrow> Who \<Rightarrow> gtime \<Rightarrow> access_db \<Rightarrow> (string + Device) \<times> access_db" where
  "ResolveDevice err serr w now x = (case Resolve err w x of Inl m \<Rightarrow> (Inl m, x)
     | Inr d \<Rightarrow> (Inr d, if de_Role d = '''' then x else snd (Seen serr (de_StableID d) now x)))"

definition ChangeAccess :: "fleet_conf \<Rightarrow> access_world \<Rightarrow> AccessChange \<Rightarrow> string \<Rightarrow> gtime \<Rightarrow> access_db \<Rightarrow> (access_error + AccessList) \<times> access_db" where
  "ChangeAccess c w g by_whom now x = Change w g by_whom (Sandbox c) now x"

definition KnockCount :: "dberr \<Rightarrow> dberr \<Rightarrow> access_db \<Rightarrow> nat" where
  "KnockCount derr kerr x = (case List derr kerr x of Inl _ \<Rightarrow> 0 | Inr l \<Rightarrow> length (al_Knocks l))"

record Candidate =
  ca_Agent :: string
  ca_Eligible :: bool
  ca_Why :: string
  ca_FiveHour :: rat
  ca_SevenDay :: rat
  ca_IdleS :: int

text \<open>A pick cut to some agents: the candidates come in rank order.\<close>

definition among_step :: "string list \<Rightarrow> Candidate \<Rightarrow> (string \<times> string) \<times> Candidate list \<Rightarrow> (string \<times> string) \<times> Candidate list" where
  "among_step among c acc =
     (if Base (ca_Agent c) \<notin> set among then acc
      else case acc of ((agent, why), out) \<Rightarrow>
        if ca_Eligible c \<and> agent = ''''
        then ((ca_Agent c, ''the best of your agents''), out @ [c\<lparr>ca_Why := ''the best of your agents''\<rparr>])
        else ((agent, why), out @ [if ca_Eligible c then c\<lparr>ca_Why := ''eligible, ranked below '' @ agent\<rparr> else c]))"

definition among1 :: "Candidate list \<Rightarrow> string list \<Rightarrow> (string \<times> string) \<times> Candidate list" where
  "among1 cs among = fold (among_step among) cs (('''', ''''), [])"

end
