(* ===== verification/Fleet_Run.thy ===== *)
theory Fleet_Run
  imports Fleet_Model Fleet_Access
begin

text \<open>
  \<^verbatim>\<open>fleet/internal/daemon/run.go\<close>: handing a brief to a free agent. The roster (\<^verbatim>\<open>daemon.go\<close> Status), why an
  agent cannot take a task, the order of those that can, and the run: place and deliver. A run holds its lock while it
  picks and assigns, so placing is one step; while it waits for a free agent others act.
\<close>

section \<open>The roster\<close>

text \<open>The alerts of a row, a list of the keys of a map, are left out.\<close>

record Row =
  rw_Agent :: string
  rw_SlotOf :: string
  rw_Slot :: int
  rw_Host :: string
  rw_Account :: string
  rw_State :: Phase
  rw_Task :: string
  rw_Idle :: string
  rw_IdleS :: int
  rw_Model :: string
  rw_RecordedAt :: gtime
  rw_FiveHour :: rat
  rw_SevenDay :: rat
  rw_FiveResets :: gtime
  rw_SevenResets :: gtime
  rw_QuotaAt :: gtime
  rw_Context :: rat
  rw_Low :: bool
  rw_Reserved :: bool
  rw_Models :: "string list"
  rw_Session :: string
  rw_Reason :: string
  rw_Cooling :: gtime
  rw_Unreachable :: bool
  rw_Rotating :: bool

definition Dur :: "duration \<Rightarrow> string" where
  "Dur d = (if d < minute then show_int (go_div d second) @ ''s''
     else if d < hour then show_int (go_div d minute) @ ''m''
     else let h = go_div d hour in
       if d < 48 * hour then (let m = go_mod (go_div d minute) 60 in if m \<noteq> 0 then show_int h @ ''h'' @ show_int m @ ''m'' else show_int h @ ''h'')
       else show_int (go_div h 24) @ ''d'' @ show_int (go_mod h 24) @ ''h'')"

definition shown_phase :: "State \<Rightarrow> gtime \<Rightarrow> Phase \<times> string" where
  "shown_phase st now =
     (let task = (if st_Done st then '''' else st_Task st);
          p1 = (if st_Done st \<and> st_Phase st = Waiting then Standby else st_Phase st);
          p2 = (if task \<noteq> '''' \<and> p1 = Standby then Waiting else p1)
      in (if OutOfReach st now then Unreachable else p2, task))"

definition status_row :: "gtime \<Rightarrow> fleet \<Rightarrow> Worker \<Rightarrow> Row" where
  "status_row now f x =
     (let st = fd_states f (wk_Name x); idling = st_LastBusy st \<noteq> zero_time \<and> st_Phase st \<noteq> Working;
          away = time_sub now (st_LastBusy st); (phase, task) = shown_phase st now; q = Aged (st_Quota st) now
      in \<lparr>rw_Agent = wk_Name x, rw_SlotOf = wk_Agent x, rw_Slot = wk_Slot x, rw_Host = wk_Host x, rw_Account = wk_Account x,
          rw_State = phase, rw_Task = task, rw_Idle = (if idling then Dur away else ''''), rw_IdleS = (if idling then go_div away second else 0),
          rw_Model = st_Model st, rw_RecordedAt = st_RecordedAt st, rw_FiveHour = q_FiveHour q, rw_SevenDay = q_SevenDay q,
          rw_FiveResets = q_FiveHourResets q, rw_SevenResets = q_SevenDayResets q, rw_QuotaAt = q_At q, rw_Context = st_ContextPct st,
          rw_Low = (st_Low st \<and> q_FiveHourResets q = q_FiveHourResets (st_Quota st)),
          rw_Reserved = (st_Reserved st \<and> q_SevenDayResets q = q_SevenDayResets (st_Quota st)),
          rw_Models = wk_Models x, rw_Session = st_SessionID st, rw_Reason = st_DisabledReason st, rw_Cooling = st_CoolingUntil st,
          rw_Unreachable = (st_UnreachableSince st \<noteq> zero_time), rw_Rotating = st_Done st\<rparr>)"

definition Status :: "Config \<Rightarrow> gtime \<Rightarrow> fleet \<Rightarrow> Row list" where
  "Status c now f = map (status_row now f) (Workers c)"

section \<open>Who can take a task\<close>

definition openAssigners :: "fleet_world \<Rightarrow> fleet \<Rightarrow> Row \<Rightarrow> string list" where
  "openAssigners w f r =
     (let opened = (case Tasks (fw_read w) True (rw_Agent r) 0 (fd_ledger f) of Inl _ \<Rightarrow> [] | Inr ts \<Rightarrow> ts)
      in map ta_Assigner opened @
         (if rw_Task r \<noteq> '''' \<and> opened = []
          then [case read_task (fw_read w) (rw_Task r) (fd_ledger f) of Inr (Some t) \<Rightarrow> ta_Assigner t | _ \<Rightarrow> ''''] else []))"

definition otherSide :: "string \<Rightarrow> string list \<Rightarrow> string" where
  "otherSide from held = (let mine = OperatorAssigner from
     in case List.find (\<lambda>a. a \<noteq> '''' \<and> OperatorAssigner a \<noteq> mine) held of None \<Rightarrow> ''''
        | Some a \<Rightarrow> if mine then ''a sibling slot holds a task of a member ('' @ a @ ''); slots share a container''
                    else ''a sibling slot holds a task of an operator; slots share a container'')"

text \<open>The repo of the last task of an agent, in any of its slots.\<close>

definition later_repo :: "fleet_world \<Rightarrow> fleet \<Rightarrow> string \<Rightarrow> string \<times> gtime \<Rightarrow> string \<times> gtime" where
  "later_repo w f name acc = (case Tasks (fw_read w) False name 1 (fd_ledger f) of
     Inr (t # _) \<Rightarrow> if ta_Repo t = '''' \<or> \<not> snd acc < ta_Assigned t then acc else (ta_Repo t, ta_Assigned t)
   | _ \<Rightarrow> acc)"

definition lastRepo :: "Config \<Rightarrow> fleet_world \<Rightarrow> fleet \<Rightarrow> string \<Rightarrow> string" where
  "lastRepo c w f agent = fst (fold (later_repo w f) (agent # Siblings c agent) ('''', zero_time))"

definition ineligible :: "fleet_world \<Rightarrow> fleet \<Rightarrow> Row \<Rightarrow> string" where
  "ineligible w f r =
     (case rw_State r of
        Disabled \<Rightarrow> ''disabled ('' @ rw_Reason r @ '')''
      | Down \<Rightarrow> ''down''
      | CodeMissing \<Rightarrow> ''code directory missing''
      | Cooling \<Rightarrow> ''cooling''
      | Unreachable \<Rightarrow> ''its host is out of reach''
      | Working \<Rightarrow> if rw_Task r \<noteq> '''' then ''working on '' @ rw_Task r else ''working''
      | _ \<Rightarrow>
          if rw_Unreachable r then ''its host is not answering''
          else if rw_Rotating r then ''rotating to a fresh session''
          else if rw_Session r = '''' \<and> rw_RecordedAt r \<noteq> zero_time then ''starting a session''
          else if rw_Task r \<noteq> '''' then ''holds open task '' @ rw_Task r
          else (case Tasks (fw_read w) True (rw_Agent r) 1 (fd_ledger f) of
              Inl m \<Rightarrow> ''ledger: '' @ m
            | Inr (t # _) \<Rightarrow> ''holds open task '' @ ta_ID t
            | Inr [] \<Rightarrow> if rw_Low r then ''low on quota'' else if rw_Reserved r then ''quota reserved'' else ''''))"

section \<open>Picking\<close>

definition notLent :: string where
  "notLent = ''a sandbox, lent to guests: name it with --agent to give it a task''"

record scored =
  sd_c :: Candidate
  sd_busy :: nat
  sd_affinity :: bool

text \<open>The comparison the candidates are sorted with, and a stable sort by it.\<close>

definition pick_less :: "scored \<Rightarrow> scored \<Rightarrow> bool" where
  "pick_less a b = (let x = sd_c a; y = sd_c b in
     if ca_Eligible x \<noteq> ca_Eligible y then ca_Eligible x
     else if \<not> ca_Eligible x then ca_Agent x < ca_Agent y
     else if (sd_busy a = 0) \<noteq> (sd_busy b = 0) then sd_busy a = 0
     else if sd_affinity a \<noteq> sd_affinity b then sd_affinity a
     else if ca_FiveHour x \<noteq> ca_FiveHour y then ca_FiveHour x < ca_FiveHour y
     else if ca_SevenDay x \<noteq> ca_SevenDay y then ca_SevenDay x < ca_SevenDay y
     else if ca_IdleS x \<noteq> ca_IdleS y then ca_IdleS y < ca_IdleS x
     else ca_Agent x < ca_Agent y)"

fun insert_by :: "('a \<Rightarrow> 'a \<Rightarrow> bool) \<Rightarrow> 'a \<Rightarrow> 'a list \<Rightarrow> 'a list" where
  "insert_by lt x [] = [x]"
| "insert_by lt x (y # ys) = (if lt y x then y # insert_by lt x ys else x # y # ys)"

definition sort_by :: "('a \<Rightarrow> 'a \<Rightarrow> bool) \<Rightarrow> 'a list \<Rightarrow> 'a list" where
  "sort_by lt xs = foldr (insert_by lt) xs []"

definition held_by :: "fleet_world \<Rightarrow> fleet \<Rightarrow> Row list \<Rightarrow> string \<Rightarrow> string list" where
  "held_by w f rows agent = concat (map (openAssigners w f) (filter (\<lambda>r. rw_SlotOf r = agent) rows))"

definition busy_slots :: "fleet_world \<Rightarrow> fleet \<Rightarrow> Row list \<Rightarrow> string \<Rightarrow> nat" where
  "busy_slots w f rows agent = length (filter (\<lambda>r. rw_SlotOf r = agent \<and> (openAssigners w f r \<noteq> [] \<or> rw_State r = Working)) rows)"

definition pick_why :: "Config \<Rightarrow> fleet_world \<Rightarrow> fleet \<Rightarrow> Row list \<Rightarrow> string \<Rightarrow> string \<Rightarrow> string list \<Rightarrow> Row \<Rightarrow> string" where
  "pick_why c w f rows from model among r =
     (let why = ineligible w f r; x = worker c (rw_Agent r)
      in if why \<noteq> '''' then why
         else if wk_Sandbox x \<and> rw_SlotOf r \<notin> set among then notLent
         else if model \<noteq> '''' \<and> \<not> ModelAllowed (wk_Models x) model
         then ''does not list '' @ model @ '' (models: '' @ Join (wk_Models x) '', '' @ '')''
         else if from \<noteq> '''' then otherSide from (held_by w f rows (rw_SlotOf r)) else '''')"

definition score_row :: "Config \<Rightarrow> fleet_world \<Rightarrow> fleet \<Rightarrow> Row list \<Rightarrow> string \<Rightarrow> string \<Rightarrow> string \<Rightarrow> string list \<Rightarrow> Row \<Rightarrow> scored" where
  "score_row c w f rows repo from model among r =
     (let why = pick_why c w f rows from model among r
      in \<lparr>sd_c = \<lparr>ca_Agent = rw_Agent r, ca_Eligible = (why = ''''), ca_Why = why, ca_FiveHour = rw_FiveHour r, ca_SevenDay = rw_SevenDay r,
            ca_IdleS = rw_IdleS r\<rparr>, sd_busy = busy_slots w f rows (rw_SlotOf r),
          sd_affinity = (why = '''' \<and> repo \<noteq> '''' \<and> lastRepo c w f (rw_SlotOf r) = repo)\<rparr>)"

text \<open>\<^verbatim>\<open>%.0f\<close> rounds half to even.\<close>

definition percent :: "rat \<Rightarrow> string" where
  "percent x = (let n = floor x; d = x - of_int n
     in show_int (if d < 1 / 2 then n else if 1 / 2 < d then n + 1 else if even n then n else n + 1))"

definition top_why :: "string \<Rightarrow> scored \<Rightarrow> string" where
  "top_why repo s =
     (let x = sd_c s; quota = ''5h '' @ percent (ca_FiveHour x) @ ''%, 7d '' @ percent (ca_SevenDay x) @ ''%, idle '' @ Dur (wrap64 (ca_IdleS x * second));
          near = (if sd_affinity s then ''last task was in '' @ repo @ ''; '' @ quota else quota)
      in if 0 < sd_busy s then ''every free agent has a busy slot; '' @ near else near)"

definition pickAmong :: "Config \<Rightarrow> fleet_world \<Rightarrow> string \<Rightarrow> string \<Rightarrow> string \<Rightarrow> string list \<Rightarrow> gtime \<Rightarrow> fleet \<Rightarrow> (string \<times> string) \<times> Candidate list" where
  "pickAmong c w repo from model among now f =
     (let rows = Status c now f
      in case sort_by pick_less (map (score_row c w f rows repo from model among) rows) of
           [] \<Rightarrow> (('''', ''''), [])
         | best # rest \<Rightarrow>
             if \<not> ca_Eligible (sd_c best) then (('''', ''''), map sd_c (best # rest))
             else (let why = top_why repo best
               in ((ca_Agent (sd_c best), why), (sd_c best)\<lparr>ca_Why := why\<rparr> #
                 map (\<lambda>s. if ca_Eligible (sd_c s) then (sd_c s)\<lparr>ca_Why := ''eligible, ranked below '' @ ca_Agent (sd_c best)\<rparr> else sd_c s) rest)))"

definition PickFor :: "Config \<Rightarrow> fleet_world \<Rightarrow> string \<Rightarrow> string \<Rightarrow> string \<Rightarrow> gtime \<Rightarrow> fleet \<Rightarrow> (string \<times> string) \<times> Candidate list" where
  "PickFor c w repo from model now f = pickAmong c w repo from model [] now f"

definition PickAmong :: "Config \<Rightarrow> fleet_world \<Rightarrow> string \<Rightarrow> string list \<Rightarrow> gtime \<Rightarrow> fleet \<Rightarrow> (string \<times> string) \<times> Candidate list" where
  "PickAmong c w repo among now f = among1 (snd (PickFor c w repo '''' '''' now f)) among"

section \<open>Ids\<close>

definition slug_char :: "char \<Rightarrow> string" where
  "slug_char x = (if is_lower x \<or> is_digit x then [x] else if is_upper x then [lower_char x] else [])"

definition slug_word :: "string \<Rightarrow> string" where
  "slug_word x = concat (map slug_char x)"

definition slug_of :: "string \<Rightarrow> string" where
  "slug_of brief =
     (let whole = Join (take 4 (filter (\<lambda>x. x \<noteq> '''') (map slug_word (Fields brief)))) ''-'';
          short = (if 32 < length whole then rev (dropWhile (\<lambda>x. x = CHR ''-'') (rev (take 32 whole))) else whole)
      in if short = '''' then ''task'' else short)"

text \<open>\<open>day\<close> is the date of a time (\<^verbatim>\<open>20060102\<close>), \<open>salt\<close> the four random hex digits.\<close>

definition TaskID :: "(gtime \<Rightarrow> string) \<Rightarrow> string \<Rightarrow> string \<Rightarrow> gtime \<Rightarrow> string" where
  "TaskID day salt brief now = day now @ ''-'' @ slug_of brief @ ''-'' @ salt"

text \<open>\<^verbatim>\<open>^[A-Za-z0-9_][A-Za-z0-9._-]*$\<close> (\<^verbatim>\<open>files.go\<close>): an id that is safe as a directory name.\<close>

definition inboxName :: "string \<Rightarrow> bool" where
  "inboxName s \<longleftrightarrow> s \<noteq> [] \<and> (is_alnum (hd s) \<or> hd s = CHR ''_'') \<and>
     list_all (\<lambda>x. is_alnum x \<or> x \<in> {CHR ''.'', CHR ''_'', CHR ''-''}) s"

definition DefaultDir :: string where "DefaultDir = ''/work/inbox''"

definition Inbox :: "string \<Rightarrow> string" where
  "Inbox task = DefaultDir @ ''/'' @ task @ ''/''"

section \<open>Runs\<close>

record RunRequest =
  rq_Brief :: string
  rq_Repo :: string
  rq_Agent :: string
  rq_From :: string
  rq_Task :: string
  rq_Model :: string
  rq_Queue :: duration
  rq_Limit :: int
  rq_AdminWork :: bool
  rq_Attach :: bool
  rq_Among :: "string list"

record RunReply =
  rr_Task :: string
  rr_Agent :: string
  rr_Why :: string
  rr_placed :: bool

text \<open>A conflict may pass, so a run with time left waits for it.\<close>

datatype run_error =
    RunBad string
  | RunConflict string
  | NoFreeAgent "Candidate list"
  | RunForbidden string
  | RunFails string
  | RunUndelivered send_error
  | RunGone

definition is_conflict :: "run_error \<Rightarrow> bool" where
  "is_conflict e \<longleftrightarrow> (case e of RunConflict _ \<Rightarrow> True | NoFreeAgent _ \<Rightarrow> True | _ \<Rightarrow> False)"

text \<open>The time a run makes an id at, its random part, and what panes answer.\<close>

record run_world =
  rw_fleet :: fleet_world
  rw_pane :: pane
  rw_day :: "gtime \<Rightarrow> string"
  rw_salt :: string

text \<open>What a run is refused for before it is placed; its model and its sender are filled in.\<close>

definition run_check :: "Config \<Rightarrow> RunRequest \<Rightarrow> run_error + RunRequest" where
  "run_check c q =
     (if TrimSpace (rq_Brief q) = '''' then Inl (RunBad ''run needs a brief'')
      else if rq_Attach q \<and> \<not> inboxName (rq_Task q) then Inl (RunBad ''--attach needs a task id that names a directory'')
      else if Contains (rq_Repo q) ''..'' \<or> HasPrefix (rq_Repo q) ''/'' then Inl (RunBad ''repo: want a name relative to the code directory'')
      else if rq_Agent q \<noteq> '''' \<and> \<not> known (fleet_of c) (rq_Agent q) then Inl (RunBad ''no agent of that name'')
      else let q1 = q\<lparr>rq_From := (if rq_From q = '''' then ''operator'' else rq_From q)\<rparr>
        in if rq_Model q = '''' then Inr q1
           else case NormalizeModel (rq_Model q) of Inl m \<Rightarrow> Inl (RunBad m) | Inr m \<Rightarrow> Inr (q1\<lparr>rq_Model := m\<rparr>))"

text \<open>The task of a retry: open, it is placed already; closed, only a brief that never got there runs again.\<close>

definition same_run :: "fleet_world \<Rightarrow> RunRequest \<Rightarrow> fleet \<Rightarrow> (run_error + RunReply) option" where
  "same_run w q f =
     (if rq_Task q = '''' then None
      else case read_task (fw_read w) (rq_Task q) (fd_ledger f) of
          Inr (Some t) \<Rightarrow>
            if ta_Closed t = zero_time
            then Some (Inr \<lparr>rr_Task = ta_ID t, rr_Agent = ta_Agent t, rr_Why = ''already assigned to '' @ ta_Agent t, rr_placed = True\<rparr>)
            else if ta_Outcome t \<noteq> ''undelivered'' then Some (Inl (RunConflict (''task '' @ ta_ID t @ '' is closed ('' @ ta_Outcome t @ '')''))) else None
        | _ \<Rightarrow> None)"

definition over_limit :: "fleet_world \<Rightarrow> RunRequest \<Rightarrow> fleet \<Rightarrow> run_error option" where
  "over_limit w q f =
     (if rq_Limit q \<le> 0 then None
      else case TasksBy (fw_read w) True '''' (OwnerOf (rq_From q)) 0 (fd_ledger f) of
          Inl m \<Rightarrow> Some (RunFails m)
        | Inr ts \<Rightarrow> if rq_Limit q \<le> int (length ts)
            then Some (RunConflict (rq_From q @ '' holds '' @ show_nat (length ts) @ '' open tasks, the most one person may ('' @ Join (map ta_ID ts) '', '' @ '')''))
            else None)"

definition choose_agent :: "Config \<Rightarrow> fleet_world \<Rightarrow> RunRequest \<Rightarrow> gtime \<Rightarrow> fleet \<Rightarrow> run_error + string \<times> string" where
  "choose_agent c w q now f =
     (let p0 = pickAmong c w (rq_Repo q) (rq_From q) (rq_Model q) (rq_Among q) now f
      in if rq_Among q \<noteq> [] \<and> rq_Agent q \<noteq> '''' \<and> Base (rq_Agent q) \<notin> set (rq_Among q) then Inl (RunForbidden (rq_Agent q @ '' is not one of your agents''))
         else let p = (if rq_Among q \<noteq> [] then among1 (snd p0) (rq_Among q) else p0)
           in if rq_Agent q \<noteq> ''''
              then (case List.find (\<lambda>x. ca_Agent x = rq_Agent q \<and> \<not> ca_Eligible x \<and> ca_Why x \<noteq> notLent) (snd p) of
                      Some x \<Rightarrow> Inl (RunConflict (ca_Agent x @ '' is not free: '' @ ca_Why x)) | None \<Rightarrow> Inr (rq_Agent q, ''named''))
              else if fst (fst p) = '''' then Inl (NoFreeAgent (snd p)) else Inr (fst p))"

text \<open>What the row of a placed task says besides its agent: the writes are made in turn.\<close>

definition task_facts :: "Config \<Rightarrow> fleet_world \<Rightarrow> RunRequest \<Rightarrow> string \<Rightarrow> string \<Rightarrow> ledger \<Rightarrow> dberr \<times> ledger" where
  "task_facts c w q task agent g =
     (case SetTaskAdminWork (fw_write w) task (rq_AdminWork q \<and> adminWork (fleet_of c) agent (rq_From q)) g of
        (Some m, g1) \<Rightarrow> (Some m, g1)
      | (None, g1) \<Rightarrow> (case SetTaskRepo (fw_write w) task (rq_Repo q) g1 of
           (Some m, g2) \<Rightarrow> (Some m, g2) | (None, g2) \<Rightarrow> SetTaskModel (fw_write w) task (rq_Model q) g2))"

definition place :: "Config \<Rightarrow> run_world \<Rightarrow> RunRequest \<Rightarrow> gtime \<Rightarrow> fleet \<Rightarrow> (run_error + RunReply) \<times> fleet" where
  "place c rw q now f =
     (let w = rw_fleet rw
      in case same_run w q f of Some r \<Rightarrow> (r, f)
       | None \<Rightarrow> (case over_limit w q f of Some e \<Rightarrow> (Inl e, f)
       | None \<Rightarrow> (case choose_agent c w q now f of Inl e \<Rightarrow> (Inl e, f)
       | Inr (agent, why) \<Rightarrow>
           (let task = (if rq_Task q = '''' then TaskID (rw_day rw) (rw_salt rw) (rq_Brief q) now else rq_Task q)
            in case assign w agent task (rq_From q) now f of
                 (Some m, f1) \<Rightarrow> (Inl (RunFails m), f1)
               | (None, f1) \<Rightarrow> (case task_facts c w q task agent (fd_ledger f1) of
                    (Some m, g) \<Rightarrow> (Inl (RunFails m), with_ledger g f1)
                  | (None, g) \<Rightarrow> (Inr \<lparr>rr_Task = task, rr_Agent = agent, rr_Why = why, rr_placed = False\<rparr>, with_ledger g f1))))))"

definition run_text :: "RunRequest \<Rightarrow> string \<Rightarrow> string" where
  "run_text q task = ''Task '' @ task @ '' from '' @ rq_From q @ ''.'' @
     (if rq_Repo q \<noteq> '''' then '' Repo: '' @ rq_Repo q @ ''.'' else '''') @
     (if rq_Attach q then '' Files sent with it are in '' @ Inbox task @ ''.'' else '''') @ '' '' @ rq_Brief q"

definition deliver_run :: "Config \<Rightarrow> run_world \<Rightarrow> RunRequest \<Rightarrow> RunReply \<Rightarrow> gtime \<Rightarrow> fleet \<Rightarrow> (run_error + RunReply) \<times> fleet" where
  "deliver_run c rw q r now f =
     (let w = rw_fleet rw; f1 = (if rq_Model q \<noteq> '''' then setModelNow c w (rw_pane rw) (rr_Agent r) now f else f)
      in case tell (fleet_of c) w (rq_From q) (rr_Agent r) (run_text q (rr_Task r)) (rr_Task r) now f1 of
           (None, f2) \<Rightarrow> (Inr r, f2)
         | (Some e, f2) \<Rightarrow> (Inl (RunUndelivered e), snd (Close (fleet_of c) w (rr_Agent r) (rr_Task r) ''undelivered'' '''' '''' now f2)))"

definition waitEvery :: duration where "waitEvery = second div 2"

text \<open>
  The tries of a run that waits for a free agent. Of each: the world, how long after the start it places and how long after it looks
  at the time, whether the caller has gone by then, and what others do before the next.\<close>

record run_try =
  rt_world :: run_world
  rt_place :: duration
  rt_check :: duration
  rt_gone :: bool
  rt_others :: "fleet \<Rightarrow> fleet"

fun run_tries :: "Config \<Rightarrow> RunRequest \<Rightarrow> gtime \<Rightarrow> run_try list \<Rightarrow> fleet \<Rightarrow> (run_error + RunReply) option \<times> fleet" where
  "run_tries c q now [] f = (None, f)"
| "run_tries c q now (t # ts) f =
     (case place c (rt_world t) q (now + rt_place t) f of
        (Inr r, f1) \<Rightarrow> (if rr_placed r \<or> rq_Attach q then (Some (Inr r), f1)
            else (let (res, f2) = deliver_run c (rt_world t) q r now f1 in (Some res, f2)))
      | (Inl e, f1) \<Rightarrow>
          if \<not> is_conflict e \<or> \<not> rt_check t + waitEvery < rq_Queue q then (Some (Inl e), f1)
          else if rt_gone t then (Some (Inl RunGone), f1)
          else run_tries c q now ts (rt_others t f1))"

definition Run_fleet :: "Config \<Rightarrow> RunRequest \<Rightarrow> gtime \<Rightarrow> run_try list \<Rightarrow> fleet \<Rightarrow> (run_error + RunReply) option \<times> fleet" where
  "Run_fleet c q now ts f = (case run_check c q of Inl e \<Rightarrow> (Some (Inl e), f) | Inr q1 \<Rightarrow> run_tries c q1 now ts f)"

end
