(* ===== verification/Fleet_System.thy ===== *)
theory Fleet_System
  imports Fleet_Keeps Fleet_Run
begin

text \<open>
  fleetd with several calls under way: the steps it takes in any order, with any answer of the world and of the
  ledger's driver at each, any tick of the reconciler between them, and fleetd stopping at any point. A
  message between two sessions takes two steps, so others come between them; a send is over before its
  message is as old as the retention deletes. A run is placed in one step, under the lock it holds, and delivered in another. Of a tick, what
  writes tasks is a step, the end of the task a rotation is for; what else the calls and the ticks do, to secrets, grants, devices, approvals,
  archives, sessions and the states of agents, is any change that leaves the tasks and the messages alone.
\<close>

section \<open>Steps\<close>

record sending =
  sn_Begun :: "string + int"
  sn_From :: string
  sn_To :: string
  sn_Text :: string
  sn_At :: gtime
  sn_Hold :: bool

type_synonym fleetd = "fleet \<times> sending list"

definition same_books :: "fleet \<Rightarrow> fleet \<Rightarrow> bool" where
  "same_books f f' \<longleftrightarrow> lg_tasks (fd_ledger f') = lg_tasks (fd_ledger f) \<and> lg_relays (fd_ledger f') = lg_relays (fd_ledger f) \<and>
     lg_next_relay (fd_ledger f') = lg_next_relay (fd_ledger f) \<and> fd_tries f' = fd_tries f"

inductive fleet_step :: "fleet_conf \<Rightarrow> fleetd \<Rightarrow> fleetd \<Rightarrow> bool" for c where
  refused_or_filed: "deliver_begin c w from to text task kind now f = (Inl e, f') \<Longrightarrow> fleet_step c (f, fl) (f', fl)"
| begun: "deliver_begin c w from to text task kind now f = (Inr b, f') \<Longrightarrow>
    fleet_step c (f, fl) (f', fl @ [\<lparr>sn_Begun = b, sn_From = from, sn_To = to, sn_Text = fw_redact w text, sn_At = now, sn_Hold = hold\<rparr>])"
| ended: "deliver_rest c w (sn_From s) (sn_To s) (sn_Text s) (sn_At s) (sn_Hold s) (sn_Begun s) f = (e, f') \<Longrightarrow>
    fleet_step c (f, fl1 @ s # fl2) (f', fl1 @ fl2)"
| assigned: "fleet_step c (f, fl) (snd (Assign c w name task from brief now f), fl)"
| finished: "fleet_step c (f, fl) (snd (Done c w name task result branch pr now f), fl)"
| closed: "fleet_step c (f, fl) (snd (Close c w name task result branch pr now f), fl)"
| enabled: "fleet_step c (f, fl) (snd (Enable c name f), fl)"
| followed: "fleet_step c (f, fl) (snd (Followup c w task from text now f), fl)"
| answered: "fleet_step c (f, fl) (snd (Answer c w task from text now f), fl)"
| cancelled: "fleet_step c (f, fl) (snd (Cancel c w task from reason now f), fl)"
| asked: "fleet_step c (f, fl) (snd (ask_begin c w from text now f), fl)"
| ask_ended: "fleet_step c (f, fl) (snd (ask_end task f), fl)"
| escalated: "fleet_step c (f, fl) (escalate c w grace now f, fl)"
| looked: "fleet_step c (f, fl) (snd (wait_look w agent task reader now after f), fl)"
| outboxed: "fleet_step c (f, fl) (snd (deliverOutbox c w name msgs now f), fl)"
| alerted: "fleet_step c (f, fl) (alertHeld c w now f, fl)"
| resent: "fleet_step c (f, fl) (resend c w busy name now f, fl)"
| retained: "list_all (\<lambda>s. unix_of (now - fc_RelayText c) \<le> unix_of (sn_At s)) fl \<Longrightarrow> fleet_step c (f, fl) (retain c w now f, fl)"
| placed: "fleet_of C = c \<Longrightarrow> fleet_step c (f, fl) (snd (place C rw q now f), fl)"
| run_delivered: "fleet_of C = c \<Longrightarrow> fleet_step c (f, fl) (snd (deliver_run C rw q r now f), fl)"
| rotated: "fleet_step c (f, fl) (with_ledger (snd (CloseTask err derr task now reason '''' '''' (fd_ledger f))) f, fl)"
| ticked: "fleet_step c (f, fl) (set_state st f, fl)"
| elsewhere: "same_books f f' \<Longrightarrow> fleet_step c (f, fl) (f', fl)"
| restarted: "New c err saved blank f = (None, f') \<Longrightarrow> fleet_step c (f, fl) (f', [])"

text \<open>A fleetd on a new ledger, and the fleets it becomes.\<close>

definition first_fleet :: "State \<Rightarrow> fleet" where
  "first_fleet blank = \<lparr>fd_ledger = empty_ledger, fd_states = (\<lambda>n. blank\<lparr>st_Name := n\<rparr>), fd_resendFailed = (\<lambda>_. zero_time),
     fd_resendFails = (\<lambda>_. 0), fd_asks = [], fd_outboxAlerted = [], fd_lastRetain = zero_time, fd_alerts = [], fd_tries = [], fd_alerted = [], fd_typed = []\<rparr>"

inductive fleet_reach :: "fleet_conf \<Rightarrow> State \<Rightarrow> fleetd \<Rightarrow> bool" for c blank where
  first: "fleet_reach c blank (first_fleet blank, [])"
| more: "fleet_reach c blank s \<Longrightarrow> fleet_step c s s' \<Longrightarrow> fleet_reach c blank s'"

inductive_cases fleet_stepE: "fleet_step c (f, fl) (f', fl')"

section \<open>Runs and rotations keep the messages\<close>

lemma applyModel_keeps:
  assumes "applyModel C w p name st status idle now f = (st', f')"
  shows "fd_ledger f' = fd_ledger f \<and> fd_tries f' = fd_tries f"
proof -
  have a: "fd_ledger f1 = fd_ledger f \<and> fd_tries f1 = fd_tries f" if "firstAlert t now f = (b, f1)" for t b f1
    using that by (auto simp: firstAlert_def split: if_splits)
  have t: "fd_ledger f1 = fd_ledger f \<and> fd_tries f1 = fd_tries f" if "type_in p name t f = (e, f1)" for t e f1
    using that by (auto simp: type_in_def)
  show ?thesis
    using assms by (auto simp: applyModel_def Let_def alert_def split: if_splits prod.splits option.splits dest!: a t)
qed

lemma setModelNow_keeps: "fd_ledger (setModelNow C w p name now f) = fd_ledger f \<and> fd_tries (setModelNow C w p name now f) = fd_tries f"
  using applyModel_keeps unfolding setModelNow_def by (fastforce split: prod.split)

lemma task_facts_relays:
  assumes "task_facts C w q task agent g = (e, g')"
  shows "same_relays g g'"
proof -
  obtain e1 g1 where a: "SetTaskAdminWork (fw_write w) task (rq_AdminWork q \<and> adminWork (fleet_of C) agent (rq_From q)) g = (e1, g1)" by fastforce
  obtain e2 g2 where b: "SetTaskRepo (fw_write w) task (rq_Repo q) g1 = (e2, g2)" by fastforce
  obtain e3 g3 where m: "SetTaskModel (fw_write w) task (rq_Model q) g2 = (e3, g3)" by fastforce
  have s1: "same_relays g g1" using set_task_relays a by (metis SetTaskAdminWork_def snd_conv)
  have "same_relays g1 g2" using set_task_relays b by (metis SetTaskRepo_def snd_conv)
  then have s2: "same_relays g g2" by (rule same_relays_trans [OF s1])
  have "same_relays g2 g3" using set_task_relays m by (metis SetTaskModel_def snd_conv)
  then have s3: "same_relays g g3" by (rule same_relays_trans [OF s2])
  from assms a b m s1 s2 s3 show ?thesis by (auto simp: task_facts_def split: option.splits)
qed

lemma place_kept: "msgs_kept c f (snd (place C rw q now f))"
proof -
  have p: "msgs_kept c f f1" if "assign w name task from now f = (e, f1)" for w name task "from" e f1
    using assign_kept that by (metis snd_conv)
  have q: "msgs_kept c f (with_ledger g f1)"
    if "assign w name task from now f = (e, f1)" "task_facts C w2 q task2 name2 (fd_ledger f1) = (e2, g)" for w w2 name name2 task task2 "from" e e2 f1 g
    by (rule msgs_kept_trans [OF p [OF that(1)] same_relays_kept [OF task_facts_relays [OF that(2)]]])
  show ?thesis by (auto simp: place_def Let_def split: option.splits sum.splits prod.splits intro: p q)
qed

lemma deliver_run_kept: "fleet_of C = c \<Longrightarrow> msgs_kept c f (snd (deliver_run C rw q r now f))"
proof -
  assume c: "fleet_of C = c"
  let ?f1 = "if rq_Model q \<noteq> '''' then setModelNow C (rw_fleet rw) (rw_pane rw) (rr_Agent r) now f else f"
  have k: "msgs_kept c f ?f1" using setModelNow_keeps by (intro msgs_kept_same) auto
  obtain e f2 where d: "tell c (rw_fleet rw) (rq_From q) (rr_Agent r) (run_text q (rr_Task r)) (rr_Task r) now ?f1 = (e, f2)" by fastforce
  have t: "msgs_kept c f f2" by (rule msgs_kept_trans [OF k deliverMsg_kept' [OF d [unfolded tell_def]]])
  have "msgs_kept c f (snd (Close c (rw_fleet rw) (rr_Agent r) (rr_Task r) ''undelivered'' '''' '''' now f2))"
    by (rule msgs_kept_trans [OF t Close_kept])
  with t d c show ?thesis by (cases e) (simp_all add: deliver_run_def)
qed

lemma rotated_kept: "msgs_kept c f (with_ledger (snd (CloseTask err derr task now reason branch pr (fd_ledger f))) f)"
  by (rule same_relays_kept [OF CloseTask_relays])

lemma elsewhere_kept: "same_books f f' \<Longrightarrow> msgs_kept c f f'"
  by (intro msgs_kept_same) (simp_all add: same_books_def)

lemmas steps_kept = ops_kept place_kept rotated_kept set_state_kept

section \<open>What is under way\<close>

text \<open>Each send under way has its own row, which says so.\<close>

definition in_flight :: "sending \<Rightarrow> Relay \<Rightarrow> bool" where
  "in_flight s r \<longleftrightarrow> sn_Begun s = Inr (rl_ID r) \<and> on_its_way r \<and> rl_From r = sn_From s \<and> rl_To r = sn_To s \<and>
     rl_Text r = sn_Text s \<and> rl_At r = unix_of (sn_At s)"

definition flight_ids :: "sending list \<Rightarrow> int list" where
  "flight_ids fl = concat (map (\<lambda>s. case sn_Begun s of Inl _ \<Rightarrow> [] | Inr i \<Rightarrow> [i]) fl)"

definition flights_ok :: "fleet \<Rightarrow> sending list \<Rightarrow> bool" where
  "flights_ok f fl \<longleftrightarrow> distinct (flight_ids fl) \<and>
     list_all (\<lambda>s. isl (sn_Begun s) \<or> list_ex (in_flight s) (lg_relays (fd_ledger f))) fl"

definition fleet_inv :: "fleetd \<Rightarrow> bool" where
  "fleet_inv s \<longleftrightarrow> ids_ok (fd_ledger (fst s)) \<and> flights_ok (fst s) (snd s)"

lemma moved_row_forth:
  assumes "moved c H E f f'" and "r \<in> set (lg_relays (fd_ledger f))"
  obtains ts r' where "fd_tries f' = fd_tries f @ ts" "r' \<in> set (lg_relays (fd_ledger f'))" "evolved H E ts r r'"
proof -
  obtain ts old new where m: "fd_tries f' = fd_tries f @ ts" "lg_relays (fd_ledger f') = old @ new"
      "list_all2 (evolved H E ts) (lg_relays (fd_ledger f)) old"
    by (rule movedE [OF assms(1)]) blast
  from list_all2_forth [OF m(3) assms(2)] m that show thesis by auto
qed

lemma on_its_way_kept: "on_its_way r \<Longrightarrow> \<not> kept r"
  by (auto simp: on_its_way_def kept_def relay_errors)

lemma evolved_on_its_way:
  assumes "evolved H E ts r r'" and "on_its_way r" and "rl_ID r \<notin> H \<union> E"
  shows "same_message r r' \<and> on_its_way r'"
  using assms on_its_way_kept by (auto simp: evolved_def same_status_def on_its_way_def)

lemma flight_row:
  assumes "flights_ok f fl" and "s \<in> set fl" and "sn_Begun s = Inr i"
  obtains r where "r \<in> set (lg_relays (fd_ledger f))" "in_flight s r" "rl_ID r = i"
  using assms by (fastforce simp: flights_ok_def list_all_iff list_ex_iff in_flight_def)

lemma flights_moved:
  assumes m: "moved c H E f f'" and ok: "flights_ok f fl" and "\<And>s i. s \<in> set fl \<Longrightarrow> sn_Begun s = Inr i \<Longrightarrow> i \<notin> H \<union> E"
  shows "flights_ok f' fl"
  unfolding flights_ok_def list_all_iff
proof (intro conjI ballI)
  show "distinct (flight_ids fl)" using ok by (simp add: flights_ok_def)
  fix s assume s: "s \<in> set fl"
  show "isl (sn_Begun s) \<or> list_ex (in_flight s) (lg_relays (fd_ledger f'))"
  proof (cases "sn_Begun s")
    case (Inr i)
    obtain r where r: "r \<in> set (lg_relays (fd_ledger f))" "in_flight s r" "rl_ID r = i" by (rule flight_row [OF ok s Inr])
    obtain ts r' where r': "r' \<in> set (lg_relays (fd_ledger f'))" "evolved H E ts r r'"
      by (rule moved_row_forth [OF m r(1)])
    have "on_its_way r" using r(2) by (simp add: in_flight_def)
    from evolved_on_its_way [OF r'(2) this] assms(3) [OF s Inr] r(3) have "same_message r r' \<and> on_its_way r'" by blast
    with r(2) have "in_flight s r'" by (simp add: in_flight_def same_message_def)
    with r'(1) show ?thesis by (auto simp: list_ex_iff)
  qed simp
qed

lemma flight_ids_append: "flight_ids (a @ b) = flight_ids a @ flight_ids b"
  by (simp add: flight_ids_def)

lemma flight_ids_cons: "flight_ids (s # b) = (case sn_Begun s of Inl _ \<Rightarrow> [] | Inr i \<Rightarrow> [i]) @ flight_ids b"
  by (simp add: flight_ids_def)

lemma flight_ids_mem: "s \<in> set fl \<Longrightarrow> sn_Begun s = Inr i \<Longrightarrow> i \<in> set (flight_ids fl)"
  by (force simp: flight_ids_def)

lemma flights_sub: "flights_ok f (fl1 @ s # fl2) \<Longrightarrow> flights_ok f (fl1 @ fl2)"
  by (auto simp: flights_ok_def flight_ids_append flight_ids_cons)

lemma flights_others:
  assumes "flights_ok f (fl1 @ s # fl2)" and "sn_Begun s = Inr i" and "s' \<in> set (fl1 @ fl2)" and "sn_Begun s' = Inr j"
  shows "j \<noteq> i"
proof -
  have "i \<notin> set (flight_ids (fl1 @ fl2))"
    using assms(1,2) by (auto simp: flights_ok_def flight_ids_append flight_ids_cons)
  with flight_ids_mem [OF assms(3,4)] show ?thesis by auto
qed

text \<open>One operation that keeps the messages.\<close>

lemma kept_inv:
  assumes "msgs_kept c f f'" and "fleet_inv (f, fl)"
  shows "fleet_inv (f', fl)"
proof -
  have m: "moved c {} {} f f'" using assms by (simp add: msgs_kept_def fleet_inv_def)
  with assms(2) moved_ids [OF m] flights_moved [OF m] show ?thesis by (simp add: fleet_inv_def)
qed

lemma ended_moved:
  assumes inv: "fleet_inv (f, fl1 @ s # fl2)"
    and "deliver_rest c w (sn_From s) (sn_To s) (sn_Text s) (sn_At s) (sn_Hold s) (sn_Begun s) f = (e, f')"
  shows "moved c {i. sn_Hold s \<and> sn_Begun s = Inr i} {i. \<not> sn_Hold s \<and> sn_Begun s = Inr i} f f'"
proof -
  have "moved c {i. sn_Hold s \<and> sn_Begun s = Inr i} {i. \<not> sn_Hold s \<and> sn_Begun s = Inr i} f
      (snd (deliver_rest c w (sn_From s) (sn_To s) (sn_Text s) (sn_At s) (sn_Hold s) (sn_Begun s) f))"
  proof (rule deliver_rest_moved)
    show ok: "ids_ok (fd_ledger f)" using inv by (simp add: fleet_inv_def)
    fix i assume i: "sn_Begun s = Inr i"
    have "flights_ok f (fl1 @ s # fl2)" using inv by (simp add: fleet_inv_def)
    then obtain r where r: "r \<in> set (lg_relays (fd_ledger f))" "in_flight s r" "rl_ID r = i"
      by (rule flight_row) (use i in auto)
    have only: "r' = r" if "r' \<in> set (lg_relays (fd_ledger f))" "rl_ID r' = i" for r'
      using row_unique [OF ok r(1) that(1)] that(2) r(3) by simp
    have "i < lg_next_relay (fd_ledger f)" using ok r(1,3) by (auto simp: ids_ok_def list_all_iff)
    then have "row_is i (sn_From s) (sn_To s) (sn_Text s) f"
      unfolding row_is_def list_all_iff using only r(2) by (fastforce simp: in_flight_def)
    then show "row_is i (sn_From s) (sn_To s) (sn_Text s) f \<and>
        (if sn_Hold s then i \<in> {i. sn_Hold s \<and> sn_Begun s = Inr i} \<union> {i. \<not> sn_Hold s \<and> sn_Begun s = Inr i}
         else i \<in> {i. \<not> sn_Hold s \<and> sn_Begun s = Inr i})"
      using i by simp
  qed
  then show ?thesis using assms(2) by simp
qed

lemma New_moved:
  assumes "New c err saved blank f = (None, f')"
  shows "moved c (rl_ID ` {r \<in> set (lg_relays (fd_ledger f)). on_its_way r}) {} f f'"
proof -
  let ?g = "snd (InterruptRelays err (fd_ledger f))"
  from assms have f': "fd_ledger f' = ?g" "fd_tries f' = fd_tries f" by (auto simp: New_def split: prod.splits option.splits)
  have "moved c (rl_ID ` {r \<in> set (lg_relays (fd_ledger f)). on_its_way r}) {} f (with_ledger ?g f)"
    unfolding InterruptRelays_def
    by (rule set_relay_moved [where ts = "[]"])
      (auto simp: evolved_def same_message_def settled_def kept_def on_its_way_def)
  then show ?thesis unfolding moved_def using f' by simp
qed

section \<open>Two agents\<close>

definition demo_fleet :: fleet_conf where
  "demo_fleet = \<lparr>fc_workers = [''a'', ''b''], fc_orchestrator = ''main'', fc_sandboxes = [], fc_siblings = (\<lambda>_. []),
     fc_HeldAlertAfter = hour, fc_EventsRaw = 100 * hour, fc_RelayText = 100 * hour\<rparr>"

text \<open>A world whose sessions take no message, and one whose sessions take all.\<close>

definition deaf :: fleet_world where
  "deaf = \<lparr>fw_relay = (\<lambda>_ _ _ _. Some ''no session''), fw_gone = (\<lambda>_. True), fw_redact = id, fw_begin = None, fw_end = (\<lambda>_. None),
     fw_hold = (\<lambda>_. None), fw_stamp = (\<lambda>_. None), fw_pending = None, fw_read = None, fw_write = None, fw_each = (\<lambda>_. None),
     fw_interrupt = (\<lambda>_. None), fw_notify = None, fw_notifier = True, fw_clock = (\<lambda>_. ''12:00 UTC''), fw_dur = (\<lambda>_. ''1h'')\<rparr>"

definition hearing :: fleet_world where
  "hearing = deaf\<lparr>fw_relay := \<lambda>_ _ _ _. None\<rparr>"

definition noon :: gtime where "noon = of_unix 43200"

definition demo0 :: fleetd where "demo0 = (first_fleet (fresh_state ''''), [])"

definition demo_send :: sending where
  "demo_send = \<lparr>sn_Begun = Inr 1, sn_From = ''a'', sn_To = ''b'', sn_Text = ''hi'', sn_At = noon, sn_Hold = True\<rparr>"

definition demo1 :: fleetd where
  "demo1 = (snd (deliver_begin demo_fleet deaf ''a'' ''b'' ''hi'' '''' '''' noon (fst demo0)), [demo_send])"

definition demo_ends :: "fleet_world \<Rightarrow> fleetd" where
  "demo_ends w = (snd (deliver_rest demo_fleet w ''a'' ''b'' ''hi'' noon True (Inr 1) (fst demo1)), [])"

lemma demo1_begun: "fst (deliver_begin demo_fleet deaf ''a'' ''b'' ''hi'' '''' '''' noon (fst demo0)) = Inr (Inr 1)"
  by code_simp

lemma demo1_step: "fleet_step demo_fleet demo0 demo1"
proof -
  have "deliver_begin demo_fleet deaf ''a'' ''b'' ''hi'' '''' '''' noon (fst demo0) = (Inr (Inr 1), fst demo1)"
    using demo1_begun by (metis demo1_def fst_conv prod.collapse)
  from fleet_step.begun [OF this, of "[]" True] show ?thesis
    unfolding demo0_def demo1_def demo_send_def by (simp add: deaf_def)
qed

lemma demo_reach: "fleet_reach demo_fleet (fresh_state '''') demo1"
  using fleet_reach.more [OF fleet_reach.first demo1_step [unfolded demo0_def]] .

lemma demo_ends_step: "fleet_step demo_fleet demo1 (demo_ends w)"
proof -
  obtain e f' where d: "deliver_rest demo_fleet w ''a'' ''b'' ''hi'' noon True (Inr 1) (fst demo1) = (e, f')" by fastforce
  then have "deliver_rest demo_fleet w (sn_From demo_send) (sn_To demo_send) (sn_Text demo_send) (sn_At demo_send) (sn_Hold demo_send) (sn_Begun demo_send) (fst demo1) = (e, f')"
    by (simp add: demo_send_def)
  from fleet_step.ended [OF this, of "[]" "[]"] d show ?thesis by (simp add: demo_ends_def demo1_def)
qed

end
