(* ===== verification/Fleet_Props.thy ===== *)
theory Fleet_Props
  imports Fleet_System
begin

text \<open>
  What fleetd promises of messages, over every order of its steps: none that is pending or under way is
  lost, none is marked delivered that no session took, what a caller is told of its message is true, and a
  receiver that is back gets all that waited, in order.
\<close>

section \<open>The invariant\<close>

lemma retain_ledger:
  "fd_ledger (retain c w now f) = fd_ledger f \<or>
   lg_relays (fd_ledger (retain c w now f)) =
     delete_where (\<lambda>r. rl_At r < unix_of (now - fc_RelayText c) \<and> \<not> pendingWhere (fd_ledger f) r) (lg_relays (fd_ledger f)) \<and>
   lg_next_relay (fd_ledger (retain c w now f)) = lg_next_relay (fd_ledger f) \<and> lg_tasks (fd_ledger (retain c w now f)) = lg_tasks (fd_ledger f)"
  by (auto simp: retain_def Retain_def Let_def ran_snd)

lemma retain_tries [simp]: "fd_tries (retain c w now f) = fd_tries f"
  by (simp add: retain_def)

lemma ids_ok_delete:
  "ids_ok g \<Longrightarrow> lg_relays g' = delete_where p (lg_relays g) \<Longrightarrow> lg_next_relay g' = lg_next_relay g \<Longrightarrow> ids_ok g'"
  by (auto simp: ids_ok_def list_all_iff distinct_delete_where)

lemma retain_inv:
  assumes inv: "fleet_inv (f, fl)" and young: "list_all (\<lambda>s. unix_of (now - fc_RelayText c) \<le> unix_of (sn_At s)) fl"
  shows "fleet_inv (retain c w now f, fl)"
proof -
  have ok: "ids_ok (fd_ledger f)" "flights_ok f fl" using inv by (simp_all add: fleet_inv_def)
  show ?thesis
  proof (cases "fd_ledger (retain c w now f) = fd_ledger f")
    case True
    then show ?thesis using inv by (simp add: fleet_inv_def flights_ok_def)
  next
    case False
    with retain_ledger [of c w now f] have d: "lg_relays (fd_ledger (retain c w now f)) =
        delete_where (\<lambda>r. rl_At r < unix_of (now - fc_RelayText c) \<and> \<not> pendingWhere (fd_ledger f) r) (lg_relays (fd_ledger f))"
      "lg_next_relay (fd_ledger (retain c w now f)) = lg_next_relay (fd_ledger f)" by blast+
    have "list_ex (in_flight s) (lg_relays (fd_ledger (retain c w now f)))"
      if "s \<in> set fl" "list_ex (in_flight s) (lg_relays (fd_ledger f))" for s
      using that young unfolding d list_ex_iff by (fastforce simp: in_flight_def list_all_iff)
    then have "flights_ok (retain c w now f) fl" using ok(2) by (auto simp: flights_ok_def list_all_iff)
    with ids_ok_delete [OF ok(1) d] show ?thesis by (simp add: fleet_inv_def)
  qed
qed

lemma set_state_step_kept: "msgs_kept c f (set_state st f)"
  by (rule set_state_kept)

lemma begin_inv:
  assumes inv: "fleet_inv (f, fl)" and b: "deliver_begin c w from to text task kind now f = (Inr bg, f')"
  shows "fleet_inv (f', fl @ [\<lparr>sn_Begun = bg, sn_From = from, sn_To = to, sn_Text = fw_redact w text, sn_At = now, sn_Hold = hold\<rparr>])"
proof -
  have m: "moved c {} {} f f'" by (rule deliver_begin_moved [OF b])
  have ok: "ids_ok (fd_ledger f)" "flights_ok f fl" using inv by (simp_all add: fleet_inv_def)
  have ids: "ids_ok (fd_ledger f')" by (rule moved_ids [OF m ok(1)])
  have fl': "flights_ok f' fl" by (rule flights_moved [OF m ok(2)]) auto
  show ?thesis
  proof (cases bg)
    case (Inl e)
    with fl' ids show ?thesis by (simp add: fleet_inv_def flights_ok_def flight_ids_append flight_ids_cons) (simp add: flight_ids_def)
  next
    case (Inr i)
    from deliver_begin_row [OF b [unfolded Inr] ok(1)] obtain r where r: "lg_relays (fd_ledger f') = lg_relays (fd_ledger f) @ [r]"
        and i: "i = lg_next_relay (fd_ledger f)" "rl_ID r = i" "on_its_way r" "rl_From r = from" "rl_To r = to" "rl_Text r = fw_redact w text"
        "rl_At r = unix_of now" by blast
    have "r \<in> set (lg_relays (fd_ledger f'))" using r by simp
    have "i \<notin> set (flight_ids fl)"
    proof
      assume "i \<in> set (flight_ids fl)"
      then obtain s where s: "s \<in> set fl" "sn_Begun s = Inr i" by (auto simp: flight_ids_def split: sum.splits)
      obtain r' where "r' \<in> set (lg_relays (fd_ledger f))" "rl_ID r' = i" by (rule flight_row [OF ok(2) s])
      with ok(1) i(1) show False by (auto simp: ids_ok_def list_all_iff)
    qed
    moreover let ?s = "\<lparr>sn_Begun = bg, sn_From = from, sn_To = to, sn_Text = fw_redact w text, sn_At = now, sn_Hold = hold\<rparr>"
    have "list_ex (in_flight ?s) (lg_relays (fd_ledger f'))"
      unfolding list_ex_iff using \<open>r \<in> _\<close> by (rule bexI [rotated]) (simp add: in_flight_def i Inr)
    ultimately show ?thesis using fl' ids Inr
      by (simp add: fleet_inv_def flights_ok_def flight_ids_append flight_ids_cons) (simp add: flight_ids_def)
  qed
qed

lemma end_inv:
  assumes inv: "fleet_inv (f, fl1 @ s # fl2)"
    and e: "deliver_rest c w (sn_From s) (sn_To s) (sn_Text s) (sn_At s) (sn_Hold s) (sn_Begun s) f = (e, f')"
  shows "fleet_inv (f', fl1 @ fl2)"
proof -
  let ?H = "{i. sn_Hold s \<and> sn_Begun s = Inr i}" and ?E = "{i. \<not> sn_Hold s \<and> sn_Begun s = Inr i}"
  have m: "moved c ?H ?E f f'" by (rule ended_moved [OF inv e])
  have ok: "ids_ok (fd_ledger f)" "flights_ok f (fl1 @ s # fl2)" using inv by (simp_all add: fleet_inv_def)
  have "flights_ok f' (fl1 @ fl2)"
    by (rule flights_moved [OF m flights_sub [OF ok(2)]]) (use flights_others [OF ok(2)] in auto)
  with moved_ids [OF m ok(1)] show ?thesis by (simp add: fleet_inv_def)
qed

lemma step_inv:
  assumes "fleet_step c s s'" and "fleet_inv s"
  shows "fleet_inv s'"
  using assms
proof (induction rule: fleet_step.induct)
  case (refused_or_filed w "from" to "text" task kind now f e f' fl)
  have "msgs_kept c f f'" by (rule msgs_kept_moved) (rule deliver_begin_moved [OF refused_or_filed(1)])
  then show ?case using refused_or_filed(2) by (rule kept_inv)
next
  case begun
  then show ?case by (metis begin_inv)
next
  case ended
  then show ?case by (metis end_inv)
next
  case retained
  then show ?case by (metis retain_inv)
next
  case (restarted err saved blank f f' fl)
  then show ?case using moved_ids [OF New_moved [OF restarted(1)]] by (simp add: fleet_inv_def flights_ok_def flight_ids_def)
next
  case (run_delivered C rw q r now f fl)
  then show ?case by (metis kept_inv deliver_run_kept)
next
  case (elsewhere f f' fl)
  then show ?case by (metis kept_inv elsewhere_kept)
qed (erule kept_inv [rotated], rule steps_kept)+

lemma reach_inv: "fleet_reach c blank s \<Longrightarrow> fleet_inv s"
proof (induction rule: fleet_reach.induct)
  case first
  then show ?case by (simp add: fleet_inv_def first_fleet_def empty_ledger_def ids_ok_def flights_ok_def flight_ids_def)
qed (rule step_inv)

text \<open>A step moves the messages, or it is the retention.\<close>

lemma step_moves:
  assumes "fleet_step c s s'" and "fleet_inv s"
  shows "(\<exists>H E. moved c H E (fst s) (fst s') \<and> (\<forall>i\<in>E. \<exists>x\<in>set (snd s). \<not> sn_Hold x \<and> sn_Begun x = Inr i)) \<or>
    (\<exists>w now. fst s' = retain c w now (fst s) \<and> list_all (\<lambda>x. unix_of (now - fc_RelayText c) \<le> unix_of (sn_At x)) (snd s))"
proof -
  have kept: "(\<exists>H E. moved c H E f f' \<and> (\<forall>i\<in>E. P i))" if "msgs_kept c f f'" "fleet_inv (f, fl)" for f f' fl P
    using that by (auto simp: msgs_kept_def fleet_inv_def intro!: exI [of _ "{}"])
  show ?thesis using assms
  proof (induction rule: fleet_step.induct)
    case (refused_or_filed w "from" to "text" task kind now f e f' fl)
    then show ?case using deliver_begin_moved [OF refused_or_filed(1)] by (metis empty_iff fst_conv)
  next
    case (begun w "from" to "text" task kind now f b f' fl hold)
    then show ?case using deliver_begin_moved [OF begun(1)] by (metis empty_iff fst_conv)
  next
    case (ended w s f e f' fl1 fl2)
    from ended_moved [OF ended(2,1)] show ?case
      by (intro disjI1 exI [of _ "{i. sn_Hold s \<and> sn_Begun s = Inr i}"] exI [of _ "{i. \<not> sn_Hold s \<and> sn_Begun s = Inr i}"]) simp
  next
    case (retained now fl f w)
    then show ?case by (intro disjI2) auto
  next
    case (restarted err saved blank f f' fl)
    then show ?case using New_moved [OF restarted(1)] by (metis empty_iff fst_conv)
  next
    case (run_delivered C rw q r now f fl)
    then show ?case unfolding fst_conv snd_conv by (intro disjI1 kept [OF deliver_run_kept])
  next
    case (elsewhere f f' fl)
    then show ?case unfolding fst_conv snd_conv by (intro disjI1 kept [OF elsewhere_kept])
  qed (unfold fst_conv snd_conv, (rule disjI1, erule kept [rotated], rule steps_kept)+)
qed

definition safe_row :: "fleetd \<Rightarrow> Relay \<Rightarrow> bool" where
  "safe_row s r \<longleftrightarrow> pendingWhere (fd_ledger (fst s)) r \<or> list_ex (\<lambda>x. sn_Hold x \<and> in_flight x r) (snd s)"

lemma evolved_safe:
  assumes "evolved H E ts r r'" and "kept r \<or> on_its_way r" and "rl_ID r \<notin> E"
  shows "same_message r r' \<and> (on_its_way r' \<or> kept r' \<or> (rl_Delivered r' \<and> carried ts r))"
  using assms by (auto simp: evolved_def same_status_def settled_def kept_def on_its_way_def)

lemma safe_row_kept:
  assumes inv: "fleet_inv s" and "fleet_step c s s'" and "r \<in> set (lg_relays (fd_ledger (fst s)))" and "safe_row s r"
  shows "\<exists>r'\<in>set (lg_relays (fd_ledger (fst s'))). same_message r r' \<and>
    (on_its_way r' \<or> kept r' \<or> (rl_Delivered r' \<and> carried (drop (length (fd_tries (fst s))) (fd_tries (fst s'))) r))"
proof -
  have st: "kept r \<or> on_its_way r" using assms(4) by (auto simp: safe_row_def pendingWhere_def list_ex_iff in_flight_def)
  from step_moves [OF assms(2) inv] show ?thesis
  proof (elim disjE exE conjE)
    fix H E assume m: "moved c H E (fst s) (fst s')" and E: "\<forall>i\<in>E. \<exists>x\<in>set (snd s). \<not> sn_Hold x \<and> sn_Begun x = Inr i"
    obtain ts r' where r': "fd_tries (fst s') = fd_tries (fst s) @ ts" "r' \<in> set (lg_relays (fd_ledger (fst s')))" "evolved H E ts r r'"
      by (rule moved_row_forth [OF m assms(3)])
    have "rl_ID r \<notin> E"
    proof
      assume "rl_ID r \<in> E"
      with E obtain x where x: "x \<in> set (snd s)" "\<not> sn_Hold x" "sn_Begun x = Inr (rl_ID r)" by blast
      have fl: "flights_ok (fst s) (snd s)" "ids_ok (fd_ledger (fst s))" using inv by (simp_all add: fleet_inv_def)
      obtain q where q: "q \<in> set (lg_relays (fd_ledger (fst s)))" "in_flight x q" "rl_ID q = rl_ID r" by (rule flight_row [OF fl(1) x(1,3)])
      have "q = r" using row_unique [OF fl(2) assms(3) q(1,3)] .
      with q(2) have "\<not> kept r" by (auto simp: in_flight_def dest: on_its_way_kept)
      with assms(4) obtain y where y: "y \<in> set (snd s)" "sn_Hold y" "sn_Begun y = Inr (rl_ID r)"
        by (auto simp: safe_row_def pendingWhere_def list_ex_iff in_flight_def)
      obtain f1 f2 where sp: "snd s = f1 @ x # f2" using x(1) by (meson split_list)
      have "y \<in> set (f1 @ f2)" using y x(2) sp by auto
      with flights_others [OF fl(1) [unfolded sp] x(3) _ y(3)] show False by blast
    qed
    from evolved_safe [OF r'(3) st this] r'(1,2) show ?thesis by auto
  next
    fix w now assume f': "fst s' = retain c w now (fst s)" and y: "list_all (\<lambda>x. unix_of (now - fc_RelayText c) \<le> unix_of (sn_At x)) (snd s)"
    have "pendingWhere (fd_ledger (fst s)) r \<or> unix_of (now - fc_RelayText c) \<le> rl_At r"
      using assms(4) y by (auto simp: safe_row_def list_ex_iff list_all_iff in_flight_def)
    then have "r \<in> set (lg_relays (fd_ledger (fst s')))" using retain_ledger [of c w now "fst s"] assms(3) f' by auto
    with st show ?thesis by (auto intro!: bexI [of _ r] simp: same_message_def)
  qed
qed

text \<open>
  What is still to come of a message that waits: a resend to its receiver reads it. Otherwise there is a task it is filed under, which has
  no row or was closed after the message was written, or a later message of that task has got through to the receiver.
\<close>

definition read_by_resend :: "ledger \<Rightarrow> Relay \<Rightarrow> bool" where
  "read_by_resend g r \<longleftrightarrow> (case PendingRelays None (rl_To r) zero_time g of Inl _ \<Rightarrow> False | Inr pend \<Rightarrow> r \<in> set pend)"

definition task_over :: "ledger \<Rightarrow> Relay \<Rightarrow> bool" where
  "task_over g r \<longleftrightarrow> (case rl_Task r of None \<Rightarrow> False
     | Some t \<Rightarrow> list_all (\<lambda>k. tk_ID k = t \<longrightarrow> (case tk_Closed k of None \<Rightarrow> False | Some c \<Rightarrow> rl_At r < c)) (lg_tasks g))"

definition passed_by :: "ledger \<Rightarrow> Relay \<Rightarrow> bool" where
  "passed_by g r \<longleftrightarrow> rl_Task r \<noteq> None \<and>
     list_ex (\<lambda>l. rl_Task l = rl_Task r \<and> rl_To l = rl_To r \<and> rl_ID r < rl_ID l \<and> rl_Delivered l) (lg_relays g)"

lemma kept_still_to_come:
  assumes "r \<in> set (lg_relays g)" and "kept r" and "unix_of zero_time \<le> rl_At r"
  shows "read_by_resend g r \<or> task_over g r \<or> passed_by g r"
proof (cases "timely g r")
  case True
  then show ?thesis using assms
    by (auto simp: read_by_resend_def PendingRelays_def pendingWhere_def passed_by_def overtaken_def list_ex_iff)
next
  case False
  then have "task_over g r" by (fastforce simp: timely_def task_over_def list_all_iff split: option.splits)
  then show ?thesis by simp
qed



text \<open>
  C10. A message between sessions is marked delivered only when a try of it was accepted: in every state fleetd
  reaches, the tries it made hold one, to the receiver and from the sender, whose text ends in the message's.\<close>

theorem delivered_was_accepted:
  assumes "fleet_reach c blank s" and "r \<in> set (lg_relays (fd_ledger (fst s)))" and "rl_Delivered r" and "relayed c r"
  shows "carried (fd_tries (fst s)) r"
  using assms
proof (induction arbitrary: r rule: fleet_reach.induct)
  case first
  then show ?case by (simp add: first_fleet_def empty_ledger_def)
next
  case (more s s')
  from step_moves [OF more(2) reach_inv [OF more(1)]] show ?case
  proof (elim disjE exE conjE)
    fix H E assume "moved c H E (fst s) (fst s')"
    then obtain ts old new where m: "fd_tries (fst s') = fd_tries (fst s) @ ts" "lg_relays (fd_ledger (fst s')) = old @ new"
        "list_all2 (evolved H E ts) (lg_relays (fd_ledger (fst s))) old" "list_all (born c ts) new"
      by (rule movedE) blast
    show ?thesis
    proof (cases "r \<in> set new")
      case True
      then have "carried ts r" using m(4) more.prems(2,3) by (auto simp: list_all_iff born_def)
      then show ?thesis unfolding m(1) by (rule carried_mono) simp
    next
      case False
      then have "r \<in> set old" using more.prems(1) m(2) by simp
      from list_all2_back [OF m(3) this] obtain q where q: "q \<in> set (lg_relays (fd_ledger (fst s)))" "evolved H E ts q r" by blast
      then have same: "same_message q r" by (simp add: evolved_def)
      have "rl_Delivered q \<or> carried ts q" using q(2) more.prems(2) by (auto simp: evolved_def same_status_def settled_def)
      then have "carried (fd_tries (fst s)) q \<or> carried ts q"
        using more.IH [OF q(1)] more.prems(3) relayed_same [OF same] by blast
      then show ?thesis unfolding m(1) carried_same [OF same] by (auto elim: carried_mono)
    qed
  next
    fix w now assume f': "fst s' = retain c w now (fst s)"
    then have "r \<in> set (lg_relays (fd_ledger (fst s)))" using retain_ledger [of c w now "fst s"] more.prems(1) by auto
    from more.IH [OF this more.prems(2,3)] f' show ?thesis by simp
  qed
qed

theorem delivered_was_accepted_witness:
  "carried (fd_tries (fst (demo_ends hearing))) (hd (lg_relays (fd_ledger (fst (demo_ends hearing)))))"
proof -
  have "lg_relays (fd_ledger (fst (demo_ends hearing))) \<noteq> []" by code_simp
  then have r: "hd (lg_relays (fd_ledger (fst (demo_ends hearing)))) \<in> set (lg_relays (fd_ledger (fst (demo_ends hearing))))" by simp
  show ?thesis
    by (rule delivered_was_accepted [OF fleet_reach.more [OF demo_reach demo_ends_step] r]) code_simp+
qed

section \<open>What the caller is told\<close>

lemma moved_back:
  assumes "moved c H E f f'" and "r' \<in> set (lg_relays (fd_ledger f'))" and "rl_ID r' < lg_next_relay (fd_ledger f)"
  obtains r ts where "r \<in> set (lg_relays (fd_ledger f))" "evolved H E ts r r'"
proof -
  obtain ts old new where m: "lg_relays (fd_ledger f') = old @ new"
      "list_all2 (evolved H E ts) (lg_relays (fd_ledger f)) old"
      "map rl_ID new = [lg_next_relay (fd_ledger f)..lg_next_relay (fd_ledger f') - 1]"
    by (rule movedE [OF assms(1)]) blast
  have "r' \<notin> set new"
  proof
    assume "r' \<in> set new"
    then have "rl_ID r' \<in> set (map rl_ID new)" by simp
    with m(3) assms(3) show False by simp
  qed
  with assms(2) m(1) have "r' \<in> set old" by simp
  from list_all2_back [OF m(2) this] that show thesis by blast
qed

lemma flush_each_next: "lg_next_relay (fd_ledger (snd (flush_each c w name now rs f))) = lg_next_relay (fd_ledger f)"
proof (induction rs arbitrary: f)
  case (Cons r rs)
  have g: "lg_next_relay (got_through w i now g) = lg_next_relay g" for i g
    by (simp add: got_through_def EndRelay_def StampDelivered_def set_relay_def ran_def split: prod.split option.split)
  obtain err f1 where t: "try_once w name (rl_From r) (noted_text w r) f = (err, f1)" by fastforce
  then have "fd_ledger f1 = fd_ledger f" using try_once_tries by fastforce
  with t Cons show ?case by (simp add: Let_def g HoldRelay_def)
qed simp

lemma flush_next: "lg_next_relay (fd_ledger (snd (flush c w name now f))) = lg_next_relay (fd_ledger f)"
  by (simp add: flush_def flush_each_next split: sum.split)

text \<open>What a held send does after its message is on the ledger: its row is still under way when it is settled.\<close>

lemma held_try:
  assumes ok: "ids_ok (fd_ledger f)" and r: "r \<in> set (lg_relays (fd_ledger f))" "on_its_way r"
    and tr: "(case unable c to f of Some e \<Rightarrow> (Some e, f)
      | None \<Rightarrow> (case flush c w to now f of (Some e, f') \<Rightarrow> (Some e, f') | (None, f') \<Rightarrow> relay w to from text f')) = (err, f')"
  shows "lg_next_relay (fd_ledger f') = lg_next_relay (fd_ledger f)"
    "\<exists>q\<in>set (lg_relays (fd_ledger f')). same_message r q \<and> on_its_way q" "ids_ok (fd_ledger f')"
    "err = None \<Longrightarrow> fd_tries f' \<noteq> [] \<and> last (fd_tries f') = \<lparr>ty_To = to, ty_From = from, ty_Text = text, ty_OK = True\<rparr>"
proof -
  obtain e2 f2 where fl: "flush c w to now f = (e2, f2)" by fastforce
  have m2: "moved c {} {} f f2" using flush_moved [OF ok, of c w to now] fl by simp
  have n2: "lg_next_relay (fd_ledger f2) = lg_next_relay (fd_ledger f)" using flush_next [of c w to now f] fl by simp
  obtain ts q where q: "q \<in> set (lg_relays (fd_ledger f2))" "evolved {} {} ts r q" by (rule moved_row_forth [OF m2 r(1)])
  have q2: "same_message r q \<and> on_its_way q" using evolved_on_its_way [OF q(2) r(2)] by simp
  have "(fd_ledger f' = fd_ledger f \<or> fd_ledger f' = fd_ledger f2) \<and> (err = None \<longrightarrow> relay w to from text f2 = (err, f'))"
  proof (cases "unable c to f")
    case None
    with tr fl show ?thesis by (cases e2) (auto elim: relay_fleet)
  next
    case (Some m)
    with tr show ?thesis by auto
  qed
  then have l: "fd_ledger f' = fd_ledger f \<or> fd_ledger f' = fd_ledger f2" and rl: "err = None \<Longrightarrow> relay w to from text f2 = (err, f')" by auto
  show "lg_next_relay (fd_ledger f') = lg_next_relay (fd_ledger f)" using l n2 by auto
  show "\<exists>q\<in>set (lg_relays (fd_ledger f')). same_message r q \<and> on_its_way q"
    using l q(1) q2 r by (auto simp: same_message_def)
  show "ids_ok (fd_ledger f')" using l ok moved_ids [OF m2 ok] by auto
  assume "err = None"
  from relay_tries [OF rl [OF this]] this show "fd_tries f' \<noteq> [] \<and> last (fd_tries f') = \<lparr>ty_To = to, ty_From = from, ty_Text = text, ty_OK = True\<rparr>"
    by (auto simp: accepted_def)
qed

text \<open>The row of a message: whose it is, what it says, when it was written and what it is filed under.\<close>

definition is_message :: "int \<Rightarrow> string \<Rightarrow> string \<Rightarrow> string \<Rightarrow> gtime \<Rightarrow> string \<Rightarrow> Relay \<Rightarrow> bool" where
  "is_message i from to text now task r \<longleftrightarrow> rl_ID r = i \<and> rl_From r = from \<and> rl_To r = to \<and> rl_Text r = text \<and>
     rl_At r = unix_of now \<and> rl_Task r = nullStr task"

lemma is_message_same: "same_message r q \<Longrightarrow> is_message i from to text now task q = is_message i from to text now task r"
  by (simp add: is_message_def same_message_def)

definition told_true :: "send_error option \<Rightarrow> int \<Rightarrow> string \<Rightarrow> string \<Rightarrow> string \<Rightarrow> gtime \<Rightarrow> string \<Rightarrow> fleet \<Rightarrow> bool" where
  "told_true res i from to text now task f' \<longleftrightarrow>
     (case res of
        None \<Rightarrow> fd_tries f' \<noteq> [] \<and> last (fd_tries f') = \<lparr>ty_To = to, ty_From = from, ty_Text = text, ty_OK = True\<rparr>
      | Some (SendHeld to' why) \<Rightarrow> to' = to \<and>
          list_ex (\<lambda>r. is_message i from to text now task r \<and> rl_Error r = Some Held \<and> \<not> rl_Delivered r \<and>
            (read_by_resend (fd_ledger f') r \<or> task_over (fd_ledger f') r \<or> passed_by (fd_ledger f') r)) (lg_relays (fd_ledger f'))
      | Some (SendFail why) \<Rightarrow> list_all (\<lambda>r. i \<le> rl_ID r \<longrightarrow> \<not> rl_Delivered r) (lg_relays (fd_ledger f')))"

lemma sum_sum_cases:
  obtains (refused) e where "b = Inl e" | (unfiled) e where "b = Inr (Inl e)" | (begun) i where "b = Inr (Inr i)"
proof (cases b)
  case (Inr y)
  then show thesis using that by (cases y) auto
qed (use that in auto)

text \<open>A send whose message is on the ledger, as the state it is settled in.\<close>

lemma send_begun:
  assumes b: "deliver_begin c w from to text task '''' now f = (Inr (Inr i), f1)" and ok: "ids_ok (fd_ledger f)"
  obtains err f2 q where "i = lg_next_relay (fd_ledger f)" "ids_ok (fd_ledger f2)" "lg_next_relay (fd_ledger f2) = i + 1"
    "q \<in> set (lg_relays (fd_ledger f2))" "is_message i from to (fw_redact w text) now (filed_under c w from to task now f) q" "on_its_way q"
    "err = None \<Longrightarrow> fd_tries f2 \<noteq> [] \<and> last (fd_tries f2) = \<lparr>ty_To = to, ty_From = from, ty_Text = fw_redact w text, ty_OK = True\<rparr>"
    "send c w from to text task now f = (case err of None \<Rightarrow> (None, with_ledger (snd (EndRelay (fw_end w i) i None (fd_ledger f2))) f2)
          | Some e \<Rightarrow> (case fw_hold w i of Some _ \<Rightarrow> (Some (SendFail e), f2)
             | None \<Rightarrow> (Some (SendHeld to e), with_ledger (snd (HoldRelay None i (fd_ledger f2))) f2)))"
proof -
  let ?t = "fw_redact w text"
  from deliver_begin_row [OF b ok] obtain r where r: "i = lg_next_relay (fd_ledger f)" "lg_relays (fd_ledger f1) = lg_relays (fd_ledger f) @ [r]"
      "on_its_way r" "is_message i from to ?t now (filed_under c w from to task now f) r" unfolding is_message_def by blast
  have n1: "lg_next_relay (fd_ledger f1) = i + 1" using b r(1)
    by (auto simp: deliver_begin_def Let_def BeginRelay_def addRelay_def split: if_splits prod.splits option.splits)
  have ok1: "ids_ok (fd_ledger f1)" by (rule moved_ids [OF deliver_begin_moved [OF b] ok])
  define tried where "tried = (case unable c to f1 of Some e \<Rightarrow> (Some e, f1)
    | None \<Rightarrow> (case flush c w to now f1 of (Some e, f') \<Rightarrow> (Some e, f') | (None, f') \<Rightarrow> relay w to from ?t f'))"
  obtain err f2 where tr: "tried = (err, f2)" by fastforce
  have "r \<in> set (lg_relays (fd_ledger f1))" using r(2) by simp
  note h = held_try [OF ok1 this r(3) tr [unfolded tried_def]]
  obtain q where q: "q \<in> set (lg_relays (fd_ledger f2))" "same_message r q" "on_its_way q" using h(2) by blast
  have w: "with_ledger (fd_ledger f2) f2 = f2" by (simp add: with_ledger_def)
  have s: "send c w from to text task now f = (case err of None \<Rightarrow> (None, with_ledger (snd (EndRelay (fw_end w i) i None (fd_ledger f2))) f2)
          | Some e \<Rightarrow> (case fw_hold w i of Some _ \<Rightarrow> (Some (SendFail e), f2)
             | None \<Rightarrow> (Some (SendHeld to e), with_ledger (snd (HoldRelay None i (fd_ledger f2))) f2)))"
    unfolding send_def deliverMsg_def b sum.case prod.case deliver_rest_def if_True tr [unfolded tried_def]
    by (cases err; cases "fw_hold w i") (simp_all add: HoldRelay_def set_relay_def ran_def w)
  show thesis
    by (rule that [OF r(1) h(3) _ q(1) _ q(3) h(4) s]) (use h(1) n1 r(4) is_message_same [OF q(2)] in auto)
qed

lemma held_row:
  assumes "q \<in> set (lg_relays g)" and "is_message i from to text now task q"
  shows "\<exists>r\<in>set (lg_relays (snd (HoldRelay None i g))). is_message i from to text now task r \<and> rl_Error r = Some Held \<and> \<not> rl_Delivered r"
proof -
  have "q\<lparr>rl_Delivered := False, rl_Error := Some Held\<rparr> \<in> set (lg_relays (snd (HoldRelay None i g)))"
    using assms by (force simp: HoldRelay_def set_relay_def ran_def update_where_def is_message_def)
  then show ?thesis by (rule bexI [rotated]) (use assms(2) in \<open>simp add: is_message_def\<close>)
qed

lemma only_row: "ids_ok g \<Longrightarrow> lg_next_relay g = i + 1 \<Longrightarrow> q \<in> set (lg_relays g) \<Longrightarrow> rl_ID q = i \<Longrightarrow>
  list_all (\<lambda>r. i \<le> rl_ID r \<longrightarrow> r = q) (lg_relays g)"
  unfolding list_all_iff using row_unique by (fastforce simp: ids_ok_def list_all_iff)



end
