(* ===== verification/Fleet_Resend.thy ===== *)
theory Fleet_Resend
  imports Fleet_Props
begin

text \<open>
  What a receiver gets when it is back, and what of its messages is no longer worth sending: the rule of
  \<^verbatim>\<open>pendingWhere\<close> at work, where it does what it means to and where it does not.
\<close>

section \<open>Resending\<close>

definition end_each :: "int list \<Rightarrow> gtime \<Rightarrow> Relay list \<Rightarrow> Relay list" where
  "end_each ids now rs = map (\<lambda>r. if rl_ID r \<in> set ids then r\<lparr>rl_Delivered := True, rl_Error := None, rl_DeliveredAt := Some (unix_of now)\<rparr> else r) rs"

definition sent_try :: "fleet_world \<Rightarrow> string \<Rightarrow> Relay \<Rightarrow> delivery_try" where
  "sent_try w name r = \<lparr>ty_To = name, ty_From = rl_From r, ty_Text = noted_text w r, ty_OK = True\<rparr>"

definition takes_all :: "fleet_world \<Rightarrow> bool" where
  "takes_all w \<longleftrightarrow> (\<forall>ts to from text. fw_relay w ts to from text = None) \<and> (\<forall>i. fw_end w i = None \<and> fw_stamp w i = None) \<and> fw_pending w = None"

lemma got_through_all:
  "takes_all w \<Longrightarrow> got_through w i now g = g\<lparr>lg_relays := end_each [i] now (lg_relays g)\<rparr>"
  by (simp add: takes_all_def got_through_def EndRelay_def StampDelivered_def set_relay_def ran_def update_where_def end_each_def)

lemma end_each_cons: "end_each ids now (end_each [i] now rs) = end_each (i # ids) now rs"
  by (auto simp: end_each_def)

lemma flush_each_all:
  assumes "takes_all w"
  shows "\<exists>f'. flush_each c w name now rs f = (None, f') \<and> fd_tries f' = fd_tries f @ map (sent_try w name) rs \<and>
    fd_ledger f' = (fd_ledger f)\<lparr>lg_relays := end_each (map rl_ID rs) now (lg_relays (fd_ledger f))\<rparr>"
proof (induction rs arbitrary: f)
  case Nil
  then show ?case by (simp add: end_each_def)
next
  case (Cons r rs)
  have ok: "fw_relay w ts to from text = None" for ts to "from" "text" using assms by (simp add: takes_all_def)
  let ?f1 = "f\<lparr>fd_tries := fd_tries f @ [sent_try w name r]\<rparr>"
  have t: "try_once w name (rl_From r) (noted_text w r) f = (None, ?f1)" by (simp add: try_once_def ok sent_try_def)
  let ?f2 = "note_failure c name None now ?f1"
  let ?f3 = "with_ledger (got_through w (rl_ID r) now (fd_ledger ?f2)) ?f2"
  obtain f' where f': "flush_each c w name now rs ?f3 = (None, f')" "fd_tries f' = fd_tries ?f3 @ map (sent_try w name) rs"
      "fd_ledger f' = (fd_ledger ?f3)\<lparr>lg_relays := end_each (map rl_ID rs) now (lg_relays (fd_ledger ?f3))\<rparr>"
    using Cons.IH [of ?f3] by blast
  have "flush_each c w name now (r # rs) f = (None, f')" using f'(1) by (simp add: t Let_def)
  then show ?case using f'(2,3) by (simp add: got_through_all [OF assms] end_each_cons)
qed

lemma end_each_mem:
  "r' \<in> set (end_each ids now rs) \<Longrightarrow> r' \<in> set rs \<and> rl_ID r' \<notin> set ids \<or> rl_Delivered r' \<and> rl_Error r' = None"
  by (auto simp: end_each_def split: if_splits)

lemma end_each_delivered:
  "l \<in> set rs \<Longrightarrow> rl_Delivered l \<Longrightarrow>
   \<exists>l'\<in>set (end_each ids now rs). rl_Delivered l' \<and> rl_ID l' = rl_ID l \<and> rl_To l' = rl_To l \<and> rl_Task l' = rl_Task l"
  unfolding end_each_def
  by (rule bexI [of _ "if rl_ID l \<in> set ids then l\<lparr>rl_Delivered := True, rl_Error := None, rl_DeliveredAt := Some (unix_of now)\<rparr> else l"]) auto

lemma timely_cong: "lg_tasks g' = lg_tasks g \<Longrightarrow> timely g' r = timely g r"
  by (cases "rl_Task r") (simp_all add: timely_def)

lemma pending_after:
  assumes "r \<in> set (lg_relays g')" and "pendingWhere g' r" and g': "g' = g\<lparr>lg_relays := end_each ids now (lg_relays g)\<rparr>"
  shows "r \<in> set (lg_relays g) \<and> rl_ID r \<notin> set ids \<and> pendingWhere g r"
proof -
  have k: "kept r" "timely g' r" "\<not> overtaken g' r" using assms(2) by (simp_all add: pendingWhere_def)
  have r: "r \<in> set (lg_relays g)" "rl_ID r \<notin> set ids"
    using end_each_mem [of r ids now "lg_relays g"] assms(1) k(1) unfolding g' by (auto simp: kept_def)
  have "\<not> overtaken g r"
  proof
    assume "overtaken g r"
    then obtain l where l: "l \<in> set (lg_relays g)" "rl_Delivered l" "rl_Task r \<noteq> None" "rl_Task l = rl_Task r" "rl_To l = rl_To r" "rl_ID r < rl_ID l"
      by (auto simp: overtaken_def)
    from end_each_delivered [OF l(1,2)] obtain l' where "l' \<in> set (end_each ids now (lg_relays g))" "rl_Delivered l'" "rl_ID l' = rl_ID l"
        "rl_To l' = rl_To l" "rl_Task l' = rl_Task l" by blast
    with l(3-6) have "overtaken g' r" unfolding overtaken_def g' by auto
    with k(3) show False ..
  qed
  moreover have "timely g r" using k(2) timely_cong [of g' g] g' by simp
  ultimately show ?thesis using r k(1) by (simp add: pendingWhere_def)
qed

lemma PendingRelays_mem:
  "PendingRelays None name since g = Inr rs \<Longrightarrow> r \<in> set rs \<longleftrightarrow> r \<in> set (lg_relays g) \<and> rl_To r = name \<and> unix_of since \<le> rl_At r \<and> pendingWhere g r"
  by (auto simp: PendingRelays_def)

text \<open>
  C28. A receiver that takes messages again gets all that waited for it: one resend, at the latest
  \<^verbatim>\<open>resendMax\<close> after the last failure, tries every pending message once, in the order they were
  written, and leaves none pending.\<close>

theorem resend_delivers_all:
  assumes ok: "takes_all w" and due: "resendMax \<le> time_sub now (fd_resendFailed f name)"
    and pend: "PendingRelays None name zero_time (fd_ledger f) = Inr rs"
  shows "fd_tries (resend c w False name now f) = fd_tries f @ map (sent_try w name) rs \<and>
    sorted (map rl_ID rs) \<and> PendingRelays None name zero_time (fd_ledger (resend c w False name now f)) = Inr []"
proof -
  have "min (resendEvery * 2 ^ min (fd_resendFails f name) 4) resendMax \<le> time_sub now (fd_resendFailed f name)" using due by (simp add: min_def)
  then have "\<not> time_sub now (fd_resendFailed f name) < min (resendEvery * 2 ^ min (fd_resendFails f name) 4) resendMax" by (simp only: not_less)
  moreover have p: "PendingRelays (fw_pending w) name zero_time (fd_ledger f) = Inr rs" using pend ok by (simp add: takes_all_def)
  moreover obtain f' where f': "flush_each c w name now rs f = (None, f')" "fd_tries f' = fd_tries f @ map (sent_try w name) rs"
      "fd_ledger f' = (fd_ledger f)\<lparr>lg_relays := end_each (map rl_ID rs) now (lg_relays (fd_ledger f))\<rparr>"
    using flush_each_all [OF ok] by blast
  ultimately have r: "resend c w False name now f = f'" by (simp add: resend_def flush_def del: min_less_iff_conj)
  have "filter (\<lambda>r. rl_To r = name \<and> unix_of zero_time \<le> rl_At r \<and> pendingWhere (fd_ledger f') r) (lg_relays (fd_ledger f')) = []"
    unfolding filter_empty_conv
    using pending_after [OF _ _ f'(3)] PendingRelays_mem [OF pend] by fastforce
  then have "PendingRelays None name zero_time (fd_ledger f') = Inr []" by (simp add: PendingRelays_def)
  moreover have "sorted (map rl_ID rs)" using pend by (auto simp: PendingRelays_def)
  ultimately show ?thesis using f'(2) r by simp
qed

theorem resend_delivers_all_witness:
  "fd_tries (resend demo_fleet hearing False ''b'' (noon + hour) (fst (demo_ends deaf))) =
     fd_tries (fst (demo_ends deaf)) @ map (sent_try hearing ''b'') (projr (PendingRelays None ''b'' zero_time (fd_ledger (fst (demo_ends deaf))))) \<and>
   length (projr (PendingRelays None ''b'' zero_time (fd_ledger (fst (demo_ends deaf))))) = 1"
proof -
  let ?f = "fst (demo_ends deaf)"
  have t: "takes_all hearing" by (simp add: takes_all_def hearing_def deaf_def)
  have d: "resendMax \<le> time_sub (noon + hour) (fd_resendFailed ?f ''b'')" by code_simp
  have l: "length (projr (PendingRelays None ''b'' zero_time (fd_ledger ?f))) = 1" by code_simp
  have "PendingRelays None ''b'' zero_time (fd_ledger ?f) = Inr (projr (PendingRelays None ''b'' zero_time (fd_ledger ?f)))"
    by (simp add: PendingRelays_def)
  from resend_delivers_all [OF t d this] l show ?thesis by simp
qed

end
