(* ===== verification/Fleet_Books.thy ===== *)
theory Fleet_Books
  imports Fleet_Resend
begin

text \<open>
  The rest of fleetd's books: which tasks are open and whose they are, the grants that end with a task, the
  events that become counts, and the messages a waiting session has been handed.
\<close>

section \<open>Sends leave the tasks alone\<close>

definition same_tasks :: "fleet \<Rightarrow> fleet \<Rightarrow> bool" where
  "same_tasks f f' \<longleftrightarrow> lg_tasks (fd_ledger f') = lg_tasks (fd_ledger f)"

lemma same_tasks_refl [simp, intro]: "same_tasks f f"
  by (simp add: same_tasks_def)

lemma same_tasks_trans: "same_tasks f g \<Longrightarrow> same_tasks g h \<Longrightarrow> same_tasks f h"
  by (simp add: same_tasks_def)

lemma relay_steps_tasks [simp]:
  "lg_tasks (snd (EndRelay err i x g)) = lg_tasks g" "lg_tasks (snd (HoldRelay err i g)) = lg_tasks g"
  "lg_tasks (snd (StampDelivered err i now g)) = lg_tasks g" "lg_tasks (snd (MarkEscalated err i now g)) = lg_tasks g"
  "lg_tasks (snd (MarkAlerted err i now g)) = lg_tasks g" "lg_tasks (snd (AlertedRelay err i g)) = lg_tasks g"
  "lg_tasks (snd (InterruptRelays err g)) = lg_tasks g" "lg_tasks (snd (SetCursor err t reader i g)) = lg_tasks g"
  "lg_tasks (snd (AddRelay err m g)) = lg_tasks g" "lg_tasks (snd (BeginRelay err m g)) = lg_tasks g"
  by (simp_all add: EndRelay_def HoldRelay_def StampDelivered_def MarkEscalated_def MarkAlerted_def AlertedRelay_def InterruptRelays_def
      SetCursor_def ran_snd AddRelay_def BeginRelay_def addRelay_def split: option.split)

lemma got_through_tasks [simp]: "lg_tasks (got_through w i now g) = lg_tasks g"
  unfolding got_through_def
  by (cases "EndRelay (fw_end w i) i None g")
    (use relay_steps_tasks(1) [of "fw_end w i" i None g] in \<open>auto split: option.split\<close>)

lemma flush_each_tasks: "same_tasks f (snd (flush_each c w name now rs f))"
proof (induction rs arbitrary: f)
  case (Cons r rs)
  obtain err f1 where t: "try_once w name (rl_From r) (noted_text w r) f = (err, f1)" by fastforce
  then have "fd_ledger f1 = fd_ledger f" using try_once_tries by fastforce
  then show ?case using t Cons.IH by (auto simp: Let_def same_tasks_def)
qed simp

lemma flush_tasks: "same_tasks f (snd (flush c w name now f))"
  by (simp add: flush_def flush_each_tasks split: sum.split)

lemma relay_tasks: "relay w to from text f = (e, f') \<Longrightarrow> same_tasks f f'"
  by (erule relay_fleet) (simp add: same_tasks_def)

lemma with_ledger_tasks: "lg_tasks g = lg_tasks (fd_ledger f) \<Longrightarrow> same_tasks f (with_ledger g f)"
  by (simp add: same_tasks_def)

lemma deliver_begin_tasks: "deliver_begin c w from to text task kind now f = (b, f') \<Longrightarrow> same_tasks f f'"
  by (erule deliver_begin_cases)
    (auto simp: same_tasks_def dest!: arg_cong [where f = "\<lambda>x. lg_tasks (snd x)"])

lemma deliver_rest_tasks: "same_tasks f (snd (deliver_rest c w from to text now hold begun f))"
proof -
  have t: "same_tasks f f1" if "(case unable c to f of Some e \<Rightarrow> (Some e, f)
      | None \<Rightarrow> (case flush c w to now f of (Some e, f') \<Rightarrow> (Some e, f') | (None, f') \<Rightarrow> relay w to from text f')) = (err, f1)" for err f1
  proof (cases "unable c to f")
    case None
    obtain e2 f2 where fl: "flush c w to now f = (e2, f2)" by fastforce
    then have "same_tasks f f2" using flush_tasks by (metis snd_conv)
    with that fl None relay_tasks show ?thesis by (cases e2) (auto intro: same_tasks_trans)
  qed (use that in auto)
  have h: "same_tasks f (snd (case HoldRelay x i (fd_ledger f1) of (Some _, g) \<Rightarrow> (Some (SendFail e), with_ledger g f1) | (None, g) \<Rightarrow> (Some (SendHeld to e), with_ledger g f1)))"
    if "same_tasks f f1" for x i f1 e
    using that relay_steps_tasks(2) [of x i "fd_ledger f1"] by (cases "HoldRelay x i (fd_ledger f1)") (auto simp: same_tasks_def split: option.split)
  show ?thesis
  proof (cases begun)
    case (Inl e)
    obtain err f1 where "relay w to from text f = (err, f1)" by fastforce
    with Inl relay_tasks show ?thesis by (auto simp: deliver_rest_def)
  next
    case (Inr i)
    show ?thesis
    proof (cases hold)
      case True
      obtain err f1 where e: "(case unable c to f of Some e \<Rightarrow> (Some e, f)
        | None \<Rightarrow> (case flush c w to now f of (Some e, f') \<Rightarrow> (Some e, f') | (None, f') \<Rightarrow> relay w to from text f')) = (err, f1)" by fastforce
      show ?thesis unfolding deliver_rest_def Inr sum.case using True e h [OF t [OF e]] t [OF e]
        by (cases err) (simp_all add: same_tasks_def)
    next
      case False
      obtain err f1 where "relay w to from text f = (err, f1)" by fastforce
      with Inr False relay_tasks show ?thesis by (auto simp: deliver_rest_def same_tasks_def)
    qed
  qed
qed

lemma deliverMsg_tasks: "same_tasks f (snd (deliverMsg c w from to text task kind now hold f))"
proof -
  obtain b f1 where b: "deliver_begin c w from to text task kind now f = (b, f1)" by fastforce
  then show ?thesis
    using deliver_begin_tasks [OF b] same_tasks_trans [OF deliver_begin_tasks [OF b] deliver_rest_tasks]
    by (cases b) (auto simp: deliverMsg_def)
qed

lemma send_tasks: "same_tasks f (snd (send c w from to text task now f))"
  by (simp add: send_def deliverMsg_tasks)

lemma same_tasks_cong: "same_tasks f g \<Longrightarrow> lg_tasks (fd_ledger g') = lg_tasks (fd_ledger g) \<Longrightarrow> same_tasks f g'"
  by (simp add: same_tasks_def)

lemma same_tasks_fold: "(\<And>x g. same_tasks g (h x g)) \<Longrightarrow> same_tasks f (fold h xs f)"
  by (induction xs arbitrary: f) (auto intro: same_tasks_trans)

lemma marks_tasks:
  "same_tasks f (with_ledger (snd (MarkEscalated err i now (fd_ledger f))) f)"
  "same_tasks f (with_ledger (snd (MarkAlerted err i now (fd_ledger f))) (alert n t f))"
  "same_tasks f (with_ledger (snd (AlertedRelay err i (fd_ledger f))) (alert n t f))"
  by (simp_all add: same_tasks_def)

lemma deliverMsg_tasks': "deliverMsg c w from to text task kind now hold f = (e, f') \<Longrightarrow> same_tasks f f'"
  using deliverMsg_tasks by (metis snd_conv)

lemma Enable_tasks: "same_tasks f (snd (Enable c name f))"
proof -
  have "same_tasks f (fold enable (name # fc_siblings c name) f)"
    by (rule same_tasks_fold) (simp add: enable_def Let_def same_tasks_def)
  then show ?thesis by (simp add: Enable_def)
qed

lemma answerBlocked_tasks: "same_tasks f (snd (answerBlocked w task from agent text now f))"
  by (auto simp: answerBlocked_def same_tasks_def split: option.split prod.split)

lemma Followup_tasks: "same_tasks f (snd (Followup c w task from text now f))"
proof -
  have "same_tasks f (snd (case answerBlocked w task from a text now f of (True, f1) \<Rightarrow> (None, f1) | (False, f1) \<Rightarrow> send c w from b x task now f1))"
    for a b x
    using answerBlocked_tasks [of f w task "from" a "text" now] same_tasks_trans [OF _ send_tasks]
    by (cases "answerBlocked w task from a text now f") (auto split: bool.splits)
  then show ?thesis unfolding Followup_def by (simp split: sum.splits)
qed

lemma Answer_tasks: "same_tasks f (snd (Answer c w task from text now f))"
proof (cases "openTask w task f")
  case (Inr t)
  obtain d f1 where a: "answerBlocked w task from (ta_Agent t) text now f = (d, f1)" by fastforce
  have ka: "same_tasks f f1" using answerBlocked_tasks a by (metis snd_conv)
  have kf: "same_tasks f (snd (Followup c w task from text now f1))" by (rule same_tasks_trans [OF ka Followup_tasks])
  from Inr a ka kf show ?thesis by (auto simp: Answer_def split: bool.splits prod.splits)
qed (simp add: Answer_def)

lemma ask_begin_tasks: "same_tasks f (snd (ask_begin c w from text now f))"
proof -
  have k: "same_tasks f f1" if "deliverMsg c w from to t1 task KindQuestion now True (f\<lparr>fd_asks := x\<rparr>) = (e, f1)" for to t1 task x e f1
    using deliverMsg_tasks' [OF that] by (simp add: same_tasks_def)
  have k': "same_tasks f (f1\<lparr>fd_asks := y\<rparr>)" if "deliverMsg c w from to t1 task KindQuestion now True (f\<lparr>fd_asks := x\<rparr>) = (e, f1)" for to t1 task x y e f1
    by (rule same_tasks_cong [OF k [OF that]]) simp
  show ?thesis unfolding ask_begin_def Let_def
    by (auto split: sum.splits prod.splits option.splits send_error.splits intro: k k')
qed

lemma mark_thread_tasks: "lg_tasks (mark_thread w q now g) = lg_tasks g"
proof -
  have "lg_tasks (fold (\<lambda>m g. if qu_ID q \<le> rl_ID m \<and> rl_Kind m = KindQuestion then snd (MarkEscalated (fw_write w) (rl_ID m) now g) else g) th g) = lg_tasks g" for th
    by (rule fold_keeps) simp
  then show ?thesis by (cases "TaskThread (fw_read w) (qu_Task q) g") (auto simp: mark_thread_def)
qed

lemma escalate_tasks: "same_tasks f (escalate c w grace now f)"
proof -
  have r: "same_tasks g (retell c w q grace now g)" for q g
    unfolding retell_def
    by (auto split: prod.splits intro: deliverMsg_tasks' same_tasks_trans [OF deliverMsg_tasks'] simp: mark_thread_tasks with_ledger_tasks)
  have "same_tasks g (escalate_one c w grace now q g)" for q g
    unfolding escalate_one_def Let_def
    by (auto split: prod.splits intro: r deliverMsg_tasks' same_tasks_trans [OF deliverMsg_tasks' marks_tasks(1)] marks_tasks)
  then show ?thesis unfolding escalate_def by (auto split: sum.splits intro: same_tasks_fold)
qed

lemma wait_look_tasks: "same_tasks f (snd (wait_look w agent task reader now after f))"
proof -
  have k: "same_tasks f (with_ledger g f)" if "SetCursor err t r i (fd_ledger f) = (e, g)" for err t r i e g
    using relay_steps_tasks(8) [of err t r i "fd_ledger f"] that by (simp add: same_tasks_def)
  show ?thesis unfolding wait_look_def Let_def by (auto split: sum.splits option.splits prod.splits intro: k)
qed

lemma deliverOutbox_tasks: "same_tasks f (snd (deliverOutbox c w name msgs now f))"
proof -
  have one: "same_tasks f (snd (outbox_one c w name now m (left, f)))" for m left f
  proof -
    define sent where "sent = (if ob_At m = zero_time \<or> now < ob_At m then now else ob_At m)"
    obtain e f1 where d: "deliverMsg c w name (ob_To m) (ob_Text m) '''' (ob_Kind m) sent True f = (e, f1)" by fastforce
    have k: "same_tasks f (f1\<lparr>fd_outboxAlerted := x\<rparr>)" "same_tasks f (alert n t (f1\<lparr>fd_outboxAlerted := x\<rparr>))" for x n t
      by (rule same_tasks_cong [OF deliverMsg_tasks' [OF d]]; simp)+
    show ?thesis
      unfolding outbox_one_def prod.case sent_def [symmetric] Let_def d snd_conv
      using k deliverMsg_tasks' [OF d] by (auto split: option.splits send_error.splits)
  qed
  have "same_tasks (snd acc) (snd (fold (outbox_one c w name now) msgs acc))" for acc
  proof (induction msgs arbitrary: acc)
    case (Cons m msgs)
    have "same_tasks (snd acc) (snd (outbox_one c w name now m acc))" using one by (metis prod.collapse)
    from same_tasks_trans [OF this Cons] show ?case by simp
  qed simp
  from this [of "([], f)"] show ?thesis by (simp add: deliverOutbox_def)
qed

lemma alertHeld_tasks: "same_tasks f (alertHeld c w now f)"
proof -
  have "same_tasks g (alert_one w now r g)" for r g
    unfolding alert_one_def Let_def alert_keeps by (simp add: same_tasks_def)
  then show ?thesis unfolding alertHeld_def by (auto split: sum.splits intro: same_tasks_fold)
qed

lemma resend_tasks: "same_tasks f (resend c w busy name now f)"
  by (simp add: resend_def flush_tasks)

lemma retain_tasks: "same_tasks f (retain c w now f)"
  using retain_ledger [of c w now f] by (auto simp: same_tasks_def)

lemma New_tasks: "New c err saved blank f = (None, f') \<Longrightarrow> same_tasks f f'"
  using relay_steps_tasks(7) [of err "fd_ledger f"] unfolding New_def
  by (cases "InterruptRelays err (fd_ledger f)") (auto simp: same_tasks_def split: option.splits)

lemma set_state_tasks: "same_tasks f (set_state st f)"
  by (simp add: same_tasks_def)

lemma ask_end_tasks: "same_tasks f (snd (ask_end task f))"
  by (simp add: ask_end_def same_tasks_def)

section \<open>Open tasks\<close>

interpretation tasks_open: keyed_table tk_ID merge_open
  by unfold_locales (simp add: merge_open_def)

interpretation tasks_close: keyed_table tk_ID merge_close
  by unfold_locales (simp add: merge_close_def)

definition open_as :: "TaskRow list \<Rightarrow> (string \<times> string option) set" where
  "open_as ts = (\<lambda>r. (tk_ID r, tk_Agent r)) ` {r \<in> set ts. tk_Closed r = None \<and> tk_Agent r \<noteq> None}"

definition tasks_ok :: "TaskRow list \<Rightarrow> bool" where
  "tasks_ok ts \<longleftrightarrow> distinct (map tk_ID ts) \<and> inj_on snd (open_as ts)"

lemma tasks_ok_less: "tasks_ok ts \<Longrightarrow> distinct (map tk_ID ts') \<Longrightarrow> open_as ts' \<subseteq> open_as ts \<Longrightarrow> tasks_ok ts'"
  unfolding tasks_ok_def using inj_on_subset by blast

lemma update_less:
  assumes "\<And>r. tk_ID (u r) = tk_ID r" and "\<And>r. tk_Closed (u r) = None \<Longrightarrow> tk_Closed r = None \<and> tk_Agent (u r) = tk_Agent r"
    and "tasks_ok ts"
  shows "tasks_ok (update_where p u ts)"
proof (rule tasks_ok_less [OF assms(3)])
  show "distinct (map tk_ID (update_where p u ts))" using assms(1,3) by (simp add: tasks_ok_def)
  show "open_as (update_where p u ts) \<subseteq> open_as ts"
  proof
    fix x assume "x \<in> open_as (update_where p u ts)"
    then obtain r where "r \<in> set ts" and x: "x = (tk_ID (if p r then u r else r), tk_Agent (if p r then u r else r))"
        "tk_Closed (if p r then u r else r) = None" "tk_Agent (if p r then u r else r) \<noteq> None"
      by (auto simp: open_as_def update_where_def)
    with assms(1,2) show "x \<in> open_as ts" by (auto simp: open_as_def split: if_splits)
  qed
qed

lemma endTaskGrants_tasks: "lg_tasks (snd (endTaskGrants derr ids g)) = lg_tasks g"
  by (induction derr ids g rule: endTaskGrants.induct) (auto split: option.split)

lemma supersede_each_ok: "tasks_ok (lg_tasks g) \<Longrightarrow> tasks_ok (lg_tasks (snd (supersede_each uerr now ids g)))"
proof (induction uerr now ids g rule: supersede_each.induct)
  case (2 uerr now i ids g)
  have "tasks_ok (update_where (\<lambda>r. tk_ID r = i \<and> tk_Closed r = None) (superseded_row now) (lg_tasks g))"
    by (rule update_less [OF _ _ 2(2)]) (auto simp: superseded_row_def)
  with 2 show ?case by (auto split: option.split)
qed simp

text \<open>When it succeeds, no row of the agent but the excepted one is open.\<close>

lemma supersede_each_closes:
  "supersede_each uerr now ids g = (None, g') \<Longrightarrow> r \<in> set (lg_tasks g') \<Longrightarrow> tk_Closed r = None \<Longrightarrow> r \<in> set (lg_tasks g) \<and> tk_ID r \<notin> set ids"
proof (induction uerr now ids g rule: supersede_each.induct)
  case (2 uerr now i ids g)
  let ?g = "g\<lparr>lg_tasks := update_where (\<lambda>r. tk_ID r = i \<and> tk_Closed r = None) (superseded_row now) (lg_tasks g)\<rparr>"
  from 2(2) have u: "uerr i = None" "supersede_each uerr now ids ?g = (None, g')" by (auto split: option.splits)
  from 2(1) [OF u 2(3,4)] have "r \<in> set (lg_tasks ?g)" "tk_ID r \<notin> set ids" by auto
  with 2(4) show ?case by (auto simp: update_where_def superseded_row_def split: if_splits)
qed simp

lemma SupersedeOpen_ok:
  assumes "tasks_ok (lg_tasks g)" and "SupersedeOpen qerr uerr derr agent except now g = ((ids, e), g')"
  shows "tasks_ok (lg_tasks g')"
    "e = None \<Longrightarrow> r \<in> set (lg_tasks g') \<Longrightarrow> tk_Closed r = None \<Longrightarrow> tk_Agent r = Some agent \<Longrightarrow> tk_ID r = except"
proof -
  obtain e1 g1 where s: "supersede_each uerr now (open_of agent except g) g = (e1, g1)" by fastforce
  obtain e2 g2 where t: "endTaskGrants derr (open_of agent except g) g1 = (e2, g2)" by fastforce
  have g2: "lg_tasks g2 = lg_tasks g1" using endTaskGrants_tasks t by (metis snd_conv)
  have g1: "tasks_ok (lg_tasks g1)" using supersede_each_ok [OF assms(1)] s by (metis snd_conv)
  show "tasks_ok (lg_tasks g')" using assms g1 g2 s t by (auto simp: SupersedeOpen_def Let_def split: option.splits)
  assume "e = None" and r: "r \<in> set (lg_tasks g')" "tk_Closed r = None" "tk_Agent r = Some agent"
  then have "e1 = None" "g' = g2" using assms(2) s t by (auto simp: SupersedeOpen_def Let_def split: option.splits)
  with supersede_each_closes [of uerr now "open_of agent except g" g g1 r] s r g2
  have "r \<in> set (lg_tasks g)" "tk_ID r \<notin> set (open_of agent except g)" by auto
  with r show "tk_ID r = except" by (auto simp: open_of_def)
qed

lemma OpenTask_ok:
  assumes ok: "tasks_ok (lg_tasks g)"
    and none: "\<And>r. r \<in> set (lg_tasks g) \<Longrightarrow> tk_Closed r = None \<Longrightarrow> tk_Agent r = Some agent \<Longrightarrow> tk_ID r = i"
  shows "tasks_ok (lg_tasks (snd (OpenTask err i agent from now g)))"
proof (cases err)
  case None
  let ?x = "(no_task i)\<lparr>tk_Agent := Some agent, tk_Assigned := Some (unix_of now), tk_Assigner := nullStr from\<rparr>"
  let ?ts = "upsert tk_ID merge_open ?x (lg_tasks g)"
  have id: "tk_ID ?x = i" by (simp add: no_task_def)
  have d: "distinct (map tk_ID ?ts)" using ok by (auto simp: tasks_ok_def intro: tasks_open.distinct_upsert)
  have "open_as ?ts \<subseteq> insert (i, Some agent) {y \<in> open_as (lg_tasks g). snd y \<noteq> Some agent}"
  proof
    fix y assume "y \<in> open_as ?ts"
    then obtain r where r: "r \<in> set ?ts" "tk_Closed r = None" "tk_Agent r \<noteq> None" "y = (tk_ID r, tk_Agent r)" by (auto simp: open_as_def)
    from tasks_open.mem_upsertD [OF r(1)] show "y \<in> insert (i, Some agent) {y \<in> open_as (lg_tasks g). snd y \<noteq> Some agent}"
    proof (elim disjE bexE conjE)
      assume "r \<in> set (lg_tasks g)"
      then show ?thesis using r none [of r] by (auto simp: open_as_def)
    qed (use r id in \<open>auto simp: merge_open_def no_task_def\<close>)
  qed
  moreover have "inj_on snd (insert (i, Some agent) {y \<in> open_as (lg_tasks g). snd y \<noteq> Some agent})"
    using ok by (auto simp: tasks_ok_def inj_on_def)
  ultimately have "inj_on snd (open_as ?ts)" by (rule inj_on_subset [rotated])
  with d None show ?thesis by (simp add: OpenTask_def ran_snd tasks_ok_def)
qed (use ok in \<open>simp add: OpenTask_def ran_snd\<close>)

lemma CloseTask_ok:
  assumes ok: "tasks_ok (lg_tasks g)"
  shows "tasks_ok (lg_tasks (snd (CloseTask err derr i now res branch pr g)))"
proof (cases err)
  case None
  let ?x = "(no_task i)\<lparr>tk_Closed := Some (unix_of now), tk_Outcome := Some res, tk_Branch := nullStr branch, tk_PR := nullStr pr\<rparr>"
  have "tasks_ok (upsert tk_ID merge_close ?x (lg_tasks g))"
  proof (rule tasks_ok_less [OF ok])
    show "distinct (map tk_ID (upsert tk_ID merge_close ?x (lg_tasks g)))"
      using ok by (auto simp: tasks_ok_def intro: tasks_close.distinct_upsert)
    show "open_as (upsert tk_ID merge_close ?x (lg_tasks g)) \<subseteq> open_as (lg_tasks g)"
      by (auto simp: open_as_def dest!: tasks_close.mem_upsertD simp: merge_close_def)
  qed
  with None show ?thesis by (simp add: CloseTask_def endTaskGrants_tasks del: endTaskGrants.simps)
qed (use ok in \<open>simp add: CloseTask_def\<close>)

lemma assign_ok: "tasks_ok (lg_tasks (fd_ledger f)) \<Longrightarrow> tasks_ok (lg_tasks (fd_ledger (snd (assign w name task from now f))))"
proof -
  assume ok: "tasks_ok (lg_tasks (fd_ledger f))"
  let ?f1 = "set_state (assigned_state task now (fd_states f name)) f"
  obtain ids err g1 where s: "SupersedeOpen (fw_read w) (fw_each w) (fw_each w) name task now (fd_ledger f) = ((ids, err), g1)"
    by (metis prod.collapse)
  obtain e g2 where t: "OpenTask (fw_write w) task name from now g1 = (e, g2)" by fastforce
  have g1: "tasks_ok (lg_tasks g1)" using SupersedeOpen_ok(1) [OF ok s] .
  have g2: "tasks_ok (lg_tasks g2)" if none: "err = None"
  proof -
    have "tasks_ok (lg_tasks (snd (OpenTask (fw_write w) task name from now g1)))"
      by (rule OpenTask_ok [OF g1]) (rule SupersedeOpen_ok(2) [OF ok s none])
    with t show ?thesis by simp
  qed
  show ?thesis using s t ok g1 g2 by (auto simp: assign_def Let_def split: if_splits option.splits)
qed

lemma Assign_ok: "tasks_ok (lg_tasks (fd_ledger f)) \<Longrightarrow> tasks_ok (lg_tasks (fd_ledger (snd (Assign c w name task from brief now f))))"
proof -
  assume ok: "tasks_ok (lg_tasks (fd_ledger f))"
  obtain ea f2 where a: "assign w name task from now f = (ea, f2)" by fastforce
  have f2: "tasks_ok (lg_tasks (fd_ledger f2))" using assign_ok [OF ok, of w name task "from" now] a by simp
  obtain e3 g3 where st: "SetTaskAdminWork (fw_write w) task (adminWork c name from) (fd_ledger f2) = (e3, g3)" by fastforce
  have g3: "tasks_ok (lg_tasks g3)"
  proof (cases "fw_write w")
    case None
    have "tasks_ok (update_where (\<lambda>r. tk_ID r = task) (\<lambda>r. r\<lparr>tk_AdminWork := Some (adminWork c name from)\<rparr>) (lg_tasks (fd_ledger f2)))"
      by (rule update_less [OF _ _ f2]) auto
    with st None show ?thesis by (auto simp: SetTaskAdminWork_def set_task_def ran_def)
  qed (use st f2 in \<open>auto simp: SetTaskAdminWork_def set_task_def ran_def\<close>)
  have "lg_tasks (fd_ledger (snd (send c w from name brief task now (with_ledger g3 f2)))) = lg_tasks g3"
    using send_tasks [of "with_ledger g3 f2" c w "from" name brief task now] by (simp add: same_tasks_def)
  with a st f2 g3 ok show ?thesis by (auto simp: Assign_def split: option.splits)
qed

lemma close_row_ok: "tasks_ok (lg_tasks (fd_ledger f)) \<Longrightarrow> tasks_ok (lg_tasks (fd_ledger (snd (close_row w task now result branch pr f))))"
  unfolding close_row_def by (simp add: split_def Let_def CloseTask_ok)

lemma Done_ok: "tasks_ok (lg_tasks (fd_ledger f)) \<Longrightarrow> tasks_ok (lg_tasks (fd_ledger (snd (Done c w name task result branch pr now f))))"
  by (cases "owner_or w name task f") (simp_all add: Done_def Let_def close_row_ok)

lemma Close_ok: "tasks_ok (lg_tasks (fd_ledger f)) \<Longrightarrow> tasks_ok (lg_tasks (fd_ledger (snd (Close c w name task result branch pr now f))))"
  by (cases "owner_or w name task f") (simp_all add: Close_def Let_def close_row_ok)

lemma Cancel_ok:
  assumes ok: "tasks_ok (lg_tasks (fd_ledger f))"
  shows "tasks_ok (lg_tasks (fd_ledger (snd (Cancel c w task from reason now f))))"
proof (cases "openTask w task f")
  case (Inr t)
  let ?S = "send c w from (ta_Agent t) (cancel_notice task from reason) task now f"
  have "tasks_ok (lg_tasks (fd_ledger (snd ?S)))" using ok send_tasks by (simp add: same_tasks_def)
  then have "tasks_ok (lg_tasks (fd_ledger (snd (Close c w (ta_Agent t) task ''cancelled'' '''' '''' now (snd ?S)))))" by (rule Close_ok)
  then show ?thesis by (auto simp: Cancel_def Inr Let_def split: prod.splits)
qed (use ok in \<open>simp add: Cancel_def\<close>)

lemma set_task_ok:
  assumes "tasks_ok (lg_tasks g)" and "\<And>r. tk_ID (u r) = tk_ID r \<and> tk_Closed (u r) = tk_Closed r \<and> tk_Agent (u r) = tk_Agent r"
  shows "tasks_ok (lg_tasks (snd (set_task u err i g)))"
proof (cases err)
  case None
  have "tasks_ok (update_where (\<lambda>r. tk_ID r = i) u (lg_tasks g))"
    by (rule update_less [OF _ _ assms(1)]) (use assms(2) in auto)
  with None show ?thesis by (simp add: set_task_def ran_def)
qed (use assms(1) in \<open>simp add: set_task_def ran_def\<close>)

lemma task_facts_ok:
  assumes "task_facts C w q task agent g = (e, g')" and ok: "tasks_ok (lg_tasks g)"
  shows "tasks_ok (lg_tasks g')"
proof -
  obtain e1 g1 where a: "SetTaskAdminWork (fw_write w) task (rq_AdminWork q \<and> adminWork (fleet_of C) agent (rq_From q)) g = (e1, g1)" by fastforce
  obtain e2 g2 where b: "SetTaskRepo (fw_write w) task (rq_Repo q) g1 = (e2, g2)" by fastforce
  obtain e3 g3 where m: "SetTaskModel (fw_write w) task (rq_Model q) g2 = (e3, g3)" by fastforce
  have s1: "tasks_ok (lg_tasks g1)" using set_task_ok [OF ok] a unfolding SetTaskAdminWork_def by (metis (no_types, lifting) TaskRow.select_convs TaskRow.surjective TaskRow.update_convs snd_conv)
  have s2: "tasks_ok (lg_tasks g2)" using set_task_ok [OF s1] b unfolding SetTaskRepo_def by (metis (no_types, lifting) TaskRow.select_convs TaskRow.surjective TaskRow.update_convs snd_conv)
  have s3: "tasks_ok (lg_tasks g3)" using set_task_ok [OF s2] m unfolding SetTaskModel_def by (metis (no_types, lifting) TaskRow.select_convs TaskRow.surjective TaskRow.update_convs snd_conv)
  from assms a b m s1 s2 s3 show ?thesis by (auto simp: task_facts_def split: option.splits)
qed

lemma place_ok: "tasks_ok (lg_tasks (fd_ledger f)) \<Longrightarrow> tasks_ok (lg_tasks (fd_ledger (snd (place C rw q now f))))"
proof -
  assume ok: "tasks_ok (lg_tasks (fd_ledger f))"
  have p: "tasks_ok (lg_tasks (fd_ledger f1))" if "assign w name task from now f = (e, f1)" for w name task "from" e f1
    using assign_ok [OF ok, of w name task "from" now] that by simp
  have q: "tasks_ok (lg_tasks g)"
    if "assign w name task from now f = (e, f1)" "task_facts C w2 q task2 name2 (fd_ledger f1) = (e2, g)" for w w2 name name2 task task2 "from" e e2 f1 g
    by (rule task_facts_ok [OF that(2) p [OF that(1)]])
  show ?thesis using ok by (auto simp: place_def Let_def split: option.splits sum.splits prod.splits intro: p q)
qed

lemma deliver_run_ok: "tasks_ok (lg_tasks (fd_ledger f)) \<Longrightarrow> tasks_ok (lg_tasks (fd_ledger (snd (deliver_run C rw q r now f))))"
proof -
  assume ok: "tasks_ok (lg_tasks (fd_ledger f))"
  let ?f1 = "if rq_Model q \<noteq> '''' then setModelNow C (rw_fleet rw) (rw_pane rw) (rr_Agent r) now f else f"
  have l: "fd_ledger ?f1 = fd_ledger f" using setModelNow_keeps by auto
  obtain e f2 where d: "tell (fleet_of C) (rw_fleet rw) (rq_From q) (rr_Agent r) (run_text q (rr_Task r)) (rr_Task r) now ?f1 = (e, f2)" by fastforce
  have t: "tasks_ok (lg_tasks (fd_ledger f2))"
    using deliverMsg_tasks' [OF d [unfolded tell_def]] ok l by (simp add: same_tasks_def)
  have "tasks_ok (lg_tasks (fd_ledger (snd (Close (fleet_of C) (rw_fleet rw) (rr_Agent r) (rr_Task r) ''undelivered'' '''' '''' now f2))))"
    by (rule Close_ok [OF t])
  with t d show ?thesis by (cases e) (simp_all add: deliver_run_def)
qed

lemma step_tasks_ok:
  assumes "fleet_step c s s'" and "tasks_ok (lg_tasks (fd_ledger (fst s)))"
  shows "tasks_ok (lg_tasks (fd_ledger (fst s')))"
proof -
  have same: "tasks_ok (lg_tasks (fd_ledger f'))" if "same_tasks f f'" "tasks_ok (lg_tasks (fd_ledger f))" for f f'
    using that by (simp add: same_tasks_def)
  show ?thesis using assms
  proof (induction rule: fleet_step.induct)
    case (refused_or_filed w "from" to "text" task kind now f e f' fl)
    then show ?case using same [OF deliver_begin_tasks [OF refused_or_filed(1)]] by simp
  next
    case (begun w "from" to "text" task kind now f b f' fl hold)
    then show ?case using same [OF deliver_begin_tasks [OF begun(1)]] by simp
  next
    case (ended w s f e f' fl1 fl2)
    then show ?case using same [OF deliver_rest_tasks, of f c w "sn_From s" "sn_To s" "sn_Text s" "sn_At s" "sn_Hold s" "sn_Begun s"] by simp
  next
    case (restarted err saved blank f f' fl)
    then show ?case using same [OF New_tasks [OF restarted(1)]] by simp
  next
    case (rotated f fl err derr task now reason)
    then show ?case using CloseTask_ok by simp
  next
    case (elsewhere f f' fl)
    then show ?case by (simp add: same_books_def)
  qed (unfold fst_conv, (erule Assign_ok Done_ok Close_ok Cancel_ok place_ok deliver_run_ok | (erule same [rotated],
      rule Enable_tasks Followup_tasks Answer_tasks ask_begin_tasks ask_end_tasks escalate_tasks wait_look_tasks
        deliverOutbox_tasks alertHeld_tasks resend_tasks retain_tasks set_state_tasks))+)
qed

text \<open>
  C29. A task has one row, and an agent one open task at most, in every state fleetd reaches: by assignments and runs, closes, cancels and rotations,
  messages, questions, ticks, retention and restarts, with any answer of the ledger's driver to each of their statements.\<close>

theorem one_open_task:
  assumes "fleet_reach c blank s" and "r \<in> set (lg_tasks (fd_ledger (fst s)))" and "r' \<in> set (lg_tasks (fd_ledger (fst s)))"
    and "tk_ID r = tk_ID r' \<or> tk_Closed r = None \<and> tk_Closed r' = None \<and> tk_Agent r = Some a \<and> tk_Agent r' = Some a"
  shows "r = r' \<and> distinct (map tk_ID (lg_tasks (fd_ledger (fst s))))"
proof -
  have "tasks_ok (lg_tasks (fd_ledger (fst s)))" using assms(1)
  proof (induction rule: fleet_reach.induct)
    case first
    show ?case by (simp add: first_fleet_def empty_ledger_def tasks_ok_def open_as_def)
  qed (rule step_tasks_ok)
  then have d: "distinct (map tk_ID (lg_tasks (fd_ledger (fst s))))" and i: "inj_on snd (open_as (lg_tasks (fd_ledger (fst s))))"
    by (simp_all add: tasks_ok_def)
  have same: "tk_ID r = tk_ID r'"
  proof (rule ccontr)
    assume n: "tk_ID r \<noteq> tk_ID r'"
    with assms(4) have o: "tk_Closed r = None" "tk_Closed r' = None" "tk_Agent r = Some a" "tk_Agent r' = Some a" by auto
    then have "(tk_ID r, tk_Agent r) \<in> open_as (lg_tasks (fd_ledger (fst s)))" "(tk_ID r', tk_Agent r') \<in> open_as (lg_tasks (fd_ledger (fst s)))"
      using assms(2,3) by (auto simp: open_as_def)
    from inj_onD [OF i _ this] o n show False by simp
  qed
  with d assms(2,3) show ?thesis by (auto simp: distinct_map dest: inj_onD)
qed

definition demo_tasks :: fleetd where
  "demo_tasks = (snd (Assign demo_fleet hearing ''a'' ''T2'' ''operator'' '''' noon
     (snd (Assign demo_fleet hearing ''a'' ''T1'' ''operator'' '''' noon (fst demo0)))), [])"

theorem one_open_task_witness:
  "last (lg_tasks (fd_ledger (fst demo_tasks))) = hd (filter (\<lambda>r. tk_Closed r = None) (lg_tasks (fd_ledger (fst demo_tasks)))) \<and>
   length (lg_tasks (fd_ledger (fst demo_tasks))) = 2"
proof -
  let ?s1 = "(snd (Assign demo_fleet hearing ''a'' ''T1'' ''operator'' '''' noon (fst demo0)), []) :: fleetd"
  have "fleet_reach demo_fleet (fresh_state '''') (fst demo0, [])" by (simp add: demo0_def fleet_reach.first)
  then have "fleet_reach demo_fleet (fresh_state '''') ?s1" by (rule fleet_reach.more) (rule fleet_step.assigned)
  then have r: "fleet_reach demo_fleet (fresh_state '''') demo_tasks"
    unfolding demo_tasks_def by (rule fleet_reach.more) (rule fleet_step.assigned)
  let ?ts = "lg_tasks (fd_ledger (fst demo_tasks))"
  have l: "length ?ts = 2" by code_simp
  then have m: "last ?ts \<in> set ?ts" by (metis last_in_set length_0_conv zero_neq_numeral)
  have "filter (\<lambda>r. tk_Closed r = None) ?ts \<noteq> []" by code_simp
  then have h: "hd (filter (\<lambda>r. tk_Closed r = None) ?ts) \<in> set ?ts" using filter_is_subset hd_in_set by (metis (no_types, lifting) subsetD)
  have "last ?ts = hd (filter (\<lambda>r. tk_Closed r = None) ?ts)"
    by (rule one_open_task [OF r m h, THEN conjunct1]) code_simp
  with l show ?thesis by simp
qed

section \<open>Grants end with their task\<close>

lemma CloseTask_grants:
  "CloseTask err derr i now res branch pr g = (None, g') \<Longrightarrow> lg_grants g' = delete_where (\<lambda>x. sg_Task x = i \<and> sg_Task x \<noteq> '''') (lg_grants g)"
  by (auto simp: CloseTask_def split: option.splits)

lemma CloseTask_row:
  assumes "CloseTask err derr i now res branch pr g = (None, g')"
  shows "row_of tk_ID i (lg_tasks g') \<noteq> None \<and> (\<forall>k. row_of tk_ID i (lg_tasks g') = Some k \<longrightarrow> tk_Closed k = Some (unix_of now))"
proof -
  let ?x = "(no_task i)\<lparr>tk_Closed := Some (unix_of now), tk_Outcome := Some res, tk_Branch := nullStr branch, tk_PR := nullStr pr\<rparr>"
  have g': "lg_tasks g' = upsert tk_ID merge_close ?x (lg_tasks g)"
    using assms by (auto simp: CloseTask_def split: option.splits)
  have "tk_ID ?x = i" by (simp add: no_task_def)
  with tasks_close.row_upsert_same [of ?x "lg_tasks g"] show ?thesis
    unfolding g' by (auto simp: merge_close_def split: option.splits)
qed

text \<open>The task a close is about.\<close>

lemma close_row_ledger:
  "close_row w task now result branch pr g = (None, f') \<Longrightarrow>
   \<exists>res. CloseTask (fw_write w) (fw_each w) task now res branch pr (fd_ledger g) = (None, fd_ledger f')"
  by (auto simp: close_row_def Let_def split: prod.splits)

lemma Close_ledger:
  assumes "Close c w name task result branch pr now f = (None, f')" and "task \<noteq> ''''"
  shows "\<exists>res. CloseTask (fw_write w) (fw_each w) task now res branch pr (fd_ledger f) = (None, fd_ledger f')"
  using assms
  by (auto simp: Close_def Let_def split: sum.splits if_splits dest!: close_row_ledger)

lemma Done_ledger:
  assumes "Done c w name task result branch pr now f = (None, f')" and "task \<noteq> ''''"
  shows "\<exists>res. CloseTask (fw_write w) (fw_each w) task now res branch pr (fd_ledger f) = (None, fd_ledger f')"
  using assms
  by (auto simp: Done_def Let_def split: sum.splits if_splits dest!: close_row_ledger)

text \<open>
  What an agent may read for a task it may no longer read once the task has ended: after a close or a done
  of it that succeeded, a secret is granted to a session of the task only by a grant to its agent.\<close>

theorem ended_task_reads_no_secret:
  assumes "Close c w name task result branch pr now f = (None, f') \<or> Done c w name task result branch pr now f = (None, f')"
    and "task \<noteq> ''''" and "fst (Granted None None secret agent task later (fd_ledger f')) = Inr True"
  shows "list_ex (\<lambda>x. sg_Secret x = secret \<and> sg_Agent x = agent \<and> agent \<noteq> '''') (lg_grants (fd_ledger f'))"
proof -
  obtain res where "CloseTask (fw_write w) (fw_each w) task now res branch pr (fd_ledger f) = (None, fd_ledger f')"
    using assms(1) Close_ledger [OF _ assms(2)] Done_ledger [OF _ assms(2)] by blast
  from CloseTask_grants [OF this] have none: "\<forall>x\<in>set (lg_grants (fd_ledger f')). sg_Task x \<noteq> task" using assms(2) by auto
  from assms(3) obtain x where "x \<in> set (lg_grants (fd_ledger f'))" "grants_to secret agent task x"
    by (auto simp: Granted_def dropExpired_def ran_def)
  with none show ?thesis by (auto simp: grants_to_def list_ex_iff)
qed

text \<open>A secret granted to task T2 and to agent b.\<close>

definition with_secret :: fleet where
  "with_secret = (let f = fst demo_tasks; x = \<lparr>sg_Secret = ''key'', sg_Task = ''T2'', sg_Agent = '''', sg_Granted = 0, sg_Expires = None, sg_By = None\<rparr>
     in with_ledger (snd (AddGrant None None (x\<lparr>sg_Task := '''', sg_Agent := ''b''\<rparr>) (snd (AddGrant None None x
          (snd (PutSecret None ''key'' ''sealed'' noon (fd_ledger f))))))) f)"

theorem ended_task_reads_no_secret_witness:
  "list_ex (\<lambda>x. sg_Secret x = ''key'' \<and> sg_Agent x = ''b'')
     (lg_grants (fd_ledger (snd (Close demo_fleet hearing ''a'' ''T2'' '''' '''' '''' noon with_secret)))) \<and>
   fst (Granted None None ''key'' ''a'' ''T2'' noon (fd_ledger with_secret)) = Inr True \<and>
   fst (Granted None None ''key'' ''a'' ''T2'' noon (fd_ledger (snd (Close demo_fleet hearing ''a'' ''T2'' '''' '''' '''' noon with_secret)))) = Inr False"
proof -
  let ?C = "Close demo_fleet hearing ''a'' ''T2'' '''' '''' '''' noon with_secret"
  have "fst ?C = None" by code_simp
  then have c: "?C = (None, snd ?C) \<or> Done demo_fleet hearing ''a'' ''T2'' '''' '''' '''' noon with_secret = (None, snd ?C)"
    by (metis prod.collapse)
  have n: "''T2'' \<noteq> ''''" by simp
  have g: "fst (Granted None None ''key'' ''b'' ''T2'' noon (fd_ledger (snd ?C))) = Inr True" by code_simp
  have "fst (Granted None None ''key'' ''a'' ''T2'' noon (fd_ledger with_secret)) = Inr True"
    "fst (Granted None None ''key'' ''a'' ''T2'' noon (fd_ledger (snd ?C))) = Inr False" by code_simp+
  with ended_task_reads_no_secret [OF c n g] show ?thesis by (simp add: list_ex_iff)
qed

section \<open>Events\<close>

definition daily_total :: "string \<times> int \<times> string \<Rightarrow> DailyCount list \<Rightarrow> nat" where
  "daily_total k ds = sum_list (map dc_Count (filter (\<lambda>d. daily_key d = k) ds))"

lemma daily_total_upsert:
  "daily_total k (upsert daily_key merge_daily x ds) = daily_total k ds + (if daily_key x = k then dc_Count x else 0)"
  by (induction ds) (auto simp: daily_total_def merge_daily_def daily_key_def)

lemma daily_total_fold:
  "distinct ks \<Longrightarrow> daily_total k (fold (\<lambda>k. upsert daily_key merge_daily \<lparr>dc_Agent = fst k, dc_Day = fst (snd k), dc_Kind = snd (snd k), dc_Count = n k\<rparr>) ks ds) =
   daily_total k ds + (if k \<in> set ks then n k else 0)"
  by (induction ks arbitrary: ds) (auto simp: daily_total_upsert daily_key_def)

lemma daily_total_add: "daily_total k (add_counts es ds) = daily_total k ds + count_day es k"
proof -
  have "count_day es k = 0" if "k \<notin> event_day ` set es" using that by (auto simp: count_day_def filter_empty_conv)
  then show ?thesis unfolding add_counts_def using daily_total_fold [of "remdups (map event_day es)" k "count_day es" ds] by auto
qed

text \<open>
  C40. Retention loses no count: for each agent, day and kind, the count of the day and the events still there add
  up to what they were, whether the transaction ran or failed.\<close>

theorem retention_conserves_counts:
  "daily_total k (lg_daily (snd (Retain err now events_raw relays g))) + count_day (lg_events (snd (Retain err now events_raw relays g))) k =
   daily_total k (lg_daily g) + count_day (lg_events g) k"
proof -
  have "count_day (filter p es) k + count_day (delete_where p es) k = count_day es k" for p es
    by (induction es) (auto simp: count_day_def delete_where_def)
  then show ?thesis by (simp add: Retain_def Let_def ran_snd daily_total_add)
qed

section \<open>A waiting session is handed each message once\<close>

lemma wait_message:
  assumes look: "wait_look w a task reader now i f = (Inr (Some (WaitMessage m), j), f')" and "task \<noteq> ''''" and "reader \<noteq> ''''"
  shows "m \<in> set (lg_relays (fd_ledger f))" "i < rl_ID m"
    "r \<in> set (lg_relays (fd_ledger f)) \<Longrightarrow> rl_Task r = Some task \<Longrightarrow> task_agent task (fd_ledger f) = Some (rl_From r) \<Longrightarrow> i < rl_ID r \<Longrightarrow> rl_ID m \<le> rl_ID r"
    "SetCursor None task reader (rl_ID m) (fd_ledger f) = (None, fd_ledger f')"
proof -
  have first: "List.find (\<lambda>x. task \<noteq> '''' \<or> Q x) xs = (case xs of [] \<Rightarrow> None | x # _ \<Rightarrow> Some x)" for xs Q
    using assms(2) by (cases xs) simp_all
  from look assms(2) obtain msgs where ms: "TaskReports (fw_read w) task i (fd_ledger f) = Inr msgs" "msgs \<noteq> []"
    and m: "m = hd msgs" "SetCursor (fw_write w) task reader (rl_ID m) (fd_ledger f) = (None, fd_ledger f')"
    unfolding wait_look_def first
    by (auto simp: assms(3) wait_phase_def Let_def split: sum.splits option.splits prod.splits if_splits list.splits)
  let ?p = "\<lambda>r. rl_Task r = Some task \<and> i < rl_ID r \<and> task_agent task (fd_ledger f) = Some (rl_From r)"
  have rows: "msgs = sort_key rl_ID (filter ?p (lg_relays (fd_ledger f)))"
    using ms(1) by (auto simp: TaskReports_def taskRelays_def split: option.splits)
  then have set: "set msgs = set (filter ?p (lg_relays (fd_ledger f)))" and sorted: "sorted (map rl_ID msgs)" by simp_all
  have "m \<in> set msgs" using m(1) ms(2) by simp
  with set show "m \<in> set (lg_relays (fd_ledger f))" "i < rl_ID m" by auto
  show "SetCursor None task reader (rl_ID m) (fd_ledger f) = (None, fd_ledger f')"
    using m(2) by (auto simp: SetCursor_def ran_def split: option.splits)
  assume "r \<in> set (lg_relays (fd_ledger f))" "rl_Task r = Some task" "task_agent task (fd_ledger f) = Some (rl_From r)" "i < rl_ID r"
  with set have "r \<in> set msgs" by auto
  with sorted m(1) show "rl_ID m \<le> rl_ID r" by (cases msgs) auto
qed

lemma wait_cursor:
  "wait_from c w agent task after reader f = Inr (a, i) \<Longrightarrow> reader \<noteq> '''' \<Longrightarrow> Cursor None task reader (fd_ledger f) = Inr i"
  by (auto simp: wait_from_def Cursor_def split: if_splits sum.splits option.splits)

interpretation cursors: keyed_table fst "\<lambda>c x. (fst c, max (snd c) (snd x))"
  by unfold_locales simp

lemma Cursor_SetCursor:
  assumes "SetCursor None task reader m g = (None, g')" and "Cursor None task reader g = Inr i" and "i < m"
  shows "Cursor None task reader g' = Inr m"
proof -
  show ?thesis using assms cursors.row_upsert_same [of "((task, reader), m)" "lg_cursors g"]
    by (auto simp: SetCursor_def Cursor_def ran_def max_def split: option.splits)
qed

text \<open>
  C30. A session that waits for the new messages of a task is handed each once, and in order: between two messages
  it is handed, however long after and by whichever agent's name it waits, no report of the task is skipped
  and none comes twice.\<close>

theorem wait_hands_each_once:
  assumes named: "task \<noteq> ''''" "reader \<noteq> ''''" and from1: "wait_from c w1 agent1 task after1 reader f = Inr (a1, i1)"
    and look1: "wait_look w1 a1 task reader now1 i1 f = (Inr (Some (WaitMessage m1), j1), f')"
    and kept: "Cursor None task reader (fd_ledger g) = Cursor None task reader (fd_ledger f')"
    and from2: "wait_from c w2 agent2 task after2 reader g = Inr (a2, i2)"
    and look2: "wait_look w2 a2 task reader now2 i2 g = (Inr (Some (WaitMessage m2), j2), g')"
  shows "rl_ID m1 < rl_ID m2 \<and> list_all (\<lambda>r. rl_Task r = Some task \<and> task_agent task (fd_ledger g) = Some (rl_From r) \<and>
    rl_ID m1 < rl_ID r \<longrightarrow> rl_ID m2 \<le> rl_ID r) (lg_relays (fd_ledger g))"
proof -
  note m1 = wait_message [OF look1 named] and m2 = wait_message [OF look2 named]
  have i1: "Cursor None task reader (fd_ledger f) = Inr i1" by (rule wait_cursor [OF from1 named(2)])
  have i2: "Cursor None task reader (fd_ledger g) = Inr i2" by (rule wait_cursor [OF from2 named(2)])
  have "Cursor None task reader (fd_ledger f') = Inr (rl_ID m1)" by (rule Cursor_SetCursor [OF m1(4) i1 m1(2)])
  with kept i2 have "i2 = rl_ID m1" by simp
  with m2(2,3) show ?thesis by (auto simp: list_all_iff)
qed

text \<open>Agent a reports twice on its task, and a session waits twice for what is new.\<close>

definition two_reports :: fleet where
  "two_reports = (let say = (\<lambda>txt f. snd (send demo_fleet hearing ''a'' ''operator'' txt ''T2'' noon f))
     in say ''second'' (say ''first'' (fst demo_tasks)))"

definition first_look :: "(string + WaitResult option \<times> int) \<times> fleet" where
  "first_look = wait_look hearing ''a'' ''T2'' ''me'' noon 0 two_reports"

definition handed :: "(string + WaitResult option \<times> int) \<times> fleet \<Rightarrow> Relay" where
  "handed x = (case fst x of Inr (Some (WaitMessage m), _) \<Rightarrow> m | _ \<Rightarrow> hd [])"

definition second_look :: "(string + WaitResult option \<times> int) \<times> fleet" where
  "second_look = wait_look hearing ''a'' ''T2'' ''me'' noon (rl_ID (handed first_look)) (snd first_look)"

theorem wait_hands_each_once_witness:
  "rl_ID (handed first_look) < rl_ID (handed second_look) \<and> rl_Text (handed second_look) = ''second''"
proof -
  have l1: "wait_look hearing ''a'' ''T2'' ''me'' noon 0 two_reports = (Inr (Some (WaitMessage (handed first_look)), 0), snd first_look)"
    unfolding first_look_def [symmetric] by (rule prod_eqI) (code_simp, simp)
  have l2: "wait_look hearing ''a'' ''T2'' ''me'' noon (rl_ID (handed first_look)) (snd first_look) =
      (Inr (Some (WaitMessage (handed second_look)), rl_ID (handed first_look)), snd second_look)"
    unfolding second_look_def [symmetric] by (rule prod_eqI) (code_simp, simp)
  have f1: "wait_from demo_fleet hearing ''a'' ''T2'' 0 ''me'' two_reports = Inr (''a'', 0)" by code_simp
  have f2: "wait_from demo_fleet hearing ''a'' ''T2'' 0 ''me'' (snd first_look) = Inr (''a'', rl_ID (handed first_look))" by code_simp
  have n: "''T2'' \<noteq> ''''" "''me'' \<noteq> ''''" by simp_all
  from wait_hands_each_once [OF n f1 l1 refl f2 l2] show ?thesis by (simp; code_simp)
qed

end
