(* ===== verification/Fleet_Notices.thy ===== *)
theory Fleet_Notices
  imports Fleet_Books
begin

text \<open>
  Held messages and the end of their task: the notice of a cancel still goes out, as \<^verbatim>\<open>pendingWhere\<close> says,
  but so does not a report that was held before the task closed, nor a message that a later one passed on the way.
\<close>

section \<open>The notice of a cancel\<close>

lemma send_held:
  assumes ok: "ids_ok (fd_ledger f)" and box: "\<not> inbox c w to f" and s: "send c w from to text task now f = (Some (SendHeld to' why), f')"
  obtains r where "to' = to" "r \<in> set (lg_relays (fd_ledger f'))" "rl_Error r = Some Held" "\<not> rl_Delivered r" "ids_ok (fd_ledger f')"
    "is_message (lg_next_relay (fd_ledger f)) from to (fw_redact w text) now (filed_under c w from to task now f) r"
    "lg_next_relay (fd_ledger f') = rl_ID r + 1"
proof -
  obtain b f1 where b: "deliver_begin c w from to text task '''' now f = (b, f1)" by fastforce
  have ok': "ids_ok (fd_ledger f')" using moved_ids [OF deliverMsg_moved [OF ok] ok, of c w "from" to "text" task "''''" now True] s by (simp add: send_def)
  consider (refused) e where "b = Inl e" | (unfiled) e where "b = Inr (Inl e)" | (begun) i where "b = Inr (Inr i)"
    by (rule sum_sum_cases)
  then show thesis
  proof cases
    case refused
    with b box have "\<exists>m. e = Some (SendFail m)" by (auto simp: deliver_begin_def Let_def split: if_splits prod.splits)
    with b s refused show thesis by (auto simp: send_def deliverMsg_def)
  next
    case unfiled
    with b s show thesis by (auto simp: send_def deliverMsg_def deliver_rest_def split: prod.splits)
  next
    case (begun i)
    from b [unfolded begun] ok show thesis
    proof (rule send_begun)
      fix err f2 q
      assume i: "i = lg_next_relay (fd_ledger f)" "lg_next_relay (fd_ledger f2) = i + 1"
        and q: "q \<in> set (lg_relays (fd_ledger f2))" "is_message i from to (fw_redact w text) now (filed_under c w from to task now f) q"
        and e: "send c w from to text task now f = (case err of None \<Rightarrow> (None, with_ledger (snd (EndRelay (fw_end w i) i None (fd_ledger f2))) f2)
          | Some e \<Rightarrow> (case fw_hold w i of Some _ \<Rightarrow> (Some (SendFail e), f2)
             | None \<Rightarrow> (Some (SendHeld to e), with_ledger (snd (HoldRelay None i (fd_ledger f2))) f2)))"
      from e s have f': "to' = to" "fd_ledger f' = snd (HoldRelay None i (fd_ledger f2))" by (auto split: option.splits)
      from held_row [OF q] obtain r where r: "r \<in> set (lg_relays (fd_ledger f'))" "is_message i from to (fw_redact w text) now (filed_under c w from to task now f) r"
          "rl_Error r = Some Held" "\<not> rl_Delivered r" unfolding f'(2) by blast
      have "lg_next_relay (fd_ledger f') = rl_ID r + 1" using r(2) i(2) unfolding f'(2) by (simp add: HoldRelay_def is_message_def)
      then show thesis using that [OF f'(1) r(1,3,4) ok'] r(2) i(1) by simp
    qed
  qed
qed

lemma CloseTask_keeps:
  assumes "CloseTask err derr i now res branch pr g = (None, g')"
  shows "lg_relays g' = lg_relays g" "\<exists>k\<in>set (lg_tasks g'). tk_ID k = i \<and> tk_Closed k = Some (unix_of now)"
proof -
  show "lg_relays g' = lg_relays g" using CloseTask_relays [of g err derr i now res branch pr] assms by (simp add: same_relays_def)
  from CloseTask_row [OF assms] obtain k where "row_of tk_ID i (lg_tasks g') = Some k" "tk_Closed k = Some (unix_of now)" by auto
  then show "\<exists>k\<in>set (lg_tasks g'). tk_ID k = i \<and> tk_Closed k = Some (unix_of now)" by (auto dest: row_of_Some)
qed

lemma filed_task: "task \<noteq> '''' \<Longrightarrow> task \<noteq> noTask \<Longrightarrow> filed_under c w from to task now f = task"
  by (simp add: filed_under_def Let_def)

text \<open>
  A cancel that reaches no session still reaches its agent later: when the notice is held, the task is closed
  and the notice is the last pending message to the agent, to be sent when the agent is back.\<close>

theorem cancel_notice_waits:
  assumes reach: "fleet_reach c blank (f, fl)" and t: "openTask w task f = Inr t" and box: "\<not> inbox c w (ta_Agent t) f"
    and named: "task \<noteq> ''''" "task \<noteq> noTask" and cc: "Cancel c w task from reason now f = (Some (SendHeld to why), f')"
  shows "to = ta_Agent t \<and> list_ex (\<lambda>k. tk_ID k = task \<and> tk_Closed k = Some (unix_of now)) (lg_tasks (fd_ledger f')) \<and>
    list_ex (\<lambda>r. rl_To r = to \<and> rl_Text r = fw_redact w (cancel_notice task from reason) \<and> pendingWhere (fd_ledger f') r) (lg_relays (fd_ledger f'))"
proof -
  have ok: "ids_ok (fd_ledger f)" using reach_inv [OF reach] by (simp add: fleet_inv_def)
  obtain e f1 where s: "send c w from (ta_Agent t) (cancel_notice task from reason) task now f = (e, f1)" by fastforce
  obtain ce f2 where cl: "Close c w (ta_Agent t) task ''cancelled'' '''' '''' now f1 = (ce, f2)" by fastforce
  have e: "e = Some (SendHeld to why)" "ce = None" "f' = f2"
    using cc by (auto simp: Cancel_def t Let_def s cl split: option.splits send_error.splits)
  from send_held [OF ok box s [unfolded e(1)]] obtain r where r: "to = ta_Agent t" "r \<in> set (lg_relays (fd_ledger f1))" "rl_Error r = Some Held"
      "ids_ok (fd_ledger f1)" "is_message (lg_next_relay (fd_ledger f)) from (ta_Agent t) (fw_redact w (cancel_notice task from reason)) now
        (filed_under c w from (ta_Agent t) task now f) r" "lg_next_relay (fd_ledger f1) = rl_ID r + 1" by blast
  obtain res where ct: "CloseTask (fw_write w) (fw_each w) task now res '''' '''' (fd_ledger f1) = (None, fd_ledger f')"
    using Close_ledger [OF cl [unfolded e(2)] named(1)] e(3) by blast
  note k = CloseTask_keeps [OF ct]
  have task: "rl_Task r = Some task" "rl_At r = unix_of now" "rl_To r = to" using r(1,5) filed_task [OF named] named(1) by (simp_all add: is_message_def nullStr_def)
  have "timely (fd_ledger f') r" unfolding timely_def task using k(2) by auto
  moreover have "\<not> overtaken (fd_ledger f') r" unfolding overtaken_def k(1) using r(4,6) by (fastforce simp: ids_ok_def list_all_iff)
  ultimately have "pendingWhere (fd_ledger f') r" using r(3) by (simp add: pendingWhere_def kept_def)
  with r(1,2,5) k task show ?thesis by (auto simp: list_ex_iff is_message_def)
qed

lemma demo_tasks_reach: "fleet_reach demo_fleet (fresh_state '''') (fst demo_tasks, [])"
proof -
  have "fleet_reach demo_fleet (fresh_state '''') (fst demo0, [])" by (simp add: demo0_def fleet_reach.first)
  then have "fleet_reach demo_fleet (fresh_state '''') (snd (Assign demo_fleet hearing ''a'' ''T1'' ''operator'' '''' noon (fst demo0)), [])"
    by (rule fleet_reach.more) (rule fleet_step.assigned)
  then show ?thesis unfolding demo_tasks_def fst_conv by (rule fleet_reach.more) (rule fleet_step.assigned)
qed

theorem cancel_notice_waits_witness:
  "list_ex (\<lambda>r. rl_To r = ''a'' \<and> pendingWhere (fd_ledger (snd (Cancel demo_fleet deaf ''T2'' ''operator'' '''' noon (fst demo_tasks)))) r)
     (lg_relays (fd_ledger (snd (Cancel demo_fleet deaf ''T2'' ''operator'' '''' noon (fst demo_tasks)))))"
proof -
  let ?f = "fst demo_tasks" and ?C = "Cancel demo_fleet deaf ''T2'' ''operator'' '''' noon (fst demo_tasks)"
  let ?t = "projr (openTask deaf ''T2'' ?f)"
  have "\<not> isl (openTask deaf ''T2'' ?f)" "ta_Agent ?t = ''a''" by code_simp+
  then have t: "openTask deaf ''T2'' ?f = Inr ?t" "ta_Agent ?t = ''a''" by (simp_all add: sum.collapse(2))
  have b: "\<not> inbox demo_fleet deaf (ta_Agent ?t) ?f" unfolding t(2) by code_simp
  have n: "''T2'' \<noteq> ''''" "''T2'' \<noteq> noTask" by (simp_all add: noTask_def)
  have "fst ?C = Some (SendHeld ''a'' ''no session'')" by code_simp
  then have c: "?C = (Some (SendHeld ''a'' ''no session''), snd ?C)" by (metis prod.collapse)
  from cancel_notice_waits [OF demo_tasks_reach t(1) b n c] show ?thesis by (auto simp: list_ex_iff)
qed

section \<open>A report held before its task ends\<close>

text \<open>
  A report can be lost: held for the orchestrator, with its sender told that it goes out when the orchestrator
  is back, it is no longer pending once the agent's own done has closed its task, at any later second; it stays on
  the ledger as held and is never sent.\<close>

theorem held_report_lost_at_done:
  assumes reach: "fleet_reach c blank (f, fl)" and ok: "tasks_ok (lg_tasks (fd_ledger f))" and box: "\<not> inbox c w to f"
    and s: "send c w name to text '''' now f = (Some (SendHeld to' why), f1)" and filed: "filed_under c w name to '''' now f = task"
    and named: "task \<noteq> ''''" and d: "Done c w2 name task result branch pr later f1 = (None, f2)" and late: "unix_of now < unix_of later"
  shows "list_ex (\<lambda>r. rl_To r = to \<and> rl_Text r = fw_redact w text \<and> rl_Error r = Some Held \<and> \<not> rl_Delivered r \<and>
    \<not> pendingWhere (fd_ledger f2) r) (lg_relays (fd_ledger f2))"
proof -
  have ids: "ids_ok (fd_ledger f)" using reach_inv [OF reach] by (simp add: fleet_inv_def)
  from send_held [OF ids box s] obtain r where r: "r \<in> set (lg_relays (fd_ledger f1))" "rl_Error r = Some Held" "\<not> rl_Delivered r"
      "is_message (lg_next_relay (fd_ledger f)) name to (fw_redact w text) now task r" unfolding filed by blast
  obtain res where ct: "CloseTask (fw_write w2) (fw_each w2) task later res branch pr (fd_ledger f1) = (None, fd_ledger f2)"
    using Done_ledger [OF d named] by blast
  have "tasks_ok (lg_tasks (fd_ledger f1))" using ok send_tasks s by (metis same_tasks_def snd_conv)
  then have "tasks_ok (lg_tasks (fd_ledger f2))" using CloseTask_ok ct by (metis snd_conv)
  then have dist: "distinct (map tk_ID (lg_tasks (fd_ledger f2)))" by (simp add: tasks_ok_def)
  have "\<not> timely (fd_ledger f2) r"
  proof
    assume "timely (fd_ledger f2) r"
    then obtain k where k: "k \<in> set (lg_tasks (fd_ledger f2))" "tk_ID k = task" "case tk_Closed k of None \<Rightarrow> True | Some c \<Rightarrow> c \<le> rl_At r"
      using r(4) named by (auto simp: timely_def is_message_def nullStr_def)
    have "row_of tk_ID task (lg_tasks (fd_ledger f2)) = Some k" using row_of_mem [OF dist k(1)] k(2) by simp
    with CloseTask_row [OF ct] have "tk_Closed k = Some (unix_of later)" by simp
    with k(3) r(4) late show False by (simp add: is_message_def)
  qed
  then have "\<not> pendingWhere (fd_ledger f2) r" by (simp add: pendingWhere_def)
  with r CloseTask_keeps(1) [OF ct] show ?thesis by (auto simp: list_ex_iff is_message_def)
qed

definition report_held :: fleet where
  "report_held = snd (send demo_fleet deaf ''a'' ''main'' ''all done'' '''' noon (fst demo_tasks))"

definition report_lost :: fleet where
  "report_lost = snd (Done demo_fleet hearing ''a'' ''T2'' '''' '''' '''' (noon + minute) report_held)"

theorem held_report_lost_at_done_witness:
  "list_ex (\<lambda>r. rl_To r = ''main'' \<and> rl_Text r = ''all done'' \<and> rl_Error r = Some Held \<and> \<not> rl_Delivered r \<and>
     \<not> pendingWhere (fd_ledger report_lost) r) (lg_relays (fd_ledger report_lost)) \<and>
   PendingRelays None ''main'' zero_time (fd_ledger report_lost) = Inr []"
proof -
  let ?f = "fst demo_tasks" and ?S = "send demo_fleet deaf ''a'' ''main'' ''all done'' '''' noon (fst demo_tasks)"
  let ?D = "Done demo_fleet hearing ''a'' ''T2'' '''' '''' '''' (noon + minute) report_held"
  have ok: "tasks_ok (lg_tasks (fd_ledger ?f))"
  proof -
    have "lg_tasks (fd_ledger ?f) = [nth (lg_tasks (fd_ledger ?f)) 0, nth (lg_tasks (fd_ledger ?f)) 1]" "map tk_ID (lg_tasks (fd_ledger ?f)) = [''T1'', ''T2'']"
      "map tk_Closed (lg_tasks (fd_ledger ?f)) = [Some 43200, None]" by code_simp+
    then show ?thesis by (auto simp: tasks_ok_def open_as_def inj_on_def)
  qed
  have b: "\<not> inbox demo_fleet deaf ''main'' ?f" by code_simp
  have "fst ?S = Some (SendHeld ''main'' ''no session'')" by code_simp
  then have s: "?S = (Some (SendHeld ''main'' ''no session''), report_held)" unfolding report_held_def by (metis prod.collapse)
  have fu: "filed_under demo_fleet deaf ''a'' ''main'' '''' noon ?f = ''T2''" by code_simp
  have n: "''T2'' \<noteq> ''''" by simp
  have "fst ?D = None" by code_simp
  then have d: "?D = (None, report_lost)" unfolding report_lost_def by (metis prod.collapse)
  have l: "unix_of noon < unix_of (noon + minute)" by code_simp
  have p: "PendingRelays None ''main'' zero_time (fd_ledger report_lost) = Inr []" by code_simp
  have r: "fw_redact deaf ''all done'' = ''all done''" by code_simp
  from held_report_lost_at_done [OF demo_tasks_reach ok b s fu n d l] p r show ?thesis by simp
qed

text \<open>
  A message can be lost on the way to its receiver: two instructions on one task are put on the ledger one after
  the other, the second goes out first and the first then fails. Its sender is told that it is queued and will be
  delivered, but as a later one got through it is not pending, and nothing sends it again.\<close>

definition two_under_way :: fleet where
  "two_under_way = snd (deliver_begin demo_fleet hearing ''operator'' ''a'' ''then that'' ''T2'' '''' noon
     (snd (deliver_begin demo_fleet hearing ''operator'' ''a'' ''do this'' ''T2'' '''' noon (fst demo_tasks))))"

definition second_first :: fleet where
  "second_first = snd (deliver_rest demo_fleet hearing ''operator'' ''a'' ''then that'' noon True (Inr 2) two_under_way)"

theorem slower_send_is_lost:
  "fst (deliver_rest demo_fleet deaf ''operator'' ''a'' ''do this'' noon True (Inr 1) second_first) = Some (SendHeld ''a'' ''no session'') \<and>
   PendingRelays None ''a'' zero_time (fd_ledger (snd (deliver_rest demo_fleet deaf ''operator'' ''a'' ''do this'' noon True (Inr 1) second_first))) = Inr [] \<and>
   map rl_Delivered (lg_relays (fd_ledger (snd (deliver_rest demo_fleet deaf ''operator'' ''a'' ''do this'' noon True (Inr 1) second_first)))) = [False, True]"
  by (intro conjI; code_simp)

end
