(* ===== verification/Fleet_Approvals.thy ===== *)
theory Fleet_Approvals
  imports Fleet_Ledger
begin

text \<open>
  \<^verbatim>\<open>fleet/internal/ledger/approvals.go\<close>: the writes agents asked to make through the KARMAX gateway, and the one
  statement that moves them from state to state.
\<close>

section \<open>The table\<close>

definition Pending :: string where "Pending = ''pending''"
definition Approved :: string where "Approved = ''approved''"
definition Denied :: string where "Denied = ''denied''"
definition Expired :: string where "Expired = ''expired''"
definition Ran :: string where "Ran = ''ran''"

lemmas approval_states = Pending_def Approved_def Denied_def Expired_def Ran_def

lemma states_differ [simp]:
  "Pending \<noteq> Approved" "Pending \<noteq> Denied" "Pending \<noteq> Expired" "Pending \<noteq> Ran" "Approved \<noteq> Denied" "Approved \<noteq> Expired" "Approved \<noteq> Ran"
  "Approved \<noteq> Pending" "Denied \<noteq> Pending" "Expired \<noteq> Pending" "Ran \<noteq> Pending" "Denied \<noteq> Approved" "Expired \<noteq> Approved" "Ran \<noteq> Approved"
  by (simp_all add: approval_states)

record ApprovalRow =
  ap_ID :: int
  ap_Agent :: string
  ap_Task :: "string option"
  ap_Tool :: string
  ap_Args :: "string option"
  ap_Reason :: "string option"
  ap_State :: string
  ap_DecidedBy :: "string option"
  ap_Note :: "string option"
  ap_At :: int
  ap_Decided :: "int option"
  ap_Expires :: int

record approvals =
  at_rows :: "ApprovalRow list"
  at_next :: int

definition no_approvals :: approvals where
  "no_approvals = \<lparr>at_rows = [], at_next = 1\<rparr>"

text \<open>A request as the program reads it.\<close>

record Approval =
  av_ID :: int
  av_Agent :: string
  av_Task :: string
  av_Tool :: string
  av_Args :: string
  av_Reason :: string
  av_State :: string
  av_DecidedBy :: string
  av_Note :: string
  av_At :: gtime
  av_Decided :: gtime
  av_Expires :: gtime

definition scanApproval :: "ApprovalRow \<Rightarrow> Approval" where
  "scanApproval r = \<lparr>av_ID = ap_ID r, av_Agent = ap_Agent r, av_Task = coalesce '''' (ap_Task r), av_Tool = ap_Tool r,
     av_Args = coalesce ''{}'' (ap_Args r), av_Reason = coalesce '''' (ap_Reason r), av_State = ap_State r,
     av_DecidedBy = coalesce '''' (ap_DecidedBy r), av_Note = coalesce '''' (ap_Note r), av_At = of_unix (ap_At r),
     av_Decided = fromUnix (ap_Decided r), av_Expires = of_unix (ap_Expires r)\<rparr>"

definition AddApproval :: "dberr \<Rightarrow> Approval \<Rightarrow> approvals \<Rightarrow> (string + int) \<times> approvals" where
  "AddApproval err a t = (case err of Some m \<Rightarrow> (Inl m, t)
     | None \<Rightarrow> (Inr (at_next t), t\<lparr>at_rows := at_rows t @ [\<lparr>ap_ID = at_next t, ap_Agent = av_Agent a, ap_Task = nullStr (av_Task a),
         ap_Tool = av_Tool a, ap_Args = Some (if av_Args a = '''' then ''{}'' else av_Args a), ap_Reason = Some (av_Reason a),
         ap_State = Pending, ap_DecidedBy = None, ap_Note = None, ap_At = unix_of (av_At a), ap_Decided = None,
         ap_Expires = unix_of (av_Expires a)\<rparr>], at_next := at_next t + 1\<rparr>))"

text \<open>\<open>Inr None\<close> is \<^verbatim>\<open>sql.ErrNoRows\<close>.\<close>

definition GetApproval :: "dberr \<Rightarrow> int \<Rightarrow> approvals \<Rightarrow> string + Approval option" where
  "GetApproval err i t = (case err of Some m \<Rightarrow> Inl m | None \<Rightarrow> Inr (map_option scanApproval (row_of ap_ID i (at_rows t))))"

definition list_Approvals :: "dberr \<Rightarrow> string \<Rightarrow> int \<Rightarrow> approvals \<Rightarrow> string + Approval list" where
  "list_Approvals err state limit t = (case err of Some m \<Rightarrow> Inl m
     | None \<Rightarrow> (let rows = sort_key ap_ID (filter (\<lambda>r. state = '''' \<or> ap_State r = state) (at_rows t))
         in Inr (map scanApproval (if 0 < limit then rev (take (nat limit) (rev rows)) else rows))))"

text \<open>Moves a request, and whether it did: of two callers racing one wins.\<close>

definition moved_row :: "string \<Rightarrow> string \<Rightarrow> string \<Rightarrow> gtime \<Rightarrow> ApprovalRow \<Rightarrow> ApprovalRow" where
  "moved_row to by note now r = r\<lparr>ap_State := to, ap_DecidedBy := (if nullStr by = None then ap_DecidedBy r else nullStr by),
     ap_Note := (if nullStr note = None then ap_Note r else nullStr note),
     ap_Decided := (case ap_Decided r of None \<Rightarrow> Some (unix_of now) | Some d \<Rightarrow> Some d)\<rparr>"

definition MoveApproval :: "dberr \<Rightarrow> int \<Rightarrow> string \<Rightarrow> string \<Rightarrow> string \<Rightarrow> string \<Rightarrow> gtime \<Rightarrow> approvals \<Rightarrow> (string + bool) \<times> approvals" where
  "MoveApproval err i from to by note now t = (case err of Some m \<Rightarrow> (Inl m, t)
     | None \<Rightarrow> (Inr (length (filter (\<lambda>r. ap_ID r = i \<and> ap_State r = from) (at_rows t)) = 1),
         t\<lparr>at_rows := update_where (\<lambda>r. ap_ID r = i \<and> ap_State r = from) (moved_row to by note now) (at_rows t)\<rparr>))"

text \<open>The answers to the query and to each move; the first error ends it.\<close>

fun expire_each :: "(int \<Rightarrow> dberr) \<Rightarrow> gtime \<Rightarrow> ApprovalRow list \<Rightarrow> Approval list \<Rightarrow> approvals \<Rightarrow> (Approval list \<times> string option) \<times> approvals" where
  "expire_each merr now [] gone t = ((gone, None), t)"
| "expire_each merr now (r # rs) gone t =
     (case MoveApproval (merr (ap_ID r)) (ap_ID r) Pending Expired '''' '''' now t of
        (Inl m, t') \<Rightarrow> ((gone, Some m), t')
      | (Inr ok, t') \<Rightarrow> expire_each merr now rs (if ok then gone @ [(scanApproval r)\<lparr>av_State := Expired\<rparr>] else gone) t')"

definition is_due :: "gtime \<Rightarrow> ApprovalRow \<Rightarrow> bool" where
  "is_due now r \<longleftrightarrow> ap_State r = Pending \<and> ap_Expires r \<le> unix_of now"

definition ExpireApprovals :: "dberr \<Rightarrow> (int \<Rightarrow> dberr) \<Rightarrow> gtime \<Rightarrow> approvals \<Rightarrow> (Approval list \<times> string option) \<times> approvals" where
  "ExpireApprovals qerr merr now t = (case qerr of Some m \<Rightarrow> (([], Some m), t)
     | None \<Rightarrow> expire_each merr now (filter (is_due now) (at_rows t)) [] t)"

section \<open>What a move may do\<close>

text \<open>What never changes of a request, and the moves there are.\<close>

definition request_of :: "ApprovalRow \<Rightarrow> int \<times> string \<times> string option \<times> string \<times> string option \<times> int" where
  "request_of r = (ap_ID r, ap_Agent r, ap_Task r, ap_Tool r, ap_Args r, ap_Expires r)"

definition table_ok :: "approvals \<Rightarrow> bool" where
  "table_ok t \<longleftrightarrow> distinct (map ap_ID (at_rows t)) \<and> (\<forall>r\<in>set (at_rows t). ap_ID r < at_next t)"

lemma request_moved_row [simp]: "request_of (moved_row to by note now r) = request_of r"
  by (simp add: request_of_def moved_row_def)

lemma ID_moved_row [simp]: "ap_ID (moved_row to by note now r) = ap_ID r"
  by (simp add: moved_row_def)

lemma state_moved_row [simp]: "ap_State (moved_row to by note now r) = to"
  by (simp add: moved_row_def)

lemma fst_GetApproval: "GetApproval err i t = Inr (Some a) \<Longrightarrow> \<exists>r. row_of ap_ID i (at_rows t) = Some r \<and> a = scanApproval r"
  by (auto simp: GetApproval_def split: option.splits)

lemma MoveApproval_rows: "at_rows (snd (MoveApproval err i from to by note now t)) =
    (if err = None then update_where (\<lambda>r. ap_ID r = i \<and> ap_State r = from) (moved_row to by note now) (at_rows t) else at_rows t)"
  by (simp add: MoveApproval_def split: option.splits)

lemma MoveApproval_mem: "set (at_rows (snd (MoveApproval err i from to by note now t))) =
    (\<lambda>r. if err = None \<and> ap_ID r = i \<and> ap_State r = from then moved_row to by note now r else r) ` set (at_rows t)"
  by (cases err) (auto simp: MoveApproval_rows update_where_def)

lemma MoveApproval_next [simp]: "at_next (snd (MoveApproval err i from to by note now t)) = at_next t"
  by (simp add: MoveApproval_def split: option.splits)

lemma MoveApproval_table: "table_ok t \<Longrightarrow> table_ok (snd (MoveApproval err i from to by note now t))"
  by (simp add: table_ok_def MoveApproval_rows) (auto simp: update_where_def)

lemma MoveApproval_row:
  "row_of ap_ID k (at_rows (snd (MoveApproval err i from to by note now t))) =
     map_option (\<lambda>r. if err = None \<and> ap_ID r = i \<and> ap_State r = from then moved_row to by note now r else r) (row_of ap_ID k (at_rows t))"
  by (cases "row_of ap_ID k (at_rows t)") (auto simp: MoveApproval_rows row_update_where)

lemma filter_key_le1: "distinct (map key rs) \<Longrightarrow> filter (\<lambda>r. key r = k \<and> P r) rs = 
    (case row_of key k rs of None \<Rightarrow> [] | Some r \<Rightarrow> if P r then [r] else [])"
proof (induction rs)
  case Nil
  then show ?case by (simp add: row_of_def)
next
  case (Cons x rs)
  have none: "filter (\<lambda>r. key r = key x \<and> P r) rs = []" using Cons.prems by (auto simp: filter_empty_conv image_iff)
  show ?case using Cons none by (cases "key x = k") (auto simp: row_of_def)
qed

text \<open>The winner of a move: the row was in the state it names.\<close>

lemma MoveApproval_won:
  assumes "table_ok t"
  shows "fst (MoveApproval err i from to by note now t) = Inr True \<longleftrightarrow>
    err = None \<and> (\<exists>r. row_of ap_ID i (at_rows t) = Some r \<and> ap_State r = from)"
  using filter_key_le1 [of ap_ID "at_rows t" i "\<lambda>r. ap_State r = from"] assms
  by (auto simp: MoveApproval_def table_ok_def split: option.splits if_splits)

lemma expire_each_table: "table_ok t \<Longrightarrow> table_ok (snd (expire_each merr now rs gone t))"
proof (induction rs arbitrary: gone t)
  case (Cons r rs)
  have "table_ok (snd (MoveApproval (merr (ap_ID r)) (ap_ID r) Pending Expired '''' '''' now t))"
    using Cons.prems by (rule MoveApproval_table)
  then show ?case using Cons.IH by (auto split: prod.splits sum.splits)
qed simp

lemma ExpireApprovals_table: "table_ok t \<Longrightarrow> table_ok (snd (ExpireApprovals qerr merr now t))"
  by (simp add: ExpireApprovals_def expire_each_table split: option.splits)

lemma AddApproval_table: "table_ok t \<Longrightarrow> table_ok (snd (AddApproval err a t))"
  by (auto simp: table_ok_def AddApproval_def split: option.splits)

text \<open>Expiring leaves what every row asks for.\<close>

lemma MoveApproval_keeps_request:
  "r \<in> set (at_rows t) \<Longrightarrow> \<exists>r'\<in>set (at_rows (snd (MoveApproval err i from to by note now t))). request_of r' = request_of r"
  unfolding MoveApproval_mem by (intro bexI [of _ "if err = None \<and> ap_ID r = i \<and> ap_State r = from then moved_row to by note now r else r"]) auto

lemma expire_each_request:
  "r \<in> set (at_rows t) \<Longrightarrow> \<exists>r'\<in>set (at_rows (snd (expire_each merr now rs gone t))). request_of r' = request_of r"
proof (induction rs arbitrary: gone t r)
  case (Cons q rs)
  obtain x t' where m: "MoveApproval (merr (ap_ID q)) (ap_ID q) Pending Expired '''' '''' now t = (x, t')" by fastforce
  obtain r1 where r1: "r1 \<in> set (at_rows t')" "request_of r1 = request_of r"
    using MoveApproval_keeps_request [OF Cons.prems, of "merr (ap_ID q)" "ap_ID q" Pending Expired "''''" "''''" now] m by auto
  then show ?case using m Cons.IH [OF r1(1)] by (cases x) auto
qed auto

lemma expire_each_rows:
  "r \<in> set (at_rows t) \<Longrightarrow> \<exists>r'\<in>set (at_rows (snd (expire_each merr now rs gone t))). ap_ID r' = ap_ID r \<and> ap_Expires r' = ap_Expires r"
  by (drule expire_each_request [of _ _ merr now rs gone]) (auto simp: request_of_def)

end
