(* ===== verification/Fleet_Gateway.thy ===== *)
theory Fleet_Gateway
  imports Fleet_Approvals Fleet_Tasks Tool_Policy
begin

text \<open>
  \<^verbatim>\<open>fleet/internal/daemon/gateway.go\<close>: agents call the operator's integrations through fleetd. A read runs at
  once, a write is filed and waits for a decision, a denied tool is refused. KARMAX's API answers by all it was
  called with before; every call made of it is recorded, with the request it was made for and the time.
\<close>

section \<open>State\<close>

type_synonym jargs = "(string \<times> json) list"

record KarmaxResult =
  kr_OK :: bool
  kr_Output :: string
  kr_Error :: string

record tool_call =
  tl_Who :: string
  tl_Tool :: string
  tl_Args :: jargs
  tl_Approval :: "int option"
  tl_At :: gtime

text \<open>An event of the gateway: what was called or decided, with the names of the arguments and not their values.\<close>

record audit =
  au_Agent :: string
  au_Kind :: string
  au_Tool :: string
  au_Task :: string
  au_Class :: string
  au_Decision :: string
  au_Args :: "string list"
  au_Approval :: "int option"
  au_By :: string
  au_OK :: "bool option"

record gateway =
  gw_fleet :: fleet
  gw_approvals :: approvals
  gw_calls :: "tool_call list"
  gw_audit :: "audit list"

text \<open>What is configured, and what the library prints and reads: JSON, a quoted text, a time of day.\<close>

record gateway_conf =
  gc_fleet :: fleet_conf
  gc_on :: bool
  gc_Tools :: tool_entries
  gc_marshal :: "jargs \<Rightarrow> string + string"
  gc_unmarshal :: "string \<Rightarrow> jargs"
  gc_quote :: "string \<Rightarrow> string"
  gc_clock :: "gtime \<Rightarrow> string"

record gateway_world =
  gv_fleet :: fleet_world
  gv_call :: "tool_call list \<Rightarrow> string \<Rightarrow> jargs \<Rightarrow> string + KarmaxResult"
  gv_add :: dberr
  gv_get :: dberr
  gv_due :: dberr
  gv_move :: "int \<Rightarrow> dberr"
  gv_note :: dberr

datatype gateway_error = BadInput string | Refused string | NoTask string | Conflict string | Failed string

record Requester =
  rq_Name :: string
  rq_Task :: string

record CallReply =
  cr_Tool :: string
  cr_Class :: string
  cr_Result :: "KarmaxResult option"
  cr_Approval :: "Approval option"
  cr_Notice :: string

definition no_reply :: CallReply where
  "no_reply = \<lparr>cr_Tool = '''', cr_Class = '''', cr_Result = None, cr_Approval = None, cr_Notice = ''''\<rparr>"

definition ApprovalTimeout :: duration where "ApprovalTimeout = 30 * minute"
definition MaxApprovalTimeout :: duration where "MaxApprovalTimeout = 24 * hour"

definition argNames :: "jargs \<Rightarrow> string list" where
  "argNames args = sort (map fst args)"

definition note_audit :: "audit \<Rightarrow> gateway \<Rightarrow> gateway" where
  "note_audit a g = g\<lparr>gw_audit := gw_audit g @ [a]\<rparr>"

definition with_approvals :: "approvals \<Rightarrow> gateway \<Rightarrow> gateway" where
  "with_approvals t g = g\<lparr>gw_approvals := t\<rparr>"

text \<open>\<^verbatim>\<open>Gateway.Call\<close>, for a requester and the request it may be for.\<close>

definition call_tool :: "gateway_world \<Rightarrow> string \<Rightarrow> int option \<Rightarrow> string \<Rightarrow> jargs \<Rightarrow> gtime \<Rightarrow> gateway \<Rightarrow> (string + KarmaxResult) \<times> gateway" where
  "call_tool w who i tool args now g = (gv_call w (gw_calls g) tool args,
     g\<lparr>gw_calls := gw_calls g @ [\<lparr>tl_Who = who, tl_Tool = tool, tl_Args = args, tl_Approval = i, tl_At = now\<rparr>]\<rparr>)"

definition call_ok :: "string + KarmaxResult \<Rightarrow> bool" where
  "call_ok res \<longleftrightarrow> (case res of Inl _ \<Rightarrow> False | Inr r \<Rightarrow> kr_OK r)"

section \<open>Asking the orchestrator\<close>

definition firstBriefLine :: "gateway_conf \<Rightarrow> fleet_world \<Rightarrow> string \<Rightarrow> fleet \<Rightarrow> string" where
  "firstBriefLine c w task f =
     (case read_task (fw_read w) task (fd_ledger f) of
        Inr (Some t) \<Rightarrow>
          (let thread = (case TaskThread (fw_read w) task (fd_ledger f) of Inl _ \<Rightarrow> [] | Inr rs \<Rightarrow> rs)
           in case List.find (\<lambda>r. rl_From r \<noteq> ta_Agent t \<and> TrimSpace (rl_Text r) \<noteq> '''') thread of
                Some r \<Rightarrow> gc_quote c (clip (fst (Cut (TrimSpace (rl_Text r)) (CHR 0x0A))) 300) @ '' (from '' @ ta_Assigner t @ '')''
              | None \<Rightarrow> ''(no brief on the ledger; assigned by '' @ ta_Assigner t @ '')'')
      | _ \<Rightarrow> ''(no such task in the ledger)'')"

definition request_text :: "gateway_conf \<Rightarrow> fleet_world \<Rightarrow> Approval \<Rightarrow> fleet \<Rightarrow> string" where
  "request_text c w a f =
     ''KARMAX gateway: approval request '' @ show_int (av_ID a) @ '' '' @ em_dash @ '' '' @ av_Agent a @ '' asks to call '' @ av_Tool a @ ''.'' @ [CHR 0x0A] @
     (if av_Task a \<noteq> '''' then ''Task '' @ av_Task a @ '': '' @ firstBriefLine c w (av_Task a) f @ [CHR 0x0A] else '''') @
     ''Arguments: '' @ clip (av_Args a) 2000 @ [CHR 0x0A] @ ''Reason: '' @ av_Reason a @ [CHR 0x0A] @
     ''It waits until '' @ gc_clock c (av_Expires a) @ ''. Approve: fleetctl approve '' @ show_int (av_ID a) @ '' '' @ em_dash @
     '' or deny: fleetctl deny '' @ show_int (av_ID a) @ '' --reason '' @ [CHR 0x22] @ ''<why>'' @ [CHR 0x22] @ ''.'' @ [CHR 0x0A] @
     ''If it sends, deletes or changes anything on the operator'' @ [CHR 0x27] @
     ''s behalf, ask the operator on WhatsApp first and decide from their answer.''"

definition askOrchestrator :: "gateway_conf \<Rightarrow> gateway_world \<Rightarrow> Approval \<Rightarrow> gtime \<Rightarrow> fleet \<Rightarrow> send_error option \<times> fleet" where
  "askOrchestrator c w a now f = send (gc_fleet c) (gv_fleet w) (if known (gc_fleet c) (av_Agent a) then av_Agent a else Operator)
     (fc_orchestrator (gc_fleet c)) (request_text c (gv_fleet w) a f) (av_Task a) now f"

section \<open>Calling\<close>

definition audit_call :: "Requester \<Rightarrow> string \<Rightarrow> string \<Rightarrow> string \<Rightarrow> jargs \<Rightarrow> int option \<Rightarrow> bool option \<Rightarrow> audit" where
  "audit_call who tool class decision args i ok = \<lparr>au_Agent = rq_Name who, au_Kind = ''karmax.call'', au_Tool = tool, au_Task = rq_Task who,
     au_Class = class, au_Decision = decision, au_Args = argNames args, au_Approval = i, au_By = '''', au_OK = ok\<rparr>"

text \<open>Filing a write, and telling the orchestrator of it.\<close>

definition file_write :: "gateway_conf \<Rightarrow> gateway_world \<Rightarrow> Requester \<Rightarrow> string \<Rightarrow> jargs \<Rightarrow> string \<Rightarrow> duration \<Rightarrow> gtime \<Rightarrow> CallReply \<Rightarrow> gateway \<Rightarrow>
    (gateway_error option \<times> CallReply) \<times> gateway" where
  "file_write c w who tool args reason timeout now reply g =
     (case gc_marshal c args of
        Inl m \<Rightarrow> ((Some (BadInput m), reply), g)
      | Inr b \<Rightarrow>
          (let a0 = \<lparr>av_ID = 0, av_Agent = rq_Name who, av_Task = rq_Task who, av_Tool = tool, av_Args = b, av_Reason = reason,
                 av_State = Pending, av_DecidedBy = '''', av_Note = '''', av_At = now, av_Decided = zero_time,
                 av_Expires = now + min (if timeout \<le> 0 then ApprovalTimeout else timeout) MaxApprovalTimeout\<rparr>
           in case AddApproval (gv_add w) a0 (gw_approvals g) of
                (Inl m, _) \<Rightarrow> ((Some (Failed m), reply), g)
              | (Inr i, t) \<Rightarrow>
                  (let a = a0\<lparr>av_ID := i\<rparr>;
                       g1 = note_audit (audit_call who tool (cr_Class reply) ''requested'' args (Some i) None) (with_approvals t g);
                       (e, f) = askOrchestrator c w a now (gw_fleet g1)
                   in ((None, reply\<lparr>cr_Approval := Some a, cr_Notice := (case e of Some (SendFail m) \<Rightarrow>
                          ''the orchestrator could not be told ('' @ m @ ''); ask her to look at fleetctl approvals'' | _ \<Rightarrow> '''')\<rparr>),
                       g1\<lparr>gw_fleet := f\<rparr>))))"

definition KarmaxCall :: "gateway_conf \<Rightarrow> gateway_world \<Rightarrow> Requester \<Rightarrow> string \<Rightarrow> jargs \<Rightarrow> string \<Rightarrow> duration \<Rightarrow> gtime \<Rightarrow> gateway \<Rightarrow>
    (gateway_error option \<times> CallReply) \<times> gateway" where
  "KarmaxCall c w who tool args reason timeout now g =
     (if \<not> gc_on c then ((Some (Failed ''no KARMAX gateway''), no_reply), g)
      else if rq_Name who = '''' then ((Some (BadInput ''a gateway call needs a caller''), no_reply), g)
      else let class = ToolClass (gc_Tools c) tool; reply = no_reply\<lparr>cr_Tool := tool, cr_Class := class\<rparr>
        in if class = ToolDeny
           then ((Some (Refused tool), reply), note_audit (audit_call who tool class ''refused'' args None None) g)
           else if class = ToolRead
           then (let (res, g1) = call_tool w (rq_Name who) None tool args now g;
                     g2 = note_audit (audit_call who tool class ''ran'' args None (Some (call_ok res))) g1
                 in case res of Inl m \<Rightarrow> ((Some (Failed m), reply), g2) | Inr r \<Rightarrow> ((None, reply\<lparr>cr_Result := Some r\<rparr>), g2))
           else if TrimSpace reason = '''' then ((Some (BadInput ''a write needs --reason''), reply), g)
           else file_write c w who tool args reason timeout now reply g)"

text \<open>The tools an agent may call, each with its class.\<close>

definition KarmaxTools :: "gateway_conf \<Rightarrow> string + string list \<Rightarrow> string + (string \<times> string) list" where
  "KarmaxTools c tools = (if \<not> gc_on c then Inl ''no KARMAX gateway'' else case tools of Inl m \<Rightarrow> Inl m
     | Inr ts \<Rightarrow> Inr (sort_key fst (filter (\<lambda>x. snd x \<noteq> ToolDeny) (map (\<lambda>t. (t, ToolClass (gc_Tools c) t)) ts))))"

section \<open>Decisions\<close>

definition approval :: "gateway_world \<Rightarrow> int \<Rightarrow> gateway \<Rightarrow> gateway_error + Approval" where
  "approval w i g = (case GetApproval (gv_get w) i (gw_approvals g) of
     Inl m \<Rightarrow> Inl (Failed m) | Inr None \<Rightarrow> Inl (NoTask ''no approval'') | Inr (Some a) \<Rightarrow> Inr a)"

definition audit_decision :: "string \<Rightarrow> string \<Rightarrow> Approval \<Rightarrow> audit" where
  "audit_decision decision by a = \<lparr>au_Agent = av_Agent a, au_Kind = ''karmax.decision'', au_Tool = av_Tool a, au_Task = av_Task a,
     au_Class = ToolWrite, au_Decision = decision, au_Args = [], au_Approval = Some (av_ID a), au_By = by, au_OK = None\<rparr>"

definition expire :: "gateway_world \<Rightarrow> gtime \<Rightarrow> gateway \<Rightarrow> gateway" where
  "expire w now g = (case ExpireApprovals (gv_due w) (gv_move w) now (gw_approvals g) of ((gone, _), t) \<Rightarrow>
     fold (\<lambda>a. note_audit (audit_decision Expired '''' a)) gone (with_approvals t g))"

definition gateway_Approvals :: "gateway_world \<Rightarrow> string \<Rightarrow> int \<Rightarrow> gtime \<Rightarrow> gateway \<Rightarrow> (string + Approval list) \<times> gateway" where
  "gateway_Approvals w state limit now g = (let g1 = expire w now g in (list_Approvals (gv_get w) state limit (gw_approvals g1), g1))"

definition Decide :: "gateway_world \<Rightarrow> int \<Rightarrow> string \<Rightarrow> bool \<Rightarrow> string \<Rightarrow> gtime \<Rightarrow> gateway \<Rightarrow> (gateway_error + Approval) \<times> gateway" where
  "Decide w i by approve reason now g0 =
     (let g = expire w now g0
      in case approval w i g of
           Inl e \<Rightarrow> (Inl e, g)
         | Inr a \<Rightarrow>
             if by = '''' then (Inl (BadInput ''a decision needs who made it''), g)
             else if by = av_Agent a then (Inl (Refused ''asked for it and cannot decide on it''), g)
             else (let to = (if approve then Approved else Denied)
               in case MoveApproval (gv_move w i) i Pending to by (if approve then '''' else reason) now (gw_approvals g) of
                    (Inl m, t) \<Rightarrow> (Inl (Failed m), with_approvals t g)
                  | (Inr won, t) \<Rightarrow>
                      (let g1 = with_approvals t g
                       in if \<not> won then (Inl (Conflict ''not pending''), g1)
                          else (let g2 = note_audit (audit_decision to by a) g1 in (approval w i g2, g2)))))"

section \<open>Waiting for a decision\<close>

text \<open>
  A wait begins by reading the request and then looks, again and again; between two looks other callers act. A
  look is given what the wait last read. It returns, or goes on to wait.
\<close>

datatype await_result = Returns "gateway_error option" CallReply | Waits CallReply

definition await_begin :: "gateway_conf \<Rightarrow> gateway_world \<Rightarrow> Requester \<Rightarrow> int \<Rightarrow> gateway \<Rightarrow> gateway_error + Approval" where
  "await_begin c w who i g =
     (if \<not> gc_on c then Inl (Failed ''no KARMAX gateway'')
      else case approval w i g of Inl e \<Rightarrow> Inl e
        | Inr a \<Rightarrow> if av_Agent a \<noteq> rq_Name who \<or> av_Task a \<noteq> rq_Task who then Inl (Refused ''not a request of yours on this task'') else Inr a)"

definition refusal :: "Approval \<Rightarrow> gateway_error" where
  "refusal a = Refused (if av_State a = Denied then av_DecidedBy a @ '' denied it'' @ (if av_Note a = '''' then '''' else '': '' @ av_Note a)
     else if av_State a = Expired then ''expired with no decision'' else ''has already run'')"

definition run_approved :: "gateway_conf \<Rightarrow> gateway_world \<Rightarrow> Approval \<Rightarrow> gtime \<Rightarrow> gateway \<Rightarrow> await_result \<times> gateway" where
  "run_approved c w a now g =
     (let args = gc_unmarshal c (av_Args a);
          (res, g1) = call_tool w (av_Agent a) (Some (av_ID a)) (av_Tool a) args now g;
          note = (case res of Inl m \<Rightarrow> ''failed: '' @ m | Inr r \<Rightarrow> if kr_OK r then ''ok'' else ''tool error: '' @ kr_Error r);
          t = snd (MoveApproval (gv_note w) (av_ID a) Ran Ran '''' note now (gw_approvals g1));
          g2 = note_audit ((audit_call \<lparr>rq_Name = av_Agent a, rq_Task = av_Task a\<rparr> (av_Tool a) ToolWrite ''approved'' args (Some (av_ID a))
                 (Some (call_ok res)))\<lparr>au_By := av_DecidedBy a\<rparr>) (with_approvals t g1);
          reply = no_reply\<lparr>cr_Tool := av_Tool a, cr_Class := ToolWrite, cr_Approval := Some (a\<lparr>av_State := Ran, av_Note := note\<rparr>)\<rparr>
      in case res of Inl m \<Rightarrow> (Returns (Some (Failed m)) reply, g2) | Inr r \<Rightarrow> (Returns None (reply\<lparr>cr_Result := Some r\<rparr>), g2))"

text \<open>What a look does with the request as it has it.\<close>

definition await_act :: "gateway_conf \<Rightarrow> gateway_world \<Rightarrow> Approval \<Rightarrow> gtime \<Rightarrow> gateway \<Rightarrow> await_result \<times> gateway" where
  "await_act c w a now g =
     (let reply = no_reply\<lparr>cr_Tool := av_Tool a, cr_Class := ToolWrite, cr_Approval := Some a\<rparr>
      in if av_State a = Denied \<or> av_State a = Expired \<or> av_State a = Ran then (Returns (Some (refusal a)) reply, g)
         else if av_State a = Approved
         then (if av_Expires a < now then (Returns (Some (Refused ''approved after its wait ended'')) reply, g)
               else case MoveApproval (gv_move w (av_ID a)) (av_ID a) Approved Ran '''' '''' now (gw_approvals g) of
                 (Inl m, t) \<Rightarrow> (Returns (Some (Failed m)) reply, with_approvals t g)
               | (Inr won, t) \<Rightarrow> if won then run_approved c w a now (with_approvals t g) else (Waits reply, with_approvals t g))
         else (Waits reply, g))"

definition await_look :: "gateway_conf \<Rightarrow> gateway_world \<Rightarrow> Approval \<Rightarrow> gtime \<Rightarrow> gateway \<Rightarrow> await_result \<times> gateway" where
  "await_look c w a now g =
     (if av_State a = Pending \<and> av_Expires a \<le> now
      then (let g1 = expire w now g
            in case approval w (av_ID a) g1 of Inl e \<Rightarrow> (Returns (Some e) no_reply, g1) | Inr b \<Rightarrow> await_act c w b now g1)
      else await_act c w a now g)"

text \<open>The looks of one wait. At each, the world of the look, the time, and what others have done since the last one;
  the first reads the request as the wait began.\<close>

fun await_looks :: "gateway_conf \<Rightarrow> (gateway_world \<times> gtime \<times> (gateway \<Rightarrow> gateway)) list \<Rightarrow> Approval \<Rightarrow> gateway \<Rightarrow>
    (gateway_error option \<times> CallReply) option \<times> gateway" where
  "await_looks c [] a g = (None, g)"
| "await_looks c ((w, now, others) # ls) a g =
     (case await_look c w a now g of
        (Returns e reply, g1) \<Rightarrow> (Some (e, reply), g1)
      | (Waits reply, g1) \<Rightarrow>
          (let g2 = others g1
           in case approval w (av_ID a) g2 of Inl e \<Rightarrow> (Some (Some e, no_reply), g2) | Inr b \<Rightarrow> await_looks c ls b g2))"

end
