(* ===== verification/Gateway_Props.thy ===== *)
theory Gateway_Props
  imports Fleet_Gateway
begin

text \<open>
  The gateway as it runs: callers of all kinds interleaved, the invariant of its table, its calls and the waits
  under way, and what follows for the calls that were made.
\<close>

section \<open>The system\<close>

text \<open>A wait has the request it read and is to look at it, or is to read the request of an id again.\<close>

record gate_sys =
  gy_gate :: gateway
  gy_waits :: "(Requester \<times> (Approval + int)) list"

definition on_gate :: "gateway \<Rightarrow> gate_sys \<Rightarrow> gate_sys" where
  "on_gate g s = s\<lparr>gy_gate := g\<rparr>"

definition set_waits :: "(Requester \<times> (Approval + int)) list \<Rightarrow> gate_sys \<Rightarrow> gate_sys" where
  "set_waits ws s = s\<lparr>gy_waits := ws\<rparr>"

inductive gate_step :: "gateway_conf \<Rightarrow> gate_sys \<Rightarrow> gate_sys \<Rightarrow> bool" for c :: gateway_conf where
  gate_call: "gate_step c s (on_gate (snd (KarmaxCall c w who tool args reason timeout now (gy_gate s))) s)"
| gate_decide: "gate_step c s (on_gate (snd (Decide w i by_whom approve reason now (gy_gate s))) s)"
| gate_list: "gate_step c s (on_gate (snd (gateway_Approvals w state limit now (gy_gate s))) s)"
| gate_begin: "await_begin c w who i (gy_gate s) = Inr a \<Longrightarrow> gate_step c s (set_waits ((who, Inl a) # gy_waits s) s)"
| gate_look: "(who, Inl a) \<in> set (gy_waits s) \<Longrightarrow> await_look c w a now (gy_gate s) = (Returns e reply, g) \<Longrightarrow>
    gate_step c s (on_gate g (set_waits (remove1 (who, Inl a) (gy_waits s)) s))"
| gate_wait: "(who, Inl a) \<in> set (gy_waits s) \<Longrightarrow> await_look c w a now (gy_gate s) = (Waits reply, g) \<Longrightarrow>
    gate_step c s (on_gate g (set_waits ((who, Inr (av_ID a)) # remove1 (who, Inl a) (gy_waits s)) s))"
| gate_again: "(who, Inr i) \<in> set (gy_waits s) \<Longrightarrow> approval w i (gy_gate s) = Inr a \<Longrightarrow>
    gate_step c s (set_waits ((who, Inl a) # remove1 (who, Inr i) (gy_waits s)) s)"
| gate_gone: "gate_step c s (set_waits (remove1 x (gy_waits s)) s)"
| gate_fleet: "gate_step c s (on_gate ((gy_gate s)\<lparr>gw_fleet := f\<rparr>) s)"
| gate_restart: "gate_step c s (set_waits [] s)"

definition gate_start :: "fleet \<Rightarrow> gate_sys" where
  "gate_start f = \<lparr>gy_gate = \<lparr>gw_fleet = f, gw_approvals = no_approvals, gw_calls = [], gw_audit = []\<rparr>, gy_waits = []\<rparr>"

inductive gate_reach :: "gateway_conf \<Rightarrow> gate_sys \<Rightarrow> bool" for c :: gateway_conf where
  reach_start: "gate_reach c (gate_start f)"
| reach_step: "gate_reach c s \<Longrightarrow> gate_step c s s' \<Longrightarrow> gate_reach c s'"

section \<open>The table\<close>

text \<open>A row: filed for a write, and decided on by somebody other than who asked.\<close>

definition decided :: "ApprovalRow \<Rightarrow> bool" where
  "decided r \<longleftrightarrow> (\<exists>d. ap_DecidedBy r = Some d \<and> d \<noteq> '''' \<and> d \<noteq> ap_Agent r)"

definition write_tool :: "gateway_conf \<Rightarrow> string \<Rightarrow> bool" where
  "write_tool c tool \<longleftrightarrow> ToolClass (gc_Tools c) tool \<noteq> ToolDeny \<and> ToolClass (gc_Tools c) tool \<noteq> ToolRead"

definition row_ok :: "gateway_conf \<Rightarrow> ApprovalRow \<Rightarrow> bool" where
  "row_ok c r \<longleftrightarrow> write_tool c (ap_Tool r) \<and>
     (ap_State r = Pending \<or> ap_State r = Expired \<or> (ap_State r = Approved \<or> ap_State r = Denied \<or> ap_State r = Ran) \<and> decided r)"

definition table_inv :: "gateway_conf \<Rightarrow> approvals \<Rightarrow> bool" where
  "table_inv c t \<longleftrightarrow> table_ok t \<and> (\<forall>r\<in>set (at_rows t). row_ok c r)"

text \<open>No row goes, none changes what it asks for, and one that ran stays so.\<close>

definition keeps_rows :: "approvals \<Rightarrow> approvals \<Rightarrow> bool" where
  "keeps_rows t t' \<longleftrightarrow> (\<forall>r\<in>set (at_rows t). \<exists>r'\<in>set (at_rows t'). request_of r' = request_of r \<and> (ap_State r = Ran \<longrightarrow> ap_State r' = Ran))"

lemma keeps_rows_refl [simp]: "keeps_rows t t"
  by (auto simp: keeps_rows_def)

lemma keeps_rows_trans: "keeps_rows t u \<Longrightarrow> keeps_rows u v \<Longrightarrow> keeps_rows t v"
  by (fastforce simp: keeps_rows_def)

definition allowed :: "string \<Rightarrow> string \<Rightarrow> string \<Rightarrow> string \<Rightarrow> bool" where
  "allowed agent from to by_whom \<longleftrightarrow> from = Pending \<and> to = Expired \<or> from = Pending \<and> (to = Approved \<or> to = Denied) \<and> by_whom \<noteq> '''' \<and> by_whom \<noteq> agent \<or>
     from = Approved \<and> to = Ran \<and> by_whom = '''' \<or> from = Ran \<and> to = Ran \<and> by_whom = ''''"

lemma allowed_row: "row_ok c r \<Longrightarrow> allowed (ap_Agent r) (ap_State r) to by_whom \<Longrightarrow> row_ok c (moved_row to by_whom remark now r)"
  by (auto simp: row_ok_def allowed_def moved_row_def decided_def nullStr_def approval_states)

lemma allowed_ran: "allowed agent Ran to by_whom \<Longrightarrow> to = Ran"
  by (simp add: allowed_def approval_states)

lemma move_keeps:
  assumes "table_inv c t" and "\<And>r. r \<in> set (at_rows t) \<Longrightarrow> ap_ID r = i \<Longrightarrow> allowed (ap_Agent r) from to by_whom"
  shows "table_inv c (snd (MoveApproval err i from to by_whom remark now t)) \<and> keeps_rows t (snd (MoveApproval err i from to by_whom remark now t))"
proof -
  have "table_ok (snd (MoveApproval err i from to by_whom remark now t))" using assms(1) by (simp add: table_inv_def MoveApproval_table)
  moreover have "\<forall>r\<in>set (at_rows (snd (MoveApproval err i from to by_whom remark now t))). row_ok c r"
    using assms by (auto simp: table_inv_def MoveApproval_rows update_where_def intro: allowed_row)
  moreover have "keeps_rows t (snd (MoveApproval err i from to by_whom remark now t))"
    unfolding keeps_rows_def
  proof (intro ballI)
    fix r assume r: "r \<in> set (at_rows t)"
    let ?r' = "if err = None \<and> ap_ID r = i \<and> ap_State r = from then moved_row to by_whom remark now r else r"
    have "?r' \<in> set (at_rows (snd (MoveApproval err i from to by_whom remark now t)))"
      using r by (auto simp: MoveApproval_rows update_where_def)
    moreover have "ap_State r = Ran \<longrightarrow> ap_State ?r' = Ran" using assms(2) [OF r] allowed_ran by auto
    moreover have "request_of ?r' = request_of r" by simp
    ultimately show "\<exists>r'\<in>set (at_rows (snd (MoveApproval err i from to by_whom remark now t))).
        request_of r' = request_of r \<and> (ap_State r = Ran \<longrightarrow> ap_State r' = Ran)" by blast
  qed
  ultimately show ?thesis by (simp add: table_inv_def)
qed

lemma expire_each_keeps:
  "table_inv c t \<Longrightarrow> table_inv c (snd (expire_each merr now rs gone t)) \<and> keeps_rows t (snd (expire_each merr now rs gone t))"
proof (induction rs arbitrary: gone t)
  case (Cons r rs)
  have k: "table_inv c (snd (MoveApproval (merr (ap_ID r)) (ap_ID r) Pending Expired '''' '''' now t)) \<and>
      keeps_rows t (snd (MoveApproval (merr (ap_ID r)) (ap_ID r) Pending Expired '''' '''' now t))"
    using Cons.prems by (rule move_keeps) (simp add: allowed_def)
  obtain x t' where m: "MoveApproval (merr (ap_ID r)) (ap_ID r) Pending Expired '''' '''' now t = (x, t')" by fastforce
  show ?case
  proof (cases x)
    case (Inl e)
    then show ?thesis using k m by simp
  next
    case (Inr ok)
    then show ?thesis using k m Cons.IH [of t'] by (auto intro: keeps_rows_trans)
  qed
qed simp

lemma Expire_keeps: "table_inv c t \<Longrightarrow>
    table_inv c (snd (ExpireApprovals qerr merr now t)) \<and> keeps_rows t (snd (ExpireApprovals qerr merr now t))"
  by (simp add: ExpireApprovals_def expire_each_keeps split: option.splits)

lemma Add_keeps: "table_inv c t \<Longrightarrow> write_tool c (av_Tool a) \<Longrightarrow>
    table_inv c (snd (AddApproval err a t)) \<and> keeps_rows t (snd (AddApproval err a t))"
  using AddApproval_table [of t err a]
  by (auto simp: table_inv_def keeps_rows_def AddApproval_def row_ok_def split: option.splits)

section \<open>Calls and waits\<close>

text \<open>Why a call was made: a read, or a request that is marked as ran.\<close>

definition justified :: "gateway_conf \<Rightarrow> approvals \<Rightarrow> tool_call \<Rightarrow> bool" where
  "justified c t k \<longleftrightarrow> (case tl_Approval k of
     None \<Rightarrow> ToolClass (gc_Tools c) (tl_Tool k) = ToolRead
   | Some i \<Rightarrow> \<exists>r\<in>set (at_rows t). ap_ID r = i \<and> ap_State r = Ran \<and> ap_Agent r = tl_Who k \<and> ap_Tool r = tl_Tool k \<and>
       tl_Args k = gc_unmarshal c (av_Args (scanApproval r)) \<and> tl_At k \<le> of_unix (ap_Expires r))"

definition call_ids :: "tool_call list \<Rightarrow> int list" where
  "call_ids ks = concat (map (\<lambda>k. case tl_Approval k of None \<Rightarrow> [] | Some i \<Rightarrow> [i]) ks)"

text \<open>What a wait has read of a request.\<close>

definition seen_request :: "approvals \<Rightarrow> Approval \<Rightarrow> bool" where
  "seen_request t a \<longleftrightarrow> (\<exists>r\<in>set (at_rows t). ap_ID r = av_ID a \<and> ap_Agent r = av_Agent a \<and> coalesce '''' (ap_Task r) = av_Task a \<and>
     ap_Tool r = av_Tool a \<and> coalesce ''{}'' (ap_Args r) = av_Args a \<and> of_unix (ap_Expires r) = av_Expires a)"

definition wait_ok :: "approvals \<Rightarrow> Requester \<times> (Approval + int) \<Rightarrow> bool" where
  "wait_ok t x \<longleftrightarrow> (case x of
     (who, Inl a) \<Rightarrow> seen_request t a \<and> av_Agent a = rq_Name who \<and> av_Task a = rq_Task who
   | (who, Inr i) \<Rightarrow> \<exists>r\<in>set (at_rows t). ap_ID r = i \<and> ap_Agent r = rq_Name who \<and> coalesce '''' (ap_Task r) = rq_Task who)"

lemma justified_mono: "keeps_rows t t' \<Longrightarrow> justified c t k \<Longrightarrow> justified c t' k"
  by (fastforce simp: justified_def keeps_rows_def request_of_def scanApproval_def split: option.splits)

lemma seen_mono: "keeps_rows t t' \<Longrightarrow> seen_request t a \<Longrightarrow> seen_request t' a"
  by (fastforce simp: seen_request_def keeps_rows_def request_of_def)

lemma wait_mono: "keeps_rows t t' \<Longrightarrow> wait_ok t x \<Longrightarrow> wait_ok t' x"
  by (cases x; cases "snd x") (auto simp: wait_ok_def intro: seen_mono, fastforce simp: keeps_rows_def request_of_def)

definition gate_ok :: "gateway_conf \<Rightarrow> gateway \<Rightarrow> bool" where
  "gate_ok c g \<longleftrightarrow> table_inv c (gw_approvals g) \<and> (\<forall>k\<in>set (gw_calls g). justified c (gw_approvals g) k) \<and> distinct (call_ids (gw_calls g))"

text \<open>An operation keeps the gateway: it keeps the invariant and the rows.\<close>

definition keeps_gate :: "gateway_conf \<Rightarrow> gateway \<Rightarrow> gateway \<Rightarrow> bool" where
  "keeps_gate c g g' \<longleftrightarrow> (gate_ok c g \<longrightarrow> gate_ok c g' \<and> keeps_rows (gw_approvals g) (gw_approvals g'))"

lemma keeps_gate_refl [simp]: "keeps_gate c g g"
  by (simp add: keeps_gate_def)

lemma keeps_gate_trans: "keeps_gate c g h \<Longrightarrow> keeps_gate c h k \<Longrightarrow> keeps_gate c g k"
  by (auto simp: keeps_gate_def intro: keeps_rows_trans)

lemma keeps_table:
  assumes "gate_ok c g \<Longrightarrow> table_inv c t \<and> keeps_rows (gw_approvals g) t"
  shows "keeps_gate c g (with_approvals t g)"
  using assms by (auto simp: keeps_gate_def gate_ok_def with_approvals_def intro: justified_mono)

lemma keeps_audit [simp]: "keeps_gate c g (note_audit a g)"
  by (simp add: keeps_gate_def gate_ok_def note_audit_def)

lemma keeps_fleet [simp]: "keeps_gate c g (g\<lparr>gw_fleet := f\<rparr>)"
  by (simp add: keeps_gate_def gate_ok_def)

lemma keeps_audits: "keeps_gate c g (fold (\<lambda>a. note_audit (h a)) xs g)"
  by (rule fold_inv [where P = "keeps_gate c g"]) (auto intro: keeps_gate_trans)

section \<open>The operations keep the gateway\<close>

lemma expire_keeps: "keeps_gate c g (expire w now g)"
proof -
  have "keeps_gate c g (with_approvals (snd (ExpireApprovals (gv_due w) (gv_move w) now (gw_approvals g))) g)"
    by (rule keeps_table) (use Expire_keeps in \<open>auto simp: gate_ok_def\<close>)
  then show ?thesis using keeps_audits keeps_gate_trans by (fastforce simp: expire_def split: prod.splits)
qed

lemma list_keeps: "keeps_gate c g (snd (gateway_Approvals w state limit now g))"
  by (simp add: gateway_Approvals_def Let_def expire_keeps)

lemma gate_ok_call:
  assumes "gate_ok c g" and "justified c (gw_approvals g) k" and "\<And>i. tl_Approval k = Some i \<Longrightarrow> i \<notin> set (call_ids (gw_calls g))"
  shows "gate_ok c (g\<lparr>gw_calls := gw_calls g @ [k]\<rparr>)"
  using assms by (auto simp: gate_ok_def call_ids_def split: option.splits)

lemma free_read_keeps: "ToolClass (gc_Tools c) tool = ToolRead \<Longrightarrow> keeps_gate c g (snd (call_tool w who None tool args now g))"
  using gate_ok_call [of c g "\<lparr>tl_Who = who, tl_Tool = tool, tl_Args = args, tl_Approval = None, tl_At = now\<rparr>"]
  by (simp add: keeps_gate_def call_tool_def justified_def)

lemma file_keeps:
  assumes "write_tool c tool"
  shows "keeps_gate c g (snd (file_write c w who tool args reason timeout now reply g))"
proof (cases "gc_marshal c args")
  case (Inr b)
  let ?a = "\<lparr>av_ID = 0, av_Agent = rq_Name who, av_Task = rq_Task who, av_Tool = tool, av_Args = b, av_Reason = reason,
     av_State = Pending, av_DecidedBy = '''', av_Note = '''', av_At = now, av_Decided = zero_time,
     av_Expires = now + min (if timeout \<le> 0 then ApprovalTimeout else timeout) MaxApprovalTimeout\<rparr>"
  have k: "keeps_gate c g (with_approvals (snd (AddApproval (gv_add w) ?a (gw_approvals g))) g)"
    by (rule keeps_table) (use Add_keeps [of c "gw_approvals g" ?a "gv_add w"] assms in \<open>simp add: gate_ok_def\<close>)
  obtain x t where m: "AddApproval (gv_add w) ?a (gw_approvals g) = (x, t)" by fastforce
  show ?thesis
  proof (cases x)
    case (Inr i)
    have "keeps_gate c g (note_audit au (with_approvals t g)\<lparr>gw_fleet := f\<rparr>)" for au f
      using k m by (metis keeps_audit keeps_fleet keeps_gate_trans snd_conv)
    then show ?thesis using m Inr \<open>gc_marshal c args = Inr b\<close> by (simp add: file_write_def Let_def split: prod.splits)
  qed (use m Inr in \<open>simp add: file_write_def Let_def\<close>)
qed (simp add: file_write_def)

lemma call_keeps: "keeps_gate c g (snd (KarmaxCall c w who tool args reason timeout now g))"
proof -
  consider "\<not> gc_on c \<or> rq_Name who = ''''" | "gc_on c" "rq_Name who \<noteq> ''''" "ToolClass (gc_Tools c) tool = ToolDeny"
    | "gc_on c" "rq_Name who \<noteq> ''''" "ToolClass (gc_Tools c) tool = ToolRead"
    | "gc_on c" "rq_Name who \<noteq> ''''" "write_tool c tool" by (auto simp: write_tool_def)
  then show ?thesis
  proof cases
    case 1
    then show ?thesis by (simp add: KarmaxCall_def)
  next
    case 2
    then show ?thesis by (simp add: KarmaxCall_def Let_def)
  next
    case 3
    have "ToolRead \<noteq> ToolDeny" by (simp add: tool_classes)
    moreover have "keeps_gate c g (note_audit au (snd (call_tool w (rq_Name who) None tool args now g)))" for au
      using free_read_keeps [OF 3(3)] keeps_audit keeps_gate_trans by blast
    ultimately show ?thesis using 3 by (auto simp: KarmaxCall_def Let_def split: prod.splits sum.splits)
  next
    case 4
    then show ?thesis using file_keeps [OF 4(3)] by (simp add: KarmaxCall_def Let_def write_tool_def)
  qed
qed

text \<open>The request a read finds is a row of the table.\<close>

lemma approval_row: "approval w i g = Inr a \<Longrightarrow> \<exists>r\<in>set (at_rows (gw_approvals g)). ap_ID r = i \<and> a = scanApproval r"
  by (auto simp: approval_def split: sum.splits option.splits dest!: fst_GetApproval row_of_Some)

lemma approval_seen: "approval w i g = Inr a \<Longrightarrow> seen_request (gw_approvals g) a \<and> av_ID a = i"
  by (force simp: seen_request_def scanApproval_def dest: approval_row)

lemma same_id: "table_ok t \<Longrightarrow> r \<in> set (at_rows t) \<Longrightarrow> r' \<in> set (at_rows t) \<Longrightarrow> ap_ID r = ap_ID r' \<Longrightarrow> r = r'"
  by (auto simp: table_ok_def distinct_map dest: inj_onD)

lemma decide_keeps: "keeps_gate c g0 (snd (Decide w i by_whom approve reason now g0))"
proof -
  define g where "g = expire w now g0"
  have e: "keeps_gate c g0 g" by (simp add: g_def expire_keeps)
  show ?thesis
  proof (cases "approval w i g")
    case (Inl m)
    then show ?thesis using e by (simp add: Decide_def Let_def flip: g_def)
  next
    case (Inr a)
    show ?thesis
    proof (cases "by_whom = '''' \<or> by_whom = av_Agent a")
      case True
      then show ?thesis using e Inr by (auto simp: Decide_def Let_def simp flip: g_def)
    next
      case False
      let ?to = "if approve then Approved else Denied"
      obtain x t where m: "MoveApproval (gv_move w i) i Pending ?to by_whom (if approve then '''' else reason) now (gw_approvals g) = (x, t)"
        by fastforce
      have "keeps_gate c g (with_approvals t g)"
      proof (rule keeps_table)
        assume ok: "gate_ok c g"
        obtain r0 where r0: "r0 \<in> set (at_rows (gw_approvals g))" "ap_ID r0 = i" "a = scanApproval r0" using approval_row [OF Inr] by blast
        have tok: "table_ok (gw_approvals g)" using ok by (simp add: gate_ok_def table_inv_def)
        have "allowed (ap_Agent r) Pending ?to by_whom" if "r \<in> set (at_rows (gw_approvals g))" "ap_ID r = i" for r
        proof -
          have "r = r0" using same_id [OF tok that(1) r0(1)] that(2) r0(2) by simp
          then have "av_Agent a = ap_Agent r" by (simp add: r0(3) scanApproval_def)
          then show ?thesis using False by (simp add: allowed_def)
        qed
        then show "table_inv c t \<and> keeps_rows (gw_approvals g) t"
          using move_keeps [of c "gw_approvals g" i Pending ?to by_whom "gv_move w i"] ok m by (metis gate_ok_def snd_conv)
      qed
      then have k: "keeps_gate c g0 (with_approvals t g)" and k': "keeps_gate c g0 (note_audit au (with_approvals t g))" for au
        using e keeps_gate_trans keeps_audit by blast+
      show ?thesis
      proof (cases x)
        case (Inl n)
        then show ?thesis using k m False \<open>approval w i g = Inr a\<close> by (simp add: Decide_def Let_def flip: g_def)
      next
        case x: (Inr won)
        then show ?thesis using k k' m False Inr by (simp add: Decide_def Let_def flip: g_def)
      qed
    qed
  qed
qed

section \<open>A look at a request\<close>

text \<open>Who wins the move of an approved request makes the one call of it.\<close>

lemma win_run:
  assumes ok: "gate_ok c g" and seen: "seen_request (gw_approvals g) a" and due: "now \<le> av_Expires a"
    and won: "MoveApproval err (av_ID a) Approved Ran '''' '''' now (gw_approvals g) = (Inr True, t)"
  shows "gate_ok c (snd (call_tool w (av_Agent a) (Some (av_ID a)) (av_Tool a) (gc_unmarshal c (av_Args a)) now (with_approvals t g))) \<and>
    keeps_rows (gw_approvals g) t"
proof -
  have tok: "table_ok (gw_approvals g)" and inv: "table_inv c (gw_approvals g)" using ok by (auto simp: gate_ok_def table_inv_def)
  obtain r where r: "r \<in> set (at_rows (gw_approvals g))" "ap_ID r = av_ID a" "ap_State r = Approved" and err: "err = None"
    using MoveApproval_won [OF tok, of err "av_ID a" Approved Ran "''''" "''''" now] won by (auto dest: row_of_Some)
  obtain q where q: "q \<in> set (at_rows (gw_approvals g))" "ap_ID q = av_ID a" "ap_Agent q = av_Agent a" "ap_Tool q = av_Tool a"
      "coalesce ''{}'' (ap_Args q) = av_Args a" "of_unix (ap_Expires q) = av_Expires a" using seen by (auto simp: seen_request_def)
  have qr: "q = r" using same_id [OF tok q(1) r(1)] q(2) r(2) by simp
  have all: "allowed (ap_Agent x) Approved Ran ''''" for x by (simp add: allowed_def)
  have keeps: "table_inv c t \<and> keeps_rows (gw_approvals g) t"
    using move_keeps [OF inv, of "av_ID a" Approved Ran "''''" err "''''" now] all won by (metis snd_conv)
  have fresh: "av_ID a \<notin> set (call_ids (gw_calls g))"
  proof
    assume "av_ID a \<in> set (call_ids (gw_calls g))"
    then obtain k where k: "k \<in> set (gw_calls g)" "tl_Approval k = Some (av_ID a)" by (auto simp: call_ids_def split: option.splits)
    then obtain z where "z \<in> set (at_rows (gw_approvals g))" "ap_ID z = av_ID a" "ap_State z = Ran"
      using ok by (force simp: gate_ok_def justified_def)
    then show False using same_id [OF tok _ r(1)] r(2,3) by (force simp: approval_states)
  qed
  let ?r = "moved_row Ran '''' '''' now r"
  have "at_rows t = update_where (\<lambda>r. ap_ID r = av_ID a \<and> ap_State r = Approved) (moved_row Ran '''' '''' now) (at_rows (gw_approvals g))"
    using MoveApproval_rows [of err "av_ID a" Approved Ran "''''" "''''" now "gw_approvals g"] won err by simp
  then have "?r \<in> set (at_rows t)" using r by (auto simp: update_where_def)
  moreover have "ap_ID ?r = av_ID a \<and> ap_State ?r = Ran \<and> ap_Agent ?r = av_Agent a \<and> ap_Tool ?r = av_Tool a \<and>
      av_Args (scanApproval ?r) = av_Args a \<and> of_unix (ap_Expires ?r) = av_Expires a"
    using q r(2) qr by (simp add: moved_row_def scanApproval_def)
  ultimately have j: "justified c t \<lparr>tl_Who = av_Agent a, tl_Tool = av_Tool a, tl_Args = gc_unmarshal c (av_Args a), tl_Approval = Some (av_ID a), tl_At = now\<rparr>"
    (is "justified c t ?k") using due by (auto simp: justified_def intro!: bexI [of _ ?r])
  have "gate_ok c (with_approvals t g)" using keeps_table [of c g t] keeps ok by (auto simp: keeps_gate_def)
  then have "gate_ok c ((with_approvals t g)\<lparr>gw_calls := gw_calls (with_approvals t g) @ [?k]\<rparr>)"
    by (rule gate_ok_call) (use j fresh in \<open>simp_all add: with_approvals_def\<close>)
  then show ?thesis using keeps by (simp add: call_tool_def)
qed

lemma note_keeps: "keeps_gate c g (with_approvals (snd (MoveApproval err i Ran Ran '''' remark now (gw_approvals g))) g)"
  by (rule keeps_table) (use move_keeps [of c "gw_approvals g" i Ran Ran "''''" err remark now] in \<open>auto simp: gate_ok_def allowed_def\<close>)

lemma run_approved_keeps:
  assumes "seen_request (gw_approvals g) a" and "now \<le> av_Expires a"
    and won: "MoveApproval err (av_ID a) Approved Ran '''' '''' now (gw_approvals g) = (Inr True, t)"
  shows "keeps_gate c g (snd (run_approved c w a now (with_approvals t g)))"
proof -
  let ?g1 = "snd (call_tool w (av_Agent a) (Some (av_ID a)) (av_Tool a) (gc_unmarshal c (av_Args a)) now (with_approvals t g))"
  have "gw_approvals ?g1 = t" by (simp add: call_tool_def with_approvals_def)
  then have 1: "keeps_gate c g ?g1" using win_run [OF _ assms(1,2) won, of c w] by (auto simp: keeps_gate_def)
  have "keeps_gate c g (note_audit au (with_approvals (snd (MoveApproval e (av_ID a) Ran Ran '''' remark now (gw_approvals ?g1))) ?g1))" for au e remark
    using 1 note_keeps [of c ?g1 e "av_ID a" remark now] keeps_audit keeps_gate_trans by blast
  then show ?thesis by (auto simp: run_approved_def Let_def split: prod.splits sum.splits)
qed

lemma act_keeps:
  assumes "seen_request (gw_approvals g) a"
  shows "keeps_gate c g (snd (await_act c w a now g))"
proof -
  obtain x t where m: "MoveApproval (gv_move w (av_ID a)) (av_ID a) Approved Ran '''' '''' now (gw_approvals g) = (x, t)" by fastforce
  have k: "keeps_gate c g (with_approvals t g)"
  proof (rule keeps_table)
    assume "gate_ok c g"
    then show "table_inv c t \<and> keeps_rows (gw_approvals g) t"
      using move_keeps [of c "gw_approvals g" "av_ID a" Approved Ran "''''" "gv_move w (av_ID a)" "''''" now] m
      by (auto simp: allowed_def gate_ok_def)
  qed
  show ?thesis
  proof (cases x)
    case (Inl e)
    then show ?thesis using k m by (simp add: await_act_def Let_def)
  next
    case (Inr won)
    show ?thesis
    proof (cases won)
      case True
      then show ?thesis using k m Inr run_approved_keeps [OF assms, of now "gv_move w (av_ID a)" t c w]
        by (simp add: await_act_def Let_def)
    next
      case False
      then show ?thesis using k m Inr by (simp add: await_act_def Let_def)
    qed
  qed
qed

lemma look_keeps:
  assumes "seen_request (gw_approvals g) a"
  shows "keeps_gate c g (snd (await_look c w a now g))"
proof (cases "av_State a = Pending \<and> av_Expires a \<le> now")
  case False
  then show ?thesis using act_keeps [OF assms] by (auto simp: await_look_def)
next
  case True
  show ?thesis
  proof (cases "approval w (av_ID a) (expire w now g)")
    case (Inl e)
    then show ?thesis using True expire_keeps by (simp add: await_look_def Let_def)
  next
    case (Inr b)
    then have "keeps_gate c (expire w now g) (snd (await_act c w b now (expire w now g)))" by (blast intro: act_keeps dest: approval_seen)
    then have "keeps_gate c g (snd (await_act c w b now (expire w now g)))" by (rule keeps_gate_trans [OF expire_keeps])
    then show ?thesis using True Inr by (simp add: await_look_def Let_def)
  qed
qed

section \<open>The invariant\<close>

definition gate_inv :: "gateway_conf \<Rightarrow> gate_sys \<Rightarrow> bool" where
  "gate_inv c s \<longleftrightarrow> gate_ok c (gy_gate s) \<and> (\<forall>x\<in>set (gy_waits s). wait_ok (gw_approvals (gy_gate s)) x)"

lemma inv_gate: "gate_inv c s \<Longrightarrow> keeps_gate c (gy_gate s) g \<Longrightarrow> gate_inv c (on_gate g s)"
  by (auto simp: gate_inv_def keeps_gate_def on_gate_def intro: wait_mono)

lemma inv_waits: "gate_inv c s \<Longrightarrow> \<forall>x\<in>set ws. x \<in> set (gy_waits s) \<or> wait_ok (gw_approvals (gy_gate s)) x \<Longrightarrow> gate_inv c (set_waits ws s)"
  by (auto simp: gate_inv_def set_waits_def)

lemma inv_begin:
  assumes "gate_inv c s" and "await_begin c w who i (gy_gate s) = Inr a"
  shows "gate_inv c (set_waits ((who, Inl a) # gy_waits s) s)"
proof (rule inv_waits [OF assms(1)])
  have "approval w i (gy_gate s) = Inr a \<and> av_Agent a = rq_Name who \<and> av_Task a = rq_Task who"
    using assms(2) by (auto simp: await_begin_def split: if_splits sum.splits)
  then show "\<forall>x\<in>set ((who, Inl a) # gy_waits s). x \<in> set (gy_waits s) \<or> wait_ok (gw_approvals (gy_gate s)) x"
    by (auto simp: wait_ok_def dest: approval_seen)
qed

lemma inv_look:
  assumes "gate_inv c s" and "(who, Inl a) \<in> set (gy_waits s)"
  shows "gate_inv c (on_gate (snd (await_look c w a now (gy_gate s))) s)"
proof (rule inv_gate [OF assms(1) look_keeps])
  show "seen_request (gw_approvals (gy_gate s)) a" using assms by (force simp: gate_inv_def wait_ok_def)
qed

lemma remove1_mem: "x \<in> set (remove1 y xs) \<Longrightarrow> x \<in> set xs"
  by (rule subsetD [OF set_remove1_subset])

lemma on_gate_waits [simp]: "gy_waits (on_gate g s) = gy_waits s" "gy_gate (on_gate g s) = g"
    "on_gate g (set_waits ws s) = set_waits ws (on_gate g s)"
  by (simp_all add: on_gate_def set_waits_def)

lemma gate_step_inv: "gate_step c s s' \<Longrightarrow> gate_inv c s \<Longrightarrow> gate_inv c s'"
proof (induction rule: gate_step.induct)
  case (gate_look who a s w now e reply g)
  have "gate_inv c (on_gate g s)" using inv_look [OF gate_look.prems gate_look.hyps(1), of w now] gate_look.hyps(2) by simp
  then show ?case by (auto dest: remove1_mem intro!: inv_waits)
next
  case (gate_wait who a s w now reply g)
  have i: "gate_inv c (on_gate g s)" using inv_look [OF gate_wait.prems gate_wait.hyps(1), of w now] gate_wait.hyps(2) by simp
  have "wait_ok (gw_approvals g) (who, Inl a)" using i gate_wait.hyps(1) by (auto simp: gate_inv_def)
  then have "wait_ok (gw_approvals g) (who, Inr (av_ID a))" by (auto simp: wait_ok_def seen_request_def)
  then show ?case using i by (auto dest: remove1_mem intro!: inv_waits)
next
  case (gate_again who i s w a)
  have tok: "table_ok (gw_approvals (gy_gate s))" using gate_again.prems by (simp add: gate_inv_def gate_ok_def table_inv_def)
  obtain r where r: "r \<in> set (at_rows (gw_approvals (gy_gate s)))" "ap_ID r = i" "a = scanApproval r"
    using approval_row [OF gate_again.hyps(2)] by blast
  have "wait_ok (gw_approvals (gy_gate s)) (who, Inr i)" using gate_again by (auto simp: gate_inv_def)
  then obtain q where q: "q \<in> set (at_rows (gw_approvals (gy_gate s)))" "ap_ID q = i" "ap_Agent q = rq_Name who" "coalesce '''' (ap_Task q) = rq_Task who"
    by (auto simp: wait_ok_def)
  have "q = r" using same_id [OF tok q(1) r(1)] q(2) r(2) by simp
  then have "wait_ok (gw_approvals (gy_gate s)) (who, Inl a)"
    using q(3,4) approval_seen [OF gate_again.hyps(2)] by (auto simp: wait_ok_def r(3)) (simp_all add: scanApproval_def)
  then show ?case using gate_again.prems by (auto dest: remove1_mem intro!: inv_waits)
next
  case (gate_gone s x)
  then show ?case by (auto dest: remove1_mem intro!: inv_waits)
next
  case (gate_restart s)
  then show ?case by (auto intro!: inv_waits)
qed (auto intro: inv_gate inv_begin call_keeps decide_keeps list_keeps)

lemma gate_reach_inv: "gate_reach c s \<Longrightarrow> gate_inv c s"
proof (induction rule: gate_reach.induct)
  case (reach_start f)
  then show ?case by (simp add: gate_start_def gate_inv_def gate_ok_def table_inv_def table_ok_def no_approvals_def call_ids_def)
next
  case (reach_step s s')
  then show ?case by (blast intro: gate_step_inv)
qed

end
