(* ===== verification/Gateway_Runs.thy ===== *)
theory Gateway_Runs
  imports Fleet_System Gateway_Props
begin

text \<open>
  What the gateway promises: which calls are made and that each is on the audit trail, that a wait ends, and that an
  approved write runs as it was asked.
\<close>

section \<open>The audit trail\<close>

text \<open>The events of calls that were made, and what each says of its call.\<close>

definition tells_call :: "audit \<Rightarrow> bool" where
  "tells_call a \<longleftrightarrow> au_Kind a = ''karmax.call'' \<and> (au_Decision a = ''ran'' \<or> au_Decision a = ''approved'')"

definition call_told :: "tool_call \<Rightarrow> string \<times> string \<times> string list \<times> int option" where
  "call_told k = (tl_Who k, tl_Tool k, argNames (tl_Args k), tl_Approval k)"

definition audit_told :: "audit \<Rightarrow> string \<times> string \<times> string list \<times> int option" where
  "audit_told a = (au_Agent a, au_Tool a, au_Args a, au_Approval a)"

definition audited :: "gateway \<Rightarrow> bool" where
  "audited g \<longleftrightarrow> map audit_told (filter tells_call (gw_audit g)) = map call_told (gw_calls g)"

lemma audited_other [simp]: "\<not> tells_call a \<Longrightarrow> audited (note_audit a g) = audited g"
  by (simp add: audited_def note_audit_def)

lemma audited_irrelevant [simp]: "audited (with_approvals t g) = audited g" "audited (g\<lparr>gw_fleet := f\<rparr>) = audited g"
  by (simp_all add: audited_def with_approvals_def)

lemma decision_no_call [simp]: "\<not> tells_call (audit_decision d by_whom a)"
  by (simp add: tells_call_def audit_decision_def)

lemma audited_decisions [simp]: "audited (fold (\<lambda>a. note_audit (audit_decision d by_whom a)) xs g) = audited g"
  by (induction xs arbitrary: g) auto

lemma audited_expire [simp]: "audited (expire w now g) = audited g"
  by (simp add: expire_def split: prod.splits)

lemma audited_Decide [simp]: "audited (snd (Decide w i by_whom approve reason now g)) = audited g"
  by (simp add: Decide_def Let_def split: sum.splits prod.splits)

lemma audited_list [simp]: "audited (snd (gateway_Approvals w state limit now g)) = audited g"
  by (simp add: gateway_Approvals_def Let_def)

lemma audited_called: "audited g \<Longrightarrow> tells_call a \<Longrightarrow> audit_told a = (who, tool, argNames args, i) \<Longrightarrow>
    audited (note_audit a (with_approvals t (snd (call_tool w who i tool args now g)))) \<and>
    audited (note_audit a (snd (call_tool w who i tool args now g)))"
  by (simp add: audited_def note_audit_def with_approvals_def call_tool_def call_told_def)

lemma audited_file [simp]: "audited (snd (file_write c w who tool args reason timeout now reply g)) = audited g"
proof -
  have "\<not> tells_call (audit_call who tool kl ''requested'' args i ok)" for kl i ok
    by (simp add: tells_call_def audit_call_def)
  then show ?thesis by (simp add: file_write_def Let_def split: sum.splits prod.splits)
qed

lemma audited_call:
  assumes "audited g"
  shows "audited (snd (KarmaxCall c w who tool args reason timeout now g))"
proof -
  have r: "\<not> tells_call (audit_call who tool kl ''refused'' args None None)" for kl
    by (simp add: tells_call_def audit_call_def)
  have t: "tells_call (audit_call who tool kl ''ran'' args None ok)"
    "audit_told (audit_call who tool kl ''ran'' args None ok) = (rq_Name who, tool, argNames args, None)" for kl ok
    by (simp_all add: tells_call_def audit_call_def audit_told_def)
  show ?thesis using assms r audited_called [OF assms t]
    by (auto simp: KarmaxCall_def Let_def split: prod.splits sum.splits) (metis snd_conv)+
qed

lemma audited_run:
  assumes "audited g"
  shows "audited (snd (run_approved c w a now g))"
proof -
  let ?au = "\<lambda>args ok. (audit_call \<lparr>rq_Name = av_Agent a, rq_Task = av_Task a\<rparr> (av_Tool a) ToolWrite ''approved'' args (Some (av_ID a)) ok)
    \<lparr>au_By := av_DecidedBy a\<rparr>"
  have t: "tells_call (?au args ok)" "audit_told (?au args ok) = (av_Agent a, av_Tool a, argNames args, Some (av_ID a))" for args ok
    by (simp_all add: tells_call_def audit_call_def audit_told_def)
  show ?thesis using audited_called [OF assms t] by (auto simp: run_approved_def Let_def split: prod.splits sum.splits) (metis snd_conv)+
qed

lemma audited_act: "audited g \<Longrightarrow> audited (snd (await_act c w a now g))"
  by (auto simp: await_act_def Let_def audited_run split: prod.splits sum.splits)

lemma audited_look: "audited g \<Longrightarrow> audited (snd (await_look c w a now g))"
  by (auto simp: await_look_def Let_def intro: audited_act split: sum.splits)

lemma audited_step: "gate_step c s s' \<Longrightarrow> audited (gy_gate s) \<Longrightarrow> audited (gy_gate s')"
proof (induction rule: gate_step.induct)
  case (gate_look who a s w now e reply g)
  then show ?case using audited_look [of "gy_gate s" c w a now] by (simp add: set_waits_def)
next
  case (gate_wait who a s w now reply g)
  then show ?case using audited_look [of "gy_gate s" c w a now] by (simp add: set_waits_def)
qed (simp_all add: audited_call set_waits_def)

lemma audited_reach: "gate_reach c s \<Longrightarrow> audited (gy_gate s)"
proof (induction rule: gate_reach.induct)
  case (reach_start f)
  then show ?case by (simp add: gate_start_def audited_def)
next
  case (reach_step s s')
  then show ?case by (blast intro: audited_step)
qed

section \<open>A wait ends\<close>

text \<open>After expiring what is due, no row of the ids that were due is pending.\<close>

lemma move_not_pending:
  "\<forall>r\<in>set (at_rows (snd (MoveApproval None i Pending Expired '''' '''' now t))). ap_ID r = i \<longrightarrow> ap_State r \<noteq> Pending"
  unfolding MoveApproval_mem by (intro ballI impI) (erule imageE, simp split: if_splits)

lemma move_stays:
  "(\<forall>r\<in>set (at_rows t). ap_ID r = j \<longrightarrow> ap_State r \<noteq> Pending) \<Longrightarrow>
   (\<forall>r\<in>set (at_rows (snd (MoveApproval err i Pending Expired '''' '''' now t))). ap_ID r = j \<longrightarrow> ap_State r \<noteq> Pending)"
  unfolding MoveApproval_mem by auto

lemma expire_each_done:
  assumes "\<And>i. merr i = None" and "table_ok t" and "j \<in> ap_ID ` set rs \<or> (\<forall>r\<in>set (at_rows t). ap_ID r = j \<longrightarrow> ap_State r \<noteq> Pending)"
  shows "\<forall>r\<in>set (at_rows (snd (expire_each merr now rs gone t))). ap_ID r = j \<longrightarrow> ap_State r \<noteq> Pending"
  using assms(2,3)
proof (induction rs arbitrary: gone t)
  case (Cons q rs)
  let ?t = "snd (MoveApproval (merr (ap_ID q)) (ap_ID q) Pending Expired '''' '''' now t)"
  have tok: "table_ok ?t" using Cons.prems(1) by (rule MoveApproval_table)
  have j: "j \<in> ap_ID ` set rs \<or> (\<forall>r\<in>set (at_rows ?t). ap_ID r = j \<longrightarrow> ap_State r \<noteq> Pending)"
    using Cons.prems move_not_pending [of "ap_ID q" now t] move_stays assms(1) by auto
  obtain ok where m: "MoveApproval (merr (ap_ID q)) (ap_ID q) Pending Expired '''' '''' now t = (Inr ok, ?t)"
    by (simp add: MoveApproval_def assms(1))
  show ?case by (subst expire_each.simps, subst m) (simp add: Cons.IH [OF tok j])
qed simp

definition answers :: "gateway_world \<Rightarrow> bool" where
  "answers w \<longleftrightarrow> gv_due w = None \<and> gv_move w = (\<lambda>_. None)"

lemma expire_not_pending:
  assumes "answers w" and "table_ok (gw_approvals g)" and "r \<in> set (at_rows (gw_approvals (expire w now g)))"
    and "of_unix (ap_Expires r) \<le> now"
  shows "ap_State r \<noteq> Pending"
proof -
  have fold: "gw_approvals (fold (\<lambda>a. note_audit (h a)) xs g) = gw_approvals g" for h xs g
    by (rule fold_keeps) (simp add: note_audit_def)
  let ?t = "gw_approvals g" and ?rs = "filter (is_due now) (at_rows (gw_approvals g))"
  have e: "gw_approvals (expire w now g) = snd (expire_each (gv_move w) now ?rs [] ?t)"
    using assms(1) by (simp add: expire_def ExpireApprovals_def answers_def fold with_approvals_def split: prod.splits)
  have due: "ap_Expires r \<le> unix_of now" using unix_of_mono [OF assms(4)] by simp
  have "ap_ID r \<in> ap_ID ` set ?rs \<or> (\<forall>x\<in>set (at_rows ?t). ap_ID x = ap_ID r \<longrightarrow> ap_State x \<noteq> Pending)"
  proof (cases "\<exists>x\<in>set (at_rows ?t). ap_ID x = ap_ID r \<and> ap_State x = Pending")
    case True
    then obtain x where x: "x \<in> set (at_rows ?t)" "ap_ID x = ap_ID r" "ap_State x = Pending" by blast
    have "ap_Expires x = ap_Expires r"
    proof -
      have "\<exists>x'\<in>set (at_rows (gw_approvals (expire w now g))). ap_ID x' = ap_ID x \<and> ap_Expires x' = ap_Expires x"
        using expire_each_rows [OF x(1), of "gv_move w" now ?rs "[]"] e by auto
      moreover have "table_ok (gw_approvals (expire w now g))" using expire_each_table [OF assms(2)] e by simp
      ultimately show ?thesis using same_id assms(3) x(2) by metis
    qed
    then have "x \<in> set ?rs" using x(1,3) due by (simp add: is_due_def)
    then show ?thesis using x(2) by (metis image_eqI)
  qed blast
  then show ?thesis using expire_each_done [of "gv_move w" ?t "ap_ID r" ?rs now "[]"] assms(1,2,3) e by (auto simp: answers_def)
qed

text \<open>A request as it was read: its state is one of the five.\<close>

lemma row_states: "row_ok c r \<Longrightarrow> ap_State r \<in> {Pending, Approved, Denied, Expired, Ran}"
  by (auto simp: row_ok_def)

lemma act_returns: "av_State a \<in> {Approved, Denied, Expired, Ran} \<Longrightarrow> av_Expires a < now \<Longrightarrow> \<exists>e reply. fst (await_act c w a now g) = Returns e reply"
  by (auto simp: await_act_def Let_def)

lemma late_look_returns:
  assumes "gate_ok c g" and "approval w0 i g0 = Inr a" and "keeps_rows (gw_approvals g0) (gw_approvals g)" and "gate_ok c g0"
    and "av_Expires a < now" and "answers w"
  shows "\<exists>e reply. fst (await_look c w a now g) = Returns e reply"
proof -
  obtain r where r: "r \<in> set (at_rows (gw_approvals g0))" "ap_ID r = i" "a = scanApproval r" using approval_row [OF assms(2)] by blast
  have st: "av_State a \<in> {Pending, Approved, Denied, Expired, Ran}"
    using row_states [of c r] r assms(4) by (simp add: gate_ok_def table_inv_def scanApproval_def)
  show ?thesis
  proof (cases "av_State a = Pending")
    case False
    then show ?thesis using st act_returns [of a now c w g] assms(5) by (simp add: await_look_def)
  next
    case True
    let ?g1 = "expire w now g"
    show ?thesis
    proof (cases "approval w (av_ID a) ?g1")
      case (Inl e)
      then show ?thesis using True assms(5) by (simp add: await_look_def Let_def)
    next
      case (Inr b)
      have ok1: "gate_ok c ?g1" and keep: "keeps_rows (gw_approvals g0) (gw_approvals ?g1)"
        using expire_keeps [of c g w now] assms(1,3) keeps_rows_trans by (auto simp: keeps_gate_def)
      obtain q where q: "q \<in> set (at_rows (gw_approvals ?g1))" "ap_ID q = av_ID a" "b = scanApproval q" using approval_row [OF Inr] by blast
      obtain r' where r': "r' \<in> set (at_rows (gw_approvals ?g1))" "request_of r' = request_of r" using keep r(1) by (auto simp: keeps_rows_def)
      have "table_ok (gw_approvals ?g1)" using ok1 by (simp add: gate_ok_def table_inv_def)
      then have "q = r'" using same_id [OF _ q(1) r'(1)] q(2) r(3) r'(2) by (simp add: scanApproval_def request_of_def)
      then have ex: "av_Expires b = av_Expires a" using r'(2) q(3) r(3) by (simp add: scanApproval_def request_of_def)
      have "ap_State q \<noteq> Pending"
        using expire_not_pending [OF assms(6) _ q(1)] assms(1,5) ex q(3) by (simp add: gate_ok_def table_inv_def scanApproval_def)
      moreover have "ap_State q \<in> {Pending, Approved, Denied, Expired, Ran}"
        using row_states [of c q] ok1 q(1) by (simp add: gate_ok_def table_inv_def)
      ultimately have "av_State b \<in> {Approved, Denied, Expired, Ran}" using q(3) by (simp add: scanApproval_def)
      then show ?thesis using True Inr act_returns [of b now c w ?g1] assms(5) ex by (simp add: await_look_def Let_def)
    qed
  qed
qed

text \<open>What others do between two looks keeps the gateway.\<close>

definition look_at :: "gateway_conf \<Rightarrow> gateway_world \<times> gtime \<times> (gateway \<Rightarrow> gateway) \<Rightarrow> bool" where
  "look_at c l \<longleftrightarrow> (\<forall>g. keeps_gate c g (snd (snd l) g))"

definition late_look :: "gtime \<Rightarrow> gateway_world \<times> gtime \<times> (gateway \<Rightarrow> gateway) \<Rightarrow> bool" where
  "late_look t l \<longleftrightarrow> t < fst (snd l) \<and> answers (fst l)"

lemma looks_end:
  assumes "list_all (look_at c) ls" and "list_ex (late_look (av_Expires a)) ls" and "gate_ok c g" and "approval w0 i g0 = Inr a"
    and "gate_ok c g0" and "keeps_rows (gw_approvals g0) (gw_approvals g)"
  shows "fst (await_looks c ls a g) \<noteq> None"
  using assms
proof (induction ls arbitrary: a g g0 w0 i)
  case (Cons l ls)
  obtain w now others where l: "l = (w, now, others)" by (cases l)
  obtain x g1 where look: "await_look c w a now g = (x, g1)" by fastforce
  have seen: "seen_request (gw_approvals g) a" using approval_seen [OF Cons.prems(4)] Cons.prems(6) seen_mono by blast
  show ?case
  proof (cases x)
    case (Returns e reply)
    then show ?thesis using l look by simp
  next
    case (Waits reply)
    let ?g2 = "others g1"
    have k1: "gate_ok c g1" "keeps_rows (gw_approvals g) (gw_approvals g1)"
      using look_keeps [OF seen, of c w now] look Cons.prems(3) by (auto simp: keeps_gate_def)
    have k2: "gate_ok c ?g2" "keeps_rows (gw_approvals g1) (gw_approvals ?g2)"
      using Cons.prems(1) k1(1) l by (auto simp: look_at_def keeps_gate_def)
    show ?thesis
    proof (cases "approval w (av_ID a) ?g2")
      case (Inl e)
      then show ?thesis using l look Waits by (simp add: Let_def)
    next
      case (Inr b)
      obtain r where r: "r \<in> set (at_rows (gw_approvals g0))" "ap_ID r = i" "a = scanApproval r" using approval_row [OF Cons.prems(4)] by blast
      obtain q where q: "q \<in> set (at_rows (gw_approvals ?g2))" "ap_ID q = av_ID a" "b = scanApproval q" using approval_row [OF Inr] by blast
      have "keeps_rows (gw_approvals g0) (gw_approvals ?g2)" using Cons.prems(6) k1(2) k2(2) keeps_rows_trans by blast
      then obtain r' where r': "r' \<in> set (at_rows (gw_approvals ?g2))" "request_of r' = request_of r" using r(1) by (auto simp: keeps_rows_def)
      have "table_ok (gw_approvals ?g2)" using k2(1) by (simp add: gate_ok_def table_inv_def)
      then have "q = r'" using same_id [OF _ q(1) r'(1)] q(2) r(3) r'(2) by (simp add: scanApproval_def request_of_def)
      then have ex: "av_Expires b = av_Expires a" using r'(2) q(3) r(3) by (simp add: scanApproval_def request_of_def)
      have "\<not> late_look (av_Expires a) l"
        using late_look_returns [OF Cons.prems(3,4,6,5)] look Waits l by (fastforce simp: late_look_def)
      then have "list_ex (late_look (av_Expires b)) ls" using Cons.prems(2) ex by simp
      then have "fst (await_looks c ls b ?g2) \<noteq> None"
        using Cons.IH [OF _ _ k2(1) Inr k2(1)] Cons.prems(1) by simp
      then show ?thesis using l look Waits Inr by (simp add: Let_def)
    qed
  qed
qed simp

section \<open>From a request to its call\<close>

definition clean :: "gateway_world \<Rightarrow> bool" where
  "clean w \<longleftrightarrow> gv_add w = None \<and> gv_get w = None \<and> answers w"

definition limit_of :: "duration \<Rightarrow> duration" where
  "limit_of timeout = min (if timeout \<le> 0 then ApprovalTimeout else timeout) MaxApprovalTimeout"

text \<open>The row of a write as it is filed.\<close>

definition filed_row :: "int \<Rightarrow> Requester \<Rightarrow> string \<Rightarrow> string \<Rightarrow> string \<Rightarrow> duration \<Rightarrow> gtime \<Rightarrow> ApprovalRow" where
  "filed_row i who tool b reason timeout now = \<lparr>ap_ID = i, ap_Agent = rq_Name who, ap_Task = nullStr (rq_Task who), ap_Tool = tool,
     ap_Args = Some (if b = '''' then ''{}'' else b), ap_Reason = Some reason, ap_State = Pending, ap_DecidedBy = None, ap_Note = None,
     ap_At = unix_of now, ap_Decided = None, ap_Expires = unix_of (now + limit_of timeout)\<rparr>"

lemma row_of_one_more: "k \<notin> key ` set rs \<Longrightarrow> row_of key k (rs @ [r]) = (if key r = k then Some r else None)"
  by (induction rs) (auto simp: row_of_def)

lemma write_filed:
  assumes "gc_on c" and "rq_Name who \<noteq> ''''" and "write_tool c tool" and "TrimSpace reason \<noteq> ''''"
    and "gc_marshal c args = Inr b" and "gv_add w = None" and "table_ok (gw_approvals g)"
    and "KarmaxCall c w who tool args reason timeout now g = ((e, reply), g1)"
  shows "e = None \<and> row_of ap_ID (at_next (gw_approvals g)) (at_rows (gw_approvals g1)) =
    Some (filed_row (at_next (gw_approvals g)) who tool b reason timeout now)"
proof -
  have new: "at_next (gw_approvals g) \<notin> ap_ID ` set (at_rows (gw_approvals g))" using assms(7) by (auto simp: table_ok_def)
  have "KarmaxCall c w who tool args reason timeout now g =
      file_write c w who tool args reason timeout now (no_reply\<lparr>cr_Tool := tool, cr_Class := ToolClass (gc_Tools c) tool\<rparr>) g"
    using assms(1-4) by (simp add: KarmaxCall_def Let_def write_tool_def)
  then have "file_write c w who tool args reason timeout now (no_reply\<lparr>cr_Tool := tool, cr_Class := ToolClass (gc_Tools c) tool\<rparr>) g = ((e, reply), g1)"
    using assms(8) by simp
  then show ?thesis using new
    by (auto simp: file_write_def assms(5,6) AddApproval_def Let_def row_of_one_more filed_row_def limit_of_def note_audit_def with_approvals_def
        split: prod.splits)
qed

lemma expire_each_other:
  "i \<notin> ap_ID ` set rs \<Longrightarrow> row_of ap_ID i (at_rows (snd (expire_each merr now rs gone t))) = row_of ap_ID i (at_rows t)"
proof (induction rs arbitrary: gone t)
  case (Cons q rs)
  obtain x t' where m: "MoveApproval (merr (ap_ID q)) (ap_ID q) Pending Expired '''' '''' now t = (x, t')" by fastforce
  have "row_of ap_ID i (at_rows t') = row_of ap_ID i (at_rows t)"
    using MoveApproval_row [of i "merr (ap_ID q)" "ap_ID q" Pending Expired "''''" "''''" now t] m Cons.prems
    by (cases "row_of ap_ID i (at_rows t)") (auto dest: row_of_Some)
  then show ?case using m Cons by (cases x) auto
qed simp

lemma expire_spares:
  assumes "row_of ap_ID i (at_rows (gw_approvals g)) = Some r" and "table_ok (gw_approvals g)" and "unix_of now < ap_Expires r"
  shows "row_of ap_ID i (at_rows (gw_approvals (expire w now g))) = Some r"
proof -
  have fold: "gw_approvals (fold (\<lambda>a. note_audit (h a)) xs g) = gw_approvals g" for h xs g
    by (rule fold_keeps) (simp add: note_audit_def)
  have r: "r \<in> set (at_rows (gw_approvals g))" "ap_ID r = i" using row_of_Some [OF assms(1)] by auto
  have "i \<notin> ap_ID ` set (filter (is_due now) (at_rows (gw_approvals g)))"
  proof
    assume "i \<in> ap_ID ` set (filter (is_due now) (at_rows (gw_approvals g)))"
    then obtain q where q: "q \<in> set (at_rows (gw_approvals g))" "is_due now q" "ap_ID q = i" by auto
    then have "q = r" using same_id [OF assms(2) q(1) r(1)] r(2) by simp
    then show False using q(2) assms(3) by (simp add: is_due_def)
  qed
  then show ?thesis
    using expire_each_other [of i "filter (is_due now) (at_rows (gw_approvals g))" "gv_move w" now "[]" "gw_approvals g"] assms(1)
    by (auto simp: expire_def ExpireApprovals_def fold with_approvals_def split: prod.splits option.splits)
qed

lemma expire_table: "table_ok (gw_approvals g) \<Longrightarrow> table_ok (gw_approvals (expire w now g))"
proof -
  have fold: "gw_approvals (fold (\<lambda>a. note_audit (h a)) xs g) = gw_approvals g" for h xs g
    by (rule fold_keeps) (simp add: note_audit_def)
  assume "table_ok (gw_approvals g)"
  then show ?thesis using ExpireApprovals_table [of "gw_approvals g" "gv_due w" "gv_move w" now]
    by (auto simp: expire_def fold with_approvals_def split: prod.splits)
qed

lemma read_row: "gv_get w = None \<Longrightarrow> row_of ap_ID i (at_rows (gw_approvals g)) = Some r \<Longrightarrow> approval w i g = Inr (scanApproval r)"
  by (simp add: approval_def GetApproval_def)

lemma move_wins:
  assumes "table_ok t" and "row_of ap_ID i (at_rows t) = Some r" and "ap_State r = from_state"
  shows "\<exists>t'. MoveApproval None i from_state to by_whom remark now t = (Inr True, t') \<and> table_ok t' \<and>
    row_of ap_ID i (at_rows t') = Some (moved_row to by_whom remark now r)"
proof -
  let ?m = "MoveApproval None i from_state to by_whom remark now t"
  have "fst ?m = Inr True" using MoveApproval_won [OF assms(1), of None i from_state to by_whom remark now] assms(2,3) by simp
  moreover have "table_ok (snd ?m)" using assms(1) by (rule MoveApproval_table)
  moreover have "row_of ap_ID i (at_rows (snd ?m)) = Some (moved_row to by_whom remark now r)"
    using assms(2,3) row_of_Some [OF assms(2)] by (simp add: MoveApproval_row)
  ultimately show ?thesis by (metis prod.collapse)
qed

text \<open>A decision in time, by somebody else, approves the row.\<close>

lemma decision_approves:
  assumes "clean w" and "table_ok (gw_approvals g)" and "row_of ap_ID i (at_rows (gw_approvals g)) = Some r" and "ap_State r = Pending"
    and "unix_of now < ap_Expires r" and "by_whom \<noteq> ''''" and "by_whom \<noteq> ap_Agent r"
    and "Decide w i by_whom True reason now g = (d, g2)"
  shows "d = Inr (scanApproval (moved_row Approved by_whom '''' now r)) \<and> table_ok (gw_approvals g2) \<and>
    row_of ap_ID i (at_rows (gw_approvals g2)) = Some (moved_row Approved by_whom '''' now r)"
proof -
  let ?g = "expire w now g"
  have r: "row_of ap_ID i (at_rows (gw_approvals ?g)) = Some r" using expire_spares [OF assms(3,2,5)] .
  have tok: "table_ok (gw_approvals ?g)" using expire_table [OF assms(2)] .
  have w: "gv_get w = None" "gv_move w i = None" using assms(1) by (auto simp: clean_def answers_def)
  obtain t' where m: "MoveApproval None i Pending Approved by_whom '''' now (gw_approvals ?g) = (Inr True, t')" "table_ok t'"
      "row_of ap_ID i (at_rows t') = Some (moved_row Approved by_whom '''' now r)" using move_wins [OF tok r assms(4)] by blast
  have ag: "av_Agent (scanApproval r) = ap_Agent r" by (simp add: scanApproval_def)
  let ?g2 = "note_audit (audit_decision Approved by_whom (scanApproval r)) (with_approvals t' ?g)"
  have "gw_approvals ?g2 = t'" by (simp add: note_audit_def with_approvals_def)
  moreover have "Decide w i by_whom True reason now g = (approval w i ?g2, ?g2)"
    using assms(6,7) ag read_row [OF w(1) r] m(1) w(2) by (simp add: Decide_def Let_def)
  ultimately show ?thesis using assms(8) m(2,3) read_row [OF w(1), of i ?g2] by auto
qed

text \<open>The wait of its requester then runs it.\<close>

lemma approved_runs:
  assumes "clean w" and "gc_on c" and "table_ok (gw_approvals g)" and "row_of ap_ID i (at_rows (gw_approvals g)) = Some r"
    and "ap_State r = Approved" and "ap_Agent r = rq_Name who" and "coalesce '''' (ap_Task r) = rq_Task who" and "now \<le> of_unix (ap_Expires r)"
  shows "\<exists>g3 reply e. await_begin c w who i g = Inr (scanApproval r) \<and> await_look c w (scanApproval r) now g = (Returns e reply, g3) \<and>
    gw_calls g3 = gw_calls g @ [\<lparr>tl_Who = rq_Name who, tl_Tool = ap_Tool r, tl_Args = gc_unmarshal c (coalesce ''{}'' (ap_Args r)),
      tl_Approval = Some i, tl_At = now\<rparr>] \<and>
    (case gv_call w (gw_calls g) (ap_Tool r) (gc_unmarshal c (coalesce ''{}'' (ap_Args r))) of
       Inl m \<Rightarrow> e = Some (Failed m) | Inr res \<Rightarrow> e = None \<and> cr_Result reply = Some res)"
proof -
  let ?a = "scanApproval r"
  have a: "av_State ?a = Approved" "av_Agent ?a = rq_Name who" "av_Task ?a = rq_Task who" "av_Expires ?a = of_unix (ap_Expires r)" "av_ID ?a = i"
      "av_Tool ?a = ap_Tool r" "av_Args ?a = coalesce ''{}'' (ap_Args r)"
    using assms(5,6,7) row_of_Some [OF assms(4)] by (auto simp: scanApproval_def)
  have w: "gv_get w = None" "gv_move w i = None" using assms(1) by (auto simp: clean_def answers_def)
  obtain t' where m: "MoveApproval None i Approved Ran '''' '''' now (gw_approvals g) = (Inr True, t')" using move_wins [OF assms(3,4,5)] by blast
  have b: "await_begin c w who i g = Inr ?a" using assms(2) read_row [OF w(1) assms(4)] a by (simp add: await_begin_def)
  have st: "Approved \<noteq> Denied" "Approved \<noteq> Expired" "Approved \<noteq> Ran" "Approved \<noteq> Pending" by simp_all
  have l: "await_look c w ?a now g = run_approved c w ?a now (with_approvals t' g)"
    using a m w(2) assms(8) st by (simp add: await_look_def await_act_def Let_def)
  show ?thesis unfolding l using b a
    by (cases "gv_call w (gw_calls g) (ap_Tool r) (gc_unmarshal c (coalesce ''{}'' (ap_Args r)))")
      (auto simp: run_approved_def call_tool_def note_audit_def with_approvals_def Let_def)
qed

section \<open>What the gateway promises\<close>

text \<open>Two agents and the orchestrator; agent a asks to send a mail, main approves it, a waits for it.\<close>

definition demo_gate :: gateway_conf where
  "demo_gate = \<lparr>gc_fleet = demo_fleet, gc_on = True, gc_Tools = [], gc_marshal = (\<lambda>_. Inr ''{}''), gc_unmarshal = (\<lambda>_. []),
     gc_quote = id, gc_clock = (\<lambda>_. ''12:30 UTC'')\<rparr>"

definition demo_api :: gateway_world where
  "demo_api = \<lparr>gv_fleet = hearing, gv_call = (\<lambda>_ _ _. Inr \<lparr>kr_OK = True, kr_Output = ''{}'', kr_Error = ''''\<rparr>), gv_add = None, gv_get = None,
     gv_due = None, gv_move = (\<lambda>_. None), gv_note = None\<rparr>"

definition demo_who :: Requester where "demo_who = \<lparr>rq_Name = ''a'', rq_Task = ''''\<rparr>"
definition demo_call where "demo_call = KarmaxCall demo_gate demo_api demo_who ''mail.send'' [] ''the client asked'' 0 noon"
definition demo_yes where "demo_yes = Decide demo_api 1 ''main'' True '''' (noon + minute)"
definition gate0 :: gate_sys where "gate0 = gate_start (fst demo0)"
definition gate1 :: gate_sys where "gate1 = on_gate (snd (demo_call (gy_gate gate0))) gate0"
definition gate2 :: gate_sys where "gate2 = on_gate (snd (demo_yes (gy_gate gate1))) gate1"
definition demo_read :: Approval where
  "demo_read = (case await_begin demo_gate demo_api demo_who 1 (gy_gate gate2) of Inr a \<Rightarrow> a | Inl _ \<Rightarrow> scanApproval (filed_row 0 demo_who '''' '''' '''' 0 0))"
definition demo_look where "demo_look = await_look demo_gate demo_api demo_read (noon + 2 * minute) (gy_gate gate2)"
definition gate3 :: gate_sys where "gate3 = set_waits [(demo_who, Inl demo_read)] gate2"
definition gate4 :: gate_sys where "gate4 = on_gate (snd demo_look) (set_waits [] gate3)"

lemma demo_begins: "await_begin demo_gate demo_api demo_who 1 (gy_gate gate2) = Inr demo_read"
proof -
  have "isl (await_begin demo_gate demo_api demo_who 1 (gy_gate gate2)) = False" by code_simp
  then show ?thesis by (auto simp: demo_read_def split: sum.splits)
qed

lemma demo_looks: "\<exists>e reply. demo_look = (Returns e reply, snd demo_look)"
proof -
  have "(case fst demo_look of Returns _ _ \<Rightarrow> True | Waits _ \<Rightarrow> False)" by code_simp
  then obtain e reply where "fst demo_look = Returns e reply" by (cases "fst demo_look") auto
  then show ?thesis by (metis prod.collapse)
qed

lemma gate2_waits: "gy_waits gate2 = []"
  by (simp add: gate2_def gate1_def gate0_def gate_start_def)

lemma demo_gate2: "gate_reach demo_gate gate2"
proof -
  have "gate_reach demo_gate gate1"
    unfolding gate1_def demo_call_def by (rule reach_step [OF _ gate_call]) (simp add: gate0_def reach_start)
  then show ?thesis unfolding gate2_def demo_yes_def by (rule reach_step [OF _ gate_decide])
qed

lemma demo_gate4: "gate_reach demo_gate gate4"
proof -
  have "gate_reach demo_gate gate3"
    using reach_step [OF demo_gate2 gate_begin [OF demo_begins]] by (simp add: gate3_def gate2_waits)
  moreover obtain e reply where d: "await_look demo_gate demo_api demo_read (noon + 2 * minute) (gy_gate gate3) = (Returns e reply, snd demo_look)"
    using demo_looks by (auto simp: demo_look_def gate3_def set_waits_def)
  ultimately show ?thesis
    using reach_step [OF _ gate_look [of demo_who demo_read gate3, OF _ d]] by (simp add: gate4_def gate3_def set_waits_def on_gate_def)
qed

text \<open>
  C4. Whatever agents, the orchestrator and fleetd do at the gateway, in any order and with any answers of the ledger and of
  KARMAX: a tool is called only when its name is that of a read, or for a request of that agent for that tool with those arguments,
  which is marked as ran, before the request expired; every request that ran was approved by somebody other than the agent; and
  no request is run twice.
\<close>
theorem calls_are_justified:
  assumes "gate_reach c s"
  shows "list_all (justified c (gw_approvals (gy_gate s))) (gw_calls (gy_gate s)) \<and> distinct (call_ids (gw_calls (gy_gate s))) \<and>
    list_all (\<lambda>r. ap_State r \<in> {Approved, Ran} \<longrightarrow> decided r \<and> write_tool c (ap_Tool r)) (at_rows (gw_approvals (gy_gate s)))"
  using gate_reach_inv [OF assms]
  by (auto simp: gate_inv_def gate_ok_def table_inv_def row_ok_def list_all_iff approval_states)

theorem calls_are_justified_witness:
  "list_all (justified demo_gate (gw_approvals (gy_gate gate4))) (gw_calls (gy_gate gate4)) \<and> call_ids (gw_calls (gy_gate gate4)) = [1]"
proof -
  have "call_ids (gw_calls (gy_gate gate4)) = [1]" by code_simp
  then show ?thesis using calls_are_justified [OF demo_gate4] by blast
qed

text \<open>
  Every call of a tool has its event in the audit trail of the gateway, in the order of the calls: who it was for, the tool, the
  request it was made for, and the names of its arguments; no event tells of a call that was not made.
\<close>
theorem every_call_is_told:
  assumes "gate_reach c s"
  shows "map audit_told (filter tells_call (gw_audit (gy_gate s))) = map call_told (gw_calls (gy_gate s))"
  using audited_reach [OF assms] by (simp add: audited_def)

theorem every_call_is_told_witness:
  "map audit_told (filter tells_call (gw_audit (gy_gate gate4))) = map call_told (gw_calls (gy_gate gate4)) \<and>
   map tl_Tool (gw_calls (gy_gate gate4)) = [''mail.send'']"
proof
  show "map audit_told (filter tells_call (gw_audit (gy_gate gate4))) = map call_told (gw_calls (gy_gate gate4))"
    by (rule every_call_is_told [OF demo_gate4])
  show "map tl_Tool (gw_calls (gy_gate gate4)) = [''mail.send'']" by code_simp
qed

text \<open>
  C32. A wait for a decision ends: however others act between its looks and whatever the ledger answers, it has returned by the first
  look after the request expired at which the ledger lets what is due expire.
\<close>
theorem wait_ends:
  assumes "gate_reach c s" and "await_begin c w who i (gy_gate s) = Inr a"
    and "list_all (look_at c) ls" and "list_ex (late_look (av_Expires a)) ls"
  shows "fst (await_looks c ls a (gy_gate s)) \<noteq> None"
proof (rule looks_end [OF assms(3,4)])
  show "gate_ok c (gy_gate s)" "gate_ok c (gy_gate s)" using gate_reach_inv [OF assms(1)] by (simp_all add: gate_inv_def)
  show "approval w i (gy_gate s) = Inr a" using assms(2) by (auto simp: await_begin_def split: if_splits sum.splits)
qed simp

theorem wait_ends_witness:
  "fst (await_looks demo_gate [(demo_api, noon + 20 * hour, id)] demo_read (gy_gate gate2)) \<noteq> None"
proof (rule wait_ends [OF demo_gate2 demo_begins])
  show "list_all (look_at demo_gate) [(demo_api, noon + 20 * hour, id)]" by (simp add: look_at_def)
  have "av_Expires demo_read < noon + 20 * hour" by code_simp
  then show "list_ex (late_look (av_Expires demo_read)) [(demo_api, noon + 20 * hour, id)]"
    by (simp add: late_look_def answers_def demo_api_def)
qed

text \<open>
  C31. A write that is filed, approved in time by somebody other than its requester and waited for in time runs: whatever others do to
  other requests in between, the tool is called once, with the arguments that were asked for, as the JSON library reads back what it
  wrote, and the requester gets its result, or the error of the call.
\<close>
theorem approved_write_runs:
  assumes "gc_on c" and "rq_Name who \<noteq> ''''" and "write_tool c tool" and "TrimSpace reason \<noteq> ''''"
    and "gc_marshal c args = Inr b" and "b \<noteq> ''''" and "gc_unmarshal c b = args"
    and "clean w1" and "table_ok (gw_approvals g)" and "i = at_next (gw_approvals g)"
    and "KarmaxCall c w1 who tool args reason timeout t1 g = ((e, reply), g1)"
    and "table_ok (gw_approvals h1)" and "row_of ap_ID i (at_rows (gw_approvals h1)) = row_of ap_ID i (at_rows (gw_approvals g1))"
    and "clean w2" and "by_whom \<noteq> ''''" and "by_whom \<noteq> rq_Name who" and "unix_of t2 < unix_of (t1 + limit_of timeout)"
    and "Decide w2 i by_whom True why t2 h1 = (d, g2)"
    and "table_ok (gw_approvals h2)" and "row_of ap_ID i (at_rows (gw_approvals h2)) = row_of ap_ID i (at_rows (gw_approvals g2))"
    and "clean w3" and "t3 \<le> of_unix (unix_of (t1 + limit_of timeout))"
  shows "\<exists>a g3 rep err. await_begin c w3 who i h2 = Inr a \<and> await_look c w3 a t3 h2 = (Returns err rep, g3) \<and>
    gw_calls g3 = gw_calls h2 @ [\<lparr>tl_Who = rq_Name who, tl_Tool = tool, tl_Args = args, tl_Approval = Some i, tl_At = t3\<rparr>] \<and>
    (case gv_call w3 (gw_calls h2) tool args of Inl m \<Rightarrow> err = Some (Failed m) | Inr res \<Rightarrow> err = None \<and> cr_Result rep = Some res)"
proof -
  let ?r = "filed_row i who tool b reason timeout t1"
  let ?q = "moved_row Approved by_whom '''' t2 ?r"
  have w1: "gv_add w1 = None" using assms(8) by (simp add: clean_def)
  have "row_of ap_ID i (at_rows (gw_approvals h1)) = Some ?r"
    using write_filed [OF assms(1-5) w1 assms(9,11)] assms(10,13) by simp
  then have "row_of ap_ID i (at_rows (gw_approvals h2)) = Some ?q"
    using decision_approves [OF assms(14,12) _ _ _ assms(15) _ assms(18)] assms(16,17,20) by (simp add: filed_row_def)
  from approved_runs [OF assms(21,1,19) this, of who t3] assms(6,7,22)
  show ?thesis by (auto simp: filed_row_def moved_row_def nullStr_def coalesce_def) 
qed

theorem approved_write_runs_witness:
  "\<exists>a g3 rep err. await_begin demo_gate demo_api demo_who 1 (gy_gate gate2) = Inr a \<and>
    await_look demo_gate demo_api a (noon + 2 * minute) (gy_gate gate2) = (Returns err rep, g3) \<and>
    gw_calls g3 = gw_calls (gy_gate gate2) @ [\<lparr>tl_Who = ''a'', tl_Tool = ''mail.send'', tl_Args = [], tl_Approval = Some 1, tl_At = noon + 2 * minute\<rparr>]"
proof -
  have t: "table_ok (gw_approvals (gy_gate gate0))" "table_ok (gw_approvals (gy_gate gate1))" "table_ok (gw_approvals (gy_gate gate2))"
    by code_simp+
  have n: "1 = at_next (gw_approvals (gy_gate gate0))" by code_simp
  have c: "KarmaxCall demo_gate demo_api demo_who ''mail.send'' [] ''the client asked'' 0 noon (gy_gate gate0) =
      ((fst (fst (demo_call (gy_gate gate0))), snd (fst (demo_call (gy_gate gate0)))), gy_gate gate1)"
    by (simp add: gate1_def flip: demo_call_def)
  have d: "Decide demo_api 1 ''main'' True '''' (noon + minute) (gy_gate gate1) = (fst (demo_yes (gy_gate gate1)), gy_gate gate2)"
    by (simp add: gate2_def flip: demo_yes_def)
  have w: "clean demo_api" by (simp add: clean_def answers_def demo_api_def)
  have k: "gc_on demo_gate" "rq_Name demo_who \<noteq> ''''" "write_tool demo_gate ''mail.send''" "TrimSpace ''the client asked'' \<noteq> ''''"
    by code_simp+
  have m: "gc_marshal demo_gate [] = Inr ''{}''" "''{}'' \<noteq> ''''" "gc_unmarshal demo_gate ''{}'' = []" by (simp_all add: demo_gate_def)
  have u: "unix_of (noon + minute) < unix_of (noon + limit_of 0)" "noon + 2 * minute \<le> of_unix (unix_of (noon + limit_of 0))"
    by code_simp+
  have v: "''main'' \<noteq> ''''" "''main'' \<noteq> rq_Name demo_who" by (simp_all add: demo_who_def)
  from approved_write_runs [OF k m w t(1) n c t(2) refl w v u(1) d t(3) refl w u(2)]
  show ?thesis by (auto simp: demo_who_def)
qed

end
