(* ===== verification/Access_Props.thy ===== *)
theory Access_Props
  imports Fleet_Access
begin

text \<open>What device access keeps: who is let in, as what, and what a change of access changes.\<close>

section \<open>Lists of agents\<close>

definition plain :: "string \<Rightarrow> bool" where
  "plain a \<longleftrightarrow> a \<noteq> '''' \<and> CHR '','' \<notin> set a"

lemma Split_plain: "c \<notin> set a \<Longrightarrow> Split a c = [a]"
  by (induction a) auto

lemma Split_cons: "c \<notin> set a \<Longrightarrow> Split (a @ c # s) c = a # Split s c"
  by (induction a) (auto split: list.splits)

lemma Split_Join: "xs \<noteq> [] \<Longrightarrow> \<forall>a\<in>set xs. CHR '','' \<notin> set a \<Longrightarrow> Split (Join xs '','') (CHR '','') = xs"
proof (induction xs rule: induct_list012)
  case (3 a b xs)
  have "Split (a @ CHR '','' # Join (b # xs) '','') (CHR '','') = a # Split (Join (b # xs) '','') (CHR '','')"
    by (rule Split_cons) (use 3 in auto)
  then show ?case using 3 by simp
qed (auto simp: Split_plain)

lemma Join_Nil: "\<forall>a\<in>set xs. a \<noteq> '''' \<Longrightarrow> Join xs '','' = '''' \<longleftrightarrow> xs = []"
  by (induction xs rule: induct_list012) auto

lemma scan_plain: "\<forall>a\<in>set xs. plain a \<Longrightarrow> scan_agents xs = xs"
  using Join_Nil [of xs] Split_Join [of xs] by (cases "xs = []") (auto simp: scan_agents_def plain_def Let_def)

section \<open>The tables\<close>

interpretation dev: keyed_table dv_StableID merge_device
  by unfold_locales (simp add: merge_device_def)

definition roles_of :: "access_db \<Rightarrow> (string \<times> string) list" where
  "roles_of x = map (\<lambda>r. (dv_StableID r, dv_Role r)) (ax_devices x)"

definition access_ok :: "fleet_conf \<Rightarrow> access_db \<Rightarrow> bool" where
  "access_ok c x \<longleftrightarrow> distinct (map dv_StableID (ax_devices x)) \<and> (\<forall>p\<in>set (roles_of x). snd p = RoleAdmin \<or> snd p = RoleGuest) \<and>
     (\<forall>a\<in>set (ax_agents x). Sandbox c (snd a) \<and> (fst a, RoleGuest) \<in> set (roles_of x))"

lemma roles [simp]: "RoleAdmin \<noteq> RoleGuest" "RoleGuest \<noteq> RoleAdmin" "RoleAdmin \<noteq> ''''" "RoleGuest \<noteq> ''''"
  by (simp_all add: RoleAdmin_def RoleGuest_def)

lemma lent_sandbox: "access_ok c x \<Longrightarrow> a \<in> set (lent_to i x) \<Longrightarrow> Sandbox c a"
  by (auto simp: access_ok_def lent_to_def)

lemma lent_guest:
  assumes "access_ok c x" and "row_of dv_StableID i (ax_devices x) = Some r" and "dv_Role r = RoleAdmin"
  shows "lent_to i x = []"
proof (rule ccontr)
  assume "lent_to i x \<noteq> []"
  then obtain a where "a \<in> set (lent_to i x)" by (cases "lent_to i x") auto
  then obtain e where "e \<in> set (ax_agents x)" "fst e = i" by (auto simp: lent_to_def)
  then obtain q where q: "q \<in> set (ax_devices x)" "dv_StableID q = i" "dv_Role q = RoleGuest"
    using assms(1) by (force simp: access_ok_def roles_of_def)
  have "row_of dv_StableID i (ax_devices x) = Some q"
    using row_of_mem [of dv_StableID "ax_devices x" q] q assms(1) by (simp add: access_ok_def)
  then show False using assms(2,3) q(3) by simp
qed

definition plain_conf :: "fleet_conf \<Rightarrow> bool" where
  "plain_conf c \<longleftrightarrow> list_all plain (fc_sandboxes c)"

lemma scanned_agents:
  assumes "access_ok c x" and "plain_conf c"
  shows "de_Agents (scan_device x r) = lent_to (dv_StableID r) x"
proof -
  have "\<forall>a\<in>set (lent_to (dv_StableID r) x). plain a"
    using lent_sandbox [OF assms(1)] assms(2) by (auto simp: plain_conf_def list_all_iff Sandbox_def)
  then show ?thesis using scan_plain by (simp add: scan_device_def)
qed

lemma set_upsert_row [simp]: "set (upsert id (\<lambda>r _. r) e ys) = insert e (set ys)" "set (upsert (\<lambda>y. y) (\<lambda>r _. r) e ys) = insert e (set ys)"
  by (induction ys) auto

lemma mem_fold_upsert: "set (fold (\<lambda>a. upsert id (\<lambda>r _. r) (i, a)) as xs) = set xs \<union> Pair i ` set as"
  by (induction as arbitrary: xs) auto

text \<open>What a tag may be given.\<close>

definition tag_ok :: "fleet_conf \<Rightarrow> Device \<Rightarrow> bool" where
  "tag_ok c d \<longleftrightarrow> de_Role d = RoleAdmin \<and> de_Agents d = [] \<or> de_Role d = RoleGuest \<and> list_all (Sandbox c) (de_Agents d)"

lemma Tag_ok:
  assumes "access_ok c x" and "tag_ok c d"
  shows "access_ok c (snd (Tag err d x))"
proof (cases "de_StableID d = '''' \<or> err \<noteq> None")
  case True
  then show ?thesis using assms(1) by (auto simp: Tag_def ran_def)
next
  case False
  let ?new = "\<lparr>dv_StableID = de_StableID d, dv_Name = de_Name d, dv_Login = de_Login d,
     dv_Role = de_Role d, dv_TaggedAt = unix_of (de_TaggedAt d), dv_TaggedBy = de_TaggedBy d, dv_LastSeen = None\<rparr>"
  let ?ds = "upsert dv_StableID merge_device ?new (ax_devices x)"
  let ?as = "fold (\<lambda>a. upsert id (\<lambda>r _. r) (de_StableID d, a)) (de_Agents d) (delete_where (\<lambda>a. fst a = de_StableID d) (ax_agents x))"
  have x': "ax_devices (snd (Tag err d x)) = ?ds" "ax_agents (snd (Tag err d x)) = ?as"
    using False by (auto simp: Tag_def ran_def)
  have dist: "distinct (map dv_StableID ?ds)" using assms(1) by (auto simp: access_ok_def intro: dev.distinct_upsert)
  have role: "dv_Role r = RoleAdmin \<or> dv_Role r = RoleGuest" if "r \<in> set ?ds" for r
    using dev.mem_upsertD [OF that] assms by (auto simp: access_ok_def roles_of_def tag_ok_def merge_device_def)
  obtain r0 where r0: "r0 \<in> set ?ds" "dv_StableID r0 = de_StableID d" "dv_Role r0 = de_Role d"
  proof -
    let ?q = "case row_of dv_StableID (de_StableID d) (ax_devices x) of None \<Rightarrow> ?new | Some r \<Rightarrow> merge_device r ?new"
    have "row_of dv_StableID (de_StableID d) ?ds = Some ?q" using dev.row_upsert_same [of ?new "ax_devices x"] by simp
    note m = row_of_Some [OF this]
    have "dv_Role ?q = de_Role d" by (simp add: merge_device_def split: option.split)
    with m show ?thesis by (intro that [of ?q]) simp_all
  qed
  have agent: "Sandbox c (snd e) \<and> (\<exists>r\<in>set ?ds. dv_StableID r = fst e \<and> dv_Role r = RoleGuest)" if "e \<in> set ?as" for e
  proof (cases "fst e = de_StableID d")
    case True
    then have "snd e \<in> set (de_Agents d)" using that by (auto simp: mem_fold_upsert)
    then show ?thesis using assms(2) r0 True by (auto simp: tag_ok_def list_all_iff)
  next
    case False
    then have "e \<in> set (ax_agents x)" using that by (auto simp: mem_fold_upsert)
    then obtain r where r: "r \<in> set (ax_devices x)" "dv_StableID r = fst e" "dv_Role r = RoleGuest" "Sandbox c (snd e)"
      using assms(1) by (force simp: access_ok_def roles_of_def)
    then have "r \<in> set ?ds" using False dev.mem_upsert_other [OF r(1)] by simp
    then show ?thesis using r by blast
  qed
  show ?thesis unfolding access_ok_def roles_of_def x' using dist role agent by force
qed

lemma Untag_ok:
  assumes "access_ok c x"
  shows "access_ok c (snd (Untag err i x))"
proof (cases err)
  case None
  have "p \<in> set (roles_of (snd (Untag None i x))) \<longleftrightarrow> p \<in> set (roles_of x) \<and> fst p \<noteq> i" for p
    by (auto simp: roles_of_def Untag_def ran_def image_iff)
  then show ?thesis using assms None by (simp add: access_ok_def) (auto simp: Untag_def ran_def intro: distinct_delete_where)
qed (use assms in \<open>simp add: Untag_def ran_def\<close>)

lemma Seen_ok:
  assumes "access_ok c x"
  shows "access_ok c (snd (Seen err i now x))"
proof (cases err)
  case None
  have "roles_of (snd (Seen None i now x)) = roles_of x" by (simp add: roles_of_def Seen_def ran_def update_where_def)
  then show ?thesis using assms None by (simp add: access_ok_def) (simp add: Seen_def ran_def)
qed (use assms in \<open>simp add: Seen_def ran_def\<close>)

lemma Knock_ok: "access_ok c x \<Longrightarrow> access_ok c (snd (db_Knock err w now x))"
  by (cases err) (simp_all add: access_ok_def roles_of_def db_Knock_def Let_def)

lemma set_union [simp]: "set (union a b) = set a \<union> set b"
proof -
  have "set (fold (\<lambda>y out. if y \<in> set out then out else out @ [y]) b a) = set a \<union> set b" by (induction b arbitrary: a) auto
  then show ?thesis by (simp add: union_def)
qed

lemma changed_ok:
  assumes "access_ok c x" and "plain_conf c" and "device err i x = Inr tagged" and "changed g by_whom (Sandbox c) now y tagged = Inr d"
  shows "tag_ok c d"
proof -
  have cur: "\<forall>a\<in>set (de_Agents e). Sandbox c a" if "tagged = Some e" for e
    using assms(1,3) that scanned_agents [OF assms(1,2)] lent_sandbox [OF assms(1)] by (auto simp: device_def split: option.splits)
  then show ?thesis using assms(4)
    by (cases tagged) (auto simp: changed_def tag_ok_def Let_def no_device_def list_all_iff split: if_splits)
qed

lemma snd_after_change: "snd (after_change w r) = snd r"
  by (cases r) (auto simp: after_change_def split: option.splits sum.splits)

lemma Change_ok:
  assumes "access_ok c x" and "plain_conf c"
  shows "access_ok c (snd (Change w g by_whom (Sandbox c) now x))"
  using assms changed_ok [OF assms]
  by (auto simp: Change_def snd_after_change intro: Tag_ok Untag_ok split: sum.splits)

section \<open>Access as it runs\<close>

inductive access_step :: "fleet_conf \<Rightarrow> access_db \<Rightarrow> access_db \<Rightarrow> bool" for c :: fleet_conf where
  access_change: "access_step c x (snd (ChangeAccess c w g by_whom now x))"
| access_knock: "access_step c x (snd (Knocked err who now x))"
| access_resolve: "access_step c x (snd (ResolveDevice err serr who now x))"

inductive access_reach :: "fleet_conf \<Rightarrow> access_db \<Rightarrow> bool" for c :: fleet_conf where
  access_first: "access_reach c no_devices"
| access_more: "access_reach c x \<Longrightarrow> access_step c x y \<Longrightarrow> access_reach c y"

lemma access_step_ok: "access_step c x y \<Longrightarrow> access_ok c x \<Longrightarrow> plain_conf c \<Longrightarrow> access_ok c y"
proof (induction rule: access_step.induct)
  case (access_knock x err who now)
  then show ?case using Knock_ok [of c x err who now] by (auto simp: Knocked_def split: prod.splits sum.splits)
qed (auto simp: ChangeAccess_def ResolveDevice_def intro: Change_ok Seen_ok split: sum.splits)

lemma access_reach_ok: "access_reach c x \<Longrightarrow> plain_conf c \<Longrightarrow> access_ok c x"
proof (induction rule: access_reach.induct)
  case access_first
  then show ?case by (simp add: access_ok_def roles_of_def no_devices_def)
next
  case (access_more x y)
  then show ?case by (blast intro: access_step_ok)
qed

section \<open>A change is of one device\<close>

lemma filter_upsert_no: "\<not> P e \<Longrightarrow> filter P (upsert id (\<lambda>r _. r) e ys) = filter P ys"
  by (induction ys) auto

lemma filter_fold_upsert: "j \<noteq> i \<Longrightarrow> filter (\<lambda>a. fst a = j) (fold (\<lambda>a. upsert id (\<lambda>r _. r) (i, a)) as xs) = filter (\<lambda>a. fst a = j) xs"
  by (induction as arbitrary: xs) (simp_all add: filter_upsert_no)

lemma row_delete_other: "j \<noteq> i \<Longrightarrow> row_of key j (delete_where (\<lambda>r. key r = i) rs) = row_of key j rs"
  by (simp add: row_delete_where_key)

definition same_device :: "string \<Rightarrow> access_db \<Rightarrow> access_db \<Rightarrow> bool" where
  "same_device j x y \<longleftrightarrow> row_of dv_StableID j (ax_devices x) = row_of dv_StableID j (ax_devices y) \<and> lent_to j x = lent_to j y"

lemma filter_delete_where: "(\<And>a. P a \<Longrightarrow> \<not> Q a) \<Longrightarrow> filter P (delete_where Q xs) = filter P xs"
  by (induction xs) (auto simp: delete_where_def)

lemma Tag_other: "j \<noteq> de_StableID d \<Longrightarrow> same_device j (snd (Tag err d x)) x"
  by (cases err) (simp_all add: same_device_def Tag_def ran_def lent_to_def dev.row_upsert_other filter_fold_upsert filter_delete_where)

lemma Untag_other: "j \<noteq> i \<Longrightarrow> same_device j (snd (Untag err i x)) x"
  by (cases err) (simp_all add: same_device_def Untag_def ran_def lent_to_def row_delete_other filter_delete_where)

lemma changed_id: "changed g by_whom sandbox now y tagged = Inr d \<Longrightarrow> de_StableID d = fst y"
  by (auto simp: changed_def Let_def no_device_def split: if_splits)

lemma Change_other:
  assumes "Find (xw_devices w) (xw_knocks w) (cg_Device g) x = Inr y" and "j \<noteq> fst y"
  shows "same_device j (snd (Change w g by_whom sandbox now x)) x"
proof -
  have r: "same_device j x x" by (simp add: same_device_def)
  show ?thesis using assms r Untag_other [OF assms(2)] Tag_other changed_id
    by (auto simp: Change_def snd_after_change split: sum.splits)
qed

lemma Change_fails: "Find (xw_devices w) (xw_knocks w) (cg_Device g) x = Inl e \<Longrightarrow> Change w g by_whom sandbox now x = (Inl e, x)"
  by (simp add: Change_def)

lemma Resolve_same:
  assumes "same_device (wh_StableID who) x y"
  shows "Resolve err who x = Resolve err who y"
proof -
  have "scan_device x r = scan_device y r" if "row_of dv_StableID (wh_StableID who) (ax_devices y) = Some r" for r
    using row_of_Some [OF that] assms by (simp add: scan_device_def same_device_def)
  then have "device err (wh_StableID who) x = device err (wh_StableID who) y"
    using assms by (cases "row_of dv_StableID (wh_StableID who) (ax_devices y)") (auto simp: device_def same_device_def split: option.splits)
  then show ?thesis by (simp add: Resolve_def)
qed

section \<open>What access gives\<close>

text \<open>A fleet with one sandbox agent; a device asks, and is lent the agent.\<close>

definition demo_conf :: fleet_conf where
  "demo_conf = \<lparr>fc_workers = [''agent-07''], fc_orchestrator = ''main'', fc_sandboxes = [''agent-07''], fc_siblings = (\<lambda>_. []),
     fc_HeldAlertAfter = hour, fc_EventsRaw = hour, fc_RelayText = hour\<rparr>"

definition quiet :: access_world where
  "quiet = \<lparr>xw_devices = None, xw_knocks = None, xw_device = None, xw_write = None, xw_list = None, xw_listed = None\<rparr>"

definition alice :: Who where "alice = \<lparr>wh_Login = ''alice@example.com'', wh_Node = ''laptop.ts.net.'', wh_StableID = ''n1''\<rparr>"
definition bob :: Who where "bob = \<lparr>wh_Login = ''bob@example.com'', wh_Node = ''laptop.ts.net.'', wh_StableID = ''n1''\<rparr>"
definition ask_for :: "string \<Rightarrow> AccessChange" where "ask_for what = \<lparr>cg_Op = what, cg_Device = ''laptop'', cg_Agents = [''agent-07'']\<rparr>"

definition knocked :: access_db where "knocked = snd (Knocked None alice 0 no_devices)"
definition lent :: access_db where "lent = snd (ChangeAccess demo_conf quiet (ask_for ''lend'') ''op'' minute knocked)"
definition revoked :: access_db where "revoked = snd (Change quiet (ask_for ''revoke'') ''op'' (Sandbox demo_conf) minute lent)"

lemma lent_reach: "access_reach demo_conf lent"
  unfolding lent_def knocked_def by (rule access_more [OF access_more [OF access_first access_knock] access_change])

text \<open>
  C8. Whatever was asked, changed and resolved before: a caller from the tailnet who gets a role comes from a device that is tagged,
  under the login the device was tagged with; an admin device has no agents lent to it, and a guest device has sandbox agents only.
\<close>
theorem devices_get_what_they_may:
  assumes "access_reach c x" and "plain_conf c" and "Resolve err who x = Inr d" and "de_Role d \<noteq> ''''"
  shows "(\<exists>r. row_of dv_StableID (wh_StableID who) (ax_devices x) = Some r \<and> EqualFold (dv_Login r) (wh_Login who) \<and> dv_Role r = de_Role d) \<and>
    (de_Role d = RoleAdmin \<and> de_Agents d = [] \<or> de_Role d = RoleGuest \<and> list_all (Sandbox c) (de_Agents d))"
proof -
  have ok: "access_ok c x" using access_reach_ok assms(1,2) .
  obtain r where r: "row_of dv_StableID (wh_StableID who) (ax_devices x) = Some r" "EqualFold (dv_Login r) (wh_Login who)"
      "dv_Role r = RoleAdmin \<or> dv_Role r = RoleGuest" "d = (scan_device x r)\<lparr>de_Name := wh_Node who\<rparr>"
    using assms(3,4) by (auto simp: Resolve_def device_def no_device_def scan_device_def split: if_splits sum.splits option.splits)
  have role: "de_Role d = dv_Role r" and id: "dv_StableID r = wh_StableID who"
    using r(4) row_of_Some [OF r(1)] by (simp_all add: scan_device_def)
  have ag: "de_Agents d = lent_to (wh_StableID who) x" using r(4) scanned_agents [OF ok assms(2), of r] id by simp
  have "de_Role d = RoleAdmin \<Longrightarrow> de_Agents d = []" using lent_guest [OF ok r(1)] role ag by simp
  moreover have "list_all (Sandbox c) (de_Agents d)" using lent_sandbox [OF ok] ag by (simp add: list_all_iff)
  ultimately show ?thesis using r role by auto
qed

theorem devices_get_what_they_may_witness:
  "\<exists>d. Resolve None alice lent = Inr d \<and> de_Role d = RoleGuest \<and> list_all (Sandbox demo_conf) (de_Agents d) \<and> de_Agents d = [''agent-07'']"
proof -
  have p: "plain_conf demo_conf" by code_simp
  obtain d where d: "Resolve None alice lent = Inr d"
  proof (cases "Resolve None alice lent")
    case (Inl m)
    moreover have "\<not> isl (Resolve None alice lent)" by code_simp
    ultimately show ?thesis by simp
  qed
  have "map_sum id de_Role (Resolve None alice lent) = Inr RoleGuest" "map_sum id de_Agents (Resolve None alice lent) = Inr [''agent-07'']"
    by code_simp+
  then have e: "de_Role d = RoleGuest" "de_Agents d = [''agent-07'']" using d by simp_all
  have "de_Role d \<noteq> ''''" by (simp add: e(1))
  from devices_get_what_they_may [OF lent_reach p d this] show ?thesis using d e by simp
qed

text \<open>
  A revoke that succeeds is exact: from then on the device it found is refused, under any login, and every other device is what it
  was.
\<close>
theorem revoke_is_exact:
  assumes "Find (xw_devices w) (xw_knocks w) (cg_Device g) x = Inr y" and "cg_Op g = ''revoke''"
    and "Change w g by_whom sandbox now x = (Inr l, x')"
  shows "Resolve None who x' = (if wh_StableID who = fst y then Inr no_device else Resolve None who x)"
proof (cases "wh_StableID who = fst y")
  case True
  have "snd (Change w g by_whom sandbox now x) = snd (Untag (xw_write w) (fst y) x) \<and> xw_write w = None"
    using assms by (auto simp: Change_def snd_after_change after_change_def Untag_def ran_def split: sum.splits if_splits option.splits)
  then have "x' = snd (Untag None (fst y) x)" using assms(3) by simp
  then have "row_of dv_StableID (fst y) (ax_devices x') = None" by (simp add: Untag_def ran_def row_delete_where_key)
  then show ?thesis using True by (simp add: Resolve_def device_def)
next
  case False
  then have "same_device (wh_StableID who) x' x" using Change_other [OF assms(1), of "wh_StableID who" by_whom sandbox now] assms(3) by simp
  then show ?thesis using False Resolve_same by simp
qed

theorem revoke_is_exact_witness:
  "Resolve None alice revoked = Inr no_device \<and> (case Resolve None alice lent of Inl _ \<Rightarrow> False | Inr d \<Rightarrow> de_Role d = RoleGuest)"
proof
  obtain l where c: "Change quiet (ask_for ''revoke'') ''op'' (Sandbox demo_conf) minute lent = (Inr l, revoked)"
  proof (cases "fst (Change quiet (ask_for ''revoke'') ''op'' (Sandbox demo_conf) minute lent)")
    case (Inl m)
    moreover have "\<not> isl (fst (Change quiet (ask_for ''revoke'') ''op'' (Sandbox demo_conf) minute lent))" by code_simp
    ultimately show ?thesis by simp
  qed (metis that revoked_def prod.collapse)
  have f: "Find (xw_devices quiet) (xw_knocks quiet) (cg_Device (ask_for ''revoke'')) lent = Inr (''n1'', ''laptop.ts.net.'', ''alice@example.com'')"
    by code_simp
  have o: "cg_Op (ask_for ''revoke'') = ''revoke''" by (simp add: ask_for_def)
  show "Resolve None alice revoked = Inr no_device"
    using revoke_is_exact [OF f o c, of alice] by (simp add: alice_def)
  show "case Resolve None alice lent of Inl _ \<Rightarrow> False | Inr d \<Rightarrow> de_Role d = RoleGuest" by code_simp
qed

text \<open>The device changes hands: bob's request is recorded and the operator told to run fleetctl access admin, which succeeds; but the tag
  keeps alice's login, bob is still refused, and his request is gone from the list.\<close>

definition handed :: access_db where
  "handed = snd (Knocked None bob (3 * minute) (snd (ChangeAccess demo_conf quiet (ask_for ''admin'') ''op'' minute knocked)))"
definition retagged where "retagged = ChangeAccess demo_conf quiet (ask_for ''admin'') ''op'' (4 * minute) handed"

theorem retag_keeps_old_login:
  "map_sum id de_Role (Resolve None bob handed) = Inr '''' \<and> \<not> isl (fst retagged) \<and>
   map_sum id de_Role (Resolve None bob (snd retagged)) = Inr '''' \<and> ax_knocks handed \<noteq> [] \<and> ax_knocks (snd retagged) = []"
  by (intro conjI; code_simp)

end
