(* ===== verification/Fleet_Vault.thy ===== *)
theory Fleet_Vault
  imports Prelude
begin

text \<open>
  \<^verbatim>\<open>fleet/internal/vault\<close>: sealing a value under the key in a file that is made when first needed. AES-GCM is the
  library's: the record \<open>aead\<close> holds what sealing and opening compute of key, nonce, text and associated data. Random bytes
  and the answers of the file system are arguments.
\<close>

section \<open>The key\<close>

record key_file =
  kf_Key :: string
  kf_Mode :: int

record vault =
  va_file :: "key_file option"
  va_loaded :: "string option"

record vault_world =
  vw_read :: dberr
  vw_stat :: dberr
  vw_mkdir :: dberr
  vw_key :: "string + string"
  vw_raced :: "key_file option"
  vw_open :: dberr
  vw_write :: dberr
  vw_nonce :: "string + string"

record aead =
  ae_seal :: "string \<Rightarrow> string \<Rightarrow> string \<Rightarrow> string \<Rightarrow> string"
  ae_open :: "string \<Rightarrow> string \<Rightarrow> string \<Rightarrow> string \<Rightarrow> string option"

definition NonceSize :: nat where "NonceSize = 12"

text \<open>Writes a new key, never over one another fleetd made at the same moment.\<close>

definition makeKey :: "vault_world \<Rightarrow> vault \<Rightarrow> (string + string) \<times> vault" where
  "makeKey w v = (case vw_mkdir w of Some m \<Rightarrow> (Inl m, v)
     | None \<Rightarrow> (case vw_key w of Inl m \<Rightarrow> (Inl m, v)
        | Inr key \<Rightarrow> (case vw_raced w of
            Some kf \<Rightarrow> (case vw_read w of Some m \<Rightarrow> (Inl m, v\<lparr>va_file := Some kf\<rparr>) | None \<Rightarrow> (Inr (kf_Key kf), v\<lparr>va_file := Some kf\<rparr>))
          | None \<Rightarrow> (case vw_open w of Some m \<Rightarrow> (Inl m, v)
             | None \<Rightarrow> (case vw_write w of Some m \<Rightarrow> (Inl m, v)
                | None \<Rightarrow> (Inr key, v\<lparr>va_file := Some \<lparr>kf_Key = key, kf_Mode = 384\<rparr>\<rparr>))))))"

text \<open>The key of the vault: loaded once. A file others can read (\<^verbatim>\<open>perm & 0o077\<close>) is refused, and a key of the wrong size.\<close>

definition check_key :: "vault_world \<Rightarrow> string \<Rightarrow> vault \<Rightarrow> (string + string) \<times> vault" where
  "check_key w key v = (case vw_stat w of Some m \<Rightarrow> (Inl m, v)
     | None \<Rightarrow> (case va_file v of None \<Rightarrow> (Inl ''no such file'', v)
        | Some kf \<Rightarrow> if kf_Mode kf mod 64 \<noteq> 0 then (Inl ''is readable by others'', v)
            else if length key \<noteq> 32 then (Inl ''not a 32-byte key'', v) else (Inr key, v\<lparr>va_loaded := Some key\<rparr>)))"

definition cipher :: "vault_world \<Rightarrow> vault \<Rightarrow> (string + string) \<times> vault" where
  "cipher w v = (case va_loaded v of Some key \<Rightarrow> (Inr key, v)
     | None \<Rightarrow> (case (case va_file v of None \<Rightarrow> makeKey w v
             | Some kf \<Rightarrow> (case vw_read w of Some m \<Rightarrow> (Inl m, v) | None \<Rightarrow> (Inr (kf_Key kf), v))) of
          (Inl m, v1) \<Rightarrow> (Inl m, v1) | (Inr key, v1) \<Rightarrow> check_key w key v1))"

section \<open>Sealing and opening\<close>

definition Seal :: "aead \<Rightarrow> vault_world \<Rightarrow> string \<Rightarrow> string \<Rightarrow> vault \<Rightarrow> (string + string) \<times> vault" where
  "Seal a w name val v = (case cipher w v of (Inl m, v1) \<Rightarrow> (Inl m, v1)
     | (Inr key, v1) \<Rightarrow> (case vw_nonce w of Inl m \<Rightarrow> (Inl m, v1) | Inr nonce \<Rightarrow> (Inr (nonce @ ae_seal a key nonce val name), v1)))"

definition Open :: "aead \<Rightarrow> vault_world \<Rightarrow> string \<Rightarrow> string \<Rightarrow> vault \<Rightarrow> (string + string) \<times> vault" where
  "Open a w name sealed v = (case cipher w v of (Inl m, v1) \<Rightarrow> (Inl m, v1)
     | (Inr key, v1) \<Rightarrow> (if length sealed < NonceSize then (Inl ''does not open'', v1)
         else case ae_open a key (take NonceSize sealed) (drop NonceSize sealed) name of
             None \<Rightarrow> (Inl ''does not open'', v1) | Some val \<Rightarrow> (Inr val, v1)))"

text \<open>The documented law of the library, and of its random source.\<close>

definition opens_what_it_seals :: "aead \<Rightarrow> bool" where
  "opens_what_it_seals a \<longleftrightarrow> (\<forall>k n val ad. ae_open a k n (ae_seal a k n val ad) ad = Some val)"

definition nonces :: "vault_world \<Rightarrow> bool" where
  "nonces w \<longleftrightarrow> (case vw_nonce w of Inl _ \<Rightarrow> True | Inr n \<Rightarrow> length n = NonceSize)"

lemma cipher_loaded: "va_loaded v = Some key \<Longrightarrow> cipher w v = (Inr key, v)"
  by (simp add: cipher_def)

lemma cipher_loads: "cipher w v = (Inr key, v1) \<Longrightarrow> va_loaded v1 = Some key"
  by (auto simp: cipher_def check_key_def split: option.splits prod.splits sum.splits if_splits)

text \<open>A key that is used is the one in the file, 32 bytes that nobody else may read.\<close>

definition key_ok :: "vault \<Rightarrow> bool" where
  "key_ok v \<longleftrightarrow> (case va_loaded v of None \<Rightarrow> True
     | Some key \<Rightarrow> length key = 32 \<and> (case va_file v of None \<Rightarrow> False | Some kf \<Rightarrow> kf_Key kf = key \<and> kf_Mode kf mod 64 = 0))"

lemma makeKey_file: "makeKey w v = (Inr key, v1) \<Longrightarrow> (\<exists>kf. va_file v1 = Some kf \<and> kf_Key kf = key) \<and> va_loaded v1 = va_loaded v"
  by (auto simp: makeKey_def split: option.splits sum.splits)

lemma makeKey_loaded: "va_loaded (snd (makeKey w v)) = va_loaded v"
  by (auto simp: makeKey_def split: option.splits sum.splits)

lemma cipher_key_ok:
  assumes "key_ok v"
  shows "key_ok (snd (cipher w v))"
proof (cases "va_loaded v")
  case (Some key)
  then show ?thesis using assms by (simp add: cipher_loaded)
next
  case None
  obtain r v1 where r: "(case va_file v of None \<Rightarrow> makeKey w v
      | Some kf \<Rightarrow> (case vw_read w of Some m \<Rightarrow> (Inl m, v) | None \<Rightarrow> (Inr (kf_Key kf), v))) = (r, v1)" by fastforce
  have l: "va_loaded v1 = None"
    using r None makeKey_loaded [of w v] by (auto split: option.splits)
  show ?thesis
  proof (cases r)
    case (Inl m)
    then show ?thesis using r None l by (simp add: cipher_def key_ok_def)
  next
    case (Inr key)
    have "\<exists>kf. va_file v1 = Some kf \<and> kf_Key kf = key"
      using r Inr makeKey_file [of w v key v1] by (auto split: option.splits)
    then show ?thesis using r Inr None l by (auto simp: cipher_def key_ok_def check_key_def split: option.splits)
  qed
qed

text \<open>What was sealed opens again, in a vault that has the key loaded.\<close>

lemma open_sealed:
  assumes "opens_what_it_seals a" and "nonces w" and "Seal a w name val v = (Inr sealed, v1)" and "va_loaded v2 = va_loaded v1"
  shows "Open a w2 name sealed v2 = (Inr val, v2)"
proof -
  obtain key nonce where k: "cipher w v = (Inr key, v1)" "vw_nonce w = Inr nonce" "sealed = nonce @ ae_seal a key nonce val name"
    using assms(3) by (auto simp: Seal_def split: prod.splits sum.splits)
  have "cipher w2 v2 = (Inr key, v2)" using cipher_loads [OF k(1)] assms(4) by (simp add: cipher_loaded)
  moreover have "length nonce = NonceSize" using assms(2) k(2) by (simp add: nonces_def)
  ultimately show ?thesis using assms(1) k(3) by (simp add: Open_def opens_what_it_seals_def)
qed

end
