(* ===== verification/Fleet_Secrets.thy ===== *)
theory Fleet_Secrets
  imports Fleet_Tasks Fleet_Vault
begin

text \<open>
  \<^verbatim>\<open>fleet/internal/daemon/secrets.go\<close>: the secrets an operator hands agents for a task. Each is sealed on the ledger; an
  agent reads one only on a task that lets it, and only while it is granted. Every value of a secret is taken out of the messages that
  pass. The events the ledger took are recorded.
\<close>

section \<open>State\<close>

record secret_event =
  sv_Kind :: string
  sv_Agent :: string
  sv_Secret :: string
  sv_Task :: string

record keeper =
  kp_fleet :: fleet
  kp_vault :: vault
  kp_events :: "secret_event list"

record secret_world =
  sw_aead :: aead
  sw_vault :: vault_world
  sw_task :: dberr
  sw_sealed :: dberr
  sw_write :: dberr
  sw_more :: dberr
  sw_drop :: dberr
  sw_count :: dberr
  sw_event :: dberr

datatype secret_error = BadSecret string | Forbidden string | NoGrant | NoSecret | Closed string | SecretFailed string

definition maxSecret :: int where "maxSecret = 65536"

definition letter_or_digit :: "char \<Rightarrow> bool" where
  "letter_or_digit c \<longleftrightarrow> (let n = of_char c :: nat in is_digit c \<or> (65 \<le> n \<and> n \<le> 90) \<or> (97 \<le> n \<and> n \<le> 122))"

text \<open>\<^verbatim>\<open>^[A-Za-z0-9][A-Za-z0-9._-]{0,63}$\<close>.\<close>

definition checkSecretName :: "string \<Rightarrow> bool" where
  "checkSecretName name \<longleftrightarrow> (case name of [] \<Rightarrow> False
     | c # s \<Rightarrow> letter_or_digit c \<and> length s \<le> 63 \<and> list_all (\<lambda>d. letter_or_digit d \<or> d \<in> {CHR ''.'', CHR ''_'', CHR ''-''}) s)"

text \<open>An event that the ledger does not take is logged only.\<close>

definition told :: "secret_world \<Rightarrow> string \<Rightarrow> string \<Rightarrow> string \<Rightarrow> string \<Rightarrow> keeper \<Rightarrow> keeper" where
  "told w kind agent secret task k = k\<lparr>kp_events := kp_events k @
     (if sw_event w = None then [\<lparr>sv_Kind = kind, sv_Agent = agent, sv_Secret = secret, sv_Task = task\<rparr>] else [])\<rparr>"

definition on_ledger :: "ledger \<Rightarrow> keeper \<Rightarrow> keeper" where
  "on_ledger g k = k\<lparr>kp_fleet := with_ledger g (kp_fleet k)\<rparr>"

definition kp_ledger :: "keeper \<Rightarrow> ledger" where
  "kp_ledger k = fd_ledger (kp_fleet k)"

section \<open>Storing and granting\<close>

definition SecretPut :: "secret_world \<Rightarrow> string \<Rightarrow> string \<Rightarrow> gtime \<Rightarrow> keeper \<Rightarrow> secret_error option \<times> keeper" where
  "SecretPut w name val now k =
     (if \<not> checkSecretName name then (Some (BadSecret ''name''), k)
      else if val = '''' \<or> maxSecret < int (length val) then (Some (BadSecret ''size''), k)
      else case Seal (sw_aead w) (sw_vault w) name val (kp_vault k) of
          (Inl m, v) \<Rightarrow> (Some (SecretFailed m), k\<lparr>kp_vault := v\<rparr>)
        | (Inr sealed, v) \<Rightarrow> (case PutSecret (sw_write w) name sealed now (kp_ledger k) of
              (Some m, g) \<Rightarrow> (Some (SecretFailed m), on_ledger g (k\<lparr>kp_vault := v\<rparr>))
            | (None, g) \<Rightarrow> (None, told w ''fleet.secret.put'' '''' name '''' (on_ledger g (k\<lparr>kp_vault := v\<rparr>)))))"

text \<open>To a task or to an agent, one of them; a closed task is over.\<close>

definition SecretGrant :: "fleet_conf \<Rightarrow> secret_world \<Rightarrow> string \<Rightarrow> string \<Rightarrow> string \<Rightarrow> string \<Rightarrow> duration \<Rightarrow> gtime \<Rightarrow> keeper \<Rightarrow>
    secret_error option \<times> keeper" where
  "SecretGrant c w name task agent by_whom ttl now k =
     (if (task = '''') = (agent = '''') then (Some (BadSecret ''grant to a task or an agent''), k)
      else if ttl < 0 then (Some (BadSecret ''ttl''), k)
      else if agent \<noteq> '''' \<and> \<not> known c agent then (Some (BadSecret ''no agent of that name''), k)
      else if task \<noteq> '''' \<and> (case read_task (sw_task w) task (kp_ledger k) of Inr (Some t) \<Rightarrow> ta_Closed t \<noteq> zero_time | _ \<Rightarrow> False)
      then (Some (Closed task), k)
      else case AddGrant (sw_sealed w) (sw_write w) \<lparr>sg_Secret = name, sg_Task = task, sg_Agent = agent, sg_Granted = unix_of now,
             sg_Expires = (if 0 < ttl then unix (now + ttl) else None), sg_By = nullStr by_whom\<rparr> (kp_ledger k) of
          (Some m, g) \<Rightarrow> (Some (SecretFailed m), on_ledger g k)
        | (None, g) \<Rightarrow> (None, told w ''fleet.secret.grant'' agent name task (on_ledger g k)))"

definition SecretRevoke :: "secret_world \<Rightarrow> string \<Rightarrow> string \<Rightarrow> string \<Rightarrow> keeper \<Rightarrow> secret_error option \<times> keeper" where
  "SecretRevoke w name task agent k =
     (if (task = '''') = (agent = '''') then (Some (BadSecret ''revoke from a task or an agent''), k)
      else case secret_Revoke (sw_write w) name task agent (kp_ledger k) of
          (Inl m, g) \<Rightarrow> (Some (SecretFailed m), on_ledger g k)
        | (Inr ok, g) \<Rightarrow> (if ok then (None, told w ''fleet.secret.revoke'' agent name task (on_ledger g k)) else (Some NoGrant, on_ledger g k)))"

definition SecretRemove :: "secret_world \<Rightarrow> string \<Rightarrow> keeper \<Rightarrow> secret_error option \<times> keeper" where
  "SecretRemove w name k = (case RemoveSecret (sw_write w) (sw_more w) name (kp_ledger k) of
     (Inl m, g) \<Rightarrow> (Some (SecretFailed m), on_ledger g k)
   | (Inr ok, g) \<Rightarrow> (if ok then (None, told w ''fleet.secret.rm'' '''' name '''' (on_ledger g k)) else (Some NoSecret, on_ledger g k)))"

section \<open>Reading\<close>

text \<open>The agent's task, and why it may not use secrets there.\<close>

definition mayUseSecrets :: "fleet_conf \<Rightarrow> secret_world \<Rightarrow> string \<Rightarrow> fleet \<Rightarrow> secret_error option \<times> string" where
  "mayUseSecrets c w agent f =
     (if \<not> known c agent then (Some (Forbidden ''no agent of that name''), '''')
      else let task = st_Task (fd_states f agent)
        in if task = '''' then (Some (Forbidden ''has no task''), '''')
           else case read_task (sw_task w) task (fd_ledger f) of
               Inr (Some t) \<Rightarrow>
                 if ta_Agent t \<noteq> agent \<or> ta_Closed t \<noteq> zero_time then (Some (Forbidden ''has no open task''), task)
                 else if \<not> ta_AdminWork t \<or> agent \<in> set (fc_sandboxes c) then (Some (Forbidden ''not the operator work''), task)
                 else (None, task)
             | _ \<Rightarrow> (Some (Forbidden ''has no open task''), task))"

definition denied :: "secret_world \<Rightarrow> string \<Rightarrow> string \<Rightarrow> string \<Rightarrow> secret_error \<Rightarrow> keeper \<Rightarrow> (secret_error + string) \<times> keeper" where
  "denied w agent name task e k = (Inl e, told w ''fleet.secret.denied'' agent name task k)"

definition SecretRead :: "fleet_conf \<Rightarrow> secret_world \<Rightarrow> string \<Rightarrow> string \<Rightarrow> gtime \<Rightarrow> keeper \<Rightarrow> (secret_error + string) \<times> keeper" where
  "SecretRead c w agent name now k =
     (case mayUseSecrets c w agent (kp_fleet k) of
        (Some e, task) \<Rightarrow> denied w agent name task e k
      | (None, task) \<Rightarrow> (case Granted (sw_drop w) (sw_count w) name agent task now (kp_ledger k) of
            (Inl m, g) \<Rightarrow> denied w agent name task (SecretFailed m) (on_ledger g k)
          | (Inr ok, g) \<Rightarrow>
              if \<not> ok then denied w agent name task (Forbidden ''is not granted'') (on_ledger g k)
              else (case SealedSecret (sw_sealed w) name g of
                  Inl m \<Rightarrow> denied w agent name task (SecretFailed m) (on_ledger g k)
                | Inr sealed \<Rightarrow> (case Open (sw_aead w) (sw_vault w) name sealed (kp_vault k) of
                      (Inl m, v) \<Rightarrow> denied w agent name task (SecretFailed m) (on_ledger g (k\<lparr>kp_vault := v\<rparr>))
                    | (Inr val, v) \<Rightarrow>
                        (Inr val, told w ''fleet.secret.read'' agent name task
                           (on_ledger (snd (Fleet_Ledger.SecretRead (sw_write w) name agent task now g)) (k\<lparr>kp_vault := v\<rparr>)))))))"

section \<open>Redacting\<close>

text \<open>\<^verbatim>\<open>strings.ReplaceAll\<close> with a text that is not empty: cut at its occurrences from the left, and joined by the other.\<close>

function cuts :: "string \<Rightarrow> string \<Rightarrow> string list" where
  "cuts [] w = [[]]"
| "cuts (c # s) w = (if w \<noteq> [] \<and> HasPrefix (c # s) w then [] # cuts (drop (length w) (c # s)) w
     else (case cuts s w of [] \<Rightarrow> [[c]] | x # xs \<Rightarrow> (c # x) # xs))"
  by pat_completeness auto
termination by (relation "measure (\<lambda>(s, w). length s)") (auto simp: Suc_le_eq)

definition ReplaceAll :: "string \<Rightarrow> string \<Rightarrow> string \<Rightarrow> string" where
  "ReplaceAll s old new = Join (cuts s old) new"

text \<open>The values to take out, each with the name of its secret: a value as a whole, and each long line of it.\<close>

definition needles_of :: "string \<times> string \<Rightarrow> (string \<times> string) list" where
  "needles_of nv = (let whole = TrimSpace (snd nv)
     in (if 4 \<le> length whole then [(whole, fst nv)] else []) @
        (if CHR 0x0A \<in> set whole
         then map (\<lambda>l. (l, fst nv)) (filter (\<lambda>l. 20 \<le> length l) (map TrimSpace (Split whole (CHR 0x0A)))) else []))"

definition redact_step :: "string \<times> string \<Rightarrow> string \<Rightarrow> string" where
  "redact_step n text = ReplaceAll text (fst n) (''[secret:'' @ snd n @ '']'')"

definition longest_first :: "(string \<times> string) list \<Rightarrow> (string \<times> string) list" where
  "longest_first ns = sort_key (\<lambda>n. - int (length (fst n))) ns"

definition redact :: "(string \<times> string) list \<Rightarrow> string \<Rightarrow> string" where
  "redact vals text = fold redact_step (longest_first (concat (map needles_of vals))) text"

text \<open>\<^verbatim>\<open>SealedSecrets\<close>, in the order the run visits them, and what of it opens.\<close>

fun open_all :: "secret_world \<Rightarrow> SecretRow list \<Rightarrow> vault \<Rightarrow> (string \<times> string) list \<times> vault" where
  "open_all w [] v = ([], v)"
| "open_all w (r # rs) v = (let (o1, v1) = Open (sw_aead w) (sw_vault w) (se_Name r) (se_Sealed r) v; (vals, v2) = open_all w rs v1
     in (case o1 of Inl _ \<Rightarrow> vals | Inr val \<Rightarrow> (se_Name r, val) # vals, v2))"

definition redactSecrets :: "secret_world \<Rightarrow> string \<Rightarrow> keeper \<Rightarrow> string \<times> keeper" where
  "redactSecrets w text k =
     (if sw_sealed w \<noteq> None \<or> lg_secrets (kp_ledger k) = [] then (text, k)
      else (let (vals, v) = open_all w (lg_secrets (kp_ledger k)) (kp_vault k) in (redact vals text, k\<lparr>kp_vault := v\<rparr>)))"

section \<open>Listing\<close>

text \<open>\<^verbatim>\<open>ledger.Secrets\<close>: every secret by name with its grants that are still on, oldest first, and its last read.\<close>

record SecretInfo =
  si_Name :: string
  si_Created :: gtime
  si_Updated :: gtime
  si_Grants :: "SecretGrant list"
  si_ReadAt :: gtime
  si_ReadAgent :: string
  si_ReadTask :: string

definition secret_info :: "ledger \<Rightarrow> SecretRow \<Rightarrow> SecretInfo" where
  "secret_info g r = \<lparr>si_Name = se_Name r, si_Created = of_unix (se_Created r), si_Updated = of_unix (se_Updated r),
     si_Grants = filter (\<lambda>x. sg_Secret x = se_Name r) (sort_key (\<lambda>x. (sg_Granted x, sg_Task x, sg_Agent x)) (lg_grants g)),
     si_ReadAt = fromUnix (se_ReadAt r), si_ReadAgent = coalesce '''' (se_ReadAgent r), si_ReadTask = coalesce '''' (se_ReadTask r)\<rparr>"

definition Secrets :: "dberr \<Rightarrow> dberr \<Rightarrow> gtime \<Rightarrow> ledger \<Rightarrow> (string + SecretInfo list) \<times> ledger" where
  "Secrets derr qerr now g = (case dropExpired derr now g of (Some m, g1) \<Rightarrow> (Inl m, g1)
     | (None, g1) \<Rightarrow> (case qerr of Some m \<Rightarrow> (Inl m, g1) | None \<Rightarrow> (Inr (map (secret_info g1) (sort_key se_Name (lg_secrets g1))), g1)))"

end
