(* ===== verification/Secrets_Props.thy ===== *)
theory Secrets_Props
  imports Fleet_Secrets Fleet_System
begin

text \<open>What the secrets keep: who reads one, that what was put is read, and what redacting takes out of a message.\<close>

section \<open>Texts within texts\<close>

lemma Contains_iff: "Contains s p \<longleftrightarrow> (\<exists>a b. s = a @ p @ b)"
proof (induction s)
  case (Cons c s)
  have "Contains (c # s) p \<longleftrightarrow> (\<exists>b. c # s = p @ b) \<or> (\<exists>a b. s = a @ p @ b)" using Cons by (simp add: HasPrefix_iff)
  also have "\<dots> \<longleftrightarrow> (\<exists>a b. c # s = a @ p @ b)"
  proof
    assume "\<exists>a b. c # s = a @ p @ b"
    then obtain a b where ab: "c # s = a @ p @ b" by blast
    then show "(\<exists>b. c # s = p @ b) \<or> (\<exists>a b. s = a @ p @ b)" by (cases a) auto
  qed (metis append_Cons append_Nil)
  finally show ?case .
qed simp

lemma Contains_part: "Contains x p \<Longrightarrow> Contains (a @ x @ b) p"
  by (auto simp: Contains_iff) (metis append.assoc)

text \<open>A text without a byte is in one of the two parts around that byte.\<close>

lemma Contains_sep:
  assumes "c \<notin> set p" and "Contains (a @ c # b) p"
  shows "Contains a p \<or> Contains b p"
proof -
  obtain x y where "a @ c # b = x @ p @ y" using assms(2) by (auto simp: Contains_iff)
  then obtain us where "a @ us = x \<and> c # b = us @ p @ y \<or> a = x @ us \<and> us @ c # b = p @ y" by (auto simp: append_eq_append_conv2)
  then show ?thesis
  proof
    assume u: "a @ us = x \<and> c # b = us @ p @ y"
    then show ?thesis
    proof (cases us)
      case Nil
      then have "p = []" using u assms(1) by (cases p) auto
      moreover have "Contains a []" by (cases a) (simp_all add: HasPrefix_def)
      ultimately show ?thesis by simp
    next
      case (Cons d vs)
      then have "b = vs @ p @ y" using u by simp
      then show ?thesis by (auto simp: Contains_iff)
    qed
  next
    assume u: "a = x @ us \<and> us @ c # b = p @ y"
    then obtain vs where "us @ vs = p \<and> c # b = vs @ y \<or> us = p @ vs \<and> vs @ c # b = y" by (auto simp: append_eq_append_conv2)
    then show ?thesis
    proof
      assume v: "us @ vs = p \<and> c # b = vs @ y"
      then have "vs = []" using assms(1) by (cases vs) auto
      then have "a = x @ p @ []" using v u by simp
      then show ?thesis unfolding Contains_iff by blast
    next
      assume "us = p @ vs \<and> vs @ c # b = y"
      then show ?thesis using u by (auto simp: Contains_iff)
    qed
  qed
qed

section \<open>Cutting and joining\<close>

lemma cuts_nonempty [simp]: "cuts s w \<noteq> []"
  by (induction s w rule: cuts.induct) (auto split: list.split)

lemma cuts_head: "cuts s w = x # xs \<Longrightarrow> \<exists>r. s = x @ r"
proof (induction s w arbitrary: x xs rule: cuts.induct)
  case (2 c s w)
  show ?case
  proof (cases "w \<noteq> [] \<and> HasPrefix (c # s) w")
    case True
    then show ?thesis using 2(3) by (auto simp del: HasPrefix_append)
  next
    case False
    obtain y ys where y: "cuts s w = y # ys" by (cases "cuts s w") auto
    obtain r where "s = y @ r" using 2(2) [OF False y] by blast
    then show ?thesis using False y 2(3) by (auto split: if_splits)
  qed
qed auto

lemma cuts_parts: "x \<in> set (cuts s w) \<Longrightarrow> \<exists>a b. s = a @ x @ b"
proof (induction s w arbitrary: x rule: cuts.induct)
  case (2 c s w)
  show ?case
  proof (cases "w \<noteq> [] \<and> HasPrefix (c # s) w")
    case True
    then have "x = [] \<or> x \<in> set (cuts (drop (length w) (c # s)) w)" using 2(3) by auto
    then show ?thesis
    proof
      assume "x \<in> set (cuts (drop (length w) (c # s)) w)"
      then obtain a b where "drop (length w) (c # s) = a @ x @ b" using 2(1) [OF True] by blast
      then have "c # s = (take (length w) (c # s) @ a) @ x @ b" by (metis append.assoc append_take_drop_id)
      then show ?thesis by blast
    qed auto
  next
    case False
    obtain y ys where y: "cuts s w = y # ys" by (cases "cuts s w") auto
    have x: "x = c # y \<or> x \<in> set ys" using 2(3) False y by (auto split: if_splits)
    then show ?thesis
    proof
      assume "x = c # y"
      then show ?thesis using cuts_head [OF y] by (metis append_Cons append_Nil)
    next
      assume "x \<in> set ys"
      then have "x \<in> set (cuts s w)" using y by simp
      from 2(2) [OF False this] obtain a b where "s = a @ x @ b" by blast
      then show ?thesis by (metis append_Cons)
    qed
  qed
qed auto

text \<open>No piece holds what the text was cut at.\<close>

lemma cuts_clean: "w \<noteq> [] \<Longrightarrow> x \<in> set (cuts s w) \<Longrightarrow> \<not> Contains x w"
proof (induction s w arbitrary: x rule: cuts.induct)
  case (2 c s w)
  show ?case
  proof (cases "HasPrefix (c # s) w")
    case True
    then have "x = [] \<or> x \<in> set (cuts (drop (length w) (c # s)) w)" using 2(3,4) by auto
    then show ?thesis using 2(1,3) True by auto
  next
    case False
    obtain y ys where y: "cuts s w = y # ys" by (cases "cuts s w") auto
    have x: "x = c # y \<or> x \<in> set ys" using 2(3,4) False y by (auto split: if_splits)
    then show ?thesis
    proof
      assume xy: "x = c # y"
      obtain r where "s = y @ r" using cuts_head [OF y] by blast
      then have "\<not> HasPrefix (c # y) w" using False by (auto simp: HasPrefix_iff) (metis append.assoc append_Cons)
      moreover have "\<not> Contains y w" using 2(2) [of y] 2(3) False y by simp
      ultimately show ?thesis using xy by simp
    next
      assume "x \<in> set ys"
      then show ?thesis using 2(2) [of x] 2(3) False y by simp
    qed
  qed
qed auto

section \<open>Redacting\<close>

text \<open>A value of a secret that redacting can take out whole: it has no bracket, and is not part of what stands for a secret.\<close>

definition redactable :: "string list \<Rightarrow> string \<Rightarrow> bool" where
  "redactable names v \<longleftrightarrow> v \<noteq> [] \<and> CHR ''['' \<notin> set v \<and> CHR '']'' \<notin> set v \<and> list_all (\<lambda>n. \<not> Contains (''secret:'' @ n) v) names"

lemma Join_marked:
  assumes "CHR ''['' \<notin> set v" and "CHR '']'' \<notin> set v" and "\<not> Contains m v"
    and "Contains (Join xs (CHR ''['' # m @ '']'')) v"
  shows "\<exists>x\<in>set xs. Contains x v \<or> v = []"
  using assms(4)
proof (induction xs "CHR ''['' # m @ '']''" rule: Join.induct)
  case 1
  then show ?case using assms(3) by (auto simp: Contains_iff)
next
  case (3 s t ts)
  have "Join (s # t # ts) (CHR ''['' # m @ '']'') = s @ CHR ''['' # (m @ CHR '']'' # Join (t # ts) (CHR ''['' # m @ '']''))" by simp
  then have "Contains s v \<or> Contains (m @ CHR '']'' # Join (t # ts) (CHR ''['' # m @ '']'')) v"
    using Contains_sep [OF assms(1)] 3(2) by metis
  then have "Contains s v \<or> Contains (Join (t # ts) (CHR ''['' # m @ '']'')) v" using Contains_sep [OF assms(2)] assms(3) by blast
  then show ?case using 3(1) by auto
qed simp

lemma mark_text: "''[secret:'' @ n @ '']'' = CHR ''['' # (''secret:'' @ n) @ '']''"
  by simp

lemma redact_step_keeps:
  assumes "redactable names v" and "snd nd \<in> set names" and "\<not> Contains text_in v"
  shows "\<not> Contains (redact_step nd text_in) v"
proof
  assume c: "Contains (redact_step nd text_in) v"
  have "\<exists>x\<in>set (cuts text_in (fst nd)). Contains x v \<or> v = []"
  proof (rule Join_marked)
    show "CHR ''['' \<notin> set v" "CHR '']'' \<notin> set v" "\<not> Contains (''secret:'' @ snd nd) v"
      using assms(1,2) by (auto simp: redactable_def list_all_iff)
    show "Contains (Join (cuts text_in (fst nd)) (CHR ''['' # (''secret:'' @ snd nd) @ '']'')) v"
      using c by (simp add: redact_step_def ReplaceAll_def)
  qed
  then obtain x where x: "x \<in> set (cuts text_in (fst nd))" "Contains x v" using assms(1) by (auto simp: redactable_def)
  obtain a b where "text_in = a @ x @ b" using cuts_parts [OF x(1)] by blast
  then show False using Contains_part [OF x(2), of a b] assms(3) by simp
qed

lemma redact_step_removes:
  assumes "redactable names (fst nd)" and "snd nd \<in> set names"
  shows "\<not> Contains (redact_step nd text_in) (fst nd)"
proof
  assume c: "Contains (redact_step nd text_in) (fst nd)"
  have "\<exists>x\<in>set (cuts text_in (fst nd)). Contains x (fst nd) \<or> fst nd = []"
  proof (rule Join_marked)
    show "CHR ''['' \<notin> set (fst nd)" "CHR '']'' \<notin> set (fst nd)" "\<not> Contains (''secret:'' @ snd nd) (fst nd)"
      using assms by (auto simp: redactable_def list_all_iff)
    show "Contains (Join (cuts text_in (fst nd)) (CHR ''['' # (''secret:'' @ snd nd) @ '']'')) (fst nd)"
      using c by (simp add: redact_step_def ReplaceAll_def)
  qed
  then show False using cuts_clean [of "fst nd"] assms(1) by (auto simp: redactable_def)
qed

lemma redact_fold:
  assumes "redactable names v" and "\<forall>nd\<in>set ns. snd nd \<in> set names" and "v \<in> fst ` set ns \<or> \<not> Contains text_in v"
  shows "\<not> Contains (fold redact_step ns text_in) v"
  using assms(2,3)
proof (induction ns arbitrary: text_in)
  case (Cons nd ns)
  have "v \<in> fst ` set ns \<or> \<not> Contains (redact_step nd text_in) v"
  proof (cases "fst nd = v")
    case True
    then show ?thesis using redact_step_removes [of names nd] assms(1) Cons.prems(1) by auto
  next
    case False
    then show ?thesis using redact_step_keeps [OF assms(1), of nd] Cons.prems by auto
  qed
  then show ?case using Cons by simp
qed simp

lemma needles_names: "nd \<in> set (needles_of nv) \<Longrightarrow> snd nd = fst nv"
  by (auto simp: needles_of_def Let_def split: if_splits)

lemma redact_value:
  assumes "(name, val) \<in> set vals" and "4 \<le> length (TrimSpace val)" and "redactable (map fst vals) (TrimSpace val)"
  shows "\<not> Contains (redact vals text_in) (TrimSpace val)"
  unfolding redact_def
proof (rule redact_fold [OF assms(3)])
  show "\<forall>nd\<in>set (longest_first (concat (map needles_of vals))). snd nd \<in> set (map fst vals)"
    using needles_names by (force simp: longest_first_def)
  have "(TrimSpace val, name) \<in> set (needles_of (name, val))" using assms(2) by (simp add: needles_of_def Let_def)
  then show "TrimSpace val \<in> fst ` set (longest_first (concat (map needles_of vals))) \<or> \<not> Contains text_in (TrimSpace val)"
    using assms(1) by (force simp: longest_first_def)
qed

section \<open>Reading\<close>

text \<open>The task an agent may use secrets on.\<close>

definition entitled :: "fleet_conf \<Rightarrow> string \<Rightarrow> string \<Rightarrow> fleet \<Rightarrow> bool" where
  "entitled c agent task f \<longleftrightarrow> known c agent \<and> agent \<notin> set (fc_sandboxes c) \<and> st_Task (fd_states f agent) = task \<and> task \<noteq> '''' \<and>
     (case row_of tk_ID task (lg_tasks (fd_ledger f)) of None \<Rightarrow> False
      | Some r \<Rightarrow> coalesce '''' (tk_Agent r) = agent \<and> tk_AdminWork r = Some True \<and> fromUnix (tk_Closed r) = zero_time)"

lemma mayUse_task:
  assumes "mayUseSecrets c w agent f = (None, task)"
  shows "entitled c agent task f"
proof -
  let ?t = "st_Task (fd_states f agent)"
  have t: "known c agent" "?t \<noteq> ''''" using assms by (auto simp: mayUseSecrets_def Let_def split: if_splits)
  then obtain x where r: "read_task (sw_task w) ?t (fd_ledger f) = Inr (Some x)" "ta_Agent x = agent" "ta_Closed x = zero_time" "ta_AdminWork x"
      "agent \<notin> set (fc_sandboxes c)" "task = ?t"
    using assms by (auto simp: mayUseSecrets_def Let_def split: if_splits sum.splits option.splits)
  obtain q where q: "row_of tk_ID ?t (lg_tasks (fd_ledger f)) = Some q" "x = task_read q" using r(1) by (auto simp: read_task_def split: option.splits)
  have "tk_AdminWork q = Some True" using r(4) q(2) by (auto simp: task_read_def coalesce_def split: option.splits)
  then show ?thesis using t r q by (simp add: entitled_def task_read_def)
qed

text \<open>A grant that is on.\<close>

definition granted_now :: "string \<Rightarrow> string \<Rightarrow> string \<Rightarrow> gtime \<Rightarrow> ledger \<Rightarrow> bool" where
  "granted_now name agent task now g \<longleftrightarrow> list_ex (\<lambda>x. grants_to name agent task x \<and> \<not> grant_over now x) (lg_grants g)"

lemma Granted_now: "Granted derr qerr name agent task now g = (Inr True, g') \<Longrightarrow>
    granted_now name agent task now g \<and> lg_secrets g' = lg_secrets g \<and> lg_tasks g' = lg_tasks g"
  by (auto simp: Granted_def dropExpired_def ran_def granted_now_def list_ex_iff split: option.splits prod.splits)

lemma told_events [simp]: "kp_events (told w kind agent name task k) = kp_events k @
    (if sw_event w = None then [\<lparr>sv_Kind = kind, sv_Agent = agent, sv_Secret = name, sv_Task = task\<rparr>] else [])"
  by (simp add: told_def)

lemma on_ledger_simps [simp]: "kp_events (on_ledger g k) = kp_events k" "kp_vault (on_ledger g k) = kp_vault k" "kp_ledger (on_ledger g k) = g"
    "kp_events (k\<lparr>kp_vault := v\<rparr>) = kp_events k" "kp_ledger (k\<lparr>kp_vault := v\<rparr>) = kp_ledger k"
  by (simp_all add: on_ledger_def kp_ledger_def with_ledger_def)

text \<open>A fleet with one agent on a task of the operator, one secret, granted to the task.\<close>

definition demo_aead :: aead where
  "demo_aead = \<lparr>ae_seal = (\<lambda>k n val ad. k @ val @ ad), ae_open = (\<lambda>k n ct ad. if HasPrefix ct k \<and> HasSuffix ct ad
     then Some (drop (length k) (take (length ct - length ad) ct)) else None)\<rparr>"

definition demo_disk :: vault_world where
  "demo_disk = \<lparr>vw_read = None, vw_stat = None, vw_mkdir = None, vw_key = Inr (replicate 32 (CHR ''k'')), vw_raced = None, vw_open = None,
     vw_write = None, vw_nonce = Inr (replicate 12 (CHR ''n''))\<rparr>"

definition demo_sw :: secret_world where
  "demo_sw = \<lparr>sw_aead = demo_aead, sw_vault = demo_disk, sw_task = None, sw_sealed = None, sw_write = None, sw_more = None, sw_drop = None, sw_count = None, sw_event = None\<rparr>"

definition keeper0 :: keeper where
  "keeper0 = \<lparr>kp_fleet = snd (Assign demo_fleet hearing ''a'' ''T'' ''operator'' '''' noon (fst demo0)), kp_vault = \<lparr>va_file = None, va_loaded = None\<rparr>,
     kp_events = []\<rparr>"

definition keeper1 :: keeper where "keeper1 = snd (SecretPut demo_sw ''api.key'' ''hunter2'' noon keeper0)"
definition keeper2 :: keeper where "keeper2 = snd (SecretGrant demo_fleet demo_sw ''api.key'' ''T'' '''' ''operator'' 0 noon keeper1)"
definition demo_secret_read where "demo_secret_read = SecretRead demo_fleet demo_sw ''a'' ''api.key'' (noon + minute) keeper2"

text \<open>
  C5. A secret's value leaves the keeper only to an agent that works an open task of the operator's, given it by fleetd and its own on the
  ledger, that is no sandbox, while the secret is granted to it or to that task and the grant has not run out; and every attempt, whether it
  is answered or refused, is told in exactly one event, or in none when the ledger does not take it.
\<close>
theorem secret_read_is_entitled:
  assumes "SecretRead c w agent name now k = (r, k')"
  shows "(case r of Inl _ \<Rightarrow> True | Inr _ \<Rightarrow>
      entitled c agent (st_Task (fd_states (kp_fleet k) agent)) (kp_fleet k) \<and>
      granted_now name agent (st_Task (fd_states (kp_fleet k) agent)) now (kp_ledger k)) \<and>
    (\<exists>task. kp_events k' = kp_events k @ (if sw_event w = None then [\<lparr>sv_Kind = (if isl r then ''fleet.secret.denied'' else ''fleet.secret.read''),
       sv_Agent = agent, sv_Secret = name, sv_Task = task\<rparr>] else []))"
proof -
  obtain e task where m: "mayUseSecrets c w agent (kp_fleet k) = (e, task)" by fastforce
  show ?thesis
  proof (cases e)
    case (Some x)
    then show ?thesis using assms m by (auto simp: SecretRead_def denied_def)
  next
    case None
    obtain ok g where gr: "Granted (sw_drop w) (sw_count w) name agent task now (kp_ledger k) = (ok, g)" by fastforce
    show ?thesis
    proof (cases "ok = Inr True")
      case False
      then show ?thesis using assms m None gr by (auto simp: SecretRead_def denied_def split: sum.splits)
    next
      case True
      have ent: "entitled c agent task (kp_fleet k)" "granted_now name agent task now (kp_ledger k)"
        using mayUse_task m None Granted_now gr True by blast+
      have t: "st_Task (fd_states (kp_fleet k) agent) = task" using ent(1) by (simp add: entitled_def)
      show ?thesis using assms m None gr True ent unfolding t
        by (auto simp: SecretRead_def denied_def split: sum.splits prod.splits)
    qed
  qed
qed

theorem secret_read_is_entitled_witness:
  "entitled demo_fleet ''a'' ''T'' (kp_fleet keeper2) \<and> granted_now ''api.key'' ''a'' ''T'' (noon + minute) (kp_ledger keeper2) \<and>
   fst demo_secret_read = Inr ''hunter2''"
proof -
  have v: "fst demo_secret_read = Inr ''hunter2''" and t: "st_Task (fd_states (kp_fleet keeper2) ''a'') = ''T''" by code_simp+
  have "SecretRead demo_fleet demo_sw ''a'' ''api.key'' (noon + minute) keeper2 = (Inr ''hunter2'', snd demo_secret_read)"
    using v by (metis demo_secret_read_def prod.collapse)
  from secret_read_is_entitled [OF this] show ?thesis using v t by simp
qed

text \<open>A vault of the same key file: it has the key loaded, or reads it again, as after a restart.\<close>

definition same_key :: "secret_world \<Rightarrow> vault \<Rightarrow> vault \<Rightarrow> bool" where
  "same_key w v v' \<longleftrightarrow> va_file v' = va_file v \<and> (va_loaded v' = va_loaded v \<or> va_loaded v' = None \<and> vw_read (sw_vault w) = None \<and> vw_stat (sw_vault w) = None)"

lemma same_key_cipher:
  assumes "key_ok v" and "va_loaded v = Some key" and "same_key w v v'"
  shows "\<exists>v''. cipher (sw_vault w) v' = (Inr key, v'')"
proof (cases "va_loaded v' = va_loaded v")
  case True
  then show ?thesis using assms(2) by (simp add: cipher_loaded)
next
  case False
  then have n: "va_loaded v' = None" "vw_read (sw_vault w) = None" "vw_stat (sw_vault w) = None" "va_file v' = va_file v"
    using assms(3) by (auto simp: same_key_def)
  obtain kf where "va_file v = Some kf" "kf_Key kf = key" "kf_Mode kf mod 64 = 0" "length key = 32"
    using assms(1,2) by (auto simp: key_ok_def split: option.splits)
  then show ?thesis using n by (simp add: cipher_def check_key_def)
qed

text \<open>
  C7. What was put is what is read: an agent that may read a secret gets the value that was last put under its name, also from a fleetd
  that started again since and reads the key from its file, as AES-GCM opens what it sealed.
\<close>
theorem put_then_read:
  assumes "opens_what_it_seals (sw_aead w)" and "nonces (sw_vault w)" and "key_ok (kp_vault k)"
    and "SecretPut w name val now k = (None, k1)"
    and "sw_aead w2 = sw_aead w" and "same_key w2 (kp_vault k1) (kp_vault k2)"
    and "row_of se_Name name (lg_secrets (kp_ledger k2)) = row_of se_Name name (lg_secrets (kp_ledger k1))"
    and "mayUseSecrets c w2 agent (kp_fleet k2) = (None, task)"
    and "Granted (sw_drop w2) (sw_count w2) name agent task later (kp_ledger k2) = (Inr True, g)" and "sw_sealed w2 = None"
  shows "fst (SecretRead c w2 agent name later k2) = Inr val"
proof -
  obtain sealed v g1 where s: "Seal (sw_aead w) (sw_vault w) name val (kp_vault k) = (Inr sealed, v)"
      "PutSecret (sw_write w) name sealed now (kp_ledger k) = (None, g1)" "k1 = told w ''fleet.secret.put'' '''' name '''' (on_ledger g1 (k\<lparr>kp_vault := v\<rparr>))"
    using assms(4) by (auto simp: SecretPut_def split: if_splits prod.splits sum.splits option.splits)
  have k1: "kp_vault k1 = v" "kp_ledger k1 = g1" using s(3) by (simp_all add: told_def on_ledger_def kp_ledger_def with_ledger_def)
  obtain key nonce where key: "cipher (sw_vault w) (kp_vault k) = (Inr key, v)" "vw_nonce (sw_vault w) = Inr nonce" "sealed = nonce @ ae_seal (sw_aead w) key nonce val name"
    using s(1) by (auto simp: Seal_def split: prod.splits sum.splits)
  have vok: "key_ok v" "va_loaded v = Some key" using cipher_key_ok [OF assms(3), of "sw_vault w"] key(1) cipher_loads by auto
  obtain v2 where c2: "cipher (sw_vault w2) (kp_vault k2) = (Inr key, v2)" using same_key_cipher [OF vok] assms(6) k1(1) by blast
  have n: "length nonce = NonceSize" using assms(2) key(2) by (simp add: nonces_def)
  have op: "Open (sw_aead w2) (sw_vault w2) name sealed (kp_vault k2) = (Inr val, v2)"
    using c2 n assms(1,5) key(3) by (simp add: Open_def opens_what_it_seals_def)
  have "\<exists>r. row_of se_Name name (lg_secrets g1) = Some r \<and> se_Sealed r = sealed"
  proof -
    have up: "row_of se_Name name (upsert se_Name merge_secret x rs) = Some (case row_of se_Name name rs of None \<Rightarrow> x | Some r \<Rightarrow> merge_secret r x)"
      if "se_Name x = name" for x rs
      using that by (induction rs) (auto simp: row_of_def merge_secret_def)
    show ?thesis using s(2) up by (auto simp: PutSecret_def ran_def merge_secret_def split: option.splits)
  qed
  then have "SealedSecret (sw_sealed w2) name g = Inr sealed"
    using assms(7,10) k1(2) Granted_now [OF assms(9)] by (auto simp: SealedSecret_def)
  then show ?thesis using assms(8,9) op by (simp add: SecretRead_def)
qed

lemma demo_opens: "opens_what_it_seals demo_aead"
  by (simp add: opens_what_it_seals_def demo_aead_def HasSuffix_def)

theorem put_then_read_witness:
  "fst (SecretRead demo_fleet demo_sw ''a'' ''api.key'' (noon + minute) (keeper2\<lparr>kp_vault := (kp_vault keeper2)\<lparr>va_loaded := None\<rparr>\<rparr>)) = Inr ''hunter2''"
proof -
  let ?k2 = "keeper2\<lparr>kp_vault := (kp_vault keeper2)\<lparr>va_loaded := None\<rparr>\<rparr>"
  have o: "opens_what_it_seals (sw_aead demo_sw)" using demo_opens by (simp add: demo_sw_def)
  have n: "nonces (sw_vault demo_sw)" "key_ok (kp_vault keeper0)" by code_simp+
  have "fst (SecretPut demo_sw ''api.key'' ''hunter2'' noon keeper0) = None" by code_simp
  then have p: "SecretPut demo_sw ''api.key'' ''hunter2'' noon keeper0 = (None, keeper1)" by (metis keeper1_def prod.collapse)
  have s: "same_key demo_sw (kp_vault keeper1) (kp_vault ?k2)" by code_simp
  have q: "row_of se_Name ''api.key'' (lg_secrets (kp_ledger ?k2)) = row_of se_Name ''api.key'' (lg_secrets (kp_ledger keeper1))" by code_simp
  have m: "mayUseSecrets demo_fleet demo_sw ''a'' (kp_fleet ?k2) = (None, ''T'')" by code_simp
  have "fst (Granted (sw_drop demo_sw) (sw_count demo_sw) ''api.key'' ''a'' ''T'' (noon + minute) (kp_ledger ?k2)) = Inr True" by code_simp
  then have g: "Granted (sw_drop demo_sw) (sw_count demo_sw) ''api.key'' ''a'' ''T'' (noon + minute) (kp_ledger ?k2) =
      (Inr True, snd (Granted (sw_drop demo_sw) (sw_count demo_sw) ''api.key'' ''a'' ''T'' (noon + minute) (kp_ledger ?k2)))" by (metis prod.collapse)
  have z: "sw_sealed demo_sw = None" by (simp add: demo_sw_def)
  show ?thesis by (rule put_then_read [OF o n p refl s q m g z])
qed

text \<open>What a text of a message becomes: every stored secret that opens is taken out of it.\<close>

lemma redacted_text:
  assumes "sw_sealed w = None" and "(name, val) \<in> set (fst (open_all w (lg_secrets (kp_ledger k)) (kp_vault k)))"
    and "4 \<le> length (TrimSpace val)" and "redactable (map fst (fst (open_all w (lg_secrets (kp_ledger k)) (kp_vault k)))) (TrimSpace val)"
  shows "\<not> Contains (fst (redactSecrets w text_in k)) (TrimSpace val)"
proof -
  have "lg_secrets (kp_ledger k) \<noteq> []" using assms(2) by auto
  then have "fst (redactSecrets w text_in k) = redact (fst (open_all w (lg_secrets (kp_ledger k)) (kp_vault k))) text_in"
    using assms(1) by (simp add: redactSecrets_def split: prod.splits)
  then show ?thesis using redact_value [OF assms(2-4)] by simp
qed

text \<open>A text goes out unredacted when the ledger does not answer for the secrets.\<close>

theorem unreadable_secrets_pass: "sw_sealed w \<noteq> None \<Longrightarrow> redactSecrets w text_in k = (text_in, k)"
  by (simp add: redactSecrets_def)

section \<open>What a send stores and delivers\<close>

text \<open>fleetd's world, with the keeper's redacting on the path of messages (\<^verbatim>\<open>daemon.go\<close> \<open>deliverMsg\<close>, \<^verbatim>\<open>ask.go\<close> \<open>answerBlocked\<close>).\<close>

definition guarded :: "secret_world \<Rightarrow> keeper \<Rightarrow> fleet_world \<Rightarrow> fleet_world" where
  "guarded sw k w = w\<lparr>fw_redact := \<lambda>text. fst (redactSecrets sw text k)\<rparr>"

text \<open>No text of a message changes, and every try is of the text \<open>x\<close> or of a message in \<open>R\<close>.\<close>

definition says :: "fleet_world \<Rightarrow> string \<Rightarrow> Relay set \<Rightarrow> fleet \<Rightarrow> fleet \<Rightarrow> bool" where
  "says w x R f f' \<longleftrightarrow> map rl_Text (lg_relays (fd_ledger f')) = map rl_Text (lg_relays (fd_ledger f)) \<and>
     (\<exists>ts. fd_tries f' = fd_tries f @ ts \<and> (\<forall>t\<in>set ts. ty_Text t = x \<or> (\<exists>r\<in>R. ty_Text t = noted_text w r)))"

lemma says_same: "map rl_Text (lg_relays (fd_ledger f')) = map rl_Text (lg_relays (fd_ledger f)) \<Longrightarrow> fd_tries f' = fd_tries f \<Longrightarrow> says w x R f f'"
  by (simp add: says_def)

lemma says_trans: "says w x R f g \<Longrightarrow> says w x R g h \<Longrightarrow> says w x R f h"
  unfolding says_def by (elim conjE exE, rule conjI, simp, rule_tac x = "ts @ tsa" in exI) auto

lemma says_mono: "says w x R f g \<Longrightarrow> R \<subseteq> S \<Longrightarrow> says w x S f g"
  unfolding says_def by blast

lemma set_relay_texts: "(\<And>r. rl_Text (u r) = rl_Text r) \<Longrightarrow> map rl_Text (lg_relays (snd (set_relay p u err g))) = map rl_Text (lg_relays g)"
  by (cases err) (simp_all add: set_relay_def ran_def update_where_def)

lemma relay_texts [simp]:
  "map rl_Text (lg_relays (snd (EndRelay err i m g))) = map rl_Text (lg_relays g)"
  "map rl_Text (lg_relays (snd (HoldRelay err i g))) = map rl_Text (lg_relays g)"
  "map rl_Text (lg_relays (snd (StampDelivered err i now g))) = map rl_Text (lg_relays g)"
  by (simp_all add: EndRelay_def HoldRelay_def StampDelivered_def set_relay_texts)

lemma got_through_texts [simp]: "map rl_Text (lg_relays (got_through w i now g)) = map rl_Text (lg_relays g)"
  unfolding got_through_def
  by (cases "EndRelay (fw_end w i) i None g") (use relay_texts(1) [of "fw_end w i" i None g] in \<open>auto split: option.split\<close>)

lemma try_says: "try_once w to from x f = (err, f') \<Longrightarrow> says w x R f f'"
  using try_once_tries [of w to "from" x f err f'] by (auto simp: says_def)

lemma relay_again_says: "relay_again n w to from x err f = (err', f') \<Longrightarrow> says w x R f f'"
proof (induction n arbitrary: err f)
  case (Suc n)
  obtain e1 f1 where t: "try_once w to from x f = (e1, f1)" by fastforce
  with Suc show ?case by (auto simp: says_same split: if_splits intro: says_trans [OF try_says [OF t]])
qed (simp add: says_same)

lemma relay_says: "relay w to from x f = (err, f') \<Longrightarrow> says w x R f f'"
proof -
  assume r: "relay w to from x f = (err, f')"
  obtain e1 f1 where t: "try_once w to from x f = (e1, f1)" by fastforce
  with r have "relay_again relayBackoff w to from x e1 f1 = (err, f')" by (simp add: relay_def)
  from says_trans [OF try_says [OF t] relay_again_says [OF this]] show ?thesis .
qed

lemma flush_each_says: "set rs \<subseteq> R \<Longrightarrow> says w x R f (snd (flush_each c w name now rs f))"
proof (induction rs arbitrary: f)
  case (Cons r rs)
  obtain err f1 where t: "try_once w name (rl_From r) (noted_text w r) f = (err, f1)" by fastforce
  have k: "says w x R f g" if "map rl_Text (lg_relays (fd_ledger g)) = map rl_Text (lg_relays (fd_ledger f1))" "fd_tries g = fd_tries f1" for g
    using that try_once_tries [OF t] Cons.prems by (auto simp: says_def)
  show ?case
  proof (cases err)
    case None
    let ?f2 = "with_ledger (got_through w (rl_ID r) now (fd_ledger f1)) (note_failure c name err now f1)"
    have "says w x R f ?f2" by (rule k) simp_all
    moreover have "says w x R ?f2 (snd (flush_each c w name now rs ?f2))" using Cons by simp
    ultimately show ?thesis using t None by (simp add: Let_def says_trans)
  next
    case (Some m)
    then show ?thesis using t by (auto simp: Let_def intro!: k)
  qed
qed (simp add: says_same)

lemma flush_says: "flush c w name now f = (e, f') \<Longrightarrow> says w x {r \<in> set (lg_relays (fd_ledger f)). kept r} f f'"
proof -
  assume e: "flush c w name now f = (e, f')"
  show ?thesis
  proof (cases "PendingRelays (fw_pending w) name zero_time (fd_ledger f)")
    case (Inl m)
    with e show ?thesis by (simp add: flush_def says_same)
  next
    case (Inr pend)
    then have "set pend \<subseteq> {r \<in> set (lg_relays (fd_ledger f)). kept r}"
      by (auto simp: PendingRelays_def pendingWhere_def split: option.splits)
    from flush_each_says [OF this, of w x f c name now] e Inr show ?thesis by (simp add: flush_def)
  qed
qed

lemma deliver_rest_says:
  assumes "deliver_rest c w from to x now hold begun f = (e, f')"
  shows "says w x {r \<in> set (lg_relays (fd_ledger f)). kept r} f f'"
proof -
  let ?R = "{r \<in> set (lg_relays (fd_ledger f)). kept r}"
  have l: "says w x ?R f (with_ledger g f1)" if "says w x ?R f f1" "map rl_Text (lg_relays g) = map rl_Text (lg_relays (fd_ledger f1))" for g f1
    by (rule says_trans [OF that(1) says_same]) (use that(2) in simp_all)
  show ?thesis
  proof (cases begun)
    case (Inl m)
    with assms show ?thesis by (auto simp: deliver_rest_def split: prod.splits intro: relay_says)
  next
    case (Inr i)
    show ?thesis
    proof (cases hold)
      case True
      obtain err f1 where t: "(case unable c to f of Some e \<Rightarrow> (Some e, f)
        | None \<Rightarrow> (case flush c w to now f of (Some e, f') \<Rightarrow> (Some e, f') | (None, f') \<Rightarrow> relay w to from x f')) = (err, f1)" by fastforce
      have s: "says w x ?R f f1"
      proof (cases "unable c to f")
        case None
        obtain e2 f2 where fl: "flush c w to now f = (e2, f2)" by fastforce
        note h = flush_says [OF fl, of x]
        show ?thesis using t fl None h by (cases e2) (auto intro: says_trans [OF h relay_says])
      qed (use t in \<open>simp add: says_same\<close>)
      obtain e3 g where hr: "HoldRelay (fw_hold w i) i (fd_ledger f1) = (e3, g)" by fastforce
      have "map rl_Text (lg_relays g) = map rl_Text (lg_relays (fd_ledger f1))" using relay_texts(2) [of "fw_hold w i" i "fd_ledger f1"] hr by simp
      note lg = l [OF s this]
      show ?thesis using assms unfolding deliver_rest_def Inr sum.case using True t hr lg l [OF s]
        by (cases err; cases e3) auto
    next
      case False
      obtain err f1 where r: "relay w to from x f = (err, f1)" by fastforce
      show ?thesis using assms Inr False r l [OF relay_says [OF r]] by (auto simp: deliver_rest_def)
    qed
  qed
qed

text \<open>
  C6. A message is redacted before it is stored or sent, as long as the ledger answers for the secrets. Take a stored secret that opens,
  whose value, trimmed, has four bytes or more, no brackets, and is not part of the mark of a secret. Whatever a send does, be it filed to an
  inbox, delivered at once, held, or not even recorded, the value is nowhere in the text of any message it adds to the ledger, and every try it makes is of a text
  without the value, or of an older message that waited, as that message was stored. That holds whatever other secrets there are and in whatever
  order they are taken out; when the ledger does not answer for the secrets, the text passes as it is.
\<close>
theorem redacted_holds_no_secret:
  assumes "sw_sealed sw = None" and "(name, val) \<in> set (fst (open_all sw (lg_secrets (kp_ledger k)) (kp_vault k)))"
    and "4 \<le> length (TrimSpace val)" and "redactable (map fst (fst (open_all sw (lg_secrets (kp_ledger k)) (kp_vault k)))) (TrimSpace val)"
    and "deliverMsg c (guarded sw k w) from to text task kind now hold (kp_fleet k) = (res, f')"
  shows "(\<forall>r\<in>set (drop (length (lg_relays (kp_ledger k))) (lg_relays (fd_ledger f'))). \<not> Contains (rl_Text r) (TrimSpace val)) \<and>
    (\<forall>t\<in>set (drop (length (fd_tries (kp_fleet k))) (fd_tries f')). \<not> Contains (ty_Text t) (TrimSpace val) \<or>
       (\<exists>r\<in>set (lg_relays (kp_ledger k)). kept r \<and> ty_Text t = noted_text w r))"
proof -
  let ?w = "guarded sw k w" and ?f = "kp_fleet k" and ?x = "fst (redactSecrets sw text k)"
  have x: "fw_redact ?w text = ?x" by (simp add: guarded_def)
  have n: "noted_text ?w r = noted_text w r" for r by (simp add: noted_text_def guarded_def)
  have clean: "\<not> Contains ?x (TrimSpace val)" by (rule redacted_text [OF assms(1-4)])
  obtain b f1 where b: "deliver_begin c ?w from to text task kind now ?f = (b, f1)" by fastforce
  have begun: "(\<exists>rs. lg_relays (fd_ledger f1) = lg_relays (fd_ledger ?f) @ rs \<and> (\<forall>r\<in>set rs. rl_Text r = ?x \<and> (isl b \<or> \<not> kept r))) \<and>
      fd_tries f1 = fd_tries ?f"
    using b
  proof (cases rule: deliver_begin_cases)
    case (filed e g)
    then show ?thesis using x
      by (cases "fw_begin ?w") (auto simp: AddRelay_def addRelay_def relay_row_def message_def)
  next
    case (begun r g)
    then show ?thesis using x
      by (cases "fw_begin ?w") (auto simp: BeginRelay_def addRelay_def relay_row_def message_def kept_def nullStr_def relay_errors)
  qed simp
  then obtain rs where rs: "lg_relays (fd_ledger f1) = lg_relays (fd_ledger ?f) @ rs" "\<forall>r\<in>set rs. rl_Text r = ?x \<and> (isl b \<or> \<not> kept r)"
    and t1: "fd_tries f1 = fd_tries ?f" by blast
  have "says ?w ?x {r \<in> set (lg_relays (fd_ledger ?f)). kept r} f1 f'"
  proof (cases b)
    case (Inl e)
    then show ?thesis using assms(5) b by (simp add: deliverMsg_def says_same)
  next
    case (Inr r)
    then have "deliver_rest c ?w from to ?x now hold r f1 = (res, f')" using assms(5) b x by (simp add: deliverMsg_def)
    then have "says ?w ?x {r \<in> set (lg_relays (fd_ledger f1)). kept r} f1 f'" by (rule deliver_rest_says)
    then show ?thesis by (rule says_mono) (use rs Inr in auto)
  qed
  then obtain ts where m: "map rl_Text (lg_relays (fd_ledger f')) = map rl_Text (lg_relays (fd_ledger ?f)) @ map rl_Text rs"
    and ts: "fd_tries f' = fd_tries ?f @ ts" "\<forall>t\<in>set ts. ty_Text t = ?x \<or> (\<exists>r\<in>set (lg_relays (fd_ledger ?f)). kept r \<and> ty_Text t = noted_text w r)"
    unfolding says_def rs(1) t1 n map_append by (elim conjE exE) (rule that; simp add: Bex_def)
  have "\<forall>r\<in>set (drop (length (lg_relays (kp_ledger k))) (lg_relays (fd_ledger f'))). rl_Text r = ?x"
  proof
    fix r assume "r \<in> set (drop (length (lg_relays (kp_ledger k))) (lg_relays (fd_ledger f')))"
    then have "rl_Text r \<in> set (drop (length (lg_relays (fd_ledger ?f))) (map rl_Text (lg_relays (fd_ledger f'))))"
      by (simp add: kp_ledger_def drop_map)
    with m rs(2) show "rl_Text r = ?x" by auto
  qed
  with clean ts show ?thesis by (auto simp: kp_ledger_def)
qed

definition leaked :: "send_error option \<times> fleet" where
  "leaked = deliverMsg demo_fleet (guarded demo_sw keeper2 hearing) ''a'' ''b'' ''use hunter2, or: hunter22'' noTask '''' noon True (kp_fleet keeper2)"

theorem redacted_holds_no_secret_witness:
  "map ty_Text (drop (length (fd_tries (kp_fleet keeper2))) (fd_tries (snd leaked))) = [''use [secret:api.key], or: [secret:api.key]2''] \<and>
   list_all (\<lambda>r. \<not> Contains (rl_Text r) ''hunter2'') (drop (length (lg_relays (kp_ledger keeper2))) (lg_relays (fd_ledger (snd leaked))))"
proof
  show "map ty_Text (drop (length (fd_tries (kp_fleet keeper2))) (fd_tries (snd leaked))) = [''use [secret:api.key], or: [secret:api.key]2'']" by code_simp
  have a: "sw_sealed demo_sw = None" by (simp add: demo_sw_def)
  have v: "fst (open_all demo_sw (lg_secrets (kp_ledger keeper2)) (kp_vault keeper2)) = [(''api.key'', ''hunter2'')]" by code_simp
  have b: "(''api.key'', ''hunter2'') \<in> set (fst (open_all demo_sw (lg_secrets (kp_ledger keeper2)) (kp_vault keeper2)))" by (simp add: v)
  have t: "TrimSpace ''hunter2'' = ''hunter2''" by code_simp
  have c: "4 \<le> length (TrimSpace ''hunter2'')" by code_simp
  have d: "redactable (map fst (fst (open_all demo_sw (lg_secrets (kp_ledger keeper2)) (kp_vault keeper2)))) (TrimSpace ''hunter2'')"
    unfolding v by code_simp
  have e: "deliverMsg demo_fleet (guarded demo_sw keeper2 hearing) ''a'' ''b'' ''use hunter2, or: hunter22'' noTask '''' noon True (kp_fleet keeper2) = (fst leaked, snd leaked)"
    by (simp add: leaked_def)
  from redacted_holds_no_secret [OF a b c d e]
  show "list_all (\<lambda>r. \<not> Contains (rl_Text r) ''hunter2'') (drop (length (lg_relays (kp_ledger keeper2))) (lg_relays (fd_ledger (snd leaked))))"
    unfolding t list_all_iff by blast
qed

end
