(* ===== verification/Config_Props.thy ===== *)
theory Config_Props
  imports Fleet_Config Fleet_Relays
begin

text \<open>
  What a fleet.yaml that is accepted guarantees: its workers have names of their own, and a token is held once.
\<close>

section \<open>Names of slots\<close>

lemma Atoi_show_nat: "int n \<le> max_int64 \<Longrightarrow> Atoi (show_nat n) = Some (int n)"
proof -
  assume n: "int n \<le> max_int64"
  have d: "list_all is_digit (show_nat n)" using show_nat_digits [of n] by (auto simp: list_all_iff)
  have h: "is_digit (hd (show_nat n))" using d show_nat_nonempty [of n] by (cases "show_nat n") auto
  have "hd (show_nat n) \<noteq> CHR ''-''" "hd (show_nat n) \<noteq> CHR ''+''" using h by (auto simp: is_digit_def)
  then show ?thesis using d n by (simp add: Atoi_def digits_val_show_nat min_int64_def)
qed

lemma show_int_nat: "0 \<le> k \<Longrightarrow> show_int k = show_nat (nat k)"
  by (simp add: show_int_def)

lemma SplitWorker_name:
  assumes "CHR '':'' \<notin> set agent" and "1 \<le> k" and "k \<le> max_int64"
  shows "SplitWorker (WorkerName agent k) = (agent, k)"
proof (cases "k \<le> 1")
  case True
  then show ?thesis using assms by (simp add: SplitWorker_def WorkerName_def Cut_no)
next
  case False
  have "Atoi (show_int k) = Some k" using Atoi_show_nat [of "nat k"] False assms(3) by (simp add: show_int_nat)
  then show ?thesis using assms(1) False by (simp add: SplitWorker_def WorkerName_def Cut_found)
qed

lemma WorkerName_split: "SplitWorker name = (agent, k) \<Longrightarrow> 1 \<le> k \<Longrightarrow> WorkerName agent k = name"
  by (auto simp: SplitWorker_def WorkerName_def split: prod.splits if_splits option.splits dest!: Cut_True)

lemma Split_no_colon: "snd (SplitWorker name) = 1 \<Longrightarrow> CHR '':'' \<notin> set name"
proof
  assume s: "snd (SplitWorker name) = 1" and c: "CHR '':'' \<in> set name"
  obtain a b ok where cut: "Cut name (CHR '':'') = (a, b, ok)" by (metis prod.collapse)
  have "ok" using c cut by (induction name arbitrary: a) (auto split: if_splits prod.splits)
  with s cut show False by (auto simp: SplitWorker_def split: option.splits if_splits)
qed

section \<open>What a configuration that is accepted has\<close>

lemma first_refusal_None: "first_refusal es = None \<longleftrightarrow> (\<forall>e\<in>set es. e = None)"
  by (auto simp: first_refusal_def find_None_iff find_Some_iff split: option.splits) (metis nth_mem option.distinct(1))

lemma refuse_None [simp]: "refuse b m = None \<longleftrightarrow> \<not> b"
  by (simp add: refuse_def)

lemma checkTokenEnv_None: "checkTokenEnv who v = None \<longleftrightarrow> envName v"
  by (auto simp: checkTokenEnv_def envName_def)

text \<open>An agent that passed: its name, its slots, its host and its token, which nobody had before.\<close>

definition agent_ok :: "Config \<Rightarrow> string \<Rightarrow> AgentConf \<Rightarrow> bool" where
  "agent_ok c n a \<longleftrightarrow> CHR '':'' \<notin> set n \<and> namePattern n \<and> n \<noteq> oc_Name (cf_Orchestrator c) \<and> map_of (cf_Hosts c) (ac_Host a) \<noteq> None \<and>
     1 \<le> ac_Slots a \<and> ac_Slots a \<le> maxSlots \<and> envName (ac_TokenEnv a)"

lemma agent_checks_ok:
  "first_refusal (agent_checks c seen n a) = None \<Longrightarrow> agent_ok c n a \<and> ac_TokenEnv a \<notin> fst ` set seen"
  by (auto simp: first_refusal_None agent_checks_def agent_ok_def checkTokenEnv_None map_of_eq_None_iff dest: Split_no_colon)

lemma agents_error_ok:
  assumes "agents_error c seen ns = None" and "n \<in> set ns" and "map_of (cf_Agents c) n = Some a"
  shows "agent_ok c n a \<and> ac_TokenEnv a \<notin> fst ` set seen"
  using assms
proof (induction ns arbitrary: seen)
  case (Cons x ns)
  show ?case
  proof (cases "map_of (cf_Agents c) x")
    case None
    then show ?thesis using Cons.prems Cons.IH [of seen] by auto
  next
    case (Some y)
    then have r: "agents_error c ((ac_TokenEnv y, x) # seen) ns = None" and q: "first_refusal (agent_checks c seen x y) = None"
      using Cons.prems(1) by (auto split: option.splits)
    show ?thesis
    proof (cases "n = x")
      case True
      then show ?thesis using Cons.prems agent_checks_ok [OF q] Some by simp
    next
      case False
      then show ?thesis using Cons.prems Cons.IH [OF r] by auto
    qed
  qed
qed simp

lemma agents_error_tokens:
  assumes "agents_error c seen ns = None" and "n \<in> set ns" and "m \<in> set ns" and "n \<noteq> m"
    and "map_of (cf_Agents c) n = Some a" and "map_of (cf_Agents c) m = Some b"
  shows "ac_TokenEnv a \<noteq> ac_TokenEnv b"
  using assms
proof (induction ns arbitrary: seen)
  case (Cons x ns)
  show ?case
  proof (cases "map_of (cf_Agents c) x")
    case None
    then show ?thesis using Cons.prems Cons.IH [of seen] by auto
  next
    case (Some y)
    then have r: "agents_error c ((ac_TokenEnv y, x) # seen) ns = None" using Cons.prems(1) by (auto split: option.splits)
    consider "n = x" "m \<in> set ns" | "m = x" "n \<in> set ns" | "n \<in> set ns" "m \<in> set ns" using Cons.prems(2-4) by auto
    then show ?thesis
    proof cases
      case 1
      then show ?thesis using agents_error_ok [OF r 1(2) Cons.prems(6)] Some Cons.prems(5) by auto
    next
      case 2
      then show ?thesis using agents_error_ok [OF r 2(2) Cons.prems(5)] Some Cons.prems(6) by auto
    next
      case 3
      then show ?thesis using Cons.IH [OF r] Cons.prems by auto
    qed
  qed
qed simp

lemma Parse_config_agents:
  assumes "Parse_config w (Inr c0) tailnet = Inr c"
  shows "agents_error c (first_tokens c) (AgentNames c) = None" and "map fst (cf_Agents c) = map fst (cf_Agents c0)" and "cf_Agents c \<noteq> []"
    and "if oc_Native (cf_Orchestrator c) then True else envName (oc_TokenEnv (cf_Orchestrator c))"
proof -
  have c: "c = defaults w c0" and v: "validate_config w c = None"
    using assms by (auto simp: Parse_config_def Let_def split: if_splits option.splits)
  show "map fst (cf_Agents c) = map fst (cf_Agents c0)" by (simp add: c defaults_def Let_def split_def o_def)
  show "agents_error c (first_tokens c) (AgentNames c) = None" "cf_Agents c \<noteq> []"
    using v by (simp_all add: validate_config_def Let_def first_refusal_None)
  have "(if oc_Native (cf_Orchestrator c) then None else checkTokenEnv ''orchestrator'' (oc_TokenEnv (cf_Orchestrator c))) = None"
    using v by (simp add: validate_config_def Let_def first_refusal_None)
  then show "if oc_Native (cf_Orchestrator c) then True else envName (oc_TokenEnv (cf_Orchestrator c))"
    by (simp add: checkTokenEnv_None split: if_splits)
qed

section \<open>Workers\<close>

lemma max_slots: "agent_ok c n a \<Longrightarrow> k \<in> set [1..max (ac_Slots a) 1] \<Longrightarrow> 1 \<le> k \<and> k \<le> max_int64"
  by (auto simp: agent_ok_def maxSlots_def max_int64_def)

lemma Workers_iff: "x \<in> set (Workers c) \<longleftrightarrow>
    (\<exists>n a k. map_of (cf_Agents c) n = Some a \<and> k \<in> set [1..max (ac_Slots a) 1] \<and> x = slot_worker n a k)"
proof
  assume "x \<in> set (Workers c)"
  then show "\<exists>n a k. map_of (cf_Agents c) n = Some a \<and> k \<in> set [1..max (ac_Slots a) 1] \<and> x = slot_worker n a k"
    by (auto simp: Workers_def split: option.splits) metis
next
  assume "\<exists>n a k. map_of (cf_Agents c) n = Some a \<and> k \<in> set [1..max (ac_Slots a) 1] \<and> x = slot_worker n a k"
  then obtain n a k where h: "map_of (cf_Agents c) n = Some a" "k \<in> set [1..max (ac_Slots a) 1]" "x = slot_worker n a k" by blast
  have "n \<in> set (AgentNames c)" using map_of_SomeD [OF h(1)] by (force simp: AgentNames_def)
  then show "x \<in> set (Workers c)" unfolding Workers_def using h by (auto intro!: bexI [of _ n])
qed


text \<open>The names of agents that passed, and their slots, are those of the workers.\<close>

lemma all_agents_ok:
  assumes "Parse_config w (Inr c0) tailnet = Inr c" and "map_of (cf_Agents c) n = Some a"
  shows "agent_ok c n a" and "ac_TokenEnv a \<notin> fst ` set (first_tokens c)"
  using agents_error_ok [OF Parse_config_agents(1) [OF assms(1)] _ assms(2)] map_of_SomeD [OF assms(2)]
  by (force simp: AgentNames_def)+

lemma worker_resolves:
  assumes ok: "\<And>n a. map_of (cf_Agents c) n = Some a \<Longrightarrow> agent_ok c n a"
  shows "config_Worker c name = Some x \<longleftrightarrow> x \<in> set (Workers c) \<and> wk_Name x = name"
proof
  assume h: "config_Worker c name = Some x"
  then obtain n k a where s: "SplitWorker name = (n, k)" and a: "map_of (cf_Agents c) n = Some a"
    and k: "1 \<le> k" "k \<le> max (ac_Slots a) 1" and x: "x = slot_worker n a k"
    by (auto simp: config_Worker_def split: prod.splits option.splits if_splits)
  show "x \<in> set (Workers c) \<and> wk_Name x = name"
    using a k x WorkerName_split [OF s k(1)] by (auto simp: Workers_iff slot_worker_def)
next
  assume "x \<in> set (Workers c) \<and> wk_Name x = name"
  then obtain n a k where a: "map_of (cf_Agents c) n = Some a" and k: "k \<in> set [1..max (ac_Slots a) 1]"
    and x: "x = slot_worker n a k" and name: "name = WorkerName n k"
    by (auto simp: Workers_iff slot_worker_def)
  have "SplitWorker name = (n, k)"
    unfolding name using ok [OF a] max_slots [OF ok [OF a] k] by (intro SplitWorker_name) (auto simp: agent_ok_def)
  then show "config_Worker c name = Some x" using a k x by (auto simp: config_Worker_def)
qed

lemma worker_names_inj:
  assumes ok: "\<And>n a. map_of (cf_Agents c) n = Some a \<Longrightarrow> agent_ok c n a"
  shows "inj_on wk_Name (set (Workers c))"
  by (rule inj_onI) (metis worker_resolves [OF ok] option.inject)

lemma distinct_Workers:
  assumes d: "distinct (map fst (cf_Agents c))"
  shows "distinct (Workers c)"
proof -
  let ?f = "\<lambda>n. case map_of (cf_Agents c) n of None \<Rightarrow> [] | Some a \<Rightarrow> map (slot_worker n a) [1..max (ac_Slots a) 1]"
  have ag: "wk_Agent x = n" if "x \<in> set (?f n)" for x n using that by (auto simp: slot_worker_def split: option.splits)
  have each: "distinct (?f n)" for n
    by (auto simp: distinct_map inj_on_def slot_worker_def split: option.splits)
  have "distinct (concat (map ?f ns))" if "distinct ns" for ns
    using that
  proof (induction ns)
    case (Cons n ns)
    have "set (?f n) \<inter> set (concat (map ?f ns)) = {}"
    proof (rule ccontr)
      assume "set (?f n) \<inter> set (concat (map ?f ns)) \<noteq> {}"
      then obtain x m where "x \<in> set (?f n)" "m \<in> set ns" "x \<in> set (?f m)" by auto
      with ag [of x n] ag [of x m] Cons.prems show False by auto
    qed
    then show ?case using Cons each [of n] by (simp add: distinct_append)
  qed simp
  moreover have "distinct (AgentNames c)" using d by (simp add: AgentNames_def)
  ultimately show ?thesis by (simp add: Workers_def)
qed

lemma Siblings_are:
  assumes ok: "\<And>n a. map_of (cf_Agents c) n = Some a \<Longrightarrow> agent_ok c n a" and x: "x \<in> set (Workers c)"
  shows "set (Siblings c (wk_Name x)) = wk_Name ` {y \<in> set (Workers c). wk_Agent y = wk_Agent x \<and> y \<noteq> x}"
proof -
  obtain n a k where a: "map_of (cf_Agents c) n = Some a" and k: "k \<in> set [1..max (ac_Slots a) 1]" and e: "x = slot_worker n a k"
    using x by (auto simp: Workers_iff)
  have "config_Worker c (wk_Name x) = Some x" using worker_resolves [OF ok] x by blast
  then have "set (Siblings c (wk_Name x)) = WorkerName n ` {i \<in> set [1..max (ac_Slots a) 1]. i \<noteq> k}"
    using a by (simp add: Siblings_def e slot_worker_def)
  also have "\<dots> = wk_Name ` (slot_worker n a ` {i \<in> set [1..max (ac_Slots a) 1]. i \<noteq> k})"
    by (simp add: image_image slot_worker_def)
  also have "slot_worker n a ` {i \<in> set [1..max (ac_Slots a) 1]. i \<noteq> k} = {y \<in> set (Workers c). wk_Agent y = wk_Agent x \<and> y \<noteq> x}"
    using a by (auto simp: Workers_iff e) (auto simp: slot_worker_def)
  finally show ?thesis .
qed


section \<open>The guarantees\<close>

text \<open>
  C16. In a configuration that is accepted every worker has a name of its own, which is not the orchestrator's and finds that worker
  and no other; a name that is none of theirs finds nothing; and the siblings of a worker are the other slots of its agent.\<close>

theorem workers_have_their_names:
  assumes "Parse_config w (Inr c0) tailnet = Inr c" and "distinct (map fst (cf_Agents c0))"
  shows "distinct (WorkerNames c) \<and> oc_Name (cf_Orchestrator c) \<notin> set (WorkerNames c) \<and> Workers c \<noteq> [] \<and>
    (\<forall>name x. config_Worker c name = Some x \<longleftrightarrow> x \<in> set (Workers c) \<and> wk_Name x = name) \<and>
    (\<forall>x\<in>set (Workers c). set (Siblings c (wk_Name x)) = wk_Name ` {y \<in> set (Workers c). wk_Agent y = wk_Agent x \<and> y \<noteq> x})"
proof -
  have ok: "agent_ok c n a" if "map_of (cf_Agents c) n = Some a" for n a using all_agents_ok(1) [OF assms(1) that] .
  have d: "distinct (map fst (cf_Agents c))" using assms(2) Parse_config_agents(2) [OF assms(1)] by simp
  have "distinct (WorkerNames c)"
    unfolding WorkerNames_def using distinct_Workers [OF d] worker_names_inj [OF ok] by (simp add: distinct_map)
  moreover have "oc_Name (cf_Orchestrator c) \<notin> set (WorkerNames c)"
  proof
    assume "oc_Name (cf_Orchestrator c) \<in> set (WorkerNames c)"
    then obtain n a k where a: "map_of (cf_Agents c) n = Some a" and k: "k \<in> set [1..max (ac_Slots a) 1]"
      and o1: "oc_Name (cf_Orchestrator c) = WorkerName n k" by (auto simp: WorkerNames_def Workers_iff slot_worker_def)
    have "snd (SplitWorker (oc_Name (cf_Orchestrator c))) = 1"
      using assms(1) by (auto simp: Parse_config_def validate_config_def Let_def first_refusal_None split: if_splits option.splits)
    then show False using ok [OF a] o1 max_slots [OF ok [OF a] k] SplitWorker_name [of n k] by (auto simp: agent_ok_def WorkerName_def)
  qed
  moreover obtain n a where na: "map_of (cf_Agents c) n = Some a"
    using Parse_config_agents(3) [OF assms(1)] by (cases "cf_Agents c") (auto split: prod.splits, metis map_of_Cons_code(2))
  have "slot_worker n a 1 \<in> set (Workers c)" unfolding Workers_iff using na by (intro exI [of _ n] exI [of _ a] exI [of _ 1]) simp
  then have "Workers c \<noteq> []" by auto
  ultimately show ?thesis using worker_resolves [OF ok] Siblings_are [OF ok] by blast
qed

lemma worker_agent_ok:
  assumes "Parse_config w (Inr c0) tailnet = Inr c" and "x \<in> set (Workers c)"
  shows "CHR '':'' \<notin> set (wk_Agent x) \<and> wk_Agent x \<noteq> '''' \<and> (wk_Name x = wk_Agent x \<or> (\<exists>k. wk_Name x = wk_Agent x @ '':'' @ k))"
proof -
  obtain n a k where a: "map_of (cf_Agents c) n = Some a" and x: "x = slot_worker n a k" using assms(2) by (auto simp: Workers_iff)
  have "agent_ok c n a" by (rule all_agents_ok(1) [OF assms(1) a])
  then show ?thesis by (auto simp: agent_ok_def namePattern_def x slot_worker_def WorkerName_def)
qed

text \<open>
  C33. A header names a worker of an accepted configuration exactly when it was made of that worker's name and the key of the container
  the worker runs in, under the full token: what fleetctl sends is read back as the name it sends, and no other text passes for it.
  So it is for a worker's name in the configuration, unless its agent is called what looks like a slot of another (\<open>agent-01-s2\<close>), and
  for the name of a session of a container \<open>agent-<number>\<close>, which is \<open>agent-<number>-s<number>\<close>.
\<close>
theorem header_roundtrip:
  assumes "digests mac" and "Parse_config w (Inr c0) tailnet = Inr c" and "x \<in> set (Workers c)"
    and "name = wk_Name x \<and> \<not> (\<exists>ds n. number ds \<and> number n \<and> wk_Agent x = ''agent-'' @ ds @ ''-s'' @ n) \<or>
      (\<exists>ds n. number ds \<and> number n \<and> wk_Agent x = ''agent-'' @ ds \<and> name = wk_Agent x @ ''-s'' @ n)"
  shows "Verify mac full v = Some name \<longleftrightarrow> full \<noteq> '''' \<and> v = name @ '':'' @ Key mac full (wk_Agent x)"
proof -
  note ok = worker_agent_ok [OF assms(2,3)]
  have base: "Base name = wk_Agent x \<and> name \<noteq> ''''"
    using assms(4)
  proof
    assume h: "name = wk_Name x \<and> \<not> (\<exists>ds n. number ds \<and> number n \<and> wk_Agent x = ''agent-'' @ ds @ ''-s'' @ n)"
    then have "slot_base (wk_Agent x) = None" using slot_base_Some [of "wk_Agent x"] by (cases "slot_base (wk_Agent x)") auto
    then show ?thesis using h ok by (auto simp: Base_def Cut_no Cut_found)
  next
    assume "\<exists>ds n. number ds \<and> number n \<and> wk_Agent x = ''agent-'' @ ds \<and> name = wk_Agent x @ ''-s'' @ n"
    then obtain ds n where h: "number ds" "number n" "wk_Agent x = ''agent-'' @ ds" "name = ''agent-'' @ ds @ ''-s'' @ n" by auto
    have "CHR '':'' \<notin> set name" using h by (auto simp: number_def list_all_iff is_digit_def)
    then show ?thesis using slot_base_slot [OF h(1,2)] h(3,4) by (simp add: Base_def Cut_no)
  qed
  show ?thesis using base Verify_iff [OF assms(1), of full v name] by (auto simp: Value_def)
qed

text \<open>
  C17. A token is held once: no two agents name the same environment variable for theirs, none names the orchestrator's, and what
  they name is a variable and not a token pasted in its place.\<close>

theorem token_held_once:
  assumes "Parse_config w (Inr c0) tailnet = Inr c" and "map_of (cf_Agents c) n = Some a"
  shows "envName (ac_TokenEnv a) \<and> (\<not> oc_Native (cf_Orchestrator c) \<longrightarrow> ac_TokenEnv a \<noteq> oc_TokenEnv (cf_Orchestrator c)) \<and>
    (\<forall>m b. map_of (cf_Agents c) m = Some b \<longrightarrow> ac_TokenEnv b = ac_TokenEnv a \<longrightarrow> m = n)"
proof -
  have "m = n" if b: "map_of (cf_Agents c) m = Some b" "ac_TokenEnv b = ac_TokenEnv a" for m b
  proof (rule ccontr)
    assume "m \<noteq> n"
    then show False using agents_error_tokens [OF Parse_config_agents(1) [OF assms(1)], of m n b a] b assms(2)
      map_of_SomeD [OF b(1)] map_of_SomeD [OF assms(2)] by (force simp: AgentNames_def)
  qed
  then show ?thesis using all_agents_ok [OF assms] by (auto simp: agent_ok_def first_tokens_def)
qed

text \<open>
  The settings a configuration leaves out or gives as nonsense have working values once it is accepted: periods are positive,
  the quotas are percentages above zero, agents have one to eight slots and the cleanup leaves a day.\<close>

theorem accepted_settings_are_sane:
  assumes "Parse_config w (Inr c0) tailnet = Inr c"
  shows "(let th = cf_Thresholds c in list_all (\<lambda>d. 0 < d) [th_Tick th, th_RestartWindow th, th_StandbyIdle th, th_WaitingNudge th,
        th_WaitingArchive th, th_CoolingDefault th, th_QuestionEscalate th, th_HeldAlertAfter th, th_HostSettle th, th_EventsRaw th,
        th_QuotaRaw th, th_RelayText th, th_HostSamples th, th_RestartFailures th, th_StandbyMinTranscript th, th_CompactBytes th] \<and>
      0 < th_Low5h th \<and> th_Low5h th \<le> 100 \<and> 0 < th_Reserved7d th \<and> th_Reserved7d th \<le> 100) \<and>
    hour \<le> cu_Every (cf_Cleanup c) \<and> 24 * hour \<le> cu_Stale (cf_Cleanup c) \<and>
    (\<forall>n a. map_of (cf_Agents c) n = Some a \<longrightarrow> 1 \<le> ac_Slots a \<and> ac_Slots a \<le> 8) \<and>
    (\<forall>t. cf_Tailnet c = Some t \<longrightarrow> 1 \<le> tn_GuestOpen t)"
proof -
  have c: "c = defaults w c0" and v: "validate_config w c = None"
    using assms by (auto simp: Parse_config_def Let_def split: if_splits option.splits)
  let ?th = "cf_Thresholds c"
  have th: "?th = default_thresholds (cf_Thresholds c0)" by (simp add: c defaults_def Let_def)
  have pct: "\<not> th_Low5h ?th < 0" "\<not> 100 < th_Low5h ?th" "\<not> th_Reserved7d ?th < 0" "\<not> 100 < th_Reserved7d ?th"
    and cu: "\<not> cu_Every (cf_Cleanup c) < hour" "\<not> cu_Stale (cf_Cleanup c) < 24 * hour"
    using v by (simp_all add: validate_config_def Let_def first_refusal_None)
  have dur: "0 < or_dur p v" if "0 < v" for p v using that by (simp add: or_dur_def)
  have ls: "list_all (\<lambda>d. 0 < d) [th_Tick ?th, th_RestartWindow ?th, th_StandbyIdle ?th, th_WaitingNudge ?th,
        th_WaitingArchive ?th, th_CoolingDefault ?th, th_QuestionEscalate ?th, th_HeldAlertAfter ?th, th_HostSettle ?th, th_EventsRaw ?th,
        th_QuotaRaw ?th, th_RelayText ?th, th_HostSamples ?th, th_RestartFailures ?th, th_StandbyMinTranscript ?th, th_CompactBytes ?th]"
    unfolding th by (simp add: default_thresholds_def dur duration_defs)
  have nz: "th_Low5h ?th \<noteq> 0" "th_Reserved7d ?th \<noteq> 0" unfolding th by (simp_all add: default_thresholds_def)
  have sl: "1 \<le> ac_Slots a \<and> ac_Slots a \<le> 8" if "map_of (cf_Agents c) n = Some a" for n a
    using all_agents_ok(1) [OF assms that] by (simp add: agent_ok_def maxSlots_def)
  have tn: "1 \<le> tn_GuestOpen t" if "cf_Tailnet c = Some t" for t
    using that by (auto simp: c defaults_def Let_def default_tailnet_def)
  show ?thesis using ls pct nz cu sl tn by (simp add: Let_def)
qed


section \<open>A fleet\<close>

definition demo_agent :: "string \<Rightarrow> AgentConf" where
  "demo_agent token = \<lparr>ac_Host = ''pc'', ac_TokenEnv = token, ac_Models = [], ac_Model = '''', ac_Account = '''', ac_Container = '''',
     ac_CPUs = '''', ac_Memory = '''', ac_Slots = 0, ac_Sandbox = False\<rparr>"

definition no_thresholds :: AllThresholds where
  "no_thresholds = \<lparr>th_RestartFailures = 0, th_RestartWindow = 0, th_StandbyIdle = 0, th_StandbyMinTranscript = 0, th_WaitingNudge = 0,
     th_WaitingArchive = 0, th_CompactBytes = 0, th_Low5h = 0, th_Reserved7d = 0, th_CoolingDefault = 0, th_HostSettle = 0, th_Tick = 0,
     th_QuestionEscalate = 0, th_HeldAlertAfter = 0, th_EventsRaw = 0, th_QuotaRaw = 0, th_RelayText = 0, th_HostSamples = 0\<rparr>"

definition demo_config :: "string \<Rightarrow> string \<Rightarrow> Config" where
  "demo_config n m = \<lparr>cf_Home = ''/home/u'', cf_Code = '''', cf_Image = '''', cf_UID = 0, cf_GID = 0, cf_User = '''', cf_ClaudeVersion = '''',
     cf_EnvFile = '''', cf_StateDir = '''', cf_Listen = '''', cf_RelayListen = '''', cf_OTLPListen = '''', cf_TokenEnv = '''', cf_RelayTokenEnv = '''',
     cf_SockDir = '''', cf_Slots = 0, cf_Hosts = [(''pc'', \<lparr>hc_Exec = [''docker''], hc_FleetdURL = '''', hc_OTLPURL = '''', hc_KarmaxURL = ''''\<rparr>)],
     cf_Orchestrator = \<lparr>oc_Name = '''', oc_Host = ''pc'', oc_Container = '''', oc_TokenEnv = ''T0'', oc_Native = False, oc_Report = '''', oc_KarmaxAgent = ''''\<rparr>,
     cf_Agents = [(n, demo_agent ''T1''), (m, demo_agent ''T2'')],
     cf_Karmax = \<lparr>kx_WebhookURL = '''', kx_WebhookSecretEnv = '''', kx_Dashboard = '''', kx_DataDir = '''', kx_Notify = None, kx_Bin = '''', kx_APIURL = '''', kx_Tools = []\<rparr>,
     cf_Build = ('''', ''''), cf_GitHub = \<lparr>gh_TokenEnv = '''', gh_SSHAliases = [], gh_Owners = [], gh_PackagesTokenEnv = ''''\<rparr>, cf_Git = ('''', ''''),
     cf_Thresholds = no_thresholds, cf_MaxBytes = 0, cf_Console = None, cf_Tailnet = None, cf_HideFromAgents = [], cf_Memory = None, cf_Subnet = '''',
     cf_Cleanup = \<lparr>cu_Enabled = None, cu_Every = 0, cu_Stale = 0\<rparr>, cf_Desk = (None, ''''),
     cf_HostFiles = \<lparr>hf_Enabled = None, hf_LANListen = ''''\<rparr>, cf_AWS = None\<rparr>"

definition demo_os :: config_world where
  "demo_os = \<lparr>cw_home = ''/home/u'', cw_uid = 1000, cw_gid = 1000, cw_user = Some ''u'', cw_cidr = (\<lambda>_. True)\<rparr>"

definition demo_setup :: Config where
  "demo_setup = defaults demo_os (demo_config ''agent-01'' ''agent-02'')"

lemma demo_accepted: "Parse_config demo_os (Inr (demo_config ''agent-01'' ''agent-02'')) None = Inr demo_setup"
proof -
  have "validate_config demo_os demo_setup = None" by code_simp
  then show ?thesis unfolding Parse_config_def demo_setup_def by (simp only: sum.case option.case if_False Let_def)
qed

lemma demo_agents: "map_of (cf_Agents demo_setup) ''agent-01'' \<noteq> None" "distinct (map fst (cf_Agents (demo_config ''agent-01'' ''agent-02'')))"
  by code_simp+

theorem workers_have_their_names_witness:
  "WorkerNames demo_setup = [''agent-01'', ''agent-01:2'', ''agent-02'', ''agent-02:2''] \<and> distinct (WorkerNames demo_setup) \<and>
   config_Worker demo_setup ''agent-03'' = None"
proof -
  have n: "WorkerNames demo_setup = [''agent-01'', ''agent-01:2'', ''agent-02'', ''agent-02:2'']" by code_simp
  have t: "distinct (WorkerNames demo_setup) \<and> (\<forall>name x. config_Worker demo_setup name = Some x \<longleftrightarrow> x \<in> set (Workers demo_setup) \<and> wk_Name x = name)"
    using workers_have_their_names [OF demo_accepted demo_agents(2)] by blast
  have "''agent-03'' \<notin> wk_Name ` set (Workers demo_setup)" using n by (simp add: WorkerNames_def flip: set_map)
  then have "config_Worker demo_setup ''agent-03'' = None" using t by (metis image_eqI not_None_eq)
  then show ?thesis using n t by blast
qed

theorem token_held_once_witness:
  "\<exists>a. map_of (cf_Agents demo_setup) ''agent-01'' = Some a \<and> envName (ac_TokenEnv a) \<and> ac_TokenEnv a \<noteq> ''T0''"
proof -
  obtain a where a: "map_of (cf_Agents demo_setup) ''agent-01'' = Some a" using demo_agents(1) by blast
  have o1: "\<not> oc_Native (cf_Orchestrator demo_setup)" "oc_TokenEnv (cf_Orchestrator demo_setup) = ''T0''" by code_simp+
  have "envName (ac_TokenEnv a)" "ac_TokenEnv a \<noteq> oc_TokenEnv (cf_Orchestrator demo_setup)"
    using token_held_once [OF demo_accepted a] o1(1) by blast+
  then show ?thesis using a unfolding o1(2) by blast
qed

theorem accepted_settings_are_sane_witness:
  "0 < th_Tick (cf_Thresholds demo_setup) \<and> th_Low5h (cf_Thresholds demo_setup) \<le> 100"
  using accepted_settings_are_sane [OF demo_accepted] by (simp add: Let_def)

section \<open>Names that are accepted and should not be\<close>

theorem header_roundtrip_witness:
  "Verify demo_mac ''t'' (''agent-01:'' @ Key demo_mac ''t'' ''agent-01'') = Some ''agent-01'' \<and>
   Verify demo_mac ''t'' (''agent-01-s2:'' @ Key demo_mac ''t'' ''agent-01'') = Some ''agent-01-s2'' \<and>
   Verify demo_mac ''t'' (''agent-01:'' @ Key demo_mac ''t'' ''agent-02'') \<noteq> Some ''agent-01''"
proof -
  have d: "digests demo_mac" by (auto simp: digests_def demo_mac_def min_def)
  obtain x where x: "x \<in> set (Workers demo_setup)" "wk_Name x = ''agent-01'' \<and> wk_Agent x = ''agent-01''"
  proof -
    have "list_ex (\<lambda>x. wk_Name x = ''agent-01'' \<and> wk_Agent x = ''agent-01'') (Workers demo_setup)" by code_simp
    then show ?thesis using that by (auto simp: list_ex_iff)
  qed
  have s: "slot_base ''agent-01'' = None" "number ''01''" "number ''2''"
    "Key demo_mac ''t'' ''agent-02'' \<noteq> Key demo_mac ''t'' ''agent-01''" by code_simp+
  have n: "\<not> (\<exists>ds n. number ds \<and> number n \<and> wk_Agent x = ''agent-'' @ ds @ ''-s'' @ n)"
    using slot_base_slot s(1) x(2) by (metis option.distinct(1))
  have one: "Verify demo_mac ''t'' v = Some ''agent-01'' \<longleftrightarrow> ''t'' \<noteq> '''' \<and> v = ''agent-01'' @ '':'' @ Key demo_mac ''t'' ''agent-01''" for v
    using header_roundtrip [OF d demo_accepted x(1), of "''agent-01''" "''t''" v] n x(2) by simp
  have "\<exists>ds n. number ds \<and> number n \<and> wk_Agent x = ''agent-'' @ ds \<and> ''agent-01-s2'' = wk_Agent x @ ''-s'' @ n"
    using s(2,3) x(2) by (intro exI [of _ "''01''"] exI [of _ "''2''"]) simp
  then have two: "Verify demo_mac ''t'' v = Some ''agent-01-s2'' \<longleftrightarrow> ''t'' \<noteq> '''' \<and> v = ''agent-01-s2'' @ '':'' @ Key demo_mac ''t'' ''agent-01''" for v
    using header_roundtrip [OF d demo_accepted x(1), of "''agent-01-s2''" "''t''" v] x(2) by simp
  show ?thesis using one two s(4) by simp
qed

text \<open>An agent may be called what the ledger calls the person who runs the fleet, so what is written to it is never relayed.\<close>

theorem agent_named_operator_is_accepted:
  "validate_config demo_os (defaults demo_os (demo_config ''agent-01'' Operator)) = None \<and>
   Operator \<in> set (WorkerNames (defaults demo_os (demo_config ''agent-01'' Operator))) \<and> IsPerson Operator"
  by code_simp

text \<open>An agent may be called what looks like the slot of another, whose key is then good for its name, and its own is not.\<close>

theorem slot_like_name_is_accepted:
  "validate_config demo_os (defaults demo_os (demo_config ''agent-01'' ''agent-01-s2'')) = None \<and>
   Verify demo_mac ''t'' (Value ''agent-01-s2'' (Key demo_mac ''t'' ''agent-01'')) = Some ''agent-01-s2'' \<and>
   Verify demo_mac ''t'' (Value ''agent-01-s2'' (Key demo_mac ''t'' ''agent-01-s2'')) = None"
  by code_simp

end
