(* ===== verification/Run_Props.thy ===== *)
theory Run_Props
  imports Fleet_Run Config_Props Fleet_Books
begin

text \<open>
  What a run of the fleet keeps to: the agent it takes is free and the best of those that are, a container holds the tasks of one
  side, the same run is placed once, a person's limit holds, and a brief that did not arrive leaves no open task.
\<close>

section \<open>The order of candidates\<close>

lemma insert_by_key: "(\<And>a b. lt a b \<longleftrightarrow> key a < key b) \<Longrightarrow> insert_by lt x ys = insort_key key x ys" for key :: "'a \<Rightarrow> 'k::linorder"
  by (induction ys) auto

lemma sort_by_key:
  fixes key :: "'a \<Rightarrow> 'k::linorder"
  assumes "\<And>a b. lt a b \<longleftrightarrow> key a < key b"
  shows "sort_by lt xs = sort_key key xs"
  by (induction xs) (simp_all add: sort_by_def insert_by_key [of lt key, OF assms])

text \<open>What the comparison orders by: those who can, first on a container nobody works in, then where the repo was last, then by
  quota and idleness.\<close>

definition pick_key :: "scored \<Rightarrow> bool \<times> (bool \<times> bool \<times> rat \<times> rat \<times> int) \<times> string" where
  "pick_key s = (let x = sd_c s in (\<not> ca_Eligible x,
     if ca_Eligible x then (sd_busy s \<noteq> 0, \<not> sd_affinity s, ca_FiveHour x, ca_SevenDay x, - ca_IdleS x) else (False, False, 0, 0, 0), ca_Agent x))"

lemma pick_less_key: "pick_less a b \<longleftrightarrow> pick_key a < pick_key b"
  by (cases "ca_Eligible (sd_c a)"; cases "ca_Eligible (sd_c b)")
     (simp_all add: pick_less_def pick_key_def Let_def less_prod_def, auto)

lemmas pick_sorted = sort_by_key [OF pick_less_key]

section \<open>Who is picked\<close>

lemma status_row_simps [simp]: "rw_Agent (status_row now f x) = wk_Name x" "rw_SlotOf (status_row now f x) = wk_Agent x"
  by (simp_all add: status_row_def Let_def split_def)

abbreviation why_of :: "Config \<Rightarrow> fleet_world \<Rightarrow> RunRequest \<Rightarrow> gtime \<Rightarrow> fleet \<Rightarrow> Worker \<Rightarrow> string" where
  "why_of c w q now f x \<equiv> pick_why c w f (Status c now f) (rq_From q) (rq_Model q) (rq_Among q) (status_row now f x)"

text \<open>A candidate tells the truth of a worker: who it is, whether it can take the task, and why not.\<close>

definition candidate_of :: "Worker \<Rightarrow> string \<Rightarrow> Candidate \<Rightarrow> bool" where
  "candidate_of x why d \<longleftrightarrow> ca_Agent d = wk_Name x \<and> ca_Eligible d = (why = '''') \<and> (why \<noteq> '''' \<longrightarrow> ca_Why d = why)"

definition candidates_ok :: "Worker set \<Rightarrow> (Worker \<Rightarrow> string) \<Rightarrow> (string \<times> string) \<times> Candidate list \<Rightarrow> bool" where
  "candidates_ok X why p \<longleftrightarrow> (\<forall>x\<in>X. \<exists>d\<in>set (snd p). candidate_of x (why x) d) \<and>
     (fst (fst p) \<noteq> '''' \<longrightarrow> (\<exists>x\<in>X. wk_Name x = fst (fst p) \<and> why x = ''''))"

lemma pick_candidates:
  "candidates_ok (set (Workers c)) (why_of c w q now f) (pickAmong c w (rq_Repo q) (rq_From q) (rq_Model q) (rq_Among q) now f)"
proof -
  let ?S = "sort_by pick_less (map (score_row c w f (Status c now f) (rq_Repo q) (rq_From q) (rq_Model q) (rq_Among q)) (Status c now f))"
  let ?sc = "\<lambda>x. score_row c w f (Status c now f) (rq_Repo q) (rq_From q) (rq_Model q) (rq_Among q) (status_row now f x)"
  have S: "set ?S = ?sc ` set (Workers c)" by (simp add: pick_sorted Status_def image_image)
  have d: "candidate_of x (why_of c w q now f x) (sd_c (?sc x))" for x
    by (simp add: candidate_of_def score_row_def Let_def)
  show ?thesis
  proof (cases ?S)
    case Nil
    then show ?thesis using S by (simp add: candidates_ok_def pickAmong_def Let_def)
  next
    case (Cons best rest)
    have "best \<in> ?sc ` set (Workers c)" unfolding S [symmetric] Cons by simp
    then obtain y where y: "y \<in> set (Workers c)" "best = ?sc y" by blast
    let ?p = "pickAmong c w (rq_Repo q) (rq_From q) (rq_Model q) (rq_Among q) now f"
    show ?thesis
    proof (cases "ca_Eligible (sd_c best)")
      case False
      then have p: "?p = (('''', ''''), map sd_c (best # rest))" using Cons by (simp add: pickAmong_def Let_def)
      have "\<exists>e\<in>set (map sd_c (best # rest)). candidate_of x (why_of c w q now f x) e" if "x \<in> set (Workers c)" for x
      proof -
        have "?sc x \<in> set (best # rest)" using S that unfolding Cons by blast
        then show ?thesis using d [of x] by (intro bexI [of _ "sd_c (?sc x)"]) auto
      qed
      then show ?thesis unfolding p candidates_ok_def by simp
    next
      case True
      let ?rank = "\<lambda>s. if ca_Eligible (sd_c s) then (sd_c s)\<lparr>ca_Why := ''eligible, ranked below '' @ ca_Agent (sd_c best)\<rparr> else sd_c s"
      have p: "?p = ((ca_Agent (sd_c best), top_why (rq_Repo q) best),
          (sd_c best)\<lparr>ca_Why := top_why (rq_Repo q) best\<rparr> # map ?rank rest)" using Cons True by (simp add: pickAmong_def Let_def)
      have each: "\<exists>e\<in>set (snd ?p). candidate_of x (why_of c w q now f x) e" if x: "x \<in> set (Workers c)" for x
      proof (cases "?sc x = best")
        case same: True
        then show ?thesis using d [of x] True unfolding p by (auto simp: candidate_of_def)
      next
        case False
        then have "?sc x \<in> set rest" using S x unfolding Cons by auto
        moreover have "candidate_of x (why_of c w q now f x) (?rank (?sc x))" using d [of x] by (auto simp: candidate_of_def)
        ultimately show ?thesis unfolding p by auto
      qed
      have "why_of c w q now f y = ''''" "ca_Agent (sd_c best) = wk_Name y" using d [of y] y True by (auto simp: candidate_of_def)
      then show ?thesis using each y(1) unfolding candidates_ok_def p by auto
    qed
  qed
qed

lemma candidate_why: "candidate_of x why d \<Longrightarrow> ca_Eligible d \<Longrightarrow> candidate_of x why (d\<lparr>ca_Why := y\<rparr>)"
  by (simp add: candidate_of_def)

lemma pick_only:
  assumes "d \<in> set (snd (pickAmong c w (rq_Repo q) (rq_From q) (rq_Model q) (rq_Among q) now f))"
  shows "\<exists>x\<in>set (Workers c). candidate_of x (why_of c w q now f x) d"
proof -
  let ?S = "sort_by pick_less (map (score_row c w f (Status c now f) (rq_Repo q) (rq_From q) (rq_Model q) (rq_Among q)) (Status c now f))"
  have S: "\<exists>x\<in>set (Workers c). candidate_of x (why_of c w q now f x) (sd_c s)" if "s \<in> set ?S" for s
    using that by (auto simp: pick_sorted Status_def score_row_def Let_def candidate_of_def)
  obtain s where s: "s \<in> set ?S" and d: "d = sd_c s \<or> (ca_Eligible (sd_c s) \<and> (\<exists>y. d = (sd_c s)\<lparr>ca_Why := y\<rparr>))"
    using assms by (auto simp: pickAmong_def Let_def split: list.splits if_splits)
  show ?thesis using S [OF s] d candidate_why by blast
qed

text \<open>The pick of some agents keeps that, for their workers.\<close>

definition same_candidate :: "Candidate \<Rightarrow> Candidate \<Rightarrow> bool" where
  "same_candidate d e \<longleftrightarrow> ca_Agent e = ca_Agent d \<and> ca_Eligible e = ca_Eligible d \<and> (\<not> ca_Eligible d \<longrightarrow> e = d)"

lemma among_step_out:
  assumes "among_step among d acc = acc'"
  shows "set (snd acc) \<subseteq> set (snd acc')"
    and "Base (ca_Agent d) \<in> set among \<Longrightarrow> \<exists>e\<in>set (snd acc'). same_candidate d e"
    and "fst (fst acc') = fst (fst acc) \<or> (ca_Agent d = fst (fst acc') \<and> ca_Eligible d \<and> Base (ca_Agent d) \<in> set among)"
  using assms by (auto simp: among_step_def same_candidate_def split: if_splits prod.splits)

lemma among_fold_out: "set (snd acc) \<subseteq> set (snd (fold (among_step among) cs acc))"
  by (induction cs arbitrary: acc) (simp, metis (no_types) among_step_out(1) comp_apply fold_Cons subset_trans)

lemma among_fold_each: "d \<in> set cs \<Longrightarrow> Base (ca_Agent d) \<in> set among \<Longrightarrow> \<exists>e\<in>set (snd (fold (among_step among) cs acc)). same_candidate d e"
proof (induction cs arbitrary: acc)
  case (Cons x cs)
  show ?case
  proof (cases "d = x")
    case True
    then show ?thesis using among_step_out(2) [OF refl Cons.prems(2), of acc] among_fold_out [of "among_step among x acc" among cs] by auto
  next
    case False
    then show ?thesis using Cons by simp
  qed
qed simp

lemma among_fold_agent:
  "fst (fst (fold (among_step among) cs acc)) = fst (fst acc) \<or>
   (\<exists>d\<in>set cs. ca_Agent d = fst (fst (fold (among_step among) cs acc)) \<and> ca_Eligible d \<and> Base (ca_Agent d) \<in> set among)"
proof (induction cs arbitrary: acc)
  case (Cons x cs)
  show ?case using Cons [of "among_step among x acc"] among_step_out(3) [OF refl, of among x acc] by auto
qed simp

lemma among1_candidates:
  assumes ok: "candidates_ok X why p" and only: "\<And>d. d \<in> set (snd p) \<Longrightarrow> \<exists>x\<in>X. candidate_of x (why x) d"
  shows "candidates_ok {x \<in> X. Base (wk_Name x) \<in> set among} why (among1 (snd p) among)"
  unfolding candidates_ok_def
proof (intro conjI ballI impI)
  fix x assume x: "x \<in> {x \<in> X. Base (wk_Name x) \<in> set among}"
  then obtain d where d: "d \<in> set (snd p)" "candidate_of x (why x) d" using ok by (auto simp: candidates_ok_def)
  have "Base (ca_Agent d) \<in> set among" using x d(2) by (simp add: candidate_of_def)
  then obtain e where "e \<in> set (snd (among1 (snd p) among))" "same_candidate d e"
    using among_fold_each [OF d(1), of among "(('''', ''''), [])"] unfolding among1_def by blast
  then show "\<exists>d\<in>set (snd (among1 (snd p) among)). candidate_of x (why x) d"
    using d(2) by (auto simp: candidate_of_def same_candidate_def intro!: bexI [of _ e])
next
  assume "fst (fst (among1 (snd p) among)) \<noteq> ''''"
  then obtain d where d: "d \<in> set (snd p)" "ca_Agent d = fst (fst (among1 (snd p) among))" "ca_Eligible d" "Base (ca_Agent d) \<in> set among"
    using among_fold_agent [of among "snd p" "(('''', ''''), [])"] by (auto simp: among1_def)
  then show "\<exists>x\<in>{x \<in> X. Base (wk_Name x) \<in> set among}. wk_Name x = fst (fst (among1 (snd p) among)) \<and> why x = ''''"
    using only [OF d(1)] by (auto simp: candidate_of_def)
qed

section \<open>Whom a run takes\<close>

text \<open>A configuration in which names find their workers, as in every one that is accepted.\<close>

definition named_workers :: "Config \<Rightarrow> bool" where
  "named_workers c \<longleftrightarrow> (\<forall>name x. config_Worker c name = Some x \<longleftrightarrow> x \<in> set (Workers c) \<and> wk_Name x = name)"

lemma accepted_named: "Parse_config w (Inr c0) tailnet = Inr c \<Longrightarrow> named_workers c"
  unfolding named_workers_def using worker_resolves all_agents_ok(1) by blast

lemma worker_of: "named_workers c \<Longrightarrow> x \<in> set (Workers c) \<Longrightarrow> worker c (wk_Name x) = x"
proof -
  assume "named_workers c" "x \<in> set (Workers c)"
  then have "config_Worker c (wk_Name x) = Some x" unfolding named_workers_def by blast
  then show ?thesis by (simp add: worker_def)
qed

lemma ineligible_not_lent: "ineligible w f r \<noteq> notLent"
  by (auto simp: ineligible_def notLent_def split: Phase.splits sum.splits list.splits)

lemma pick_why_cases:
  assumes "pick_why c w f rows from model among r = '''' \<or> pick_why c w f rows from model among r = notLent"
  shows "ineligible w f r = ''''"
    and "pick_why c w f rows from model among r = notLent \<Longrightarrow> wk_Sandbox (worker c (rw_Agent r))"
    and "pick_why c w f rows from model among r = '''' \<Longrightarrow> from \<noteq> '''' \<Longrightarrow> otherSide from (held_by w f rows (rw_SlotOf r)) = ''''"
    and "pick_why c w f rows from model among r = '''' \<Longrightarrow> model \<noteq> '''' \<Longrightarrow> ModelAllowed (wk_Models (worker c (rw_Agent r))) model"
  using assms ineligible_not_lent [of w f r]
  by (auto simp: pick_why_def Let_def notLent_def otherSide_def split: if_splits option.splits)

lemma chosen_agent:
  assumes ch: "choose_agent c w q now f = Inr (agent, why)" and named: "rq_Agent q = '''' \<or> known (fleet_of c) (rq_Agent q)"
  shows "\<exists>x\<in>set (Workers c). wk_Name x = agent \<and>
    (why_of c w q now f x = '''' \<or> (why_of c w q now f x = notLent \<and> rq_Agent q = agent)) \<and>
    (rq_Among q \<noteq> [] \<longrightarrow> Base agent \<in> set (rq_Among q)) \<and> (rq_Agent q \<noteq> '''' \<longrightarrow> agent = rq_Agent q)"
proof -
  let ?p0 = "pickAmong c w (rq_Repo q) (rq_From q) (rq_Model q) (rq_Among q) now f"
  let ?X = "{x \<in> set (Workers c). rq_Among q \<noteq> [] \<longrightarrow> Base (wk_Name x) \<in> set (rq_Among q)}"
  define p where "p = (if rq_Among q \<noteq> [] then among1 (snd ?p0) (rq_Among q) else ?p0)"
  have ok: "candidates_ok ?X (why_of c w q now f) p"
    using pick_candidates [of c w f now q] among1_candidates [OF pick_candidates [of c w f now q] pick_only]
    by (cases "rq_Among q = []") (simp_all add: p_def)
  show ?thesis
  proof (cases "rq_Agent q = ''''")
    case True
    then have "fst p = (agent, why)" "agent \<noteq> ''''"
      using ch by (auto simp: choose_agent_def Let_def p_def split: if_splits)
    then show ?thesis using ok True by (auto simp: candidates_ok_def)
  next
    case False
    then obtain x where x: "x \<in> set (Workers c)" "wk_Name x = rq_Agent q" using named by (auto simp: known_def fleet_of_def WorkerNames_def)
    have a: "agent = rq_Agent q" and among: "rq_Among q \<noteq> [] \<longrightarrow> Base (rq_Agent q) \<in> set (rq_Among q)"
      and none: "List.find (\<lambda>d. ca_Agent d = rq_Agent q \<and> \<not> ca_Eligible d \<and> ca_Why d \<noteq> notLent) (snd p) = None"
      using ch False by (auto simp: choose_agent_def Let_def p_def split: if_splits option.splits)
    have "x \<in> ?X" using x among by simp
    then obtain d where d: "d \<in> set (snd p)" "candidate_of x (why_of c w q now f x) d" using ok unfolding candidates_ok_def by blast
    then have "why_of c w q now f x = '''' \<or> why_of c w q now f x = notLent"
      using none x(2) by (auto simp: find_None_iff candidate_of_def)
    then show ?thesis using x a among by auto
  qed
qed

text \<open>A worker that can take a task holds none.\<close>

definition free_worker :: "fleet \<Rightarrow> Worker \<Rightarrow> bool" where
  "free_worker f x \<longleftrightarrow> (let st = fd_states f (wk_Name x) in
     st_Phase st \<in> {Standby, Waiting} \<and> st_Task st = '''' \<and> \<not> st_Done st \<and> st_UnreachableSince st = zero_time \<and>
     (\<forall>t\<in>set (lg_tasks (fd_ledger f)). tk_Agent t = Some (wk_Name x) \<longrightarrow> tk_Closed t \<noteq> None))"

lemma no_tasks: "Tasks err True agent n g = Inr [] \<Longrightarrow> 0 \<le> n \<Longrightarrow> agent \<noteq> '''' \<Longrightarrow> t \<in> set (lg_tasks g) \<Longrightarrow> tk_Agent t = Some agent \<Longrightarrow> tk_Closed t \<noteq> None"
proof
  assume h: "Tasks err True agent n g = Inr []" "0 \<le> n" "agent \<noteq> ''''" "t \<in> set (lg_tasks g)" "tk_Agent t = Some agent" "tk_Closed t = None"
  let ?rows = "rev (sort_key by_assigned (filter (\<lambda>r. tk_Agent r \<noteq> None \<and> (agent = '''' \<or> tk_Agent r = Some agent) \<and> of_assigner '''' r \<and> (True \<longrightarrow> tk_Closed r = None)) (lg_tasks g)))"
  have t: "t \<in> set ?rows" using h by (simp add: of_assigner_def)
  have "?rows = []" using h(1) by (auto simp: Tasks_def TasksBy_def Let_def split: option.splits if_splits)
  then show False using t by (simp only: list.set empty_iff)
qed

lemma eligible_free:
  assumes "ineligible w f (status_row now f x) = ''''" and "wk_Name x \<noteq> ''''"
  shows "free_worker f x \<and> fw_read w = None"
proof -
  let ?st = "fd_states f (wk_Name x)"
  have p: "rw_State (status_row now f x) = fst (shown_phase ?st now)" "rw_Task (status_row now f x) = snd (shown_phase ?st now)"
    "rw_Unreachable (status_row now f x) = (st_UnreachableSince ?st \<noteq> zero_time)" "rw_Rotating (status_row now f x) = st_Done ?st"
    by (simp_all add: status_row_def Let_def split_def)
  have phase: "rw_State (status_row now f x) \<in> {Standby, Waiting}" and u: "\<not> rw_Unreachable (status_row now f x)"
    and d: "\<not> rw_Rotating (status_row now f x)" and t: "rw_Task (status_row now f x) = ''''"
    and ts: "Tasks (fw_read w) True (wk_Name x) 1 (fd_ledger f) = Inr []"
    using assms(1) by (auto simp: ineligible_def split: Phase.splits if_splits sum.splits list.splits)
  have "fw_read w = None" using ts by (cases "fw_read w") (simp_all add: Tasks_def TasksBy_def)
  moreover have "st_Task ?st = ''''" using t d by (simp add: p shown_phase_def Let_def)
  moreover have "st_Phase ?st \<in> {Standby, Waiting}"
    using phase d \<open>st_Task ?st = ''''\<close> by (auto simp: p shown_phase_def Let_def split: if_splits)
  ultimately show ?thesis using u d no_tasks [OF ts] assms(2) by (auto simp: free_worker_def Let_def p)
qed

section \<open>What placing writes\<close>

text \<open>What of a task's row the facts of a run leave as it is.\<close>

definition task_core :: "TaskRow \<Rightarrow> string \<times> string option \<times> int option \<times> string option \<times> string option" where
  "task_core t = (tk_ID t, tk_Agent t, tk_Closed t, tk_Outcome t, tk_Assigner t)"

lemma update_core: "(\<And>t. task_core (u t) = task_core t) \<Longrightarrow> map task_core (update_where p u ts) = map task_core ts"
  by (auto simp: update_where_def)

lemma row_of_core: "map task_core ts = map task_core us \<Longrightarrow> map_option task_core (row_of tk_ID i ts) = map_option task_core (row_of tk_ID i us)"
proof (induction ts arbitrary: us)
  case (Cons t ts)
  then obtain u vs where us: "us = u # vs" "task_core t = task_core u" "map task_core ts = map task_core vs" by (cases us) auto
  then have "tk_ID t = tk_ID u" by (simp add: task_core_def)
  then show ?case using us Cons.IH [OF us(3)] by (auto simp: row_of_def)
qed (simp add: row_of_def)

lemma set_task_core:
  "set_task u err i g = (None, g') \<Longrightarrow> (\<And>t. task_core (u t) = task_core t) \<Longrightarrow> err = None \<and> map task_core (lg_tasks g') = map task_core (lg_tasks g)"
  by (auto simp: set_task_def ran_def update_core split: option.splits)

lemma task_facts_core:
  assumes "task_facts c w q task agent g = (None, g')"
  shows "fw_write w = None \<and> map task_core (lg_tasks g') = map task_core (lg_tasks g)"
proof -
  obtain g1 g2 where a: "SetTaskAdminWork (fw_write w) task (rq_AdminWork q \<and> adminWork (fleet_of c) agent (rq_From q)) g = (None, g1)"
    and r: "SetTaskRepo (fw_write w) task (rq_Repo q) g1 = (None, g2)" and m: "SetTaskModel (fw_write w) task (rq_Model q) g2 = (None, g')"
    using assms by (auto simp: task_facts_def split: prod.splits option.splits)
  note s = set_task_core [OF a [unfolded SetTaskAdminWork_def]] set_task_core [OF r [unfolded SetTaskRepo_def]] set_task_core [OF m [unfolded SetTaskModel_def]]
  show ?thesis using s by (simp add: task_core_def)
qed

text \<open>The row of a task as it is opened.\<close>

definition opened_tasks :: "string \<Rightarrow> string \<Rightarrow> string \<Rightarrow> gtime \<Rightarrow> TaskRow list \<Rightarrow> TaskRow list" where
  "opened_tasks task agent from now ts = upsert tk_ID merge_open
     ((no_task task)\<lparr>tk_Agent := Some agent, tk_Assigned := Some (unix_of now), tk_Assigner := nullStr from\<rparr>) ts"

lemma assign_free:
  assumes a: "assign w agent task from now f = (None, f')" and free: "\<And>t. t \<in> set (lg_tasks (fd_ledger f)) \<Longrightarrow> tk_Agent t = Some agent \<Longrightarrow> tk_Closed t \<noteq> None"
  shows "lg_tasks (fd_ledger f') = opened_tasks task agent from now (lg_tasks (fd_ledger f)) \<and>
    fd_states f' = fd_states (set_state (assigned_state task now (fd_states f agent)) f) \<and> fw_write w = None"
proof -
  have "\<forall>r\<in>set (lg_tasks (fd_ledger f)). \<not> (tk_Agent r = Some agent \<and> tk_Closed r = None \<and> tk_ID r \<noteq> task)" using free by blast
  then have o1: "open_of agent task (fd_ledger f) = []" by (simp add: open_of_def filter_empty_conv)
  have "SupersedeOpen (fw_read w) (fw_each w) (fw_each w) agent task now (fd_ledger f) =
      (if fw_read w = None then (([], None), fd_ledger f) else (([], fw_read w), fd_ledger f))"
    by (cases "fw_read w") (simp_all add: SupersedeOpen_def o1)
  then show ?thesis
    using a by (auto simp: assign_def Let_def set_state_def with_ledger_def OpenTask_def ran_def opened_tasks_def split: if_splits option.splits)
qed

lemma opened_row:
  "row_of tk_ID task (opened_tasks task agent from now ts) = Some r \<Longrightarrow> tk_Agent r = Some agent \<and> tk_Closed r = None \<and> tk_Assigner r = nullStr from"
  "row_of tk_ID task (opened_tasks task agent from now ts) \<noteq> None"
proof -
  let ?x = "(no_task task)\<lparr>tk_Agent := Some agent, tk_Assigned := Some (unix_of now), tk_Assigner := nullStr from\<rparr>"
  have "row_of tk_ID task (opened_tasks task agent from now ts) = Some (case row_of tk_ID task ts of None \<Rightarrow> ?x | Some r \<Rightarrow> merge_open r ?x)"
    using tasks_open.row_upsert_same [of ?x ts] by (simp add: opened_tasks_def no_task_def)
  then show "row_of tk_ID task (opened_tasks task agent from now ts) = Some r \<Longrightarrow> tk_Agent r = Some agent \<and> tk_Closed r = None \<and> tk_Assigner r = nullStr from"
    "row_of tk_ID task (opened_tasks task agent from now ts) \<noteq> None"
    by (auto simp: merge_open_def no_task_def split: option.splits)
qed

text \<open>A run that was placed anew: whom it took, and the ledger and the state it left.\<close>

lemma placed_anew:
  assumes p: "place c rw q now f = (Inr r, f')" and new: "\<not> rr_placed r" and nw: "named_workers c"
    and named: "rq_Agent q = '''' \<or> known (fleet_of c) (rq_Agent q)" and nonempty: "'''' \<notin> set (WorkerNames c)"
  shows "\<exists>x\<in>set (Workers c). wk_Name x = rr_Agent r \<and> free_worker f x \<and> fw_read (rw_fleet rw) = None \<and> fw_write (rw_fleet rw) = None \<and>
    (why_of c (rw_fleet rw) q now f x = '''' \<or> (why_of c (rw_fleet rw) q now f x = notLent \<and> rq_Agent q = rr_Agent r)) \<and>
    (rq_Among q \<noteq> [] \<longrightarrow> Base (rr_Agent r) \<in> set (rq_Among q)) \<and> (rq_Agent q \<noteq> '''' \<longrightarrow> rr_Agent r = rq_Agent q) \<and>
    over_limit (rw_fleet rw) q f = None \<and> same_run (rw_fleet rw) q f = None \<and>
    map task_core (lg_tasks (fd_ledger f')) = map task_core (opened_tasks (rr_Task r) (rr_Agent r) (rq_From q) now (lg_tasks (fd_ledger f))) \<and>
    (st_Name (fd_states f (rr_Agent r)) = rr_Agent r \<longrightarrow> st_Task (fd_states f' (rr_Agent r)) = rr_Task r)"
proof -
  let ?w = "rw_fleet rw"
  obtain why f1 g where s: "same_run ?w q f = None" and l: "over_limit ?w q f = None" and ch: "choose_agent c ?w q now f = Inr (rr_Agent r, why)"
    and a: "assign ?w (rr_Agent r) (rr_Task r) (rq_From q) now f = (None, f1)"
    and t: "task_facts c ?w q (rr_Task r) (rr_Agent r) (fd_ledger f1) = (None, g)" and f': "f' = with_ledger g f1"
    using p new unfolding place_def Let_def
    by (auto split: option.splits sum.splits prod.splits) (auto simp: same_run_def split: if_splits sum.splits option.splits)
  obtain x where x: "x \<in> set (Workers c)" "wk_Name x = rr_Agent r"
    and y: "why_of c ?w q now f x = '''' \<or> (why_of c ?w q now f x = notLent \<and> rq_Agent q = rr_Agent r)"
    and z: "rq_Among q \<noteq> [] \<longrightarrow> Base (rr_Agent r) \<in> set (rq_Among q)" "rq_Agent q \<noteq> '''' \<longrightarrow> rr_Agent r = rq_Agent q"
    using chosen_agent [OF ch named] by blast
  have i: "ineligible ?w f (status_row now f x) = ''''" using pick_why_cases(1) y by blast
  have ne: "wk_Name x \<noteq> ''''" using nonempty x by (auto simp: WorkerNames_def image_iff)
  note free = eligible_free [OF i ne]
  have fr: "t \<in> set (lg_tasks (fd_ledger f)) \<Longrightarrow> tk_Agent t = Some (rr_Agent r) \<Longrightarrow> tk_Closed t \<noteq> None" for t
    using free by (simp add: free_worker_def Let_def x(2))
  note as = assign_free [OF a fr]
  have "map task_core (lg_tasks g) = map task_core (lg_tasks (fd_ledger f1))" using task_facts_core [OF t] by blast
  moreover have "fd_states f' = fd_states f1" by (simp add: f' with_ledger_def)
  then have e2: "st_Name (fd_states f (rr_Agent r)) = rr_Agent r \<longrightarrow> st_Task (fd_states f' (rr_Agent r)) = rr_Task r"
  proof -
    have "fd_states f1 = fd_states (set_state (assigned_state (rr_Task r) now (fd_states f (rr_Agent r))) f)" using as by blast
    with \<open>fd_states f' = fd_states f1\<close> show ?thesis by (auto simp: set_state_def assigned_state_def)
  qed
  ultimately have e: "map task_core (lg_tasks (fd_ledger f')) = map task_core (opened_tasks (rr_Task r) (rr_Agent r) (rq_From q) now (lg_tasks (fd_ledger f)))"
    using as by (simp add: f' with_ledger_def)
  show ?thesis by (intro bexI [OF _ x(1)] conjI x(2)) (rule e2 | use free as y z l s e in blast)+
qed

lemma accepted_nonempty: "Parse_config w (Inr c0) tailnet = Inr c \<Longrightarrow> '''' \<notin> set (WorkerNames c)"
proof
  assume p: "Parse_config w (Inr c0) tailnet = Inr c" and "'''' \<in> set (WorkerNames c)"
  then obtain n a k where "map_of (cf_Agents c) n = Some a" "WorkerName n k = ''''"
    by (auto simp: WorkerNames_def Workers_iff slot_worker_def) metis
  then show False using all_agents_ok(1) [OF p] by (auto simp: agent_ok_def namePattern_def WorkerName_def split: if_splits)
qed

lemma placed_row:
  assumes "map task_core ts = map task_core (opened_tasks task agent from now us)"
  shows "\<exists>t. row_of tk_ID task ts = Some t \<and> tk_Agent t = Some agent \<and> tk_Closed t = None \<and> tk_Assigner t = nullStr from"
proof -
  obtain u where u: "row_of tk_ID task (opened_tasks task agent from now us) = Some u" using opened_row(2) by blast
  have "map_option task_core (row_of tk_ID task ts) = Some (task_core u)" using row_of_core [OF assms] u by simp
  then obtain t where "row_of tk_ID task ts = Some t" "task_core t = task_core u" by auto
  then show ?thesis using opened_row(1) [OF u] by (simp add: task_core_def)
qed

lemma placed_open:
  "map task_core ts = map task_core (opened_tasks task agent from now us) \<Longrightarrow> \<exists>t\<in>set ts. tk_ID t = task \<and> tk_Agent t = Some agent \<and> tk_Closed t = None"
  using placed_row row_of_Some by metis

section \<open>The guarantees of a run\<close>

text \<open>
  C11. A run that is placed anew takes a worker that holds no task, open on the ledger or in its state, is not working, down, cooling,
  disabled or out of reach, and for a guest is one lent to them; afterwards the task is open on it. So two runs never get the same
  agent while the first one's task is open.\<close>

theorem run_takes_a_free_agent:
  assumes "Parse_config cw (Inr c0) tailnet = Inr c" and "run_check c q0 = Inr q" and "place c rw q now f = (Inr r, f')" and "\<not> rr_placed r"
  shows "\<exists>x. config_Worker c (rr_Agent r) = Some x \<and> free_worker f x \<and>
    (rq_Among q \<noteq> [] \<longrightarrow> Base (rr_Agent r) \<in> set (rq_Among q)) \<and> (rq_Agent q \<noteq> '''' \<longrightarrow> rr_Agent r = rq_Agent q) \<and>
    (\<exists>t\<in>set (lg_tasks (fd_ledger f')). tk_ID t = rr_Task r \<and> tk_Agent t = Some (rr_Agent r) \<and> tk_Closed t = None)"
proof -
  note nw = accepted_named [OF assms(1)]
  have kn: "rq_Agent q = '''' \<or> known (fleet_of c) (rq_Agent q)"
    using assms(2) by (auto simp: run_check_def Let_def split: if_splits sum.splits)
  note p = placed_anew [OF assms(3,4) nw kn accepted_nonempty [OF assms(1)]]
  then obtain x where x: "x \<in> set (Workers c)" "wk_Name x = rr_Agent r" and free: "free_worker f x"
    and z: "rq_Among q \<noteq> [] \<longrightarrow> Base (rr_Agent r) \<in> set (rq_Among q)" "rq_Agent q \<noteq> '''' \<longrightarrow> rr_Agent r = rq_Agent q"
    and e: "map task_core (lg_tasks (fd_ledger f')) = map task_core (opened_tasks (rr_Task r) (rr_Agent r) (rq_From q) now (lg_tasks (fd_ledger f)))"
    by blast
  have "config_Worker c (rr_Agent r) = Some x" using nw x unfolding named_workers_def by blast
  then show ?thesis using free z placed_open [OF e] by blast
qed

lemma otherSide_none: "otherSide from held = '''' \<Longrightarrow> a \<in> set held \<Longrightarrow> a = '''' \<or> OperatorAssigner a = OperatorAssigner from"
  by (auto simp: otherSide_def Let_def find_None_iff split: option.splits if_splits)

lemma open_task_held:
  assumes "fw_read w = None" and y: "y \<in> set (Workers c)" and t: "t \<in> set (lg_tasks (fd_ledger f))" "tk_Agent t = Some (wk_Name y)" "tk_Closed t = None"
  shows "coalesce '''' (tk_Assigner t) \<in> set (held_by w f (Status c now f) (wk_Agent y))"
proof -
  let ?r = "status_row now f y"
  obtain ts where ts: "Tasks (fw_read w) True (wk_Name y) 0 (fd_ledger f) = Inr ts" and m: "task_read t \<in> set ts"
    using assms by (auto simp: Tasks_def TasksBy_def of_assigner_def)
  have "ta_Assigner (task_read t) \<in> set (openAssigners w f ?r)" using ts m by (auto simp: openAssigners_def Let_def)
  then have a: "coalesce '''' (tk_Assigner t) \<in> set (openAssigners w f ?r)" by (simp add: task_read_def)
  have r: "?r \<in> set (filter (\<lambda>r. rw_SlotOf r = wk_Agent y) (Status c now f))" using y by (simp add: Status_def)
  show ?thesis unfolding held_by_def set_concat set_map using a r by blast
qed

text \<open>
  C12. The slots of an agent share its container, so while one of them holds a task an operator gave, a run for a member is not placed on
  another, nor the other way round. A sandbox that is named is not held to it.\<close>

theorem containers_are_not_shared:
  assumes "Parse_config cw (Inr c0) tailnet = Inr c" and "run_check c q0 = Inr q" and "place c rw q now f = (Inr r, f')" and "\<not> rr_placed r"
    and "rq_Agent q = '''' \<or> \<not> wk_Sandbox (worker c (rr_Agent r))"
    and "y \<in> set (Workers c)" and "wk_Agent y = wk_Agent (worker c (rr_Agent r))"
    and "t \<in> set (lg_tasks (fd_ledger f))" and "tk_Agent t = Some (wk_Name y)" and "tk_Closed t = None" and "tk_Assigner t = Some a" and "a \<noteq> ''''"
  shows "OperatorAssigner a = OperatorAssigner (rq_From q)"
proof -
  let ?w = "rw_fleet rw"
  note nw = accepted_named [OF assms(1)]
  have kn: "rq_Agent q = '''' \<or> known (fleet_of c) (rq_Agent q)" and fr: "rq_From q \<noteq> ''''"
    using assms(2) by (auto simp: run_check_def Let_def split: if_splits sum.splits)
  obtain x where x: "x \<in> set (Workers c)" "wk_Name x = rr_Agent r" and rd: "fw_read ?w = None"
    and why: "why_of c ?w q now f x = '''' \<or> (why_of c ?w q now f x = notLent \<and> rq_Agent q = rr_Agent r)"
    using placed_anew [OF assms(3,4) nw kn accepted_nonempty [OF assms(1)]] by blast
  have wx: "worker c (rr_Agent r) = x" using worker_of [OF nw x(1)] x(2) by simp
  have ne: "rr_Agent r \<noteq> ''''" using accepted_nonempty [OF assms(1)] x by (auto simp: WorkerNames_def image_iff)
  have "why_of c ?w q now f x = ''''"
  proof (rule ccontr)
    assume "why_of c ?w q now f x \<noteq> ''''"
    then have n: "why_of c ?w q now f x = notLent" "rq_Agent q = rr_Agent r" using why by blast+
    have "wk_Sandbox x" using pick_why_cases(2) [OF disjI2 [OF n(1)] n(1)] worker_of [OF nw x(1)] by simp
    then show False using assms(5) n(2) ne wx by simp
  qed
  then have "otherSide (rq_From q) (held_by ?w f (Status c now f) (wk_Agent x)) = ''''"
    using pick_why_cases(3) [OF disjI1, OF _ _ fr] by (metis status_row_simps(2))
  moreover have "a \<in> set (held_by ?w f (Status c now f) (wk_Agent x))"
    using open_task_held [OF rd assms(6,8,9,10), of now] assms(7,11) wx by (simp add: coalesce_def)
  ultimately show ?thesis using otherSide_none assms(12) by blast
qed


text \<open>The open tasks of a person, in all their sessions.\<close>

definition open_tasks_of :: "string \<Rightarrow> ledger \<Rightarrow> nat" where
  "open_tasks_of owner g = length (filter (\<lambda>t. tk_Agent t \<noteq> None \<and> of_assigner owner t \<and> tk_Closed t = None) (lg_tasks g))"

lemma filter_upsert: "length (filter P (upsert key mrg x rs)) \<le> length (filter P rs) + 1"
  by (induction rs) auto

lemma open_tasks_core:
  assumes "map task_core ts = map task_core us"
  shows "length (filter (\<lambda>t. tk_Agent t \<noteq> None \<and> of_assigner owner t \<and> tk_Closed t = None) ts) =
    length (filter (\<lambda>t. tk_Agent t \<noteq> None \<and> of_assigner owner t \<and> tk_Closed t = None) us)"
  using assms
proof (induction ts arbitrary: us)
  case (Cons t ts)
  then obtain u vs where us: "us = u # vs" "task_core t = task_core u" "map task_core ts = map task_core vs" by (cases us) auto
  have "tk_Agent t = tk_Agent u" "tk_Closed t = tk_Closed u" "of_assigner owner t = of_assigner owner u"
    using us(2) by (simp_all add: task_core_def of_assigner_def)
  then show ?case using us(1) Cons.IH [OF us(3)] by simp
qed simp

text \<open>
  C14. The limit of a person holds: a run that is placed for them leaves them, in all their sessions together, with no more open tasks
  than it.\<close>

theorem run_keeps_the_limit:
  assumes "Parse_config cw (Inr c0) tailnet = Inr c" and "run_check c q0 = Inr q" and "place c rw q now f = (Inr r, f')" and "\<not> rr_placed r"
    and "0 < rq_Limit q"
  shows "int (open_tasks_of (OwnerOf (rq_From q)) (fd_ledger f')) \<le> rq_Limit q"
proof -
  have kn: "rq_Agent q = '''' \<or> known (fleet_of c) (rq_Agent q)"
    using assms(2) by (auto simp: run_check_def Let_def split: if_splits sum.splits)
  note p = placed_anew [OF assms(3,4) accepted_named [OF assms(1)] kn accepted_nonempty [OF assms(1)]]
  then have l: "over_limit (rw_fleet rw) q f = None" and rd: "fw_read (rw_fleet rw) = None"
    and e: "map task_core (lg_tasks (fd_ledger f')) = map task_core (opened_tasks (rr_Task r) (rr_Agent r) (rq_From q) now (lg_tasks (fd_ledger f)))"
    by blast+
  have "int (open_tasks_of (OwnerOf (rq_From q)) (fd_ledger f)) < rq_Limit q"
    using l rd assms(5) by (auto simp: over_limit_def TasksBy_def open_tasks_of_def split: if_splits)
  moreover have "open_tasks_of (OwnerOf (rq_From q)) (fd_ledger f') \<le> open_tasks_of (OwnerOf (rq_From q)) (fd_ledger f) + 1"
    unfolding open_tasks_of_def open_tasks_core [OF e] opened_tasks_def by (rule filter_upsert)
  ultimately show ?thesis by linarith
qed

text \<open>
  C15. A brief that did not arrive leaves no open task behind: a run that fails to deliver closes its task as undelivered, and the same
  run may then be placed again.\<close>

theorem undelivered_run_is_closed:
  assumes "deliver_run c rw q r now f = (Inl e, f')" and "known (fleet_of c) (rr_Agent r)" and "rr_Agent r \<noteq> ''''" and "rr_Task r \<noteq> ''''"
    and "fw_write (rw_fleet rw) = None" and "fw_each (rw_fleet rw) = (\<lambda>_. None)" and "second \<le> now"
  shows "\<exists>t. row_of tk_ID (rr_Task r) (lg_tasks (fd_ledger f')) = Some t \<and> tk_Closed t = Some (unix_of now) \<and> tk_Outcome t = Some ''undelivered'' \<and>
    (rq_Task q' = rr_Task r \<longrightarrow> same_run w' q' f' = None)"
proof -
  let ?w = "rw_fleet rw"
  obtain f2 where f': "f' = snd (Close (fleet_of c) ?w (rr_Agent r) (rr_Task r) ''undelivered'' '''' '''' now f2)"
    using assms(1) by (auto simp: deliver_run_def Let_def split: prod.splits option.splits)
  let ?x = "(no_task (rr_Task r))\<lparr>tk_Closed := Some (unix_of now), tk_Outcome := Some ''undelivered'', tk_Branch := nullStr '''', tk_PR := nullStr ''''\<rparr>"
  have "lg_tasks (fd_ledger f') = upsert tk_ID merge_close ?x (lg_tasks (fd_ledger f2))"
    using assms(2-6) by (auto simp: f' Close_def owner_or_def close_row_def CloseTask_def Let_def with_ledger_def set_state_def)
  then have row: "row_of tk_ID (rr_Task r) (lg_tasks (fd_ledger f')) =
      Some (case row_of tk_ID (rr_Task r) (lg_tasks (fd_ledger f2)) of None \<Rightarrow> ?x | Some t \<Rightarrow> merge_close t ?x)"
    using tasks_close.row_upsert_same [of ?x "lg_tasks (fd_ledger f2)"] by (simp add: no_task_def)
  define t where "t = (case row_of tk_ID (rr_Task r) (lg_tasks (fd_ledger f2)) of None \<Rightarrow> ?x | Some t \<Rightarrow> merge_close t ?x)"
  have t: "tk_Closed t = Some (unix_of now)" "tk_Outcome t = Some ''undelivered''"
    by (auto simp: t_def merge_close_def split: option.splits)
  have "of_unix (unix_of now) \<noteq> 0"
  proof -
    have "1 \<le> now div second" using assms(7) by (simp add: second_def)
    then show ?thesis by (simp add: of_unix_def unix_of_def second_def)
  qed
  then have "same_run w' q' f' = None" if "rq_Task q' = rr_Task r"
    using row t that by (auto simp: same_run_def read_task_def task_read_def fromUnix_def coalesce_def simp flip: t_def split: option.splits)
  then show ?thesis using row t by (auto simp flip: t_def)
qed

lemma best_order:
  assumes "ca_Eligible (sd_c x)" "ca_Eligible (sd_c y)" "\<not> pick_less y x"
  shows "(sd_busy y = 0 \<longrightarrow> sd_busy x = 0) \<and> ((sd_busy x = 0) = (sd_busy y = 0) \<longrightarrow>
    (sd_affinity y \<longrightarrow> sd_affinity x) \<and> (sd_affinity x = sd_affinity y \<longrightarrow>
    ca_FiveHour (sd_c x) \<le> ca_FiveHour (sd_c y) \<and> (ca_FiveHour (sd_c x) = ca_FiveHour (sd_c y) \<longrightarrow>
    ca_SevenDay (sd_c x) \<le> ca_SevenDay (sd_c y) \<and> (ca_SevenDay (sd_c x) = ca_SevenDay (sd_c y) \<longrightarrow>
    ca_IdleS (sd_c y) \<le> ca_IdleS (sd_c x) \<and> (ca_IdleS (sd_c x) = ca_IdleS (sd_c y) \<longrightarrow> ca_Agent (sd_c x) \<le> ca_Agent (sd_c y))))))"
  using assms by (auto simp: pick_less_def Let_def not_less split: if_splits)

text \<open>
  C18. The pick takes the best of those that can, in the documented order. The worker picked can take the task, and against every other that
  can: its container is one nobody works in if the other's is; between two that agree in that, it was last in the repo if the other was;
  between two that agree in that too, its 5-hour window is used no more, then its 7-day window, then it has been idle as long, and then
  its name comes first.\<close>

theorem pick_takes_the_best:
  assumes "pickAmong c w repo from model among now f = ((a, why), cs)" and "a \<noteq> ''''"
  shows "let rows = Status c now f; able = (\<lambda>x. pick_why c w f rows from model among (status_row now f x) = '''');
      working = (\<lambda>x. busy_slots w f rows (wk_Agent x)); here = (\<lambda>x. repo \<noteq> '''' \<and> lastRepo c w f (wk_Agent x) = repo);
      five = (\<lambda>x. rw_FiveHour (status_row now f x)); seven = (\<lambda>x. rw_SevenDay (status_row now f x)); idle = (\<lambda>x. rw_IdleS (status_row now f x))
    in \<exists>x\<in>set (Workers c). wk_Name x = a \<and> able x \<and> (\<forall>y\<in>set (Workers c). able y \<longrightarrow>
        (working y = 0 \<longrightarrow> working x = 0) \<and> ((working x = 0) = (working y = 0) \<longrightarrow> (here y \<longrightarrow> here x) \<and> (here x = here y \<longrightarrow>
         five x \<le> five y \<and> (five x = five y \<longrightarrow> seven x \<le> seven y \<and> (seven x = seven y \<longrightarrow>
         idle y \<le> idle x \<and> (idle x = idle y \<longrightarrow> a \<le> wk_Name y))))))"
proof -
  let ?sc = "\<lambda>x. score_row c w f (Status c now f) repo from model among (status_row now f x)"
  let ?S = "sort_by pick_less (map (score_row c w f (Status c now f) repo from model among) (Status c now f))"
  have S: "set ?S = ?sc ` set (Workers c)" by (simp add: pick_sorted Status_def image_image)
  have sorted: "sorted (map pick_key ?S)" by (simp add: pick_sorted)
  obtain best rest where c1: "?S = best # rest" and e: "ca_Eligible (sd_c best)" "a = ca_Agent (sd_c best)"
    using assms by (auto simp: pickAmong_def Let_def split: list.splits if_splits)
  have "best \<in> ?sc ` set (Workers c)" unfolding S [symmetric] c1 by simp
  then obtain x where x: "x \<in> set (Workers c)" "best = ?sc x" by blast
  have "pick_key best \<le> pick_key s" if "s \<in> set ?S" for s using sorted that unfolding c1 by auto
  then have "\<not> pick_less (?sc y) (?sc x)" if "y \<in> set (Workers c)" for y using that S x(2) by (auto simp: pick_less_key not_less)
  from best_order [OF e(1) [unfolded x(2)] _ this] x e show ?thesis
    unfolding Let_def by (intro bexI [of _ x]) (simp_all add: score_row_def Let_def)
qed

text \<open>An id that a run is given is safe as the name of a directory, and short.\<close>

lemma slug_chars: "x \<in> set (slug_word s) \<Longrightarrow> is_lower x \<or> is_digit x"
  by (auto simp: slug_word_def slug_char_def lower_char_def is_lower_def is_upper_def Let_def split: if_splits)

lemma Join_chars: "x \<in> set (Join ws sep) \<Longrightarrow> (\<exists>u\<in>set ws. x \<in> set u) \<or> x \<in> set sep"
  by (induction ws sep rule: Join.induct) auto

lemma slug_of_chars: "x \<in> set (slug_of brief) \<Longrightarrow> is_lower x \<or> is_digit x \<or> x = CHR ''-''"
proof -
  let ?whole = "Join (take 4 (filter (\<lambda>x. x \<noteq> '''') (map slug_word (Fields brief)))) ''-''"
  have whole: "is_lower x \<or> is_digit x \<or> x = CHR ''-''" if "x \<in> set ?whole" for x
    using Join_chars [OF that] by (auto dest!: in_set_takeD slug_chars)
  assume "x \<in> set (slug_of brief)"
  then have "x \<in> set ?whole \<or> x \<in> set ''task''"
    by (auto simp: slug_of_def Let_def split: if_splits dest!: set_dropWhileD dest: in_set_takeD)
  then show ?thesis using whole by (auto simp: is_lower_def)
qed

lemma slug_of_length: "length (slug_of brief) \<le> 32"
  by (auto simp: slug_of_def Let_def intro: le_trans [OF length_dropWhile_le])

text \<open>
  An id fleetd makes for a task names a directory safely and is at most 46 bytes long, whatever the brief says.\<close>

theorem made_ids_are_safe:
  assumes "length (day now) = 8" and "list_all is_digit (day now)" and "length salt = 4" and "list_all (\<lambda>x. is_lower x \<or> is_digit x) salt"
  shows "inboxName (TaskID day salt brief now) \<and> length (TaskID day salt brief now) \<le> 46"
proof -
  have h: "day now \<noteq> []" "is_digit (hd (day now))" using assms(1,2) by (cases "day now"; simp)+
  have "list_all (\<lambda>x. is_lower x \<or> is_digit x \<or> x = CHR ''-'') (slug_of brief)" using slug_of_chars by (auto simp: list_all_iff)
  then have "list_all (\<lambda>x. is_alnum x \<or> x \<in> {CHR ''.'', CHR ''_'', CHR ''-''}) (TaskID day salt brief now)"
    using assms(2,4) by (auto simp: TaskID_def is_alnum_def list_all_iff)
  then show ?thesis using h assms(1,3) slug_of_length [of brief] by (simp add: TaskID_def inboxName_def is_alnum_def)
qed

section \<open>A fleet that runs tasks\<close>

definition demo_request :: RunRequest where
  "demo_request = \<lparr>rq_Brief = ''Fix the build'', rq_Repo = '''', rq_Agent = '''', rq_From = ''ram@x'', rq_Task = ''T1'', rq_Model = '''',
     rq_Queue = 0, rq_Limit = 2, rq_AdminWork = False, rq_Attach = False, rq_Among = []\<rparr>"

definition demo_run :: run_world where
  "demo_run = \<lparr>rw_fleet = hearing, rw_pane = (\<lambda>_ _ _. None), rw_day = (\<lambda>_. ''20260101''), rw_salt = ''0a1b''\<rparr>"

definition idle_fleet :: fleet where
  "idle_fleet = first_fleet (fresh_state '''')"

definition run_placed :: "(run_error + RunReply) \<times> fleet" where
  "run_placed = place demo_setup demo_run demo_request noon idle_fleet"

definition run_reply :: RunReply where
  "run_reply = (case fst run_placed of Inr r \<Rightarrow> r | Inl _ \<Rightarrow> \<lparr>rr_Task = '''', rr_Agent = '''', rr_Why = '''', rr_placed = True\<rparr>)"

lemma demo_checked: "run_check demo_setup demo_request = Inr demo_request"
  by code_simp

lemma demo_placed: "place demo_setup demo_run demo_request noon idle_fleet = (Inr run_reply, snd run_placed)" "\<not> rr_placed run_reply"
  "rr_Agent run_reply = ''agent-01''" "rr_Task run_reply = ''T1''"
proof -
  have f: "fst run_placed = Inr run_reply" by code_simp
  show "place demo_setup demo_run demo_request noon idle_fleet = (Inr run_reply, snd run_placed)"
    by (simp only: run_placed_def [symmetric] f [symmetric] prod.collapse)
  show "\<not> rr_placed run_reply" "rr_Agent run_reply = ''agent-01''" "rr_Task run_reply = ''T1''" by code_simp+
qed

theorem run_takes_a_free_agent_witness:
  "\<exists>x. config_Worker demo_setup ''agent-01'' = Some x \<and> free_worker idle_fleet x"
  using run_takes_a_free_agent [OF demo_accepted demo_checked demo_placed(1,2)] by (auto simp: demo_placed(3))


theorem run_keeps_the_limit_witness:
  "int (open_tasks_of ''ram@x'' (fd_ledger (snd run_placed))) \<le> 2 \<and> open_tasks_of ''ram@x'' (fd_ledger (snd run_placed)) = 1"
proof -
  have l: "0 < rq_Limit demo_request" "rq_Limit demo_request = 2" "OwnerOf (rq_From demo_request) = ''ram@x''" by code_simp+
  have n: "open_tasks_of ''ram@x'' (fd_ledger (snd run_placed)) = 1" by code_simp
  show ?thesis using run_keeps_the_limit [OF demo_accepted demo_checked demo_placed(1,2) l(1)] n l(2,3) by simp
qed

text \<open>The second task of that person may share the container; the operator's goes to the other agent.\<close>

definition second_request :: RunRequest where
  "second_request = demo_request\<lparr>rq_From := ''operator'', rq_Task := ''T2''\<rparr>"

definition second_placed :: "(run_error + RunReply) \<times> fleet" where
  "second_placed = place demo_setup demo_run second_request noon (snd run_placed)"

definition shared_request :: RunRequest where
  "shared_request = demo_request\<lparr>rq_Task := ''T2'', rq_Agent := ''agent-01:2''\<rparr>"

definition shared_placed :: "(run_error + RunReply) \<times> fleet" where
  "shared_placed = place demo_setup demo_run shared_request noon (snd run_placed)"

definition reply_of :: "run_error + RunReply \<Rightarrow> RunReply" where
  "reply_of x = (case x of Inr r \<Rightarrow> r | Inl _ \<Rightarrow> \<lparr>rr_Task = '''', rr_Agent = '''', rr_Why = '''', rr_placed = True\<rparr>)"

definition first_row :: TaskRow where
  "first_row = hd (lg_tasks (fd_ledger (snd run_placed)))"

theorem containers_are_not_shared_witness:
  "rr_Agent (reply_of (fst shared_placed)) = ''agent-01:2'' \<and> OperatorAssigner ''ram@x'' = OperatorAssigner (rq_From shared_request) \<and>
   rr_Agent (reply_of (fst second_placed)) = ''agent-02''"
proof -
  have f: "fst shared_placed = Inr (reply_of (fst shared_placed))" by code_simp
  have p: "place demo_setup demo_run shared_request noon (snd run_placed) = (Inr (reply_of (fst shared_placed)), snd shared_placed)"
    by (simp only: shared_placed_def [symmetric] f [symmetric] prod.collapse)
  have q: "run_check demo_setup shared_request = Inr shared_request" "\<not> rr_placed (reply_of (fst shared_placed))"
    "\<not> wk_Sandbox (worker demo_setup (rr_Agent (reply_of (fst shared_placed))))" by code_simp+
  have y: "worker demo_setup ''agent-01'' \<in> set (Workers demo_setup)"
    "wk_Agent (worker demo_setup ''agent-01'') = wk_Agent (worker demo_setup (rr_Agent (reply_of (fst shared_placed))))" by code_simp+
  have t: "first_row \<in> set (lg_tasks (fd_ledger (snd run_placed)))" "tk_Agent first_row = Some (wk_Name (worker demo_setup ''agent-01''))"
    "tk_Closed first_row = None" "tk_Assigner first_row = Some ''ram@x''" by code_simp+
  have "OperatorAssigner ''ram@x'' = OperatorAssigner (rq_From shared_request)"
    using containers_are_not_shared [OF demo_accepted q(1) p q(2) disjI2, OF q(3) y t] by simp
  moreover have "rr_Agent (reply_of (fst shared_placed)) = ''agent-01:2''" "rr_Agent (reply_of (fst second_placed)) = ''agent-02''" by code_simp+
  ultimately show ?thesis by blast
qed

definition deaf_run :: run_world where
  "deaf_run = demo_run\<lparr>rw_fleet := deaf\<rparr>"

definition not_delivered :: "(run_error + RunReply) \<times> fleet" where
  "not_delivered = deliver_run demo_setup deaf_run demo_request run_reply noon (snd run_placed)"

theorem undelivered_run_is_closed_witness:
  "\<exists>t. row_of tk_ID ''T1'' (lg_tasks (fd_ledger (snd not_delivered))) = Some t \<and> tk_Outcome t = Some ''undelivered'' \<and>
     same_run hearing demo_request (snd not_delivered) = None"
proof -
  obtain e where e: "fst not_delivered = Inl e"
  proof -
    have "(case fst not_delivered of Inl _ \<Rightarrow> True | Inr _ \<Rightarrow> False)" by code_simp
    then show thesis using that by (auto split: sum.splits)
  qed
  have d: "deliver_run demo_setup deaf_run demo_request run_reply noon (snd run_placed) = (Inl e, snd not_delivered)"
    by (simp only: not_delivered_def [symmetric] e [symmetric] prod.collapse)
  have h: "known (fleet_of demo_setup) (rr_Agent run_reply)" "rr_Agent run_reply \<noteq> ''''" "rr_Task run_reply \<noteq> ''''"
    "fw_write (rw_fleet deaf_run) = None" "second \<le> noon" "rq_Task demo_request = ''T1''" by code_simp+
  have w: "fw_each (rw_fleet deaf_run) = (\<lambda>_. None)" by (simp add: deaf_run_def deaf_def)
  show ?thesis using undelivered_run_is_closed [OF d h(1-4) w h(5), of demo_request hearing] demo_placed(4) h(6) by auto
qed

theorem pick_takes_the_best_witness:
  "\<exists>x\<in>set (Workers demo_setup). wk_Name x = ''agent-02''"
proof -
  let ?p = "pickAmong demo_setup hearing '''' '''' '''' [] noon (snd run_placed)"
  have a: "fst (fst ?p) = ''agent-02''" by code_simp
  have p: "?p = ((''agent-02'', snd (fst ?p)), snd ?p)" by (metis a prod.collapse)
  show ?thesis using pick_takes_the_best [OF p] by (auto simp: Let_def)
qed

theorem made_ids_are_safe_witness:
  "inboxName (TaskID (\<lambda>_. ''20260101'') ''0a1b'' ''Fix: the   Build/now and more'' noon) \<and>
   TaskID (\<lambda>_. ''20260101'') ''0a1b'' ''Fix: the   Build/now and more'' noon = ''20260101-fix-the-buildnow-and-0a1b''"
proof -
  have s: "length ''20260101'' = 8" "list_all is_digit ''20260101''" "length ''0a1b'' = 4" "list_all (\<lambda>x. is_lower x \<or> is_digit x) ''0a1b''" by code_simp+
  have "inboxName (TaskID (\<lambda>_. ''20260101'') ''0a1b'' ''Fix: the   Build/now and more'' noon)"
    using made_ids_are_safe [of "\<lambda>_. ''20260101''" noon "''0a1b''"] s by blast
  moreover have "TaskID (\<lambda>_. ''20260101'') ''0a1b'' ''Fix: the   Build/now and more'' noon = ''20260101-fix-the-buildnow-and-0a1b''" by code_simp
  ultimately show ?thesis by blast
qed

section \<open>A sandbox that is named\<close>

text \<open>Why a sandbox is not free says only that it is one, so a run that names it is held neither to the side of what its other slots hold
  nor to its list of models.\<close>

definition sandbox_config :: Config where
  "sandbox_config = (demo_config ''agent-01'' ''agent-02'')\<lparr>cf_Agents :=
     [(''box'', (demo_agent ''T1'')\<lparr>ac_Sandbox := True, ac_Slots := 2, ac_Models := [''sonnet'']\<rparr>)]\<rparr>"

definition sandbox_setup :: Config where
  "sandbox_setup = defaults demo_os sandbox_config"

definition lent_run :: "(run_error + RunReply) \<times> fleet" where
  "lent_run = place sandbox_setup demo_run (demo_request\<lparr>rq_Among := [''box'']\<rparr>) noon idle_fleet"

theorem named_sandbox_is_not_checked:
  "validate_config demo_os sandbox_setup = None \<and> rr_Agent (reply_of (fst lent_run)) = ''box'' \<and>
   \<not> ModelAllowed (wk_Models (worker sandbox_setup ''box:2'')) ''opus'' \<and> wk_Agent (worker sandbox_setup ''box:2'') = ''box'' \<and>
   OperatorAssigner (rq_From demo_request) \<noteq> OperatorAssigner Operator \<and>
   rr_Agent (reply_of (fst (place sandbox_setup demo_run (demo_request\<lparr>rq_From := Operator, rq_Task := ''T2'', rq_Agent := ''box:2'', rq_Model := ''opus''\<rparr>)
     noon (snd lent_run)))) = ''box:2''"
  by code_simp

section \<open>A model is asked for once, between turns\<close>

lemma wantedModel_st: "st_Task st' = st_Task st \<Longrightarrow> st_Done st' = st_Done st \<Longrightarrow>
    mr_Wanted (wantedModel c w name st' f) = mr_Wanted (wantedModel c w name st f)"
  by (simp add: wantedModel_def Let_def)

text \<open>
  fleetd types a model only into a session that is between turns, that runs another, and that was not asked for it before; and
  once the session took the words they are not typed again while it is the same session, in the same process, and the same model is wanted.\<close>

theorem model_is_asked_once:
  assumes "applyModel c w p name st status idle now f = (st', f')" and "fd_typed f' \<noteq> fd_typed f"
  shows "let want = mr_Wanted (wantedModel c w name st f) in
    idle \<and> status \<and> st_SessionID st \<noteq> '''' \<and> \<not> st_Done st \<and> want \<noteq> '''' \<and> \<not> modelIs want (st_ModelID st) (st_Model st) \<and>
    \<not> (st_ModelAsked st = want \<and> st_ModelAskedKey st = session_key st) \<and> fd_typed f' = fd_typed f @ [(name, ''/model '' @ want)] \<and>
    (p (fd_typed f) name (''/model '' @ want) = None \<longrightarrow>
      (\<forall>w2 status2 idle2 now2 f2. mr_Wanted (wantedModel c w2 name st' f2) = want \<longrightarrow>
        fd_typed (snd (applyModel c w2 p name st' status2 idle2 now2 f2)) = fd_typed f2))"
proof -
  have alerts: "fd_typed (snd (firstAlert m now f)) = fd_typed f" for m now f by (simp add: firstAlert_def)
  have alerts': "fd_typed (alert n m f) = fd_typed f" for n m f by (simp add: alert_def)
  let ?want = "mr_Wanted (wantedModel c w name st f)"
  have typed: "type_in p name m f = (p (fd_typed f) name m, f\<lparr>fd_typed := fd_typed f @ [(name, m)]\<rparr>)" for m by (simp add: type_in_def)
  have h: "st_SessionID st \<noteq> '''' \<and> \<not> st_Done st \<and> ?want \<noteq> '''' \<and> status \<and> \<not> modelIs ?want (st_ModelID st) (st_Model st) \<and>
      \<not> (st_ModelAsked st = ?want \<and> st_ModelAskedKey st = session_key st) \<and> idle"
    using assms alerts alerts' by (auto simp: applyModel_def Let_def split: if_splits prod.splits) (metis snd_conv)+
  have f': "fd_typed f' = fd_typed f @ [(name, ''/model '' @ ?want)]"
    using assms(1) h by (auto simp: applyModel_def Let_def typed split: option.splits)
  have later: "fd_typed (snd (applyModel c w2 p name st' status2 idle2 now2 f2)) = fd_typed f2"
    if n: "p (fd_typed f) name (''/model '' @ ?want) = None" and e: "mr_Wanted (wantedModel c w2 name st' f2) = ?want" for w2 status2 idle2 now2 f2
  proof -
    have "st' = st\<lparr>st_ModelAsked := ?want, st_ModelAskedKey := session_key st, st_ModelAskedAt := now\<rparr>"
      using assms(1) h n by (auto simp: applyModel_def Let_def typed)
    then have "st_ModelAsked st' = ?want" "st_ModelAskedKey st' = session_key st'" by (simp_all add: session_key_def)
    then show ?thesis using e alerts alerts' by (auto simp: applyModel_def Let_def split: prod.splits) (metis snd_conv)+
  qed
  show ?thesis unfolding Let_def using h f' later by blast
qed

definition model_state :: State where
  "model_state = (fresh_state ''agent-01'')\<lparr>st_SessionID := ''s1'', st_ModelID := ''claude-sonnet-4'', st_Model := ''Sonnet''\<rparr>"

definition opus_setup :: Config where
  "opus_setup = demo_setup\<lparr>cf_Agents := map (\<lambda>(n, a). (n, a\<lparr>ac_Model := ''opus''\<rparr>)) (cf_Agents demo_setup)\<rparr>"

definition model_asked :: "State \<times> fleet" where
  "model_asked = applyModel opus_setup hearing (\<lambda>_ _ _. None) ''agent-01'' model_state True True noon idle_fleet"

theorem model_is_asked_once_witness:
  "fd_typed (snd model_asked) = [(''agent-01'', ''/model opus'')] \<and>
   fd_typed (snd (applyModel opus_setup hearing (\<lambda>_ _ _. None) ''agent-01'' (fst model_asked) True True (noon + hour) (snd model_asked))) =
     fd_typed (snd model_asked)"
proof -
  have p: "applyModel opus_setup hearing (\<lambda>_ _ _. None) ''agent-01'' model_state True True noon idle_fleet = (fst model_asked, snd model_asked)"
    by (simp add: model_asked_def)
  have t: "fd_typed (snd model_asked) = [(''agent-01'', ''/model opus'')]" "fd_typed idle_fleet = []" by code_simp+
  then have n: "fd_typed (snd model_asked) \<noteq> fd_typed idle_fleet" by simp
  have w: "mr_Wanted (wantedModel opus_setup hearing ''agent-01'' (fst model_asked) (snd model_asked)) =
      mr_Wanted (wantedModel opus_setup hearing ''agent-01'' model_state idle_fleet)" by code_simp
  show ?thesis using model_is_asked_once [OF p n] w t(1) unfolding Let_def by blast
qed

end
