(* ===== verification/Fleet_Archive.thy ===== *)
theory Fleet_Archive
  imports Fleet_Run
begin

text \<open>
  \<^verbatim>\<open>fleet/internal/archive\<close>: every session the fleet ends is copied out of its container, verified by hash, and only then
  may anything stop it. A container answers each call by all that was asked of the containers before: whether it fails, and what
  transcript it has of a session at that moment, which the agent may go on writing. The disk holds what it makes of the
  bytes written to it. The digest is a parameter. The statistics a manifest keeps of a transcript are left out.
\<close>

section \<open>Transcripts, worktrees, manifests\<close>

record Transcript =
  tr_Project :: string
  tr_Main :: string
  tr_Sub :: "(string \<times> string) list"

record Worktree =
  wt_Path :: string
  wt_Branch :: string
  wt_Upstream :: string
  wt_Dirty :: int
  wt_Unpushed :: int
  wt_Status :: string
  wt_UsedBySlot :: int

definition Safe :: "Worktree \<Rightarrow> bool" where
  "Safe t \<longleftrightarrow> wt_Dirty t = 0 \<and> wt_Unpushed t = 0 \<and> wt_UsedBySlot t = 0"

record ArchiveInfo =
  in_Agent :: string
  in_Host :: string
  in_Account :: string
  in_SessionID :: string
  in_Name :: string
  in_Task :: string
  in_Reason :: string
  in_At :: gtime

record Manifest =
  mf_ID :: string
  mf_Info :: ArchiveInfo
  mf_Project :: string
  mf_SHA256 :: string
  mf_Bytes :: nat
  mf_Subagents :: "(string \<times> string) list"
  mf_Worktrees :: "Worktree list"

definition KeptWorktrees :: "Manifest \<Rightarrow> Worktree list" where
  "KeptWorktrees m = filter (\<lambda>t. \<not> Safe t) (mf_Worktrees m)"

text \<open>One archive: its manifest, and the transcripts as the disk holds them.\<close>

record archived =
  ar_Manifest :: Manifest
  ar_Main :: string
  ar_Sub :: "(string \<times> string) list"

section \<open>Containers and the disk\<close>

datatype box_call =
    CallPull string
  | CallHash string
  | CallWorktrees
  | CallStart
  | CallRestart string
  | CallFresh
  | CallPrompt message
  | CallStopPID int
  | CallDelete string
  | CallRemove Worktree
  | CallReap string
  | CallPush string Transcript
  | CallAckEvents
  | CallAckOutbox "string list"

type_synonym box_history = "(string \<times> box_call) list"

record box_world =
  bx_err :: "box_history \<Rightarrow> string \<Rightarrow> box_call \<Rightarrow> string option"
  bx_files :: "box_history \<Rightarrow> string \<Rightarrow> string \<Rightarrow> Transcript option"
  bx_worktrees :: "box_history \<Rightarrow> string \<Rightarrow> Worktree list"
  bx_digest :: "string \<Rightarrow> string"
  bx_date :: "gtime \<Rightarrow> string"
  bx_write :: "string \<Rightarrow> dberr"
  bx_kept :: "string \<Rightarrow> string \<Rightarrow> string"
  bx_read :: "string \<Rightarrow> dberr"
  bx_remove :: "string \<Rightarrow> dberr"

text \<open>The containers as they were asked, and the archives.\<close>

record keep =
  kp_calls :: box_history
  kp_archives :: "archived list"

datatype arch_error = NoTranscript | ArchFails string

definition call_box :: "box_world \<Rightarrow> string \<Rightarrow> box_call \<Rightarrow> keep \<Rightarrow> string option \<times> keep" where
  "call_box b name x k = (bx_err b (kp_calls k) name x, k\<lparr>kp_calls := kp_calls k @ [(name, x)]\<rparr>)"

definition PullTranscript :: "box_world \<Rightarrow> string \<Rightarrow> string \<Rightarrow> keep \<Rightarrow> (arch_error + Transcript) \<times> keep" where
  "PullTranscript b name sid k = (case call_box b name (CallPull sid) k of
     (Some m, k1) \<Rightarrow> (Inl (ArchFails m), k1)
   | (None, k1) \<Rightarrow> ((case bx_files b (kp_calls k) name sid of None \<Rightarrow> Inl NoTranscript | Some t \<Rightarrow> Inr t), k1))"

definition HashTranscript :: "box_world \<Rightarrow> string \<Rightarrow> string \<Rightarrow> keep \<Rightarrow> (arch_error + string) \<times> keep" where
  "HashTranscript b name sid k = (case call_box b name (CallHash sid) k of
     (Some m, k1) \<Rightarrow> (Inl (ArchFails m), k1)
   | (None, k1) \<Rightarrow> ((case bx_files b (kp_calls k) name sid of None \<Rightarrow> Inl NoTranscript | Some t \<Rightarrow> Inr (bx_digest b (tr_Main t))), k1))"

definition list_Worktrees :: "box_world \<Rightarrow> string \<Rightarrow> keep \<Rightarrow> (string + Worktree list) \<times> keep" where
  "list_Worktrees b name k = (case call_box b name CallWorktrees k of
     (Some m, k1) \<Rightarrow> (Inl m, k1) | (None, k1) \<Rightarrow> (Inr (bx_worktrees b (kp_calls k) name), k1))"

section \<open>Archiving\<close>

text \<open>The name of the directory: the first that is not taken of \<open>base\<close>, \<open>base-2\<close>, \<open>base-3\<close> and so on.\<close>

definition free_name :: "string list \<Rightarrow> string \<Rightarrow> string" where
  "free_name used base = (if base \<notin> set used then base
     else case List.find (\<lambda>n. base @ ''-'' @ show_nat n \<notin> set used) [2..<length used + 3] of
        None \<Rightarrow> base | Some n \<Rightarrow> base @ ''-'' @ show_nat n)"

definition archive_ids :: "keep \<Rightarrow> string list" where
  "archive_ids k = map (\<lambda>a. mf_ID (ar_Manifest a)) (kp_archives k)"

text \<open>\<^verbatim>\<open>fs.ValidPath\<close>.\<close>

definition ValidPath :: "string \<Rightarrow> bool" where
  "ValidPath p \<longleftrightarrow> p = ''.'' \<or> list_all (\<lambda>e. e \<notin> {'''', ''.'', ''..''}) (Split p (CHR ''/''))"

definition verify_archive :: "box_world \<Rightarrow> archived \<Rightarrow> string option" where
  "verify_archive b a =
     (if bx_digest b (ar_Main a) \<noteq> mf_SHA256 (ar_Manifest a) then Some ''archive verification failed: transcript on disk''
      else if list_ex (\<lambda>e. (case map_of (ar_Sub a) (fst e) of None \<Rightarrow> True | Some x \<Rightarrow> bx_digest b x \<noteq> snd e)) (mf_Subagents (ar_Manifest a))
      then Some ''archive verification failed: a subagent on disk'' else None)"

definition manifest_of :: "box_world \<Rightarrow> ArchiveInfo \<Rightarrow> string \<Rightarrow> Transcript \<Rightarrow> string \<Rightarrow> Worktree list \<Rightarrow> Manifest" where
  "manifest_of b info ident tr want wts = \<lparr>mf_ID = ident, mf_Info = info, mf_Project = tr_Project tr, mf_SHA256 = want, mf_Bytes = length (tr_Main tr),
     mf_Subagents = map (\<lambda>e. (fst e, bx_digest b (snd e))) (tr_Sub tr), mf_Worktrees = wts\<rparr>"

definition on_disk :: "box_world \<Rightarrow> Manifest \<Rightarrow> Transcript \<Rightarrow> archived" where
  "on_disk b m tr = \<lparr>ar_Manifest = m, ar_Main = bx_kept b (mf_ID m) (tr_Main tr),
     ar_Sub = map (\<lambda>e. (fst e, bx_kept b (mf_ID m @ ''/'' @ fst e) (snd e))) (tr_Sub tr)\<rparr>"

definition Archive :: "box_world \<Rightarrow> string \<Rightarrow> ArchiveInfo \<Rightarrow> keep \<Rightarrow> (arch_error + Manifest) \<times> keep" where
  "Archive b name info k =
     (case PullTranscript b name (in_SessionID info) k of (Inl e, k1) \<Rightarrow> (Inl e, k1)
      | (Inr tr, k1) \<Rightarrow> (case HashTranscript b name (in_SessionID info) k1 of (Inl e, k2) \<Rightarrow> (Inl e, k2)
      | (Inr want, k2) \<Rightarrow>
          if bx_digest b (tr_Main tr) \<noteq> want then (Inl (ArchFails ''archive verification failed''), k2)
          else (case list_Worktrees b name k2 of (Inl m, k3) \<Rightarrow> (Inl (ArchFails (''worktrees: '' @ m)), k3)
      | (Inr wts, k3) \<Rightarrow>
          (let base = in_Agent info @ ''/'' @ bx_date b (in_At info) @ ''-'' @ take 8 (in_SessionID info);
               ident = free_name (archive_ids k3) base; m = manifest_of b info ident tr want wts; a = on_disk b m tr
           in case bx_write b ident of Some e \<Rightarrow> (Inl (ArchFails e), k3)
            | None \<Rightarrow> if \<not> list_all (\<lambda>e. ValidPath (fst e)) (tr_Sub tr) then (Inl (ArchFails ''subagent transcript path''), k3)
                else (case verify_archive b a of Some e \<Rightarrow> (Inl (ArchFails e), k3)
                      | None \<Rightarrow> (Inr m, k3\<lparr>kp_archives := kp_archives k3 @ [a]\<rparr>))))))"

section \<open>Reading archives back\<close>

definition dirOf :: "string \<Rightarrow> string option" where
  "dirOf ident = (let x = Clean ident in if \<not> ValidPath x \<or> length (filter (\<lambda>e. e = CHR ''/'') x) \<noteq> 1 then None else Some x)"

definition Load_archive :: "box_world \<Rightarrow> string \<Rightarrow> keep \<Rightarrow> string + archived" where
  "Load_archive b ident k = (case dirOf ident of None \<Rightarrow> Inl ''archive id: want <agent>/<name>''
     | Some x \<Rightarrow> (case bx_read b x of Some m \<Rightarrow> Inl m
         | None \<Rightarrow> (case row_of (\<lambda>a. mf_ID (ar_Manifest a)) x (kp_archives k) of None \<Rightarrow> Inl ''no such archive'' | Some a \<Rightarrow> Inr a)))"

definition ReadTranscript :: "box_world \<Rightarrow> string \<Rightarrow> keep \<Rightarrow> string + Transcript" where
  "ReadTranscript b ident k = (case Load_archive b ident k of Inl m \<Rightarrow> Inl m
     | Inr a \<Rightarrow> (case verify_archive b a of Some m \<Rightarrow> Inl m
         | None \<Rightarrow> Inr \<lparr>tr_Project = mf_Project (ar_Manifest a), tr_Main = ar_Main a,
             tr_Sub = map (\<lambda>e. (fst e, case map_of (ar_Sub a) (fst e) of None \<Rightarrow> '''' | Some x \<Rightarrow> x)) (mf_Subagents (ar_Manifest a))\<rparr>))"

text \<open>An archive makes way for a later one that has all of it.\<close>

definition covers :: "Transcript \<Rightarrow> Transcript \<Rightarrow> bool" where
  "covers new old \<longleftrightarrow> HasPrefix (tr_Main new) (tr_Main old) \<and>
     list_all (\<lambda>e. HasPrefix (case map_of (tr_Sub new) (fst e) of None \<Rightarrow> '''' | Some x \<Rightarrow> x) (snd e)) (tr_Sub old)"

definition remove_archive :: "string \<Rightarrow> keep \<Rightarrow> keep" where
  "remove_archive ident k = k\<lparr>kp_archives := delete_where (\<lambda>a. mf_ID (ar_Manifest a) = ident) (kp_archives k)\<rparr>"

definition Supersede :: "box_world \<Rightarrow> string \<Rightarrow> string \<Rightarrow> keep \<Rightarrow> (string + bool) \<times> keep" where
  "Supersede b old by_id k =
     (case ReadTranscript b old k of Inl m \<Rightarrow> (Inl m, k)
      | Inr x \<Rightarrow> (case ReadTranscript b by_id k of Inl m \<Rightarrow> (Inl m, k)
      | Inr y \<Rightarrow> if \<not> covers y x then (Inr False, k)
          else (case dirOf old of None \<Rightarrow> (Inl ''archive id'', k)
                | Some dir \<Rightarrow> (case bx_remove b dir of Some m \<Rightarrow> (Inl m, k) | None \<Rightarrow> (Inr True, remove_archive dir k)))))"

definition Restore_archive :: "box_world \<Rightarrow> string \<Rightarrow> string \<Rightarrow> keep \<Rightarrow> (string + Manifest) \<times> keep" where
  "Restore_archive b name ident k =
     (case Load_archive b ident k of Inl m \<Rightarrow> (Inl m, k)
      | Inr a \<Rightarrow> (case ReadTranscript b ident k of Inl m \<Rightarrow> (Inl m, k)
      | Inr tr \<Rightarrow> (let mf = ar_Manifest a in case call_box b name (CallPush (in_SessionID (mf_Info mf)) tr) k of
           (Some m, k1) \<Rightarrow> (Inl m, k1) | (None, k1) \<Rightarrow> (Inr mf, k1))))"

text \<open>Archives since a time, newest first, and those before one removed. A manifest that cannot be read is passed over.\<close>

definition List_archives :: "box_world \<Rightarrow> gtime \<Rightarrow> keep \<Rightarrow> Manifest list" where
  "List_archives b since k = rev (sort_key (\<lambda>m. in_At (mf_Info m)) (filter (\<lambda>m. bx_read b (mf_ID m) = None \<and> \<not> in_At (mf_Info m) < since)
     (map ar_Manifest (kp_archives k))))"

fun prune_each :: "box_world \<Rightarrow> gtime \<Rightarrow> Manifest list \<Rightarrow> nat \<Rightarrow> keep \<Rightarrow> (nat \<times> string option) \<times> keep" where
  "prune_each b before [] n k = ((n, None), k)"
| "prune_each b before (m # ms) n k =
     (if \<not> in_At (mf_Info m) < before then prune_each b before ms n k
      else case dirOf (mf_ID m) of None \<Rightarrow> prune_each b before ms n k
        | Some dir \<Rightarrow> (case bx_remove b dir of Some e \<Rightarrow> ((n, Some e), k) | None \<Rightarrow> prune_each b before ms (Suc n) (remove_archive dir k)))"

definition Prune_archives :: "box_world \<Rightarrow> gtime \<Rightarrow> keep \<Rightarrow> (nat \<times> string option) \<times> keep" where
  "Prune_archives b before k = prune_each b before (List_archives b 0 k) 0 k"

end
