(* ===== verification/Spec2Isabelle.thy ===== *)
theory Spec2Isabelle
  imports Prelude Capability_Store Broker Observe Reconcile Reconcile_Props Reconcile_Safety
    Event_Log_Store Bus Bus_Delivery Timer_Store Clock Job_Store Scheduler
    Loop_Step_Store Waiter_Store Loop_Run_Store Loop_Lease Loop_Trigger_Store Loop_Run Loop_Run_Props
    Loop_Run_Live Loop_System Recipe Recipe_Props Recipe_Run Recipe_Run_Props Recipe_Suspend
    Fleet_Ledger Fleet_Relays Fleet_Delivery Fleet_Tasks Fleet_Moves Fleet_Keeps Fleet_System Fleet_Props
    Fleet_Resend Fleet_Books Fleet_Notices
    Tool_Policy Fleet_Approvals Fleet_Gateway Gateway_Props Gateway_Runs
    Fleet_Identity Fleet_Access Access_Props Fleet_Vault Fleet_Secrets Secrets_Props
    Fleet_Config Config_Props Fleet_Model Fleet_Run Run_Props Fleet_Archive
begin

text \<open>
  KARMAX is a daemon that runs an operator's agents and loops, and a fleet of them over several hosts.
  This development models the parts of it that must not lose, repeat or overstep: what a subject may do,
  what happens to an event, a timer or a job, how a loop's run survives failures and restarts, how a recipe
  is read and run, and what the fleet's reconciler does to an agent each tick.

  \<^bold>\<open>Conventions.\<close> A table of the store is the list of its rows in insertion order, an upsert is
  \<open>upsert\<close> of the prelude and a lookup by key \<open>row_of\<close>. The driver's answer to each
  statement is an argument (\<open>dberr\<close>, \<open>None\<close> when it succeeds), so every error path of
  the store is a branch. The clock, fresh ids, encoders and parsers of the standard library and of
  third-party packages are arguments or fields of an environment record. Times and durations are
  nanoseconds; durations and counters that can wrap are wrapped with \<open>wrap64\<close>. Errors are
  \<open>Inl\<close>, and error texts are lists of fragments (\<open>message\<close>). Logging is left out.

  \<^bold>\<open>Permissions.\<close> \<open>Capability_Store\<close> (internal/store/capability\_store.go) holds grants and
  the daily meter, \<open>Broker\<close> (internal/broker/broker.go) decides. Shown: a call is allowed only by a
  grant that matches it and was live now or less than five seconds ago, every failure to read refuses, what is spent stays within the limit.

  \<^bold>\<open>Events.\<close> \<open>Event_Log_Store\<close> (event\_log\_store.go), \<open>Bus\<close> (internal/bus) and
  \<open>Bus_Delivery\<close>: the log, the offsets, consumption with retries and dead letters, pruning. The
  log is used through the locale \<open>durable_journal\<close>. Shown: no event is lost to a subscriber,
  offsets never go back, a pass reads all.

  \<^bold>\<open>Time.\<close> \<open>Timer_Store\<close> and \<open>Clock\<close> (internal/clock), \<open>Job_Store\<close> and
  \<open>Scheduler\<close> (internal/scheduler). Shown: a timer that is marked fired was published, a due timer
  fires, one job per name.

  \<^bold>\<open>Loops.\<close> \<open>Loop_Step_Store\<close> (checkpoints and executions), \<open>Waiter_Store\<close> (waits),
  \<open>Loop_Run_Store\<close> (runs, leases, standing), \<open>Loop_Trigger_Store\<close> (owned events, and the
  queue of internal/runtime/loopqueue.go) are the tables; \<open>Loop_Run\<close> is a run from its lease to its
  outcome, retries, replays and resumption (internal/runtime looprun.go, looptrigger.go, loopqueue.go,
  looplease.go, waiters.go). \<open>Loop_Lease\<close> and \<open>Loop_System\<close> put the operations into step
  relations, any step in any order with any answer of the driver. Shown: at most one run of a loop holds its lease, and
  one whose request for it fails runs without; a run that fails for its own reasons is retried until the third attempt, which
  schedules none, while one deferred for an unavailable harness is due again without that bound; a crash replays what was not
  finished, a wait is settled once, a retry resumes its checkpoints, an event whose run failed comes back unless it is too old or used up;
  and where the code does not keep what it promises (\<open>Loop_Run_Props\<close>, \<open>Loop_Run_Live\<close>).

  \<^bold>\<open>Recipes.\<close> \<open>Recipe\<close> (internal/recipes/recipe.go) decodes and validates,
  \<open>Recipe_Run\<close> (run.go, and the kit's Step, Once, Sleep and Await) runs one against a world that
  answers each call by all that was done before. Runs terminate by construction. The locale
  \<open>run_parts\<close> reduces a relation on whole runs to single steps. Shown: a parsed recipe is well
  formed and its schedule is accepted by the scheduler, no effect happens twice over any number of
  attempts, checkpoints are distinct, what an await does; and that a long sleep does not park.

  \<^bold>\<open>Fleet.\<close> \<open>Observe\<close> (fleet/internal/observe) and \<open>Reconcile\<close>
  (fleet/internal/reconcile): Decide as its stages in the order of the code. \<open>Reconcile_Props\<close> and
  \<open>Reconcile_Safety\<close> show that a task is never dropped or given twice, a busy session is left
  alone, what grounds each restart has, and what an outage, a disabled agent or a stray session does.

  \<^bold>\<open>Fleet messages and tasks.\<close> \<open>Fleet_Ledger\<close> (fleet/internal/ledger: tasks, secrets, grants)
  and \<open>Fleet_Relays\<close> (messages, questions, cursors, events, retention) are the ledger;
  \<open>Fleet_Delivery\<close> (fleet/internal/daemon/daemon.go: sends, holds, resends, the outbox) and
  \<open>Fleet_Tasks\<close> (assigning, closing, followup.go, ask.go, waiting) the operations on it, each given a world
  that answers for the receivers and for every statement. \<open>Fleet_Moves\<close> says how a message may move and
  \<open>Fleet_Keeps\<close> that every operation moves it so; \<open>Fleet_System\<close> is the step relation, with sends under
  way between steps and fleetd stopping at any of them. Shown (\<open>Fleet_Props\<close>, \<open>Fleet_Resend\<close>,
  \<open>Fleet_Books\<close>): a message that is pending or that a held send has under way stays on the ledger, and while it waits a
  resend reads it, until its task is closed or a later message of the task has got through; none is marked delivered that nobody
  took, a sender is told the truth, a receiver that is back gets all in order, a task has one row and an agent one open task, a
  waiting session is handed each message once, the retention conserves counts; and what is lost when a task
  closes or a later message overtakes (\<open>Fleet_Notices\<close>). The step relation has the runs of \<open>Fleet_Run\<close> and the
  end of a task at a rotation; the rest of a tick, Restore, the archives, secrets, approvals and devices are in it as any change that leaves
  tasks and messages alone.

  \<^bold>\<open>What agents and devices may do in a fleet.\<close> \<open>Tool_Policy\<close> (fleet/internal/config/karmax.go)
  classes the tools of KARMAX; \<open>Fleet_Approvals\<close> (ledger/approvals.go) and \<open>Fleet_Gateway\<close>
  (daemon/gateway.go) are the requests to write, the decisions and the waits. \<open>Gateway_Props\<close> runs them
  interleaved and \<open>Gateway_Runs\<close> shows that a tool is called only when it reads or for an approved request,
  once, that every call is told, that a wait ends and an approved write runs. \<open>Fleet_Identity\<close>
  (fleet/internal/identity) reads which agent a header is from; \<open>Fleet_Access\<close> (fleet/internal/access,
  ledger/access.go) says who may use the fleet from the tailnet, with its invariant in \<open>Access_Props\<close>.
  \<open>Fleet_Vault\<close> (fleet/internal/vault) and \<open>Fleet_Secrets\<close> (daemon/secrets.go) keep the secrets of the
  operator; \<open>Secrets_Props\<close> shows who reads one, that what was put is read, also after a restart, and that what a send stores and
  delivers holds none, as long as the ledger answers for the secrets: otherwise the text passes as it is.

  \<^bold>\<open>Settings, runs and archives of a fleet.\<close> \<open>Fleet_Config\<close> (fleet/internal/config: fleet.yaml, its
  defaults, what is refused, the workers) with \<open>Config_Props\<close>: accepted settings are sane, every worker has a name of
  its own that leads back to it, no two containers share a token. \<open>Fleet_Model\<close> (daemon/model.go) says which model a
  session is to run and asks for it once. \<open>Fleet_Run\<close> (daemon/run.go) places a brief on an agent;
  \<open>Run_Props\<close> shows that the agent is free, that a container is not shared by two sides, that a retry is not
  placed twice, that the limit is kept, that a brief which did not arrive leaves no open task, and that the agent
  picked is the best free one; and that a named sandbox is not checked. \<open>Fleet_Archive\<close> (fleet/internal/archive)
  copies sessions out of containers that go on writing, and reads, supersedes, restores and prunes the copies.

  \<^bold>\<open>Bounds.\<close> There is no fuel: every recursion is structural or has its measure. Step relations
  allow runs of any length.

  \<^bold>\<open>Not modelled.\<close> Input and output: the HTTP API, the agent's model calls, channels, connectors,
  the terminal interface, the app, the server of the fleet and the rest of its daemon, the browser and voice. Goroutines
  and tickers are replaced by explicit orders of steps. The SQL dialects are read as the relational
  operations they state.
\<close>

end
